(* ===== verification/Prelude.thy ===== *)
theory Prelude
  imports Main "HOL-Library.Word" "HOL-Library.Multiset"
begin

text \<open>
  Shared vocabulary of the development: the result type of fallible Rust functions, the
  three-valued result of \<^verbatim>\<open>Ord::cmp\<close>, machine words, time stamps, and the generic
  lemmas about runs of fallible step functions that the component theories instantiate.
\<close>

section \<open>Collections of facts\<close>

named_theorems result_simps \<open>rewriting of fallible computations\<close>
named_theorems step_intros \<open>preservation facts of state machines\<close>

section \<open>Types\<close>

type_synonym u8 = "8 word"
type_synonym u32 = "32 word"
type_synonym u64 = "64 word"

text \<open>
  A \<^verbatim>\<open>chrono::DateTime<Utc>\<close> or a \<^verbatim>\<open>std::time::Instant\<close> is a number of nanoseconds on
  one time line; a duration is a difference of two of them.
\<close>

type_synonym timestamp = int

abbreviation secs :: "int \<Rightarrow> int" where
  "secs n \<equiv> n * 1000000000"

abbreviation millis :: "int \<Rightarrow> int" where
  "millis n \<equiv> n * 1000000"

datatype ('a, 'e) result = Ok (get_ok: 'a) | Err (get_err: 'e)

datatype ordering = Less | Equal | Greater

section \<open>Fallible computations\<close>

fun is_ok :: "('a, 'e) result \<Rightarrow> bool" where
  "is_ok (Ok _) = True"
| "is_ok (Err _) = False"

text \<open>The \<^verbatim>\<open>?\<close> operator: continue with the value, return the error.\<close>

fun and_then :: "('a, 'e) result \<Rightarrow> ('a \<Rightarrow> ('b, 'e) result) \<Rightarrow> ('b, 'e) result" where
  "and_then (Ok x) f = f x"
| "and_then (Err e) f = Err e"

fun unwrap_or :: "('a, 'e) result \<Rightarrow> 'a \<Rightarrow> 'a" where
  "unwrap_or (Ok x) d = x"
| "unwrap_or (Err e) d = d"

text \<open>\<^verbatim>\<open>Ordering::then\<close> and \<^verbatim>\<open>Ord::cmp\<close> on a linearly ordered type.\<close>

fun ord_then :: "ordering \<Rightarrow> ordering \<Rightarrow> ordering" where
  "ord_then Equal b = b"
| "ord_then a b = a"

definition ord_cmp :: "'a::linorder \<Rightarrow> 'a \<Rightarrow> ordering" where
  "ord_cmp x y = (if x < y then Less else if x = y then Equal else Greater)"

text \<open>
  A loop that applies a fallible step to each element of a list and keeps the previous
  state where the step fails (\<^verbatim>\<open>Err(e) => { warn!(..); state }\<close>).
\<close>

fun run_skip :: "('s \<Rightarrow> 'e \<Rightarrow> ('s, 'x) result) \<Rightarrow> 's \<Rightarrow> 'e list \<Rightarrow> 's" where
  "run_skip step s [] = s"
| "run_skip step s (e # es) = run_skip step (unwrap_or (step s e) s) es"

text \<open>A run that stops at the first error, as the \<^verbatim>\<open>?\<close> operator does.\<close>

fun run_strict :: "('s \<Rightarrow> 'e \<Rightarrow> ('s, 'x) result) \<Rightarrow> 's \<Rightarrow> 'e list \<Rightarrow> ('s, 'x) result" where
  "run_strict step s [] = Ok s"
| "run_strict step s (e # es) = and_then (step s e) (\<lambda>s'. run_strict step s' es)"

text \<open>\<^verbatim>\<open>u64::saturating_add\<close> on the natural-number value, at a given width.\<close>

definition sat_add :: "nat \<Rightarrow> nat \<Rightarrow> nat \<Rightarrow> nat" where
  "sat_add w a b = min (a + b) (2 ^ w - 1)"

text \<open>\<^verbatim>\<open>saturating_add\<close> and \<^verbatim>\<open>saturating_mul\<close> on machine words: the largest word on overflow.\<close>

definition saturating_add :: "'a::len word \<Rightarrow> 'a word \<Rightarrow> 'a word" where
  "saturating_add a b = (if unat a + unat b < 2 ^ LENGTH('a) then a + b else - 1)"

definition saturating_mul :: "'a::len word \<Rightarrow> 'a word \<Rightarrow> 'a word" where
  "saturating_mul a b = (if unat a * unat b < 2 ^ LENGTH('a) then a * b else - 1)"

text \<open>
  The values of a \<^verbatim>\<open>HashMap\<close> in the order \<open>ks\<close> in which an iterator visits its keys. The
  order is unspecified, so every operation that iterates takes it as an argument.
\<close>

definition map_values :: "'k list \<Rightarrow> ('k \<rightharpoonup> 'v) \<Rightarrow> 'v list" where
  "map_values ks m = List.map_filter m ks"

definition iteration_order :: "'k list \<Rightarrow> ('k \<rightharpoonup> 'v) \<Rightarrow> bool" where
  "iteration_order ks m \<longleftrightarrow> distinct ks \<and> set ks = dom m"

section \<open>Lemmas\<close>

declare Let_def [simp] result.split [split]

lemma is_ok_iff [result_simps]: "is_ok r \<longleftrightarrow> (\<exists>x. r = Ok x)"
  by (cases r) auto

lemma not_ok_iff [result_simps]: "\<not> is_ok r \<longleftrightarrow> (\<exists>e. r = Err e)"
  by (cases r) auto

lemma and_then_Ok_iff [result_simps]:
  "and_then r f = Ok y \<longleftrightarrow> (\<exists>x. r = Ok x \<and> f x = Ok y)"
  by (cases r) auto

lemma unwrap_or_cases:
  obtains (ok) x where "r = Ok x" "unwrap_or r d = x"
  | (err) e where "r = Err e" "unwrap_or r d = d"
  by (cases r) auto

lemma ord_cmp_simps [simp]:
  "ord_cmp x y = Less \<longleftrightarrow> x < y"
  "ord_cmp x y = Equal \<longleftrightarrow> x = y"
  "ord_cmp x y = Greater \<longleftrightarrow> y < x"
  by (auto simp: ord_cmp_def)

lemma ord_then_eq [simp]:
  "ord_then a b = Greater \<longleftrightarrow> a = Greater \<or> a = Equal \<and> b = Greater"
  "ord_then a b = Less \<longleftrightarrow> a = Less \<or> a = Equal \<and> b = Less"
  "ord_then a b = Equal \<longleftrightarrow> a = Equal \<and> b = Equal"
  by (cases a; auto)+

lemma run_skip_append [simp]:
  "run_skip step s (xs @ ys) = run_skip step (run_skip step s xs) ys"
  by (induction xs arbitrary: s) auto

lemma run_strict_append:
  "run_strict step s (xs @ ys) = and_then (run_strict step s xs) (\<lambda>s'. run_strict step s' ys)"
proof (induction xs arbitrary: s)
  case (Cons x xs)
  then show ?case by (cases "step s x") auto
qed simp

text \<open>A run without an error is the same run with skipping.\<close>

lemma run_strict_run_skip: "run_strict step s es = Ok s' \<Longrightarrow> run_skip step s es = s'"
proof (induction es arbitrary: s)
  case (Cons e es)
  then show ?case by (cases "step s e") auto
qed simp

lemma sat_add_bounds: "sat_add w a b < 2 ^ w" "sat_add w a b \<le> a + b"
  "a < 2 ^ w \<Longrightarrow> a \<le> sat_add w a b"
proof -
  have pos: "(0::nat) < 2 ^ w" by simp
  then have "min (a + b) (2 ^ w - 1) < 2 ^ w" by linarith
  then show "sat_add w a b < 2 ^ w" by (simp only: sat_add_def)
  show "sat_add w a b \<le> a + b" by (simp add: sat_add_def)
  show "a < 2 ^ w \<Longrightarrow> a \<le> sat_add w a b" by (auto simp: sat_add_def)
qed

lemma saturating_add_ge: "(a :: 'a::len word) \<le> saturating_add a b"
proof (cases "unat a + unat b < 2 ^ LENGTH('a)")
  case True
  then show ?thesis by (simp add: saturating_add_def word_le_nat_alt unat_word_ariths)
qed (simp add: saturating_add_def)

lemma unat_saturating_mul:
  fixes a b :: "'a::len word"
  assumes "unat a * unat b < 2 ^ LENGTH('a)"
  shows "unat (saturating_mul a b) = unat a * unat b"
  using assms by (simp add: saturating_mul_def unat_word_ariths)

text \<open>The first element of a stable sort is a least element of the list.\<close>

lemma hd_sort_key:
  assumes "sort_key f xs = y # ys"
  shows "y \<in> set xs" "\<And>x. x \<in> set xs \<Longrightarrow> f y \<le> f x"
proof -
  have "y \<in> set (sort_key f xs)" using assms by simp
  then show "y \<in> set xs" by simp
  fix x assume "x \<in> set xs"
  then have "x \<in> set (sort_key f xs)" by simp
  moreover have "sorted (map f (sort_key f xs))" by simp
  ultimately show "f y \<le> f x" using assms by auto
qed

lemma sort_key_eq_Nil [simp]: "sort_key f xs = [] \<longleftrightarrow> xs = []"
  by (metis length_0_conv length_sort)

lemma map_values_Nil [simp]: "map_values [] m = []"
  by (simp add: map_values_def List.map_filter_simps)

lemma map_values_Cons [simp]:
  "map_values (k # ks) m = (case m k of None \<Rightarrow> map_values ks m | Some v \<Rightarrow> v # map_values ks m)"
  by (simp add: map_values_def List.map_filter_simps split: option.split)

lemma set_map_values [simp]: "set (map_values ks m) = {v. \<exists>k \<in> set ks. m k = Some v}"
  by (induction ks) (auto split: option.splits)

lemma set_map_values_order: "iteration_order ks m \<Longrightarrow> set (map_values ks m) = ran m"
  by (auto simp: iteration_order_def ran_def)

section \<open>State machines with fallible steps\<close>

text \<open>
  The contract a component's step function gives its clients: a well-formedness predicate
  that every accepted step keeps. Whatever the clients run on top of it keeps it too.
\<close>

locale fallible_machine =
  fixes step :: "'s \<Rightarrow> 'e \<Rightarrow> ('s, 'x) result"
    and inv :: "'s \<Rightarrow> bool"
  assumes step_inv: "inv s \<Longrightarrow> step s e = Ok s' \<Longrightarrow> inv s'"
begin

lemma skip_step_inv: "inv s \<Longrightarrow> inv (unwrap_or (step s e) s)"
  by (cases "step s e") (auto intro: step_inv)

lemma run_skip_inv: "inv s \<Longrightarrow> inv (run_skip step s es)"
  by (induction es arbitrary: s) (auto intro: skip_step_inv)

lemma run_strict_inv: "inv s \<Longrightarrow> run_strict step s es = Ok s' \<Longrightarrow> inv s'"
  by (metis run_strict_run_skip run_skip_inv)

end

text \<open>
  A machine whose accepted steps also relate the state before to the state after by a
  reflexive and transitive relation (nothing is forgotten, a counter never goes down).
\<close>

locale monotone_machine =
  fixes step :: "'s \<Rightarrow> 'e \<Rightarrow> ('s, 'x) result"
    and le :: "'s \<Rightarrow> 's \<Rightarrow> bool"
  assumes le_refl: "le s s"
    and le_trans: "le s t \<Longrightarrow> le t u \<Longrightarrow> le s u"
    and step_le: "step s e = Ok s' \<Longrightarrow> le s s'"
begin

lemma run_skip_le: "le s (run_skip step s es)"
proof (induction es arbitrary: s)
  case (Cons e es)
  have "le s (unwrap_or (step s e) s)"
    by (cases "step s e") (auto intro: step_le le_refl)
  with Cons.IH show ?case by (auto intro: le_trans)
qed (simp add: le_refl)

end

end
