(* ===== verification/Task_Reducer.thy ===== *)
theory Task_Reducer
  imports Prelude
begin

text \<open>
  The data and the transition function of the Task State Engine:
  \<^verbatim>\<open>tasks/schema.rs\<close>, \<^verbatim>\<open>tasks/events.rs\<close> and \<^verbatim>\<open>tasks/reducer.rs\<close>. The type variable
  \<open>'v\<close> stands for \<^verbatim>\<open>serde_json::Value\<close>, which the reducer carries and never inspects.
\<close>

section \<open>Data: schema.rs and events.rs\<close>

datatype risk_level = LowRisk | MediumRisk | HighRisk | CriticalRisk

datatype priority = LowPriority | MediumPriority | HighPriority | CriticalPriority

record task_spec =
  spec_id :: string
  spec_title :: string
  spec_repo :: string
  spec_summary :: "string option"
  spec_acceptance_criteria :: "string list"
  spec_test_plan :: "string option"
  spec_risk_level :: risk_level
  spec_priority :: priority
  spec_labels :: "string list"
  spec_owner :: "string option"
  spec_worktree_path :: "string option"
  spec_worktree_branch :: "string option"
  spec_created_at :: timestamp

datatype 'v task_event_kind =
    TaskCreated task_spec
  | TaskPlanned "'v list"
  | TaskClaimed (claim_agent_id: string) (claim_role: string)
  | TaskActive
  | TaskBlocked (blocked_reason: string) (blocked_retry_after: "timestamp option")
  | TaskNeedsApproval (needs_approval_id: string) (needs_tool_name: string) (needs_risk_level: string)
  | TaskCodeReview (reviewer_id: "string option")
  | TaskQa (qa_agent_id: "string option")
  | TaskDone (completion_notes: string)
  | TaskCanceled (cancel_reason: string)
  | TaskFailed (fail_error: string)
  | ToolCalled (called_tool: string) (called_arguments_hash: string) (called_key: string)
  | ToolResult (result_key: string) (result_success: bool) (result_output_summary: string)
  | CheckpointCreated (checkpoint_seq: nat)
  | ApprovalRequested (requested_id: string) (requested_tool: string) (requested_risk: string)
  | ApprovalGranted (granted_id: string) (granted_by: string)
  | ApprovalDenied (denied_id: string) (denied_by: string) (denied_reason: string)

record 'v task_event =
  ev_task_id :: string
  ev_seq :: nat
  ev_ts :: timestamp
  ev_actor :: string
  ev_correlation_id :: string
  ev_kind :: "'v task_event_kind"

definition new_task_event ::
  "string \<Rightarrow> nat \<Rightarrow> timestamp \<Rightarrow> string \<Rightarrow> string \<Rightarrow> 'v task_event_kind \<Rightarrow> 'v task_event" where
  "new_task_event task_id seq now actor correlation_id kind =
     \<lparr>ev_task_id = task_id, ev_seq = seq, ev_ts = now, ev_actor = actor,
      ev_correlation_id = correlation_id, ev_kind = kind\<rparr>"

section \<open>The reducer: reducer.rs\<close>

datatype task_state =
    Pending | Planned | Claimed | Active | Blocked | NeedsApproval | CodeReview | Qa
  | Done | Canceled | Failed

record materialized_task =
  mt_spec :: task_spec
  mt_state :: task_state
  mt_claimed_by :: "string option"
  mt_pending_approval_id :: "string option"
  mt_event_seq :: nat
  mt_seen_idempotency_keys :: "string set"
  mt_updated_at :: timestamp

definition initial_task :: "task_spec \<Rightarrow> materialized_task" where
  "initial_task spec =
     \<lparr>mt_spec = spec, mt_state = Pending, mt_claimed_by = None, mt_pending_approval_id = None,
      mt_event_seq = 0, mt_seen_idempotency_keys = {}, mt_updated_at = spec_created_at spec\<rparr>"

text \<open>The error of a refused transition: the event's name and the state it met.\<close>

datatype reduce_error = InvalidTransition string task_state

definition refuse :: "string \<Rightarrow> materialized_task \<Rightarrow> (materialized_task, reduce_error) result" where
  "refuse name st = Err (InvalidTransition name (mt_state st))"

text \<open>The \<^verbatim>\<open>match &event.kind\<close> of \<^verbatim>\<open>reduce\<close>, on the state that already carries the stamp.\<close>

fun reduce_kind ::
  "materialized_task \<Rightarrow> 'v task_event_kind \<Rightarrow> (materialized_task, reduce_error) result" where
  "reduce_kind st (TaskCreated spec) = Ok (st\<lparr>mt_spec := spec, mt_state := Pending\<rparr>)"
| "reduce_kind st (TaskPlanned phases) =
     (if mt_state st = Pending then Ok (st\<lparr>mt_state := Planned\<rparr>)
      else refuse ''TaskPlanned'' st)"
| "reduce_kind st (TaskClaimed agent_id role) =
     (if mt_state st \<in> {Pending, Planned} then Ok (st\<lparr>mt_claimed_by := Some agent_id\<rparr>)
      else refuse ''TaskClaimed'' st)"
| "reduce_kind st TaskActive =
     (if mt_state st \<in> {Pending, Planned, Blocked, CodeReview, Qa}
      then Ok (st\<lparr>mt_state := Active, mt_pending_approval_id := None\<rparr>)
      else refuse ''TaskActive'' st)"
| "reduce_kind st (TaskBlocked reason retry_after) =
     (if mt_state st \<in> {Active, Blocked} then Ok (st\<lparr>mt_state := Blocked\<rparr>)
      else refuse ''TaskBlocked'' st)"
| "reduce_kind st (TaskNeedsApproval approval_id tool_name risk) =
     (if mt_state st = Active
      then Ok (st\<lparr>mt_state := NeedsApproval, mt_pending_approval_id := Some approval_id\<rparr>)
      else refuse ''TaskNeedsApproval'' st)"
| "reduce_kind st (TaskCodeReview reviewer) =
     (if mt_state st = Active then Ok (st\<lparr>mt_state := CodeReview\<rparr>)
      else refuse ''TaskCodeReview'' st)"
| "reduce_kind st (TaskQa qa_agent) =
     (if mt_state st = CodeReview then Ok (st\<lparr>mt_state := Qa\<rparr>)
      else refuse ''TaskQa'' st)"
| "reduce_kind st (TaskDone notes) =
     (if mt_state st \<in> {Qa, Active} then Ok (st\<lparr>mt_state := Done\<rparr>)
      else refuse ''TaskDone'' st)"
| "reduce_kind st (TaskCanceled reason) =
     (if mt_state st \<in> {Done, Canceled, Failed} then refuse ''TaskCanceled'' st
      else Ok (st\<lparr>mt_state := Canceled\<rparr>))"
| "reduce_kind st (TaskFailed error) =
     (if mt_state st \<in> {Done, Canceled, Failed} then refuse ''TaskFailed'' st
      else Ok (st\<lparr>mt_state := Failed\<rparr>))"
| "reduce_kind st (ToolCalled tool_name arguments_hash key) =
     (if key \<in> mt_seen_idempotency_keys st then Ok st
      else Ok (st\<lparr>mt_seen_idempotency_keys := insert key (mt_seen_idempotency_keys st)\<rparr>))"
| "reduce_kind st (ToolResult key success output_summary) =
     Ok (st\<lparr>mt_seen_idempotency_keys := insert key (mt_seen_idempotency_keys st)\<rparr>)"
| "reduce_kind st (CheckpointCreated seq) = Ok st"
| "reduce_kind st (ApprovalRequested approval_id tool_name risk) =
     Ok (st\<lparr>mt_pending_approval_id := Some approval_id\<rparr>)"
| "reduce_kind st (ApprovalGranted approval_id who) =
     (let st' = st\<lparr>mt_pending_approval_id := None\<rparr>
      in Ok (if mt_state st' = NeedsApproval then st'\<lparr>mt_state := Active\<rparr> else st'))"
| "reduce_kind st (ApprovalDenied approval_id who reason) =
     (let st' = st\<lparr>mt_pending_approval_id := None\<rparr>
      in Ok (if mt_state st' = NeedsApproval then st'\<lparr>mt_state := Blocked\<rparr> else st'))"

definition reduce ::
  "materialized_task \<Rightarrow> 'v task_event \<Rightarrow> (materialized_task, reduce_error) result" where
  "reduce st event =
     reduce_kind (st\<lparr>mt_event_seq := ev_seq event, mt_updated_at := ev_ts event\<rparr>) (ev_kind event)"

datatype write_error = WriteRefused task_state "string option"

definition check_write_allowed :: "materialized_task \<Rightarrow> (unit, write_error) result" where
  "check_write_allowed st =
     (if mt_state st = Active \<and> mt_claimed_by st \<noteq> None then Ok ()
      else Err (WriteRefused (mt_state st) (mt_claimed_by st)))"

section \<open>Terminal states and approvals\<close>

abbreviation terminal :: "task_state \<Rightarrow> bool" where
  "terminal s \<equiv> s \<in> {Done, Canceled, Failed}"

text \<open>The part of a task that replay must reconstruct: everything but the two stamps.\<close>

definition unstamp :: "materialized_task \<Rightarrow> materialized_task" where
  "unstamp st = st\<lparr>mt_event_seq := 0, mt_updated_at := 0\<rparr>"

definition settles_approval :: "'v task_event_kind \<Rightarrow> bool" where
  "settles_approval k \<longleftrightarrow> is_ApprovalGranted k \<or> is_ApprovalDenied k \<or> is_TaskCreated k"

text \<open>A concrete task and its events, for the witnesses.\<close>

abbreviation sample_spec :: task_spec where
  "sample_spec \<equiv>
     \<lparr>spec_id = ''t1'', spec_title = ''Test'', spec_repo = ''/tmp'', spec_summary = None,
      spec_acceptance_criteria = [], spec_test_plan = None, spec_risk_level = LowRisk,
      spec_priority = MediumPriority, spec_labels = [], spec_owner = None,
      spec_worktree_path = None, spec_worktree_branch = None, spec_created_at = 0\<rparr>"

abbreviation sample_event :: "nat \<Rightarrow> unit task_event_kind \<Rightarrow> unit task_event" where
  "sample_event n k \<equiv> new_task_event ''t1'' n (int n) ''daemon'' ''corr'' k"

section \<open>Lemmas\<close>


text \<open>Every accepted step stamps the state with the event's number and time.\<close>

lemma reduce_stamps:
  "reduce st e = Ok st' \<Longrightarrow> mt_event_seq st' = ev_seq e \<and> mt_updated_at st' = ev_ts e"
  by (cases "ev_kind e"; fastforce simp: reduce_def refuse_def split: if_splits)

lemma reduce_Err_state: "reduce st e = Err (InvalidTransition n s) \<Longrightarrow> s = mt_state st"
  by (cases "ev_kind e"; fastforce simp: reduce_def refuse_def split: if_splits)

lemma reduce_never_claimed:
  "mt_state st \<noteq> Claimed \<Longrightarrow> reduce st e = Ok st' \<Longrightarrow> mt_state st' \<noteq> Claimed"
  by (cases "ev_kind e"; fastforce simp: reduce_def refuse_def split: if_splits)

lemma reduce_keys_mono:
  "reduce st e = Ok st' \<Longrightarrow> mt_seen_idempotency_keys st \<subseteq> mt_seen_idempotency_keys st'"
  by (cases "ev_kind e"; fastforce simp: reduce_def refuse_def split: if_splits)

lemma reduce_claimed_by:
  "reduce st e = Ok st' \<Longrightarrow> mt_claimed_by st' =
     (case ev_kind e of TaskClaimed a r \<Rightarrow> Some a | _ \<Rightarrow> mt_claimed_by st)"
  by (cases "ev_kind e"; fastforce simp: reduce_def refuse_def split: if_splits)


interpretation task_states: fallible_machine "reduce :: materialized_task \<Rightarrow> 'v task_event \<Rightarrow> _"
  "\<lambda>st. mt_state st \<noteq> Claimed"
  by unfold_locales (rule reduce_never_claimed)

interpretation task_keys: monotone_machine "reduce :: materialized_task \<Rightarrow> 'v task_event \<Rightarrow> _"
  "\<lambda>s t. mt_seen_idempotency_keys s \<subseteq> mt_seen_idempotency_keys t"
  by unfold_locales (auto dest: reduce_keys_mono)

text \<open>While nothing settles a pending approval, the task can only be cancelled or fail.\<close>

lemma reduce_waiting:
  "mt_state st \<in> {NeedsApproval, Canceled, Failed} \<Longrightarrow> \<not> settles_approval (ev_kind e) \<Longrightarrow>
   mt_state (unwrap_or (reduce st e) st) \<in> {NeedsApproval, Canceled, Failed}"
  by (cases "ev_kind e"; cases "mt_state st"; simp add: reduce_def refuse_def settles_approval_def)

lemma reduce_terminal:
  "terminal (mt_state st) \<Longrightarrow> \<not> is_TaskCreated (ev_kind e) \<Longrightarrow>
   mt_state (unwrap_or (reduce st e) st) = mt_state st"
  by (cases "ev_kind e"; cases "mt_state st"; simp add: reduce_def refuse_def)

text \<open>The stamps never decide a transition: equal states up to the stamps step alike.\<close>

lemma unstamp_eq_iff:
  "unstamp s = unstamp t \<longleftrightarrow>
     mt_spec s = mt_spec t \<and> mt_state s = mt_state t \<and> mt_claimed_by s = mt_claimed_by t \<and>
     mt_pending_approval_id s = mt_pending_approval_id t \<and>
     mt_seen_idempotency_keys s = mt_seen_idempotency_keys t"
  by (cases s; cases t) (auto simp: unstamp_def)

lemma reduce_unstamp:
  "unstamp s = unstamp t \<Longrightarrow>
   unstamp (unwrap_or (reduce s e) s) = unstamp (unwrap_or (reduce t e) t)"
  by (cases "ev_kind e"; simp add: reduce_def refuse_def unstamp_eq_iff)

lemma run_unstamp:
  "unstamp s = unstamp t \<Longrightarrow> unstamp (run_skip reduce s es) = unstamp (run_skip reduce t es)"
proof (induction es arbitrary: s t)
  case (Cons e es)
  from Cons.IH [OF reduce_unstamp [OF Cons.prems]] show ?case by simp
qed simp

lemma reduce_duplicate_call:
  "ev_kind e = ToolCalled tool hash key \<Longrightarrow> key \<in> mt_seen_idempotency_keys st \<Longrightarrow>
   reduce st e = Ok (st\<lparr>mt_event_seq := ev_seq e, mt_updated_at := ev_ts e\<rparr>)"
  by (simp add: reduce_def)

lemma reduce_records_key:
  "ev_kind e = ToolCalled tool hash key \<Longrightarrow>
   key \<in> mt_seen_idempotency_keys (unwrap_or (reduce st e) st)"
  by (simp add: reduce_def)

lemma run_records_key:
  assumes "e \<in> set es" "ev_kind e = ToolCalled tool hash key"
  shows "key \<in> mt_seen_idempotency_keys (run_skip reduce st es)"
proof -
  from assms(1) obtain xs ys where es: "es = xs @ e # ys" by (auto dest: split_list)
  have "key \<in> mt_seen_idempotency_keys (unwrap_or (reduce (run_skip reduce st xs) e) (run_skip reduce st xs))"
    using assms(2) by (rule reduce_records_key)
  with es show ?thesis
    using task_keys.run_skip_le [where es = ys] by auto
qed

text \<open>The claimant of a run is the one it started with, or an agent some event names.\<close>

lemma run_claimed_by:
  "mt_claimed_by (run_skip reduce st es) = Some a \<Longrightarrow>
   mt_claimed_by st = Some a \<or> (\<exists>e \<in> set es. \<exists>r. ev_kind e = TaskClaimed a r)"
proof (induction es arbitrary: st)
  case (Cons e es)
  have "mt_claimed_by (unwrap_or (reduce st e) st) = Some a \<Longrightarrow>
      mt_claimed_by st = Some a \<or> (\<exists>r. ev_kind e = TaskClaimed a r)"
    using reduce_claimed_by [of st e] by (cases "reduce st e"; cases "ev_kind e"; force)
  moreover have "mt_claimed_by (unwrap_or (reduce st e) st) = Some a \<or>
      (\<exists>e \<in> set es. \<exists>r. ev_kind e = TaskClaimed a r)"
    using Cons.IH [of "unwrap_or (reduce st e) st"] Cons.prems by simp
  ultimately show ?case by (metis list.set_intros(1) list.set_intros(2))
qed simp

lemma reduce_activates:
  "mt_state (unwrap_or (reduce st e) st) = Active \<Longrightarrow>
   mt_state st = Active \<or> ev_kind e = TaskActive \<or> is_ApprovalGranted (ev_kind e)"
  by (cases "ev_kind e"; fastforce simp: reduce_def refuse_def split: if_splits)

lemma run_activated:
  "mt_state (run_skip reduce st es) = Active \<Longrightarrow>
   mt_state st = Active \<or> (\<exists>e \<in> set es. ev_kind e = TaskActive \<or> is_ApprovalGranted (ev_kind e))"
proof (induction es arbitrary: st)
  case (Cons e es)
  with Cons.IH [of "unwrap_or (reduce st e) st"] reduce_activates [of st e] show ?case
    by (metis list.set_intros(1) list.set_intros(2) run_skip.simps(2))
qed simp

section \<open>Properties\<close>

text \<open>An event that creates the task is accepted in every state, also in a terminal one: the task is pending again, and
  the agent that had claimed it and an approval it waited for are still recorded.\<close>

theorem recreated_task_keeps_claim:
  assumes "ev_kind e = TaskCreated spec"
  shows "\<exists>st'. reduce st e = Ok st' \<and> mt_state st' = Pending \<and> mt_claimed_by st' = mt_claimed_by st \<and>
    mt_pending_approval_id st' = mt_pending_approval_id st"
  using assms by (simp add: reduce_def)

text \<open>C21: The approval gate. From a task that waits for an approval, a replay of events none of
  which grants or denies an approval or re-creates the task never reaches Active (nor any
  other working state): the task still waits, or was cancelled, or failed.\<close>

theorem approval_gate:
  assumes "mt_state st = NeedsApproval"
    and "\<forall>e \<in> set es. \<not> settles_approval (ev_kind e)"
  shows "mt_state (run_skip reduce st es) \<in> {NeedsApproval, Canceled, Failed}"
proof -
  have "mt_state st \<in> {NeedsApproval, Canceled, Failed} \<Longrightarrow> ?thesis"
    using assms(2)
  proof (induction es arbitrary: st)
    case (Cons e es)
    then show ?case
      using reduce_waiting [of st e] by (metis list.set_intros(1) list.set_intros(2) run_skip.simps(2))
  qed simp
  with assms(1) show ?thesis by simp
qed

theorem approval_gate_witness:
  "mt_state (run_skip reduce ((initial_task sample_spec)\<lparr>mt_state := NeedsApproval\<rparr>)
     [sample_event 1 TaskActive, sample_event 2 (TaskCanceled ''stop'')]) \<in> {NeedsApproval, Canceled, Failed}"
  using approval_gate [of "(initial_task sample_spec)\<lparr>mt_state := NeedsApproval\<rparr>"
      "[sample_event 1 TaskActive, sample_event 2 (TaskCanceled ''stop'')]"]
  by (simp add: settles_approval_def new_task_event_def)

text \<open>C22: Terminal states absorb: once a task is Done, Canceled or Failed, no run of events
  changes its life-cycle state, unless the log re-creates the task.\<close>

theorem terminal_absorbing:
  assumes "terminal (mt_state st)"
    and "\<forall>e \<in> set es. \<not> is_TaskCreated (ev_kind e)"
  shows "mt_state (run_skip reduce st es) = mt_state st"
  using assms
proof (induction es arbitrary: st)
  case (Cons e es)
  then show ?case
    using reduce_terminal [of st e] by (metis list.set_intros(1) list.set_intros(2) run_skip.simps(2))
qed simp

theorem terminal_absorbing_witness:
  "mt_state (run_skip reduce ((initial_task sample_spec)\<lparr>mt_state := Done\<rparr>)
     [sample_event 1 TaskActive, sample_event 2 (TaskFailed ''late'')]) = Done"
  using terminal_absorbing [of "(initial_task sample_spec)\<lparr>mt_state := Done\<rparr>"
      "[sample_event 1 TaskActive, sample_event 2 (TaskFailed ''late'')]"]
  by (simp add: new_task_event_def)

text \<open>C23: A task that was only ever built from its event log may be written to only if the log
  holds a claim by the very agent recorded as the claimant, and an event that activated it.\<close>

theorem write_needs_claim_and_activation:
  assumes "check_write_allowed (run_skip reduce (initial_task spec) es) = Ok ()"
  shows "\<exists>a. mt_claimed_by (run_skip reduce (initial_task spec) es) = Some a \<and>
           (\<exists>e \<in> set es. \<exists>r. ev_kind e = TaskClaimed a r) \<and>
           (\<exists>e \<in> set es. ev_kind e = TaskActive \<or> is_ApprovalGranted (ev_kind e))"
proof -
  let ?st = "run_skip reduce (initial_task spec) es"
  from assms have act: "mt_state ?st = Active" and "mt_claimed_by ?st \<noteq> None"
    by (auto simp: check_write_allowed_def split: if_splits)
  then obtain a where a: "mt_claimed_by ?st = Some a" by auto
  from run_claimed_by [OF a] run_activated [OF act] a show ?thesis
    by (auto simp: initial_task_def)
qed

theorem write_needs_claim_and_activation_witness:
  "\<exists>a. mt_claimed_by (run_skip reduce (initial_task sample_spec)
      [sample_event 1 (TaskClaimed ''agent-1'' ''impl''), sample_event 2 TaskActive]) = Some a"
  using write_needs_claim_and_activation [of sample_spec
      "[sample_event 1 (TaskClaimed ''agent-1'' ''impl''), sample_event 2 TaskActive]"]
  by (simp add: check_write_allowed_def reduce_def initial_task_def new_task_event_def)

text \<open>Tool calls are idempotent over a whole log: a second call with a key that was already
  called leaves no trace in the rebuilt task but its two stamps, wherever it stands.\<close>

theorem duplicate_tool_call_invisible:
  assumes "e \<in> set xs" "ev_kind e = ToolCalled tool hash key"
    and "ev_kind d = ToolCalled tool' hash' key"
  shows "unstamp (run_skip reduce st (xs @ d # ys)) = unstamp (run_skip reduce st (xs @ ys))"
proof -
  let ?s = "run_skip reduce st xs"
  have "key \<in> mt_seen_idempotency_keys ?s" using assms(1,2) by (rule run_records_key)
  with assms(3) have "unstamp (unwrap_or (reduce ?s d) ?s) = unstamp ?s"
    by (simp add: reduce_duplicate_call unstamp_def)
  then show ?thesis using run_unstamp by simp
qed

theorem duplicate_tool_call_invisible_witness:
  "unstamp (run_skip reduce (initial_task sample_spec)
      ([sample_event 1 (ToolCalled ''read'' ''h'' ''k'')] @
        sample_event 2 (ToolCalled ''read'' ''h'' ''k'') # [sample_event 3 TaskActive])) =
   unstamp (run_skip reduce (initial_task sample_spec)
      ([sample_event 1 (ToolCalled ''read'' ''h'' ''k'')] @ [sample_event 3 TaskActive]))"
  by (rule duplicate_tool_call_invisible [of "sample_event 1 (ToolCalled ''read'' ''h'' ''k'')" _
        "''read''" "''h''" "''k''" _ "''read''" "''h''"])
     (simp_all add: new_task_event_def)

end
