(* ===== verification/Rust_Strings.thy ===== *)
theory Rust_Strings
  imports Prelude "HOL-Library.Sublist" "HOL-Library.List_Lexorder" "HOL-Library.Char_ord"
begin

text \<open>
  The operations of Rust's \<^verbatim>\<open>str\<close> and of \<^verbatim>\<open>format!\<close> that the modelled code calls: \<^verbatim>\<open>lines\<close>,
  \<^verbatim>\<open>trim\<close>, \<^verbatim>\<open>starts_with\<close>, \<^verbatim>\<open>ends_with\<close>, \<^verbatim>\<open>contains\<close>, \<^verbatim>\<open>to_lowercase\<close> (on ASCII), \<^verbatim>\<open>strip_prefix\<close>,
  \<^verbatim>\<open>split\<close>, and decimal formatting with zero padding. A character is a HOL \<open>char\<close>,
  that is a code point below 256.
\<close>

section \<open>Definitions\<close>

abbreviation NL :: char where "NL \<equiv> CHR 0x0A"
abbreviation CR :: char where "CR \<equiv> CHR 0x0D"

text \<open>\<^verbatim>\<open>char::is_whitespace\<close> (Unicode White_Space) on these code points.\<close>

definition is_whitespace :: "char \<Rightarrow> bool" where
  "is_whitespace c \<longleftrightarrow>
     c \<in> {CHR 0x09, CHR 0x0A, CHR 0x0B, CHR 0x0C, CHR 0x0D, CHR 0x20, CHR 0x85, CHR 0xA0}"

definition trim_start :: "string \<Rightarrow> string" where
  "trim_start s = dropWhile is_whitespace s"

definition trim_end :: "string \<Rightarrow> string" where
  "trim_end s = rev (dropWhile is_whitespace (rev s))"

definition trim :: "string \<Rightarrow> string" where
  "trim s = trim_end (trim_start s)"

definition strip_cr :: "string \<Rightarrow> string" where
  "strip_cr l = (if l \<noteq> [] \<and> last l = CR then butlast l else l)"

text \<open>
  \<^verbatim>\<open>str::lines\<close>: pieces that end in a line feed, which is removed together with a carriage
  return before it; a last piece without a line feed is returned as it is, an empty one is not.
\<close>

function lines :: "string \<Rightarrow> string list" where
  "lines s =
     (if s = [] then []
      else if NL \<in> set s
        then strip_cr (takeWhile (\<lambda>c. c \<noteq> NL) s) # lines (tl (dropWhile (\<lambda>c. c \<noteq> NL) s))
        else [s])"
  by pat_completeness auto
termination
proof (relation "measure length", simp, goal_cases)
  case (1 s)
  have "length (dropWhile (\<lambda>c. c \<noteq> NL) s) \<le> length s" by (rule length_dropWhile_le)
  moreover have "dropWhile (\<lambda>c. c \<noteq> NL) s \<noteq> []" using 1 by simp
  ultimately show ?case using 1(1) by (cases "dropWhile (\<lambda>c. c \<noteq> NL) s") auto
qed

declare lines.simps [simp del]

definition starts_with :: "string \<Rightarrow> string \<Rightarrow> bool" where
  "starts_with s p \<longleftrightarrow> prefix p s"

definition ends_with :: "string \<Rightarrow> string \<Rightarrow> bool" where
  "ends_with s p \<longleftrightarrow> suffix p s"

fun contains :: "string \<Rightarrow> string \<Rightarrow> bool" where
  "contains [] p = (p = [])"
| "contains (c # s) p = (prefix p (c # s) \<or> contains s p)"

definition strip_prefix :: "string \<Rightarrow> string \<Rightarrow> string option" where
  "strip_prefix s p = (if prefix p s then Some (drop (length p) s) else None)"

definition strip_suffix :: "string \<Rightarrow> string \<Rightarrow> string option" where
  "strip_suffix s p = (if suffix p s then Some (take (length s - length p) s) else None)"

text \<open>\<^verbatim>\<open>to_ascii_lowercase\<close>; \<^verbatim>\<open>to_lowercase\<close> agrees with it on ASCII text.\<close>

definition lower_char :: "char \<Rightarrow> char" where
  "lower_char c = (if CHR 0x41 \<le> c \<and> c \<le> CHR 0x5A then char_of (of_char c + 32 :: nat) else c)"

definition lowercase :: "string \<Rightarrow> string" where
  "lowercase s = map lower_char s"

text \<open>\<^verbatim>\<open>str::split\<close> at one character: always at least one piece.\<close>

fun split_char :: "char \<Rightarrow> string \<Rightarrow> string list" where
  "split_char d [] = [[]]"
| "split_char d (c # s) =
     (if c = d then [] # split_char d s
      else case split_char d s of [] \<Rightarrow> [[c]] | p # ps \<Rightarrow> (c # p) # ps)"

text \<open>\<^verbatim>\<open>str::parse\<close> for a 64-bit unsigned integer: an optional plus sign and decimal digits.\<close>

definition is_digit :: "char \<Rightarrow> bool" where
  "is_digit c \<longleftrightarrow> CHR 0x30 \<le> c \<and> c \<le> CHR 0x39"

definition parse_u64 :: "string \<Rightarrow> nat option" where
  "parse_u64 s =
     (let ds = (if s \<noteq> [] \<and> hd s = CHR 0x2B then tl s else s);
          n = foldl (\<lambda>acc c. acc * 10 + (of_char c - 48)) 0 ds
      in if ds \<noteq> [] \<and> list_all is_digit ds \<and> n < 2 ^ 64 then Some n else None)"

text \<open>\<^verbatim>\<open>str::trim_start_matches\<close> with a non-empty string pattern.\<close>

function trim_start_matches :: "string \<Rightarrow> string \<Rightarrow> string" where
  "trim_start_matches p s = (if p \<noteq> [] \<and> prefix p s then trim_start_matches p (drop (length p) s) else s)"
  by pat_completeness auto
termination
  by (relation "measure (\<lambda>(p, s). length s)") (auto simp: prefix_def)

declare trim_start_matches.simps [simp del]

text \<open>\<^verbatim>\<open>trim_end_matches\<close> with a non-empty string pattern.\<close>

function trim_end_matches :: "string \<Rightarrow> string \<Rightarrow> string" where
  "trim_end_matches p s =
     (if p \<noteq> [] \<and> suffix p s then trim_end_matches p (take (length s - length p) s) else s)"
  by pat_completeness auto
termination
  by (relation "measure (\<lambda>(p, s). length s)") (auto simp: suffix_def)

declare trim_end_matches.simps [simp del]

text \<open>A placeholder in single quotes, as the error messages print names.\<close>

definition quoted :: "string \<Rightarrow> string" where
  "quoted s = [CHR 0x27] @ s @ [CHR 0x27]"

text \<open>Decimal digits of a number, most significant first, and \<^verbatim>\<open>{:0w}\<close> padding.\<close>

definition digit_char :: "nat \<Rightarrow> char" where
  "digit_char d = char_of (48 + d)"

fun show_nat :: "nat \<Rightarrow> string" where
  "show_nat n = (if n < 10 then [digit_char n] else show_nat (n div 10) @ [digit_char (n mod 10)])"

declare show_nat.simps [simp del]

definition show_int :: "int \<Rightarrow> string" where
  "show_int i = (if i < 0 then ''-'' @ show_nat (nat (- i)) else show_nat (nat i))"

text \<open>\<^verbatim>\<open>join\<close> of a list of strings.\<close>

fun join :: "string \<Rightarrow> string list \<Rightarrow> string" where
  "join sep [] = []"
| "join sep [x] = x"
| "join sep (x # y # xs) = x @ sep @ join sep (y # xs)"

definition pad_zero :: "nat \<Rightarrow> string \<Rightarrow> string" where
  "pad_zero w s = replicate (w - length s) (digit_char 0) @ s"

text \<open>The last \<open>w\<close> decimal digits of \<open>n\<close>: the reference for a padded number that fits.\<close>

primrec fixed_digits :: "nat \<Rightarrow> nat \<Rightarrow> string" where
  "fixed_digits 0 n = []"
| "fixed_digits (Suc w) n = fixed_digits w (n div 10) @ [digit_char (n mod 10)]"

text \<open>\<^verbatim>\<open>str::as_bytes\<close>.\<close>

definition as_bytes :: "string \<Rightarrow> u8 list" where
  "as_bytes s = map of_char s"

section \<open>Lemmas\<close>

lemma lines_Nil [simp]: "lines [] = []"
  by (simp add: lines.simps)

lemma lines_Cons_line:
  assumes "NL \<notin> set l"
  shows "lines (l @ NL # rest) = strip_cr l # lines rest"
proof -
  have "takeWhile (\<lambda>c. c \<noteq> NL) (l @ NL # rest) = l"
    and "dropWhile (\<lambda>c. c \<noteq> NL) (l @ NL # rest) = NL # rest"
    using assms by (auto simp: takeWhile_append dropWhile_append dest: set_takeWhileD)
  then show ?thesis by (subst lines.simps) simp
qed

lemma lines_last_piece: "NL \<notin> set t \<Longrightarrow> t \<noteq> [] \<Longrightarrow> lines t = [t]"
  by (subst lines.simps) simp

lemma trim_snoc_whitespace:
  assumes "is_whitespace c"
  shows "trim (l @ [c]) = trim l"
proof (cases "\<forall>x \<in> set l. is_whitespace x")
  case True
  then have "dropWhile is_whitespace l = []" "dropWhile is_whitespace (l @ [c]) = []"
    using assms by (simp_all add: dropWhile_eq_Nil_conv)
  then show ?thesis by (simp only: trim_def trim_start_def)
next
  case False
  then have "dropWhile is_whitespace (l @ [c]) = dropWhile is_whitespace l @ [c]"
    by (auto simp: dropWhile_append)
  with assms show ?thesis by (simp add: trim_def trim_start_def trim_end_def)
qed

lemma trim_strip_cr [simp]: "trim (strip_cr l) = trim l"
proof (cases "l \<noteq> [] \<and> last l = CR")
  case True
  then have "l = butlast l @ [CR]" by (metis append_butlast_last_id)
  moreover have "is_whitespace CR" by (simp add: is_whitespace_def)
  ultimately show ?thesis
    using True trim_snoc_whitespace [of CR "butlast l"] by (simp add: strip_cr_def)
qed (auto simp: strip_cr_def)

lemma length_fixed_digits [simp]: "length (fixed_digits w n) = w"
  by (induction w arbitrary: n) auto

lemma fixed_digits_zero: "fixed_digits w 0 = replicate w (digit_char 0)"
  by (induction w) (auto simp: replicate_append_same)

lemma pad_zero_fixed: "n < 10 ^ w \<Longrightarrow> 0 < w \<Longrightarrow> pad_zero w (show_nat n) = fixed_digits w n"
proof (induction n arbitrary: w rule: show_nat.induct)
  case (1 n)
  then obtain v where w: "w = Suc v" by (cases w) auto
  show ?case
  proof (cases "n < 10")
    case True
    then show ?thesis
      by (simp add: w pad_zero_def show_nat.simps [of n] fixed_digits_zero)
  next
    case False
    with "1.prems" w have v: "0 < v" by (cases v) auto
    have "n div 10 < 10 ^ v"
      using "1.prems"(1) w by (simp add: less_mult_imp_div_less mult.commute)
    with "1.IH" [OF False _ v] have "pad_zero v (show_nat (n div 10)) = fixed_digits v (n div 10)"
      by simp
    with False show ?thesis
      by (simp add: w pad_zero_def show_nat.simps [of n])
  qed
qed

lemma digit_chars:
  "digit_char 0 = CHR ''0''" "digit_char 1 = CHR ''1''" "digit_char (Suc 0) = CHR ''1''"
  "digit_char 2 = CHR ''2''" "digit_char 3 = CHR ''3''" "digit_char 4 = CHR ''4''"
  "digit_char 5 = CHR ''5''" "digit_char 6 = CHR ''6''" "digit_char 7 = CHR ''7''"
  "digit_char 8 = CHR ''8''" "digit_char 9 = CHR ''9''"
  by code_simp+

lemma digit_char_less: "d < 10 \<Longrightarrow> e < 10 \<Longrightarrow> digit_char d < digit_char e \<longleftrightarrow> d < e"
  by (simp add: digit_char_def less_char_def)

lemma digit_char_inj: "d < 10 \<Longrightarrow> e < 10 \<Longrightarrow> digit_char d = digit_char e \<longleftrightarrow> d = e"
  by (metis digit_char_less less_irrefl linorder_neqE_nat)

text \<open>Appending to strings of equal length keeps their lexicographic order.\<close>

lemma list_less_append:
  fixes xs ys :: "'a::linorder list"
  assumes "length xs = length ys"
  shows "xs @ us < ys @ vs \<longleftrightarrow> xs < ys \<or> xs = ys \<and> us < vs"
  using assms by (induction xs ys rule: list_induct2) auto

lemma div_mod_less:
  fixes m n :: nat
  shows "m div 10 < n div 10 \<or> m div 10 = n div 10 \<and> m mod 10 < n mod 10 \<longleftrightarrow> m < n"
proof -
  have "m = 10 * (m div 10) + m mod 10" "n = 10 * (n div 10) + n mod 10"
    "m mod 10 < 10" "n mod 10 < 10" by simp_all
  then show ?thesis by linarith
qed

lemma fixed_digits_less:
  assumes "m < 10 ^ w" "n < 10 ^ w"
  shows "fixed_digits w m < fixed_digits w n \<longleftrightarrow> m < n"
  using assms
proof (induction w arbitrary: m n)
  case (Suc w)
  then have dm: "m div 10 < 10 ^ w" and dn: "n div 10 < 10 ^ w"
    by (simp_all add: less_mult_imp_div_less mult.commute)
  have eq: "fixed_digits w (m div 10) = fixed_digits w (n div 10) \<longleftrightarrow> m div 10 = n div 10"
    using Suc.IH [OF dm dn] Suc.IH [OF dn dm] by (metis less_irrefl linorder_neqE_nat)
  have "fixed_digits (Suc w) m < fixed_digits (Suc w) n \<longleftrightarrow>
      m div 10 < n div 10 \<or> m div 10 = n div 10 \<and> m mod 10 < n mod 10"
    using digit_char_less [of "m mod 10" "n mod 10"]
    by (simp add: list_less_append Suc.IH [OF dm dn] eq)
  also have "\<dots> \<longleftrightarrow> m < n" by (rule div_mod_less)
  finally show ?case .
qed simp

lemma split_char_append:
  "d \<notin> set a \<Longrightarrow> split_char d (a @ d # s) = a # split_char d s"
  by (induction a) auto

lemma split_char_single: "d \<notin> set a \<Longrightarrow> split_char d a = [a]"
  by (induction a) auto

text \<open>Printing a number and parsing it back.\<close>

lemma show_nat_digits: "show_nat n \<noteq> [] \<and> list_all is_digit (show_nat n)"
proof (induction n rule: show_nat.induct)
  case (1 n)
  have d: "is_digit (digit_char k)" if "k < 10" for k
    using that by (auto simp: is_digit_def digit_char_def less_eq_char_def)
  show ?case
    using 1 d by (subst (1 2) show_nat.simps) (auto simp: list_all_append)
qed

lemma digits_value: "foldl (\<lambda>acc c. acc * 10 + (of_char c - 48)) 0 (show_nat n) = (n :: nat)"
proof (induction n rule: show_nat.induct)
  case (1 n)
  have d: "(of_char (digit_char k) :: nat) - 48 = k" if "k < 10" for k
    using that by (simp add: digit_char_def of_char_of)
  show ?case
    using 1 d by (subst show_nat.simps) auto
qed

lemma parse_show_nat: "n < 2 ^ 64 \<Longrightarrow> parse_u64 (show_nat n) = Some n"
proof -
  assume n: "n < 2 ^ 64"
  obtain c cs where c: "show_nat n = c # cs" using show_nat_digits [of n] by (cases "show_nat n") auto
  then have "c \<noteq> CHR 0x2B" using show_nat_digits [of n] by (auto simp: is_digit_def less_eq_char_def)
  with c n show ?thesis
    using show_nat_digits [of n] digits_value [of n] by (simp add: parse_u64_def)
qed

end
