(* ===== verification/Task_Event_Log.thy ===== *)
theory Task_Event_Log
  imports Task_Reducer Rust_Strings
begin

text \<open>
  The append-only JSONL log of one task, \<^verbatim>\<open>tasks/event_log.rs\<close>. The file is \<^verbatim>\<open>None\<close> while it
  does not exist and its whole text otherwise. The JSON library is a parameter: an
  \<open>event_codec\<close> packs \<^verbatim>\<open>serde_json::to_string\<close>, \<^verbatim>\<open>from_str::<TaskEvent>\<close> and the test
  \<^verbatim>\<open>from_str::<Value>(..).is_ok()\<close>; what the code relies on is \<open>codec_ok\<close>, per event.
  Reads and writes of the file are taken to succeed.
\<close>

section \<open>Definitions\<close>

record 'v event_codec =
  ser_event :: "'v task_event \<Rightarrow> string"
  de_event :: "string \<Rightarrow> 'v task_event option"
  valid_json :: "string \<Rightarrow> bool"

type_synonym log_file = "string option"

text \<open>Documented behaviour of compact JSON output of one event: it decodes to the event, is valid JSON, is
  one line, and neither starts nor ends with white space. An event of the kind \<open>CheckpointCreated\<close> is excluded: the
  kind is flattened into the event, so its line has the key \<^verbatim>\<open>seq\<close> twice and is refused as an event. The daemon never
  writes one; \<open>checkpoint_event_unreadable\<close> says what would happen.\<close>

definition codec_ok :: "'v event_codec \<Rightarrow> 'v task_event \<Rightarrow> bool" where
  "codec_ok c e \<longleftrightarrow> \<not> is_CheckpointCreated (ev_kind e) \<and>
     de_event c (ser_event c e) = Some e \<and> valid_json c (ser_event c e) \<and>
     NL \<notin> set (ser_event c e) \<and> trim (ser_event c e) = ser_event c e \<and> ser_event c e \<noteq> []"

text \<open>The body of the loop of \<^verbatim>\<open>read_from\<close> on one line.\<close>

definition read_line :: "'v event_codec \<Rightarrow> nat \<Rightarrow> string \<Rightarrow> 'v task_event option" where
  "read_line c from_seq raw =
     (let line = trim raw in
      if line = [] then None
      else case de_event c line of
        Some event \<Rightarrow> if from_seq \<le> ev_seq event then Some event else None
      | None \<Rightarrow> None)"

definition read_from :: "'v event_codec \<Rightarrow> log_file \<Rightarrow> nat \<Rightarrow> 'v task_event list" where
  "read_from c file from_seq =
     (case file of
        None \<Rightarrow> []
      | Some content \<Rightarrow> List.map_filter (read_line c from_seq) (lines content))"

definition event_count :: "'v event_codec \<Rightarrow> log_file \<Rightarrow> nat" where
  "event_count c file =
     (case file of
        None \<Rightarrow> 0
      | Some content \<Rightarrow>
          length (filter (\<lambda>raw. trim raw \<noteq> [] \<and> valid_json c (trim raw)) (lines content)))"

definition append_event ::
  "'v event_codec \<Rightarrow> string \<Rightarrow> timestamp \<Rightarrow> log_file \<Rightarrow> 'v task_event_kind \<Rightarrow> string \<Rightarrow> string \<Rightarrow>
   log_file \<times> nat" where
  "append_event c task_id now file kind actor correlation_id =
     (let seq = event_count c file;
          event = new_task_event task_id seq now actor correlation_id kind;
          line = ser_event c event @ [NL];
          content = (case file of None \<Rightarrow> [] | Some t \<Rightarrow> t)
      in (Some (content @ line), seq))"

text \<open>The text of a log that holds exactly the events \<open>es\<close>, and the logs the daemon writes:
  the number of an event is its position.\<close>

definition log_text :: "'v event_codec \<Rightarrow> 'v task_event list \<Rightarrow> string" where
  "log_text c es = concat (map (\<lambda>e. ser_event c e @ [NL]) es)"

definition numbered :: "'v task_event list \<Rightarrow> bool" where
  "numbered es \<longleftrightarrow> map ev_seq es = [0..<length es]"

text \<open>What a crash in the middle of a write leaves: text without a line feed that does not
  decode, neither as an event nor as JSON.\<close>

definition torn_line :: "'v event_codec \<Rightarrow> string \<Rightarrow> bool" where
  "torn_line c t \<longleftrightarrow> NL \<notin> set t \<and> (trim t = [] \<or> de_event c (trim t) = None \<and> \<not> valid_json c (trim t))"

definition holds_log :: "'v event_codec \<Rightarrow> log_file \<Rightarrow> 'v task_event list \<Rightarrow> bool" where
  "holds_log c file es \<longleftrightarrow>
     (case file of None \<Rightarrow> es = [] | Some t \<Rightarrow> t = log_text c es) \<and>
     (\<forall>e \<in> set es. codec_ok c e)"

section \<open>Lemmas\<close>

lemma log_text_simps [simp]:
  "log_text c [] = []"
  "log_text c (e # es) = ser_event c e @ NL # log_text c es"
  "log_text c (es @ fs) = log_text c es @ log_text c fs"
  by (simp_all add: log_text_def)

lemma map_filter_simps [simp]:
  "List.map_filter f [] = []"
  "List.map_filter f (x # xs) = (case f x of None \<Rightarrow> List.map_filter f xs | Some y \<Rightarrow> y # List.map_filter f xs)"
  by (simp_all add: List.map_filter_simps split: option.split)

lemma numbered_nth: "numbered es \<Longrightarrow> i < length es \<Longrightarrow> ev_seq (es ! i) = i"
  by (metis add.left_neutral length_map map_nth numbered_def nth_map nth_upt)

lemma numbered_snoc: "numbered (es @ [e]) \<longleftrightarrow> numbered es \<and> ev_seq e = length es"
  by (auto simp: numbered_def)

lemma numbered_filter:
  assumes "numbered es"
  shows "filter (\<lambda>e. n \<le> ev_seq e) es = drop n es"
  using assms
proof (induction es rule: rev_induct)
  case (snoc e es)
  then show ?case by (auto simp: numbered_snoc)
qed simp

text \<open>Line by line, the reader sees exactly the events and ignores a torn last line.\<close>

lemma read_line_ser: "codec_ok c e \<Longrightarrow>
   read_line c n (strip_cr (ser_event c e)) = (if n \<le> ev_seq e then Some e else None)"
  by (simp add: read_line_def codec_ok_def)

lemma read_torn: "torn_line c t \<Longrightarrow> List.map_filter (read_line c n) (lines t) = []"
  by (cases "t = []") (auto simp: torn_line_def lines_last_piece read_line_def)

lemma read_log_lines:
  assumes "\<forall>e \<in> set es. codec_ok c e" "torn_line c t"
  shows "List.map_filter (read_line c n) (lines (log_text c es @ t)) = filter (\<lambda>e. n \<le> ev_seq e) es"
  using assms(1)
proof (induction es)
  case Nil
  then show ?case by (simp add: read_torn assms(2))
next
  case (Cons e es)
  then have "NL \<notin> set (ser_event c e)" by (simp add: codec_ok_def)
  with Cons show ?case by (simp add: lines_Cons_line read_line_ser)
qed

lemma count_log_lines:
  assumes "\<forall>e \<in> set es. codec_ok c e" "torn_line c t"
  shows "length (filter (\<lambda>raw. trim raw \<noteq> [] \<and> valid_json c (trim raw)) (lines (log_text c es @ t)))
    = length es"
  using assms(1)
proof (induction es)
  case Nil
  then show ?case using assms(2) by (cases "t = []") (auto simp: torn_line_def lines_last_piece)
next
  case (Cons e es)
  then have "NL \<notin> set (ser_event c e)" by (simp add: codec_ok_def)
  with Cons show ?case by (simp add: lines_Cons_line codec_ok_def)
qed

lemma torn_empty [simp]: "torn_line c []"
  by (simp add: torn_line_def trim_def trim_start_def trim_end_def)

lemma read_holds_log: "holds_log c file es \<Longrightarrow> read_from c file n = filter (\<lambda>e. n \<le> ev_seq e) es"
  using read_log_lines [of es c "[]" n]
  by (auto simp: holds_log_def read_from_def split: option.splits)

lemma count_holds_log: "holds_log c file es \<Longrightarrow> event_count c file = length es"
  using count_log_lines [of es c "[]"]
  by (auto simp: holds_log_def event_count_def split: option.splits)

lemma append_holds_log:
  assumes "holds_log c file es"
    and "codec_ok c (new_task_event tid (length es) now actor corr kind)"
  shows "append_event c tid now file kind actor corr = (file', seq) \<Longrightarrow>
     seq = length es \<and> holds_log c file' (es @ [new_task_event tid seq now actor corr kind])"
  using assms count_holds_log [OF assms(1)]
  by (auto simp: append_event_def holds_log_def split: option.splits)

lemma new_task_event_sel [simp]:
  "ev_seq (new_task_event tid n now actor corr k) = n"
  "ev_kind (new_task_event tid n now actor corr k) = k"
  "ev_ts (new_task_event tid n now actor corr k) = now"
  by (simp_all add: new_task_event_def)

text \<open>A concrete codec that knows a fixed list of events, for the witnesses.\<close>

definition table_codec :: "(string \<times> 'v task_event) list \<Rightarrow> 'v event_codec" where
  "table_codec tab =
     \<lparr>ser_event = (\<lambda>e. the (map_of (map (\<lambda>(s, e). (e, s)) tab) e)),
      de_event = map_of tab,
      valid_json = (\<lambda>s. map_of tab s \<noteq> None)\<rparr>"

section \<open>Properties\<close>

text \<open>C35: Write, then read, for an event of any kind but \<open>CheckpointCreated\<close>. On a log that holds the numbered events
  \<open>es\<close>, an append returns the number of the next event, the log then holds \<open>es\<close> and the new event, still numbered by
  position, and a read from the returned number gives the new event alone.\<close>

theorem append_then_read:
  assumes "holds_log c file es" "numbered es"
    and "codec_ok c (new_task_event tid (length es) now actor corr kind)"
    and "append_event c tid now file kind actor corr = (file', seq)"
  shows "seq = length es \<and>
    read_from c file' 0 = es @ [new_task_event tid seq now actor corr kind] \<and>
    read_from c file' seq = [new_task_event tid seq now actor corr kind] \<and>
    event_count c file' = Suc seq \<and> numbered (read_from c file' 0)"
proof -
  let ?e = "new_task_event tid seq now actor corr kind"
  have seq: "seq = length es" and h: "holds_log c file' (es @ [?e])"
    using append_holds_log [OF assms(1,3,4)] by auto
  then have n: "numbered (es @ [?e])" using assms(2) by (simp add: numbered_snoc)
  have r: "read_from c file' k = drop k (es @ [?e])" for k
    using read_holds_log [OF h] numbered_filter [OF n] by simp
  show ?thesis
    using seq n r [of 0] r [of seq] count_holds_log [OF h] by simp
qed

theorem append_then_read_witness:
  "append_event (table_codec [(''e0'', sample_event 0 TaskActive)]) ''t1'' 0 None TaskActive ''daemon'' ''corr''
     = (Some ''e0\<newline>'', 0) \<and>
   read_from (table_codec [(''e0'', sample_event 0 TaskActive)]) (Some ''e0\<newline>'') 0 =
     [sample_event 0 TaskActive]"
proof -
  let ?c = "table_codec [(''e0'', sample_event 0 TaskActive)]"
  have app: "append_event ?c ''t1'' 0 None TaskActive ''daemon'' ''corr'' = (Some ''e0\<newline>'', 0)"
    by (simp add: append_event_def event_count_def table_codec_def)
  have "codec_ok ?c (new_task_event ''t1'' (length []) 0 ''daemon'' ''corr'' TaskActive)"
    by (simp add: codec_ok_def table_codec_def trim_def trim_start_def trim_end_def is_whitespace_def)
  from append_then_read [OF _ _ this app] app show ?thesis
    by (simp add: holds_log_def numbered_def)
qed

text \<open>A line that is JSON but not an event, as the one of a \<open>CheckpointCreated\<close> event is: the append reports a number, the
  line counts, and no reader sees the event.\<close>

theorem checkpoint_event_unreadable:
  assumes "holds_log c file es" and "append_event c tid now file (CheckpointCreated n) actor corr = (file', seq)"
    and line: "ser_event c (new_task_event tid (length es) now actor corr (CheckpointCreated n)) = line"
      "NL \<notin> set line" "trim line = line" "line \<noteq> []" "valid_json c line" "de_event c line = None"
  shows "seq = length es \<and> event_count c file' = Suc (length es) \<and> read_from c file' k = filter (\<lambda>e. k \<le> ev_seq e) es"
proof -
  have cnt: "event_count c file = length es" by (rule count_holds_log [OF assms(1)])
  have ok: "\<forall>e \<in> set es. codec_ok c e" using assms(1) by (simp add: holds_log_def)
  from assms(1,2) cnt line(1) have f: "seq = length es" "file' = Some (log_text c es @ line @ [NL])"
    by (auto simp: append_event_def holds_log_def split: option.splits)
  have last: "lines (line @ [NL]) = [strip_cr line]" using lines_Cons_line [OF line(2), of "[]"] by simp
  have "List.map_filter (read_line c k) (lines (log_text c fs @ line @ [NL])) = filter (\<lambda>e. k \<le> ev_seq e) fs \<and>
      length (filter (\<lambda>raw. trim raw \<noteq> [] \<and> valid_json c (trim raw)) (lines (log_text c fs @ line @ [NL]))) = Suc (length fs)"
    if "\<forall>e \<in> set fs. codec_ok c e" for fs
    using that
  proof (induction fs)
    case Nil
    show ?case using line by (simp add: last read_line_def)
  next
    case (Cons e fs)
    then have "NL \<notin> set (ser_event c e)" by (simp add: codec_ok_def)
    with Cons show ?case by (simp add: lines_Cons_line read_line_ser codec_ok_def [of c e])
  qed
  from this [OF ok] f show ?thesis by (simp add: read_from_def event_count_def)
qed

text \<open>Crash tolerance of the reader. A log whose last line was torn by a crash reads as the
  events written before it, and the torn line does not count.\<close>

theorem torn_log_reads_prefix:
  assumes "\<forall>e \<in> set es. codec_ok c e" "torn_line c t"
  shows "read_from c (Some (log_text c es @ t)) n = filter (\<lambda>e. n \<le> ev_seq e) es \<and>
    event_count c (Some (log_text c es @ t)) = length es"
  using read_log_lines [OF assms] count_log_lines [OF assms]
  by (simp_all add: read_from_def event_count_def)

theorem torn_log_reads_prefix_witness:
  "read_from (table_codec [(''e0'', sample_event 0 TaskActive)])
     (Some (log_text (table_codec [(''e0'', sample_event 0 TaskActive)]) [sample_event 0 TaskActive] @ ''{torn'')) 0
   = [sample_event 0 TaskActive]"
proof -
  let ?c = "table_codec [(''e0'', sample_event 0 TaskActive)]"
  have "read_from ?c (Some (log_text ?c [sample_event 0 TaskActive] @ ''{torn'')) 0 =
      filter (\<lambda>e. 0 \<le> ev_seq e) [sample_event 0 TaskActive]"
    by (rule torn_log_reads_prefix [THEN conjunct1])
       (simp_all add: codec_ok_def torn_line_def table_codec_def trim_def trim_start_def trim_end_def
          is_whitespace_def)
  then show ?thesis by simp
qed

text \<open>The writer is not crash tolerant. An append goes straight behind a torn last line, so the
  new event shares that line: when the joined text is not an event, the event just written
  is not in the log for any reader, though the append reported its number.\<close>

theorem append_after_torn_line_is_lost:
  assumes "\<forall>e \<in> set es. codec_ok c e" "torn_line c t"
    and "append_event c tid now (Some (log_text c es @ t)) kind actor corr = (file', seq)"
    and "NL \<notin> set (ser_event c (new_task_event tid (length es) now actor corr kind))"
    and "de_event c (trim (t @ ser_event c (new_task_event tid (length es) now actor corr kind))) = None"
  shows "seq = length es \<and> read_from c file' 0 = es"
proof -
  let ?w = "ser_event c (new_task_event tid (length es) now actor corr kind)"
  have cnt: "event_count c (Some (log_text c es @ t)) = length es"
    using count_log_lines [OF assms(1,2)] by (simp add: event_count_def)
  with assms(3) have seq: "seq = length es" and f: "file' = Some (log_text c es @ t @ ?w @ [NL])"
    by (auto simp: append_event_def)
  have "NL \<notin> set (t @ ?w)" using assms(2,4) by (simp add: torn_line_def)
  then have last: "lines (t @ ?w @ [NL]) = [strip_cr (t @ ?w)]"
    using lines_Cons_line [of "t @ ?w" "[]"] by simp
  have "List.map_filter (read_line c 0) (lines (log_text c fs @ t @ ?w @ [NL])) = fs"
    if "\<forall>e \<in> set fs. codec_ok c e" for fs
    using that
  proof (induction fs)
    case Nil
    show ?case by (simp add: last read_line_def assms(5))
  next
    case (Cons e fs)
    then have "NL \<notin> set (ser_event c e)" by (simp add: codec_ok_def)
    with Cons show ?case by (simp add: lines_Cons_line read_line_ser)
  qed
  with assms(1) f seq show ?thesis by (simp add: read_from_def)
qed

theorem append_after_torn_line_is_lost_witness:
  "read_from (table_codec [(''e0'', sample_event 0 TaskActive)])
     (fst (append_event (table_codec [(''e0'', sample_event 0 TaskActive)]) ''t1'' 0
        (Some ''{torn'') TaskActive ''daemon'' ''corr'')) 0 = []"
proof -
  let ?c = "table_codec [(''e0'', sample_event 0 TaskActive)]"
  obtain f q where fq: "append_event ?c ''t1'' 0 (Some (log_text ?c [] @ ''{torn'')) TaskActive ''daemon'' ''corr''
      = (f, q)" by fastforce
  have "read_from ?c f 0 = []"
    by (rule append_after_torn_line_is_lost [OF _ _ fq, THEN conjunct2])
       (simp_all add: torn_line_def table_codec_def trim_def trim_start_def trim_end_def is_whitespace_def)
  with fq show ?thesis by simp
qed

end
