(* ===== verification/Task_Checkpoint.thy ===== *)
theory Task_Checkpoint
  imports Task_Reducer Rust_Strings "HOL-Library.AList"
begin

text \<open>
  Snapshots of a materialized task, \<^verbatim>\<open>tasks/checkpoint.rs\<close>. The checkpoint directory is an
  association list from file names to texts, in the order the directory is read; the JSON
  library is the parameter \<open>state_codec\<close>, whose decoder may fail on a file.
\<close>

section \<open>Definitions\<close>

record state_codec =
  ser_state :: "materialized_task \<Rightarrow> string"
  de_state :: "string \<Rightarrow> materialized_task option"

type_synonym checkpoint_dir = "(string \<times> string) list"

definition checkpoint_filename :: "nat \<Rightarrow> string" where
  "checkpoint_filename event_seq = ''CP-'' @ pad_zero 10 (show_nat event_seq) @ ''.json''"

definition save_checkpoint ::
  "state_codec \<Rightarrow> checkpoint_dir \<Rightarrow> materialized_task \<Rightarrow> nat \<Rightarrow> checkpoint_dir" where
  "save_checkpoint sc dir st event_seq =
     AList.update (checkpoint_filename event_seq) (ser_state sc st) dir"

definition is_checkpoint_name :: "string \<Rightarrow> bool" where
  "is_checkpoint_name n \<longleftrightarrow> starts_with n ''CP-'' \<and> ends_with n ''.json''"

fun first_decoded :: "state_codec \<Rightarrow> checkpoint_dir \<Rightarrow> (materialized_task \<times> nat) option" where
  "first_decoded sc [] = None"
| "first_decoded sc ((name, content) # rest) =
     (case de_state sc content of
        Some st \<Rightarrow> Some (st, mt_event_seq st)
      | None \<Rightarrow> first_decoded sc rest)"

definition load_latest :: "state_codec \<Rightarrow> checkpoint_dir \<Rightarrow> (materialized_task \<times> nat) option" where
  "load_latest sc dir =
     first_decoded sc (rev (sort_key fst (filter (\<lambda>(name, _). is_checkpoint_name name) dir)))"

fun should_checkpoint :: "nat \<Rightarrow> 'v task_event \<Rightarrow> bool" where
  "should_checkpoint events_since_last event =
     (if 50 \<le> events_since_last then True
      else case ev_kind event of
        CheckpointCreated _ \<Rightarrow> True
      | TaskDone _ \<Rightarrow> True
      | TaskCodeReview _ \<Rightarrow> True
      | TaskQa _ \<Rightarrow> True
      | _ \<Rightarrow> False)"

section \<open>Lemmas\<close>

lemma filename_fits: "n < 10 ^ 10 \<Longrightarrow> checkpoint_filename n = ''CP-'' @ fixed_digits 10 n @ ''.json''"
  by (simp add: checkpoint_filename_def pad_zero_fixed)

lemma filename_is_checkpoint [simp]: "is_checkpoint_name (checkpoint_filename n)"
  by (simp add: is_checkpoint_name_def checkpoint_filename_def starts_with_def ends_with_def
      suffix_def)

text \<open>File names sort as the sequence numbers do, as long as these have at most ten digits.\<close>

lemma filename_less:
  assumes "m < 10 ^ 10" "n < 10 ^ 10"
  shows "checkpoint_filename m < checkpoint_filename n \<longleftrightarrow> m < n"
  using fixed_digits_less [OF assms]
  by (simp add: filename_fits [OF assms(1)] filename_fits [OF assms(2)] list_less_append)

lemma filename_inj:
  assumes "m < 10 ^ 10" "n < 10 ^ 10" "checkpoint_filename m = checkpoint_filename n"
  shows "m = n"
  using filename_less [OF assms(1,2)] filename_less [OF assms(2,1)] assms(3)
  by (metis less_irrefl linorder_neqE_nat)

lemma first_decoded_Some:
  "first_decoded sc dir = Some (st, n) \<Longrightarrow>
   n = mt_event_seq st \<and> (\<exists>name content. (name, content) \<in> set dir \<and> de_state sc content = Some st)"
proof (induction dir)
  case (Cons p dir)
  obtain name content where p: "p = (name, content)" by (cases p)
  with Cons show ?case by (cases "de_state sc content") (simp_all, blast+)
qed simp

lemma load_latest_Some:
  "load_latest sc dir = Some (st, n) \<Longrightarrow>
   n = mt_event_seq st \<and> (\<exists>name content. (name, content) \<in> set dir \<and> de_state sc content = Some st)"
  unfolding load_latest_def by (drule first_decoded_Some) auto

lemma set_save_checkpoint:
  "set (save_checkpoint sc dir st n) \<subseteq> insert (checkpoint_filename n, ser_state sc st) (set dir)"
  unfolding save_checkpoint_def by (induction dir) auto

text \<open>In a directory with distinct names the entry whose name is greatest comes first.\<close>

lemma sorted_desc_hd:
  fixes dir :: "('a::linorder \<times> 'b) list"
  assumes "distinct (map fst dir)" "(k, v) \<in> set dir" "\<forall>(k', v') \<in> set dir. k' \<le> k"
  shows "\<exists>rest. rev (sort_key fst dir) = (k, v) # rest"
proof -
  let ?s = "sort_key fst dir"
  from assms(2) have ne: "?s \<noteq> []" by (metis empty_iff empty_set set_sort)
  have srt: "sorted (map fst ?s)" by simp
  have last_in: "last ?s \<in> set dir" using ne by (metis last_in_set set_sort)
  obtain i where i: "i < length ?s" "?s ! i = (k, v)"
    using assms(2) by (metis in_set_conv_nth set_sort)
  have "k \<le> fst (last ?s)"
    using srt i ne sorted_nth_mono [OF srt, of i "length ?s - 1"]
    by (simp add: last_conv_nth)
  with last_in assms(3) have "fst (last ?s) = k" by (metis (mono_tags, lifting) case_prodD order.antisym prod.collapse)
  with last_in assms(1,2) have "last ?s = (k, v)"
    by (metis eq_key_imp_eq_value prod.collapse)
  then show ?thesis using ne by (metis append_butlast_last_id rev_eq_Cons_iff rev_rev_ident)
qed

lemma load_latest_hd:
  assumes "distinct (map fst dir)" "(k, v) \<in> set dir" "is_checkpoint_name k"
    and "\<forall>(k', v') \<in> set dir. is_checkpoint_name k' \<longrightarrow> k' \<le> k"
    and "de_state sc v = Some st"
  shows "load_latest sc dir = Some (st, mt_event_seq st)"
proof -
  let ?d = "filter (\<lambda>(name, _). is_checkpoint_name name) dir"
  have "\<exists>rest. rev (sort_key fst ?d) = (k, v) # rest"
  proof (rule sorted_desc_hd)
    show "distinct (map fst ?d)" using assms(1) by (rule distinct_map_filter)
  qed (use assms in auto)
  with assms(5) show ?thesis by (auto simp: load_latest_def)
qed

text \<open>The text of \<^verbatim>\<open>dir\<close> under a set of numbers: the directories the daemon writes.\<close>

definition checkpoints_below :: "checkpoint_dir \<Rightarrow> nat \<Rightarrow> bool" where
  "checkpoints_below dir n \<longleftrightarrow>
     distinct (map fst dir) \<and>
     (\<forall>name \<in> fst ` set dir. is_checkpoint_name name \<longrightarrow> (\<exists>m < n. name = checkpoint_filename m))"

section \<open>Properties\<close>

text \<open>The latest checkpoint wins. In a directory that holds checkpoints with numbers up to the
  one just saved, loading returns exactly the state just saved, with its own event number.
  The numbers must fit the ten digits of the file name.\<close>

theorem load_after_save:
  assumes "checkpoints_below dir (Suc n)" "n < 10 ^ 10"
    and "de_state sc (ser_state sc st) = Some st"
  shows "load_latest sc (save_checkpoint sc dir st n) = Some (st, mt_event_seq st)"
proof (rule load_latest_hd)
  let ?d = "save_checkpoint sc dir st n"
  show "distinct (map fst ?d)"
    using assms(1) by (simp add: checkpoints_below_def save_checkpoint_def distinct_update)
  show "(checkpoint_filename n, ser_state sc st) \<in> set ?d"
    unfolding save_checkpoint_def by (induction dir) auto
  show "\<forall>(k', v') \<in> set ?d. is_checkpoint_name k' \<longrightarrow> k' \<le> checkpoint_filename n"
  proof clarify
    fix k' v' assume kv: "(k', v') \<in> set ?d" "is_checkpoint_name k'"
    with set_save_checkpoint [of sc dir st n]
    have "k' = checkpoint_filename n \<or> k' \<in> fst ` set dir" by force
    with kv assms(1) obtain m where m: "m \<le> n" "k' = checkpoint_filename m"
      unfolding checkpoints_below_def by (metis le_refl less_Suc_eq_le)
    then show "k' \<le> checkpoint_filename n"
      using filename_less [of m n] assms(2) by (cases "m = n") simp_all
  qed
qed (use assms(3) in simp_all)

theorem load_after_save_witness:
  "load_latest \<lparr>ser_state = (\<lambda>_. ''s''), de_state = (\<lambda>_. Some (initial_task sample_spec))\<rparr>
     (save_checkpoint \<lparr>ser_state = (\<lambda>_. ''s''), de_state = (\<lambda>_. Some (initial_task sample_spec))\<rparr>
        [] (initial_task sample_spec) 7)
   = Some (initial_task sample_spec, mt_event_seq (initial_task sample_spec))"
  by (rule load_after_save) (simp_all add: checkpoints_below_def)

text \<open>The limit of the naming scheme. From eleven digits on, the file names no longer sort like
  the event numbers: the checkpoint of event 10000000000 sorts before that of 9999999999.\<close>

theorem filename_order_breaks:
  "checkpoint_filename 10000000000 < checkpoint_filename 9999999999"
proof -
  have "show_nat 10000000000 = ''10000000000''" "show_nat 9999999999 = ''9999999999''"
    by (simp_all add: show_nat.simps digit_chars)
  then show ?thesis by (simp add: checkpoint_filename_def pad_zero_def)
qed

end
