(* ===== verification/Task_Replay.thy ===== *)
theory Task_Replay
  imports Task_Event_Log Task_Checkpoint
begin

text \<open>
  Crash-safe replay, \<^verbatim>\<open>tasks/replay.rs\<close>: rebuild a task from its latest checkpoint and the
  events behind it, and the write path that appends an event, reduces it and snapshots.
  The argument \<open>save_ok\<close> tells for which event numbers writing a checkpoint file succeeds.
\<close>

section \<open>Definitions\<close>

datatype replay_error =
    EmptyLog | FirstNotCreated | Refused reduce_error | AppendedNotFound nat
  | TimestampBefore timestamp timestamp

text \<open>The branch of \<^verbatim>\<open>replay\<close> without a checkpoint.\<close>

definition replay_fresh :: "'v task_event list \<Rightarrow> (materialized_task, replay_error) result" where
  "replay_fresh events =
     (case events of
        [] \<Rightarrow> Err EmptyLog
      | first # rest \<Rightarrow>
          (case ev_kind first of
             TaskCreated spec \<Rightarrow>
               (case reduce (initial_task spec) first of
                  Ok s \<Rightarrow> Ok (run_skip reduce s rest)
                | Err e \<Rightarrow> Err (Refused e))
           | _ \<Rightarrow> Err FirstNotCreated))"

text \<open>The loop of \<^verbatim>\<open>replay\<close> behind a checkpoint, with its automatic snapshots.\<close>

fun replay_loop ::
  "state_codec \<Rightarrow> (nat \<Rightarrow> bool) \<Rightarrow> materialized_task \<Rightarrow> nat \<Rightarrow> checkpoint_dir \<Rightarrow> 'v task_event list \<Rightarrow>
   materialized_task \<times> checkpoint_dir" where
  "replay_loop sc save_ok st since dir [] = (st, dir)"
| "replay_loop sc save_ok st since dir (event # events) =
     (case reduce st event of
        Ok new_state \<Rightarrow>
          (if should_checkpoint (Suc since) event
           then if save_ok (ev_seq event)
             then replay_loop sc save_ok new_state 0 (save_checkpoint sc dir new_state (ev_seq event)) events
             else replay_loop sc save_ok new_state (Suc since) dir events
           else replay_loop sc save_ok new_state (Suc since) dir events)
      | Err e \<Rightarrow> replay_loop sc save_ok st since dir events)"

definition replay ::
  "'v event_codec \<Rightarrow> state_codec \<Rightarrow> (nat \<Rightarrow> bool) \<Rightarrow> log_file \<Rightarrow> checkpoint_dir \<Rightarrow>
   (materialized_task, replay_error) result \<times> checkpoint_dir" where
  "replay c sc save_ok file dir =
     (case load_latest sc dir of
        Some (st, seq) \<Rightarrow>
          (case replay_loop sc save_ok st 0 dir (read_from c file (seq + 1)) of
             (st', dir') \<Rightarrow> (Ok st', dir'))
      | None \<Rightarrow> (replay_fresh (read_from c file 0), dir))"

definition validate_event :: "'v task_event \<Rightarrow> materialized_task \<Rightarrow> (unit, replay_error) result" where
  "validate_event event current_state =
     (if ev_ts event < mt_updated_at current_state
      then Err (TimestampBefore (ev_ts event) (mt_updated_at current_state))
      else Ok ())"

definition append_and_reduce ::
  "'v event_codec \<Rightarrow> state_codec \<Rightarrow> (nat \<Rightarrow> bool) \<Rightarrow> string \<Rightarrow> timestamp \<Rightarrow> string \<Rightarrow>
   log_file \<Rightarrow> checkpoint_dir \<Rightarrow> 'v task_event_kind \<Rightarrow> string \<Rightarrow> materialized_task \<Rightarrow>
   (materialized_task \<times> nat, replay_error) result \<times> log_file \<times> checkpoint_dir" where
  "append_and_reduce c sc save_ok task_id now correlation_id file dir kind actor current_state =
     (case append_event c task_id now file kind actor correlation_id of
        (file', seq) \<Rightarrow>
          (case find (\<lambda>e. ev_seq e = seq) (read_from c file' seq) of
             None \<Rightarrow> (Err (AppendedNotFound seq), file', dir)
           | Some event \<Rightarrow>
               (case reduce current_state event of
                  Err e \<Rightarrow> (Err (Refused e), file', dir)
                | Ok new_state \<Rightarrow>
                    (let events_since = seq - (mt_event_seq new_state - 1) in
                     (Ok (new_state, seq), file',
                      if should_checkpoint events_since event \<and> save_ok seq
                      then save_checkpoint sc dir new_state seq else dir)))))"

text \<open>\<^verbatim>\<open>recover_agent_crash\<close> replays and then only logs what it found.\<close>

definition recover_agent_crash ::
  "'v event_codec \<Rightarrow> state_codec \<Rightarrow> (nat \<Rightarrow> bool) \<Rightarrow> log_file \<Rightarrow> checkpoint_dir \<Rightarrow>
   (materialized_task, replay_error) result \<times> checkpoint_dir" where
  "recover_agent_crash c sc save_ok file dir = replay c sc save_ok file dir"

section \<open>The store and its invariant\<close>

text \<open>Every file of the checkpoint directory that decodes at all is the state after some
  prefix of the log.\<close>

definition snapshots_ok :: "state_codec \<Rightarrow> checkpoint_dir \<Rightarrow> 'v task_event list \<Rightarrow> bool" where
  "snapshots_ok sc dir es \<longleftrightarrow>
     (\<forall>(name, content) \<in> set dir. \<forall>st. de_state sc content = Some st \<longrightarrow>
        (\<exists>k \<le> length es. replay_fresh (take k es) = Ok st))"

definition store_ok ::
  "'v event_codec \<Rightarrow> state_codec \<Rightarrow> log_file \<Rightarrow> checkpoint_dir \<Rightarrow> 'v task_event list \<Rightarrow> bool" where
  "store_ok c sc file dir es \<longleftrightarrow> holds_log c file es \<and> numbered es \<and> snapshots_ok sc dir es"

text \<open>The state codec gives back the states that replaying a prefix of the log produces.\<close>

definition snapshots_decode :: "state_codec \<Rightarrow> 'v task_event list \<Rightarrow> bool" where
  "snapshots_decode sc es \<longleftrightarrow>
     (\<forall>k \<le> length es. \<forall>st. replay_fresh (take k es) = Ok st \<longrightarrow> de_state sc (ser_state sc st) = Some st)"

section \<open>Lemmas\<close>

lemma replay_loop_state: "fst (replay_loop sc save_ok st since dir es) = run_skip reduce st es"
  by (induction es arbitrary: st since dir) (auto split: result.splits)

lemma replay_fresh_append:
  "xs \<noteq> [] \<Longrightarrow> replay_fresh (xs @ ys) = and_then (replay_fresh xs) (\<lambda>s. Ok (run_skip reduce s ys))"
  by (cases xs) (auto simp: replay_fresh_def split: task_event_kind.splits result.splits)

lemma replay_fresh_Nil [simp]: "replay_fresh [] = Err EmptyLog"
  by (simp add: replay_fresh_def)

lemma replay_fresh_snoc:
  "replay_fresh xs = Ok s \<Longrightarrow> replay_fresh (xs @ [e]) = Ok (unwrap_or (reduce s e) s)"
  by (cases "xs = []") (simp_all add: replay_fresh_append)

lemma replay_fresh_single:
  "replay_fresh [e] = Ok st \<Longrightarrow> mt_event_seq st = ev_seq e"
  by (auto simp: replay_fresh_def split: task_event_kind.splits result.splits dest: reduce_stamps)

text \<open>A replayed state is settled by the event whose number it carries: the events between
  that one and the end of the prefix were all refused.\<close>

lemma replay_settles:
  assumes "numbered es" "k \<le> length es" "replay_fresh (take k es) = Ok st"
  shows "mt_event_seq st < k \<and> replay_fresh (take (Suc (mt_event_seq st)) es) = Ok st"
  using assms(2,3)
proof (induction k arbitrary: st)
  case (Suc k)
  then have tk: "take (Suc k) es = take k es @ [es ! k]" by (simp add: take_Suc_conv_app_nth)
  have seq: "ev_seq (es ! k) = k" using assms(1) Suc.prems(1) by (simp add: numbered_nth)
  show ?case
  proof (cases "k = 0")
    case True
    with tk Suc.prems(2) seq have "mt_event_seq st = 0"
      using replay_fresh_single by fastforce
    with True Suc.prems(2) show ?thesis by simp
  next
    case False
    then have "take k es \<noteq> []" using Suc.prems(1) by auto
    with tk Suc.prems(2) obtain s where s: "replay_fresh (take k es) = Ok s"
      and st: "st = unwrap_or (reduce s (es ! k)) s"
      by (auto simp: replay_fresh_append and_then_Ok_iff)
    show ?thesis
    proof (cases "reduce s (es ! k)")
      case (Ok s')
      with st reduce_stamps [OF Ok] seq have "mt_event_seq st = k" by simp
      with Suc.prems(2) show ?thesis by simp
    next
      case (Err e)
      with st s Suc.IH [OF _ s] Suc.prems(1) show ?thesis by simp
    qed
  qed
qed simp

text \<open>So replaying the events behind a snapshot gives what replaying the whole log gives.\<close>

lemma resume_from_snapshot:
  assumes "numbered es" "k \<le> length es" "replay_fresh (take k es) = Ok st"
  shows "replay_fresh es = Ok (run_skip reduce st (drop (Suc (mt_event_seq st)) es))"
proof -
  let ?n = "Suc (mt_event_seq st)"
  from replay_settles [OF assms] have r: "replay_fresh (take ?n es) = Ok st" by simp
  then have ne: "take ?n es \<noteq> []" by auto
  have "replay_fresh (take ?n es @ drop ?n es) = Ok (run_skip reduce st (drop ?n es))"
    unfolding replay_fresh_append [OF ne] r by simp
  then show ?thesis by (simp only: append_take_drop_id)
qed

lemma snapshots_ok_save:
  assumes "snapshots_ok sc dir es" "snapshots_decode sc es"
    and "k \<le> length es" "replay_fresh (take k es) = Ok st"
  shows "snapshots_ok sc (save_checkpoint sc dir st n) es"
  unfolding snapshots_ok_def
proof clarify
  fix name content st' assume "(name, content) \<in> set (save_checkpoint sc dir st n)"
    and de: "de_state sc content = Some st'"
  with set_save_checkpoint [of sc dir st n]
  have "(name, content) \<in> set dir \<or> content = ser_state sc st" by auto
  then show "\<exists>k \<le> length es. replay_fresh (take k es) = Ok st'"
  proof
    assume "(name, content) \<in> set dir"
    with assms(1) de show ?thesis by (auto simp: snapshots_ok_def)
  next
    assume "content = ser_state sc st"
    with assms(2-4) de have "st' = st" by (auto simp: snapshots_decode_def)
    with assms(3,4) show ?thesis by blast
  qed
qed

text \<open>The replay loop only adds true snapshots.\<close>

lemma replay_loop_snapshots:
  assumes "numbered (xs @ ys)" "snapshots_decode sc (xs @ ys)"
    and "replay_fresh xs = Ok st" "snapshots_ok sc dir (xs @ ys)"
  shows "snapshots_ok sc (snd (replay_loop sc save_ok st since dir ys)) (xs @ ys)"
  using assms
proof (induction ys arbitrary: xs st since dir)
  case (Cons e ys)
  let ?es = "xs @ e # ys"
  have next': "xs @ e # ys = (xs @ [e]) @ ys" by simp
  have sn: "replay_fresh (xs @ [e]) = Ok (unwrap_or (reduce st e) st)"
    using Cons.prems(3) by (rule replay_fresh_snoc)
  have IH: "snapshots_ok sc d ?es \<Longrightarrow>
      snapshots_ok sc (snd (replay_loop sc save_ok (unwrap_or (reduce st e) st) q d ys)) ?es" for q d
    using Cons.IH [of "xs @ [e]" "unwrap_or (reduce st e) st" d q] Cons.prems(1,2) sn by simp
  show ?case
  proof (cases "reduce st e")
    case (Ok s')
    have "replay_fresh (take (Suc (length xs)) ?es) = Ok s'" using sn Ok by simp
    then have "snapshots_ok sc (save_checkpoint sc dir s' (ev_seq e)) ?es"
      using snapshots_ok_save [OF Cons.prems(4,2), of "Suc (length xs)"] by simp
    with Ok IH Cons.prems(4) show ?thesis by simp
  next
    case (Err r)
    with IH Cons.prems(4) show ?thesis by simp
  qed
qed simp

text \<open>What the write path does to a well-formed store, in one equation.\<close>

lemma append_and_reduce_unfold:
  assumes "holds_log c file es" "numbered es"
    and "codec_ok c (new_task_event tid (length es) now actor corr kind)"
  shows "\<exists>file'. holds_log c file' (es @ [new_task_event tid (length es) now actor corr kind]) \<and>
     append_and_reduce c sc save_ok tid now corr file dir kind actor cur =
       (case reduce cur (new_task_event tid (length es) now actor corr kind) of
          Err e \<Rightarrow> (Err (Refused e), file', dir)
        | Ok st \<Rightarrow>
            (Ok (st, length es), file',
             if should_checkpoint (length es - (mt_event_seq st - 1))
                  (new_task_event tid (length es) now actor corr kind) \<and> save_ok (length es)
             then save_checkpoint sc dir st (length es) else dir))"
proof -
  obtain file' seq where app: "append_event c tid now file kind actor corr = (file', seq)"
    by fastforce
  let ?e = "new_task_event tid (length es) now actor corr kind"
  have h: "seq = length es" "holds_log c file' (es @ [?e])"
    using append_holds_log [OF assms(1,3) app] by auto
  then have "read_from c file' (length es) = [?e]"
    using read_holds_log [OF h(2), of "length es"] numbered_filter [of "es @ [?e]" "length es"] assms(2)
    by (simp add: numbered_snoc)
  with app h have "append_and_reduce c sc save_ok tid now corr file dir kind actor cur =
      (case reduce cur ?e of
          Err e \<Rightarrow> (Err (Refused e), file', dir)
        | Ok st \<Rightarrow>
            (Ok (st, length es), file',
             if should_checkpoint (length es - (mt_event_seq st - 1)) ?e \<and> save_ok (length es)
             then save_checkpoint sc dir st (length es) else dir))"
    by (simp add: append_and_reduce_def del: should_checkpoint.simps)
  with h(2) show ?thesis by blast
qed

lemma snapshots_ok_snoc: "snapshots_ok sc dir es \<Longrightarrow> snapshots_ok sc dir (es @ [e])"
proof -
  have "\<exists>k \<le> length (es @ [e]). replay_fresh (take k (es @ [e])) = Ok st"
    if "k \<le> length es" "replay_fresh (take k es) = Ok st" for k st
    using that by (intro exI [of _ k]) simp
  then show "snapshots_ok sc dir es \<Longrightarrow> ?thesis" unfolding snapshots_ok_def by blast
qed

text \<open>A write keeps the store well formed, and what its caller then holds is what a replay of
  the store gives.\<close>

lemma append_keeps_store:
  assumes ok: "store_ok c sc file dir es" and cur: "replay_fresh es = Ok cur"
    and e: "e = new_task_event tid (length es) now actor corr kind"
    and codec: "codec_ok c e" "snapshots_decode sc (es @ [e])"
    and app: "append_and_reduce c sc save_ok tid now corr file dir kind actor cur = (r, file', dir')"
  shows "store_ok c sc file' dir' (es @ [e]) \<and>
    replay_fresh (es @ [e]) = Ok (case r of Ok (st, _) \<Rightarrow> st | Err _ \<Rightarrow> cur)"
proof -
  from ok have h: "holds_log c file es" and nb: "numbered es" and sn: "snapshots_ok sc dir es"
    by (simp_all add: store_ok_def)
  have nb': "numbered (es @ [e])" using nb e by (simp add: numbered_snoc)
  have full: "replay_fresh (es @ [e]) = Ok (unwrap_or (reduce cur e) cur)"
    using cur by (rule replay_fresh_snoc)
  have sn': "snapshots_ok sc dir (es @ [e])" using sn by (rule snapshots_ok_snoc)
  obtain f where f: "holds_log c f (es @ [e])"
    and eq: "(r, file', dir') = (case reduce cur e of
        Err x \<Rightarrow> (Err (Refused x), f, dir)
      | Ok st \<Rightarrow> (Ok (st, length es), f,
           if should_checkpoint (length es - (mt_event_seq st - 1)) e \<and> save_ok (length es)
           then save_checkpoint sc dir st (length es) else dir))"
    using append_and_reduce_unfold [OF h nb codec(1) [unfolded e], of sc save_ok dir cur]
    unfolding e [symmetric] app by blast
  show ?thesis
  proof (cases "reduce cur e")
    case (Ok st)
    have "snapshots_ok sc (save_checkpoint sc dir st (length es)) (es @ [e])"
      using snapshots_ok_save [OF sn' codec(2), of "Suc (length es)"] full Ok by simp
    with Ok eq f nb' sn' full show ?thesis by (simp add: store_ok_def split: if_splits)
  qed (use eq f nb' sn' full in \<open>simp add: store_ok_def\<close>)
qed

section \<open>Engine runs\<close>

text \<open>
  The engine over time: its log file, its checkpoint directory and the state the daemon holds
  in memory. A step is a write through \<^verbatim>\<open>append_and_reduce\<close> (the caller keeps its state when
  the event is refused), or a crash after which \<^verbatim>\<open>recover_agent_crash\<close> rebuilds the state.
  The premises that mention the codecs say that the JSON library gives back what it wrote.
\<close>

record engine =
  en_file :: log_file
  en_dir :: checkpoint_dir
  en_state :: materialized_task

inductive engine_run ::
  "'v event_codec \<Rightarrow> state_codec \<Rightarrow> string \<Rightarrow> engine \<Rightarrow> 'v task_event list \<Rightarrow> bool"
  for c :: "'v event_codec" and sc tid where
  create: "\<lbrakk>e = new_task_event tid 0 now actor corr (TaskCreated spec); codec_ok c e;
       append_event c tid now None (TaskCreated spec) actor corr = (file, 0);
       reduce (initial_task spec) e = Ok st\<rbrakk> \<Longrightarrow>
     engine_run c sc tid \<lparr>en_file = file, en_dir = [], en_state = st\<rparr> [e]"
| append: "\<lbrakk>engine_run c sc tid en es; e = new_task_event tid (length es) now actor corr kind;
       codec_ok c e; snapshots_decode sc (es @ [e]);
       append_and_reduce c sc save_ok tid now corr (en_file en) (en_dir en) kind actor (en_state en) =
         (r, file', dir')\<rbrakk> \<Longrightarrow>
     engine_run c sc tid
       \<lparr>en_file = file', en_dir = dir',
        en_state = (case r of Ok (st, _) \<Rightarrow> st | Err _ \<Rightarrow> en_state en)\<rparr> (es @ [e])"
| crash: "\<lbrakk>engine_run c sc tid en es; snapshots_decode sc es;
       recover_agent_crash c sc save_ok (en_file en) (en_dir en) = (Ok st, dir')\<rbrakk> \<Longrightarrow>
     engine_run c sc tid \<lparr>en_file = en_file en, en_dir = dir', en_state = st\<rparr> es"

lemma replay_full:
  assumes "store_ok c sc file dir es" "snapshots_decode sc es"
  shows "fst (replay c sc save_ok file dir) = replay_fresh es \<and>
    store_ok c sc file (snd (replay c sc save_ok file dir)) es"
proof (cases "load_latest sc dir")
  case None
  with assms(1) read_holds_log [of c "file" es 0] show ?thesis
    by (simp add: replay_def store_ok_def)
next
  case (Some p)
  then obtain st n where ll: "load_latest sc dir = Some (st, n)" by (cases p) auto
  from assms(1) have h: "holds_log c file es" and nb: "numbered es" and sn: "snapshots_ok sc dir es"
    by (simp_all add: store_ok_def)
  from load_latest_Some [OF ll] have n: "n = mt_event_seq st" by simp
  from load_latest_Some [OF ll] sn obtain k where k: "k \<le> length es" "replay_fresh (take k es) = Ok st"
    by (fastforce simp: snapshots_ok_def)
  let ?m = "Suc (mt_event_seq st)"
  have rd: "read_from c file (n + 1) = drop ?m es"
    using read_holds_log [OF h, of "n + 1"] numbered_filter [OF nb, of "n + 1"] n by simp
  have full: "replay_fresh es = Ok (run_skip reduce st (drop ?m es))"
    using nb k by (rule resume_from_snapshot)
  have "replay_fresh (take ?m es) = Ok st" using replay_settles [OF nb k] by simp
  then have "snapshots_ok sc (snd (replay_loop sc save_ok st 0 dir (drop ?m es))) es"
    using replay_loop_snapshots [of "take ?m es" "drop ?m es" sc st dir save_ok 0] nb assms(2) sn by simp
  with ll rd full h nb replay_loop_state [of sc save_ok st 0 dir "drop ?m es"] show ?thesis
    by (auto simp: replay_def store_ok_def split: prod.splits)
qed

section \<open>Properties\<close>

text \<open>C2: Checkpoints are transparent. On a store whose checkpoint files, where they decode, are
  states of the log, replaying from the latest checkpoint gives exactly the result of replaying
  the whole log from its first event, and the checkpoints it writes on the way are again states
  of the log.\<close>

theorem replay_is_full_replay:
  assumes "store_ok c sc file dir es" "snapshots_decode sc es"
  shows "fst (replay c sc save_ok file dir) = replay_fresh es \<and>
    store_ok c sc file (snd (replay c sc save_ok file dir)) es"
  using assms by (rule replay_full)

theorem replay_is_full_replay_witness:
  "fst (replay (table_codec [(''e0'', sample_event 0 (TaskCreated sample_spec))])
     \<lparr>ser_state = (\<lambda>_. []), de_state = (\<lambda>_. Some (initial_task sample_spec))\<rparr> (\<lambda>_. True)
     (Some ''e0\<newline>'') [(checkpoint_filename 0, [])]) =
   replay_fresh [sample_event 0 (TaskCreated sample_spec)]"
proof -
  let ?e = "sample_event 0 (TaskCreated sample_spec)"
  let ?sc = "\<lparr>ser_state = (\<lambda>_. []), de_state = (\<lambda>_. Some (initial_task sample_spec))\<rparr>"
  have r: "replay_fresh [?e] = Ok (initial_task sample_spec)"
    by (simp add: replay_fresh_def reduce_def initial_task_def)
  then have "snapshots_decode ?sc [?e]" by (auto simp: snapshots_decode_def le_Suc_eq)
  moreover have "store_ok (table_codec [(''e0'', ?e)]) ?sc (Some ''e0\<newline>'') [(checkpoint_filename 0, [])] [?e]"
    using r by (auto simp: store_ok_def holds_log_def numbered_def snapshots_ok_def table_codec_def codec_ok_def
        trim_def trim_start_def trim_end_def is_whitespace_def intro: exI [of _ 1])
  ultimately show ?thesis using replay_is_full_replay by blast
qed

text \<open>C1: The in-memory state never drifts from the disk. However writes (accepted or refused),
  automatic checkpoints and crash recoveries interleave after a task is created, replaying the
  store at any moment returns exactly the state the engine holds in memory.\<close>

theorem engine_memory_equals_disk:
  assumes "engine_run c sc tid en es" "snapshots_decode sc es"
  shows "fst (recover_agent_crash c sc save_ok (en_file en) (en_dir en)) = Ok (en_state en)"
proof -
  have "store_ok c sc (en_file en) (en_dir en) es \<and> replay_fresh es = Ok (en_state en)"
    using assms(1)
  proof (induction rule: engine_run.induct)
    case (create e now actor corr spec fl st)
    then have "holds_log c fl [e]"
      using append_holds_log [of c None "[]" tid now actor corr "TaskCreated spec" fl 0]
      by (auto simp: holds_log_def)
    moreover have "replay_fresh [e] = Ok st" using create by (simp add: replay_fresh_def)
    ultimately show ?case
      using create by (simp add: store_ok_def numbered_def snapshots_ok_def)
  next
    case (append en es e now actor corr kind save_ok r file' dir')
    with append_keeps_store [OF _ _ append.hyps(2-5)] show ?case by simp
  next
    case (crash en es save_ok st dir')
    with replay_full [of c sc "en_file en" "en_dir en" es save_ok] show ?case
      by (simp add: recover_agent_crash_def)
  qed
  with replay_full [of c sc "en_file en" "en_dir en" es save_ok] assms(2) show ?thesis
    by (simp add: recover_agent_crash_def)
qed


theorem engine_memory_equals_disk_witness:
  "fst (recover_agent_crash (table_codec [(''e0'', sample_event 0 (TaskCreated sample_spec))])
     \<lparr>ser_state = (\<lambda>_. []), de_state = (\<lambda>_. Some (initial_task sample_spec))\<rparr> (\<lambda>_. True)
     (Some ''e0\<newline>'') []) = Ok (initial_task sample_spec)"
proof -
  let ?e = "sample_event 0 (TaskCreated sample_spec)"
  let ?c = "table_codec [(''e0'', ?e)]"
  let ?sc = "\<lparr>ser_state = (\<lambda>_. []), de_state = (\<lambda>_. Some (initial_task sample_spec))\<rparr>"
  have red: "reduce (initial_task sample_spec) ?e = Ok (initial_task sample_spec)"
    by (simp add: reduce_def initial_task_def)
  have run: "engine_run ?c ?sc ''t1'' \<lparr>en_file = Some ''e0\<newline>'', en_dir = [],
      en_state = initial_task sample_spec\<rparr> [?e]"
  proof (rule engine_run.create)
    show "codec_ok ?c ?e"
      by (simp add: codec_ok_def table_codec_def trim_def trim_start_def trim_end_def is_whitespace_def)
    show "append_event ?c ''t1'' (int 0) None (TaskCreated sample_spec) ''daemon'' ''corr'' = (Some ''e0\<newline>'', 0)"
      by (simp add: append_event_def event_count_def table_codec_def)
  qed (use red in simp_all)
  have "snapshots_decode ?sc [?e]"
    using red by (auto simp: snapshots_decode_def replay_fresh_def le_Suc_eq)
  from engine_memory_equals_disk [OF run this] show ?thesis by simp
qed

text \<open>The write path checkpoints at stable boundaries only. The 50-event threshold never fires
  there, because the count of events since the last checkpoint is computed from the state that
  already carries the number of the new event and is at most 1: an event of any other kind
  leaves the checkpoint directory as it was, however long the log is.\<close>

theorem append_never_checkpoints_by_volume:
  assumes "holds_log c file es" "numbered es"
    and "codec_ok c (new_task_event tid (length es) now actor corr kind)"
    and "\<not> (is_CheckpointCreated kind \<or> is_TaskDone kind \<or> is_TaskCodeReview kind \<or> is_TaskQa kind)"
  shows "snd (snd (append_and_reduce c sc save_ok tid now corr file dir kind actor cur)) = dir"
proof -
  let ?e = "new_task_event tid (length es) now actor corr kind"
  have "\<not> should_checkpoint (length es - (mt_event_seq st - 1)) ?e" if "reduce cur ?e = Ok st" for st
    using reduce_stamps [OF that] assms(4) by (cases kind; simp)
  with append_and_reduce_unfold [OF assms(1-3), of sc save_ok dir cur] show ?thesis
    by (auto simp del: should_checkpoint.simps)
qed

theorem append_never_checkpoints_by_volume_witness:
  "snd (snd (append_and_reduce (table_codec [(''e0'', sample_event 0 TaskActive)])
     \<lparr>ser_state = (\<lambda>_. []), de_state = (\<lambda>_. None)\<rparr> (\<lambda>_. True) ''t1'' 0 ''corr'' None [] TaskActive ''daemon''
     (initial_task sample_spec))) = []"
  by (rule append_never_checkpoints_by_volume [where es = "[]"])
     (simp_all add: holds_log_def numbered_def codec_ok_def table_codec_def trim_def trim_start_def
        trim_end_def is_whitespace_def)

end
