(* ===== verification/Circuit_Breaker.thy ===== *)
theory Circuit_Breaker
  imports Prelude
begin

text \<open>
  The circuit breaker of \<^verbatim>\<open>circuit_breaker.rs\<close>. Each method that takes the lock is one
  function on the guarded state; \<^verbatim>\<open>is_allowed\<close> takes a read lock and then, for the way from
  Open to HalfOpen, a write lock, so it is two atomic steps, and callers interleave between them.
\<close>

section \<open>Definitions\<close>

datatype circuit_state = CClosed | COpen | CHalfOpen

fun show_circuit_state :: "circuit_state \<Rightarrow> string" where
  "show_circuit_state CClosed = ''closed''"
| "show_circuit_state COpen = ''open''"
| "show_circuit_state CHalfOpen = ''half_open''"

record breaker_config =
  failure_threshold :: u32
  success_threshold :: u32
  open_timeout :: int

definition default_breaker_config :: breaker_config where
  "default_breaker_config =
     \<lparr>failure_threshold = 5, success_threshold = 2, open_timeout = secs 30\<rparr>"

record breaker =
  br_state :: circuit_state
  br_failure_count :: u32
  br_success_count :: u32
  br_last_failure :: "timestamp option"

definition new_breaker :: breaker where
  "new_breaker =
     \<lparr>br_state = CClosed, br_failure_count = 0, br_success_count = 0, br_last_failure = None\<rparr>"

text \<open>The part of \<^verbatim>\<open>is_allowed\<close> under the read lock: an answer, or go on to the write lock.\<close>

datatype read_verdict = Answer bool | Upgrade

definition is_allowed_read :: "breaker_config \<Rightarrow> timestamp \<Rightarrow> breaker \<Rightarrow> read_verdict" where
  "is_allowed_read cfg now b =
     (if br_state b = CClosed then Answer True
      else if br_state b = CHalfOpen then Answer True
      else case br_last_failure b of
        Some last_failure \<Rightarrow>
          if max 0 (now - last_failure) < open_timeout cfg then Answer False else Upgrade
      | None \<Rightarrow> Upgrade)"

definition is_allowed_write :: "breaker_config \<Rightarrow> timestamp \<Rightarrow> breaker \<Rightarrow> bool \<times> breaker" where
  "is_allowed_write cfg now b =
     (case (br_state b, br_last_failure b) of
        (COpen, Some last_failure) \<Rightarrow>
          if open_timeout cfg \<le> max 0 (now - last_failure)
          then (True, b\<lparr>br_state := CHalfOpen, br_success_count := 0\<rparr>)
          else (False, b)
      | _ \<Rightarrow> (br_state b \<noteq> COpen, b))"

text \<open>Without a concurrent caller between the two locks:\<close>

definition is_allowed :: "breaker_config \<Rightarrow> timestamp \<Rightarrow> breaker \<Rightarrow> bool \<times> breaker" where
  "is_allowed cfg now b =
     (case is_allowed_read cfg now b of
        Answer r \<Rightarrow> (r, b)
      | Upgrade \<Rightarrow> is_allowed_write cfg now b)"

definition record_success :: "breaker_config \<Rightarrow> breaker \<Rightarrow> breaker" where
  "record_success cfg b =
     (case br_state b of
        CHalfOpen \<Rightarrow>
          (let b' = b\<lparr>br_success_count := br_success_count b + 1\<rparr>
           in if success_threshold cfg \<le> br_success_count b'
              then b'\<lparr>br_state := CClosed, br_failure_count := 0, br_success_count := 0,
                      br_last_failure := None\<rparr>
              else b')
      | CClosed \<Rightarrow> b\<lparr>br_failure_count := 0\<rparr>
      | COpen \<Rightarrow> b)"

definition record_failure :: "breaker_config \<Rightarrow> timestamp \<Rightarrow> breaker \<Rightarrow> breaker" where
  "record_failure cfg now b0 =
     (let b = b0\<lparr>br_last_failure := Some now\<rparr>
      in case br_state b of
        CClosed \<Rightarrow>
          (let b' = b\<lparr>br_failure_count := br_failure_count b + 1\<rparr>
           in if failure_threshold cfg \<le> br_failure_count b'
              then b'\<lparr>br_state := COpen\<rparr> else b')
      | CHalfOpen \<Rightarrow> b\<lparr>br_state := COpen, br_success_count := 0\<rparr>
      | COpen \<Rightarrow> b)"

definition force_close :: "breaker \<Rightarrow> breaker" where
  "force_close b =
     (if br_state b \<noteq> CClosed
      then b\<lparr>br_state := CClosed, br_failure_count := 0, br_success_count := 0, br_last_failure := None\<rparr>
      else b)"

section \<open>Callers around one breaker\<close>

text \<open>A caller is idle, between the two locks of \<^verbatim>\<open>is_allowed\<close>, or has been let through and is
  making its call. Any caller may move at any time, and the clock may advance.\<close>

datatype caller = Idle | Upgrading | Calling

record breaker_sys =
  sy_breaker :: breaker
  sy_now :: timestamp
  sy_callers :: "nat \<Rightarrow> caller"

definition init_sys :: "timestamp \<Rightarrow> breaker_sys" where
  "init_sys t = \<lparr>sy_breaker = new_breaker, sy_now = t, sy_callers = (\<lambda>_. Idle)\<rparr>"

inductive sys_step :: "breaker_config \<Rightarrow> breaker_sys \<Rightarrow> breaker_sys \<Rightarrow> bool" for cfg where
  tick: "sy_now s \<le> t \<Longrightarrow> sys_step cfg s (s\<lparr>sy_now := t\<rparr>)"
| check_read: "\<lbrakk>sy_callers s i = Idle; is_allowed_read cfg (sy_now s) (sy_breaker s) = v\<rbrakk> \<Longrightarrow>
    sys_step cfg s (s\<lparr>sy_callers := (sy_callers s)(i :=
      (case v of Answer True \<Rightarrow> Calling | Answer False \<Rightarrow> Idle | Upgrade \<Rightarrow> Upgrading))\<rparr>)"
| check_write: "\<lbrakk>sy_callers s i = Upgrading;
      is_allowed_write cfg (sy_now s) (sy_breaker s) = (r, b')\<rbrakk> \<Longrightarrow>
    sys_step cfg s (s\<lparr>sy_breaker := b', sy_callers := (sy_callers s)(i := if r then Calling else Idle)\<rparr>)"
| success: "sy_callers s i = Calling \<Longrightarrow>
    sys_step cfg s (s\<lparr>sy_breaker := record_success cfg (sy_breaker s),
                     sy_callers := (sy_callers s)(i := Idle)\<rparr>)"
| failure: "sy_callers s i = Calling \<Longrightarrow>
    sys_step cfg s (s\<lparr>sy_breaker := record_failure cfg (sy_now s) (sy_breaker s),
                     sy_callers := (sy_callers s)(i := Idle)\<rparr>)"
| recovery: "sys_step cfg s (s\<lparr>sy_breaker := force_close (sy_breaker s)\<rparr>)"

inductive sys_reach :: "breaker_config \<Rightarrow> breaker_sys \<Rightarrow> bool" for cfg where
  start: "sys_reach cfg (init_sys t)"
| step: "sys_reach cfg s \<Longrightarrow> sys_step cfg s s' \<Longrightarrow> sys_reach cfg s'"

text \<open>The invariant: an open circuit knows when it failed last, and the counters stay below
  their thresholds, so that counting never wraps.\<close>

definition breaker_ok :: "breaker_config \<Rightarrow> timestamp \<Rightarrow> breaker \<Rightarrow> bool" where
  "breaker_ok cfg now b \<longleftrightarrow>
     (br_state b = COpen \<longrightarrow> br_last_failure b \<noteq> None) \<and>
     (\<forall>t. br_last_failure b = Some t \<longrightarrow> t \<le> now) \<and>
     (br_state b = CClosed \<longrightarrow> br_failure_count b = 0 \<or> br_failure_count b < failure_threshold cfg) \<and>
     (br_success_count b = 0 \<or> br_state b = CHalfOpen \<and> br_success_count b < success_threshold cfg)"

text \<open>Outcomes of calls as the breaker is told of them, and the run over a list of them.\<close>

datatype outcome = Success | is_Failure: Failure timestamp

fun record_outcome :: "breaker_config \<Rightarrow> breaker \<Rightarrow> outcome \<Rightarrow> breaker" where
  "record_outcome cfg b Success = record_success cfg b"
| "record_outcome cfg b (Failure t) = record_failure cfg t b"

fun run_outcomes :: "breaker_config \<Rightarrow> breaker \<Rightarrow> outcome list \<Rightarrow> breaker" where
  "run_outcomes cfg b [] = b"
| "run_outcomes cfg b (x # xs) = run_outcomes cfg (record_outcome cfg b x) xs"

text \<open>The reference: how many failures end the list, and whether some block of \<open>n\<close> failures
  in a row occurs in it.\<close>

definition trailing_failures :: "outcome list \<Rightarrow> nat" where
  "trailing_failures xs = length (takeWhile is_Failure (rev xs))"

definition has_failure_block :: "nat \<Rightarrow> outcome list \<Rightarrow> bool" where
  "has_failure_block n xs \<longleftrightarrow> (\<exists>k \<le> length xs. n \<le> trailing_failures (take k xs))"

section \<open>Lemmas\<close>

lemma new_breaker_ok: "breaker_ok cfg now new_breaker"
  by (simp add: breaker_ok_def new_breaker_def)

lemma force_close_ok: "breaker_ok cfg now b \<Longrightarrow> breaker_ok cfg now (force_close b)"
  by (auto simp: breaker_ok_def force_close_def)

lemma is_allowed_write_ok:
  "breaker_ok cfg now b \<Longrightarrow> is_allowed_write cfg now b = (r, b') \<Longrightarrow> breaker_ok cfg now b'"
  by (auto simp: breaker_ok_def is_allowed_write_def split: circuit_state.splits option.splits if_splits)

lemma record_success_ok: "breaker_ok cfg now b \<Longrightarrow> breaker_ok cfg now (record_success cfg b)"
  by (auto simp: breaker_ok_def record_success_def split: circuit_state.splits)

lemma record_failure_ok: "breaker_ok cfg now b \<Longrightarrow> breaker_ok cfg now (record_failure cfg now b)"
  by (auto simp: breaker_ok_def record_failure_def split: circuit_state.splits)

lemma breaker_ok_later: "breaker_ok cfg now b \<Longrightarrow> now \<le> t \<Longrightarrow> breaker_ok cfg t b"
  by (fastforce simp: breaker_ok_def)

lemma sys_step_ok:
  "sys_step cfg s s' \<Longrightarrow> breaker_ok cfg (sy_now s) (sy_breaker s) \<Longrightarrow>
   breaker_ok cfg (sy_now s') (sy_breaker s')"
  by (induction rule: sys_step.induct)
     (auto intro: breaker_ok_later is_allowed_write_ok record_success_ok record_failure_ok force_close_ok)

lemma run_outcomes_snoc: "run_outcomes cfg b (xs @ [x]) = record_outcome cfg (run_outcomes cfg b xs) x"
  by (induction xs arbitrary: b) auto

lemma trailing_failures_simps [simp]:
  "trailing_failures [] = 0"
  "trailing_failures (xs @ [Success]) = 0"
  "trailing_failures (xs @ [Failure t]) = Suc (trailing_failures xs)"
  by (simp_all add: trailing_failures_def)

lemma has_failure_block_snoc:
  "has_failure_block n (xs @ [x]) \<longleftrightarrow> has_failure_block n xs \<or> n \<le> trailing_failures (xs @ [x])"
proof -
  have "(\<exists>k \<le> Suc m. P k) \<longleftrightarrow> (\<exists>k \<le> m. P k) \<or> P (Suc m)" for m and P :: "nat \<Rightarrow> bool"
    by (metis le_Suc_eq le_refl)
  from this [of "length xs" "\<lambda>k. n \<le> trailing_failures (take k (xs @ [x]))"] show ?thesis
    by (simp add: has_failure_block_def cong: conj_cong)
qed

lemma unat_Suc_below:
  fixes a b :: u32
  assumes "unat a < unat b"
  shows "unat (a + 1) = Suc (unat a)"
proof -
  have "unat b < 2 ^ 32" by (rule order_less_le_trans [OF unsigned_less]) simp
  with assms show ?thesis by (simp add: unat_word_ariths)
qed

text \<open>The breaker and its reference agree after every list of outcomes.\<close>

lemma run_outcomes_reference:
  assumes "0 < unat (failure_threshold cfg)"
  shows "if has_failure_block (unat (failure_threshold cfg)) xs
    then br_state (run_outcomes cfg new_breaker xs) = COpen
    else br_state (run_outcomes cfg new_breaker xs) = CClosed \<and>
      unat (br_failure_count (run_outcomes cfg new_breaker xs)) = trailing_failures xs \<and>
      trailing_failures xs < unat (failure_threshold cfg)"
proof (induction xs rule: rev_induct)
  case Nil
  with assms show ?case by (simp add: has_failure_block_def new_breaker_def)
next
  case (snoc x xs)
  let ?n = "unat (failure_threshold cfg)"
  let ?b = "run_outcomes cfg new_breaker xs"
  show ?case
  proof (cases "has_failure_block ?n xs")
    case True
    with snoc have "br_state ?b = COpen" by simp
    with True show ?thesis
      by (cases x) (simp_all add: has_failure_block_snoc run_outcomes_snoc record_success_def record_failure_def)
  next
    case False
    with snoc have st: "br_state ?b = CClosed" "unat (br_failure_count ?b) = trailing_failures xs"
      "trailing_failures xs < ?n" by simp_all
    then have inc: "unat (br_failure_count ?b + 1) = Suc (trailing_failures xs)"
      using unat_Suc_below [of "br_failure_count ?b" "failure_threshold cfg"] by simp
    from False assms st inc show ?thesis
      by (cases x)
         (auto simp: has_failure_block_snoc run_outcomes_snoc record_success_def record_failure_def
            word_le_nat_alt)
  qed
qed

lemma run_outcomes_append:
  "run_outcomes cfg b (xs @ ys) = run_outcomes cfg (run_outcomes cfg b xs) ys"
  by (induction xs arbitrary: b) auto

lemma half_open_successes:
  assumes "br_state b = CHalfOpen" "br_success_count b = 0" "0 < unat (success_threshold cfg)"
  shows "if k < unat (success_threshold cfg)
    then br_state (run_outcomes cfg b (replicate k Success)) = CHalfOpen \<and>
      unat (br_success_count (run_outcomes cfg b (replicate k Success))) = k
    else br_state (run_outcomes cfg b (replicate k Success)) = CClosed"
proof (induction k)
  case 0
  with assms show ?case by simp
next
  case (Suc k)
  let ?b = "run_outcomes cfg b (replicate k Success)"
  have rep: "run_outcomes cfg b (replicate (Suc k) Success) = record_success cfg ?b"
    using run_outcomes_snoc [of cfg b "replicate k Success" Success] by (simp add: replicate_append_same)
  show ?case
  proof (cases "k < unat (success_threshold cfg)")
    case True
    with Suc have st: "br_state ?b = CHalfOpen" "unat (br_success_count ?b) = k" by simp_all
    with True have "unat (br_success_count ?b + 1) = Suc k"
      using unat_Suc_below [of "br_success_count ?b" "success_threshold cfg"] by simp
    with st show ?thesis unfolding rep
      by (auto simp: record_success_def word_le_nat_alt)
  next
    case False
    with Suc show ?thesis unfolding rep by (simp add: record_success_def)
  qed
qed

text \<open>A half-open circuit lets every caller through.\<close>

lemma half_open_admits:
  assumes "sys_reach cfg s" "br_state (sy_breaker s) = CHalfOpen" "sy_callers s i = Idle"
  shows "sys_reach cfg (s\<lparr>sy_callers := (sy_callers s)(i := Calling)\<rparr>)"
  using sys_step.check_read [OF assms(3), of cfg "Answer True"] assms(1,2)
  by (auto simp: is_allowed_read_def intro: sys_reach.step)

lemma half_open_admits_upgrading:
  assumes "sys_reach cfg s" "br_state (sy_breaker s) = CHalfOpen" "sy_callers s i = Upgrading"
  shows "sys_reach cfg (s\<lparr>sy_callers := (sy_callers s)(i := Calling)\<rparr>)"
  using sys_step.check_write [OF assms(3), of cfg True "sy_breaker s"] assms(1,2)
  by (auto simp: is_allowed_write_def intro: sys_reach.step)

text \<open>One failed call while the circuit is closed; five of them and the timeout open and then
  half-open the default circuit.\<close>

lemma one_failed_call:
  assumes "sys_reach cfg \<lparr>sy_breaker = b, sy_now = t, sy_callers = (\<lambda>_. Idle)\<rparr>" "br_state b = CClosed"
  shows "sys_reach cfg \<lparr>sy_breaker = record_failure cfg t b, sy_now = t, sy_callers = (\<lambda>_. Idle)\<rparr>"
proof -
  let ?s = "\<lparr>sy_breaker = b, sy_now = t, sy_callers = (\<lambda>_. Idle)\<rparr>"
  let ?s1 = "?s\<lparr>sy_callers := (\<lambda>_. Idle)(0 := Calling)\<rparr>"
  have "sys_step cfg ?s ?s1"
    using sys_step.check_read [of ?s 0 cfg "Answer True"] assms(2) by (simp add: is_allowed_read_def)
  with assms(1) have "sys_reach cfg ?s1" by (rule sys_reach.step)
  moreover have "sys_step cfg ?s1 \<lparr>sy_breaker = record_failure cfg t b, sy_now = t, sy_callers = (\<lambda>_. Idle)\<rparr>"
    using sys_step.failure [of ?s1 0 cfg] by (simp add: fun_upd_def cong: if_cong)
  ultimately show ?thesis by (rule sys_reach.step)
qed

lemma half_open_reachable:
  "\<exists>s. sys_reach default_breaker_config s \<and> br_state (sy_breaker s) = CHalfOpen"
proof -
  let ?c = default_breaker_config
  let ?sys = "\<lambda>b t. \<lparr>sy_breaker = b, sy_now = t, sy_callers = (\<lambda>_. Idle)\<rparr>"
  let ?closed = "\<lambda>n. \<lparr>br_state = CClosed, br_failure_count = n, br_success_count = 0, br_last_failure = Some 0\<rparr>"
  let ?open = "\<lparr>br_state = COpen, br_failure_count = 5, br_success_count = 0, br_last_failure = Some 0\<rparr>"
  have "sys_reach ?c (?sys new_breaker 0)" using sys_reach.start [of ?c 0] by (simp add: init_sys_def)
  from one_failed_call [OF this] have "sys_reach ?c (?sys (?closed 1) 0)"
    by (simp add: new_breaker_def record_failure_def default_breaker_config_def word_le_nat_alt)
  from one_failed_call [OF this] have "sys_reach ?c (?sys (?closed 2) 0)"
    by (simp add: record_failure_def default_breaker_config_def)
  from one_failed_call [OF this] have "sys_reach ?c (?sys (?closed 3) 0)"
    by (simp add: record_failure_def default_breaker_config_def)
  from one_failed_call [OF this] have "sys_reach ?c (?sys (?closed 4) 0)"
    by (simp add: record_failure_def default_breaker_config_def)
  from one_failed_call [OF this] have "sys_reach ?c (?sys ?open 0)"
    by (simp add: record_failure_def default_breaker_config_def)
  moreover have "sys_step ?c (?sys ?open 0) (?sys ?open (secs 30))"
    using sys_step.tick [of "?sys ?open 0" "secs 30" ?c] by simp
  ultimately have r: "sys_reach ?c (?sys ?open (secs 30))" by (rule sys_reach.step)
  let ?s1 = "(?sys ?open (secs 30))\<lparr>sy_callers := (\<lambda>_. Idle)(0 := Upgrading)\<rparr>"
  have "sys_step ?c (?sys ?open (secs 30)) ?s1"
    using sys_step.check_read [of "?sys ?open (secs 30)" 0 ?c Upgrade]
    by (simp add: is_allowed_read_def default_breaker_config_def)
  with r have r1: "sys_reach ?c ?s1" by (rule sys_reach.step)
  have w: "is_allowed_write ?c (sy_now ?s1) (sy_breaker ?s1) = (True, ?open\<lparr>br_state := CHalfOpen\<rparr>)"
    by (simp add: is_allowed_write_def default_breaker_config_def)
  have u: "sy_callers ?s1 0 = Upgrading" by simp
  from sys_reach.step [OF r1 sys_step.check_write [OF u w]] show ?thesis
    by (intro exI conjI) (assumption, simp)
qed

lemma reach_breaker_ok:
  "sys_reach cfg s \<Longrightarrow> breaker_ok cfg (sy_now s) (sy_breaker s)"
proof (induction rule: sys_reach.induct)
  case (start t)
  then show ?case by (simp add: init_sys_def new_breaker_ok)
next
  case (step s s')
  then show ?case by (blast intro: sys_step_ok)
qed

section \<open>Properties\<close>

text \<open>In every interleaving of any number of callers, the clock and the recovery manager, the
  breaker keeps its invariant: an open circuit has a failure time that is not in the future, and
  the failure and success counters stay below their thresholds.\<close>

theorem breaker_invariant:
  "sys_reach cfg s \<Longrightarrow> breaker_ok cfg (sy_now s) (sy_breaker s)"
  by (rule reach_breaker_ok)

theorem breaker_invariant_witness:
  "breaker_ok default_breaker_config (sy_now (init_sys 7)) (sy_breaker (init_sys 7))"
  by (rule breaker_invariant) (rule sys_reach.start)

text \<open>An open circuit fails fast: while less than the timeout has passed since the last
  failure, no step of any caller lets a call through that was not already under way.\<close>

theorem open_circuit_fails_fast:
  assumes "sys_reach cfg s" "sys_step cfg s s'"
    and "br_state (sy_breaker s) = COpen" "br_last_failure (sy_breaker s) = Some t"
    and "sy_now s - t < open_timeout cfg"
    and "sy_callers s' i = Calling"
  shows "sy_callers s i = Calling"
proof -
  have "t \<le> sy_now s"
    using reach_breaker_ok [OF assms(1)] assms(4) by (simp add: breaker_ok_def)
  with assms(3-5) have "is_allowed_read cfg (sy_now s) (sy_breaker s) = Answer False"
    and "is_allowed_write cfg (sy_now s) (sy_breaker s) = (False, sy_breaker s)"
    by (simp_all add: is_allowed_read_def is_allowed_write_def)
  with assms(2) show ?thesis
    by cases (use assms(6) in \<open>auto split: if_splits\<close>)
qed

theorem open_circuit_fails_fast_witness:
  "br_state (record_failure (default_breaker_config\<lparr>failure_threshold := 1\<rparr>) 0 new_breaker) = COpen \<and>
   sy_callers \<lparr>sy_breaker = record_failure (default_breaker_config\<lparr>failure_threshold := 1\<rparr>) 0 new_breaker,
     sy_now = 0, sy_callers = (\<lambda>_. Idle)(0 := Idle, 1 := Calling)\<rparr> 1 = Calling"
proof -
  let ?cfg = "default_breaker_config\<lparr>failure_threshold := 1\<rparr>"
  let ?s0 = "init_sys 0"
  let ?s1 = "?s0\<lparr>sy_callers := (sy_callers ?s0)(0 := Calling)\<rparr>"
  let ?s2 = "?s1\<lparr>sy_callers := (sy_callers ?s1)(1 := Calling)\<rparr>"
  let ?s3 = "?s2\<lparr>sy_breaker := record_failure ?cfg (sy_now ?s2) (sy_breaker ?s2),
                 sy_callers := (sy_callers ?s2)(0 := Idle)\<rparr>"
  have chk: "is_allowed_read ?cfg 0 new_breaker = Answer True"
    by (simp add: is_allowed_read_def new_breaker_def)
  have "sys_step ?cfg ?s0 ?s1" using sys_step.check_read [of ?s0 0 ?cfg "Answer True"] chk
    by (simp add: init_sys_def)
  moreover have "sys_step ?cfg ?s1 ?s2" using sys_step.check_read [of ?s1 1 ?cfg "Answer True"] chk
    by (simp add: init_sys_def)
  moreover have "sys_step ?cfg ?s2 ?s3" by (rule sys_step.failure) (simp add: init_sys_def)
  ultimately have r3: "sys_reach ?cfg ?s3" by (meson sys_reach.intros)
  have st: "sys_step ?cfg ?s3 (?s3\<lparr>sy_now := 0\<rparr>)" by (rule sys_step.tick) (simp add: init_sys_def)
  have op: "br_state (record_failure ?cfg 0 new_breaker) = COpen"
    by (simp add: record_failure_def new_breaker_def)
  have "sy_callers ?s3 1 = Calling"
    by (rule open_circuit_fails_fast [OF r3 st, where t = 0])
       (simp_all add: init_sys_def record_failure_def new_breaker_def default_breaker_config_def)
  with op show ?thesis by simp
qed

text \<open>C34: Trip condition. Told of any list of call outcomes, a new breaker is open exactly when some
  block of at least \<^verbatim>\<open>failure_threshold\<close> consecutive failures occurs in the list.\<close>

theorem opens_iff_failure_block:
  assumes "0 < unat (failure_threshold cfg)"
  shows "br_state (run_outcomes cfg new_breaker xs) = COpen \<longleftrightarrow>
    has_failure_block (unat (failure_threshold cfg)) xs"
  using run_outcomes_reference [OF assms, of xs] by (auto split: if_splits)

theorem opens_iff_failure_block_witness:
  "br_state (run_outcomes default_breaker_config new_breaker [Failure 1, Success]) = COpen \<longleftrightarrow>
   has_failure_block (unat (failure_threshold default_breaker_config)) [Failure 1, Success]"
  by (rule opens_iff_failure_block) (simp add: default_breaker_config_def)

text \<open>Recovery. From the moment a circuit becomes half open, it stays half open for fewer than
  \<^verbatim>\<open>success_threshold\<close> successes in a row and is closed from that number on.\<close>

theorem half_open_closes_after_threshold:
  assumes "br_state b = CHalfOpen" "br_success_count b = 0" "0 < unat (success_threshold cfg)"
  shows "br_state (run_outcomes cfg b (replicate k Success)) =
    (if k < unat (success_threshold cfg) then CHalfOpen else CClosed)"
  using half_open_successes [OF assms, of k] by (simp split: if_splits)

theorem half_open_closes_after_threshold_witness:
  "br_state (run_outcomes default_breaker_config (new_breaker\<lparr>br_state := CHalfOpen\<rparr>)
     (replicate 2 Success)) = (if (2::nat) < unat (success_threshold default_breaker_config) then CHalfOpen else CClosed)"
  by (rule half_open_closes_after_threshold) (simp_all add: new_breaker_def default_breaker_config_def)

text \<open>Half open does not limit the probes: for every number of callers there is a reachable state
  in which the circuit is half open and all of them have been let through at once.\<close>

theorem half_open_admits_all_callers:
  "\<exists>s. sys_reach default_breaker_config s \<and> br_state (sy_breaker s) = CHalfOpen \<and>
    {i. i < n} \<subseteq> {i. sy_callers s i = Calling}"
proof (induction n)
  case 0
  then show ?case using half_open_reachable by blast
next
  case (Suc n)
  then obtain s where s: "sys_reach default_breaker_config s" "br_state (sy_breaker s) = CHalfOpen"
    "\<forall>i < n. sy_callers s i = Calling" by auto
  show ?case
  proof (cases "sy_callers s n")
    case Idle
    from half_open_admits [OF s(1,2) Idle] s(2,3) show ?thesis
      by (intro exI [of _ "s\<lparr>sy_callers := (sy_callers s)(n := Calling)\<rparr>"]) auto
  next
    case Upgrading
    from half_open_admits_upgrading [OF s(1,2) Upgrading] s(2,3) show ?thesis
      by (intro exI [of _ "s\<lparr>sy_callers := (sy_callers s)(n := Calling)\<rparr>"]) auto
  next
    case Calling
    with s show ?thesis by (auto simp: less_Suc_eq)
  qed
qed

end
