(* ===== verification/Retry.thy ===== *)
theory Retry
  imports Prelude
begin

text \<open>
  Exponential backoff, \<^verbatim>\<open>retry.rs\<close>. The operation is a function of the number of the attempt,
  which covers every stateful closure. Durations are nanoseconds. The floating-point product
  \<^verbatim>\<open>(ms as f64 * multiplier) as u128\<close> is the field \<open>rc_scale\<close>, an arbitrary function of
  the milliseconds.
\<close>

section \<open>Definitions\<close>

record retry_config =
  rc_max_attempts :: nat
  rc_initial_delay :: nat
  rc_max_delay :: nat
  rc_scale :: "nat \<Rightarrow> nat"

definition default_retry_config :: retry_config where
  "default_retry_config =
     \<lparr>rc_max_attempts = 3, rc_initial_delay = 500 * 10 ^ 6, rc_max_delay = 30 * 10 ^ 9,
      rc_scale = (\<lambda>ms. 2 * ms)\<rparr>"

definition instant_retry_config :: retry_config where
  "instant_retry_config =
     \<lparr>rc_max_attempts = 3, rc_initial_delay = 10 ^ 6, rc_max_delay = 10 * 10 ^ 6,
      rc_scale = (\<lambda>ms. 2 * ms)\<rparr>"

definition no_retry_config :: retry_config where
  "no_retry_config =
     \<lparr>rc_max_attempts = 1, rc_initial_delay = 0, rc_max_delay = 0, rc_scale = (\<lambda>ms. ms)\<rparr>"

definition next_delay :: "retry_config \<Rightarrow> nat \<Rightarrow> nat" where
  "next_delay cfg delay =
     (let next_ms = rc_scale cfg (delay div 10 ^ 6)
      in (min next_ms (rc_max_delay cfg div 10 ^ 6) mod 2 ^ 64) * 10 ^ 6)"

text \<open>What the loop leaves behind: its outcome, the delays it slept and how often it called.\<close>

datatype ('a, 'e) retry_outcome = Returned "('a, 'e) result" | Panicked

record ('a, 'e) retry_trace =
  rt_outcome :: "('a, 'e) retry_outcome"
  rt_sleeps :: "nat list"
  rt_calls :: nat

fun retry_loop ::
  "retry_config \<Rightarrow> (nat \<Rightarrow> ('a, 'e) result) \<Rightarrow> nat \<Rightarrow> nat \<Rightarrow> nat \<Rightarrow> 'e option \<Rightarrow> ('a, 'e) retry_trace" where
  "retry_loop cfg f attempt 0 delay last_err =
     \<lparr>rt_outcome = (case last_err of Some e \<Rightarrow> Returned (Err e) | None \<Rightarrow> Panicked),
      rt_sleeps = [], rt_calls = 0\<rparr>"
| "retry_loop cfg f attempt (Suc left) delay last_err =
     (case f attempt of
        Ok v \<Rightarrow> \<lparr>rt_outcome = Returned (Ok v), rt_sleeps = [], rt_calls = 1\<rparr>
      | Err e \<Rightarrow>
          (if attempt < rc_max_attempts cfg
           then let t = retry_loop cfg f (Suc attempt) left (next_delay cfg delay) last_err
                in t\<lparr>rt_sleeps := delay # rt_sleeps t, rt_calls := Suc (rt_calls t)\<rparr>
           else let t = retry_loop cfg f (Suc attempt) left delay (Some e)
                in t\<lparr>rt_calls := Suc (rt_calls t)\<rparr>))"

definition retry_with_backoff :: "retry_config \<Rightarrow> (nat \<Rightarrow> ('a, 'e) result) \<Rightarrow> ('a, 'e) retry_trace" where
  "retry_with_backoff cfg f =
     (if rc_max_attempts cfg = 0
      then \<lparr>rt_outcome = Panicked, rt_sleeps = [], rt_calls = 0\<rparr>
      else retry_loop cfg f 1 (rc_max_attempts cfg) (rc_initial_delay cfg) None)"

definition retry :: "(nat \<Rightarrow> ('a, 'e) result) \<Rightarrow> ('a, 'e) retry_trace" where
  "retry f = retry_with_backoff default_retry_config f"

text \<open>The reference: the attempts made are those up to the first success, or all of them.\<close>

definition attempts_made :: "retry_config \<Rightarrow> (nat \<Rightarrow> ('a, 'e) result) \<Rightarrow> nat" where
  "attempts_made cfg f =
     (case filter (\<lambda>k. is_ok (f k)) [1..<Suc (rc_max_attempts cfg)] of
        [] \<Rightarrow> rc_max_attempts cfg
      | k # _ \<Rightarrow> k)"

definition delays :: "retry_config \<Rightarrow> nat \<Rightarrow> nat \<Rightarrow> nat list" where
  "delays cfg d n = map (\<lambda>i. (next_delay cfg ^^ i) d) [0..<n]"

section \<open>Lemmas\<close>

lemma delays_Cons [simp]: "delays cfg d (Suc n) = d # delays cfg (next_delay cfg d) n"
  by (simp add: delays_def upt_rec [of 0 "Suc n"] map_Suc_upt [symmetric] funpow_swap1
      del: upt_Suc)

lemma delays_0 [simp]: "delays cfg d 0 = []"
  by (simp add: delays_def)

text \<open>The loop from attempt \<open>a\<close> on: it ends at the first success \<open>k\<close>, or after the last attempt.\<close>

lemma retry_loop_success:
  assumes "a \<le> k" "k \<le> rc_max_attempts cfg" "f k = Ok v" "\<forall>j. a \<le> j \<and> j < k \<longrightarrow> \<not> is_ok (f j)"
  shows "retry_loop cfg f a (Suc (rc_max_attempts cfg) - a) d err =
    \<lparr>rt_outcome = Returned (Ok v), rt_sleeps = delays cfg d (k - a), rt_calls = Suc (k - a)\<rparr>"
  using assms
proof (induction "k - a" arbitrary: a d)
  case 0
  then show ?case by (simp add: Suc_diff_le)
next
  case (Suc n)
  then have lt: "a < k" by simp
  with Suc.prems obtain e where e: "f a = Err e" by (auto simp: not_ok_iff)
  have IH: "retry_loop cfg f (Suc a) (Suc (rc_max_attempts cfg) - Suc a) (next_delay cfg d) err =
      \<lparr>rt_outcome = Returned (Ok v), rt_sleeps = delays cfg (next_delay cfg d) (k - Suc a),
       rt_calls = Suc (k - Suc a)\<rparr>"
    using Suc.prems lt Suc.hyps(2) by (intro Suc.hyps(1)) auto
  have "Suc (rc_max_attempts cfg) - a = Suc (Suc (rc_max_attempts cfg) - Suc a)" "k - a = Suc (k - Suc a)"
    using lt Suc.prems(2) by simp_all
  with IH e lt Suc.prems(2) show ?case by simp
qed

lemma retry_loop_exhausted:
  assumes "1 \<le> a" "a \<le> rc_max_attempts cfg" "\<forall>j. a \<le> j \<and> j \<le> rc_max_attempts cfg \<longrightarrow> \<not> is_ok (f j)"
    and "f (rc_max_attempts cfg) = Err e"
  shows "retry_loop cfg f a (Suc (rc_max_attempts cfg) - a) d err =
    \<lparr>rt_outcome = Returned (Err e), rt_sleeps = delays cfg d (rc_max_attempts cfg - a),
     rt_calls = Suc (rc_max_attempts cfg - a)\<rparr>"
  using assms
proof (induction "rc_max_attempts cfg - a" arbitrary: a d)
  case 0
  then have "a = rc_max_attempts cfg" by simp
  with 0 show ?case by (simp add: Suc_diff_le)
next
  case (Suc n)
  then have lt: "a < rc_max_attempts cfg" by simp
  with Suc.prems obtain e' where e': "f a = Err e'" by (auto simp: not_ok_iff)
  have IH: "retry_loop cfg f (Suc a) (Suc (rc_max_attempts cfg) - Suc a) (next_delay cfg d) err =
      \<lparr>rt_outcome = Returned (Err e), rt_sleeps = delays cfg (next_delay cfg d) (rc_max_attempts cfg - Suc a),
       rt_calls = Suc (rc_max_attempts cfg - Suc a)\<rparr>"
    using Suc.prems lt Suc.hyps(2) by (intro Suc.hyps(1)) auto
  have "Suc (rc_max_attempts cfg) - a = Suc (Suc (rc_max_attempts cfg) - Suc a)"
    "rc_max_attempts cfg - a = Suc (rc_max_attempts cfg - Suc a)"
    using lt by simp_all
  with IH e' lt show ?case by simp
qed

lemma attempts_made_cases [consumes 1, case_names success exhausted]:
  assumes "0 < rc_max_attempts cfg"
  obtains (success) k v where "attempts_made cfg f = k" "1 \<le> k" "k \<le> rc_max_attempts cfg" "f k = Ok v"
      "\<forall>j. 1 \<le> j \<and> j < k \<longrightarrow> \<not> is_ok (f j)"
  | (exhausted) e where "attempts_made cfg f = rc_max_attempts cfg"
      "\<forall>j. 1 \<le> j \<and> j \<le> rc_max_attempts cfg \<longrightarrow> \<not> is_ok (f j)" "f (rc_max_attempts cfg) = Err e"
proof (cases "filter (\<lambda>k. is_ok (f k)) [1..<Suc (rc_max_attempts cfg)]")
  case Nil
  then have all: "\<forall>j. 1 \<le> j \<and> j \<le> rc_max_attempts cfg \<longrightarrow> \<not> is_ok (f j)"
    by (auto simp: filter_empty_conv simp del: upt_Suc)
  moreover from this assms obtain e where "f (rc_max_attempts cfg) = Err e"
    by (auto simp: not_ok_iff Suc_le_eq)
  ultimately show thesis using Nil exhausted by (simp add: attempts_made_def del: upt_Suc)
next
  case (Cons k ks)
  then obtain xs ys where sp: "[1..<Suc (rc_max_attempts cfg)] = xs @ k # ys"
    and xs: "\<forall>x \<in> set xs. \<not> is_ok (f x)" and k: "is_ok (f k)"
    by (auto simp: filter_eq_Cons_iff simp del: upt_Suc)
  then have kin: "1 \<le> k" "k \<le> rc_max_attempts cfg"
    by (metis atLeastLessThan_iff in_set_conv_decomp less_Suc_eq_le set_upt)+
  have "\<not> is_ok (f j)" if "1 \<le> j" "j < k" for j
  proof -
    have "j \<in> set (xs @ k # ys)" using that kin by (simp flip: sp del: upt_Suc)
    moreover have "sorted (xs @ k # ys)" by (simp flip: sp del: upt_Suc)
    ultimately show ?thesis using xs that by (auto simp: sorted_append)
  qed
  with kin k Cons show thesis using success by (auto simp: attempts_made_def is_ok_iff simp del: upt_Suc)
qed

lemma next_delay_capped: "next_delay cfg d \<le> rc_max_delay cfg"
proof -
  let ?m = "min (rc_scale cfg (d div 10 ^ 6)) (rc_max_delay cfg div 10 ^ 6)"
  have "?m mod 2 ^ 64 \<le> rc_max_delay cfg div 10 ^ 6" by (meson min.cobounded2 mod_less_eq_dividend order_trans)
  then have "(?m mod 2 ^ 64) * 10 ^ 6 \<le> (rc_max_delay cfg div 10 ^ 6) * 10 ^ 6" by (rule mult_le_mono1)
  also have "\<dots> \<le> rc_max_delay cfg" by simp
  finally show ?thesis by (simp only: next_delay_def Let_def)
qed

lemma retry_trace_eq:
  assumes "0 < rc_max_attempts cfg"
  shows "retry_with_backoff cfg f =
    \<lparr>rt_outcome = Returned (f (attempts_made cfg f)),
     rt_sleeps = delays cfg (rc_initial_delay cfg) (attempts_made cfg f - 1),
     rt_calls = attempts_made cfg f\<rparr>"
  using assms
proof (cases rule: attempts_made_cases [where f = f])
  case (success k v)
  with retry_loop_success [of 1 k cfg f v "rc_initial_delay cfg" None] assms show ?thesis
    by (simp add: retry_with_backoff_def)
next
  case (exhausted e)
  with retry_loop_exhausted [of 1 cfg f e "rc_initial_delay cfg" None] assms show ?thesis
    by (simp add: retry_with_backoff_def)
qed

section \<open>Properties\<close>

text \<open>With at least one attempt allowed, the helper never panics: it calls the operation up to
  its first success and no further, or exactly \<^verbatim>\<open>max_attempts\<close> times; it returns that success or
  the error of the last attempt; and between calls it sleeps the successive backoff delays.\<close>

theorem retry_with_backoff_spec:
  assumes "0 < rc_max_attempts cfg"
  shows "retry_with_backoff cfg f =
    \<lparr>rt_outcome = Returned (f (attempts_made cfg f)),
     rt_sleeps = delays cfg (rc_initial_delay cfg) (attempts_made cfg f - 1),
     rt_calls = attempts_made cfg f\<rparr>"
  using assms by (rule retry_trace_eq)

theorem retry_with_backoff_spec_witness:
  "retry_with_backoff default_retry_config (\<lambda>k. if k = 2 then Ok k else Err ''busy'') =
    \<lparr>rt_outcome = Returned (Ok 2), rt_sleeps = [500000000], rt_calls = 2\<rparr>"
proof -
  let ?f = "\<lambda>k::nat. if k = 2 then Ok k else Err ''busy''"
  have "attempts_made default_retry_config ?f = 2"
    by (simp add: attempts_made_def default_retry_config_def upt_rec)
  then show ?thesis
    using retry_with_backoff_spec [of default_retry_config ?f] by (simp add: default_retry_config_def numeral_2_eq_2)
qed

text \<open>The cap on the delays: every sleep but the first is at most \<^verbatim>\<open>max_delay\<close>; the first is
  \<^verbatim>\<open>initial_delay\<close> itself, which the code does not cap.\<close>

theorem retry_sleeps_capped:
  assumes "0 < rc_max_attempts cfg" "i < length (rt_sleeps (retry_with_backoff cfg f))"
  shows "rt_sleeps (retry_with_backoff cfg f) ! i \<le> rc_max_delay cfg \<or>
    i = 0 \<and> rt_sleeps (retry_with_backoff cfg f) ! i = rc_initial_delay cfg"
proof (cases i)
  case 0
  with assms show ?thesis by (simp add: retry_trace_eq delays_def)
next
  case (Suc j)
  with assms have "rt_sleeps (retry_with_backoff cfg f) ! i =
      next_delay cfg ((next_delay cfg ^^ j) (rc_initial_delay cfg))"
    by (simp add: retry_trace_eq delays_def)
  then show ?thesis using next_delay_capped by simp
qed

theorem retry_sleeps_capped_witness:
  "rt_sleeps (retry_with_backoff \<lparr>rc_max_attempts = 2, rc_initial_delay = 5, rc_max_delay = 0, rc_scale = id\<rparr>
     (\<lambda>_. Err ())) ! 0 = 5"
  using retry_sleeps_capped [of "\<lparr>rc_max_attempts = 2, rc_initial_delay = 5, rc_max_delay = 0, rc_scale = id\<rparr>" 0
      "\<lambda>_. Err ()"]
  by (simp add: retry_with_backoff_def numeral_2_eq_2)

end
