(* ===== verification/Binary_Heap.thy ===== *)
theory Binary_Heap
  imports Prelude
begin

text \<open>
  The part of \<^verbatim>\<open>std::collections::BinaryHeap\<close> the scheduler calls: a max-heap in an array,
  \<^verbatim>\<open>push\<close> as append and sift up, \<^verbatim>\<open>pop\<close> as the standard library does it: the last element
  replaces the root, moves down to the bottom along the greater children, and sifts up again.
  The comparison is a parameter. The interface of a max-priority queue is a locale, which the
  heap implements for every total preorder.
\<close>

section \<open>Definitions\<close>

definition swap :: "'a list \<Rightarrow> nat \<Rightarrow> nat \<Rightarrow> 'a list" where
  "swap xs i j = xs[i := xs ! j, j := xs ! i]"

definition parent :: "nat \<Rightarrow> nat" where
  "parent i = (i - 1) div 2"

lemma parent_less: "0 < i \<Longrightarrow> parent i < i"
  by (auto simp: parent_def)

lemma parent_eq_iff: "0 < i \<Longrightarrow> parent i = p \<longleftrightarrow> i = 2 * p + 1 \<or> i = 2 * p + 2"
  by (auto simp: parent_def)

lemma parent_le: "parent i \<le> i"
  by (auto simp: parent_def)

function sift_up :: "('a \<Rightarrow> 'a \<Rightarrow> bool) \<Rightarrow> 'a list \<Rightarrow> nat \<Rightarrow> 'a list" where
  "sift_up le xs pos =
     (if pos = 0 then xs
      else if le (xs ! pos) (xs ! parent pos) then xs
      else sift_up le (swap xs (parent pos) pos) (parent pos))"
  by pat_completeness auto
termination by (relation "measure (\<lambda>(le, xs, pos). pos)") (auto simp: parent_less)

function descend :: "('a \<Rightarrow> 'a \<Rightarrow> bool) \<Rightarrow> 'a list \<Rightarrow> nat \<Rightarrow> 'a list \<times> nat" where
  "descend le xs pos =
     (let child = 2 * pos + 1 in
      if child + 2 \<le> length xs
      then let c = (if le (xs ! child) (xs ! (child + 1)) then child + 1 else child)
           in descend le (swap xs pos c) c
      else if child + 1 = length xs then (swap xs pos child, child)
      else (xs, pos))"
  by pat_completeness auto
termination
  by (relation "measure (\<lambda>(le, xs, pos). length xs - pos)") (auto simp: swap_def)

declare sift_up.simps [simp del] descend.simps [simp del]

definition heap_push :: "('a \<Rightarrow> 'a \<Rightarrow> bool) \<Rightarrow> 'a \<Rightarrow> 'a list \<Rightarrow> 'a list" where
  "heap_push le x xs = sift_up le (xs @ [x]) (length xs)"

definition heap_pop :: "('a \<Rightarrow> 'a \<Rightarrow> bool) \<Rightarrow> 'a list \<Rightarrow> 'a option \<times> 'a list" where
  "heap_pop le xs =
     (if xs = [] then (None, [])
      else let item = last xs; rest = butlast xs in
        if rest = [] then (Some item, [])
        else case descend le (rest[0 := item]) 0 of
          (ys, pos) \<Rightarrow> (Some (rest ! 0), sift_up le ys pos))"

definition is_heap :: "('a \<Rightarrow> 'a \<Rightarrow> bool) \<Rightarrow> 'a list \<Rightarrow> bool" where
  "is_heap le xs \<longleftrightarrow> (\<forall>i. 0 < i \<and> i < length xs \<longrightarrow> le (xs ! i) (xs ! parent i))"

text \<open>A heap but for the edge from \<open>pos\<close> to its parent, and a heap but for the edges at \<open>pos\<close>.\<close>

definition almost_up :: "('a \<Rightarrow> 'a \<Rightarrow> bool) \<Rightarrow> 'a list \<Rightarrow> nat \<Rightarrow> bool" where
  "almost_up le xs pos \<longleftrightarrow> pos < length xs \<and>
     (\<forall>i. 0 < i \<and> i < length xs \<and> i \<noteq> pos \<longrightarrow> le (xs ! i) (xs ! parent i)) \<and>
     (\<forall>i. 0 < i \<and> i < length xs \<and> parent i = pos \<and> 0 < pos \<longrightarrow> le (xs ! i) (xs ! parent pos))"

definition almost_down :: "('a \<Rightarrow> 'a \<Rightarrow> bool) \<Rightarrow> 'a list \<Rightarrow> nat \<Rightarrow> bool" where
  "almost_down le xs pos \<longleftrightarrow> pos < length xs \<and>
     (\<forall>i. 0 < i \<and> i < length xs \<and> i \<noteq> pos \<and> parent i \<noteq> pos \<longrightarrow> le (xs ! i) (xs ! parent i)) \<and>
     (\<forall>i. 0 < i \<and> i < length xs \<and> parent i = pos \<and> 0 < pos \<longrightarrow> le (xs ! i) (xs ! parent pos))"

text \<open>Taking elements out one after the other.\<close>

fun pop_many :: "('q \<Rightarrow> 'a option \<times> 'q) \<Rightarrow> nat \<Rightarrow> 'q \<Rightarrow> 'a list" where
  "pop_many pop 0 q = []"
| "pop_many pop (Suc n) q =
     (case pop q of (None, q') \<Rightarrow> [] | (Some x, q') \<Rightarrow> x # pop_many pop n q')"

section \<open>The interface\<close>

locale total_preorder =
  fixes le :: "'a \<Rightarrow> 'a \<Rightarrow> bool"
  assumes total: "le x y \<or> le y x"
    and trans: "le x y \<Longrightarrow> le y z \<Longrightarrow> le x z"
begin

lemma refl: "le x x"
  using total by blast

end

text \<open>A max-priority queue: \<open>elems\<close> is its content as a multiset.\<close>

locale max_queue = total_preorder le for le :: "'a \<Rightarrow> 'a \<Rightarrow> bool" +
  fixes empty :: "'q"
    and push :: "'a \<Rightarrow> 'q \<Rightarrow> 'q"
    and pop :: "'q \<Rightarrow> 'a option \<times> 'q"
    and elems :: "'q \<Rightarrow> 'a multiset"
    and invar :: "'q \<Rightarrow> bool"
  assumes elems_empty: "elems empty = {#}"
    and invar_empty: "invar empty"
    and elems_push: "invar q \<Longrightarrow> elems (push x q) = add_mset x (elems q)"
    and invar_push: "invar q \<Longrightarrow> invar (push x q)"
    and pop_None: "invar q \<Longrightarrow> pop q = (None, q') \<Longrightarrow> elems q = {#} \<and> invar q' \<and> elems q' = {#}"
    and pop_Some: "invar q \<Longrightarrow> pop q = (Some x, q') \<Longrightarrow>
      x \<in># elems q \<and> (\<forall>y. y \<in># elems q \<longrightarrow> le y x) \<and> invar q' \<and> elems q' = elems q - {#x#}"
begin

lemma pop_many_sorted:
  "invar q \<Longrightarrow> sorted_wrt (\<lambda>x y. le y x) (pop_many pop n q) \<and>
     mset (pop_many pop n q) \<subseteq># elems q"
proof (induction n arbitrary: q)
  case (Suc n)
  show ?case
  proof (cases "pop q")
    case (Pair r q')
    show ?thesis
    proof (cases r)
      case None
      with Pair show ?thesis by simp
    next
      case (Some x)
      with Pair Suc.prems have p: "x \<in># elems q" "\<forall>y. y \<in># elems q \<longrightarrow> le y x" "invar q'"
        "elems q' = elems q - {#x#}" using pop_Some [of q x q'] by auto
      from Suc.IH [OF p(3)] have IH: "sorted_wrt (\<lambda>x y. le y x) (pop_many pop n q')"
        "mset (pop_many pop n q') \<subseteq># elems q - {#x#}" by (simp_all add: p(4))
      then have "\<forall>y \<in> set (pop_many pop n q'). le y x"
        using p(2) by (metis in_diffD mset_subset_eqD set_mset_mset)
      with IH Pair Some p(1) show ?thesis
        by (simp add: insert_subset_eq_iff)
    qed
  qed
qed simp

lemma pop_many_all:
  "invar q \<Longrightarrow> size (elems q) \<le> n \<Longrightarrow> mset (pop_many pop n q) = elems q"
proof (induction n arbitrary: q)
  case (Suc n)
  show ?case
  proof (cases "pop q")
    case (Pair r q')
    show ?thesis
    proof (cases r)
      case None
      with Pair Suc.prems pop_None [of q q'] show ?thesis by simp
    next
      case (Some x)
      with Pair Suc.prems have p: "x \<in># elems q" "invar q'" "elems q' = elems q - {#x#}"
        using pop_Some [of q x q'] by auto
      with Suc.prems have "size (elems q') \<le> n" by (simp add: size_Diff_singleton)
      from Suc.IH [OF p(2) this] Pair Some p show ?thesis by simp
    qed
  qed
qed simp

end

section \<open>Lemmas\<close>

lemma length_swap [simp]: "length (swap xs i j) = length xs"
  by (simp add: swap_def)

lemma nth_swap:
  "i < length xs \<Longrightarrow> j < length xs \<Longrightarrow> k < length xs \<Longrightarrow>
   swap xs i j ! k = (if k = j then xs ! i else if k = i then xs ! j else xs ! k)"
  by (auto simp: swap_def nth_list_update)

lemma mset_swap_heap [simp]: "i < length xs \<Longrightarrow> j < length xs \<Longrightarrow> mset (swap xs i j) = mset xs"
  unfolding swap_def using mset_swap [of j xs i] by simp

lemma length_sift_up [simp]: "length (sift_up le xs pos) = length xs"
  by (induction le xs pos rule: sift_up.induct) (simp add: sift_up.simps [of _ _ "_"])

lemma mset_sift_up: "pos < length xs \<Longrightarrow> mset (sift_up le xs pos) = mset xs"
proof (induction le xs pos rule: sift_up.induct)
  case (1 le xs pos)
  have "parent pos < length xs" using "1.prems" parent_le [of pos] by simp
  with 1 show ?case by (subst sift_up.simps) simp
qed

lemma mset_descend: "pos < length xs \<Longrightarrow> mset (fst (descend le xs pos)) = mset xs"
proof (induction le xs pos rule: descend.induct)
  case (1 le xs pos)
  then show ?case by (subst descend.simps) auto
qed

context total_preorder
begin

lemma sift_up_heap: "almost_up le xs pos \<Longrightarrow> is_heap le (sift_up le xs pos)"
proof (induction pos arbitrary: xs rule: less_induct)
  case (less pos)
  show ?case
  proof (cases "pos = 0 \<or> le (xs ! pos) (xs ! parent pos)")
    case True
    with less.prems show ?thesis
      by (subst sift_up.simps) (auto simp: almost_up_def is_heap_def)
  next
    case False
    let ?p = "parent pos" let ?ys = "swap xs ?p pos"
    have bnd: "pos < length xs" "?p < length xs" "?p < pos"
      using less.prems False parent_less [of pos] by (auto simp: almost_up_def)
    have ys: "?ys ! k = (if k = pos then xs ! ?p else if k = ?p then xs ! pos else xs ! k)"
      if "k < length xs" for k using bnd that by (simp add: nth_swap)
    have ge: "le (xs ! ?p) (xs ! pos)" using False total by blast
    have edge: "\<And>i. 0 < i \<Longrightarrow> i < length xs \<Longrightarrow> i \<noteq> pos \<Longrightarrow> le (xs ! i) (xs ! parent i)"
      and under: "\<And>i. 0 < i \<Longrightarrow> i < length xs \<Longrightarrow> parent i = pos \<Longrightarrow> le (xs ! i) (xs ! ?p)"
      using less.prems False by (auto simp: almost_up_def)
    have "almost_up le ?ys ?p"
      unfolding almost_up_def
    proof (intro conjI allI impI)
      show "?p < length ?ys" using bnd by simp
    next
      fix i assume i: "0 < i \<and> i < length ?ys \<and> i \<noteq> ?p"
      then have pi: "parent i < length xs" "parent i < i" using parent_less [of i] by auto
      consider "i = pos" | "i \<noteq> pos" "parent i = pos" | "i \<noteq> pos" "parent i = ?p"
        | "i \<noteq> pos" "parent i \<noteq> pos" "parent i \<noteq> ?p" by blast
      then show "le (?ys ! i) (?ys ! parent i)"
      proof cases
        case 1
        with bnd ge show ?thesis by (simp add: ys)
      next
        case 2
        with i under [of i] bnd show ?thesis by (simp add: ys)
      next
        case 3
        with i edge [of i] have "le (xs ! i) (xs ! ?p)" by simp
        with ge have "le (xs ! i) (xs ! pos)" by (rule trans [rotated])
        with 3 i bnd show ?thesis by (simp add: ys)
      next
        case 4
        with i edge [of i] pi show ?thesis by (simp add: ys)
      qed
    next
      fix i assume i: "0 < i \<and> i < length ?ys \<and> parent i = ?p \<and> 0 < ?p"
      have top: "le (xs ! ?p) (xs ! parent ?p)" using i bnd edge [of ?p] by simp
      have pp: "parent ?p < ?p" using i parent_less by simp
      with bnd have val: "?ys ! parent ?p = xs ! parent ?p" by (simp add: ys)
      show "le (?ys ! i) (?ys ! parent ?p)"
      proof (cases "i = pos")
        case True
        with bnd top val show ?thesis by (simp add: ys)
      next
        case False
        with i edge [of i] have "le (xs ! i) (xs ! ?p)" by simp
        then have "le (xs ! i) (xs ! parent ?p)" using top by (rule trans)
        with False i val parent_less [of i] show ?thesis by (auto simp: ys)
      qed
    qed
    with less.IH [of ?p ?ys] bnd False show ?thesis by (subst sift_up.simps) simp
  qed
qed

lemma descend_almost_up:
  "almost_down le xs pos \<Longrightarrow> descend le xs pos = (ys, q) \<Longrightarrow> almost_up le ys q"
proof (induction "length xs - pos" arbitrary: xs pos rule: less_induct)
  case less
  let ?l = "2 * pos + 1"
  have edge: "\<And>i. 0 < i \<Longrightarrow> i < length xs \<Longrightarrow> i \<noteq> pos \<Longrightarrow> parent i \<noteq> pos \<Longrightarrow> le (xs ! i) (xs ! parent i)"
    and under: "\<And>i. 0 < i \<Longrightarrow> i < length xs \<Longrightarrow> parent i = pos \<Longrightarrow> 0 < pos \<Longrightarrow> le (xs ! i) (xs ! parent pos)"
    and bnd: "pos < length xs"
    using less.prems(1) by (auto simp: almost_down_def)
  have child: "parent i = pos \<longleftrightarrow> i = ?l \<or> i = ?l + 1" if "0 < i" for i
    using parent_eq_iff [OF that] by simp
  consider (two) "?l + 2 \<le> length xs" | (one) "?l + 1 = length xs" | (none) "length xs \<le> ?l" by linarith
  then show ?case
  proof cases
    case two
    define c where "c = (if le (xs ! ?l) (xs ! (?l + 1)) then ?l + 1 else ?l)"
    let ?zs = "swap xs pos c"
    have c: "0 < c" "c < length xs" "pos < c" "parent c = pos"
      using two child [of c] by (auto simp: c_def)
    have zs: "?zs ! k = (if k = c then xs ! pos else if k = pos then xs ! c else xs ! k)"
      if "k < length xs" for k using bnd c that by (simp add: nth_swap)
    have sib: "le (xs ! i) (xs ! c)" if "0 < i" "parent i = pos" for i
      using that child [of i] total [of "xs ! ?l" "xs ! (?l + 1)"] refl by (auto simp: c_def)
    have "almost_down le ?zs c"
      unfolding almost_down_def
    proof (intro conjI allI impI)
      show "c < length ?zs" using c by simp
    next
      fix i assume i: "0 < i \<and> i < length ?zs \<and> i \<noteq> c \<and> parent i \<noteq> c"
      then have pi: "parent i < length xs" "parent i < i" using parent_less [of i] by auto
      consider "i = pos" | "i \<noteq> pos" "parent i = pos" | "i \<noteq> pos" "parent i \<noteq> pos" by blast
      then show "le (?zs ! i) (?zs ! parent i)"
      proof cases
        case 1
        with i c bnd under [of c] pi show ?thesis by (simp add: zs)
      next
        case 2
        with i c bnd sib [of i] show ?thesis by (simp add: zs)
      next
        case 3
        with i edge [of i] pi show ?thesis by (simp add: zs)
      qed
    next
      fix i assume i: "0 < i \<and> i < length ?zs \<and> parent i = c \<and> 0 < c"
      then have "i \<noteq> pos" "i \<noteq> c" using c parent_less [of i] by auto
      with i c bnd edge [of i] show "le (?zs ! i) (?zs ! parent c)" by (simp add: zs)
    qed
    moreover have "descend le ?zs c = (ys, q)"
      using less.prems(2) two by (subst (asm) descend.simps) (simp add: c_def split: if_splits)
    moreover have "length ?zs - c < length xs - pos" using c by simp
    ultimately show ?thesis using less.hyps by blast
  next
    case one
    then have "descend le xs pos = (swap xs pos ?l, ?l)" by (subst descend.simps) simp
    with less.prems(2) have eq: "ys = swap xs pos ?l" "q = ?l" by auto
    show ?thesis
      unfolding almost_up_def eq
    proof (intro conjI allI impI)
      show "?l < length (swap xs pos ?l)" using one by simp
    next
      fix i assume i: "0 < i \<and> i < length (swap xs pos ?l) \<and> i \<noteq> ?l"
      then have pi: "parent i < length xs" "parent i < i" "parent i \<noteq> pos" "parent i \<noteq> ?l"
        using one child [of i] parent_less [of i] parent_eq_iff [of i ?l] by auto
      show "le (swap xs pos ?l ! i) (swap xs pos ?l ! parent i)"
      proof (cases "i = pos")
        case True
        then have "le (xs ! ?l) (xs ! parent pos)" using i one under [of ?l] child [of ?l] by simp
        with True pi i one bnd show ?thesis by (simp add: nth_swap)
      next
        case False
        with pi i one bnd edge [of i] show ?thesis by (simp add: nth_swap)
      qed
    next
      fix i assume "0 < i \<and> i < length (swap xs pos ?l) \<and> parent i = ?l \<and> 0 < ?l"
      with one parent_eq_iff [of i ?l] show "le (swap xs pos ?l ! i) (swap xs pos ?l ! parent ?l)" by simp
    qed
  next
    case none
    then have "descend le xs pos = (xs, pos)" by (subst descend.simps) simp
    with less.prems(2) have eq: "ys = xs" "q = pos" by simp_all
    have "parent i \<noteq> pos" if "0 < i" "i < length xs" for i using that none child [of i] by auto
    then show ?thesis unfolding almost_up_def eq using bnd edge by auto
  qed
qed

lemma heap_root_greatest: "is_heap le xs \<Longrightarrow> i < length xs \<Longrightarrow> le (xs ! i) (xs ! 0)"
proof (induction i rule: less_induct)
  case (less i)
  show ?case
  proof (cases "i = 0")
    case False
    then have "le (xs ! i) (xs ! parent i)" "parent i < i"
      using less.prems parent_less [of i] by (auto simp: is_heap_def)
    with less show ?thesis by (meson less_trans trans)
  qed (simp add: refl)
qed

lemma heap_push_heap: "is_heap le xs \<Longrightarrow> is_heap le (heap_push le x xs)"
  unfolding heap_push_def
proof (rule sift_up_heap)
  assume h: "is_heap le xs"
  show "almost_up le (xs @ [x]) (length xs)"
    unfolding almost_up_def
  proof (intro conjI allI impI)
    fix i assume i: "0 < i \<and> i < length (xs @ [x]) \<and> i \<noteq> length xs"
    with h parent_less [of i] show "le ((xs @ [x]) ! i) ((xs @ [x]) ! parent i)"
      by (auto simp: is_heap_def nth_append)
  next
    fix i assume "0 < i \<and> i < length (xs @ [x]) \<and> parent i = length xs \<and> 0 < length xs"
    with parent_less [of i] show "le ((xs @ [x]) ! i) ((xs @ [x]) ! parent (length xs))" by auto
  qed simp
qed

lemma heap_pop_Some:
  assumes "is_heap le xs" "heap_pop le xs = (Some x, ys)"
  shows "x \<in># mset xs \<and> (\<forall>y. y \<in># mset xs \<longrightarrow> le y x) \<and> is_heap le ys \<and> mset ys = mset xs - {#x#}"
proof -
  have ne: "xs \<noteq> []" using assms(2) by (auto simp: heap_pop_def)
  then have max: "\<forall>y. y \<in># mset xs \<longrightarrow> le y (xs ! 0)"
    using heap_root_greatest [OF assms(1)] by (auto simp: in_set_conv_nth)
  have split: "mset xs = add_mset (last xs) (mset (butlast xs))"
    using ne by (metis append_butlast_last_id mset.simps(1) mset.simps(2) mset_append union_mset_add_mset_right add.right_neutral)
  show ?thesis
  proof (cases "butlast xs = []")
    case True
    with ne have one: "xs = [last xs]" by (metis append_Nil append_butlast_last_id)
    moreover have "x = last xs" "ys = []" using assms(2) ne True by (auto simp: heap_pop_def)
    ultimately have "xs = [x]" "ys = []" by auto
    then show ?thesis by (simp add: is_heap_def refl)
  next
    case False
    then have len: "Suc 0 < length xs" by (cases xs) (auto split: if_splits)
    let ?r = "(butlast xs)[0 := last xs]"
    obtain zs q where d: "descend le ?r 0 = (zs, q)" by fastforce
    with assms(2) ne False have x: "x = butlast xs ! 0" and ys: "ys = sift_up le zs q"
      by (auto simp: heap_pop_def)
    have x0: "x = xs ! 0" using x len nth_butlast [of 0 xs] by simp
    have "almost_down le ?r 0"
      unfolding almost_down_def
    proof (intro conjI allI impI)
      fix i assume i: "0 < i \<and> i < length ?r \<and> i \<noteq> 0 \<and> parent i \<noteq> 0"
      with assms(1) parent_less [of i] show "le (?r ! i) (?r ! parent i)"
        by (auto simp: is_heap_def nth_butlast)
    qed (use len in auto)
    then have up: "almost_up le zs q" using d by (rule descend_almost_up)
    then have hp: "is_heap le ys" unfolding ys by (rule sift_up_heap)
    have "mset ys = mset zs" using up unfolding ys by (simp add: mset_sift_up almost_up_def)
    also have "\<dots> = mset ?r" using mset_descend [of 0 ?r le] d len by simp
    also have "\<dots> = add_mset (last xs) (mset (butlast xs) - {#x#})"
      using len by (simp add: mset_update x)
    also have "\<dots> = mset xs - {#x#}"
      using len split x by (simp add: nth_mem_mset)
    finally show ?thesis using hp max x0 ne by simp
  qed
qed

end

text \<open>Over every total preorder, the binary heap is a max-priority queue.\<close>

sublocale total_preorder \<subseteq> bin_heap: max_queue le "[]" "heap_push le" "heap_pop le" mset "is_heap le"
proof (unfold_locales, goal_cases)
  case (3 q x)
  then show ?case by (simp add: heap_push_def mset_sift_up)
next
  case (5 q q')
  then show ?case by (auto simp: heap_pop_def is_heap_def split: if_splits prod.splits)
next
  case (6 q x q')
  then show ?case by (rule heap_pop_Some)
next
  case (4 q x)
  then show ?case by (rule heap_push_heap)
qed (simp_all add: is_heap_def)

end
