(* ===== verification/Scheduler_Queue.thy ===== *)
theory Scheduler_Queue
  imports Binary_Heap
begin

text \<open>
  The priority queue of provider requests, \<^verbatim>\<open>scheduler/queue.rs\<close>: the order on requests and the
  operations of the queue, each of which runs under the queue's mutex. The queue is the array of
  the binary heap.
\<close>

section \<open>Definitions\<close>

record scheduler_request =
  rq_id :: string
  rq_task_id :: string
  rq_agent_id :: string
  rq_role :: string
  rq_provider :: string
  rq_priority :: u8
  rq_enqueued_at :: timestamp

definition request_cmp :: "scheduler_request \<Rightarrow> scheduler_request \<Rightarrow> ordering" where
  "request_cmp a b =
     ord_then (ord_cmp (rq_priority a) (rq_priority b)) (ord_cmp (rq_enqueued_at b) (rq_enqueued_at a))"

definition request_partial_cmp :: "scheduler_request \<Rightarrow> scheduler_request \<Rightarrow> ordering option" where
  "request_partial_cmp a b = Some (request_cmp a b)"

definition request_eq :: "scheduler_request \<Rightarrow> scheduler_request \<Rightarrow> bool" where
  "request_eq a b \<longleftrightarrow> rq_id a = rq_id b"

text \<open>\<^verbatim>\<open>a <= b\<close>, as the heap compares: the provided method of \<^verbatim>\<open>PartialOrd\<close>.\<close>

definition request_le :: "scheduler_request \<Rightarrow> scheduler_request \<Rightarrow> bool" where
  "request_le a b \<longleftrightarrow> request_partial_cmp a b \<in> {Some Less, Some Equal}"

type_synonym scheduler_queue = "scheduler_request list"

definition new_queue :: scheduler_queue where
  "new_queue = []"

definition enqueue :: "scheduler_request \<Rightarrow> scheduler_queue \<Rightarrow> scheduler_queue" where
  "enqueue req q = heap_push request_le req q"

definition dequeue :: "scheduler_queue \<Rightarrow> scheduler_request option \<times> scheduler_queue" where
  "dequeue q = heap_pop request_le q"

definition queue_len :: "scheduler_queue \<Rightarrow> nat" where
  "queue_len q = length q"

definition peek_priority :: "scheduler_queue \<Rightarrow> u8 option" where
  "peek_priority q = (case q of [] \<Rightarrow> None | r # _ \<Rightarrow> Some (rq_priority r))"

definition queue_is_empty :: "scheduler_queue \<Rightarrow> bool" where
  "queue_is_empty q \<longleftrightarrow> q = []"

text \<open>Operations in the order in which callers get the mutex.\<close>

datatype queue_op = Enqueue scheduler_request | Dequeue

fun queue_step :: "scheduler_queue \<Rightarrow> queue_op \<Rightarrow> scheduler_queue" where
  "queue_step q (Enqueue r) = enqueue r q"
| "queue_step q Dequeue = snd (dequeue q)"

abbreviation queue_run :: "queue_op list \<Rightarrow> scheduler_queue" where
  "queue_run ops \<equiv> foldl queue_step new_queue ops"

section \<open>Lemmas\<close>

lemma request_le_iff:
  "request_le a b \<longleftrightarrow> rq_priority a < rq_priority b \<or>
     rq_priority a = rq_priority b \<and> rq_enqueued_at b \<le> rq_enqueued_at a"
  by (auto simp: request_le_def request_partial_cmp_def request_cmp_def)

interpretation requests: total_preorder request_le
  by unfold_locales (auto simp: request_le_iff)

interpretation sched: max_queue request_le new_queue enqueue dequeue mset "is_heap request_le"
proof -
  have eq: "new_queue = []" "enqueue = heap_push request_le" "dequeue = heap_pop request_le"
    by (auto simp: new_queue_def enqueue_def dequeue_def fun_eq_iff)
  show "max_queue request_le new_queue enqueue dequeue mset (is_heap request_le)"
    unfolding eq by (rule requests.bin_heap.max_queue_axioms)
qed

lemma queue_step_heap: "is_heap request_le q \<Longrightarrow> is_heap request_le (queue_step q op)"
proof (cases op)
  case (Enqueue r)
  then show "is_heap request_le q \<Longrightarrow> ?thesis" using sched.invar_push by simp
next
  case Dequeue
  obtain r q' where "dequeue q = (r, q')" by fastforce
  with Dequeue show "is_heap request_le q \<Longrightarrow> ?thesis"
    using sched.pop_None [of q q'] sched.pop_Some [of q _ q'] by (cases r) auto
qed

lemma queue_run_heap: "is_heap request_le (queue_run ops)"
proof (induction ops rule: rev_induct)
  case Nil
  show ?case using sched.invar_empty by simp
next
  case (snoc op ops)
  then show ?case by (simp add: queue_step_heap)
qed

section \<open>Properties\<close>

text \<open>After any sequence of operations, a dequeue returns a request of the queue such that
  every other queued request has a lower priority, or the same priority and was not enqueued
  earlier; exactly that one request leaves the queue; and nothing is returned only when the
  queue is empty.\<close>

theorem dequeue_most_urgent:
  "case dequeue (queue_run ops) of
     (None, q') \<Rightarrow> mset (queue_run ops) = {#}
   | (Some r, q') \<Rightarrow> mset (queue_run ops) = add_mset r (mset q') \<and>
       {s \<in> set (queue_run ops). \<not> request_le s r} = {}"
proof -
  let ?q = "queue_run ops"
  obtain r q' where d: "dequeue ?q = (r, q')" by fastforce
  show ?thesis
  proof (cases r)
    case None
    with d sched.pop_None [OF queue_run_heap] show ?thesis by simp
  next
    case (Some x)
    from sched.pop_Some [OF queue_run_heap d [unfolded Some]] d Some show ?thesis by auto
  qed
qed

text \<open>C40: Draining the queue after any sequence of operations yields all its requests, in order of
  descending priority and, within one priority, of ascending time of enqueueing.\<close>

theorem drain_sorted:
  "sorted_wrt (\<lambda>a b. rq_priority b < rq_priority a \<or>
       rq_priority a = rq_priority b \<and> rq_enqueued_at a \<le> rq_enqueued_at b)
     (pop_many dequeue (queue_len (queue_run ops)) (queue_run ops)) \<and>
   mset (pop_many dequeue (queue_len (queue_run ops)) (queue_run ops)) = mset (queue_run ops)"
proof -
  let ?q = "queue_run ops"
  have "sorted_wrt (\<lambda>a b. request_le b a) (pop_many dequeue (queue_len ?q) ?q)"
    using sched.pop_many_sorted [OF queue_run_heap] by blast
  then have "sorted_wrt (\<lambda>a b. rq_priority b < rq_priority a \<or>
       rq_priority a = rq_priority b \<and> rq_enqueued_at a \<le> rq_enqueued_at b)
     (pop_many dequeue (queue_len ?q) ?q)"
    by (rule sorted_wrt_mono_rel [rotated]) (auto simp: request_le_iff)
  moreover have "mset (pop_many dequeue (queue_len ?q) ?q) = mset ?q"
    using sched.pop_many_all [OF queue_run_heap, of ops "queue_len ?q"] by (simp add: queue_len_def)
  ultimately show ?thesis by blast
qed

text \<open>The priority that \<^verbatim>\<open>peek_priority\<close> reports is the priority of the request the next
  dequeue returns.\<close>

theorem peek_agrees_with_dequeue:
  "peek_priority (queue_run ops) = map_option rq_priority (fst (dequeue (queue_run ops)))"
proof (cases "queue_run ops")
  case Nil
  then show ?thesis by (simp add: peek_priority_def dequeue_def heap_pop_def)
next
  case (Cons r rs)
  then show ?thesis
    by (cases "butlast (r # rs)")
       (auto simp: peek_priority_def dequeue_def heap_pop_def split: prod.splits if_splits)
qed

end
