(* ===== verification/Account_Pool.thy ===== *)
theory Account_Pool
  imports Prelude Rust_Strings
begin

text \<open>
  The in-memory account pool of the provider scheduler, \<^verbatim>\<open>scheduler/accounts.rs\<close>: which accounts
  exist, which may be handed out, and their per-minute counters. The methods run under the pool's
  lock; the clock they read is the argument \<open>now\<close> and the order in which a \<^verbatim>\<open>HashMap\<close> iterator
  visits its keys is the argument \<open>ks\<close>.
\<close>

section \<open>Definitions\<close>

record account_entry =
  ae_account_id :: string
  ae_provider :: string
  ae_vault_ref :: string
  ae_is_available :: bool
  ae_blocked_until :: "timestamp option"
  ae_rpm_used :: u32
  ae_tpm_used :: u64
  ae_total_requests :: u64
  ae_last_used :: "timestamp option"

type_synonym account_pool = "string \<rightharpoonup> account_entry"

definition new_pool :: account_pool where
  "new_pool = Map.empty"

definition register :: "account_pool \<Rightarrow> account_entry \<Rightarrow> account_pool" where
  "register pool entry = pool(ae_account_id entry \<mapsto> entry)"

text \<open>The filter of \<^verbatim>\<open>get_available\<close>.\<close>

definition is_candidate :: "timestamp \<Rightarrow> string \<Rightarrow> account_entry \<Rightarrow> bool" where
  "is_candidate now provider a \<longleftrightarrow>
     ae_provider a = provider \<and> ae_is_available a \<and>
     (case ae_blocked_until a of None \<Rightarrow> True | Some t \<Rightarrow> t \<le> now)"

definition get_available :: "string list \<Rightarrow> account_pool \<Rightarrow> timestamp \<Rightarrow> string \<Rightarrow> account_entry option" where
  "get_available ks pool now provider =
     (let candidates = sort_key ae_rpm_used (filter (is_candidate now provider) (map_values ks pool))
      in case candidates of [] \<Rightarrow> None | a # _ \<Rightarrow> Some a)"

definition mark_blocked :: "account_pool \<Rightarrow> string \<Rightarrow> timestamp \<Rightarrow> account_pool" where
  "mark_blocked pool account_id blocked_until =
     (case pool account_id of
        Some entry \<Rightarrow>
          pool(account_id \<mapsto> entry\<lparr>ae_blocked_until := Some blocked_until, ae_is_available := False\<rparr>)
      | None \<Rightarrow> pool)"

text \<open>\<^verbatim>\<open>Duration::seconds(retry_after_secs as i64)\<close>: the cast keeps the bits.\<close>

definition mark_rate_limited :: "account_pool \<Rightarrow> timestamp \<Rightarrow> string \<Rightarrow> u64 \<Rightarrow> account_pool" where
  "mark_rate_limited pool now account_id retry_after_secs =
     mark_blocked pool account_id (now + secs (sint retry_after_secs))"

definition record_usage :: "account_pool \<Rightarrow> timestamp \<Rightarrow> string \<Rightarrow> u64 \<Rightarrow> account_pool" where
  "record_usage pool now account_id tokens =
     (case pool account_id of
        Some entry \<Rightarrow>
          pool(account_id \<mapsto> entry\<lparr>
             ae_rpm_used := saturating_add (ae_rpm_used entry) 1,
             ae_tpm_used := saturating_add (ae_tpm_used entry) tokens,
             ae_total_requests := saturating_add (ae_total_requests entry) 1,
             ae_last_used := Some now\<rparr>)
      | None \<Rightarrow> pool)"

definition list_accounts :: "string list \<Rightarrow> account_pool \<Rightarrow> account_entry list" where
  "list_accounts ks pool = map_values ks pool"

text \<open>The loop body of \<^verbatim>\<open>reset_minute_counters\<close> for one entry.\<close>

definition reset_entry :: "timestamp \<Rightarrow> account_entry \<Rightarrow> account_entry" where
  "reset_entry now entry =
     (let entry = entry\<lparr>ae_rpm_used := 0, ae_tpm_used := 0\<rparr>
      in case ae_blocked_until entry of
           Some until \<Rightarrow>
             if until \<le> now then entry\<lparr>ae_blocked_until := None, ae_is_available := True\<rparr> else entry
         | None \<Rightarrow> entry)"

definition reset_minute_counters :: "account_pool \<Rightarrow> timestamp \<Rightarrow> account_pool" where
  "reset_minute_counters pool now = map_option (reset_entry now) \<circ> pool"

section \<open>Operations in the order the lock admits them\<close>

datatype pool_op =
    Register account_entry
  | MarkBlocked string timestamp
  | MarkRateLimited string u64
  | RecordUsage string u64
  | ResetMinute

fun pool_step :: "account_pool \<Rightarrow> timestamp \<times> pool_op \<Rightarrow> account_pool" where
  "pool_step pool (now, Register entry) = register pool entry"
| "pool_step pool (now, MarkBlocked a until) = mark_blocked pool a until"
| "pool_step pool (now, MarkRateLimited a n) = mark_rate_limited pool now a n"
| "pool_step pool (now, RecordUsage a k) = record_usage pool now a k"
| "pool_step pool (now, ResetMinute) = reset_minute_counters pool now"

text \<open>Every entry is stored under its own id.\<close>

definition pool_ok :: "account_pool \<Rightarrow> bool" where
  "pool_ok pool \<longleftrightarrow> (\<forall>k a. pool k = Some a \<longrightarrow> ae_account_id a = k)"

text \<open>Operations that may lift a block of \<open>a\<close> that lasts until \<open>until\<close>: a new registration, a new
  block (it may end earlier), or the minute reset once the time has come.\<close>

fun may_lift :: "string \<Rightarrow> timestamp \<Rightarrow> timestamp \<times> pool_op \<Rightarrow> bool" where
  "may_lift a until (now, Register entry) = (ae_account_id entry = a)"
| "may_lift a until (now, MarkBlocked b t) = (b = a)"
| "may_lift a until (now, MarkRateLimited b n) = (b = a)"
| "may_lift a until (now, RecordUsage b k) = False"
| "may_lift a until (now, ResetMinute) = (until \<le> now)"

section \<open>Lemmas\<close>

lemma pool_step_ok: "pool_ok pool \<Longrightarrow> pool_ok (pool_step pool op)"
  by (cases "(pool, op)" rule: pool_step.cases)
    (auto simp: pool_ok_def register_def mark_blocked_def mark_rate_limited_def record_usage_def
      reset_minute_counters_def reset_entry_def split: option.splits if_splits)

lemma pool_run_ok: "pool_ok pool \<Longrightarrow> pool_ok (foldl pool_step pool ops)"
  by (induction ops arbitrary: pool) (auto intro: pool_step_ok)

definition blocked :: "account_pool \<Rightarrow> string \<Rightarrow> timestamp \<Rightarrow> bool" where
  "blocked pool a until \<longleftrightarrow>
     (case pool a of Some e \<Rightarrow> \<not> ae_is_available e \<and> ae_blocked_until e = Some until | None \<Rightarrow> False)"

lemma blocked_step: "blocked pool a until \<Longrightarrow> \<not> may_lift a until op \<Longrightarrow> blocked (pool_step pool op) a until"
  by (cases "(a, until, op)" rule: may_lift.cases)
    (auto simp: blocked_def register_def mark_blocked_def mark_rate_limited_def record_usage_def
      reset_minute_counters_def reset_entry_def split: option.splits)

lemma blocked_run:
  "blocked pool a until \<Longrightarrow> \<forall>op \<in> set ops. \<not> may_lift a until op \<Longrightarrow> blocked (foldl pool_step pool ops) a until"
  by (induction ops arbitrary: pool) (auto intro: blocked_step)

lemma get_available_Some:
  assumes "get_available ks pool now provider = Some a"
  shows "\<exists>k \<in> set ks. pool k = Some a" "is_candidate now provider a"
    "\<And>k b. k \<in> set ks \<Longrightarrow> pool k = Some b \<Longrightarrow> is_candidate now provider b \<Longrightarrow> ae_rpm_used a \<le> ae_rpm_used b"
proof -
  let ?c = "filter (is_candidate now provider) (map_values ks pool)"
  from assms obtain rest where r: "sort_key ae_rpm_used ?c = a # rest"
    by (auto simp: get_available_def split: list.splits)
  from hd_sort_key(1) [OF r] show "\<exists>k \<in> set ks. pool k = Some a" "is_candidate now provider a" by auto
  fix k b assume "k \<in> set ks" "pool k = Some b" "is_candidate now provider b"
  then have "b \<in> set ?c" by auto
  then show "ae_rpm_used a \<le> ae_rpm_used b" by (rule hd_sort_key(2) [OF r])
qed

lemma get_available_None:
  "get_available ks pool now provider = None \<longleftrightarrow> (\<forall>k \<in> set ks. \<forall>a. pool k = Some a \<longrightarrow> \<not> is_candidate now provider a)"
proof -
  let ?c = "filter (is_candidate now provider) (map_values ks pool)"
  have "get_available ks pool now provider = None \<longleftrightarrow> sort_key ae_rpm_used ?c = []"
    by (cases "sort_key ae_rpm_used ?c") (simp_all add: get_available_def)
  also have "\<dots> \<longleftrightarrow> ?c = []" by (rule sort_key_eq_Nil)
  finally show ?thesis by (auto simp: filter_empty_conv)
qed

text \<open>The contract the pool's clients rely on: an account that is handed out is stored and
  usable, and one is handed out whenever some stored account is usable.\<close>

locale account_source =
  fixes stored :: "'pool \<Rightarrow> 'acc set"
    and usable :: "timestamp \<Rightarrow> string \<Rightarrow> 'acc \<Rightarrow> bool"
    and hand_out :: "'pool \<Rightarrow> timestamp \<Rightarrow> string \<Rightarrow> 'acc option"
  assumes sound: "hand_out pool now provider = Some a \<Longrightarrow> a \<in> stored pool \<and> usable now provider a"
    and complete: "hand_out pool now provider = None \<Longrightarrow> a \<in> stored pool \<Longrightarrow> \<not> usable now provider a"
begin

lemma none_iff: "hand_out pool now provider = None \<longleftrightarrow> (\<forall>a \<in> stored pool. \<not> usable now provider a)"
  using sound complete by (metis option.exhaust)

end

interpretation available: account_source
  "\<lambda>(ks, pool). {a. \<exists>k \<in> set ks. pool k = Some a}" is_candidate "\<lambda>(ks, pool). get_available ks pool"
  by unfold_locales (auto dest: get_available_Some simp: get_available_None)

section \<open>Properties\<close>

text \<open>\<open>get_available\<close> answers with a least-loaded account of the provider among those that are
  available and not blocked, and with nothing exactly when there is no such account, whatever
  order the map is iterated in.\<close>

theorem get_available_least_loaded:
  assumes "iteration_order ks pool"
  shows "case get_available ks pool now provider of
      None \<Rightarrow> \<forall>a \<in> ran pool. \<not> is_candidate now provider a
    | Some a \<Rightarrow> a \<in> ran pool \<and> is_candidate now provider a \<and>
        (\<forall>b \<in> ran pool. is_candidate now provider b \<longrightarrow> ae_rpm_used a \<le> ae_rpm_used b)"
proof -
  have ks: "{a. \<exists>k \<in> set ks. pool k = Some a} = ran pool"
    using assms by (auto simp: iteration_order_def ran_def)
  show ?thesis
  proof (cases "get_available ks pool now provider")
    case None
    then show ?thesis using available.none_iff [of "(ks, pool)" now provider] ks by auto
  next
    case (Some a)
    note s = get_available_Some [OF Some]
    have "\<forall>b \<in> ran pool. is_candidate now provider b \<longrightarrow> ae_rpm_used a \<le> ae_rpm_used b"
      using s(3) ks by blast
    with Some s(1,2) ks show ?thesis by auto
  qed
qed

abbreviation sample_account :: "string \<Rightarrow> account_entry" where
  "sample_account i \<equiv> \<lparr>ae_account_id = i, ae_provider = ''claude'', ae_vault_ref = ''KEY'',
     ae_is_available = True, ae_blocked_until = None, ae_rpm_used = 0, ae_tpm_used = 0,
     ae_total_requests = 0, ae_last_used = None\<rparr>"

theorem get_available_least_loaded_witness:
  "get_available [''a'', ''b''] (record_usage (register (register new_pool (sample_account ''a'')) (sample_account ''b''))
      5 ''a'' 100) 9 ''claude'' = Some (sample_account ''b'') \<and>
   sample_account ''b'' \<in> ran (record_usage (register (register new_pool (sample_account ''a'')) (sample_account ''b''))
      5 ''a'' 100)"
proof -
  let ?p = "record_usage (register (register new_pool (sample_account ''a'')) (sample_account ''b'')) 5 ''a'' 100"
  have "iteration_order [''a'', ''b''] ?p"
    by (auto simp: iteration_order_def record_usage_def register_def new_pool_def)
  moreover have "get_available [''a'', ''b''] ?p 9 ''claude'' = Some (sample_account ''b'')"
    by (simp add: get_available_def is_candidate_def record_usage_def register_def new_pool_def saturating_add_def)
  ultimately show ?thesis
    using get_available_least_loaded [of "[''a'', ''b'']" ?p 9 "''claude''"] by simp
qed

text \<open>C26: An account that a provider rate-limited is never handed out again, through any sequence of
  operations of any clients, until the minute reset runs at or after the end of its block, it is
  registered anew or blocked anew.\<close>

theorem rate_limited_account_stays_out:
  assumes "pool_ok pool" "pool a = Some e"
    and "\<forall>op \<in> set ops. \<not> may_lift a (t + secs (sint n)) op"
    and "get_available ks (foldl pool_step (mark_rate_limited pool t a n) ops) now provider = Some b"
  shows "ae_account_id b \<noteq> a"
proof
  assume b: "ae_account_id b = a"
  let ?p = "mark_rate_limited pool t a n"
  let ?q = "foldl pool_step ?p ops"
  have "?p = pool_step pool (t, MarkRateLimited a n)" by simp
  then have ok: "pool_ok ?q" using pool_run_ok [OF pool_step_ok [OF assms(1)]] by metis
  have "blocked ?p a (t + secs (sint n))"
    using assms(2) by (simp add: blocked_def mark_rate_limited_def mark_blocked_def)
  then have "blocked ?q a (t + secs (sint n))" using assms(3) by (rule blocked_run)
  moreover from get_available_Some(1) [OF assms(4)] ok b have "?q a = Some b" by (auto simp: pool_ok_def)
  ultimately show False
    using get_available_Some(2) [OF assms(4)] by (simp add: blocked_def is_candidate_def)
qed

theorem rate_limited_account_stays_out_witness:
  "get_available [''a'', ''b''] (pool_step (mark_rate_limited (register (register new_pool (sample_account ''a''))
       (sample_account ''b'')) 0 ''a'' 30) (secs 29, ResetMinute)) (secs 40) ''claude'' = Some (sample_account ''b'') \<and>
   ''b'' \<noteq> ''a''"
proof -
  let ?p = "register (register new_pool (sample_account ''a'')) (sample_account ''b'')"
  have ok: "pool_ok ?p" "?p ''a'' = Some (sample_account ''a'')"
    by (auto simp: pool_ok_def register_def new_pool_def)
  have g: "get_available [''a'', ''b''] (pool_step (mark_rate_limited ?p 0 ''a'' 30) (secs 29, ResetMinute))
      (secs 40) ''claude'' = Some (sample_account ''b'')"
    by (simp add: get_available_def is_candidate_def mark_rate_limited_def mark_blocked_def register_def
        new_pool_def reset_minute_counters_def reset_entry_def)
  with rate_limited_account_stays_out [OF ok, of "[(secs 29, ResetMinute)]" 0 30 "[''a'', ''b'']" "secs 40" "''claude''"
      "sample_account ''b''"]
  show ?thesis by simp
qed

end
