(* ===== verification/Rate_Limits.thy ===== *)
theory Rate_Limits
  imports Prelude Rust_Strings
begin

text \<open>
  Sliding-window rate limits per account, \<^verbatim>\<open>scheduler/rate_limits.rs\<close>. Weights and limits are
  64-bit words, so the sum of weights wraps as the release build's does. The tracker's methods run
  under its mutex and read the clock, which is the argument \<open>now\<close>.
\<close>

section \<open>Definitions\<close>

record sliding_window =
  sw_window_secs :: u64
  sw_max_count :: u64
  sw_events :: "(timestamp \<times> u64) list"

definition new_window :: "u64 \<Rightarrow> u64 \<Rightarrow> sliding_window" where
  "new_window window_secs max_count =
     \<lparr>sw_window_secs = window_secs, sw_max_count = max_count, sw_events = []\<rparr>"

text \<open>\<^verbatim>\<open>Duration::seconds(self.window_secs as i64)\<close>.\<close>

definition window_length :: "sliding_window \<Rightarrow> int" where
  "window_length w = secs (sint (sw_window_secs w))"

definition evict :: "sliding_window \<Rightarrow> timestamp \<Rightarrow> sliding_window" where
  "evict w now =
     (let cutoff = now - window_length w
      in w\<lparr>sw_events := dropWhile (\<lambda>(t, _). t \<le> cutoff) (sw_events w)\<rparr>)"

definition record_weighted :: "sliding_window \<Rightarrow> timestamp \<Rightarrow> u64 \<Rightarrow> sliding_window" where
  "record_weighted w at weight =
     (let w' = evict w at in w'\<lparr>sw_events := sw_events w' @ [(at, weight)]\<rparr>)"

definition record_event :: "sliding_window \<Rightarrow> timestamp \<Rightarrow> sliding_window" where
  "record_event w at = record_weighted w at 1"

definition count_in_window :: "sliding_window \<Rightarrow> timestamp \<Rightarrow> u64 \<times> sliding_window" where
  "count_in_window w now =
     (let w' = evict w now in (sum_list (map snd (sw_events w')), w'))"

definition window_is_limited :: "sliding_window \<Rightarrow> timestamp \<Rightarrow> bool \<times> sliding_window" where
  "window_is_limited w now =
     (case count_in_window w now of (n, w') \<Rightarrow> (sw_max_count w' \<le> n, w'))"

definition time_until_reset :: "sliding_window \<Rightarrow> timestamp \<Rightarrow> int option \<times> sliding_window" where
  "time_until_reset w now =
     (case window_is_limited w now of
        (limited, w') \<Rightarrow>
          (if \<not> limited then None
           else case sw_events w' of
             [] \<Rightarrow> None
           | (t, _) # _ \<Rightarrow> Some (t + window_length w' - now), w'))"

definition DEFAULT_RPM_WINDOW_SECS :: u64 where "DEFAULT_RPM_WINDOW_SECS = 60"
definition DEFAULT_RPM_MAX :: u64 where "DEFAULT_RPM_MAX = 60"
definition DEFAULT_TPM_WINDOW_SECS :: u64 where "DEFAULT_TPM_WINDOW_SECS = 60"
definition DEFAULT_TPM_MAX :: u64 where "DEFAULT_TPM_MAX = 100000"

type_synonym rate_tracker = "string \<rightharpoonup> sliding_window \<times> sliding_window"

definition make_windows :: "sliding_window \<times> sliding_window" where
  "make_windows =
     (new_window DEFAULT_RPM_WINDOW_SECS DEFAULT_RPM_MAX, new_window DEFAULT_TPM_WINDOW_SECS DEFAULT_TPM_MAX)"

text \<open>\<^verbatim>\<open>entry(..).or_insert_with(Self::make_windows)\<close>.\<close>

definition windows_of :: "rate_tracker \<Rightarrow> string \<Rightarrow> sliding_window \<times> sliding_window" where
  "windows_of tr account_id = (case tr account_id of Some p \<Rightarrow> p | None \<Rightarrow> make_windows)"

text \<open>The time of an operation is an argument: the code reads the clock before it waits for the mutex, so operations may
  enter the tracker with times that are not in order. The theorems on histories assume that they are.\<close>

definition record_request :: "rate_tracker \<Rightarrow> timestamp \<Rightarrow> string \<Rightarrow> u64 \<Rightarrow> rate_tracker" where
  "record_request tr now account_id tokens =
     (case windows_of tr account_id of
        (rpm, tpm) \<Rightarrow>
          tr(account_id \<mapsto> (record_event rpm now, record_weighted tpm now (min tokens DEFAULT_TPM_MAX))))"

text \<open>\<^verbatim>\<open>rpm.is_limited(now) || tpm.is_limited(now)\<close> does not touch the second window when the
  first one is limited.\<close>

definition is_limited :: "rate_tracker \<Rightarrow> timestamp \<Rightarrow> string \<Rightarrow> bool \<times> rate_tracker" where
  "is_limited tr now account_id =
     (case windows_of tr account_id of
        (rpm, tpm) \<Rightarrow>
          (case window_is_limited rpm now of
             (rpm_limited, rpm') \<Rightarrow>
               if rpm_limited then (True, tr(account_id \<mapsto> (rpm', tpm)))
               else (case window_is_limited tpm now of
                  (tpm_limited, tpm') \<Rightarrow> (tpm_limited, tr(account_id \<mapsto> (rpm', tpm'))))))"

definition sat_sub :: "u64 \<Rightarrow> u64 \<Rightarrow> u64" where
  "sat_sub a b = (if a < b then 0 else a - b)"

definition remaining_capacity :: "rate_tracker \<Rightarrow> timestamp \<Rightarrow> string \<Rightarrow> (u64 \<times> u64) \<times> rate_tracker" where
  "remaining_capacity tr now account_id =
     (case windows_of tr account_id of
        (rpm, tpm) \<Rightarrow>
          (case (count_in_window rpm now, count_in_window tpm now) of
             ((rpm_used, rpm'), (tpm_used, tpm')) \<Rightarrow>
               ((sat_sub DEFAULT_RPM_MAX rpm_used, sat_sub DEFAULT_TPM_MAX tpm_used),
                tr(account_id \<mapsto> (rpm', tpm')))))"

text \<open>\<^verbatim>\<open>parse_retry_after\<close>: the integer parser of the standard library is written out, the RFC
  2822 date parser of \<^verbatim>\<open>chrono\<close> is the parameter \<open>parse_date\<close>. The result is in nanoseconds.\<close>

definition parse_retry_after :: "(string \<Rightarrow> timestamp option) \<Rightarrow> timestamp \<Rightarrow> string \<Rightarrow> int option" where
  "parse_retry_after parse_date now header_value =
     (let trimmed = trim header_value in
      case parse_u64 trimmed of
        Some n \<Rightarrow> Some (secs (int n))
      | None \<Rightarrow>
          (case parse_date trimmed of
             Some retry_at \<Rightarrow> Some (if now < retry_at then retry_at - now else 0)
           | None \<Rightarrow> None))"

section \<open>The reference: the full history\<close>

text \<open>All requests ever recorded, oldest first: time, account and tokens.\<close>

type_synonym history = "(timestamp \<times> string \<times> u64) list"

definition rpm_events :: "string \<Rightarrow> history \<Rightarrow> (timestamp \<times> u64) list" where
  "rpm_events a h = map (\<lambda>(t, _, _). (t, 1)) (filter (\<lambda>(_, b, _). b = a) h)"

definition tpm_events :: "string \<Rightarrow> history \<Rightarrow> (timestamp \<times> u64) list" where
  "tpm_events a h = map (\<lambda>(t, _, k). (t, min k DEFAULT_TPM_MAX)) (filter (\<lambda>(_, b, _). b = a) h)"

text \<open>A window that holds the recent part of a history: what it dropped was out of reach already.\<close>

definition holds_recent :: "sliding_window \<Rightarrow> (timestamp \<times> u64) list \<Rightarrow> timestamp \<Rightarrow> bool" where
  "holds_recent w h prev \<longleftrightarrow>
     sorted (map fst h) \<and> (\<forall>t \<in> fst ` set h. t \<le> prev) \<and>
     (\<exists>cut \<le> prev - window_length w. sw_events w = filter (\<lambda>(t, _). cut < t) h)"

definition is_rpm :: "sliding_window \<Rightarrow> bool" where
  "is_rpm w \<longleftrightarrow> sw_window_secs w = 60 \<and> sw_max_count w = DEFAULT_RPM_MAX"

definition is_tpm :: "sliding_window \<Rightarrow> bool" where
  "is_tpm w \<longleftrightarrow> sw_window_secs w = 60 \<and> sw_max_count w = DEFAULT_TPM_MAX"

definition tracks :: "rate_tracker \<Rightarrow> history \<Rightarrow> timestamp \<Rightarrow> bool" where
  "tracks tr h prev \<longleftrightarrow>
     (\<forall>a. case windows_of tr a of (rpm, tpm) \<Rightarrow>
        is_rpm rpm \<and> is_tpm tpm \<and> holds_recent rpm (rpm_events a h) prev \<and> holds_recent tpm (tpm_events a h) prev)"

text \<open>Operations of the tracker in the order its mutex admits them, each with its time.\<close>

datatype tracker_op = Record string u64 | AskLimited string | AskCapacity string

fun tracker_step :: "rate_tracker \<times> history \<Rightarrow> timestamp \<times> tracker_op \<Rightarrow> rate_tracker \<times> history" where
  "tracker_step (tr, h) (now, Record a k) = (record_request tr now a k, h @ [(now, a, k)])"
| "tracker_step (tr, h) (now, AskLimited a) = (snd (is_limited tr now a), h)"
| "tracker_step (tr, h) (now, AskCapacity a) = (snd (remaining_capacity tr now a), h)"

abbreviation tracker_run :: "(timestamp \<times> tracker_op) list \<Rightarrow> rate_tracker \<times> history" where
  "tracker_run ops \<equiv> foldl tracker_step (Map.empty, []) ops"

text \<open>What the limits mean, in exact numbers: the requests of the last sixty seconds, and the
  tokens they used, each request counting at most the maximum.\<close>

definition recent_requests :: "timestamp \<Rightarrow> string \<Rightarrow> history \<Rightarrow> history" where
  "recent_requests now a h = filter (\<lambda>(t, b, _). b = a \<and> now - secs 60 < t) h"

definition requests_used :: "timestamp \<Rightarrow> string \<Rightarrow> history \<Rightarrow> nat" where
  "requests_used now a h = length (recent_requests now a h)"

definition tokens_used :: "timestamp \<Rightarrow> string \<Rightarrow> history \<Rightarrow> nat" where
  "tokens_used now a h = sum_list (map (\<lambda>(_, _, k). min (unat k) 100000) (recent_requests now a h))"

text \<open>Operations whose times never go back, up to \<open>now\<close>.\<close>

definition clocked :: "(timestamp \<times> 'a) list \<Rightarrow> timestamp \<Rightarrow> bool" where
  "clocked ops now \<longleftrightarrow> sorted (map fst ops) \<and> (\<forall>t \<in> fst ` set ops. t \<le> now)"

section \<open>Lemmas\<close>

lemma dropWhile_sorted:
  "sorted (map fst xs) \<Longrightarrow> dropWhile (\<lambda>(t, _). t \<le> (c::timestamp)) xs = filter (\<lambda>(t, _). c < t) xs"
proof (induction xs)
  case (Cons x xs)
  obtain t k where x: "x = (t, k)" by (cases x)
  show ?case
  proof (cases "t \<le> c")
    case True
    with Cons x show ?thesis by simp
  next
    case False
    with Cons.prems x have "\<forall>y \<in> set (x # xs). c < fst y" by auto
    then have "filter (\<lambda>(t, _). c < t) (x # xs) = x # xs" by (auto intro!: filter_True)
    with False x show ?thesis by simp
  qed
qed simp

lemma evict_fields [simp]:
  "sw_window_secs (evict w now) = sw_window_secs w" "sw_max_count (evict w now) = sw_max_count w"
  "window_length (evict w now) = window_length w"
  by (simp_all add: evict_def window_length_def)

lemma evict_events:
  assumes "holds_recent w h prev" "prev \<le> now"
  shows "sw_events (evict w now) = filter (\<lambda>(t, _). now - window_length w < t) h"
proof -
  obtain cut where cut: "cut \<le> prev - window_length w" "sw_events w = filter (\<lambda>(t, _). cut < t) h"
    using assms(1) by (auto simp: holds_recent_def)
  have "sorted (map fst (filter (\<lambda>(t, _). cut < t) h))"
    using assms(1) by (simp add: holds_recent_def sorted_filter)
  with cut assms(2) show ?thesis
    by (auto simp: evict_def dropWhile_sorted filter_filter intro!: filter_cong)
qed

lemma evict_holds:
  "holds_recent w h prev \<Longrightarrow> prev \<le> now \<Longrightarrow> holds_recent (evict w now) h now"
  using evict_events [of w h prev now] by (force simp: holds_recent_def)

lemma holds_later: "holds_recent w h prev \<Longrightarrow> prev \<le> now \<Longrightarrow> holds_recent w h now"
  unfolding holds_recent_def by (meson diff_mono order_refl order_trans)

lemma record_holds:
  assumes "holds_recent w h prev" "prev \<le> now" "0 < window_length w"
  shows "holds_recent (record_weighted w now k) (h @ [(now, k)]) now"
proof -
  have "\<forall>t \<in> fst ` set h. t \<le> now" using assms(1,2) by (force simp: holds_recent_def)
  then show ?thesis
    using assms evict_events [OF assms(1,2)]
    by (auto simp: holds_recent_def record_weighted_def window_length_def sorted_append
        intro!: exI [of _ "now - secs (sint (sw_window_secs w))"])
qed

lemma sint_60 [simp]: "sint (60 :: u64) = 60"
  by simp

lemma window_length_60: "is_rpm w \<or> is_tpm w \<Longrightarrow> window_length w = secs 60"
  by (auto simp: is_rpm_def is_tpm_def window_length_def)

lemma record_fields [simp]:
  "is_rpm (record_weighted w now k) = is_rpm w" "is_tpm (record_weighted w now k) = is_tpm w"
  "is_rpm (evict w now) = is_rpm w" "is_tpm (evict w now) = is_tpm w"
  by (simp_all add: is_rpm_def is_tpm_def record_weighted_def)

lemma windows_of_upd [simp]:
  "windows_of (tr(a \<mapsto> p)) b = (if b = a then p else windows_of tr b)"
  by (simp add: windows_of_def)

lemma events_snoc [simp]:
  "rpm_events a (h @ [(now, b, k)]) = (if b = a then rpm_events a h @ [(now, 1)] else rpm_events a h)"
  "tpm_events a (h @ [(now, b, k)]) =
     (if b = a then tpm_events a h @ [(now, min k DEFAULT_TPM_MAX)] else tpm_events a h)"
  by (auto simp: rpm_events_def tpm_events_def)

lemma tracks_windows:
  assumes "tracks tr h prev" "windows_of tr a = (rpm, tpm)"
  shows "is_rpm rpm" "is_tpm tpm" "holds_recent rpm (rpm_events a h) prev" "holds_recent tpm (tpm_events a h) prev"
    "window_length rpm = secs 60" "window_length tpm = secs 60"
proof -
  from assms(1) have "case windows_of tr a of (rpm, tpm) \<Rightarrow> is_rpm rpm \<and> is_tpm tpm \<and>
      holds_recent rpm (rpm_events a h) prev \<and> holds_recent tpm (tpm_events a h) prev"
    unfolding tracks_def by (rule spec)
  with assms(2) have t: "is_rpm rpm \<and> is_tpm tpm \<and> holds_recent rpm (rpm_events a h) prev \<and>
      holds_recent tpm (tpm_events a h) prev" by simp
  then show "is_rpm rpm" "is_tpm tpm" "holds_recent rpm (rpm_events a h) prev" "holds_recent tpm (tpm_events a h) prev"
    by blast+
  show "window_length rpm = secs 60" "window_length tpm = secs 60"
    using t window_length_60 by blast+
qed

lemma tracks_later: "tracks tr h prev \<Longrightarrow> prev \<le> now \<Longrightarrow> tracks tr h now"
  unfolding tracks_def by (auto split: prod.splits intro: holds_later)

lemma tracks_upd:
  assumes "tracks tr h prev" "prev \<le> now"
    and "is_rpm rpm" "is_tpm tpm" "holds_recent rpm (rpm_events a h) now" "holds_recent tpm (tpm_events a h) now"
  shows "tracks (tr(a \<mapsto> (rpm, tpm))) h now"
  using tracks_later [OF assms(1,2)] assms(3-6) by (auto simp: tracks_def split: prod.splits)

lemma tracks_record:
  assumes "tracks tr h prev" "prev \<le> now"
  shows "tracks (record_request tr now a k) (h @ [(now, a, k)]) now"
proof -
  obtain rpm tpm where w: "windows_of tr a = (rpm, tpm)" by fastforce
  note tw = tracks_windows [OF assms(1) w]
  have "holds_recent (record_weighted rpm now 1) (rpm_events a h @ [(now, 1)]) now"
    and "holds_recent (record_weighted tpm now (min k DEFAULT_TPM_MAX))
      (tpm_events a h @ [(now, min k DEFAULT_TPM_MAX)]) now"
    using record_holds [OF tw(3) assms(2)] record_holds [OF tw(4) assms(2)] tw(5,6) by simp_all
  then show ?thesis
    using tracks_later [OF assms] w tw(1,2)
    by (auto simp: tracks_def record_request_def record_event_def split: prod.splits)
qed

lemma tracks_ask:
  assumes "tracks tr h prev" "prev \<le> now"
  shows "tracks (snd (is_limited tr now a)) h now" "tracks (snd (remaining_capacity tr now a)) h now"
proof -
  obtain rpm tpm where w: "windows_of tr a = (rpm, tpm)" by fastforce
  note tw = tracks_windows [OF assms(1) w]
  have up: "tracks (tr(a \<mapsto> (evict rpm now, tpm))) h now" "tracks (tr(a \<mapsto> (evict rpm now, evict tpm now))) h now"
    using assms tw(1,2) evict_holds [OF tw(3) assms(2)] evict_holds [OF tw(4) assms(2)]
      holds_later [OF tw(4) assms(2)] by (auto intro: tracks_upd)
  then show "tracks (snd (is_limited tr now a)) h now"
    by (simp add: is_limited_def window_is_limited_def count_in_window_def w)
  from up show "tracks (snd (remaining_capacity tr now a)) h now"
    by (simp add: remaining_capacity_def count_in_window_def w)
qed

lemma tracks_empty: "tracks Map.empty [] prev"
  by (auto simp: tracks_def windows_of_def make_windows_def new_window_def is_rpm_def is_tpm_def holds_recent_def
      rpm_events_def tpm_events_def DEFAULT_RPM_WINDOW_SECS_def DEFAULT_TPM_WINDOW_SECS_def)

lemma tracker_run_tracks: "clocked ops now \<Longrightarrow> tracks (fst (tracker_run ops)) (snd (tracker_run ops)) now"
proof (induction ops arbitrary: now rule: rev_induct)
  case Nil
  show ?case by (simp add: tracks_empty)
next
  case (snoc x ops)
  obtain t op where x: "x = (t, op)" by (cases x)
  obtain tr h where r: "tracker_run ops = (tr, h)" by fastforce
  have "clocked ops t" "t \<le> now" using snoc.prems x by (auto simp: clocked_def sorted_append)
  with snoc.IH r have "tracks tr h t" by fastforce
  then have "tracks (fst (tracker_step (tr, h) (t, op))) (snd (tracker_step (tr, h) (t, op))) t"
    by (cases op) (simp_all add: tracks_record tracks_ask)
  with \<open>t \<le> now\<close> r x show ?case by (simp add: tracks_later)
qed

text \<open>Sums of words that stay below the word's range are sums of numbers.\<close>

lemma unat_sum_list:
  fixes ws :: "u64 list"
  assumes "\<forall>w \<in> set ws. unat w \<le> B" "length ws * B < 2 ^ 64"
  shows "unat (sum_list ws) = sum_list (map unat ws) \<and> sum_list (map unat ws) \<le> length ws * B"
  using assms
proof (induction ws)
  case (Cons w ws)
  then have IH: "unat (sum_list ws) = sum_list (map unat ws)" "sum_list (map unat ws) \<le> length ws * B" by auto
  have "unat w + sum_list (map unat ws) \<le> B + length ws * B" using Cons.prems(1) IH(2) by (simp add: add_mono)
  with Cons.prems(2) IH show ?case by (simp add: unat_word_ariths)
qed simp

lemma evicted_counts:
  assumes "tracks tr h now" "windows_of tr a = (rpm, tpm)" "length h * 100000 < 2 ^ 64"
  shows "unat (sum_list (map snd (sw_events (evict rpm now)))) = requests_used now a h"
    and "unat (sum_list (map snd (sw_events (evict tpm now)))) = tokens_used now a h"
proof -
  note tw = tracks_windows [OF assms(1,2)]
  have r: "map snd (sw_events (evict rpm now)) = map (\<lambda>_. 1) (recent_requests now a h)"
    using evict_events [OF tw(3) order_refl] tw(5)
    by (auto simp: rpm_events_def recent_requests_def filter_map o_def split_def intro!: arg_cong [where f = length] filter_cong
        simp flip: map_replicate_const)
  have t: "map snd (sw_events (evict tpm now)) = map (\<lambda>(_, _, k). min k DEFAULT_TPM_MAX) (recent_requests now a h)"
    using evict_events [OF tw(4) order_refl] tw(6)
    by (auto simp: tpm_events_def recent_requests_def filter_map o_def split_def conj_commute)
  have len: "length (recent_requests now a h) \<le> length h" by (simp add: recent_requests_def)
  then have bnd: "length (recent_requests now a h) * 100000 < 2 ^ 64" using assms(3) by linarith
  have "unat (sum_list (map (\<lambda>_. 1 :: u64) (recent_requests now a h))) = requests_used now a h"
    using unat_sum_list [of "map (\<lambda>_. 1 :: u64) (recent_requests now a h)" 1] bnd
    by (simp add: requests_used_def sum_list_triv o_def)
  with r show "unat (sum_list (map snd (sw_events (evict rpm now)))) = requests_used now a h" by simp
  have m: "unat (min k DEFAULT_TPM_MAX) = min (unat k) 100000" for k
    by (simp add: min_def DEFAULT_TPM_MAX_def word_le_nat_alt)
  have "unat (sum_list (map (\<lambda>(_, _, k). min k DEFAULT_TPM_MAX) (recent_requests now a h))) = tokens_used now a h"
    using unat_sum_list [of "map (\<lambda>(_, _, k). min k DEFAULT_TPM_MAX) (recent_requests now a h)" 100000] bnd
    by (simp add: tokens_used_def m o_def split_def)
  with t show "unat (sum_list (map snd (sw_events (evict tpm now)))) = tokens_used now a h" by simp
qed

lemma fst_is_limited:
  "windows_of tr a = (rpm, tpm) \<Longrightarrow> fst (is_limited tr now a) \<longleftrightarrow>
     sw_max_count rpm \<le> sum_list (map snd (sw_events (evict rpm now))) \<or>
     sw_max_count tpm \<le> sum_list (map snd (sw_events (evict tpm now)))"
  by (simp add: is_limited_def window_is_limited_def count_in_window_def)

section \<open>Properties\<close>

text \<open>C30: The sliding windows forget nothing that matters. After any interleaving of recordings and
  queries with a clock that does not go back, an account is reported as limited exactly when the
  complete history of all recordings has at least 60 requests of that account in the last sixty
  seconds, or requests that used at least 100000 tokens, each request counting at most that many.
  The bound on the length of the history excludes a wrap-around of the 64-bit sum.\<close>

theorem is_limited_iff_history:
  assumes "clocked ops now" "length ops * 100000 < 2 ^ 64"
    and "tracker_run ops = (tr, h)"
  shows "fst (is_limited tr now a) \<longleftrightarrow> 60 \<le> requests_used now a h \<or> 100000 \<le> tokens_used now a h"
proof -
  have len: "length (snd (tracker_run xs)) \<le> length xs" for xs
  proof (induction xs rule: rev_induct)
    case (snoc x xs)
    then show ?case by (cases "tracker_run xs"; cases x; cases "snd x") auto
  qed simp
  obtain rpm tpm where w: "windows_of tr a = (rpm, tpm)" by fastforce
  have tk: "tracks tr h now" using tracker_run_tracks [OF assms(1)] assms(3) by simp
  note tw = tracks_windows [OF tk w]
  have "length h * 100000 < 2 ^ 64" using len [of ops] assms(2,3) by simp
  from evicted_counts [OF tk w this] tw(1,2) show ?thesis
    by (simp add: fst_is_limited [OF w] is_rpm_def is_tpm_def DEFAULT_RPM_MAX_def DEFAULT_TPM_MAX_def word_le_nat_alt)
qed

theorem is_limited_iff_history_witness:
  "fst (is_limited (fst (tracker_run [(0, Record ''a'' 200000)])) 5 ''a'') \<longleftrightarrow>
    60 \<le> requests_used 5 ''a'' [(0, ''a'', 200000)] \<or> 100000 \<le> tokens_used 5 ''a'' [(0, ''a'', 200000)]"
  using is_limited_iff_history [of "[(0, Record ''a'' 200000)]" 5
      "fst (tracker_run [(0, Record ''a'' 200000)])" "[(0, ''a'', 200000)]" "''a''"]
  by (simp add: clocked_def)

text \<open>The two queries of the tracker agree: at any moment an account is limited exactly when one
  of its two remaining capacities is zero.\<close>

theorem limited_iff_no_capacity:
  assumes "clocked ops now"
  shows "fst (is_limited (fst (tracker_run ops)) now a) \<longleftrightarrow>
    (case fst (remaining_capacity (fst (tracker_run ops)) now a) of (rpm, tpm) \<Rightarrow> rpm = 0 \<or> tpm = 0)"
proof -
  let ?tr = "fst (tracker_run ops)"
  obtain rpm tpm where w: "windows_of ?tr a = (rpm, tpm)" by fastforce
  note tw = tracks_windows [OF tracker_run_tracks [OF assms] w]
  have "sat_sub m n = 0 \<longleftrightarrow> m \<le> n" for m n by (auto simp: sat_sub_def)
  with tw(1,2) show ?thesis
    by (simp add: fst_is_limited [OF w] remaining_capacity_def count_in_window_def w is_rpm_def is_tpm_def)
qed

theorem limited_iff_no_capacity_witness:
  "fst (is_limited (fst (tracker_run [(0, Record ''a'' 5)])) 5 ''a'') \<longleftrightarrow>
    (case fst (remaining_capacity (fst (tracker_run [(0, Record ''a'' 5)])) 5 ''a'') of
       (rpm, tpm) \<Rightarrow> rpm = 0 \<or> tpm = 0)"
  by (rule limited_iff_no_capacity) (simp add: clocked_def)

text \<open>The reported time until reset is exact for the oldest event: it is positive and at most the
  window, and after waiting that long at least one event has left the window.\<close>

theorem time_until_reset_frees_an_event:
  assumes "holds_recent w h now" "0 < window_length w" "time_until_reset w now = (Some d, w')"
  shows "0 < d \<and> d \<le> window_length w \<and> length (sw_events (evict w' (now + d))) < length (sw_events w')"
proof -
  have ev: "sw_events (evict w now) = filter (\<lambda>(t, _). now - window_length w < t) h"
    using evict_events [OF assms(1) order_refl] .
  from assms(3) obtain t k rest where w': "w' = evict w now" and hd: "sw_events w' = (t, k) # rest"
    and d: "d = t + window_length w - now"
    by (auto simp: time_until_reset_def window_is_limited_def count_in_window_def
        split: if_splits list.splits)
  have w'_len: "window_length w' = window_length w" by (simp add: w' evict_def window_length_def)
  from hd w' ev have "(t, k) \<in> set (filter (\<lambda>(t, _). now - window_length w < t) h)" by simp
  then have "now - window_length w < t" "t \<le> now"
    using assms(1) by (auto simp: holds_recent_def)
  moreover have "sw_events (evict w' (now + d)) = dropWhile (\<lambda>(t', _). t' \<le> t) rest"
    using hd d by (simp add: evict_def [of w'] w'_len)
  moreover have "length (dropWhile (\<lambda>(t', _). t' \<le> t) rest) \<le> length rest" by (rule length_dropWhile_le)
  ultimately show ?thesis using d hd by simp
qed

theorem time_until_reset_frees_an_event_witness:
  "fst (time_until_reset (record_event (new_window 60 1) 0) (secs 5)) = Some (secs 55) \<and> 0 < secs 55"
proof -
  let ?w = "record_event (new_window 60 1) 0"
  have "holds_recent ?w [(0, 1)] (secs 5)" "0 < window_length ?w"
    by (auto simp: holds_recent_def record_event_def record_weighted_def evict_def new_window_def window_length_def
        intro!: exI [of _ "- secs 60"])
  moreover have t: "time_until_reset ?w (secs 5) = (Some (secs 55), ?w)"
    by (simp add: time_until_reset_def window_is_limited_def count_in_window_def record_event_def
        record_weighted_def evict_def new_window_def window_length_def)
  ultimately have "0 < secs 55" using time_until_reset_frees_an_event by blast
  with t show ?thesis by simp
qed

end
