(* ===== verification/Fallback.thy ===== *)
theory Fallback
  imports Account_Pool Rate_Limits
begin

text \<open>
  Choosing an account: the provider fallback engine, \<^verbatim>\<open>scheduler/fallback.rs\<close>, and the
  health-weighted rotation, \<^verbatim>\<open>scheduler/rotation.rs\<close>, both on top of the account pool and the
  rate-limit tracker. Asking the tracker evicts old events, so its state is threaded through. One
  call reads the clock several times; the model uses the one time \<open>now\<close> for all of them.
\<close>

section \<open>Definitions\<close>

record fallback_config =
  fc_primary :: string
  fc_alternatives :: "string list"

definition claude_first :: fallback_config where
  "claude_first = \<lparr>fc_primary = ''claude'', fc_alternatives = [''codex'']\<rparr>"

definition codex_first :: fallback_config where
  "codex_first = \<lparr>fc_primary = ''codex'', fc_alternatives = [''claude'']\<rparr>"

record fallback_engine =
  fe_pool :: account_pool
  fe_rate_limits :: rate_tracker

datatype account_error = NoAvailableAccount string "string list" | NoAccountFor string

definition try_get ::
  "string list \<Rightarrow> fallback_engine \<Rightarrow> timestamp \<Rightarrow> string \<Rightarrow> account_entry option \<times> fallback_engine" where
  "try_get ks eng now provider =
     (case get_available ks (fe_pool eng) now provider of
        None \<Rightarrow> (None, eng)
      | Some entry \<Rightarrow>
          (case is_limited (fe_rate_limits eng) now (ae_account_id entry) of
             (limited, tr) \<Rightarrow> (if limited then None else Some entry, eng\<lparr>fe_rate_limits := tr\<rparr>)))"

text \<open>The loop over the alternatives.\<close>

fun try_alternatives ::
  "string list \<Rightarrow> fallback_engine \<Rightarrow> timestamp \<Rightarrow> string list \<Rightarrow> account_entry option \<times> fallback_engine" where
  "try_alternatives ks eng now [] = (None, eng)"
| "try_alternatives ks eng now (alt # alts) =
     (case try_get ks eng now alt of
        (Some entry, eng') \<Rightarrow> (Some entry, eng')
      | (None, eng') \<Rightarrow> try_alternatives ks eng' now alts)"

definition get_account ::
  "string list \<Rightarrow> fallback_engine \<Rightarrow> timestamp \<Rightarrow> fallback_config \<Rightarrow>
   (account_entry, account_error) result \<times> fallback_engine" where
  "get_account ks eng now config =
     (case try_get ks eng now (fc_primary config) of
        (Some entry, eng') \<Rightarrow> (Ok entry, eng')
      | (None, eng') \<Rightarrow>
          (case try_alternatives ks eng' now (fc_alternatives config) of
             (Some entry, eng'') \<Rightarrow> (Ok entry, eng'')
           | (None, eng'') \<Rightarrow> (Err (NoAvailableAccount (fc_primary config) (fc_alternatives config)), eng'')))"

definition record_completion :: "fallback_engine \<Rightarrow> timestamp \<Rightarrow> string \<Rightarrow> u64 \<Rightarrow> fallback_engine" where
  "record_completion eng now account_id tokens =
     \<lparr>fe_pool = record_usage (fe_pool eng) now account_id tokens,
      fe_rate_limits = record_request (fe_rate_limits eng) now account_id tokens\<rparr>"

definition record_rate_limit :: "fallback_engine \<Rightarrow> timestamp \<Rightarrow> string \<Rightarrow> u64 \<Rightarrow> fallback_engine" where
  "record_rate_limit eng now account_id retry_after_secs =
     eng\<lparr>fe_pool := mark_rate_limited (fe_pool eng) now account_id retry_after_secs\<rparr>"

text \<open>The score of a candidate in \<^verbatim>\<open>select_account\<close>; \<open>div\<close> on words is unsigned division.\<close>

definition health_score :: "u64 \<Rightarrow> u64 \<Rightarrow> u64" where
  "health_score rpm_rem tpm_rem = saturating_mul rpm_rem 10 + tpm_rem div 1000"

fun score_candidates ::
  "rate_tracker \<Rightarrow> timestamp \<Rightarrow> string \<Rightarrow> account_entry list \<Rightarrow> (account_entry \<times> u64) list \<times> rate_tracker" where
  "score_candidates tr now provider [] = ([], tr)"
| "score_candidates tr now provider (entry # rest) =
     (if ae_provider entry \<noteq> provider \<or> \<not> ae_is_available entry \<or>
         (case ae_blocked_until entry of Some t \<Rightarrow> now < t | None \<Rightarrow> False)
      then score_candidates tr now provider rest
      else case is_limited tr now (ae_account_id entry) of
        (limited, tr') \<Rightarrow>
          if limited then score_candidates tr' now provider rest
          else case remaining_capacity tr' now (ae_account_id entry) of
            ((rpm_rem, tpm_rem), tr'') \<Rightarrow>
              (case score_candidates tr'' now provider rest of
                 (cs, tr3) \<Rightarrow> ((entry, health_score rpm_rem tpm_rem) # cs, tr3)))"

text \<open>\<^verbatim>\<open>sort_by_key(Reverse(score))\<close> is stable; the key is mirrored into the integers.\<close>

definition select_account ::
  "string list \<Rightarrow> account_pool \<Rightarrow> rate_tracker \<Rightarrow> timestamp \<Rightarrow> string \<Rightarrow>
   (account_entry, account_error) result \<times> rate_tracker" where
  "select_account ks pool tr now provider =
     (case score_candidates tr now provider (list_accounts ks pool) of
        (candidates, tr') \<Rightarrow>
          (case sort_key (\<lambda>c. - int (unat (snd c))) candidates of
             [] \<Rightarrow> (Err (NoAccountFor provider), tr')
           | c # _ \<Rightarrow> (Ok (fst c), tr')))"

section \<open>Reading the tracker does not change what it reports\<close>

definition limited :: "rate_tracker \<Rightarrow> timestamp \<Rightarrow> string \<Rightarrow> bool" where
  "limited tr now a = fst (is_limited tr now a)"

definition capacity :: "rate_tracker \<Rightarrow> timestamp \<Rightarrow> string \<Rightarrow> u64 \<times> u64" where
  "capacity tr now a = fst (remaining_capacity tr now a)"

definition same_reports :: "timestamp \<Rightarrow> rate_tracker \<Rightarrow> rate_tracker \<Rightarrow> bool" where
  "same_reports now tr tr' \<longleftrightarrow> (\<forall>a. limited tr' now a = limited tr now a \<and> capacity tr' now a = capacity tr now a)"

lemma evict_twice: "evict (evict w now) now = evict w now"
proof -
  have "dropWhile P (dropWhile P xs) = dropWhile P xs" for P and xs :: "(timestamp \<times> u64) list"
    by (induction xs) auto
  then show ?thesis by (simp add: evict_def window_length_def)
qed

lemma count_evict [simp]:
  "fst (count_in_window (evict w now) now) = fst (count_in_window w now)"
  "fst (window_is_limited (evict w now) now) = fst (window_is_limited w now)"
  by (simp_all add: count_in_window_def window_is_limited_def evict_twice)

lemma limited_eq:
  "limited tr now a \<longleftrightarrow>
     fst (window_is_limited (fst (windows_of tr a)) now) \<or> fst (window_is_limited (snd (windows_of tr a)) now)"
  by (auto simp: limited_def is_limited_def split: prod.split)

lemma capacity_eq:
  "capacity tr now a =
     (sat_sub DEFAULT_RPM_MAX (fst (count_in_window (fst (windows_of tr a)) now)),
      sat_sub DEFAULT_TPM_MAX (fst (count_in_window (snd (windows_of tr a)) now)))"
  by (auto simp: capacity_def remaining_capacity_def split: prod.split)

lemma same_reports_refl [simp, intro]: "same_reports now tr tr"
  by (simp add: same_reports_def)

lemma same_reports_trans: "same_reports now a b \<Longrightarrow> same_reports now b c \<Longrightarrow> same_reports now a c"
  by (simp add: same_reports_def)

lemma same_reports_evict:
  assumes "windows_of tr a = (rpm, tpm)" "rpm' \<in> {rpm, evict rpm now}" "tpm' \<in> {tpm, evict tpm now}"
  shows "same_reports now tr (tr(a \<mapsto> (rpm', tpm')))"
  using assms by (auto simp: same_reports_def limited_eq capacity_eq)

lemma asking_keeps_reports:
  "same_reports now tr (snd (is_limited tr now a))" "same_reports now tr (snd (remaining_capacity tr now a))"
proof -
  obtain rpm tpm where w: "windows_of tr a = (rpm, tpm)" by fastforce
  show "same_reports now tr (snd (is_limited tr now a))" "same_reports now tr (snd (remaining_capacity tr now a))"
    by (auto simp: is_limited_def remaining_capacity_def window_is_limited_def count_in_window_def w
        intro: same_reports_evict [OF w])
qed

text \<open>The contract of a stateful query: what it answers is a function of what its state reports,
  and a query leaves the reports alone. A search over several queries then answers as if every one
  of them ran on the initial state.\<close>

locale stable_query =
  fixes attempt :: "'s \<Rightarrow> 'k \<Rightarrow> 'a option \<times> 's"
    and sim :: "'s \<Rightarrow> 's \<Rightarrow> bool"
  assumes sim_refl: "sim s s"
    and sim_trans: "sim s t \<Longrightarrow> sim t u \<Longrightarrow> sim s u"
    and attempt_sim: "sim s (snd (attempt s k))"
    and attempt_cong: "sim s t \<Longrightarrow> fst (attempt t k) = fst (attempt s k)"
begin

fun search :: "'s \<Rightarrow> 'k list \<Rightarrow> 'a option \<times> 's" where
  "search s [] = (None, s)"
| "search s (k # ks) = (case attempt s k of (Some a, s') \<Rightarrow> (Some a, s') | (None, s') \<Rightarrow> search s' ks)"

lemma search_sim: "sim s (snd (search s ks))"
proof (induction ks arbitrary: s)
  case (Cons k ks)
  then show ?case
    using attempt_sim [of s k] by (cases "attempt s k") (auto intro: sim_trans split: option.split)
qed (simp add: sim_refl)

lemma search_first:
  "fst (search s ks) =
     (case filter (\<lambda>k. fst (attempt s k) \<noteq> None) ks of [] \<Rightarrow> None | k # _ \<Rightarrow> fst (attempt s k))"
proof (induction ks arbitrary: s)
  case (Cons k ks)
  obtain r s' where r: "attempt s k = (r, s')" by fastforce
  have "sim s s'" using attempt_sim [of s k] r by simp
  then have "fst (attempt s' x) = fst (attempt s x)" for x by (rule attempt_cong)
  then show ?case using Cons.IH [of s'] r by (cases r) (simp_all split: list.split)
qed simp

end

definition same_engine :: "timestamp \<Rightarrow> fallback_engine \<Rightarrow> fallback_engine \<Rightarrow> bool" where
  "same_engine now e e' \<longleftrightarrow> fe_pool e' = fe_pool e \<and> same_reports now (fe_rate_limits e) (fe_rate_limits e')"

lemma fst_try_get:
  "fst (try_get ks eng now provider) =
     (case get_available ks (fe_pool eng) now provider of
        None \<Rightarrow> None
      | Some entry \<Rightarrow> if limited (fe_rate_limits eng) now (ae_account_id entry) then None else Some entry)"
  by (simp add: try_get_def limited_def split: option.split prod.split)

lemma try_get_keeps: "same_engine now eng (snd (try_get ks eng now provider))"
  using asking_keeps_reports(1)
  by (auto simp: try_get_def same_engine_def split: option.split prod.split) (metis snd_conv)

interpretation providers: stable_query "\<lambda>eng. try_get ks eng now" "same_engine now" for ks now
proof unfold_locales
  fix e f p assume "same_engine now e f"
  then show "fst (try_get ks f now p) = fst (try_get ks e now p)"
    by (simp add: fst_try_get same_engine_def same_reports_def split: option.split)
next
  show "same_engine now e (snd (try_get ks e now p))" for e p by (rule try_get_keeps)
qed (auto simp: same_engine_def intro: same_reports_trans)

lemma try_alternatives_search: "try_alternatives ks eng now ps = providers.search ks now eng ps"
  by (induction ps arbitrary: eng) (simp_all split: prod.split option.split)

lemma get_account_search:
  "fst (get_account ks eng now config) =
     (case fst (providers.search ks now eng (fc_primary config # fc_alternatives config)) of
        Some entry \<Rightarrow> Ok entry
      | None \<Rightarrow> Err (NoAvailableAccount (fc_primary config) (fc_alternatives config)))"
proof -
  obtain r e where r: "try_get ks eng now (fc_primary config) = (r, e)" by fastforce
  obtain r' e' where "providers.search ks now e (fc_alternatives config) = (r', e')" by fastforce
  with r show ?thesis by (cases r; cases r') (simp_all add: get_account_def try_alternatives_search)
qed

lemma score_candidates_reports: "same_reports now tr (snd (score_candidates tr now provider as))"
proof (induction as arbitrary: tr)
  case (Cons a as)
  obtain l tr' where l: "is_limited tr now (ae_account_id a) = (l, tr')" by fastforce
  obtain c tr'' where c: "remaining_capacity tr' now (ae_account_id a) = (c, tr'')" by fastforce
  have "same_reports now tr tr'" "same_reports now tr' tr''"
    using asking_keeps_reports [of now tr] asking_keeps_reports [of now tr'] l c by (metis snd_conv)+
  with Cons.IH [of tr] Cons.IH [of tr'] Cons.IH [of tr''] l c show ?case
    by (auto split: prod.split intro: same_reports_trans)
qed simp

definition selectable :: "rate_tracker \<Rightarrow> timestamp \<Rightarrow> string \<Rightarrow> account_entry \<Rightarrow> bool" where
  "selectable tr now provider a \<longleftrightarrow> is_candidate now provider a \<and> \<not> limited tr now (ae_account_id a)"

definition score_of :: "rate_tracker \<Rightarrow> timestamp \<Rightarrow> account_entry \<Rightarrow> u64" where
  "score_of tr now a = (case capacity tr now (ae_account_id a) of (r, t) \<Rightarrow> health_score r t)"

lemma selectable_cong:
  "same_reports now tr tr' \<Longrightarrow> selectable tr' now provider a = selectable tr now provider a"
  "same_reports now tr tr' \<Longrightarrow> score_of tr' now a = score_of tr now a"
  by (simp_all add: selectable_def score_of_def same_reports_def)

lemma candidates_eq:
  "fst (score_candidates tr now provider as) =
     map (\<lambda>a. (a, score_of tr now a)) (filter (selectable tr now provider) as)"
proof (induction as arbitrary: tr)
  case (Cons a as)
  obtain l tr' where l: "is_limited tr now (ae_account_id a) = (l, tr')" by fastforce
  obtain r t tr'' where c: "remaining_capacity tr' now (ae_account_id a) = ((r, t), tr'')" by (metis prod.exhaust)
  have same: "same_reports now tr tr'" "same_reports now tr tr''"
    using asking_keeps_reports [of now tr] asking_keeps_reports [of now tr'] l c
    by (metis snd_conv same_reports_trans)+
  have "selectable tr' now provider = selectable tr now provider"
    "selectable tr'' now provider = selectable tr now provider"
    "score_of tr' now = score_of tr now" "score_of tr'' now = score_of tr now"
    using same by (auto simp: selectable_cong)
  then have IH: "fst (score_candidates x now provider as) =
      map (\<lambda>a. (a, score_of tr now a)) (filter (selectable tr now provider) as)" if "x \<in> {tr, tr', tr''}" for x
    using Cons.IH [of x] that by auto
  have lim: "limited tr now (ae_account_id a) = l" by (simp add: limited_def l)
  have "capacity tr' now (ae_account_id a) = (r, t)" by (simp add: capacity_def c)
  then have cap: "score_of tr now a = health_score r t"
    using same(1) by (simp add: score_of_def same_reports_def)
  have cand: "is_candidate now provider a \<longleftrightarrow> \<not> (ae_provider a \<noteq> provider \<or> \<not> ae_is_available a \<or>
      (case ae_blocked_until a of Some t \<Rightarrow> now < t | None \<Rightarrow> False))"
    by (auto simp: is_candidate_def split: option.splits)
  show ?case
    using IH [of tr] IH [of tr'] IH [of tr''] lim cap
    by (auto simp: l c selectable_def [of tr now provider a] cand split: prod.split)
qed simp

lemma unat_sat_sub: "unat (sat_sub a b) \<le> unat a"
  by (simp add: sat_sub_def word_le_nat_alt [symmetric] word_sub_le_iff not_less)

text \<open>The score cannot overflow: at most 60 requests and 100000 tokens are ever left.\<close>

lemma unat_health_score:
  assumes "capacity tr now a = (r, t)"
  shows "unat (health_score r t) = 10 * unat r + unat t div 1000" "unat r \<le> 60" "unat t \<le> 100000"
proof -
  from assms have "r = sat_sub DEFAULT_RPM_MAX (fst (count_in_window (fst (windows_of tr a)) now))"
    "t = sat_sub DEFAULT_TPM_MAX (fst (count_in_window (snd (windows_of tr a)) now))"
    by (simp_all add: capacity_eq)
  then have "unat r \<le> unat DEFAULT_RPM_MAX" "unat t \<le> unat DEFAULT_TPM_MAX"
    using unat_sat_sub by blast+
  then show b: "unat r \<le> 60" "unat t \<le> 100000" by (simp_all add: DEFAULT_RPM_MAX_def DEFAULT_TPM_MAX_def)
  then have m: "unat (saturating_mul r 10) = unat r * 10" by (subst unat_saturating_mul) simp_all
  have d: "unat (t div 1000) = unat t div 1000" by (simp add: unat_div)
  show "unat (health_score r t) = 10 * unat r + unat t div 1000"
  proof -
    have "unat t div 1000 \<le> 100" using b(2) by simp
    then have "unat (saturating_mul r 10) + unat (t div 1000) < 2 ^ LENGTH(64)" using m d b(1) by simp
    then have "unat (health_score r t) = unat (saturating_mul r 10) + unat (t div 1000)"
      unfolding health_score_def by (rule unat_add_lem [THEN iffD1])
    then show ?thesis by (simp add: m d)
  qed
qed

text \<open>The score in exact numbers.\<close>

fun points :: "u64 \<times> u64 \<Rightarrow> nat" where
  "points (r, t) = 10 * unat r + unat t div 1000"

section \<open>Properties\<close>

text \<open>\<open>get_account\<close> serves the first provider of the configured order whose least-loaded account
  is not rate-limited, with that account, and fails exactly when there is no such provider.\<close>

theorem get_account_first_provider:
  "fst (get_account ks eng now config) =
     (case filter (\<lambda>p. case get_available ks (fe_pool eng) now p of
              None \<Rightarrow> False | Some a \<Rightarrow> \<not> limited (fe_rate_limits eng) now (ae_account_id a))
            (fc_primary config # fc_alternatives config) of
        [] \<Rightarrow> Err (NoAvailableAccount (fc_primary config) (fc_alternatives config))
      | p # _ \<Rightarrow> Ok (the (get_available ks (fe_pool eng) now p)))"
proof -
  let ?ok = "\<lambda>p. case get_available ks (fe_pool eng) now p of
      None \<Rightarrow> False | Some a \<Rightarrow> \<not> limited (fe_rate_limits eng) now (ae_account_id a)"
  let ?ps = "fc_primary config # fc_alternatives config"
  have iff: "fst (try_get ks eng now p) \<noteq> None \<longleftrightarrow> ?ok p" for p
    by (simp add: fst_try_get split: option.split)
  then have f: "filter (\<lambda>p. fst (try_get ks eng now p) \<noteq> None) ?ps = filter ?ok ?ps" by simp
  show ?thesis
  proof (cases "filter ?ok ?ps")
    case Nil
    with f show ?thesis by (simp only: get_account_search providers.search_first list.case option.case)
  next
    case (Cons p rest)
    then have "p \<in> set (filter ?ok ?ps)" by (metis list.set_intros(1))
    then have "?ok p" unfolding set_filter by simp
    then have "fst (try_get ks eng now p) = get_available ks (fe_pool eng) now p"
      "\<exists>a. get_available ks (fe_pool eng) now p = Some a"
      by (auto simp: fst_try_get split: option.splits)
    with f Cons show ?thesis
      by (auto simp only: get_account_search providers.search_first list.case option.case option.sel)
  qed
qed

text \<open>\<open>select_account\<close> answers with a usable account that no other usable account beats in
  remaining capacity (ten points per request and one per thousand tokens, without overflow), and
  fails exactly when no account of the provider is usable.\<close>

theorem select_account_healthiest:
  assumes "iteration_order ks pool"
  shows "case fst (select_account ks pool tr now provider) of
      Ok a \<Rightarrow> a \<in> ran pool \<and> selectable tr now provider a \<and>
        (\<forall>b \<in> ran pool. selectable tr now provider b \<longrightarrow>
           points (capacity tr now (ae_account_id b)) \<le> points (capacity tr now (ae_account_id a)))
    | Err e \<Rightarrow> e = NoAccountFor provider \<and> (\<forall>a \<in> ran pool. \<not> selectable tr now provider a)"
proof -
  let ?sel = "filter (selectable tr now provider) (map_values ks pool)"
  let ?cs = "map (\<lambda>a. (a, score_of tr now a)) ?sel"
  have set_sel: "set ?sel = {a \<in> ran pool. selectable tr now provider a}"
    using set_map_values_order [OF assms] by auto
  obtain tr' where sc: "score_candidates tr now provider (list_accounts ks pool) = (?cs, tr')"
    using candidates_eq [of tr now provider "list_accounts ks pool"]
    by (metis list_accounts_def prod.collapse)
  have score: "unat (score_of tr now x) =
points (capacity tr now (ae_account_id x))" for x
    by (auto simp: score_of_def unat_health_score(1) split: prod.split)
  show ?thesis
  proof (cases "sort_key (\<lambda>c. - int (unat (snd c))) ?cs")
    case Nil
    then have "?cs = []" unfolding sort_key_eq_Nil .
    then have "?sel = []" unfolding map_is_Nil_conv .
    with set_sel have "{a \<in> ran pool. selectable tr now provider a} = {}" by simp
    then have "\<forall>a \<in> ran pool. \<not> selectable tr now provider a" by blast
    with Nil sc show ?thesis by (simp add: select_account_def)
  next
    case (Cons c rest)
    note h = hd_sort_key [OF Cons]
    from h(1) set_sel have a: "fst c \<in> ran pool" "selectable tr now provider (fst c)" "snd c = score_of tr now (fst c)" by auto
    have "unat (score_of tr now b) \<le> unat (score_of tr now (fst c))"
      if "b \<in> ran pool" "selectable tr now provider b" for b
    proof -
      have "(b, score_of tr now b) \<in> set ?cs" using that set_sel by auto
      from h(2) [OF this] a(3) show ?thesis by (simp only: snd_conv neg_le_iff_le of_nat_le_iff)
    qed
    with a Cons sc show ?thesis by (simp add: select_account_def score)
  qed
qed

theorem select_account_healthiest_witness:
  "case fst (select_account [''a''] (register new_pool (sample_account ''a'')) Map.empty 7 ''claude'') of
     Ok a \<Rightarrow> ae_account_id a = ''a'' \<and> points (capacity Map.empty 7 ''a'') = 700
   | Err e \<Rightarrow> False"
proof -
  let ?p = "register new_pool (sample_account ''a'')"
  have o: "iteration_order [''a''] ?p" by (auto simp: iteration_order_def register_def new_pool_def)
  have w: "selectable Map.empty 7 ''claude'' (sample_account ''a'')" "points (capacity Map.empty 7 ''a'') = 700"
    by (simp_all add: selectable_def is_candidate_def limited_eq capacity_eq windows_of_def make_windows_def new_window_def
        window_is_limited_def count_in_window_def evict_def sat_sub_def DEFAULT_RPM_MAX_def DEFAULT_TPM_MAX_def)
  have r: "ran ?p = {sample_account ''a''}" by (simp add: register_def new_pool_def)
  show ?thesis
    using select_account_healthiest [OF o, of Map.empty 7 "''claude''"] w r by (simp split: result.splits)
qed

text \<open>The run of operations behind the next property: one large request on the first account, the
  minute reset, one small request on the second account.\<close>

definition busy_engine :: fallback_engine where
  "busy_engine =
     (let e0 = \<lparr>fe_pool = register (register new_pool (sample_account ''a'')) (sample_account ''b''),
                fe_rate_limits = Map.empty\<rparr>;
          e1 = record_completion e0 0 ''a'' 100000;
          e2 = e1\<lparr>fe_pool := reset_minute_counters (fe_pool e1) (secs 30)\<rparr>
      in record_completion e2 (secs 31) ''b'' 10)"

lemmas engine_simps = busy_engine_def record_completion_def record_usage_def record_request_def register_def new_pool_def
  reset_minute_counters_def reset_entry_def saturating_add_def get_available_def is_candidate_def windows_of_def
  make_windows_def new_window_def record_event_def record_weighted_def evict_def window_length_def
  DEFAULT_RPM_WINDOW_SECS_def DEFAULT_TPM_WINDOW_SECS_def DEFAULT_RPM_MAX_def DEFAULT_TPM_MAX_def

text \<open>\<open>get_account\<close> can fail although an account of the primary provider is available and not
  rate-limited: it looks at the least-loaded account only, and \<open>select_account\<close> finds the other one
  in the same state.\<close>

theorem get_account_misses_usable_account:
  "fst (get_account [''a'', ''b''] busy_engine (secs 32) \<lparr>fc_primary = ''claude'', fc_alternatives = []\<rparr>) =
     Err (NoAvailableAccount ''claude'' []) \<and>
   (\<exists>a. fst (select_account [''a'', ''b''] (fe_pool busy_engine) (fe_rate_limits busy_engine)
      (secs 32) ''claude'') = Ok a \<and> ae_account_id a = ''b'')"
proof
  show "fst (get_account [''a'', ''b''] busy_engine (secs 32) \<lparr>fc_primary = ''claude'', fc_alternatives = []\<rparr>) =
     Err (NoAvailableAccount ''claude'' [])"
    by (simp add: get_account_def try_get_def is_limited_def window_is_limited_def count_in_window_def engine_simps)
  show "\<exists>a. fst (select_account [''a'', ''b''] (fe_pool busy_engine) (fe_rate_limits busy_engine)
      (secs 32) ''claude'') = Ok a \<and> ae_account_id a = ''b''"
    by (simp add: select_account_def list_accounts_def is_limited_def remaining_capacity_def window_is_limited_def
        count_in_window_def word_le_nat_alt engine_simps)
qed

end
