(* ===== verification/Policy_Rules.thy ===== *)
theory Policy_Rules
  imports Task_Reducer Rust_Strings
begin

text \<open>
  Policy decisions about tool calls: the risk database (\<^verbatim>\<open>policy/risk.rs\<close>), the approval rules
  (\<^verbatim>\<open>policy/rules.rs\<close>), the policy engine (\<^verbatim>\<open>policy/engine.rs\<close>), role based access
  (\<^verbatim>\<open>policy/rbac.rs\<close>), the trust registry (\<^verbatim>\<open>policy/mcp_trust.rs\<close>) and the violations
  (\<^verbatim>\<open>policy/sandbox.rs\<close>). Configuration files come in as the text that was read, or nothing when
  it could not be read; the JSON library is a parameter.
\<close>

section \<open>Policy violations: sandbox.rs\<close>

datatype policy_violation =
    PathEscape string string
  | NetworkDenied
  | UnauthorizedTool string string
  | SecretDetected string string
  | PlaceholderDetected string nat string
  | SupplyChainMismatch string string string
  | UnregisteredServer string
  | NoAcceptanceCriteria
  | TestsNotRun
  | TestsFailing

section \<open>Risk database: risk.rs\<close>

type_synonym risk_database = "string \<rightharpoonup> risk_level"

record risk_config =
  rc_low :: "string list"
  rc_medium :: "string list"
  rc_high :: "string list"
  rc_critical :: "string list"

text \<open>The loops \<^verbatim>\<open>for tool in .. { rules.insert(tool, level) }\<close>.\<close>

definition insert_all :: "risk_level \<Rightarrow> string list \<Rightarrow> risk_database \<Rightarrow> risk_database" where
  "insert_all level tools db = foldl (\<lambda>m t. m(t \<mapsto> level)) db tools"

definition default_rules :: risk_database where
  "default_rules =
     (insert_all CriticalRisk [''git_push'', ''shell_exec'', ''network_request'']
       (insert_all HighRisk [''apply_patch'', ''request_approval'']
         (insert_all MediumRisk [''run_tests'', ''create_task'', ''claim_task'', ''transition_task'']
           (insert_all LowRisk [''read_file'', ''search_files'', ''log_event''] Map.empty))))"

definition load_from_json :: "(string \<Rightarrow> risk_config option) \<Rightarrow> string option \<Rightarrow> risk_database" where
  "load_from_json from_str content =
     (case content of
        None \<Rightarrow> default_rules
      | Some text \<Rightarrow>
          (case from_str text of
             None \<Rightarrow> default_rules
           | Some config \<Rightarrow>
               insert_all CriticalRisk (rc_critical config)
                 (insert_all HighRisk (rc_high config)
                   (insert_all MediumRisk (rc_medium config)
                     (insert_all LowRisk (rc_low config) default_rules)))))"

definition get_risk :: "risk_database \<Rightarrow> string \<Rightarrow> risk_level" where
  "get_risk db tool = (case db tool of Some r \<Rightarrow> r | None \<Rightarrow> MediumRisk)"

section \<open>Approval rules: rules.rs\<close>

datatype policy_decision =
    Allow
  | Deny string
  | ApprovalNeeded string risk_level string

definition TASKLESS_TOOLS :: "string list" where
  "TASKLESS_TOOLS = [''create_task'']"

definition APPROVAL_REQUEST_TOOLS :: "string list" where
  "APPROVAL_REQUEST_TOOLS = [''request_approval'']"

record approval_rules =
  ar_min_risk_for_approval :: risk_level
  ar_auto_approve_low :: bool
  ar_require_active_task_for_medium :: bool

definition default_approval_rules :: approval_rules where
  "default_approval_rules =
     \<lparr>ar_min_risk_for_approval = HighRisk, ar_auto_approve_low = True, ar_require_active_task_for_medium = True\<rparr>"

text \<open>\<^verbatim>\<open>Display for TaskState\<close>: the serialized name.\<close>

fun show_task_state :: "task_state \<Rightarrow> string" where
  "show_task_state Pending = ''pending''"
| "show_task_state Planned = ''planned''"
| "show_task_state Claimed = ''claimed''"
| "show_task_state Active = ''active''"
| "show_task_state Blocked = ''blocked''"
| "show_task_state NeedsApproval = ''needs_approval''"
| "show_task_state CodeReview = ''code_review''"
| "show_task_state Qa = ''qa''"
| "show_task_state Done = ''done''"
| "show_task_state Canceled = ''canceled''"
| "show_task_state Failed = ''failed''"

definition state_desc :: "task_state option \<Rightarrow> string" where
  "state_desc st = (case st of Some s \<Rightarrow> show_task_state s | None \<Rightarrow> ''none'')"

definition should_approve :: "approval_rules \<Rightarrow> string \<Rightarrow> risk_level \<Rightarrow> task_state option \<Rightarrow> policy_decision" where
  "should_approve rules tool risk st =
     (if tool \<in> set APPROVAL_REQUEST_TOOLS
      then (if st = Some Active then Allow
            else Deny (''approval-request tool '' @ quoted tool @ '' requires an Active task (current: '' @ state_desc st @ '')''))
      else if risk = MediumRisk \<and> tool \<in> set TASKLESS_TOOLS then Allow
      else case risk of
          LowRisk \<Rightarrow>
            if ar_auto_approve_low rules then Allow
            else ApprovalNeeded tool LowRisk ''auto-approve disabled for low-risk tools''
        | MediumRisk \<Rightarrow>
            if \<not> ar_require_active_task_for_medium rules then Allow
            else if st = Some Active then Allow
            else Deny (''medium-risk tool '' @ quoted tool @ '' requires an Active+Claimed task (current: '' @ state_desc st @ '')'')
        | _ \<Rightarrow> ApprovalNeeded tool risk (''tool '' @ quoted tool @ '' requires explicit approval before execution''))"

section \<open>Trust registry: mcp_trust.rs\<close>

datatype trust_level = Trusted | Untrusted

record trust_entry =
  te_server_name :: string
  te_trust :: trust_level
  te_command_hash :: "string option"
  te_allowed_tools :: "string list"

type_synonym trust_database = "string \<rightharpoonup> trust_entry"

definition upsert_trust :: "trust_database \<Rightarrow> trust_entry \<Rightarrow> trust_database" where
  "upsert_trust db entry = db(te_server_name entry \<mapsto> entry)"

definition load_trust :: "(string \<Rightarrow> trust_entry list option) \<Rightarrow> string option \<Rightarrow> trust_database" where
  "load_trust from_str content =
     (case content of
        None \<Rightarrow> Map.empty
      | Some text \<Rightarrow>
          (case from_str text of
             None \<Rightarrow> Map.empty
           | Some servers \<Rightarrow> foldl (\<lambda>m e. m(te_server_name e \<mapsto> e)) Map.empty servers))"

definition get_trust :: "trust_database \<Rightarrow> string \<Rightarrow> trust_level" where
  "get_trust db server_name = (case db server_name of Some e \<Rightarrow> te_trust e | None \<Rightarrow> Untrusted)"

definition is_tool_allowed :: "trust_database \<Rightarrow> string \<Rightarrow> string \<Rightarrow> bool" where
  "is_tool_allowed db server_name tool =
     (case db server_name of
        None \<Rightarrow> False
      | Some entry \<Rightarrow>
          if te_trust entry \<noteq> Trusted then False
          else if te_allowed_tools entry = [] then True
          else list_ex (\<lambda>t. t = tool) (te_allowed_tools entry))"

section \<open>Role based access: rbac.rs\<close>

datatype agent_role = Router | Planner | Implementer | Reviewer | QaExecutor | UnknownRole

fun show_role :: "agent_role \<Rightarrow> string" where
  "show_role Router = ''router''"
| "show_role Planner = ''planner''"
| "show_role Implementer = ''implementer''"
| "show_role Reviewer = ''reviewer''"
| "show_role QaExecutor = ''qa_executor''"
| "show_role UnknownRole = ''unknown''"

definition role_from_str :: "string \<Rightarrow> agent_role" where
  "role_from_str s =
     (if s = ''router'' then Router
      else if s = ''planner'' then Planner
      else if s = ''implementer'' then Implementer
      else if s = ''reviewer'' then Reviewer
      else if s = ''qa_executor'' then QaExecutor
      else UnknownRole)"

definition ROLE_ALLOWED_TOOLS :: "(agent_role \<times> string list option) list" where
  "ROLE_ALLOWED_TOOLS =
     [(Router, Some [''create_task'', ''transition_task'', ''log_event'']),
      (Planner, Some [''read_file'', ''search_files'', ''log_event'']),
      (Implementer, None),
      (Reviewer, Some [''read_file'', ''search_files'', ''log_event'']),
      (QaExecutor, Some [''run_tests'', ''log_event'', ''transition_task'']),
      (UnknownRole, Some [])]"

fun find_role :: "(agent_role \<times> string list option) list \<Rightarrow> agent_role \<Rightarrow> string \<Rightarrow> (unit, policy_violation) result" where
  "find_role [] role tool = Err (UnauthorizedTool tool (show_role role))"
| "find_role ((entry_role, allowed) # rest) role tool =
     (if entry_role \<noteq> role then find_role rest role tool
      else case allowed of
          None \<Rightarrow> Ok ()
        | Some tools \<Rightarrow> if tool \<in> set tools then Ok () else Err (UnauthorizedTool tool (show_role role)))"

definition check_tool_authorized :: "agent_role \<Rightarrow> string \<Rightarrow> (unit, policy_violation) result" where
  "check_tool_authorized role tool = find_role ROLE_ALLOWED_TOOLS role tool"

section \<open>Lemmas\<close>

lemma insert_all_lookup: "insert_all level tools db t = (if t \<in> set tools then Some level else db t)"
proof -
  have "foldl (\<lambda>m t. m(t \<mapsto> level)) db tools t = (if t \<in> set tools then Some level else db t)"
    by (induction tools arbitrary: db) auto
  then show ?thesis by (simp add: insert_all_def)
qed

lemma should_approve_Allow:
  "should_approve default_approval_rules tool risk st = Allow \<longleftrightarrow>
     (if tool = ''request_approval'' then st = Some Active
      else risk = LowRisk \<or> risk = MediumRisk \<and> (tool = ''create_task'' \<or> st = Some Active))"
  by (cases risk) (auto simp: should_approve_def default_approval_rules_def APPROVAL_REQUEST_TOOLS_def TASKLESS_TOOLS_def)

lemma is_tool_allowed_iff:
  "is_tool_allowed db server tool \<longleftrightarrow>
     get_trust db server = Trusted \<and> (\<exists>e. db server = Some e \<and> (te_allowed_tools e = [] \<or> tool \<in> set (te_allowed_tools e)))"
  by (auto simp: is_tool_allowed_def get_trust_def list_ex_iff split: option.splits)

lemma role_roundtrip: "role_from_str (show_role r) = r"
  by (cases r) (simp_all add: role_from_str_def)

end
