(* ===== verification/Sandbox.thy ===== *)
theory Sandbox
  imports Policy_Rules
begin

text \<open>
  The worktree sandbox, \<^verbatim>\<open>policy/sandbox.rs\<close>. The file system enters as \<open>canonicalize\<close>: the
  resolved absolute path of an existing file, nothing for a path that does not exist.
  \<^verbatim>\<open>Path::starts_with\<close> compares components as the standard library splits them on Unix.
\<close>

section \<open>Definitions\<close>

record sandbox_policy =
  sp_worktree_root :: string
  sp_allow_network :: bool

text \<open>\<^verbatim>\<open>Path::components\<close>: the root, a leading dot, and the names between separators; other dots and
  repeated separators disappear, parent references stay.\<close>

definition components :: "string \<Rightarrow> string list" where
  "components s =
     (let pieces = split_char (CHR ''/'') s in
      (if starts_with s ''/'' then [''/''] else if hd pieces = ''.'' then [''.''] else []) @
      filter (\<lambda>c. c \<noteq> [] \<and> c \<noteq> ''.'') pieces)"

definition path_starts_with :: "string \<Rightarrow> string \<Rightarrow> bool" where
  "path_starts_with p base \<longleftrightarrow> prefix (components base) (components p)"

type_synonym canonicalizer = "string \<Rightarrow> string option"

definition new_sandbox :: "canonicalizer \<Rightarrow> string \<Rightarrow> bool \<Rightarrow> sandbox_policy" where
  "new_sandbox canonicalize root allow_network =
     \<lparr>sp_worktree_root = (case canonicalize root of Some r \<Rightarrow> r | None \<Rightarrow> root), sp_allow_network = allow_network\<rparr>"

definition check_path :: "canonicalizer \<Rightarrow> sandbox_policy \<Rightarrow> string \<Rightarrow> (unit, policy_violation) result" where
  "check_path canonicalize sb target_path =
     (let target_canonical = (case canonicalize target_path of Some t \<Rightarrow> t | None \<Rightarrow> target_path);
          root_canonical = (case canonicalize (sp_worktree_root sb) of Some r \<Rightarrow> r | None \<Rightarrow> sp_worktree_root sb)
      in if path_starts_with target_canonical root_canonical then Ok ()
         else if starts_with target_canonical (root_canonical @ ''/'') \<or> target_canonical = root_canonical then Ok ()
         else Err (PathEscape target_canonical root_canonical))"

definition check_network_allowed :: "sandbox_policy \<Rightarrow> (unit, policy_violation) result" where
  "check_network_allowed sb = (if sp_allow_network sb then Ok () else Err NetworkDenied)"

section \<open>Lemmas\<close>

text \<open>A canonical path, other than the root: absolute and made of plain names.\<close>

definition canonical :: "string \<Rightarrow> bool" where
  "canonical p \<longleftrightarrow>
     (\<exists>names. names \<noteq> [] \<and> p = concat (map (\<lambda>n. CHR ''/'' # n) names) \<and>
        (\<forall>n \<in> set names. n \<noteq> [] \<and> n \<noteq> ''.'' \<and> n \<noteq> ''..'' \<and> CHR ''/'' \<notin> set n))"

lemma split_joined:
  assumes "\<forall>n \<in> set names. d \<notin> set n" "d \<notin> set a"
  shows "split_char d (a @ concat (map (\<lambda>n. d # n) names)) = a # names"
  using assms by (induction names arbitrary: a) (simp_all add: split_char_append split_char_single)

lemma components_joined:
  assumes "\<forall>n \<in> set names. n \<noteq> [] \<and> n \<noteq> ''.'' \<and> CHR ''/'' \<notin> set n" "names \<noteq> []"
  shows "components (concat (map (\<lambda>n. CHR ''/'' # n) names)) = ''/'' # names"
proof -
  have "split_char (CHR ''/'') ([] @ concat (map (\<lambda>n. CHR ''/'' # n) names)) = [] # names"
    using assms by (intro split_joined) auto
  moreover have "starts_with (concat (map (\<lambda>n. CHR ''/'' # n) names)) ''/''"
    using assms(2) by (cases names) (auto simp: starts_with_def)
  moreover have "filter (\<lambda>c. c \<noteq> [] \<and> c \<noteq> ''.'') names = names"
    using assms(1) by (auto intro: filter_True)
  ultimately show ?thesis by (simp add: components_def)
qed

lemma prefix_concat:
  assumes "\<forall>n \<in> set xs \<union> set ys. CHR ''/'' \<notin> set n"
    and "prefix (concat (map (\<lambda>n. CHR ''/'' # n) xs) @ ''/'') (concat (map (\<lambda>n. CHR ''/'' # n) ys))"
  shows "prefix xs ys"
proof -
  let ?j = "\<lambda>ns. concat (map (\<lambda>n. CHR ''/'' # n) ns)"
  obtain z where "?j ys = ?j xs @ ''/'' @ z" using assms(2) by (auto simp: prefix_def)
  then have "split_char (CHR ''/'') ([] @ ?j ys) = split_char (CHR ''/'') (?j xs @ CHR ''/'' # z)" by simp
  moreover have "split_char (CHR ''/'') (a @ ?j xs @ CHR ''/'' # z) = a # xs @ split_char (CHR ''/'') z"
    if "CHR ''/'' \<notin> set a" for a
    using assms(1) that
  proof (induction xs arbitrary: a)
    case (Cons n ns)
    have "split_char (CHR ''/'') (a @ CHR ''/'' # (n @ ?j ns @ CHR ''/'' # z)) =
        a # split_char (CHR ''/'') (n @ ?j ns @ CHR ''/'' # z)" by (rule split_char_append [OF Cons.prems(2)])
    with Cons show ?case by simp
  qed (simp add: split_char_append)
  from this [of "[]"] have "split_char (CHR ''/'') (?j xs @ CHR ''/'' # z) = [] # xs @ split_char (CHR ''/'') z" by simp
  ultimately have "[] # ys = [] # xs @ split_char (CHR ''/'') z"
    using split_joined [of ys "CHR ''/''" "[]"] assms(1) by simp
  then show ?thesis by (simp add: prefix_def)
qed

section \<open>Properties\<close>

text \<open>C28: For an existing target, and a worktree root that exists, the sandbox check accepts exactly the
  canonical paths below the canonical root: the components of the root are the first components of the
  target; everything else is a path escape.\<close>

theorem check_path_existing_target:
  assumes "canonicalize target = Some t" "canonicalize (sp_worktree_root sb) = Some r" "canonical t" "canonical r"
  shows "check_path canonicalize sb target =
    (if prefix (components r) (components t) then Ok () else Err (PathEscape t r))"
proof -
  obtain ts where t: "ts \<noteq> []" "t = concat (map (\<lambda>n. CHR ''/'' # n) ts)"
    "\<forall>n \<in> set ts. n \<noteq> [] \<and> n \<noteq> ''.'' \<and> CHR ''/'' \<notin> set n"
    using assms(3) unfolding canonical_def by blast
  obtain rs where r: "rs \<noteq> []" "r = concat (map (\<lambda>n. CHR ''/'' # n) rs)"
    "\<forall>n \<in> set rs. n \<noteq> [] \<and> n \<noteq> ''.'' \<and> CHR ''/'' \<notin> set n"
    using assms(4) unfolding canonical_def by blast
  have c: "components t = ''/'' # ts" "components r = ''/'' # rs"
    using components_joined t r by simp_all
  have "prefix rs ts" if "starts_with t (r @ ''/'') \<or> t = r"
    using that
  proof
    assume "starts_with t (r @ ''/'')"
    then show ?thesis using prefix_concat [of rs ts] t r by (auto simp: starts_with_def)
  next
    assume "t = r"
    with c show ?thesis by simp
  qed
  then show ?thesis
    using assms(1,2) c by (auto simp: check_path_def path_starts_with_def)
qed

theorem check_path_existing_target_witness:
  "check_path Some (new_sandbox Some ''/wt'' False) ''/wtx/a'' = Err (PathEscape ''/wtx/a'' ''/wt'')"
proof -
  have "canonical ''/wtx/a''" unfolding canonical_def by (rule exI [where x = "[''wtx'', ''a'']"]) simp
  moreover have "canonical ''/wt''" unfolding canonical_def by (rule exI [where x = "[''wt'']"]) simp
  ultimately show ?thesis
    using check_path_existing_target [of Some "''/wtx/a''" "''/wtx/a''" "new_sandbox Some ''/wt'' False" "''/wt''"]
    by (simp add: new_sandbox_def components_def starts_with_def)
qed

text \<open>For a target that does not exist yet, the check is lexical and keeps parent references: every
  new file whose path starts with the worktree root is accepted, also when it climbs out again.\<close>

theorem check_path_accepts_parent_escape:
  assumes "canonicalize root = Some root" "canonicalize (root @ ''/../'' @ rest) = None"
  shows "check_path canonicalize (new_sandbox canonicalize root net) (root @ ''/../'' @ rest) = Ok ()"
  using assms by (auto simp: check_path_def new_sandbox_def starts_with_def)

theorem check_path_accepts_parent_escape_witness:
  "check_path (\<lambda>p. if p = ''/wt'' then Some p else None) (new_sandbox (\<lambda>p. if p = ''/wt'' then Some p else None) ''/wt'' False)
     ''/wt/../home/me/.bashrc_new'' = Ok ()"
  using check_path_accepts_parent_escape [of "\<lambda>p. if p = ''/wt'' then Some p else None" "''/wt''" "''home/me/.bashrc_new''" False]
  by simp

end
