(* ===== verification/Approval_Router.thy ===== *)
theory Approval_Router
  imports Task_Reducer
begin

text \<open>
  The life cycle of approval requests, \<^verbatim>\<open>policy/approval.rs\<close>. Every operation holds the router's mutex
  while it touches the table, so the operations are functions on the table. \<^verbatim>\<open>wait_for_decision\<close>
  releases the mutex between its steps: it is a small state machine, and the system interleaves
  its steps with everybody else's. The fresh id of a request comes from \<^verbatim>\<open>Uuid::new_v4\<close>.
\<close>

section \<open>Operations\<close>

datatype approval_status = StPending | StGranted | StDenied | StTimedOut

record approval_request =
  aq_id :: string
  aq_task_id :: string
  aq_agent_id :: string
  aq_tool :: string
  aq_args_summary :: string
  aq_risk :: risk_level
  aq_requested_at :: timestamp
  aq_status :: approval_status

type_synonym requests = "string \<rightharpoonup> approval_request"

datatype approval_error = ApprovalNotFound string | ApprovalAlready string approval_status

definition request_approval ::
  "requests \<Rightarrow> string \<Rightarrow> timestamp \<Rightarrow> string \<Rightarrow> string \<Rightarrow> string \<Rightarrow> string \<Rightarrow> risk_level \<Rightarrow> requests" where
  "request_approval reqs uuid now task_id agent_id tool args_summary risk =
     reqs(uuid \<mapsto> \<lparr>aq_id = uuid, aq_task_id = task_id, aq_agent_id = agent_id, aq_tool = tool,
       aq_args_summary = args_summary, aq_risk = risk, aq_requested_at = now, aq_status = StPending\<rparr>)"

text \<open>\<^verbatim>\<open>grant\<close> and \<^verbatim>\<open>deny\<close> have the same body up to the status they set.\<close>

definition decide :: "approval_status \<Rightarrow> requests \<Rightarrow> string \<Rightarrow> (unit, approval_error) result \<times> requests" where
  "decide st reqs approval_id =
     (case reqs approval_id of
        None \<Rightarrow> (Err (ApprovalNotFound approval_id), reqs)
      | Some req \<Rightarrow>
          if aq_status req \<noteq> StPending then (Err (ApprovalAlready approval_id (aq_status req)), reqs)
          else (Ok (), reqs(approval_id \<mapsto> req\<lparr>aq_status := st\<rparr>)))"

definition grant :: "requests \<Rightarrow> string \<Rightarrow> (unit, approval_error) result \<times> requests" where
  "grant reqs approval_id = decide StGranted reqs approval_id"

definition deny :: "requests \<Rightarrow> string \<Rightarrow> (unit, approval_error) result \<times> requests" where
  "deny reqs approval_id = decide StDenied reqs approval_id"

text \<open>\<^verbatim>\<open>wait_for_decision\<close>, its critical sections: the check at the top of the loop, the branch taken when
  no time remains, and the branch taken when waiting for a notification failed or timed out.\<close>

definition wait_check :: "requests \<Rightarrow> string \<Rightarrow> approval_status option" where
  "wait_check reqs approval_id =
     (case reqs approval_id of
        Some req \<Rightarrow> if aq_status req \<noteq> StPending then Some (aq_status req) else None
      | None \<Rightarrow> Some StDenied)"

definition wait_no_time_left :: "requests \<Rightarrow> string \<Rightarrow> approval_status \<times> requests" where
  "wait_no_time_left reqs approval_id =
     (StTimedOut,
      case reqs approval_id of
        Some req \<Rightarrow> reqs(approval_id \<mapsto> req\<lparr>aq_status := StTimedOut\<rparr>)
      | None \<Rightarrow> reqs)"

definition wait_interrupted :: "requests \<Rightarrow> string \<Rightarrow> approval_status \<times> requests" where
  "wait_interrupted reqs approval_id =
     (case reqs approval_id of
        Some req \<Rightarrow>
          let req' = (if aq_status req = StPending then req\<lparr>aq_status := StTimedOut\<rparr> else req)
          in (aq_status req', reqs(approval_id \<mapsto> req'))
      | None \<Rightarrow> (StTimedOut, reqs))"

definition get_request :: "requests \<Rightarrow> string \<Rightarrow> approval_request option" where
  "get_request reqs approval_id = reqs approval_id"

section \<open>The system\<close>

datatype waiter_phase = Checking | Waiting | Returned approval_status

text \<open>The table, the calls of \<^verbatim>\<open>wait_for_decision\<close> in flight (approval id and phase), and the log of the
  decisions whose call returned \<^verbatim>\<open>Ok\<close>.\<close>

record approval_system =
  as_requests :: requests
  as_waiters :: "nat \<rightharpoonup> string \<times> waiter_phase"
  as_decisions :: "(string \<times> approval_status) list"

definition initial_system :: approval_system where
  "initial_system = \<lparr>as_requests = Map.empty, as_waiters = Map.empty, as_decisions = []\<rparr>"

definition log_decision :: "approval_system \<Rightarrow> string \<Rightarrow> approval_status \<Rightarrow> (unit, approval_error) result \<times> requests \<Rightarrow> approval_system" where
  "log_decision s i st res =
     s\<lparr>as_requests := snd res, as_decisions := as_decisions s @ (if is_ok (fst res) then [(i, st)] else [])\<rparr>"

inductive approval_step :: "approval_system \<Rightarrow> approval_system \<Rightarrow> bool" where
  request: "as_requests s uuid = None \<Longrightarrow>
    approval_step s (s\<lparr>as_requests := request_approval (as_requests s) uuid now t a tool sm r\<rparr>)"
| granting: "approval_step s (log_decision s i StGranted (grant (as_requests s) i))"
| denying: "approval_step s (log_decision s i StDenied (deny (as_requests s) i))"
| wait_start: "as_waiters s n = None \<Longrightarrow> approval_step s (s\<lparr>as_waiters := (as_waiters s)(n \<mapsto> (i, Checking))\<rparr>)"
| checked_final: "as_waiters s n = Some (i, Checking) \<Longrightarrow> wait_check (as_requests s) i = Some st \<Longrightarrow>
    approval_step s (s\<lparr>as_waiters := (as_waiters s)(n \<mapsto> (i, Returned st))\<rparr>)"
| checked_pending: "as_waiters s n = Some (i, Checking) \<Longrightarrow> wait_check (as_requests s) i = None \<Longrightarrow>
    approval_step s (s\<lparr>as_waiters := (as_waiters s)(n \<mapsto> (i, Waiting))\<rparr>)"
| no_time: "as_waiters s n = Some (i, Waiting) \<Longrightarrow> wait_no_time_left (as_requests s) i = (st, reqs') \<Longrightarrow>
    approval_step s (s\<lparr>as_requests := reqs', as_waiters := (as_waiters s)(n \<mapsto> (i, Returned st))\<rparr>)"
| interrupted: "as_waiters s n = Some (i, Waiting) \<Longrightarrow> wait_interrupted (as_requests s) i = (st, reqs') \<Longrightarrow>
    approval_step s (s\<lparr>as_requests := reqs', as_waiters := (as_waiters s)(n \<mapsto> (i, Returned st))\<rparr>)"
| notified: "as_waiters s n = Some (i, Waiting) \<Longrightarrow>
    approval_step s (s\<lparr>as_waiters := (as_waiters s)(n \<mapsto> (i, Checking))\<rparr>)"

inductive_cases approval_stepE: "approval_step s s'"

abbreviation approval_reachable :: "approval_system \<Rightarrow> bool" where
  "approval_reachable s \<equiv> approval_step\<^sup>*\<^sup>* initial_system s"

section \<open>Invariant\<close>

definition decisions_of :: "approval_system \<Rightarrow> string \<Rightarrow> approval_status list" where
  "decisions_of s i = map snd (filter (\<lambda>d. fst d = i) (as_decisions s))"

definition status_of :: "approval_system \<Rightarrow> string \<Rightarrow> approval_status option" where
  "status_of s i = map_option aq_status (as_requests s i)"

text \<open>At most one decision per approval, none while it is pending or unknown, a status that was decided
  is in the log, and a waiter that returned a grant or the denial of a known approval saw it.\<close>

definition approval_inv :: "approval_system \<Rightarrow> bool" where
  "approval_inv s \<longleftrightarrow>
     (\<forall>i. length (decisions_of s i) \<le> 1 \<and>
        (status_of s i \<in> {None, Some StPending} \<longrightarrow> decisions_of s i = []) \<and>
        (status_of s i = Some StGranted \<longrightarrow> decisions_of s i = [StGranted]) \<and>
        (status_of s i = Some StDenied \<longrightarrow> decisions_of s i = [StDenied])) \<and>
     (\<forall>n i. as_waiters s n = Some (i, Returned StGranted) \<longrightarrow> decisions_of s i = [StGranted])"

section \<open>Lemmas\<close>

definition ok_for :: "approval_status option \<Rightarrow> approval_status list \<Rightarrow> bool" where
  "ok_for st ds \<longleftrightarrow> length ds \<le> 1 \<and> (st \<in> {None, Some StPending} \<longrightarrow> ds = []) \<and>
     (st = Some StGranted \<longrightarrow> ds = [StGranted]) \<and> (st = Some StDenied \<longrightarrow> ds = [StDenied])"

lemma approval_inv_alt:
  "approval_inv s \<longleftrightarrow> (\<forall>i. ok_for (status_of s i) (decisions_of s i)) \<and>
     (\<forall>n i. as_waiters s n = Some (i, Returned StGranted) \<longrightarrow> decisions_of s i = [StGranted])"
  by (simp add: approval_inv_def ok_for_def)

lemma initial_inv: "approval_inv initial_system"
  by (simp add: approval_inv_def initial_system_def decisions_of_def status_of_def)

text \<open>A change of the table that leaves the log alone keeps the invariant, if the statuses only move from
  nothing to pending or from anything but nothing to timed out.\<close>

lemma table_change_inv:
  assumes "approval_inv s"
    and "\<And>i. map_option aq_status (reqs' i) = status_of s i \<or>
          status_of s i = None \<and> map_option aq_status (reqs' i) = Some StPending \<or>
          map_option aq_status (reqs' i) = Some StTimedOut"
    and "\<And>n i. ws' n = Some (i, Returned StGranted) \<Longrightarrow>
          as_waiters s n = Some (i, Returned StGranted) \<or> status_of s i = Some StGranted"
  shows "approval_inv (s\<lparr>as_requests := reqs', as_waiters := ws'\<rparr>)"
proof -
  have d: "decisions_of (s\<lparr>as_requests := reqs', as_waiters := ws'\<rparr>) i = decisions_of s i" for i
    by (simp add: decisions_of_def)
  have o: "ok_for (map_option aq_status (reqs' i)) (decisions_of s i)" for i
  proof -
    have "ok_for (status_of s i) (decisions_of s i)" using assms(1) by (simp add: approval_inv_alt)
    with assms(2) [of i] show ?thesis by (auto simp: ok_for_def)
  qed
  have "decisions_of s i = [StGranted]" if "ws' n = Some (i, Returned StGranted)" for n i
    using assms(1) assms(3) [OF that] by (auto simp: approval_inv_alt ok_for_def)
  with o show ?thesis by (simp add: approval_inv_alt d) (simp add: status_of_def)
qed

lemma decide_inv:
  assumes "approval_inv s" "st \<in> {StGranted, StDenied}"
  shows "approval_inv (log_decision s i st (decide st (as_requests s) i))"
proof (cases "\<exists>req. as_requests s i = Some req \<and> aq_status req = StPending")
  case True
  then obtain req where r: "as_requests s i = Some req" "aq_status req = StPending" by blast
  let ?s = "log_decision s i st (decide st (as_requests s) i)"
  have none: "decisions_of s i = []" using assms(1) r by (auto simp: approval_inv_def status_of_def)
  have d: "decisions_of ?s j = (if j = i then [st] else decisions_of s j)" for j
    using r none by (simp add: log_decision_def decide_def decisions_of_def)
  have t: "status_of ?s j = (if j = i then Some st else status_of s j)" for j
    using r by (simp add: log_decision_def decide_def status_of_def)
  have w: "as_waiters ?s = as_waiters s" by (simp add: log_decision_def)
  have "as_waiters s n \<noteq> Some (i, Returned StGranted)" for n
    using assms(1) none by (auto simp: approval_inv_def)
  then show ?thesis
    using assms by (auto simp: approval_inv_alt d t w ok_for_def)
next
  case False
  then have "decide st (as_requests s) i = (Err (case as_requests s i of None \<Rightarrow> ApprovalNotFound i
      | Some req \<Rightarrow> ApprovalAlready i (aq_status req)), as_requests s)"
    by (auto simp: decide_def split: option.splits)
  with assms(1) show ?thesis by (simp add: log_decision_def)
qed

lemma step_inv:
  assumes "approval_inv s" "approval_step s s'"
  shows "approval_inv s'"
  using assms(2)
proof cases
  case (request uuid now t a tool sm r)
  then have "approval_inv (s\<lparr>as_requests := request_approval (as_requests s) uuid now t a tool sm r, as_waiters := as_waiters s\<rparr>)"
    by (intro table_change_inv [OF assms(1)]) (auto simp: request_approval_def status_of_def)
  with request show ?thesis by simp
next
  case (granting i)
  then show ?thesis using decide_inv [OF assms(1)] by (simp add: grant_def)
next
  case (denying i)
  then show ?thesis using decide_inv [OF assms(1)] by (simp add: deny_def)
next
  case (wait_start n i)
  then have "approval_inv (s\<lparr>as_requests := as_requests s, as_waiters := (as_waiters s)(n \<mapsto> (i, Checking))\<rparr>)"
    by (intro table_change_inv [OF assms(1)]) (auto simp: status_of_def split: if_splits)
  with wait_start show ?thesis by simp
next
  case (checked_final n i st)
  then have "approval_inv (s\<lparr>as_requests := as_requests s, as_waiters := (as_waiters s)(n \<mapsto> (i, Returned st))\<rparr>)"
    by (intro table_change_inv [OF assms(1)]) (auto simp: status_of_def wait_check_def split: if_splits option.splits)
  with checked_final show ?thesis by simp
next
  case (checked_pending n i)
  then have "approval_inv (s\<lparr>as_requests := as_requests s, as_waiters := (as_waiters s)(n \<mapsto> (i, Waiting))\<rparr>)"
    by (intro table_change_inv [OF assms(1)]) (auto simp: status_of_def split: if_splits)
  with checked_pending show ?thesis by simp
next
  case (no_time n i st reqs')
  then show ?thesis
    by simp (intro table_change_inv [OF assms(1)]; auto simp: status_of_def wait_no_time_left_def split: if_splits option.splits)
next
  case (interrupted n i st reqs')
  then show ?thesis
    by simp (intro table_change_inv [OF assms(1)]; auto simp: status_of_def wait_interrupted_def split: if_splits option.splits)
next
  case (notified n i)
  then have "approval_inv (s\<lparr>as_requests := as_requests s, as_waiters := (as_waiters s)(n \<mapsto> (i, Checking))\<rparr>)"
    by (intro table_change_inv [OF assms(1)]) (auto simp: status_of_def split: if_splits)
  with notified show ?thesis by simp
qed

lemma reachable_inv: "approval_reachable s \<Longrightarrow> approval_inv s"
  by (induction rule: rtranclp_induct) (auto intro: initial_inv step_inv)

section \<open>Properties\<close>

text \<open>C24: Over every interleaving of requests, decisions and waiting callers, at most one decision on an
  approval succeeds, and a caller that is told the approval was granted is right: a grant succeeded
  and no denial ever did.\<close>

theorem granted_means_granted:
  assumes "approval_reachable s"
  shows "length (decisions_of s i) \<le> 1 \<and>
    (as_waiters s n = Some (i, Returned StGranted) \<longrightarrow> decisions_of s i = [StGranted])"
  using reachable_inv [OF assms] by (auto simp: approval_inv_def)

text \<open>The run of the witness and of the race below: a request, a waiter that has checked it, a grant.\<close>

definition race_requests :: requests where
  "race_requests = request_approval Map.empty ''A1'' 0 ''T1'' ''bob'' ''apply_patch'' ''patch'' HighRisk"

definition granted_system :: "waiter_phase \<Rightarrow> approval_system" where
  "granted_system ph =
     \<lparr>as_requests = snd (grant race_requests ''A1''), as_waiters = [0 \<mapsto> (''A1'', ph)],
      as_decisions = [(''A1'', StGranted)]\<rparr>"

lemma pending_reachable:
  "approval_reachable \<lparr>as_requests = race_requests, as_waiters = [0 \<mapsto> (''A1'', Waiting)], as_decisions = []\<rparr>"
proof -
  let ?s1 = "\<lparr>as_requests = race_requests, as_waiters = Map.empty, as_decisions = []\<rparr>"
  let ?s2 = "\<lparr>as_requests = race_requests, as_waiters = [0 \<mapsto> (''A1'', Checking)], as_decisions = []\<rparr>"
  have "approval_step initial_system ?s1"
    using approval_step.request [of initial_system "''A1''" 0 "''T1''" "''bob''" "''apply_patch''" "''patch''" HighRisk]
    by (simp add: initial_system_def race_requests_def)
  moreover have "approval_step ?s1 ?s2" using approval_step.wait_start [of ?s1 0 "''A1''"] by simp
  moreover have "approval_step ?s2 \<lparr>as_requests = race_requests, as_waiters = [0 \<mapsto> (''A1'', Waiting)], as_decisions = []\<rparr>"
    using approval_step.checked_pending [of ?s2 0 "''A1''"]
    by (simp add: wait_check_def race_requests_def request_approval_def)
  ultimately show ?thesis by (meson converse_rtranclp_into_rtranclp rtranclp.rtrancl_refl)
qed

lemma granted_reachable: "approval_reachable (granted_system Waiting)"
proof -
  let ?s = "\<lparr>as_requests = race_requests, as_waiters = [0 \<mapsto> (''A1'', Waiting)], as_decisions = []\<rparr>"
  have "approval_step ?s (granted_system Waiting)"
    using approval_step.granting [of ?s "''A1''"]
    by (simp add: granted_system_def log_decision_def grant_def decide_def race_requests_def request_approval_def)
  with pending_reachable show ?thesis by (rule rtranclp.rtrancl_into_rtrancl)
qed

theorem granted_means_granted_witness:
  "decisions_of (granted_system (Returned StGranted)) ''A1'' = [StGranted]"
proof -
  have "approval_step (granted_system Waiting) (granted_system Checking)"
    using approval_step.notified [of "granted_system Waiting" 0 "''A1''"] by (simp add: granted_system_def)
  moreover have "approval_step (granted_system Checking) (granted_system (Returned StGranted))"
    using approval_step.checked_final [of "granted_system Checking" 0 "''A1''" StGranted]
    by (simp add: granted_system_def wait_check_def grant_def decide_def race_requests_def request_approval_def)
  ultimately have "approval_reachable (granted_system (Returned StGranted))"
    using granted_reachable by (meson rtranclp.rtrancl_into_rtrancl)
  from granted_means_granted [OF this, of "''A1''" 0] show ?thesis by (simp add: granted_system_def)
qed

text \<open>A grant can be lost: there is a reachable state in which granting the approval has returned
  success, its status is timed out all the same, and the waiting caller was told so. The branch that
  handles an elapsed timeout writes the status without looking at it again.\<close>

theorem grant_overwritten_by_timeout:
  "\<exists>s. approval_reachable s \<and> decisions_of s ''A1'' = [StGranted] \<and> status_of s ''A1'' = Some StTimedOut \<and>
     as_waiters s 0 = Some (''A1'', Returned StTimedOut)"
proof -
  let ?r = "snd (wait_no_time_left (as_requests (granted_system Waiting)) ''A1'')"
  let ?s = "(granted_system Waiting)\<lparr>as_requests := ?r, as_waiters := [0 \<mapsto> (''A1'', Returned StTimedOut)]\<rparr>"
  have "approval_step (granted_system Waiting) ?s"
    using approval_step.no_time [of "granted_system Waiting" 0 "''A1''" StTimedOut ?r]
    by (simp add: granted_system_def wait_no_time_left_def)
  with granted_reachable have "approval_reachable ?s" by (rule rtranclp.rtrancl_into_rtrancl)
  then show ?thesis
    by (intro exI [where x = ?s]) (simp add: granted_system_def decisions_of_def status_of_def wait_no_time_left_def grant_def
        decide_def race_requests_def request_approval_def)
qed

end
