(* ===== verification/Redaction.thy ===== *)
theory Redaction
  imports Policy_Rules
begin

text \<open>
  Secrets in tool arguments and outputs: \<^verbatim>\<open>policy/secrets.rs\<close>, \<^verbatim>\<open>policy/output_scan.rs\<close> and the string
  redaction of \<^verbatim>\<open>telemetry/redact.rs\<close>. A JSON value is a datatype whose objects list their members
  in the order of the map. The regular-expression engine and the floating-point entropy test are
  parameters: \<open>regex_find\<close> gives the leftmost match of a pattern, \<open>replace_all\<close> the text with every
  match replaced, \<open>high_entropy\<close> the verdict on one token.
\<close>

section \<open>Definitions\<close>

datatype json = JNull | JBool bool | JNumber string | JString string | JArray "json list" | JObject "(string \<times> json) list"

record secret_scanner =
  regex_find :: "string \<Rightarrow> string \<Rightarrow> string option"
  replace_all :: "string \<Rightarrow> string \<Rightarrow> string"
  high_entropy :: "string \<Rightarrow> bool"

text \<open>\<^verbatim>\<open>args.get(key).and_then(Value::as_str)\<close>.\<close>

definition get_str :: "json \<Rightarrow> string \<Rightarrow> string option" where
  "get_str v key =
     (case v of
        JObject members \<Rightarrow> (case map_of members key of Some (JString s) \<Rightarrow> Some s | _ \<Rightarrow> None)
      | _ \<Rightarrow> None)"

text \<open>The pattern tables, in the order the code tries them.\<close>

abbreviation BS :: char where "BS \<equiv> CHR 0x5C"

definition NEVER_EXPOSE_PATTERNS :: "string list" where
  "NEVER_EXPOSE_PATTERNS =
     [''sk-[A-Za-z0-9'' @ [BS] @ ''-_]{20,}'',
      ''ghp_[A-Za-z0-9]{36}'',
      ''github_pat_[A-Za-z0-9_]{82}'',
      ''AKIA[0-9A-Z]{16}'',
      ''-----BEGIN'' @ [BS] @ ''s+(?:RSA |EC |OPENSSH )?PRIVATE KEY-----'',
      ''(?i)(password|secret|token|api_key|auth_key|private_key)'' @ [BS] @ ''s*[:=]'' @ [BS] @ ''s*['' @ [CHR 0x22, CHR 0x27] @ '']?[A-Za-z0-9+/'' @ [BS] @ ''-_]{8,}'']"

definition SECRET_PATTERNS :: "string list" where
  "SECRET_PATTERNS =
     [''sk-[A-Za-z0-9'' @ [BS] @ ''-_]{20,}'',
      ''ghp_[A-Za-z0-9]{36}'',
      ''github_pat_[A-Za-z0-9_]{82}'',
      ''AKIA[0-9A-Z]{16}'',
      ''(?i)(password|secret|token|api_key|auth|private_key)'' @ [BS] @ ''s*[:=]'' @ [BS] @ ''s*['' @ [CHR 0x22, CHR 0x27] @ '']?[A-Za-z0-9+/'' @ [BS] @ ''-_]{8,}'',
      ''-----BEGIN'' @ [BS] @ ''s+(?:RSA |EC |OPENSSH )?PRIVATE KEY-----'',
      ''(?i)bearer'' @ [BS] @ ''s+[A-Za-z0-9+/'' @ [BS] @ ''-_=]{20,}'']"

text \<open>\<^verbatim>\<open>split_whitespace\<close> and the trimming of attached punctuation; \<^verbatim>\<open>is_alphanumeric\<close> on these code
  points.\<close>

definition is_alphanumeric :: "char \<Rightarrow> bool" where
  "is_alphanumeric c \<longleftrightarrow>
     (let n = of_char c :: nat in
      48 \<le> n \<and> n \<le> 57 \<or> 65 \<le> n \<and> n \<le> 90 \<or> 97 \<le> n \<and> n \<le> 122 \<or>
      n \<in> {170, 178, 179, 181, 185, 186, 188, 189, 190} \<or> 192 \<le> n \<and> n \<noteq> 215 \<and> n \<noteq> 247)"

fun split_words :: "string \<Rightarrow> string \<Rightarrow> string list" where
  "split_words w [] = (if w = [] then [] else [w])"
| "split_words w (c # s) =
     (if is_whitespace c then (if w = [] then split_words [] s else w # split_words [] s)
      else split_words (w @ [c]) s)"

definition split_whitespace :: "string \<Rightarrow> string list" where
  "split_whitespace s = split_words [] s"

definition is_attached :: "char \<Rightarrow> bool" where
  "is_attached c \<longleftrightarrow> \<not> is_alphanumeric c \<and> c \<noteq> CHR ''+'' \<and> c \<noteq> CHR ''/''"

definition trim_token :: "string \<Rightarrow> string" where
  "trim_token w = rev (dropWhile is_attached (rev (dropWhile is_attached w)))"

text \<open>\<^verbatim>\<open>str::len\<close>: bytes of the UTF-8 encoding.\<close>

definition byte_len :: "string \<Rightarrow> nat" where
  "byte_len s = sum_list (map (\<lambda>c. if (of_char c :: nat) < 128 then 1 else 2) s)"

definition suspicious_token :: "secret_scanner \<Rightarrow> string \<Rightarrow> bool" where
  "suspicious_token sc token \<longleftrightarrow> 20 \<le> byte_len token \<and> high_entropy sc token"

definition preview :: "string \<Rightarrow> string" where
  "preview matched = take 4 matched @ ''...''"

text \<open>\<^verbatim>\<open>check_string\<close>: patterns first, then high-entropy words.\<close>

definition find_secret :: "secret_scanner \<Rightarrow> string list \<Rightarrow> string \<Rightarrow> string option" where
  "find_secret sc pats s =
     (case List.map_filter (\<lambda>p. regex_find sc p s) pats of
        m # _ \<Rightarrow> Some m
      | [] \<Rightarrow>
          (case filter (suspicious_token sc) (map trim_token (split_whitespace s)) of
             t # _ \<Rightarrow> Some t
           | [] \<Rightarrow> None))"

definition check_string :: "secret_scanner \<Rightarrow> string \<Rightarrow> string \<Rightarrow> (unit, policy_violation) result" where
  "check_string sc s path =
     (case find_secret sc NEVER_EXPOSE_PATTERNS s of
        Some matched \<Rightarrow> Err (SecretDetected path (preview matched))
      | None \<Rightarrow> Ok ())"

fun scan_value :: "secret_scanner \<Rightarrow> json \<Rightarrow> string \<Rightarrow> (unit, policy_violation) result"
  and scan_members :: "secret_scanner \<Rightarrow> (string \<times> json) list \<Rightarrow> string \<Rightarrow> (unit, policy_violation) result"
  and scan_items :: "secret_scanner \<Rightarrow> nat \<Rightarrow> json list \<Rightarrow> string \<Rightarrow> (unit, policy_violation) result" where
  "scan_value sc (JString s) path = check_string sc s path"
| "scan_value sc (JObject members) path = scan_members sc members path"
| "scan_value sc (JArray items) path = scan_items sc 0 items path"
| "scan_value sc v path = Ok ()"
| "scan_members sc [] path = Ok ()"
| "scan_members sc ((key, val) # rest) path =
     and_then (scan_value sc val (path @ ''.'' @ key)) (\<lambda>_. scan_members sc rest path)"
| "scan_items sc i [] path = Ok ()"
| "scan_items sc i (val # rest) path =
     and_then (scan_value sc val (path @ ''['' @ show_nat i @ '']'')) (\<lambda>_. scan_items sc (i + 1) rest path)"

definition check_tool_args :: "secret_scanner \<Rightarrow> json \<Rightarrow> (unit, policy_violation) result" where
  "check_tool_args sc args = scan_value sc args ''args''"

text \<open>\<^verbatim>\<open>redact_str\<close>: every pattern in turn, then every high-entropy word of the result of that.
  \<^verbatim>\<open>str::replace\<close> with a non-empty pattern scans from the left.\<close>

function replace_str :: "string \<Rightarrow> string \<Rightarrow> string \<Rightarrow> string" where
  "replace_str p r s =
     (if p = [] then s
      else case s of
          [] \<Rightarrow> []
        | c # s' \<Rightarrow> if prefix p s then r @ replace_str p r (drop (length p) s) else c # replace_str p r s')"
  by pat_completeness auto
termination
  by (relation "measure (\<lambda>(p, r, s). length s)") auto

declare replace_str.simps [simp del]

abbreviation REDACTED :: string where "REDACTED \<equiv> ''[REDACTED]''"

definition redact_patterns :: "secret_scanner \<Rightarrow> string \<Rightarrow> string \<times> bool" where
  "redact_patterns sc input =
     foldl (\<lambda>(result, changed) pat.
         if regex_find sc pat result \<noteq> None then (replace_all sc pat result, True) else (result, changed))
       (input, False) SECRET_PATTERNS"

definition redact_words :: "secret_scanner \<Rightarrow> string \<Rightarrow> string \<times> bool" where
  "redact_words sc input =
     foldl (\<lambda>(rebuilt, changed) word.
         let token = trim_token word
         in if suspicious_token sc token then (replace_str token REDACTED rebuilt, True) else (rebuilt, changed))
       (input, False) (split_whitespace input)"

definition redact_str :: "secret_scanner \<Rightarrow> string \<Rightarrow> string \<times> bool" where
  "redact_str sc input =
     (case redact_patterns sc input of
        (result, changed) \<Rightarrow> (case redact_words sc result of (rebuilt, changed') \<Rightarrow> (rebuilt, changed \<or> changed')))"

definition scan_log_output :: "secret_scanner \<Rightarrow> string \<Rightarrow> string" where
  "scan_log_output sc text = fst (redact_str sc text)"

definition SENSITIVE_KEYS :: "string list" where
  "SENSITIVE_KEYS =
     [''password'', ''passwd'', ''secret'', ''token'', ''api_key'', ''apikey'', ''access_key'',
      ''private_key'', ''authorization'', ''credential'']"

definition MCP_ERROR_PREFIXES :: "string list" where
  "MCP_ERROR_PREFIXES =
     [''MCP_INVALID_PARAMS:'', ''MCP_UNKNOWN_ENTITY:'', ''MCP_POLICY_DENIED:'',
      ''MCP_SUPPLY_CHAIN_DENIED:'', ''MCP_PROVIDER_NOT_AVAILABLE:'']"

abbreviation KEY_MARK :: string where "KEY_MARK \<equiv> ''PRIVATE KEY-----''"

fun redact_with_prefixes :: "secret_scanner \<Rightarrow> string list \<Rightarrow> string \<Rightarrow> string" where
  "redact_with_prefixes sc [] text =
     (if contains text KEY_MARK then ''[REDACTED: private key]'' else scan_log_output sc text)"
| "redact_with_prefixes sc (p # ps) text =
     (case strip_prefix text p of
        Some detail \<Rightarrow>
          if contains detail KEY_MARK then p @ '' [REDACTED: private key]'' else p @ scan_log_output sc detail
      | None \<Rightarrow> redact_with_prefixes sc ps text)"

definition redact_preserving_mcp_prefix :: "secret_scanner \<Rightarrow> string \<Rightarrow> string" where
  "redact_preserving_mcp_prefix sc text = redact_with_prefixes sc MCP_ERROR_PREFIXES text"

definition redact_leaf :: "secret_scanner \<Rightarrow> string \<Rightarrow> string" where
  "redact_leaf sc s = redact_preserving_mcp_prefix sc s"

definition scan_error_output :: "secret_scanner \<Rightarrow> string \<Rightarrow> string" where
  "scan_error_output sc text = redact_preserving_mcp_prefix sc text"

definition sensitive_key :: "string \<Rightarrow> bool" where
  "sensitive_key k \<longleftrightarrow> list_ex (contains (lowercase k)) SENSITIVE_KEYS"

fun redact_value :: "secret_scanner \<Rightarrow> json \<Rightarrow> json" where
  "redact_value sc (JString s) = JString (redact_leaf sc s)"
| "redact_value sc (JArray items) = JArray (map (redact_value sc) items)"
| "redact_value sc (JObject members) =
     JObject (map (\<lambda>(k, v). (k, case v of
         JString _ \<Rightarrow> if sensitive_key k then JString REDACTED else redact_value sc v
       | _ \<Rightarrow> redact_value sc v)) members)"
| "redact_value sc v = v"

section \<open>The strings of a value\<close>

text \<open>The string leaves of a value, each with the object key it stands under directly.\<close>

fun leaves :: "string option \<Rightarrow> json \<Rightarrow> (string option \<times> string) list" where
  "leaves k (JString s) = [(k, s)]"
| "leaves k (JArray items) = concat (map (leaves None) items)"
| "leaves k (JObject members) = concat (map (\<lambda>(k, v). leaves (Some k) v) members)"
| "leaves k v = []"

text \<open>The value without its strings.\<close>

fun skeleton :: "json \<Rightarrow> json" where
  "skeleton (JString s) = JString []"
| "skeleton (JArray items) = JArray (map skeleton items)"
| "skeleton (JObject members) = JObject (map (\<lambda>(k, v). (k, skeleton v)) members)"
| "skeleton v = v"

definition redact_pair :: "secret_scanner \<Rightarrow> string option \<times> string \<Rightarrow> string option \<times> string" where
  "redact_pair sc ks =
     (case ks of (k, s) \<Rightarrow> (k, if (\<exists>key. k = Some key \<and> sensitive_key key) then REDACTED else redact_leaf sc s))"

section \<open>Lemmas\<close>

lemma contains_sublist: "contains s p \<longleftrightarrow> sublist p s"
proof (induction s)
  case (Cons c s)
  then show ?case by (auto simp: sublist_Cons_right)
qed simp

lemma sublist_across:
  assumes "sublist m (q @ c # d)" "c \<notin> set m"
  shows "sublist m q \<or> sublist m d"
proof -
  from assms(1) consider "sublist m q" | "sublist m (c # d)" | xs1 xs2 where "m = xs1 @ xs2" "suffix xs1 q" "prefix xs2 (c # d)"
    unfolding sublist_append by blast
  then show ?thesis
  proof cases
    case 2
    with assms(2) show ?thesis by (cases m) (auto simp: sublist_Cons_right)
  next
    case 3
    with assms(2) show ?thesis by (cases xs2) (auto intro: suffix_imp_sublist)
  qed simp
qed

definition fixed_key_texts :: "string set" where
  "fixed_key_texts = insert ''[REDACTED: private key]'' ((\<lambda>p. p @ '' [REDACTED: private key]'') ` set MCP_ERROR_PREFIXES)"

lemma prefix_detail_has_key:
  assumes "p \<in> set MCP_ERROR_PREFIXES" "contains (p @ d) KEY_MARK"
  shows "contains d KEY_MARK"
proof -
  obtain q where q: "p = q @ '':''" "CHR '' '' \<notin> set q"
  proof
    show "p = butlast p @ '':''" "CHR '' '' \<notin> set (butlast p)"
      using assms(1) by (auto simp: MCP_ERROR_PREFIXES_def)
  qed
  from assms(2) q(1) have "sublist KEY_MARK (q @ CHR '':'' # d)" by (simp add: contains_sublist)
  then have "sublist KEY_MARK q \<or> sublist KEY_MARK d" by (rule sublist_across) simp
  moreover have "\<not> sublist KEY_MARK q" using q(2) set_mono_sublist [of KEY_MARK q] by auto
  ultimately show ?thesis by (simp add: contains_sublist)
qed

lemma redact_with_prefixes_key:
  assumes "set ps \<subseteq> set MCP_ERROR_PREFIXES" "contains s KEY_MARK"
  shows "redact_with_prefixes sc ps s \<in> fixed_key_texts"
  using assms(1)
proof (induction ps)
  case (Cons p ps)
  show ?case
  proof (cases "prefix p s")
    case True
    then obtain d where d: "s = p @ d" by (auto simp: prefix_def)
    moreover have "contains d KEY_MARK" using prefix_detail_has_key [of p d] Cons.prems assms(2) d by simp
    ultimately show ?thesis using Cons.prems by (auto simp: strip_prefix_def fixed_key_texts_def)
  next
    case False
    then show ?thesis using Cons by (simp add: strip_prefix_def)
  qed
qed (use assms(2) in \<open>simp add: fixed_key_texts_def\<close>)

lemma redact_leaf_key: "contains s KEY_MARK \<Longrightarrow> redact_leaf sc s \<in> fixed_key_texts"
  by (simp add: redact_leaf_def redact_preserving_mcp_prefix_def redact_with_prefixes_key)

lemma redact_member:
  "(case v of JString _ \<Rightarrow> if sensitive_key k then JString REDACTED else redact_value sc v | _ \<Rightarrow> redact_value sc v) =
     (if sensitive_key k \<and> (\<exists>s. v = JString s) then JString REDACTED else redact_value sc v)"
  by (cases v) auto

lemma leaves_redact:
  "leaves k (redact_value sc v) =
     (case v of JString s \<Rightarrow> [(k, redact_leaf sc s)] | _ \<Rightarrow> map (redact_pair sc) (leaves k v))"
proof (induction v arbitrary: k)
  case (JArray items)
  have "leaves None (redact_value sc v) = map (redact_pair sc) (leaves None v)" if "v \<in> set items" for v
    using JArray [OF that, of None] by (cases v) (simp_all add: redact_pair_def)
  then show ?case by (simp add: map_concat o_def cong: map_cong)
next
  case (JObject members)
  have "leaves (Some m) (if sensitive_key m \<and> (\<exists>s. v = JString s) then JString REDACTED else redact_value sc v) =
      map (redact_pair sc) (leaves (Some m) v)" if "(m, v) \<in> set members" for m v
  proof -
    have "leaves (Some m) (redact_value sc v) =
        (case v of JString s \<Rightarrow> [(Some m, redact_leaf sc s)] | _ \<Rightarrow> map (redact_pair sc) (leaves (Some m) v))"
      using JObject [of "(m, v)" v "Some m"] that by (simp add: snds.simps)
    then show ?thesis by (cases v) (simp_all add: redact_pair_def)
  qed
  then show ?case
    by (auto simp: redact_member map_concat intro!: arg_cong [where f = concat] map_cong)
qed simp_all

lemma leaves_None_redact: "leaves None (redact_value sc v) = map (redact_pair sc) (leaves None v)"
  by (subst leaves_redact) (simp add: redact_pair_def split: json.split)

lemma skeleton_redact: "skeleton (redact_value sc v) = skeleton v"
proof (induction v)
  case (JObject members)
  have "skeleton (if sensitive_key m \<and> (\<exists>s. v = JString s) then JString REDACTED else redact_value sc v) = skeleton v"
    if "(m, v) \<in> set members" for m v
    using JObject [of "(m, v)" v] that by (auto simp: snds.simps)
  then show ?case by (auto simp: redact_member)
qed simp_all

lemma prefixes_apart: "\<forall>p \<in> set MCP_ERROR_PREFIXES. \<forall>q \<in> set MCP_ERROR_PREFIXES. prefix q p \<longrightarrow> q = p"
  by (simp add: MCP_ERROR_PREFIXES_def)

lemma scan_error_keeps_prefix:
  assumes "p \<in> set MCP_ERROR_PREFIXES" "starts_with msg p"
  shows "starts_with (scan_error_output sc msg) p"
proof -
  have run: "starts_with (redact_with_prefixes sc ps msg) p"
    if "p \<in> set ps" "\<forall>q \<in> set ps. prefix q msg \<longrightarrow> q = p" for ps
    using that
  proof (induction ps)
    case (Cons q ps)
    show ?case
    proof (cases "prefix q msg")
      case True
      with Cons.prems(2) have "q = p" by simp
      with True show ?thesis by (simp add: strip_prefix_def starts_with_def)
    next
      case False
      with assms(2) have "q \<noteq> p" by (auto simp: starts_with_def)
      with Cons False show ?thesis by (simp add: strip_prefix_def)
    qed
  qed simp
  have "\<forall>q \<in> set MCP_ERROR_PREFIXES. prefix q msg \<longrightarrow> q = p"
  proof (intro ballI impI)
    fix q assume "q \<in> set MCP_ERROR_PREFIXES" "prefix q msg"
    moreover have "prefix q p \<or> prefix p q"
      using \<open>prefix q msg\<close> assms(2) [unfolded starts_with_def] prefix_same_cases by blast
    ultimately show "q = p" using assms(1) prefixes_apart by blast
  qed
  then show ?thesis
    unfolding scan_error_output_def redact_preserving_mcp_prefix_def by (rule run [OF assms(1)])
qed

section \<open>Properties\<close>

text \<open>Redaction of a tool result keeps its shape and treats every string leaf by one rule: a string
  directly under a sensitive key becomes the fixed marker, every other string is redacted on its
  own, and a string that holds a private key is replaced by a fixed text.\<close>

theorem redact_value_leafwise:
  "skeleton (redact_value sc v) = skeleton v \<and>
   leaves None (redact_value sc v) = map (redact_pair sc) (leaves None v) \<and>
   (\<forall>k s. contains s KEY_MARK \<longrightarrow> snd (redact_pair sc (k, s)) \<in> insert REDACTED fixed_key_texts)"
proof (intro conjI allI impI)
  show "skeleton (redact_value sc v) = skeleton v" by (rule skeleton_redact)
  show "leaves None (redact_value sc v) = map (redact_pair sc) (leaves None v)" by (rule leaves_None_redact)
  show "snd (redact_pair sc (k, s)) \<in> insert REDACTED fixed_key_texts" if "contains s KEY_MARK" for k s
    using redact_leaf_key [OF that] by (simp add: redact_pair_def)
qed

theorem redact_value_leafwise_witness:
  "leaves None (redact_value \<lparr>regex_find = \<lambda>p s. None, replace_all = \<lambda>p s. s, high_entropy = \<lambda>s. False\<rparr>
     (JObject [(''password'', JString ''hunter2''), (''log'', JString ''x PRIVATE KEY----- y'')])) =
   [(Some ''password'', ''[REDACTED]''), (Some ''log'', ''[REDACTED: private key]'')]"
proof -
  let ?sc = "\<lparr>regex_find = \<lambda>p s. None, replace_all = \<lambda>p s. s, high_entropy = \<lambda>s. False\<rparr>"
  let ?v = "JObject [(''password'', JString ''hunter2''), (''log'', JString ''x PRIVATE KEY----- y'')]"
  have "leaves None (redact_value ?sc ?v) = map (redact_pair ?sc) (leaves None ?v)"
    using redact_value_leafwise [of ?sc ?v] by simp
  then show ?thesis
    by (simp add: redact_pair_def sensitive_key_def SENSITIVE_KEYS_def lowercase_def lower_char_def
        redact_leaf_def redact_preserving_mcp_prefix_def MCP_ERROR_PREFIXES_def strip_prefix_def)
qed

end
