(* ===== verification/Patch_Scanner.thy ===== *)
theory Patch_Scanner
  imports Redaction
begin

text \<open>
  Scanners for patches: the placeholder scanner (\<^verbatim>\<open>evals/scanners/placeholders.rs\<close> and
  \<^verbatim>\<open>policy/scanners.rs\<close>), the secrets scanner (\<^verbatim>\<open>evals/scanners/secrets.rs\<close>, \<^verbatim>\<open>scan_patch_output\<close> of
  \<^verbatim>\<open>policy/output_scan.rs\<close>) and the definition-of-done check (\<^verbatim>\<open>policy/dod.rs\<close>). Both scanners walk a
  unified diff in the same way, so the walk is one definition with the check of a line as argument.
\<close>

section \<open>Walking a diff\<close>

text \<open>\<^verbatim>\<open>line.split('+').nth(1)\<close>, cut at the first comma or blank, parsed.\<close>

definition hunk_start :: "string \<Rightarrow> nat option" where
  "hunk_start line =
     (case split_char (CHR ''+'') line of
        _ # plus_part # _ \<Rightarrow>
          Some (case parse_u64 (takeWhile (\<lambda>c. c \<noteq> CHR '','' \<and> c \<noteq> CHR '' '') plus_part) of Some n \<Rightarrow> n | None \<Rightarrow> 0)
      | _ \<Rightarrow> None)"

text \<open>\<^verbatim>\<open>line_num += 1\<close> on a \<^verbatim>\<open>usize\<close>.\<close>

definition next_line :: "nat \<Rightarrow> nat" where
  "next_line n = (n + 1) mod 2 ^ 64"

type_synonym 'v line_check = "string \<Rightarrow> string \<Rightarrow> nat \<Rightarrow> 'v option"

fun scan_lines :: "'v line_check \<Rightarrow> string \<Rightarrow> nat \<Rightarrow> string list \<Rightarrow> 'v list" where
  "scan_lines check current_file line_num [] = []"
| "scan_lines check current_file line_num (line # rest) =
     (if starts_with line ''+++ b/'' \<or> starts_with line ''+++ ''
      then scan_lines check (trim_start_matches ''+++ '' (trim_start_matches ''+++ b/'' line)) 0 rest
      else if starts_with line ''@@''
      then scan_lines check current_file (case hunk_start line of Some n \<Rightarrow> n | None \<Rightarrow> line_num) rest
      else if starts_with line ''+'' \<and> \<not> starts_with line ''+++''
      then (case check (drop 1 line) current_file (next_line line_num) of
              Some v \<Rightarrow> v # scan_lines check current_file (next_line line_num) rest
            | None \<Rightarrow> scan_lines check current_file (next_line line_num) rest)
      else if starts_with line '' '' then scan_lines check current_file (next_line line_num) rest
      else scan_lines check current_file line_num rest)"

definition scan_diff :: "'v line_check \<Rightarrow> string \<Rightarrow> 'v list" where
  "scan_diff check patch = scan_lines check [] 0 (lines patch)"

section \<open>Placeholders\<close>

definition PLACEHOLDER_PATTERNS :: "string list" where
  "PLACEHOLDER_PATTERNS =
     [''TODO'', ''FIXME'', ''STUB'', ''placeholder'', ''implement_here'', ''pass'' @ [NL], ''pass'' @ [CR, NL],
      ''unimplemented!()'', ''todo!()'', ''NotImplementedError'',
      ''throw new Error('' @ quoted ''not implemented'' @ '')'',
      ''throw new Error('' @ [CHR 0x22] @ ''not implemented'' @ [CHR 0x22] @ '')'',
      ''raise NotImplementedError'']"

record placeholder_violation =
  pv_file :: string
  pv_line :: nat
  pv_pattern :: string
  pv_context :: string

definition check_placeholder :: "placeholder_violation line_check" where
  "check_placeholder content f line =
     map_option (\<lambda>p. \<lparr>pv_file = f, pv_line = line, pv_pattern = p, pv_context = content\<rparr>)
       (find (contains content) PLACEHOLDER_PATTERNS)"

definition scan_placeholders :: "string \<Rightarrow> placeholder_violation list" where
  "scan_placeholders patch = scan_diff check_placeholder patch"

definition scan_content :: "string \<Rightarrow> string \<Rightarrow> placeholder_violation list" where
  "scan_content content file_name =
     List.map_filter (\<lambda>(idx, line). check_placeholder line file_name (idx + 1)) (enumerate 0 (lines content))"

definition check_no_placeholders :: "string \<Rightarrow> (unit, policy_violation) result" where
  "check_no_placeholders patch =
     (case scan_placeholders patch of
        first # _ \<Rightarrow> Err (PlaceholderDetected (pv_file first) (pv_line first) (pv_pattern first))
      | [] \<Rightarrow> Ok ())"

section \<open>Secrets\<close>

record secret_violation =
  sv_file :: string
  sv_line :: nat
  sv_secret_type :: string
  sv_redacted_preview :: string

definition SECRET_REGEXES :: "(string \<times> string) list" where
  "SECRET_REGEXES =
     zip [''openai_key'', ''github_token'', ''github_pat'', ''aws_key'', ''private_key'', ''generic_secret'']
       NEVER_EXPOSE_PATTERNS"

definition check_secret :: "secret_scanner \<Rightarrow> secret_violation line_check" where
  "check_secret sc content f line =
     (case List.map_filter (\<lambda>(name, re). map_option (Pair name) (regex_find sc re content)) SECRET_REGEXES of
        (name, matched) # _ \<Rightarrow>
          Some \<lparr>sv_file = f, sv_line = line, sv_secret_type = name, sv_redacted_preview = preview matched\<rparr>
      | [] \<Rightarrow>
          (case filter (suspicious_token sc) (map trim_token (split_whitespace content)) of
             token # _ \<Rightarrow>
               Some \<lparr>sv_file = f, sv_line = line, sv_secret_type = ''high_entropy'', sv_redacted_preview = preview token\<rparr>
           | [] \<Rightarrow> None))"

definition scan_secrets :: "secret_scanner \<Rightarrow> string \<Rightarrow> secret_violation list" where
  "scan_secrets sc patch = scan_diff (check_secret sc) patch"

definition scan_patch_output :: "secret_scanner \<Rightarrow> string \<Rightarrow> policy_violation list" where
  "scan_patch_output sc patch =
     map (\<lambda>v. SecretDetected (sv_file v @ '':'' @ show_nat (sv_line v))
        (''['' @ sv_secret_type v @ ''] '' @ sv_redacted_preview v)) (scan_secrets sc patch)"

section \<open>Definition of done\<close>

definition check_transition_to_cr :: "task_spec \<Rightarrow> bool \<Rightarrow> bool \<Rightarrow> string \<Rightarrow> policy_violation list" where
  "check_transition_to_cr spec test_ran tests_passing patch_content =
     (if spec_acceptance_criteria spec = [] then [NoAcceptanceCriteria] else []) @
     (case check_no_placeholders patch_content of Err v \<Rightarrow> [v] | Ok _ \<Rightarrow> []) @
     (if \<not> test_ran then [TestsNotRun] else if \<not> tests_passing then [TestsFailing] else [])"

section \<open>Reference: the lines of a hunk\<close>

text \<open>The added lines of a hunk with their numbers in the new file, as the unified format defines them:
  the first line of the hunk has the number in its header.\<close>

fun added_lines :: "nat \<Rightarrow> string list \<Rightarrow> (nat \<times> string) list" where
  "added_lines n [] = []"
| "added_lines n (line # rest) =
     (if starts_with line ''+'' then (n, drop 1 line) # added_lines (n + 1) rest
      else if starts_with line '' '' then added_lines (n + 1) rest
      else added_lines n rest)"

definition hunk_body :: "string list \<Rightarrow> bool" where
  "hunk_body body \<longleftrightarrow> list_all (\<lambda>l. \<not> starts_with l ''+++'' \<and> \<not> starts_with l ''@@'') body"

section \<open>Lemmas\<close>

lemma lines_no_newline: "l \<in> set (lines s) \<Longrightarrow> NL \<notin> set l"
proof (induction s rule: lines.induct)
  case (1 s)
  have t: "NL \<notin> set (strip_cr (takeWhile (\<lambda>c. c \<noteq> NL) s))"
    by (auto simp: strip_cr_def dest: in_set_butlastD set_takeWhileD)
  show ?case
  proof (cases "s = []")
    case False
    show ?thesis
    proof (cases "NL \<in> set s")
      case True
      from 1(2) have "l = strip_cr (takeWhile (\<lambda>c. c \<noteq> NL) s) \<or> l \<in> set (lines (tl (dropWhile (\<lambda>c. c \<noteq> NL) s)))"
        using False True by (subst (asm) lines.simps) auto
      with t 1(1) [OF False True] show ?thesis by blast
    next
      case no: False
      from 1(2) have "l = s" using False no by (subst (asm) lines.simps) auto
      with no show ?thesis by simp
    qed
  qed (use 1(2) in simp)
qed

lemma starts_plus: "starts_with l ''+++ '' \<Longrightarrow> starts_with l ''+++''" "starts_with l ''+++ b/'' \<Longrightarrow> starts_with l ''+++''"
  by (auto simp: starts_with_def prefix_def)

lemma scan_hunk:
  assumes "hunk_body body" "n + length body < 2 ^ 64"
  shows "scan_lines check f n body = List.map_filter (\<lambda>(k, c). check c f (k + 1)) (added_lines n body)"
  using assms
proof (induction body arbitrary: n)
  case (Cons l body)
  then have l: "\<not> starts_with l ''+++''" "\<not> starts_with l ''@@''" "hunk_body body" by (simp_all add: hunk_body_def)
  with starts_plus have "\<not> starts_with l ''+++ ''" "\<not> starts_with l ''+++ b/''" by blast+
  moreover have "next_line n = n + 1" using Cons.prems(2) by (simp add: next_line_def)
  ultimately show ?case
    using Cons.IH [of n] Cons.IH [of "n + 1"] Cons.prems(2) l by (simp add: List.map_filter_simps split: option.split)
qed (simp add: List.map_filter_simps)

lemma check_placeholder_pattern:
  assumes "check_placeholder l f n = Some v" "NL \<notin> set l"
  shows "pv_pattern v \<noteq> ''pass'' @ [NL] \<and> pv_pattern v \<noteq> ''pass'' @ [CR, NL]"
proof -
  from assms(1) have "contains l (pv_pattern v)" by (auto simp: check_placeholder_def find_Some_iff)
  then have "set (pv_pattern v) \<subseteq> set l" by (simp add: contains_sublist set_mono_sublist)
  with assms(2) show ?thesis by auto
qed

lemma scan_patterns:
  assumes "v \<in> set (scan_lines check_placeholder f n ls)" "\<forall>l \<in> set ls. NL \<notin> set l"
  shows "pv_pattern v \<noteq> ''pass'' @ [NL] \<and> pv_pattern v \<noteq> ''pass'' @ [CR, NL]"
proof -
  from assms show ?thesis
  proof (induction ls arbitrary: f n)
    case (Cons l rest)
    have "NL \<notin> set (drop 1 l)" using Cons.prems(2) by (auto dest: in_set_dropD)
    with Cons check_placeholder_pattern [of "drop 1 l" f "next_line n"] show ?case by (fastforce split: if_splits option.splits)
  qed simp
qed

lemma hunk_start_header:
  assumes "c < 2 ^ 64" "CHR ''+'' \<notin> set old"
  shows "hunk_start (''@@ -'' @ old @ '' +'' @ show_nat c @ '',1 @@'') = Some c"
proof -
  have plus: "CHR ''+'' \<notin> set (show_nat c)" "\<forall>x \<in> set (show_nat c). x \<noteq> CHR '','' \<and> x \<noteq> CHR '' ''"
    using show_nat_digits [of c] by (auto simp: list_all_iff is_digit_def less_eq_char_def)
  have "split_char (CHR ''+'') ((''@@ -'' @ old @ '' '') @ CHR ''+'' # (show_nat c @ '',1 @@'')) =
      [''@@ -'' @ old @ '' '', show_nat c @ '',1 @@'']"
    using assms(2) plus(1) by (subst split_char_append) (simp_all add: split_char_single)
  moreover have "takeWhile (\<lambda>x. x \<noteq> CHR '','' \<and> x \<noteq> CHR '' '') (show_nat c @ '',1 @@'') = show_nat c"
    using plus(2) by (simp add: takeWhile_append2)
  ultimately show ?thesis using parse_show_nat [OF assms(1)] by (simp add: hunk_start_def)
qed

section \<open>Properties\<close>

text \<open>The scanners find exactly the offending added lines of a hunk, but report each one line below
  its place in the new file: the number in the hunk header is already that of the first line, and
  the walk adds one before it looks at a line.\<close>

theorem scan_diff_line_numbers:
  assumes "lines patch = (''+++ b/'' @ f) # (''@@ -'' @ old @ '' +'' @ show_nat c @ '',1 @@'') # body"
    and "hunk_body body" "c + length body < 2 ^ 64" "CHR ''+'' \<notin> set old"
    and "trim_start_matches ''+++ b/'' f = f" "trim_start_matches ''+++ '' f = f"
  shows "scan_diff check patch = List.map_filter (\<lambda>(k, content). check content f (k + 1)) (added_lines c body)"
proof -
  have f: "trim_start_matches ''+++ '' (trim_start_matches ''+++ b/'' (''+++ b/'' @ f)) = f"
    using assms(5,6) by (subst (2) trim_start_matches.simps) simp
  have "c < 2 ^ 64" using assms(3) by simp
  from hunk_start_header [OF this assms(4)]
  have "hunk_start (''@@ -'' @ old @ '' +'' @ show_nat c @ '',1 @@'') = Some c" .
  then show ?thesis
    unfolding scan_diff_def assms(1)
    using f by (simp add: starts_with_def scan_hunk [OF assms(2,3)])
qed

definition sample_patch :: string where
  "sample_patch = ''+++ b/a.rs'' @ [NL] @ ''@@ -7,0 +7,1 @@'' @ [NL] @ ''+// TODO x'' @ [NL]"

lemma sample_patch_lines: "lines sample_patch = [''+++ b/a.rs'', ''@@ -7,0 +7,1 @@'', ''+// TODO x'']"
  unfolding sample_patch_def by code_simp

theorem scan_diff_line_numbers_witness:
  "map pv_line (scan_placeholders sample_patch) = [8] \<and> map fst (added_lines 7 [''+// TODO x'']) = [7]"
proof -
  have "scan_diff check_placeholder sample_patch =
      List.map_filter (\<lambda>(k, content). check_placeholder content ''a.rs'' (k + 1)) (added_lines 7 [''+// TODO x''])"
  proof (rule scan_diff_line_numbers)
    show "lines sample_patch = (''+++ b/'' @ ''a.rs'') # (''@@ -'' @ ''7,0'' @ '' +'' @ show_nat 7 @ '',1 @@'') # [''+// TODO x'']"
      by (simp add: sample_patch_lines show_nat.simps digit_chars)
    show "hunk_body [''+// TODO x'']" by (simp add: hunk_body_def starts_with_def)
    show "trim_start_matches ''+++ b/'' ''a.rs'' = ''a.rs''" "trim_start_matches ''+++ '' ''a.rs'' = ''a.rs''"
      by (subst trim_start_matches.simps, simp)+
  qed simp_all
  then show ?thesis
    by (simp add: scan_placeholders_def starts_with_def check_placeholder_def PLACEHOLDER_PATTERNS_def List.map_filter_simps)
qed

text \<open>Python's \<^verbatim>\<open>pass\<close> is never reported, in a patch or in a file: its two patterns end in a line feed,
  and a line never holds one.\<close>

theorem pass_never_reported:
  "{''pass'' @ [NL], ''pass'' @ [CR, NL]} \<inter> pv_pattern ` (set (scan_placeholders patch) \<union> set (scan_content content f)) = {}"
proof -
  have "pv_pattern v \<noteq> ''pass'' @ [NL] \<and> pv_pattern v \<noteq> ''pass'' @ [CR, NL]"
    if "v \<in> set (scan_placeholders patch)" for v
    using scan_patterns [of v "[]" 0 "lines patch"] that lines_no_newline
    by (auto simp: scan_placeholders_def scan_diff_def)
  moreover have "pv_pattern v \<noteq> ''pass'' @ [NL] \<and> pv_pattern v \<noteq> ''pass'' @ [CR, NL]"
    if v: "v \<in> set (scan_content content f)" for v
  proof -
    from v obtain i where "i < length (lines content)" "check_placeholder (lines content ! i) f (i + 1) = Some v"
      by (auto simp: scan_content_def List.map_filter_def in_set_enumerate_eq)
    then show ?thesis using check_placeholder_pattern lines_no_newline nth_mem by metis
  qed
  ultimately have "\<forall>v \<in> set (scan_placeholders patch) \<union> set (scan_content content f).
      pv_pattern v \<noteq> ''pass'' @ [NL] \<and> pv_pattern v \<noteq> ''pass'' @ [CR, NL]" by blast
  then show ?thesis unfolding disjoint_iff image_iff insert_iff empty_iff by metis
qed

text \<open>A task may go to code review exactly if it has acceptance criteria, its tests were run and pass,
  and no added line of the patch holds a placeholder; each missing condition is reported.\<close>

theorem transition_to_cr_gates:
  "set (check_transition_to_cr spec tested passing patch) =
     (if spec_acceptance_criteria spec = [] then {NoAcceptanceCriteria} else {}) \<union>
     (if \<not> tested then {TestsNotRun} else if \<not> passing then {TestsFailing} else {}) \<union>
     (case scan_placeholders patch of [] \<Rightarrow> {} | v # _ \<Rightarrow> {PlaceholderDetected (pv_file v) (pv_line v) (pv_pattern v)})"
  by (auto simp: check_transition_to_cr_def check_no_placeholders_def split: list.split)

end
