(* ===== verification/Sql_Table.thy ===== *)
theory Sql_Table
  imports Prelude
begin

text \<open>
  The SQL the daemon's storage layer uses, on tables as lists of rows in the order of their row ids:
  selection by primary key, \<^verbatim>\<open>INSERT\<close>, \<^verbatim>\<open>UPDATE ... WHERE\<close> and \<^verbatim>\<open>DELETE ... WHERE\<close> under the
  column checks, primary keys and foreign keys of a schema, \<^verbatim>\<open>COALESCE\<close> and \<^verbatim>\<open>LIMIT ... OFFSET\<close>. A statement
  that violates a constraint changes nothing.
\<close>

datatype db_error = CheckFailed string | UniqueFailed string | ForeignKeyFailed | NoSuchTable string | RowNotFound

definition select_by :: "('r \<Rightarrow> 'k) \<Rightarrow> 'r list \<Rightarrow> 'k \<Rightarrow> 'r option" where
  "select_by key rows k = find (\<lambda>r. key r = k) rows"

definition insert_row ::
  "('r \<Rightarrow> 'k) \<Rightarrow> ('r \<Rightarrow> string option) \<Rightarrow> ('r \<Rightarrow> bool) \<Rightarrow> string \<Rightarrow> 'r \<Rightarrow> 'r list \<Rightarrow> ('r list, db_error) result" where
  "insert_row key violated refs_ok table row rows =
     (case violated row of
        Some column \<Rightarrow> Err (CheckFailed column)
      | None \<Rightarrow>
          if key row \<in> key ` set rows then Err (UniqueFailed table)
          else if \<not> refs_ok row then Err ForeignKeyFailed
          else Ok (rows @ [row]))"

definition set_where :: "('r \<Rightarrow> bool) \<Rightarrow> ('r \<Rightarrow> 'r) \<Rightarrow> 'r list \<Rightarrow> 'r list" where
  "set_where p f rows = map (\<lambda>r. if p r then f r else r) rows"

definition update_where ::
  "('r \<Rightarrow> string option) \<Rightarrow> ('r \<Rightarrow> bool) \<Rightarrow> ('r \<Rightarrow> 'r) \<Rightarrow> 'r list \<Rightarrow> ('r list \<times> nat, db_error) result" where
  "update_where violated p f rows =
     (case List.map_filter (\<lambda>r. violated (f r)) (filter p rows) of
        column # _ \<Rightarrow> Err (CheckFailed column)
      | [] \<Rightarrow> Ok (set_where p f rows, length (filter p rows)))"

definition delete_where :: "('r \<Rightarrow> bool) \<Rightarrow> 'r list \<Rightarrow> 'r list" where
  "delete_where p rows = filter (\<lambda>r. \<not> p r) rows"

fun coalesce :: "'a option \<Rightarrow> 'a option \<Rightarrow> 'a option" where
  "coalesce (Some x) _ = Some x"
| "coalesce None y = y"

text \<open>SQLite reads a negative limit as no limit and a negative offset as none; Rust's \<^verbatim>\<open>as usize\<close>
  wraps a negative number around.\<close>

definition limit_offset :: "int \<Rightarrow> int \<Rightarrow> 'r list \<Rightarrow> 'r list" where
  "limit_offset limit offset rows =
     (let rest = drop (nat offset) rows in if limit < 0 then rest else take (nat limit) rest)"

definition as_usize :: "int \<Rightarrow> nat" where
  "as_usize i = nat (i mod 2 ^ 64)"

section \<open>Rows, keys and checks\<close>

definition rows_ok :: "('r \<Rightarrow> 'k) \<Rightarrow> ('r \<Rightarrow> string option) \<Rightarrow> 'r list \<Rightarrow> bool" where
  "rows_ok key violated rows \<longleftrightarrow> distinct (map key rows) \<and> (\<forall>r \<in> set rows. violated r = None)"

lemma rows_ok_Nil [simp]: "rows_ok key violated []"
  by (simp add: rows_ok_def)

lemma rows_ok_row: "rows_ok key violated rows \<Longrightarrow> r \<in> set rows \<Longrightarrow> violated r = None"
  by (simp add: rows_ok_def)

lemma select_by_Some: "select_by key rows k = Some r \<Longrightarrow> r \<in> set rows \<and> key r = k"
  by (auto simp: select_by_def find_Some_iff)

lemma select_by_None: "select_by key rows k = None \<longleftrightarrow> k \<notin> key ` set rows"
  by (auto simp: select_by_def find_None_iff)

lemma select_by_append:
  "select_by key (xs @ ys) k = (case select_by key xs k of Some r \<Rightarrow> Some r | None \<Rightarrow> select_by key ys k)"
  by (induction xs) (simp_all add: select_by_def)

lemma select_by_map:
  "(\<And>r. key (f r) = key r) \<Longrightarrow> select_by key (map f rows) k = map_option f (select_by key rows k)"
  by (induction rows) (simp_all add: select_by_def)

lemma select_by_eq:
  assumes "rows_ok key violated rows" and "r \<in> set rows"
  shows "select_by key rows (key r) = Some r"
proof -
  obtain r' where r': "select_by key rows (key r) = Some r'"
    using assms(2) by (cases "select_by key rows (key r)") (auto simp: select_by_None)
  with select_by_Some have "r' \<in> set rows" "key r' = key r" by fastforce+
  with assms have "r' = r" by (auto simp: rows_ok_def distinct_map dest: inj_onD)
  with r' show ?thesis by simp
qed

lemma insert_row_Ok:
  "insert_row key violated refs_ok table row rows = Ok rows' \<longleftrightarrow>
     violated row = None \<and> key row \<notin> key ` set rows \<and> refs_ok row \<and> rows' = rows @ [row]"
  by (auto simp: insert_row_def split: option.splits)

lemma rows_ok_insert:
  "rows_ok key violated rows \<Longrightarrow> insert_row key violated refs_ok table row rows = Ok rows' \<Longrightarrow> rows_ok key violated rows'"
  by (auto simp: insert_row_Ok rows_ok_def)

lemma rows_ok_filter: "rows_ok key violated rows \<Longrightarrow> rows_ok key violated (filter p rows)"
  by (auto simp: rows_ok_def distinct_map_filter)

lemma rows_ok_delete: "rows_ok key violated rows \<Longrightarrow> rows_ok key violated (delete_where p rows)"
  by (simp add: delete_where_def rows_ok_filter)

lemma select_delete:
  assumes "rows_ok key violated rows"
  shows "select_by key (delete_where p rows) k =
    (case select_by key rows k of Some r \<Rightarrow> if p r then None else Some r | None \<Rightarrow> None)"
proof (cases "select_by key rows k")
  case None
  then have "select_by key (delete_where p rows) k = None" unfolding select_by_None delete_where_def by auto
  with None show ?thesis by simp
next
  case (Some r)
  then have r: "r \<in> set rows" "key r = k" using select_by_Some by fastforce+
  have ok: "rows_ok key violated (delete_where p rows)" by (rule rows_ok_delete [OF assms])
  show ?thesis
  proof (cases "p r")
    case True
    have "k \<notin> key ` set (delete_where p rows)"
      using assms r True by (auto simp: delete_where_def rows_ok_def distinct_map dest: inj_onD)
    with Some True show ?thesis by (simp add: select_by_None)
  next
    case False
    with r have "r \<in> set (delete_where p rows)" by (simp add: delete_where_def)
    with select_by_eq [OF ok] r Some False show ?thesis by auto
  qed
qed

lemma update_where_Ok:
  "update_where violated p f rows = Ok (rows', n) \<longleftrightarrow>
     (\<forall>r \<in> set rows. p r \<longrightarrow> violated (f r) = None) \<and> rows' = set_where p f rows \<and> n = length (filter p rows)"
proof -
  have "List.map_filter (\<lambda>r. violated (f r)) (filter p rows) = [] \<longleftrightarrow> (\<forall>r \<in> set rows. p r \<longrightarrow> violated (f r) = None)"
    by (auto simp: List.map_filter_def filter_empty_conv)
  then show ?thesis by (auto simp: update_where_def split: list.splits)
qed

lemma update_none: "\<forall>r \<in> set rows. \<not> p r \<Longrightarrow> update_where violated p f rows = Ok (rows, 0)"
  by (auto simp: update_where_Ok set_where_def intro!: map_idI [symmetric])

text \<open>An \<^verbatim>\<open>UPDATE\<close> that does not touch the primary key: rows keep their place and their key.\<close>

locale keyed_update =
  fixes key :: "'r \<Rightarrow> 'k" and f :: "'r \<Rightarrow> 'r"
  assumes key_f [simp]: "key (f r) = key r"
begin

lemma map_key_set [simp]: "map key (set_where p f rows) = map key rows"
  by (simp add: set_where_def)

lemma keys_set [simp]: "key ` set (set_where p f rows) = key ` set rows"
  by (simp only: list.set_map [symmetric] map_key_set)

lemma select_set [simp]:
  "select_by key (set_where p f rows) k = map_option (\<lambda>r. if p r then f r else r) (select_by key rows k)"
  by (induction rows) (auto simp: select_by_def set_where_def)

lemma rows_ok_set:
  assumes "rows_ok key violated rows" and "\<forall>r \<in> set rows. p r \<longrightarrow> violated (f r) = None"
  shows "rows_ok key violated (set_where p f rows)"
  using assms unfolding rows_ok_def map_key_set by (auto simp: set_where_def)

lemma rows_ok_update:
  "rows_ok key violated rows \<Longrightarrow> update_where violated p f rows = Ok (rows', n) \<Longrightarrow> rows_ok key violated rows'"
  by (auto simp: update_where_Ok intro: rows_ok_set)

end

text \<open>With the key in the condition, an \<^verbatim>\<open>UPDATE\<close> reaches at most one row.\<close>

lemma count_by_key:
  assumes "rows_ok key violated rows"
  shows "length (filter (\<lambda>r. key r = k \<and> p r) rows) = (case select_by key rows k of Some r \<Rightarrow> if p r then 1 else 0 | None \<Rightarrow> 0)"
proof -
  have "length (filter (\<lambda>r. key r = k \<and> p r) rows) = (case find (\<lambda>r. key r = k) rows of Some r \<Rightarrow> if p r then 1 else 0 | None \<Rightarrow> 0)"
    if "distinct (map key rows)"
    using that
  proof (induction rows)
    case (Cons a rows)
    moreover have "find (\<lambda>r. key r = key a) rows = None" using Cons.prems by (force simp: find_None_iff image_iff)
    ultimately show ?case by (cases "k = key a") auto
  qed simp
  with assms show ?thesis by (simp add: rows_ok_def select_by_def)
qed

lemma limit_offset_set: "set (limit_offset limit offset rows) \<subseteq> set rows"
  by (auto simp: limit_offset_def Let_def dest: in_set_takeD in_set_dropD)

lemma as_usize_nonneg: "0 \<le> i \<Longrightarrow> i < 2 ^ 64 \<Longrightarrow> as_usize i = nat i"
  by (simp add: as_usize_def)

end
