(* ===== verification/Task_Tables.thy ===== *)
theory Task_Tables
  imports Sql_Table Rust_Strings
begin

text \<open>
  The tables of the task system (\<^verbatim>\<open>storage/migrations/003_agent_tasks.sql\<close> and
  \<^verbatim>\<open>054_task_ownership.sql\<close>, row types of \<^verbatim>\<open>tasks/storage.rs\<close>) with their column checks and keys, and
  the statements on them. Times are Unix seconds. The columns that later migrations add for confidence scores
  and evidence packs are not used by this component and left out.
\<close>

record agent_task_row =
  at_id :: string
  at_title :: string
  at_task_type :: "string option"
  at_phase :: "string option"
  at_group :: "string option"
  at_parent_id :: "string option"
  at_severity :: "string option"
  at_status :: string
  at_claimed_by :: "string option"
  at_claimed_at :: "timestamp option"
  at_started_at :: "timestamp option"
  at_completed_at :: "timestamp option"
  at_last_heartbeat :: "timestamp option"
  at_file :: "string option"
  at_files :: "string option"
  at_depends_on :: "string option"
  at_blocks :: "string option"
  at_tags :: "string option"
  at_notes :: "string option"
  at_block_reason :: "string option"
  at_estimated_minutes :: "int option"
  at_actual_minutes :: "int option"
  at_repo_path :: string
  at_created_at :: timestamp
  at_updated_at :: timestamp
  at_owned_paths_json :: "string option"
  at_claimed_by_agent_id :: "string option"
  at_lease_expires_at :: "timestamp option"
  at_last_heartbeat_at :: "timestamp option"

record archive_row =
  ar_id :: string
  ar_title :: string
  ar_task_type :: "string option"
  ar_phase :: "string option"
  ar_group :: "string option"
  ar_severity :: "string option"
  ar_status :: string
  ar_claimed_by :: "string option"
  ar_claimed_at :: "timestamp option"
  ar_completed_at :: "timestamp option"
  ar_actual_minutes :: "int option"
  ar_repo_path :: string
  ar_archived_at :: timestamp

record activity_log_row =
  al_id :: string
  al_ts :: timestamp
  al_agent :: string
  al_task_id :: "string option"
  al_phase :: "string option"
  al_action :: string
  al_entry_type :: string
  al_detail :: "string option"
  al_meta :: "string option"
  al_repo_path :: string

record agent_registry_row =
  ag_agent_id :: string
  ag_agent_type :: string
  ag_session_id :: "string option"
  ag_status :: string
  ag_current_task_id :: "string option"
  ag_connected_at :: timestamp
  ag_last_seen :: timestamp
  ag_repo_path :: string

record work_session_row =
  ws_id :: string
  ws_started_at :: timestamp
  ws_ended_at :: "timestamp option"
  ws_tasks_completed :: int
  ws_tasks_created :: int
  ws_agents_active :: string
  ws_repo_path :: string

record task_db =
  db_tasks :: "agent_task_row list"
  db_archive :: "archive_row list"
  db_activity :: "activity_log_row list"
  db_agents :: "agent_registry_row list"
  db_sessions :: "work_session_row list"

definition empty_db :: task_db where
  "empty_db = \<lparr>db_tasks = [], db_archive = [], db_activity = [], db_agents = [], db_sessions = []\<rparr>"

section \<open>Column checks\<close>

definition TASK_TYPES :: "string list" where
  "TASK_TYPES = [''code'', ''review'', ''qa'', ''planning'', ''research'', ''test'', ''admin'', ''infra'']"

definition SEVERITIES :: "string list" where
  "SEVERITIES = [''critical'', ''high'', ''medium'', ''low'']"

definition TASK_STATUSES :: "string list" where
  "TASK_STATUSES = [''pending'', ''in_progress'', ''in_cr'', ''in_qa'', ''blocked'', ''interrupted'', ''done'', ''deferred'']"

text \<open>\<^verbatim>\<open>CHECK\<close> constraints hold for \<^verbatim>\<open>NULL\<close>. The answer is the column whose check fails.\<close>

fun null_or_in :: "string list \<Rightarrow> string option \<Rightarrow> bool" where
  "null_or_in xs None = True"
| "null_or_in xs (Some x) = (x \<in> set xs)"

definition task_violation :: "agent_task_row \<Rightarrow> string option" where
  "task_violation r =
     (if \<not> null_or_in TASK_TYPES (at_task_type r) then Some ''type''
      else if \<not> null_or_in SEVERITIES (at_severity r) then Some ''severity''
      else if at_status r \<notin> set TASK_STATUSES then Some ''status''
      else None)"

definition activity_violation :: "activity_log_row \<Rightarrow> string option" where
  "activity_violation r = (if al_entry_type r \<in> {''auto'', ''note'', ''system''} then None else Some ''entry_type'')"

definition agent_violation :: "agent_registry_row \<Rightarrow> string option" where
  "agent_violation r = (if ag_status r \<in> {''idle'', ''active'', ''disconnected''} then None else Some ''status'')"

section \<open>Statements\<close>

text \<open>Foreign keys: a reference is empty or names a task. An inserted task may name itself.\<close>

definition task_ids :: "task_db \<Rightarrow> string set" where
  "task_ids db = at_id ` set (db_tasks db)"

fun ref_ok :: "string set \<Rightarrow> string option \<Rightarrow> bool" where
  "ref_ok ids None = True"
| "ref_ok ids (Some i) = (i \<in> ids)"

definition insert_task :: "agent_task_row \<Rightarrow> task_db \<Rightarrow> (task_db, db_error) result" where
  "insert_task row db =
     and_then (insert_row at_id task_violation (\<lambda>r. ref_ok (insert (at_id r) (task_ids db)) (at_parent_id r))
       ''agent_tasks'' row (db_tasks db)) (\<lambda>rows. Ok (db\<lparr>db_tasks := rows\<rparr>))"

definition update_tasks ::
  "(agent_task_row \<Rightarrow> bool) \<Rightarrow> (agent_task_row \<Rightarrow> agent_task_row) \<Rightarrow> task_db \<Rightarrow> (task_db \<times> nat, db_error) result" where
  "update_tasks p f db =
     and_then (update_where task_violation p f (db_tasks db)) (\<lambda>(rows, n). Ok (db\<lparr>db_tasks := rows\<rparr>, n))"

text \<open>Deleting tasks empties the references to them: \<^verbatim>\<open>ON DELETE SET NULL\<close>.\<close>

definition forget :: "string set \<Rightarrow> string option \<Rightarrow> string option" where
  "forget gone ref = (case ref of Some i \<Rightarrow> if i \<in> gone then None else Some i | None \<Rightarrow> None)"

definition delete_task :: "string \<Rightarrow> task_db \<Rightarrow> task_db" where
  "delete_task i db =
     db\<lparr>db_tasks := map (\<lambda>r. r\<lparr>at_parent_id := forget {i} (at_parent_id r)\<rparr>) (delete_where (\<lambda>r. at_id r = i) (db_tasks db)),
        db_activity := map (\<lambda>r. r\<lparr>al_task_id := forget {i} (al_task_id r)\<rparr>) (db_activity db),
        db_agents := map (\<lambda>r. r\<lparr>ag_current_task_id := forget {i} (ag_current_task_id r)\<rparr>) (db_agents db)\<rparr>"

text \<open>\<^verbatim>\<open>INSERT OR IGNORE\<close> into the archive: a row with a used id is dropped.\<close>

definition insert_archive :: "archive_row \<Rightarrow> task_db \<Rightarrow> task_db" where
  "insert_archive row db =
     (if ar_id row \<in> ar_id ` set (db_archive db) then db else db\<lparr>db_archive := db_archive db @ [row]\<rparr>)"

definition insert_activity :: "activity_log_row \<Rightarrow> task_db \<Rightarrow> (task_db, db_error) result" where
  "insert_activity row db =
     and_then (insert_row al_id activity_violation (\<lambda>r. ref_ok (task_ids db) (al_task_id r)) ''agent_activity_log'' row (db_activity db))
       (\<lambda>rows. Ok (db\<lparr>db_activity := rows\<rparr>))"

text \<open>An \<^verbatim>\<open>UPDATE\<close> of the registry checks the references of the rows it changes.\<close>

definition update_agents ::
  "(agent_registry_row \<Rightarrow> bool) \<Rightarrow> (agent_registry_row \<Rightarrow> agent_registry_row) \<Rightarrow> task_db \<Rightarrow> (task_db \<times> nat, db_error) result" where
  "update_agents p f db =
     and_then (update_where agent_violation p f (db_agents db)) (\<lambda>(rows, n).
       if \<forall>r \<in> set (filter p (db_agents db)). ref_ok (task_ids db) (ag_current_task_id (f r))
       then Ok (db\<lparr>db_agents := rows\<rparr>, n) else Err ForeignKeyFailed)"

section \<open>The schema invariant\<close>

definition schema_ok :: "task_db \<Rightarrow> bool" where
  "schema_ok db \<longleftrightarrow>
     rows_ok at_id task_violation (db_tasks db) \<and>
     distinct (map ar_id (db_archive db)) \<and>
     rows_ok al_id activity_violation (db_activity db) \<and>
     rows_ok ag_agent_id agent_violation (db_agents db) \<and>
     distinct (map ws_id (db_sessions db)) \<and>
     (\<forall>r \<in> set (db_tasks db). ref_ok (task_ids db) (at_parent_id r)) \<and>
     (\<forall>r \<in> set (db_activity db). ref_ok (task_ids db) (al_task_id r)) \<and>
     (\<forall>r \<in> set (db_agents db). ref_ok (task_ids db) (ag_current_task_id r))"

lemma schema_ok_empty: "schema_ok empty_db"
  by (simp add: schema_ok_def empty_db_def)

lemma schema_tasks: "schema_ok db \<Longrightarrow> rows_ok at_id task_violation (db_tasks db)"
  by (simp add: schema_ok_def)

lemma status_in_domain:
  assumes "schema_ok db" and "r \<in> set (db_tasks db)"
  shows "at_status r \<in> set TASK_STATUSES"
  using rows_ok_row [OF schema_tasks [OF assms(1)] assms(2)] by (auto simp: task_violation_def split: if_splits)

lemma ref_ok_mono: "ref_ok ids ref \<Longrightarrow> ids \<subseteq> ids' \<Longrightarrow> ref_ok ids' ref"
  by (cases ref) auto

lemma ref_ok_forget: "ref_ok ids ref \<Longrightarrow> ref_ok (ids - gone) (forget gone ref)"
  by (cases ref) (auto simp: forget_def)

lemma insert_task_Ok:
  "insert_task row db = Ok db' \<longleftrightarrow>
     task_violation row = None \<and> at_id row \<notin> task_ids db \<and> ref_ok (insert (at_id row) (task_ids db)) (at_parent_id row) \<and>
     db' = db\<lparr>db_tasks := db_tasks db @ [row]\<rparr>"
  by (auto simp: insert_task_def result_simps insert_row_Ok task_ids_def)

lemma schema_insert_task:
  assumes "schema_ok db" and "insert_task row db = Ok db'"
  shows "schema_ok db'"
proof -
  note i = assms(2) [unfolded insert_task_Ok]
  then have ids: "task_ids db' = insert (at_id row) (task_ids db)" by (auto simp: task_ids_def)
  have "rows_ok at_id task_violation (db_tasks db')"
    using schema_tasks [OF assms(1)] i by (auto simp: rows_ok_def task_ids_def)
  with assms(1) i ids show ?thesis unfolding schema_ok_def by (auto intro: ref_ok_mono)
qed

lemma update_tasks_Ok:
  "update_tasks p f db = Ok (db', n) \<longleftrightarrow>
     (\<forall>r \<in> set (db_tasks db). p r \<longrightarrow> task_violation (f r) = None) \<and>
     db' = db\<lparr>db_tasks := set_where p f (db_tasks db)\<rparr> \<and> n = length (filter p (db_tasks db))"
  by (auto simp: update_tasks_def result_simps update_where_Ok split: prod.splits)

text \<open>An \<^verbatim>\<open>UPDATE\<close> of tasks in the program: it keeps the id and the parent.\<close>

locale task_update = keyed_update at_id f for f :: "agent_task_row \<Rightarrow> agent_task_row" +
  assumes parent_f [simp]: "at_parent_id (f r) = at_parent_id r"
begin

lemma ids_update: "task_ids (db\<lparr>db_tasks := set_where p f (db_tasks db)\<rparr>) = task_ids db"
  by (simp add: task_ids_def)

lemma schema_update:
  assumes "schema_ok db" and "update_tasks p f db = Ok (db', n)"
  shows "schema_ok db'"
proof -
  note u = assms(2) [unfolded update_tasks_Ok]
  have parents: "\<forall>r \<in> set (set_where p f (db_tasks db)). ref_ok (task_ids db) (at_parent_id r)"
    using assms(1) by (auto simp: schema_ok_def set_where_def)
  have "rows_ok at_id task_violation (set_where p f (db_tasks db))"
    using u schema_tasks [OF assms(1)] by (auto intro: rows_ok_set)
  with assms(1) parents u show ?thesis by (simp add: schema_ok_def ids_update)
qed

lemma get_update:
  "update_tasks p f db = Ok (db', n) \<Longrightarrow>
     select_by at_id (db_tasks db') i = map_option (\<lambda>r. if p r then f r else r) (select_by at_id (db_tasks db) i)"
  by (simp add: update_tasks_Ok)

end

lemma task_violation_parent [simp]: "task_violation (r\<lparr>at_parent_id := x\<rparr>) = task_violation r"
  by (simp add: task_violation_def)

lemma task_ids_delete: "task_ids (delete_task i db) = task_ids db - {i}"
  by (auto simp: task_ids_def delete_task_def delete_where_def image_image)

lemma schema_delete_task:
  assumes "schema_ok db"
  shows "schema_ok (delete_task i db)"
proof -
  have t: "rows_ok at_id task_violation (db_tasks (delete_task i db))"
    using rows_ok_delete [OF schema_tasks [OF assms], of "\<lambda>r. at_id r = i"]
    by (simp add: delete_task_def rows_ok_def o_def)
  have a: "rows_ok al_id activity_violation (db_activity (delete_task i db))"
    "rows_ok ag_agent_id agent_violation (db_agents (delete_task i db))"
    using assms by (simp_all add: schema_ok_def delete_task_def rows_ok_def activity_violation_def agent_violation_def o_def)
  have "\<forall>r \<in> set (db_tasks (delete_task i db)). ref_ok (task_ids (delete_task i db)) (at_parent_id r)"
    "\<forall>r \<in> set (db_activity (delete_task i db)). ref_ok (task_ids (delete_task i db)) (al_task_id r)"
    "\<forall>r \<in> set (db_agents (delete_task i db)). ref_ok (task_ids (delete_task i db)) (ag_current_task_id r)"
    using assms unfolding task_ids_delete
    by (auto simp: schema_ok_def delete_task_def delete_where_def intro: ref_ok_forget)
  with t a assms show ?thesis by (simp add: schema_ok_def delete_task_def)
qed

lemma schema_insert_archive: "schema_ok db \<Longrightarrow> schema_ok (insert_archive row db)"
  by (auto simp: schema_ok_def insert_archive_def task_ids_def)

lemma schema_insert_activity:
  assumes "schema_ok db" and "insert_activity row db = Ok db'"
  shows "schema_ok db'"
  using assms by (auto simp: schema_ok_def insert_activity_def result_simps insert_row_Ok rows_ok_def task_ids_def)

lemma update_agents_Ok:
  "update_agents p f db = Ok (db', n) \<longleftrightarrow>
     (\<forall>r \<in> set (db_agents db). p r \<longrightarrow> agent_violation (f r) = None \<and> ref_ok (task_ids db) (ag_current_task_id (f r))) \<and>
     db' = db\<lparr>db_agents := set_where p f (db_agents db)\<rparr> \<and> n = length (filter p (db_agents db))"
  by (auto simp: update_agents_def result_simps update_where_Ok split: prod.splits if_splits)

lemma schema_update_agents:
  assumes "keyed_update ag_agent_id f" and "schema_ok db" and "update_agents p f db = Ok (db', n)"
  shows "schema_ok db'"
proof -
  note u = assms(3) [unfolded update_agents_Ok]
  have "rows_ok ag_agent_id agent_violation (set_where p f (db_agents db))"
    using assms(2) u by (auto simp: schema_ok_def intro: keyed_update.rows_ok_set [OF assms(1)])
  with assms(2) u show ?thesis by (auto simp: schema_ok_def task_ids_def set_where_def)
qed

end
