(* ===== verification/Glob_Match.thy ===== *)
theory Glob_Match
  imports Rust_Strings
begin

text \<open>
  The glob matcher behind file ownership, \<^verbatim>\<open>glob_matches\<close> and \<^verbatim>\<open>glob_matches_inner\<close> of
  \<^verbatim>\<open>tasks/ownership.rs\<close>: a loop with two cursors and one backtracking point. The loop is a partial
  function whose value \<open>None\<close> stands for a loop that does not end and for an index out of bounds;
  the totality theorem excludes both. A reference matcher over tokens has the documented meaning of the patterns.
\<close>

section \<open>Definitions\<close>

abbreviation STAR :: char where "STAR \<equiv> CHR ''*''"
abbreviation QMARK :: char where "QMARK \<equiv> CHR ''?''"
abbreviation SLASH :: char where "SLASH \<equiv> CHR ''/''"

text \<open>\<open>Some None\<close> is the early \<^verbatim>\<open>return false\<close>, \<open>Some (Some p)\<close> the end of the loop with cursor \<open>p\<close>.\<close>

partial_function (option) glob_loop ::
  "string \<Rightarrow> string \<Rightarrow> nat \<Rightarrow> nat \<Rightarrow> nat option \<Rightarrow> nat \<Rightarrow> nat option option" where
  "glob_loop pat text p t star_p star_t =
     (if \<not> t < length text then Some (Some p)
      else if p < length pat \<and> (pat ! p = QMARK \<or> pat ! p = text ! t)
        then glob_loop pat text (p + 1) (t + 1) star_p star_t
      else if p + 1 < length pat \<and> pat ! p = STAR \<and> pat ! (p + 1) = STAR
        then glob_loop pat text (if p + 2 < length pat \<and> pat ! (p + 2) = SLASH then p + 3 else p + 2) t (Some p) t
      else if p < length pat \<and> pat ! p = STAR
        then glob_loop pat text (p + 1) t (Some p) t
      else case star_p of
          None \<Rightarrow> Some None
        | Some sp \<Rightarrow>
            if \<not> star_t < length text then None
            else if \<not> (sp + 1 < length pat \<and> pat ! (sp + 1) = STAR) \<and> text ! star_t = SLASH
              then glob_loop pat text sp (star_t + 1) None star_t
              else glob_loop pat text (sp + (if sp + 1 < length pat \<and> pat ! (sp + 1) = STAR then 2 else 1))
                     (star_t + 1) star_p (star_t + 1))"

text \<open>The two loops behind it that skip stars at the end of the pattern.\<close>

function skip_double_stars :: "string \<Rightarrow> nat \<Rightarrow> nat" where
  "skip_double_stars pat p =
     (if p + 1 < length pat \<and> pat ! p = STAR \<and> pat ! (p + 1) = STAR then skip_double_stars pat (p + 2) else p)"
  by pat_completeness auto
termination by (relation "measure (\<lambda>(pat, p). length pat - p)") auto

function skip_stars :: "string \<Rightarrow> nat \<Rightarrow> nat" where
  "skip_stars pat p = (if p < length pat \<and> pat ! p = STAR then skip_stars pat (p + 1) else p)"
  by pat_completeness auto
termination by (relation "measure (\<lambda>(pat, p). length pat - p)") auto

declare glob_loop.simps [code]
declare skip_double_stars.simps [simp del] skip_stars.simps [simp del]

definition glob_matches :: "string \<Rightarrow> string \<Rightarrow> bool option" where
  "glob_matches pat text =
     (case glob_loop pat text 0 0 None 0 of
        None \<Rightarrow> None
      | Some None \<Rightarrow> Some False
      | Some (Some p) \<Rightarrow> Some (skip_stars pat (skip_double_stars pat p) = length pat))"

section \<open>Reference matcher\<close>

text \<open>The patterns as the comments of \<^verbatim>\<open>glob_matches\<close> describe them: a star is a run of characters without a slash,
  two stars are a run of arbitrary characters, and two stars with a slash any number of leading directories.\<close>

datatype glob_token = Lit char | AnyChar | AnyName | AnyText | AnyDirs

fun tokenize :: "string \<Rightarrow> glob_token list" where
  "tokenize [] = []"
| "tokenize (c # p) =
     (if c \<noteq> STAR then (if c = QMARK then AnyChar else Lit c) # tokenize p
      else case p of
          [] \<Rightarrow> [AnyName]
        | d # p' \<Rightarrow>
            if d \<noteq> STAR then AnyName # tokenize p
            else (case p' of
                [] \<Rightarrow> [AnyText]
              | e # p'' \<Rightarrow> if e = SLASH then AnyDirs # tokenize p'' else AnyText # tokenize p'))"

text \<open>\<open>AnyDirs\<close> is nothing in front of remaining text, or at least one character and a slash.\<close>

fun token_match :: "glob_token list \<Rightarrow> string \<Rightarrow> bool" where
  "token_match [] s = (s = [])"
| "token_match (Lit c # ts) s = (case s of [] \<Rightarrow> False | d # s' \<Rightarrow> d = c \<and> token_match ts s')"
| "token_match (AnyChar # ts) s = (case s of [] \<Rightarrow> False | _ # s' \<Rightarrow> token_match ts s')"
| "token_match (AnyName # ts) s = (\<exists>i \<in> {0..length s}. SLASH \<notin> set (take i s) \<and> token_match ts (drop i s))"
| "token_match (AnyText # ts) s = (\<exists>i \<in> {0..length s}. token_match ts (drop i s))"
| "token_match (AnyDirs # ts) s =
     (s \<noteq> [] \<and> token_match ts s \<or>
      (\<exists>i \<in> {1..<length s}. s ! i = SLASH \<and> token_match ts (drop (i + 1) s)))"

text \<open>The tokens the loop works with: it lets a single star run over slashes as well.\<close>

fun loose_tokenize :: "string \<Rightarrow> glob_token list" where
  "loose_tokenize [] = []"
| "loose_tokenize (c # p) =
     (if c \<noteq> STAR then (if c = QMARK then AnyChar else Lit c) # loose_tokenize p
      else case p of
          [] \<Rightarrow> [AnyText]
        | d # p' \<Rightarrow>
            if d \<noteq> STAR then AnyText # loose_tokenize p
            else (case p' of
                [] \<Rightarrow> [AnyText]
              | e # p'' \<Rightarrow> if e = SLASH then AnyDirs # loose_tokenize p'' else AnyText # loose_tokenize p'))"

text \<open>Every \<^verbatim>\<open>**/\<close> stands at the start of the pattern or behind a slash.\<close>

definition well_formed_glob :: "string \<Rightarrow> bool" where
  "well_formed_glob pat \<longleftrightarrow>
     (\<forall>i < length pat - 2. pat ! i = STAR \<and> pat ! (i + 1) = STAR \<and> pat ! (i + 2) = SLASH \<longrightarrow>
        i = 0 \<or> pat ! (i - 1) = SLASH)"

text \<open>A path without stars and without empty components.\<close>

definition plain_path :: "string \<Rightarrow> bool" where
  "plain_path text \<longleftrightarrow> STAR \<notin> set text \<and> (\<forall>i < length text - 1. \<not> (text ! i = SLASH \<and> text ! (i + 1) = SLASH))"

section \<open>The state of the loop\<close>

definition resume_at :: "string \<Rightarrow> nat \<Rightarrow> nat" where
  "resume_at pat sp = sp + (if sp + 1 < length pat \<and> pat ! (sp + 1) = STAR then 2 else 1)"

text \<open>The backtracking point is a star, the cursor has moved past it over literal characters only,
  and the text cursor has moved at most as far.\<close>

definition loop_inv :: "string \<Rightarrow> string \<Rightarrow> nat \<Rightarrow> nat \<Rightarrow> nat option \<Rightarrow> nat \<Rightarrow> bool" where
  "loop_inv pat text p t star_p star_t \<longleftrightarrow>
     p \<le> length pat \<and> t \<le> length text \<and>
     (case star_p of None \<Rightarrow> True
      | Some sp \<Rightarrow> sp < length pat \<and> pat ! sp = STAR \<and> star_t \<le> t \<and>
          resume_at pat sp \<le> p \<and> t \<le> star_t + (p - resume_at pat sp) \<and>
          (\<forall>i. resume_at pat sp \<le> i \<and> i < p \<longrightarrow> pat ! i \<noteq> STAR) \<and>
          (resume_at pat sp < p \<and> t = star_t + (p - resume_at pat sp) \<longrightarrow>
             pat ! (p - 1) = QMARK \<or> pat ! (p - 1) = text ! (t - 1)))"

definition loop_measure :: "string \<Rightarrow> string \<Rightarrow> nat \<Rightarrow> nat \<Rightarrow> nat option \<Rightarrow> nat \<Rightarrow> nat \<times> nat" where
  "loop_measure pat text p t star_p star_t =
     (length text - (case star_p of None \<Rightarrow> t | Some _ \<Rightarrow> star_t), length pat - p)"

text \<open>One iteration: the state after it, or the result.\<close>

datatype loop_step = Finished "nat option" | Continue nat nat "nat option" nat

definition glob_step :: "string \<Rightarrow> string \<Rightarrow> nat \<Rightarrow> nat \<Rightarrow> nat option \<Rightarrow> nat \<Rightarrow> loop_step option" where
  "glob_step pat text p t star_p star_t =
     (if \<not> t < length text then Some (Finished (Some p))
      else if p < length pat \<and> (pat ! p = QMARK \<or> pat ! p = text ! t) then Some (Continue (p + 1) (t + 1) star_p star_t)
      else if p + 1 < length pat \<and> pat ! p = STAR \<and> pat ! (p + 1) = STAR
        then Some (Continue (if p + 2 < length pat \<and> pat ! (p + 2) = SLASH then p + 3 else p + 2) t (Some p) t)
      else if p < length pat \<and> pat ! p = STAR then Some (Continue (p + 1) t (Some p) t)
      else case star_p of
          None \<Rightarrow> Some (Finished None)
        | Some sp \<Rightarrow>
            if \<not> star_t < length text then None
            else if \<not> (sp + 1 < length pat \<and> pat ! (sp + 1) = STAR) \<and> text ! star_t = SLASH
              then Some (Continue sp (star_t + 1) None star_t)
              else Some (Continue (resume_at pat sp) (star_t + 1) star_p (star_t + 1)))"

fun run_step :: "string \<Rightarrow> string \<Rightarrow> loop_step option \<Rightarrow> nat option option" where
  "run_step pat text None = None"
| "run_step pat text (Some (Finished r)) = Some r"
| "run_step pat text (Some (Continue p t star_p star_t)) = glob_loop pat text p t star_p star_t"

lemma run_step_if: "run_step pat text (if b then x else y) = (if b then run_step pat text x else run_step pat text y)"
  by simp

lemma glob_loop_step:
  "glob_loop pat text p t star_p star_t = run_step pat text (glob_step pat text p t star_p star_t)"
  by (subst glob_loop.simps, cases star_p)
    (simp_all only: glob_step_def resume_at_def run_step_if run_step.simps option.case)

text \<open>The bounds of the cursors.\<close>

definition cursors_ok :: "string \<Rightarrow> string \<Rightarrow> nat \<Rightarrow> nat \<Rightarrow> nat option \<Rightarrow> nat \<Rightarrow> bool" where
  "cursors_ok pat text p t star_p star_t \<longleftrightarrow>
     p \<le> length pat \<and> t \<le> length text \<and>
     (case star_p of None \<Rightarrow> True | Some sp \<Rightarrow> sp < length pat \<and> star_t \<le> t)"

lemma inv_cursors: "loop_inv pat text p t star_p star_t \<Longrightarrow> cursors_ok pat text p t star_p star_t"
  by (simp add: loop_inv_def cursors_ok_def split: option.splits)

text \<open>Case analysis of one iteration.\<close>

lemma glob_step_cases:
  assumes "cursors_ok pat text p t star_p star_t"
  obtains (exit) "\<not> t < length text" "glob_step pat text p t star_p star_t = Some (Finished (Some p))"
  | (char) "t < length text" "p < length pat" "pat ! p = QMARK \<or> pat ! p = text ! t"
      "glob_step pat text p t star_p star_t = Some (Continue (p + 1) (t + 1) star_p star_t)"
  | (dirs) "t < length text" "\<not> (pat ! p = QMARK \<or> pat ! p = text ! t)" "p + 2 < length pat" "pat ! p = STAR"
      "pat ! (p + 1) = STAR" "pat ! (p + 2) = SLASH"
      "glob_step pat text p t star_p star_t = Some (Continue (p + 3) t (Some p) t)"
  | (star) "t < length text" "\<not> (pat ! p = QMARK \<or> pat ! p = text ! t)" "p < length pat" "pat ! p = STAR"
      "\<not> (p + 2 < length pat \<and> pat ! (p + 1) = STAR \<and> pat ! (p + 2) = SLASH)"
      "glob_step pat text p t star_p star_t = Some (Continue (resume_at pat p) t (Some p) t)"
  | (reject) "t < length text" "p < length pat \<Longrightarrow> pat ! p \<notin> {QMARK, STAR, text ! t}" "star_p = None"
      "glob_step pat text p t star_p star_t = Some (Finished None)"
  | (retry) sp where "t < length text" "p < length pat \<Longrightarrow> pat ! p \<notin> {QMARK, STAR, text ! t}" "star_p = Some sp"
      "star_t < length text"
      "glob_step pat text p t star_p star_t = Some (Continue (resume_at pat sp) (star_t + 1) star_p (star_t + 1))"
  | (slash) sp where "t < length text" "p < length pat \<Longrightarrow> pat ! p \<notin> {QMARK, STAR, text ! t}" "star_p = Some sp"
      "star_t < length text" "resume_at pat sp = sp + 1"
      "glob_step pat text p t star_p star_t = Some (Continue sp (star_t + 1) None star_t)"
proof -
  consider "\<not> t < length text"
    | "t < length text" "p < length pat" "pat ! p = QMARK \<or> pat ! p = text ! t"
    | "t < length text" "p < length pat" "\<not> (pat ! p = QMARK \<or> pat ! p = text ! t)" "pat ! p = STAR"
    | "t < length text" "p < length pat \<Longrightarrow> pat ! p \<notin> {QMARK, STAR, text ! t}"
    by blast
  then show thesis
  proof cases
    case 1 then show ?thesis using exit by (simp add: glob_step_def)
  next
    case 2 then show ?thesis using char by (simp add: glob_step_def)
  next
    case 3
    show ?thesis
    proof (cases "p + 2 < length pat \<and> pat ! (p + 1) = STAR \<and> pat ! (p + 2) = SLASH")
      case True with 3 dirs show ?thesis by (simp add: glob_step_def)
    next
      case False
      with 3 have "glob_step pat text p t star_p star_t = Some (Continue (resume_at pat p) t (Some p) t)"
        by (auto simp: glob_step_def resume_at_def)
      with 3 False star show ?thesis by blast
    qed
  next
    case 4
    show ?thesis
    proof (cases star_p)
      case None
      with 4 have "glob_step pat text p t star_p star_t = Some (Finished None)" by (auto simp: glob_step_def)
      with 4 None reject show ?thesis by blast
    next
      case (Some sp)
      with assms 4(1) have st: "star_t < length text" by (simp add: cursors_ok_def)
      show ?thesis
      proof (cases "\<not> (sp + 1 < length pat \<and> pat ! (sp + 1) = STAR) \<and> text ! star_t = SLASH")
        case True
        with 4 Some st have "glob_step pat text p t star_p star_t = Some (Continue sp (star_t + 1) None star_t)"
          "resume_at pat sp = sp + 1"
          by (auto simp: glob_step_def resume_at_def)
        with 4 Some st slash show ?thesis by blast
      next
        case False
        with 4 Some st have "glob_step pat text p t star_p star_t =
            Some (Continue (resume_at pat sp) (star_t + 1) star_p (star_t + 1))"
          by (auto simp: glob_step_def)
        with 4 Some st retry show ?thesis by blast
      qed
    qed
  qed
qed

lemma resume_at_bounds:
  "sp < resume_at pat sp" "sp < length pat \<Longrightarrow> resume_at pat sp \<le> length pat"
  by (auto simp: resume_at_def)

lemma inv_fresh_star:
  assumes "p < length pat" "pat ! p = STAR" "t \<le> length text"
  shows "loop_inv pat text (resume_at pat p) t (Some p) t"
  using assms resume_at_bounds [of p pat] by (auto simp: loop_inv_def)

lemma inv_fresh_dirs:
  assumes "p + 2 < length pat" "pat ! p = STAR" "pat ! (p + 1) = STAR" "pat ! (p + 2) = SLASH" "t \<le> length text"
  shows "loop_inv pat text (p + 3) t (Some p) t"
proof -
  have "resume_at pat p = p + 2" using assms by (simp add: resume_at_def)
  moreover have "pat ! i \<noteq> STAR" if "p + 2 \<le> i" "i < p + 3" for i
    using that assms(4) by (cases "i = p + 2") auto
  ultimately show ?thesis using assms by (auto simp: loop_inv_def)
qed

lemma inv_char:
  assumes "loop_inv pat text p t star_p star_t" "t < length text" "p < length pat" "pat ! p \<noteq> STAR"
    "pat ! p = QMARK \<or> pat ! p = text ! t"
  shows "loop_inv pat text (p + 1) (t + 1) star_p star_t"
proof (cases star_p)
  case (Some sp)
  have "pat ! (p + 1 - 1) = QMARK \<or> pat ! (p + 1 - 1) = text ! (t + 1 - 1)" using assms(5) by simp
  moreover have "\<forall>i. resume_at pat sp \<le> i \<and> i < p + 1 \<longrightarrow> pat ! i \<noteq> STAR"
    using assms(1,4) Some by (auto simp: loop_inv_def less_Suc_eq)
  moreover have "t + 1 \<le> star_t + (p + 1 - resume_at pat sp)" "resume_at pat sp \<le> p + 1" "star_t \<le> t + 1"
    using assms(1) Some by (auto simp: loop_inv_def)
  moreover have "sp < length pat" "pat ! sp = STAR" using assms(1) Some by (simp_all add: loop_inv_def)
  moreover have "p + 1 \<le> length pat" "t + 1 \<le> length text" using assms(2,3) by simp_all
  ultimately show ?thesis unfolding loop_inv_def Some option.case by blast
qed (use assms in \<open>simp add: loop_inv_def\<close>)

lemma cursors_step:
  assumes "cursors_ok pat text p t star_p star_t"
  obtains (finished) r where "glob_step pat text p t star_p star_t = Some (Finished r)"
  | (continues) p' t' sp' st' where "glob_step pat text p t star_p star_t = Some (Continue p' t' sp' st')"
      "cursors_ok pat text p' t' sp' st'"
      "(loop_measure pat text p' t' sp' st', loop_measure pat text p t star_p star_t) \<in> less_than <*lex*> less_than"
  using assms
proof (cases rule: glob_step_cases)
  case char
  with assms show ?thesis
    by (intro continues [of "p + 1" "t + 1" star_p star_t]) (auto simp: cursors_ok_def loop_measure_def split: option.splits)
next
  case dirs
  with assms show ?thesis
    by (intro continues [of "p + 3" t "Some p" t]) (auto simp: cursors_ok_def loop_measure_def split: option.splits)
next
  case star
  with assms resume_at_bounds [of p pat] show ?thesis
    by (intro continues [of "resume_at pat p" t "Some p" t]) (auto simp: cursors_ok_def loop_measure_def split: option.splits)
next
  case (retry sp)
  with assms resume_at_bounds [of sp pat] show ?thesis
    by (intro continues [of "resume_at pat sp" "star_t + 1" star_p "star_t + 1"]) (auto simp: cursors_ok_def loop_measure_def)
next
  case (slash sp)
  with assms show ?thesis
    by (intro continues [of sp "star_t + 1" None star_t]) (auto simp: cursors_ok_def loop_measure_def)
qed (rule finished, assumption)+

lemma glob_loop_total: "cursors_ok pat text p t star_p star_t \<Longrightarrow> \<exists>r. glob_loop pat text p t star_p star_t = Some r"
proof (induction "loop_measure pat text p t star_p star_t" arbitrary: p t star_p star_t
    rule: wf_induct_rule [OF wf_lex_prod [OF wf_less_than wf_less_than]])
  case 1
  from 1(2) show ?case
  proof (cases rule: cursors_step)
    case (finished r)
    then show ?thesis by (simp add: glob_loop_step)
  next
    case (continues p' t' sp' st')
    with 1(1) show ?thesis by (subst glob_loop_step) simp
  qed
qed

section \<open>What a state of the loop still accepts\<close>

definition rest_match :: "string \<Rightarrow> string \<Rightarrow> nat \<Rightarrow> nat \<Rightarrow> bool" where
  "rest_match pat text p t \<longleftrightarrow> token_match (loose_tokenize (drop p pat)) (drop t text)"

definition state_match :: "string \<Rightarrow> string \<Rightarrow> nat \<Rightarrow> nat \<Rightarrow> nat option \<Rightarrow> nat \<Rightarrow> bool" where
  "state_match pat text p t star_p star_t \<longleftrightarrow>
     rest_match pat text p t \<or>
     (\<exists>sp i. star_p = Some sp \<and> star_t < i \<and> i \<le> length text \<and> rest_match pat text (resume_at pat sp) i)"

lemma drop_nth: "i < length xs \<Longrightarrow> drop i xs = xs ! i # drop (i + 1) xs"
  by (simp add: Cons_nth_drop_Suc)

lemma rest_match_end: "rest_match pat text (length pat) t \<longleftrightarrow> length text \<le> t"
  by (simp add: rest_match_def)

lemma rest_match_char:
  assumes "p < length pat" "pat ! p \<noteq> STAR"
  shows "rest_match pat text p t \<longleftrightarrow>
    t < length text \<and> (pat ! p = QMARK \<or> pat ! p = text ! t) \<and> rest_match pat text (p + 1) (t + 1)"
proof (cases "t < length text")
  case True
  with assms show ?thesis by (auto simp: rest_match_def drop_nth [OF assms(1)] drop_nth [OF True])
qed (use assms in \<open>simp add: rest_match_def drop_nth [OF assms(1)]\<close>)

lemma loose_tokenize_star:
  assumes "p < length pat" "pat ! p = STAR" "\<not> (p + 2 < length pat \<and> pat ! (p + 1) = STAR \<and> pat ! (p + 2) = SLASH)"
  shows "loose_tokenize (drop p pat) = AnyText # loose_tokenize (drop (resume_at pat p) pat)"
proof -
  consider "p + 1 = length pat" | "p + 1 < length pat" "pat ! (p + 1) \<noteq> STAR"
    | "p + 2 = length pat" "pat ! (p + 1) = STAR"
    | "p + 2 < length pat" "pat ! (p + 1) = STAR" "pat ! (p + 2) \<noteq> SLASH"
    using assms by linarith
  then show ?thesis
  proof cases
    case 4
    then have "drop p pat = STAR # STAR # pat ! (p + 2) # drop (p + 3) pat" "drop (p + 2) pat = pat ! (p + 2) # drop (p + 3) pat"
      using assms(1,2) drop_nth [of p pat] drop_nth [of "p + 1" pat] drop_nth [of "p + 2" pat] by (simp_all add: numeral_3_eq_3)
    with 4 show ?thesis by (simp add: resume_at_def)
  next
    case 3
    then have "drop p pat = [STAR, STAR]"
      using assms(1,2) drop_nth [of p pat] drop_nth [of "p + 1" pat] by simp
    with 3 show ?thesis by (simp add: resume_at_def)
  next
    case 2
    then have "drop p pat = STAR # pat ! (p + 1) # drop (p + 2) pat" "drop (p + 1) pat = pat ! (p + 1) # drop (p + 2) pat"
      using assms(1,2) drop_nth [of p pat] drop_nth [of "p + 1" pat] by simp_all
    with 2 show ?thesis by (simp add: resume_at_def)
  next
    case 1
    then have "drop p pat = [STAR]" using assms(1,2) drop_nth [of p pat] by simp
    with 1 show ?thesis by (simp add: resume_at_def)
  qed
qed

lemma rest_match_star:
  assumes "p < length pat" "pat ! p = STAR" "\<not> (p + 2 < length pat \<and> pat ! (p + 1) = STAR \<and> pat ! (p + 2) = SLASH)"
    and "t \<le> length text"
  shows "rest_match pat text p t \<longleftrightarrow> (\<exists>i. t \<le> i \<and> i \<le> length text \<and> rest_match pat text (resume_at pat p) i)"
proof
  assume "rest_match pat text p t"
  then obtain k where "k \<le> length text - t" "rest_match pat text (resume_at pat p) (t + k)"
    by (auto simp: rest_match_def loose_tokenize_star [OF assms(1-3)] add.commute)
  then show "\<exists>i. t \<le> i \<and> i \<le> length text \<and> rest_match pat text (resume_at pat p) i"
    using assms(4) by (auto intro!: exI [where x = "t + k"])
next
  assume "\<exists>i. t \<le> i \<and> i \<le> length text \<and> rest_match pat text (resume_at pat p) i"
  then obtain i where "t \<le> i" "i \<le> length text" "rest_match pat text (resume_at pat p) i" by blast
  then show "rest_match pat text p t"
    by (auto simp: rest_match_def loose_tokenize_star [OF assms(1-3)] intro!: bexI [where x = "i - t"])
qed

lemma rest_match_dirs:
  assumes "p + 2 < length pat" "pat ! p = STAR" "pat ! (p + 1) = STAR" "pat ! (p + 2) = SLASH"
  shows "rest_match pat text p t \<longleftrightarrow>
    t < length text \<and> rest_match pat text (p + 3) t \<or> (\<exists>i. t < i \<and> i < length text \<and> rest_match pat text (p + 2) i)"
proof -
  have tok: "loose_tokenize (drop p pat) = AnyDirs # loose_tokenize (drop (p + 3) pat)"
    using assms drop_nth [of p pat] drop_nth [of "p + 1" pat] drop_nth [of "p + 2" pat] by (simp add: numeral_3_eq_3)
  have slash: "rest_match pat text (p + 2) i \<longleftrightarrow>
      i < length text \<and> text ! i = SLASH \<and> rest_match pat text (p + 3) (i + 1)" for i
    using rest_match_char [of "p + 2" pat "text" i] assms by (auto simp: numeral_3_eq_3)
  have "rest_match pat text p t \<longleftrightarrow> t < length text \<and> rest_match pat text (p + 3) t \<or>
      (\<exists>k \<in> {1..<length text - t}. text ! (t + k) = SLASH \<and> rest_match pat text (p + 3) (t + k + 1))"
    by (auto simp: rest_match_def tok add.commute)
  also have "(\<exists>k \<in> {1..<length text - t}. text ! (t + k) = SLASH \<and> rest_match pat text (p + 3) (t + k + 1)) \<longleftrightarrow>
      (\<exists>i. t < i \<and> i < length text \<and> rest_match pat text (p + 2) i)"
  proof
    assume "\<exists>i. t < i \<and> i < length text \<and> rest_match pat text (p + 2) i"
    then obtain i where "t < i" "i < length text" "text ! i = SLASH" "rest_match pat text (p + 3) (i + 1)"
      unfolding slash by blast
    then show "\<exists>k \<in> {1..<length text - t}. text ! (t + k) = SLASH \<and> rest_match pat text (p + 3) (t + k + 1)"
      by (intro bexI [where x = "i - t"]) auto
  next
    assume "\<exists>k \<in> {1..<length text - t}. text ! (t + k) = SLASH \<and> rest_match pat text (p + 3) (t + k + 1)"
    then obtain k where "1 \<le> k" "t + k < length text" "rest_match pat text (p + 2) (t + k)"
      unfolding slash by fastforce
    then show "\<exists>i. t < i \<and> i < length text \<and> rest_match pat text (p + 2) i" by (auto intro!: exI [where x = "t + k"])
  qed
  finally show ?thesis .
qed

text \<open>A stretch of the pattern without stars is matched character by character.\<close>

lemma rest_match_segment:
  assumes "rest_match pat text q i" "q \<le> p" "p \<le> length pat" "\<forall>k. q \<le> k \<and> k < p \<longrightarrow> pat ! k \<noteq> STAR" "i \<le> length text"
  shows "i + (p - q) \<le> length text \<and> rest_match pat text p (i + (p - q)) \<and>
    (q < p \<longrightarrow> pat ! (p - 1) = QMARK \<or> pat ! (p - 1) = text ! (i + (p - q) - 1))"
  using assms(2-4)
proof (induction "p - q" arbitrary: p)
  case 0
  with assms(1,5) show ?case by auto
next
  case (Suc n)
  then obtain p' where p: "p = Suc p'" "q \<le> p'" by (cases p) auto
  with Suc have "i + (p' - q) \<le> length text" "rest_match pat text p' (i + (p' - q))" by auto
  moreover have "pat ! p' \<noteq> STAR" "p' < length pat" using Suc.prems p by auto
  ultimately show ?case using rest_match_char [of p' pat "text"] p by (auto simp: Suc_diff_le)
qed

lemma token_match_Nil: "token_match (loose_tokenize xs) [] \<longleftrightarrow> (\<forall>c \<in> set xs. c = STAR)"
  by (induction xs rule: loose_tokenize.induct) (auto split: list.splits)

lemma skip_stars_end:
  "p \<le> length pat \<Longrightarrow> skip_stars pat p = length pat \<longleftrightarrow> (\<forall>c \<in> set (drop p pat). c = STAR)"
proof (induction pat p rule: skip_stars.induct)
  case (1 pat p)
  show ?case
  proof (cases "p < length pat")
    case True
    then show ?thesis
      using 1 drop_nth [OF True] by (subst skip_stars.simps) auto
  next
    case False
    with 1(2) show ?thesis by (subst skip_stars.simps) simp
  qed
qed

lemma skip_all_stars_end:
  "p \<le> length pat \<Longrightarrow>
     skip_stars pat (skip_double_stars pat p) = length pat \<longleftrightarrow> (\<forall>c \<in> set (drop p pat). c = STAR)"
proof (induction pat p rule: skip_double_stars.induct)
  case (1 pat p)
  show ?case
  proof (cases "p + 1 < length pat \<and> pat ! p = STAR \<and> pat ! (p + 1) = STAR")
    case True
    then have "drop p pat = STAR # STAR # drop (p + 2) pat"
      using drop_nth [of p pat] drop_nth [of "p + 1" pat] by simp
    with True 1(1) show ?thesis by (subst skip_double_stars.simps) simp
  next
    case False
    then have "skip_double_stars pat p = p" by (subst skip_double_stars.simps) auto
    with 1(2) show ?thesis by (simp add: skip_stars_end)
  qed
qed

lemma older_star_segment:
  assumes "loop_inv pat text p t (Some sp) star_t" "star_t < i" "i \<le> length text" "rest_match pat text (resume_at pat sp) i"
  obtains j where "t < j" "j \<le> length text" "rest_match pat text p j" "j = i + (p - resume_at pat sp)"
    "resume_at pat sp < p \<longrightarrow> pat ! (p - 1) = QMARK \<or> pat ! (p - 1) = text ! (j - 1)"
proof -
  let ?q = "resume_at pat sp"
  from assms(1) have "?q \<le> p" "p \<le> length pat" "\<forall>k. ?q \<le> k \<and> k < p \<longrightarrow> pat ! k \<noteq> STAR" "t \<le> star_t + (p - ?q)"
    by (auto simp: loop_inv_def)
  with rest_match_segment [OF assms(4) this(1-3) assms(3)] assms(2) that [of "i + (p - ?q)"]
  show thesis by simp
qed

text \<open>What an older backtracking point could still find is found behind the new star as well.\<close>

lemma older_star_subsumed:
  assumes inv: "loop_inv pat text p t (Some sp) star_t"
    and i: "star_t < i" "i \<le> length text" "rest_match pat text (resume_at pat sp) i"
    and star: "p < length pat" "pat ! p = STAR" and wf: "well_formed_glob pat" and plain: "plain_path text"
  shows "rest_match pat text p t"
proof -
  let ?q = "resume_at pat sp"
  obtain j where j: "t < j" "j \<le> length text" "rest_match pat text p j" "j = i + (p - ?q)"
    "?q < p \<longrightarrow> pat ! (p - 1) = QMARK \<or> pat ! (p - 1) = text ! (j - 1)"
    using older_star_segment [OF inv i] .
  show ?thesis
  proof (cases "p + 2 < length pat \<and> pat ! (p + 1) = STAR \<and> pat ! (p + 2) = SLASH")
    case False
    with star j(1,2) have "rest_match pat text p t \<longleftrightarrow>
        (\<exists>k. t \<le> k \<and> k \<le> length text \<and> rest_match pat text (resume_at pat p) k)"
      by (intro rest_match_star) auto
    moreover obtain k where "j \<le> k" "k \<le> length text" "rest_match pat text (resume_at pat p) k"
      using rest_match_star [OF star False j(2)] j(3) by blast
    ultimately show ?thesis using j(1) by (meson less_imp_le order_trans)
  next
    case True
    then have d: "p + 2 < length pat" "pat ! p = STAR" "pat ! (p + 1) = STAR" "pat ! (p + 2) = SLASH" using star by auto
    have sp: "sp < ?q" "?q \<le> p" "pat ! sp = STAR" using inv resume_at_bounds(1) [of sp pat] by (simp_all add: loop_inv_def)
    from d(1) have "p < length pat - 2" by simp
    with wf d have "p = 0 \<or> pat ! (p - 1) = SLASH" unfolding well_formed_glob_def by blast
    then have prev: "pat ! (p - 1) = SLASH" using sp(1,2) by linarith
    have qp: "?q < p"
    proof (rule ccontr)
      assume "\<not> ?q < p"
      with sp have "p - 1 = ?q - 1" by simp
      with prev sp(3) show False by (simp add: resume_at_def split: if_splits)
    qed
    with j(5) prev have sl: "text ! (j - 1) = SLASH" by simp
    from j(3) rest_match_dirs [OF d] consider "rest_match pat text (p + 3) j" "j < length text"
      | k where "j < k" "k < length text" "rest_match pat text (p + 2) k" by blast
    then show ?thesis
    proof cases
      case 1
      have m: "rest_match pat text (p + 2) (j - 1)"
        using 1 sl j(1) d rest_match_char [of "p + 2" pat "text" "j - 1"] by (simp add: numeral_3_eq_3)
      have "t \<noteq> j - 1"
      proof
        assume t: "t = j - 1"
        with j(4) i(1) inv qp have "t = star_t + (p - ?q)" by (auto simp: loop_inv_def)
        with inv qp prev have "text ! (t - 1) = SLASH" "0 < t" by (auto simp: loop_inv_def)
        moreover from \<open>0 < t\<close> t 1(2) have "t - 1 < length text - 1" "t - 1 + 1 = t" by simp_all
        ultimately show False using plain sl t unfolding plain_path_def by metis
      qed
      with j(1,2) have "t < j - 1" "j - 1 < length text" by auto
      with m rest_match_dirs [OF d] show ?thesis by blast
    next
      case 2
      with j(1) rest_match_dirs [OF d] show ?thesis by (meson less_trans)
    qed
  qed
qed

lemma dead_end:
  assumes "p \<le> length pat" "t < length text" "p < length pat \<Longrightarrow> pat ! p \<notin> {QMARK, STAR, text ! t}"
  shows "\<not> rest_match pat text p t"
  using assms rest_match_char [of p pat "text" t] rest_match_end [of pat "text" t] by (cases "p < length pat") auto

lemma fresh_star_match:
  assumes "resume_at pat p \<le> length pat" "t \<le> length text"
  shows "state_match pat text (resume_at pat p) t (Some p) t \<longleftrightarrow>
    (\<exists>i. t \<le> i \<and> i \<le> length text \<and> rest_match pat text (resume_at pat p) i)"
  using assms(2) by (auto simp: state_match_def order.order_iff_strict)

text \<open>One iteration keeps the invariant and what the state accepts.\<close>

lemma step_match:
  assumes inv: "loop_inv pat text p t star_p star_t" and wf: "well_formed_glob pat" and plain: "plain_path text"
    and st: "glob_step pat text p t star_p star_t = Some (Continue p' t' sp' st')"
  shows "loop_inv pat text p' t' sp' st' \<and>
    state_match pat text p' t' sp' st' = state_match pat text p t star_p star_t"
  using inv_cursors [OF inv]
proof (cases rule: glob_step_cases)
  case char
  with plain have ns: "pat ! p \<noteq> STAR" by (auto simp: plain_path_def in_set_conv_nth)
  from char(2,1,3) have "rest_match pat text p t = rest_match pat text (p + 1) (t + 1)"
    using rest_match_char [OF char(2) ns] by blast
  with char st inv_char [OF inv char(1,2) ns char(3)] show ?thesis by (simp add: state_match_def)
next
  case dirs
  have sub: "state_match pat text p t star_p star_t = rest_match pat text p t"
    using older_star_subsumed [OF _ _ _ _ _ _ wf plain] inv dirs by (auto simp: state_match_def)
  have r: "resume_at pat p = p + 2" using dirs by (simp add: resume_at_def)
  have "\<exists>i. t < i \<and> i \<le> length text \<and> rest_match pat text (p + 2) i \<Longrightarrow>
      \<exists>i. t < i \<and> i < length text \<and> rest_match pat text (p + 2) i"
    using rest_match_char [of "p + 2" pat "text"] dirs by fastforce
  then have "state_match pat text (p + 3) t (Some p) t = rest_match pat text p t"
    using rest_match_dirs [OF dirs(3-6)] dirs(1) r by (auto simp: state_match_def)
  moreover have "loop_inv pat text (p + 3) t (Some p) t" using dirs by (intro inv_fresh_dirs) auto
  ultimately show ?thesis using sub dirs(7) st by simp
next
  case star
  have sub: "state_match pat text p t star_p star_t = rest_match pat text p t"
    using older_star_subsumed [OF _ _ _ _ _ _ wf plain] inv star by (auto simp: state_match_def)
  with star st inv_fresh_star [OF star(3,4)] rest_match_star [OF star(3-5)] resume_at_bounds(2) [OF star(3)]
  show ?thesis by (simp add: fresh_star_match)
next
  case (retry sp)
  from inv retry have "sp < length pat" "pat ! sp = STAR" "p \<le> length pat" by (auto simp: loop_inv_def)
  then have "loop_inv pat text (resume_at pat sp) (star_t + 1) star_p (star_t + 1)"
    using inv_fresh_star [of sp pat "star_t + 1" "text"] retry(3,4) by simp
  moreover have "\<not> rest_match pat text p t" using retry \<open>p \<le> length pat\<close> by (intro dead_end) auto
  moreover have "(\<exists>i. star_t + 1 \<le> i \<and> i \<le> length text \<and> rest_match pat text (resume_at pat sp) i) \<longleftrightarrow>
      state_match pat text (resume_at pat sp) (star_t + 1) (Some sp) (star_t + 1)"
    using retry(4) resume_at_bounds(2) [OF \<open>sp < length pat\<close>] by (simp add: fresh_star_match)
  ultimately show ?thesis using retry st by (auto simp: state_match_def [of _ _ p] Suc_le_eq)
next
  case (slash sp)
  from inv slash have sp: "sp < length pat" "pat ! sp = STAR" "p \<le> length pat" by (auto simp: loop_inv_def)
  have "\<not> (sp + 2 < length pat \<and> pat ! (sp + 1) = STAR \<and> pat ! (sp + 2) = SLASH)"
    using slash(5) by (auto simp: resume_at_def split: if_splits)
  then have "rest_match pat text sp (star_t + 1) \<longleftrightarrow>
      (\<exists>i. star_t + 1 \<le> i \<and> i \<le> length text \<and> rest_match pat text (resume_at pat sp) i)"
    using sp slash(4) by (intro rest_match_star) auto
  moreover have "\<not> rest_match pat text p t" using slash sp(3) by (intro dead_end) auto
  ultimately show ?thesis using slash st sp by (auto simp: state_match_def loop_inv_def Suc_le_eq)
qed (use st in simp_all)

lemma finish_match:
  assumes inv: "loop_inv pat text p t star_p star_t"
    and st: "glob_step pat text p t star_p star_t = Some (Finished r)"
  shows "state_match pat text p t star_p star_t =
    (case r of None \<Rightarrow> False | Some p' \<Rightarrow> skip_stars pat (skip_double_stars pat p') = length pat)"
  using inv_cursors [OF inv]
proof (cases rule: glob_step_cases)
  case exit
  have t: "t = length text" "p \<le> length pat" using inv exit by (auto simp: loop_inv_def)
  have "state_match pat text p t star_p star_t = rest_match pat text p t"
  proof (cases star_p)
    case (Some sp)
    with inv have "\<not> rest_match pat text (resume_at pat sp) i" if "star_t < i" "i \<le> length text" for i
      using older_star_segment [of pat "text" p t sp star_t i] that t(1) by auto
    with Some show ?thesis by (auto simp: state_match_def)
  qed (simp add: state_match_def)
  also have "\<dots> = (skip_stars pat (skip_double_stars pat p) = length pat)"
    using t by (simp add: rest_match_def token_match_Nil skip_all_stars_end)
  finally show ?thesis using exit st by simp
next
  case reject
  have "\<not> rest_match pat text p t" using reject inv by (intro dead_end) (auto simp: loop_inv_def)
  with reject st show ?thesis by (simp add: state_match_def)
qed (use st in simp_all)

lemma glob_loop_match:
  assumes "loop_inv pat text p t star_p star_t" "well_formed_glob pat" "plain_path text"
    and "glob_loop pat text p t star_p star_t = Some r"
  shows "state_match pat text p t star_p star_t =
    (case r of None \<Rightarrow> False | Some p' \<Rightarrow> skip_stars pat (skip_double_stars pat p') = length pat)"
  using assms(1,4)
proof (induction "loop_measure pat text p t star_p star_t" arbitrary: p t star_p star_t
    rule: wf_induct_rule [OF wf_lex_prod [OF wf_less_than wf_less_than]])
  case 1
  from inv_cursors [OF 1(2)] show ?case
  proof (cases rule: cursors_step)
    case (finished r')
    with 1(3) finish_match [OF 1(2)] show ?thesis by (simp add: glob_loop_step)
  next
    case (continues p' t' sp' st')
    with 1(3) have "glob_loop pat text p' t' sp' st' = Some r" by (simp add: glob_loop_step [of _ _ p])
    with 1(1) [OF continues(3)] step_match [OF 1(2) assms(2,3) continues(1)] show ?thesis by blast
  qed
qed

lemma glob_matches_tokens:
  assumes "well_formed_glob pat" "plain_path path"
  shows "glob_matches pat path = Some (token_match (loose_tokenize pat) path)"
proof -
  have inv: "loop_inv pat path 0 0 None 0" by (simp add: loop_inv_def)
  from glob_loop_total [OF inv_cursors [OF inv]] obtain r where r: "glob_loop pat path 0 0 None 0 = Some r" ..
  have "state_match pat path 0 0 None 0 = token_match (loose_tokenize pat) path"
    by (simp add: state_match_def rest_match_def)
  with glob_loop_match [OF inv assms r] r show ?thesis by (cases r) (simp_all add: glob_matches_def)
qed

lemma loosen: "loose_tokenize pat = map (\<lambda>tk. if tk = AnyName then AnyText else tk) (tokenize pat)"
  by (induction pat rule: tokenize.induct) (auto split: list.splits)

text \<open>A documented match is a match of the loop, and the two agree on a path that has no slash for a star to cross.\<close>

lemma loose_match:
  "token_match ts s \<Longrightarrow> token_match (map (\<lambda>tk. if tk = AnyName then AnyText else tk) ts) s"
proof (induction ts s rule: token_match.induct)
  case (6 ts s)
  then show ?case by auto
qed (auto split: list.splits intro!: rev_bexI)

lemma strict_match:
  "SLASH \<notin> set s \<Longrightarrow> token_match (map (\<lambda>tk. if tk = AnyName then AnyText else tk) ts) s \<Longrightarrow> token_match ts s"
proof (induction ts s rule: token_match.induct)
  case (4 ts s)
  then obtain i where "i \<le> length s" "token_match (map (\<lambda>tk. if tk = AnyName then AnyText else tk) ts) (drop i s)" by auto
  moreover have "SLASH \<notin> set (drop i s)" "SLASH \<notin> set (take i s)" using "4.prems"(1) by (auto dest: in_set_dropD in_set_takeD)
  ultimately show ?case using "4.IH" [of i] by auto
next
  case (5 ts s)
  then obtain i where i: "i \<le> length s" "token_match (map (\<lambda>tk. if tk = AnyName then AnyText else tk) ts) (drop i s)" by auto
  moreover have "SLASH \<notin> set (drop i s)" using "5.prems"(1) by (auto dest: in_set_dropD)
  ultimately show ?case using "5.IH" [of i] by auto
next
  case (6 ts s)
  have "s ! i \<noteq> SLASH" if "i < length s" for i using "6.prems"(1) nth_mem [OF that] by metis
  with 6 have "s \<noteq> []" "token_match (map (\<lambda>tk. if tk = AnyName then AnyText else tk) ts) s" by auto
  with 6 show ?case by simp
qed (auto split: list.splits)

section \<open>Properties\<close>

text \<open>C33: The matcher returns an answer for every pattern and every path: its backtracking ends and no
  index leaves the two strings.\<close>

theorem glob_matches_total: "\<exists>b. glob_matches pat path = Some b"
proof -
  have "cursors_ok pat path 0 0 None 0" by (simp add: cursors_ok_def)
  from glob_loop_total [OF this] obtain r where "glob_loop pat path 0 0 None 0 = Some r" ..
  then show ?thesis by (auto simp: glob_matches_def split: option.split)
qed

text \<open>C31: On a path without stars and empty components, and for a pattern in which \<^verbatim>\<open>**/\<close> only starts a component, the
  backtracking matcher accepts every path the pattern is documented to accept, and it accepts no other if the pattern
  has no single star or the path no slash. In the remaining case it accepts more, see
  \<open>single_star_crosses_directories\<close>.\<close>

theorem glob_matches_denotes:
  assumes "well_formed_glob pat" "plain_path path"
  shows "\<exists>b. glob_matches pat path = Some b \<and> (token_match (tokenize pat) path \<longrightarrow> b) \<and>
    (AnyName \<notin> set (tokenize pat) \<or> SLASH \<notin> set path \<longrightarrow> b = token_match (tokenize pat) path)"
proof -
  have same: "loose_tokenize pat = tokenize pat" if "AnyName \<notin> set (tokenize pat)"
    unfolding loosen using that by (intro map_idI) auto
  have "glob_matches pat path = Some (token_match (loose_tokenize pat) path)" using assms by (rule glob_matches_tokens)
  moreover have "token_match (tokenize pat) path \<Longrightarrow> token_match (loose_tokenize pat) path" unfolding loosen by (rule loose_match)
  moreover have "SLASH \<notin> set path \<Longrightarrow> token_match (loose_tokenize pat) path \<Longrightarrow> token_match (tokenize pat) path"
    unfolding loosen by (rule strict_match)
  ultimately show ?thesis using same by auto
qed

theorem glob_matches_denotes_witness:
  "glob_matches ''s/**/*.r'' ''s/a/b.r'' = Some True \<and> glob_matches ''s/**/?.r'' ''l/b.r'' = Some False"
proof -
  have "well_formed_glob ''s/**/*.r''" "plain_path ''s/a/b.r''" by code_simp+
  moreover have "token_match (tokenize ''s/**/*.r'') ''s/a/b.r''"
  proof -
    have name: "token_match [AnyName, Lit CHR ''.'', Lit CHR ''r''] ''b.r''"
      unfolding token_match.simps(4) by (rule bexI [of _ 1]) simp_all
    have "token_match [AnyDirs, AnyName, Lit CHR ''.'', Lit CHR ''r''] ''a/b.r''"
      unfolding token_match.simps(6) by (rule disjI2, rule bexI [of _ 1]) (use name in simp_all)
    moreover have "tokenize ''s/**/*.r'' = [Lit CHR ''s'', Lit SLASH, AnyDirs, AnyName, Lit CHR ''.'', Lit CHR ''r'']" by code_simp
    ultimately show ?thesis by simp
  qed
  ultimately have "glob_matches ''s/**/*.r'' ''s/a/b.r'' = Some True"
    using glob_matches_denotes [of "''s/**/*.r''" "''s/a/b.r''"] by auto
  moreover have "well_formed_glob ''s/**/?.r''" "plain_path ''l/b.r''" by code_simp+
  moreover have "AnyName \<notin> set (tokenize ''s/**/?.r'')" "\<not> token_match (tokenize ''s/**/?.r'') ''l/b.r''" by code_simp+
  ultimately show ?thesis using glob_matches_denotes [of "''s/**/?.r''" "''l/b.r''"] by auto
qed

text \<open>A single star crosses directory separators: \<^verbatim>\<open>src/*.rs\<close> accepts a file two directories
  further down, although the star is documented to match no slash.\<close>

theorem single_star_crosses_directories: "glob_matches ''src/*.rs'' ''src/a/b/c.rs'' = Some True"
  by code_simp

end
