(* ===== verification/Ownership.thy ===== *)
theory Ownership
  imports Glob_Match
begin

text \<open>
  File ownership of tasks, \<^verbatim>\<open>tasks/ownership.rs\<close>: may a task touch a path, which touched files are
  outside its scope, how a scope is expanded, and which scopes of claimed tasks overlap. The JSON
  text of a scope is decoded and encoded by \<^verbatim>\<open>serde_json\<close>, the parameters \<open>from_str\<close> and \<open>to_str\<close>.
  The table \<^verbatim>\<open>agent_tasks\<close> is the list of its rows, with the columns these queries read.
\<close>

section \<open>Definitions\<close>

record ownership_check =
  oc_allowed :: bool
  oc_task_id :: string
  oc_path :: string
  oc_matched_pattern :: "string option"
  oc_denial_reason :: "string option"

type_synonym list_decoder = "string \<Rightarrow> string list option"
type_synonym list_encoder = "string list \<Rightarrow> string"

text \<open>\<^verbatim>\<open>serde_json::from_str(..).unwrap_or_default()\<close>.\<close>

definition patterns_of :: "list_decoder \<Rightarrow> string \<Rightarrow> string list" where
  "patterns_of from_str json = (case from_str json of Some ps \<Rightarrow> ps | None \<Rightarrow> [])"

definition pattern_accepts :: "string \<Rightarrow> string \<Rightarrow> bool" where
  "pattern_accepts path pat \<longleftrightarrow> glob_matches pat path = Some True"

definition unrestricted :: "string \<Rightarrow> string \<Rightarrow> ownership_check" where
  "unrestricted task_id path =
     \<lparr>oc_allowed = True, oc_task_id = task_id, oc_path = path, oc_matched_pattern = None, oc_denial_reason = None\<rparr>"

definition denial_reason :: "string \<Rightarrow> string \<Rightarrow> string" where
  "denial_reason task_id path =
     ''Path '' @ [CHR 0x27] @ path @ [CHR 0x27] @ '' is outside task '' @ task_id @ [CHR 0x27] @
     ''s declared owned_paths. Use '' @ [CHR 0x60] @ ''clawd task expand-ownership --task '' @ task_id @
     '' --add <glob>'' @ [CHR 0x60] @ '' to expand scope.''"

definition check_path_ownership :: "list_decoder \<Rightarrow> string \<Rightarrow> string \<Rightarrow> string \<Rightarrow> ownership_check" where
  "check_path_ownership from_str task_id owned_paths_json path =
     (if owned_paths_json = [] \<or> owned_paths_json = ''[]'' \<or> owned_paths_json = ''null''
      then unrestricted task_id path
      else if patterns_of from_str owned_paths_json = [] then unrestricted task_id path
      else case find (pattern_accepts path) (patterns_of from_str owned_paths_json) of
          Some pattern_str \<Rightarrow>
            \<lparr>oc_allowed = True, oc_task_id = task_id, oc_path = path,
             oc_matched_pattern = Some pattern_str, oc_denial_reason = None\<rparr>
        | None \<Rightarrow>
            \<lparr>oc_allowed = False, oc_task_id = task_id, oc_path = path,
             oc_matched_pattern = None, oc_denial_reason = Some (denial_reason task_id path)\<rparr>)"

definition files_outside_ownership :: "list_decoder \<Rightarrow> string \<Rightarrow> string list \<Rightarrow> string list" where
  "files_outside_ownership from_str owned_paths_json touched_paths =
     (let patterns = patterns_of from_str owned_paths_json
      in if patterns = [] then []
         else filter (\<lambda>path. \<not> list_ex (pattern_accepts path) patterns) touched_paths)"

abbreviation dir_of :: "string \<Rightarrow> string" where
  "dir_of pat \<equiv> trim_end_matches ''/**'' pat"

definition patterns_overlap :: "string \<Rightarrow> string \<Rightarrow> bool" where
  "patterns_overlap c e \<longleftrightarrow>
     c = e \<or> dir_of c = dir_of e \<or> starts_with c (dir_of e) \<or> starts_with e (dir_of c)"

text \<open>A conflict is reported as the pair of patterns the source prints with an arrow between them.\<close>

definition check_ownership_overlap :: "list_decoder \<Rightarrow> string \<Rightarrow> string \<Rightarrow> (string \<times> string) list" where
  "check_ownership_overlap from_str claimed_paths_json existing_paths_json =
     concat (map (\<lambda>c. map (\<lambda>e. (c, e)) (filter (patterns_overlap c) (patterns_of from_str existing_paths_json)))
       (patterns_of from_str claimed_paths_json))"

fun push_new :: "string list \<Rightarrow> string list \<Rightarrow> string list" where
  "push_new existing [] = existing"
| "push_new existing (p # ps) = push_new (if p \<in> set existing then existing else existing @ [p]) ps"

definition expand_owned_paths :: "list_decoder \<Rightarrow> list_encoder \<Rightarrow> string \<Rightarrow> string list \<Rightarrow> string" where
  "expand_owned_paths from_str to_str existing_json new_patterns =
     to_str (push_new (patterns_of from_str existing_json) new_patterns)"

record task_row =
  row_id :: string
  row_status :: string
  row_owned_paths_json :: "string option"

definition update_owned_paths :: "task_row list \<Rightarrow> string \<Rightarrow> string \<Rightarrow> task_row list" where
  "update_owned_paths rows task_id json =
     map (\<lambda>r. if row_id r = task_id then r\<lparr>row_owned_paths_json := Some json\<rparr> else r) rows"

definition set_ownership :: "list_encoder \<Rightarrow> task_row list \<Rightarrow> string \<Rightarrow> string list \<Rightarrow> task_row list" where
  "set_ownership to_str rows task_id paths = update_owned_paths rows task_id (to_str paths)"

definition select_owned_paths :: "task_row list \<Rightarrow> string \<Rightarrow> string option" where
  "select_owned_paths rows task_id =
     (case find (\<lambda>r. row_id r = task_id) rows of Some r \<Rightarrow> row_owned_paths_json r | None \<Rightarrow> None)"

definition expand_ownership ::
  "list_decoder \<Rightarrow> list_encoder \<Rightarrow> task_row list \<Rightarrow> string \<Rightarrow> string list \<Rightarrow> string \<times> task_row list" where
  "expand_ownership from_str to_str rows task_id new_paths =
     (let existing_json = (case select_owned_paths rows task_id of Some j \<Rightarrow> j | None \<Rightarrow> ''[]'');
          expanded = expand_owned_paths from_str to_str existing_json new_paths
      in (expanded, update_owned_paths rows task_id expanded))"

definition check_claim_overlap ::
  "list_decoder \<Rightarrow> task_row list \<Rightarrow> string \<Rightarrow> string \<Rightarrow> (string \<times> (string \<times> string) list) list" where
  "check_claim_overlap from_str rows task_id new_paths_json =
     filter (\<lambda>(_, conflicts). conflicts \<noteq> [])
       (map (\<lambda>r. (row_id r, check_ownership_overlap from_str new_paths_json (the (row_owned_paths_json r))))
         (filter (\<lambda>r. row_status r \<in> {''claimed'', ''active''} \<and> row_id r \<noteq> task_id \<and> row_owned_paths_json r \<noteq> None)
           rows))"

section \<open>The JSON library\<close>

text \<open>What is relied on of \<^verbatim>\<open>serde_json\<close>: a printed list decodes to itself, prints as \<^verbatim>\<open>[]\<close> exactly
  when it is empty and never as \<^verbatim>\<open>null\<close> or as the empty text.\<close>

definition list_codec :: "list_decoder \<Rightarrow> list_encoder \<Rightarrow> bool" where
  "list_codec from_str to_str \<longleftrightarrow>
     (\<forall>ps. from_str (to_str ps) = Some ps \<and> to_str ps \<noteq> [] \<and> to_str ps \<noteq> ''null'' \<and> (to_str ps = ''[]'' \<longleftrightarrow> ps = []))"

text \<open>A printer and a parser with these laws: every string is printed as its characters, each behind
  a quote, and closed by a comma.\<close>

definition print_list :: list_encoder where
  "print_list ps =
     ''['' @ concat (map (\<lambda>p. concat (map (\<lambda>c. [CHR 0x22, c]) p) @ '','') ps) @ '']''"

fun parse_items :: "string \<Rightarrow> string \<Rightarrow> string list option" where
  "parse_items acc (c # d # s) =
     (if c = CHR 0x22 then parse_items (acc @ [d]) s
      else if c = CHR '','' then map_option ((#) acc) (parse_items [] (d # s))
      else None)"
| "parse_items acc s = (if acc = [] \<and> s = '']'' then Some [] else None)"

definition parse_list :: list_decoder where
  "parse_list s = (case s of c # rest \<Rightarrow> if c = CHR ''['' then parse_items [] rest else None | [] \<Rightarrow> None)"

section \<open>Lemmas\<close>

lemma parse_items_chars:
  "s \<noteq> [] \<Longrightarrow> parse_items acc (concat (map (\<lambda>c. [CHR 0x22, c]) p) @ CHR '','' # s) =
     map_option ((#) (acc @ p)) (parse_items [] s)"
proof (induction p arbitrary: acc)
  case Nil
  then show ?case by (cases s) auto
next
  case (Cons c p)
  then show ?case by simp
qed

lemma parse_items_print:
  "parse_items [] (concat (map (\<lambda>p. concat (map (\<lambda>c. [CHR 0x22, c]) p) @ '','') ps) @ '']'') = Some ps"
  by (induction ps) (auto simp: parse_items_chars)

lemma sample_codec: "list_codec parse_list print_list"
  unfolding list_codec_def
proof (intro allI conjI)
  fix ps
  show "parse_list (print_list ps) = Some ps" by (simp add: parse_list_def print_list_def parse_items_print)
  show "print_list ps \<noteq> []" "print_list ps \<noteq> ''null''" by (simp_all add: print_list_def)
  show "print_list ps = ''[]'' \<longleftrightarrow> ps = []" by (cases ps) (auto simp: print_list_def append_eq_Cons_conv)
qed

lemma set_push_new: "set (push_new existing ps) = set existing \<union> set ps"
  by (induction existing ps rule: push_new.induct) auto

lemma push_new_distinct: "distinct existing \<Longrightarrow> distinct (push_new existing ps)"
  by (induction existing ps rule: push_new.induct) auto

lemma push_new_Nil: "push_new existing ps = [] \<longleftrightarrow> existing = [] \<and> ps = []"
  using set_push_new [of existing ps] by (metis Un_empty set_empty)

lemma allowed_iff:
  "oc_allowed (check_path_ownership from_str task_id json path) \<longleftrightarrow>
     json \<in> {[], ''[]'', ''null''} \<or> patterns_of from_str json = [] \<or>
     list_ex (pattern_accepts path) (patterns_of from_str json)"
proof (cases "find (pattern_accepts path) (patterns_of from_str json)")
  case None
  then have "\<not> list_ex (pattern_accepts path) (patterns_of from_str json)" by (auto simp: list_ex_iff find_None_iff)
  with None show ?thesis by (simp add: check_path_ownership_def unrestricted_def)
next
  case (Some p)
  then have "list_ex (pattern_accepts path) (patterns_of from_str json)" by (auto simp: list_ex_iff find_Some_iff)
  with Some show ?thesis by (simp add: check_path_ownership_def unrestricted_def)
qed

lemma select_update:
  "select_owned_paths (update_owned_paths rows task_id json) other =
     (if other = task_id \<and> task_id \<in> row_id ` set rows then Some json else select_owned_paths rows other)"
proof (induction rows)
  case (Cons r rows)
  then show ?case by (cases "row_id r = task_id"; cases "row_id r = other")
      (auto simp: select_owned_paths_def update_owned_paths_def)
qed (simp add: select_owned_paths_def update_owned_paths_def)

lemma select_Some_row: "select_owned_paths rows task_id = Some j \<Longrightarrow> task_id \<in> row_id ` set rows"
  by (auto simp: select_owned_paths_def find_Some_iff split: option.splits)

text \<open>The scope a codec prints allows a path iff it is empty or one of its patterns accepts it.\<close>

lemma allowed_printed:
  assumes "list_codec from_str to_str"
  shows "oc_allowed (check_path_ownership from_str task_id (to_str ps) path) \<longleftrightarrow>
    ps = [] \<or> list_ex (pattern_accepts path) ps"
  using assms by (auto simp: allowed_iff list_codec_def patterns_of_def)

lemma starts_with_overlap_sym: "patterns_overlap c e = patterns_overlap e c"
  by (auto simp: patterns_overlap_def)

lemma token_match_literals:
  "token_match (map Lit d @ ts) s \<longleftrightarrow> prefix d s \<and> token_match ts (drop (length d) s)"
  by (induction d arbitrary: s) (auto split: list.splits)

text \<open>The patterns a scope of whole directories is made of: a directory without wild cards.\<close>

definition plain_dir :: "string \<Rightarrow> bool" where
  "plain_dir d \<longleftrightarrow> STAR \<notin> set d \<and> QMARK \<notin> set d"

lemma loose_tokenize_literals: "plain_dir d \<Longrightarrow> loose_tokenize (d @ p) = map Lit d @ loose_tokenize p"
  by (induction d) (auto simp: plain_dir_def)

lemma dir_glob_accepts:
  assumes "plain_dir d" "plain_path path"
  shows "pattern_accepts path (d @ ''/**'') \<longleftrightarrow> prefix (d @ ''/'') path"
proof -
  have "well_formed_glob (d @ ''/**'')"
    unfolding well_formed_glob_def
  proof (intro allI impI)
    fix i
    assume i: "i < length (d @ ''/**'') - 2"
      "(d @ ''/**'') ! i = STAR \<and> (d @ ''/**'') ! (i + 1) = STAR \<and> (d @ ''/**'') ! (i + 2) = SLASH"
    then have "(d @ ''/**'') ! i = (d @ ''/'') ! i" "(d @ ''/'') ! i \<in> set (d @ ''/'')"
      by (auto simp: nth_append intro!: nth_mem split: if_splits)
    with i assms(1) show "i = 0 \<or> (d @ ''/**'') ! (i - 1) = SLASH" by (auto simp: plain_dir_def)
  qed
  with assms(2) have "pattern_accepts path (d @ ''/**'') \<longleftrightarrow> token_match (loose_tokenize (d @ ''/**'')) path"
    by (simp add: pattern_accepts_def glob_matches_tokens)
  also have "loose_tokenize (d @ ''/**'') = map Lit (d @ ''/'') @ [AnyText]"
    using assms(1) by (simp add: loose_tokenize_literals)
  also have "token_match (map Lit (d @ ''/'') @ [AnyText]) path \<longleftrightarrow> prefix (d @ ''/'') path"
    unfolding token_match_literals by (auto intro!: bexI [where x = "length path - Suc (length d)"])
  finally show ?thesis .
qed

lemma dir_of_glob: "plain_dir d \<Longrightarrow> dir_of (d @ ''/**'') = d"
proof -
  assume d: "plain_dir d"
  have "\<not> suffix ''/**'' d" using d set_mono_suffix [of "''/**''" d] by (auto simp: plain_dir_def)
  then have "dir_of d = d" by (subst trim_end_matches.simps) simp
  then show ?thesis by (subst trim_end_matches.simps) (simp add: suffix_def)
qed

section \<open>Properties\<close>

text \<open>Expanding the scope of a task stores, for this task only, a scope that allows exactly the
  paths accepted by an old or a new pattern; a task without a scope, which may touch everything, is
  thereby restricted to the new patterns.\<close>

theorem expand_ownership_scope:
  assumes "list_codec from_str to_str" "select_owned_paths rows task_id = Some (to_str old)"
    and "expand_ownership from_str to_str rows task_id new = (json, rows')"
  shows "select_owned_paths rows' task_id = Some json \<and>
    (\<forall>other. other \<noteq> task_id \<longrightarrow> select_owned_paths rows' other = select_owned_paths rows other) \<and>
    (\<forall>path. oc_allowed (check_path_ownership from_str task_id json path) \<longleftrightarrow>
       old = [] \<and> new = [] \<or> list_ex (pattern_accepts path) (old @ new))"
proof -
  have "json = to_str (push_new old new)" and rows': "rows' = update_owned_paths rows task_id json"
    using assms by (auto simp: expand_ownership_def expand_owned_paths_def patterns_of_def list_codec_def)
  then have "oc_allowed (check_path_ownership from_str task_id json path) \<longleftrightarrow>
      old = [] \<and> new = [] \<or> list_ex (pattern_accepts path) (old @ new)" for path
    using allowed_printed [OF assms(1)] by (auto simp: push_new_Nil list_ex_iff set_push_new)
  then show ?thesis
    using select_Some_row [OF assms(2)] by (simp add: rows' select_update)
qed

theorem expand_ownership_scope_witness:
  "\<exists>from_str to_str. list_codec from_str to_str \<and>
     (\<forall>path. oc_allowed (check_path_ownership from_str ''T1''
        (fst (expand_ownership from_str to_str
          [\<lparr>row_id = ''T1'', row_status = ''active'', row_owned_paths_json = Some (to_str [])\<rparr>] ''T1'' [''src/**''])) path) \<longleftrightarrow>
        pattern_accepts path ''src/**'')"
proof -
  let ?r = "[\<lparr>row_id = ''T1'', row_status = ''active'', row_owned_paths_json = Some (print_list [])\<rparr>]"
  have "select_owned_paths ?r ''T1'' = Some (print_list [])" by (simp add: select_owned_paths_def)
  from expand_ownership_scope [OF sample_codec this, of "[''src/**'']"] sample_codec show ?thesis
    by (intro exI [where x = parse_list] exI [where x = print_list]) (simp add: prod_eq_iff)
qed

text \<open>Overlap detection is complete for scopes of whole directories: if some path is in a claimed
  and in an existing directory scope, the pair of patterns is reported.\<close>

theorem directory_overlap_detected:
  assumes "plain_dir c" "plain_dir e" "plain_path path"
    and "pattern_accepts path (c @ ''/**'')" "pattern_accepts path (e @ ''/**'')"
    and "c @ ''/**'' \<in> set (patterns_of from_str claimed)" "e @ ''/**'' \<in> set (patterns_of from_str existing)"
  shows "(c @ ''/**'', e @ ''/**'') \<in> set (check_ownership_overlap from_str claimed existing)"
proof -
  have "prefix (c @ ''/'') path" "prefix (e @ ''/'') path" using assms(1-5) dir_glob_accepts by blast+
  then have "prefix c path" "prefix e path" by (auto intro: prefix_order.trans prefixI)
  then have "prefix c e \<or> prefix e c" using prefix_same_cases by blast
  then have "starts_with (e @ ''/**'') c \<or> starts_with (c @ ''/**'') e"
    by (auto simp: starts_with_def intro: prefix_prefix)
  then have "patterns_overlap (c @ ''/**'') (e @ ''/**'')"
    using assms(1,2) by (auto simp: patterns_overlap_def dir_of_glob)
  with assms(6,7) show ?thesis by (force simp: check_ownership_overlap_def)
qed

theorem directory_overlap_detected_witness:
  "(''src/**'', ''src/a/**'') \<in> set (check_ownership_overlap
     (\<lambda>j. if j = ''C'' then Some [''src/**''] else Some [''src/a/**'']) ''C'' ''E'')"
proof -
  let ?f = "\<lambda>j. if j = ''C'' then Some [''src/**''] else Some [''src/a/**'']"
  have d: "plain_dir ''src''" "plain_dir ''src/a''" "plain_path ''src/a/x.rs''"
    by (simp_all add: plain_dir_def plain_path_def less_Suc_eq)
  moreover have "pattern_accepts ''src/a/x.rs'' (''src'' @ ''/**'')" "pattern_accepts ''src/a/x.rs'' (''src/a'' @ ''/**'')"
    using dir_glob_accepts [OF d(1,3)] dir_glob_accepts [OF d(2,3)] by simp_all
  ultimately show ?thesis
    using directory_overlap_detected [of "''src''" "''src/a''" "''src/a/x.rs''" ?f "''C''" "''E''"]
    by (simp add: patterns_of_def)
qed

end
