(* ===== verification/Task_Storage.thy ===== *)
theory Task_Storage
  imports Task_Tables Ownership "HOL-Library.Product_Lexorder"
begin

text \<open>
  The task store (\<^verbatim>\<open>tasks/storage.rs\<close>), its lease functions (\<^verbatim>\<open>tasks/janitor.rs\<close>) and one round of
  each background job (\<^verbatim>\<open>tasks/jobs.rs\<close>). Every operation takes the database and answers with its result and
  the database after it. The clock is read once per call; random row ids are arguments; statements fail by the
  constraints of the schema and not by timeouts or I/O.
\<close>

datatype task_error = Db db_error | TaskCode int | NotResumable int int | TaskMessage string

definition TASK_NOT_FOUND :: int where "TASK_NOT_FOUND = - 32010"
definition TASK_ALREADY_CLAIMED :: int where "TASK_ALREADY_CLAIMED = - 32011"
definition MISSING_COMPLETION_NOTES :: int where "MISSING_COMPLETION_NOTES = - 32014"

text \<open>A statement whose error is passed on with \<^verbatim>\<open>?\<close>: nothing happened to the database.\<close>

definition execute :: "task_db \<Rightarrow> (task_db \<times> nat, db_error) result \<Rightarrow> (task_db \<Rightarrow> nat \<Rightarrow> ('a, task_error) result \<times> task_db) \<Rightarrow>
   ('a, task_error) result \<times> task_db" where
  "execute db r k = (case r of Err e \<Rightarrow> (Err (Db e), db) | Ok (db', n) \<Rightarrow> k db' n)"

section \<open>Tasks\<close>

record task_list_params =
  lp_repo_path :: "string option"
  lp_status :: "string option"
  lp_agent :: "string option"
  lp_severity :: "string option"
  lp_phase :: "string option"
  lp_tag :: "string option"
  lp_search :: "string option"
  lp_limit :: "int option"
  lp_offset :: "int option"

definition default_list_params :: task_list_params where
  "default_list_params = \<lparr>lp_repo_path = None, lp_status = None, lp_agent = None, lp_severity = None, lp_phase = None,
     lp_tag = None, lp_search = None, lp_limit = None, lp_offset = None\<rparr>"

definition severity_rank :: "agent_task_row \<Rightarrow> nat" where
  "severity_rank r =
     (if at_severity r = Some ''critical'' then 1 else if at_severity r = Some ''high'' then 2
      else if at_severity r = Some ''medium'' then 3 else 4)"

definition retain_if :: "'p option \<Rightarrow> ('p \<Rightarrow> 'r \<Rightarrow> bool) \<Rightarrow> 'r list \<Rightarrow> 'r list" where
  "retain_if param p rows = (case param of Some x \<Rightarrow> filter (p x) rows | None \<Rightarrow> rows)"

definition has_tag :: "(string \<Rightarrow> string list option) \<Rightarrow> string \<Rightarrow> agent_task_row \<Rightarrow> bool" where
  "has_tag from_str tag r =
     (case from_str (case at_tags r of Some t \<Rightarrow> t | None \<Rightarrow> ''[]'') of Some tags \<Rightarrow> tag \<in> set tags | None \<Rightarrow> False)"

definition matches_search :: "string \<Rightarrow> agent_task_row \<Rightarrow> bool" where
  "matches_search search r \<longleftrightarrow>
     contains (lowercase (at_title r)) (lowercase search) \<or> contains (lowercase (at_id r)) (lowercase search)"

definition list_tasks :: "(string \<Rightarrow> string list option) \<Rightarrow> task_list_params \<Rightarrow> task_db \<Rightarrow> agent_task_row list" where
  "list_tasks from_str params db =
     (let limit = as_usize (min (case lp_limit params of Some l \<Rightarrow> l | None \<Rightarrow> 200) 500);
          offset = as_usize (case lp_offset params of Some o' \<Rightarrow> o' | None \<Rightarrow> 0);
          rows = sort_key (\<lambda>r. (severity_rank r, - at_updated_at r)) (db_tasks db);
          rows = retain_if (lp_repo_path params) (\<lambda>repo r. at_repo_path r = repo) rows;
          rows = retain_if (lp_status params) (\<lambda>status r. at_status r = status) rows;
          rows = retain_if (lp_agent params) (\<lambda>agent r. at_claimed_by r = Some agent) rows;
          rows = retain_if (lp_severity params) (\<lambda>sev r. at_severity r = Some sev) rows;
          rows = retain_if (lp_phase params) (\<lambda>phase r. at_phase r = Some phase) rows;
          rows = retain_if (lp_search params) matches_search rows;
          rows = retain_if (lp_tag params) (has_tag from_str) rows;
          rows = (if offset > 0 then drop offset rows else rows)
      in take limit rows)"

definition get_task :: "string \<Rightarrow> task_db \<Rightarrow> agent_task_row option" where
  "get_task i db = select_by at_id (db_tasks db) i"

record add_task_args =
  ad_id :: string
  ad_title :: string
  ad_task_type :: "string option"
  ad_phase :: "string option"
  ad_group :: "string option"
  ad_parent_id :: "string option"
  ad_severity :: "string option"
  ad_file :: "string option"
  ad_files :: "string option"
  ad_depends_on :: "string option"
  ad_tags :: "string option"
  ad_estimated_minutes :: "int option"
  ad_repo_path :: string

definition or_default :: "'a option \<Rightarrow> 'a \<Rightarrow> 'a" where
  "or_default x d = (case x of Some y \<Rightarrow> y | None \<Rightarrow> d)"

definition new_task_row :: "timestamp \<Rightarrow> add_task_args \<Rightarrow> agent_task_row" where
  "new_task_row now a =
     \<lparr>at_id = ad_id a, at_title = ad_title a, at_task_type = Some (or_default (ad_task_type a) ''code''),
      at_phase = ad_phase a, at_group = ad_group a, at_parent_id = ad_parent_id a,
      at_severity = Some (or_default (ad_severity a) ''medium''), at_status = ''pending'', at_claimed_by = None,
      at_claimed_at = None, at_started_at = None, at_completed_at = None, at_last_heartbeat = None,
      at_file = ad_file a, at_files = Some (or_default (ad_files a) ''[]''),
      at_depends_on = Some (or_default (ad_depends_on a) ''[]''), at_blocks = Some ''[]'',
      at_tags = Some (or_default (ad_tags a) ''[]''), at_notes = None, at_block_reason = None,
      at_estimated_minutes = ad_estimated_minutes a, at_actual_minutes = None, at_repo_path = ad_repo_path a,
      at_created_at = now, at_updated_at = now, at_owned_paths_json = None, at_claimed_by_agent_id = None,
      at_lease_expires_at = None, at_last_heartbeat_at = None\<rparr>"

definition fetch_task :: "string \<Rightarrow> string \<Rightarrow> task_db \<Rightarrow> (agent_task_row, task_error) result \<times> task_db" where
  "fetch_task i missing db = (case get_task i db of Some t \<Rightarrow> (Ok t, db) | None \<Rightarrow> (Err (TaskMessage missing), db))"

definition add_task :: "timestamp \<Rightarrow> add_task_args \<Rightarrow> task_db \<Rightarrow> (agent_task_row, task_error) result \<times> task_db" where
  "add_task now a db =
     (case insert_task (new_task_row now a) db of
        Err e \<Rightarrow> (Err (Db e), db)
      | Ok db' \<Rightarrow> fetch_task (ad_id a) ''task not found after insert'' db')"

text \<open>Claiming: the check of the re-claim window, the guarded \<^verbatim>\<open>UPDATE\<close> that decides the race, and the whole
  call. The overlap warnings it logs are in \<open>claim_conflicts\<close>.\<close>

definition claimable :: "timestamp \<Rightarrow> agent_task_row \<Rightarrow> bool" where
  "claimable now r \<longleftrightarrow>
     (at_status r = ''pending'' \<or> at_status r = ''interrupted'') \<and> (at_claimed_by r = None \<or> at_status r = ''interrupted'') \<or>
     at_status r = ''claimed'' \<and> (case at_lease_expires_at r of Some l \<Rightarrow> l < now | None \<Rightarrow> False)"

definition set_claimed :: "string \<Rightarrow> timestamp \<Rightarrow> agent_task_row \<Rightarrow> agent_task_row" where
  "set_claimed agent_id now r =
     r\<lparr>at_status := ''in_progress'', at_claimed_by := Some agent_id, at_claimed_at := Some now,
       at_started_at := coalesce (at_started_at r) (Some now), at_last_heartbeat := Some now, at_updated_at := now\<rparr>"

definition reclaim_check :: "timestamp \<Rightarrow> int \<Rightarrow> agent_task_row option \<Rightarrow> (unit, task_error) result" where
  "reclaim_check now reclaim_window task =
     (case task of
        Some t \<Rightarrow>
          (if at_status t = ''interrupted''
           then (case at_last_heartbeat t of
               Some last_hb \<Rightarrow>
                 if now - last_hb > reclaim_window * 2 then Err (NotResumable (now - last_hb) (reclaim_window * 2)) else Ok ()
             | None \<Rightarrow> Ok ())
           else Ok ())
      | None \<Rightarrow> Ok ())"

definition claim_update :: "timestamp \<Rightarrow> string \<Rightarrow> string \<Rightarrow> task_db \<Rightarrow> (task_db \<times> nat, db_error) result" where
  "claim_update now task_id agent_id db =
     update_tasks (\<lambda>r. at_id r = task_id \<and> claimable now r) (set_claimed agent_id now) db"

definition claim_task ::
  "timestamp \<Rightarrow> string \<Rightarrow> string \<Rightarrow> int option \<Rightarrow> task_db \<Rightarrow> (agent_task_row, task_error) result \<times> task_db" where
  "claim_task now task_id agent_id heartbeat_timeout_secs db =
     (case reclaim_check now (or_default heartbeat_timeout_secs 90) (get_task task_id db) of
        Err e \<Rightarrow> (Err e, db)
      | Ok _ \<Rightarrow> execute db (claim_update now task_id agent_id db) (\<lambda>db' n.
          if n = 0 then (Err (TaskCode TASK_ALREADY_CLAIMED), db')
          else fetch_task task_id ''task not found after claim'' db'))"

definition claim_conflicts :: "list_decoder \<Rightarrow> string \<Rightarrow> task_db \<Rightarrow> (string \<times> (string \<times> string) list) list" where
  "claim_conflicts from_str task_id db =
     (case get_task task_id db of
        None \<Rightarrow> []
      | Some t \<Rightarrow>
          (case at_owned_paths_json t of
             None \<Rightarrow> []
           | Some new_paths \<Rightarrow>
               if new_paths = ''[]'' \<or> new_paths = ''null'' then []
               else filter (\<lambda>(_, overlaps). overlaps \<noteq> [])
                 (map (\<lambda>r. (at_id r, check_ownership_overlap from_str new_paths (the (at_owned_paths_json r))))
                   (filter (\<lambda>r. at_status r \<in> {''claimed'', ''in_progress'', ''active''} \<and> at_id r \<noteq> task_id \<and>
                       at_owned_paths_json r \<noteq> None) (db_tasks db)))))"

definition set_released :: "timestamp \<Rightarrow> agent_task_row \<Rightarrow> agent_task_row" where
  "set_released now r =
     r\<lparr>at_status := ''pending'', at_claimed_by := None, at_claimed_at := None, at_last_heartbeat := None, at_updated_at := now\<rparr>"

definition release_task :: "timestamp \<Rightarrow> string \<Rightarrow> string \<Rightarrow> task_db \<Rightarrow> (unit, task_error) result \<times> task_db" where
  "release_task now task_id agent_id db =
     execute db (update_tasks (\<lambda>r. at_id r = task_id \<and> at_claimed_by r = Some agent_id) (set_released now) db)
       (\<lambda>db' _. (Ok (), db'))"

definition set_heartbeat :: "timestamp \<Rightarrow> agent_task_row \<Rightarrow> agent_task_row" where
  "set_heartbeat now r = r\<lparr>at_last_heartbeat := Some now, at_updated_at := now\<rparr>"

definition heartbeat_task :: "timestamp \<Rightarrow> string \<Rightarrow> string \<Rightarrow> task_db \<Rightarrow> (unit, task_error) result \<times> task_db" where
  "heartbeat_task now task_id agent_id db =
     execute db (update_tasks (\<lambda>r. at_id r = task_id \<and> at_claimed_by r = Some agent_id) (set_heartbeat now) db)
       (\<lambda>db' _. (Ok (), db'))"

text \<open>Integer division of \<^verbatim>\<open>i64\<close> rounds towards zero.\<close>

definition div_i64 :: "int \<Rightarrow> int \<Rightarrow> int" where
  "div_i64 a b = (if a < 0 then - (- a div b) else a div b)"

definition set_status ::
  "timestamp \<Rightarrow> string \<Rightarrow> string option \<Rightarrow> string option \<Rightarrow> timestamp option \<Rightarrow> int option \<Rightarrow> agent_task_row \<Rightarrow> agent_task_row" where
  "set_status now new_status notes block_reason completed_at actual_minutes r =
     r\<lparr>at_status := new_status, at_notes := coalesce notes (at_notes r), at_block_reason := block_reason,
       at_completed_at := coalesce completed_at (at_completed_at r),
       at_actual_minutes := coalesce actual_minutes (at_actual_minutes r), at_updated_at := now\<rparr>"

definition update_status ::
  "timestamp \<Rightarrow> string \<Rightarrow> string \<Rightarrow> string option \<Rightarrow> string option \<Rightarrow> task_db \<Rightarrow>
   (agent_task_row, task_error) result \<times> task_db" where
  "update_status now task_id new_status notes block_reason db =
     (if new_status = ''done'' \<and> (notes = None \<or> notes = Some []) then (Err (TaskCode MISSING_COMPLETION_NOTES), db)
      else case get_task task_id db of
          None \<Rightarrow> (Err (TaskCode TASK_NOT_FOUND), db)
        | Some task \<Rightarrow>
            (let completed_at = (if new_status = ''done'' then Some now else None);
                 actual_minutes = (if new_status = ''done'' then map_option (\<lambda>s. div_i64 (now - s) 60) (at_started_at task)
                                   else at_actual_minutes task)
             in execute db
                  (update_tasks (\<lambda>r. at_id r = task_id)
                    (set_status now new_status notes block_reason completed_at actual_minutes) db)
                  (\<lambda>db' _. fetch_task task_id ''task not found after update'' db')))"

definition stale :: "timestamp \<Rightarrow> agent_task_row \<Rightarrow> bool" where
  "stale cutoff r \<longleftrightarrow> at_status r = ''in_progress'' \<and> (case at_last_heartbeat r of Some h \<Rightarrow> h < cutoff | None \<Rightarrow> False)"

definition set_interrupted :: "timestamp \<Rightarrow> agent_task_row \<Rightarrow> agent_task_row" where
  "set_interrupted now r = r\<lparr>at_status := ''interrupted'', at_updated_at := now\<rparr>"

definition interrupt_one :: "timestamp \<Rightarrow> task_db \<Rightarrow> string \<Rightarrow> (task_db, db_error) result" where
  "interrupt_one now db i =
     and_then (update_tasks (\<lambda>r. at_id r = i) (set_interrupted now) db) (\<lambda>(db', _). Ok db')"

definition interrupt_stale_tasks :: "timestamp \<Rightarrow> int \<Rightarrow> task_db \<Rightarrow> (string list, task_error) result \<times> task_db" where
  "interrupt_stale_tasks now timeout_secs db =
     (let ids = map at_id (filter (stale (now - timeout_secs)) (db_tasks db))
      in case run_strict (interrupt_one now) db ids of
           Ok db' \<Rightarrow> (Ok ids, db')
         | Err e \<Rightarrow> (Err (Db e), db))"

definition archive_of :: "timestamp \<Rightarrow> agent_task_row \<Rightarrow> archive_row" where
  "archive_of now t =
     \<lparr>ar_id = at_id t, ar_title = at_title t, ar_task_type = at_task_type t, ar_phase = at_phase t, ar_group = at_group t,
      ar_severity = at_severity t, ar_status = at_status t, ar_claimed_by = at_claimed_by t, ar_claimed_at = at_claimed_at t,
      ar_completed_at = at_completed_at t, ar_actual_minutes = at_actual_minutes t, ar_repo_path = at_repo_path t,
      ar_archived_at = now\<rparr>"

definition archivable :: "timestamp \<Rightarrow> agent_task_row \<Rightarrow> bool" where
  "archivable cutoff r \<longleftrightarrow> at_status r = ''done'' \<and> (case at_completed_at r of Some c \<Rightarrow> c < cutoff | None \<Rightarrow> False)"

definition archive_one :: "timestamp \<Rightarrow> agent_task_row \<Rightarrow> task_db \<Rightarrow> task_db" where
  "archive_one now task db = delete_task (at_id task) (insert_archive (archive_of now task) db)"

text \<open>The old done tasks are selected first; moving them is a transaction of its own. \<open>archive_done_tasks\<close> is the call when
  no other call comes between the two; \<open>archive_drops_reopened_task\<close> shows what happens otherwise.\<close>

definition archive_select :: "timestamp \<Rightarrow> int \<Rightarrow> task_db \<Rightarrow> agent_task_row list" where
  "archive_select now visible_hours db = filter (archivable (now - visible_hours * 3600)) (db_tasks db)"

definition archive_move :: "timestamp \<Rightarrow> agent_task_row list \<Rightarrow> task_db \<Rightarrow> task_db" where
  "archive_move now tasks db = fold (archive_one now) tasks db"

definition archive_done_tasks :: "timestamp \<Rightarrow> int \<Rightarrow> task_db \<Rightarrow> nat \<times> task_db" where
  "archive_done_tasks now visible_hours db =
     (let done_old = archive_select now visible_hours db
      in if done_old = [] then (0, db) else (length done_old, archive_move now done_old db))"

record parsed_task =
  pt_id :: string
  pt_title :: string
  pt_severity :: "string option"
  pt_file :: "string option"
  pt_status :: string
  pt_phase :: "string option"
  pt_group :: "string option"

definition set_status_only :: "timestamp \<Rightarrow> string \<Rightarrow> agent_task_row \<Rightarrow> agent_task_row" where
  "set_status_only now st r = r\<lparr>at_status := st, at_updated_at := now\<rparr>"

definition backfill_args :: "string \<Rightarrow> parsed_task \<Rightarrow> add_task_args" where
  "backfill_args repo_path t =
     \<lparr>ad_id = pt_id t, ad_title = pt_title t, ad_task_type = Some ''code'', ad_phase = pt_phase t, ad_group = pt_group t,
      ad_parent_id = None, ad_severity = Some (or_default (pt_severity t) ''medium''), ad_file = pt_file t, ad_files = None,
      ad_depends_on = None, ad_tags = None, ad_estimated_minutes = None, ad_repo_path = repo_path\<rparr>"

definition sync_status :: "timestamp \<Rightarrow> parsed_task \<Rightarrow> task_db \<Rightarrow> (task_db \<times> nat, db_error) result" where
  "sync_status now t db = update_tasks (\<lambda>r. at_id r = pt_id t) (set_status_only now (pt_status t)) db"

definition backfill_one :: "timestamp \<Rightarrow> string \<Rightarrow> parsed_task \<Rightarrow> task_db \<Rightarrow> (nat, task_error) result \<times> task_db" where
  "backfill_one now repo_path t db =
     (case get_task (pt_id t) db of
        Some ex \<Rightarrow>
          if at_status ex \<noteq> pt_status t then execute db (sync_status now t db) (\<lambda>db' _. (Ok 0, db')) else (Ok 0, db)
      | None \<Rightarrow>
          (case add_task now (backfill_args repo_path t) db of
             (Err e, db') \<Rightarrow> (Err e, db')
           | (Ok _, db') \<Rightarrow>
               if pt_status t \<noteq> ''pending'' then execute db' (sync_status now t db') (\<lambda>db'' _. (Ok 1, db'')) else (Ok 1, db')))"

fun backfill_from_tasks ::
  "timestamp \<Rightarrow> string \<Rightarrow> nat \<Rightarrow> parsed_task list \<Rightarrow> task_db \<Rightarrow> (nat, task_error) result \<times> task_db" where
  "backfill_from_tasks now repo_path n [] db = (Ok n, db)"
| "backfill_from_tasks now repo_path n (t # ts) db =
     (case backfill_one now repo_path t db of
        (Err e, db') \<Rightarrow> (Err e, db')
      | (Ok k, db') \<Rightarrow> backfill_from_tasks now repo_path (n + k) ts db')"

section \<open>Activity log\<close>

definition log_activity ::
  "string \<Rightarrow> timestamp \<Rightarrow> string \<Rightarrow> string option \<Rightarrow> string option \<Rightarrow> string \<Rightarrow> string \<Rightarrow> string option \<Rightarrow> string option \<Rightarrow> string \<Rightarrow>
   task_db \<Rightarrow> (activity_log_row, task_error) result \<times> task_db" where
  "log_activity i now agent task_id phase action entry_type detail meta repo_path db =
     (case insert_activity \<lparr>al_id = i, al_ts = now, al_agent = agent, al_task_id = task_id, al_phase = phase, al_action = action,
              al_entry_type = entry_type, al_detail = detail, al_meta = meta, al_repo_path = repo_path\<rparr> db of
        Err e \<Rightarrow> (Err (Db e), db)
      | Ok db' \<Rightarrow> (case select_by al_id (db_activity db') i of Some r \<Rightarrow> (Ok r, db') | None \<Rightarrow> (Err (Db RowNotFound), db')))"

definition post_note ::
  "string \<Rightarrow> timestamp \<Rightarrow> string \<Rightarrow> string option \<Rightarrow> string option \<Rightarrow> string \<Rightarrow> string \<Rightarrow> task_db \<Rightarrow>
   (activity_log_row, task_error) result \<times> task_db" where
  "post_note i now agent task_id phase note repo_path db =
     log_activity i now agent task_id phase (if task_id \<noteq> None then ''agent_note'' else ''phase_note'') ''note'' (Some note) None
       repo_path db"

record activity_query_params =
  qp_repo_path :: "string option"
  qp_task_id :: "string option"
  qp_agent :: "string option"
  qp_phase :: "string option"
  qp_entry_type :: "string option"
  qp_action :: "string option"
  qp_since :: "timestamp option"
  qp_limit :: "int option"
  qp_offset :: "int option"

definition in_phase :: "task_db \<Rightarrow> string \<Rightarrow> activity_log_row \<Rightarrow> bool" where
  "in_phase db phase a \<longleftrightarrow>
     (case al_task_id a of
        Some i \<Rightarrow> (case get_task i db of Some t \<Rightarrow> at_phase t = Some phase | None \<Rightarrow> False)
      | None \<Rightarrow> al_phase a = Some phase)"

definition query_activity :: "activity_query_params \<Rightarrow> task_db \<Rightarrow> activity_log_row list" where
  "query_activity params db =
     (let limit = min (or_default (qp_limit params) 100) 500;
          offset = or_default (qp_offset params) 0;
          newest = sort_key (\<lambda>r. - al_ts r)
      in case qp_phase params of
           Some phase \<Rightarrow>
             limit_offset limit offset
               (newest (filter (\<lambda>a. in_phase db phase a \<and> (case qp_repo_path params of Some p \<Rightarrow> al_repo_path a = p | None \<Rightarrow> True))
                 (db_activity db)))
         | None \<Rightarrow>
             (let rows = limit_offset limit offset (newest (db_activity db));
                  rows = retain_if (qp_task_id params) (\<lambda>t r. al_task_id r = Some t) rows;
                  rows = retain_if (qp_agent params) (\<lambda>a r. al_agent r = a) rows;
                  rows = retain_if (qp_entry_type params) (\<lambda>e r. al_entry_type r = e) rows;
                  rows = retain_if (qp_action params) (\<lambda>a r. al_action r = a) rows;
                  rows = retain_if (qp_since params) (\<lambda>s r. s \<le> al_ts r) rows
              in retain_if (qp_repo_path params) (\<lambda>p r. al_repo_path r = p) rows))"

definition prune_activity_log :: "timestamp \<Rightarrow> int \<Rightarrow> task_db \<Rightarrow> nat \<times> task_db" where
  "prune_activity_log now retention_days db =
     (let old = (\<lambda>r. al_ts r < now - retention_days * 86400)
      in (length (filter old (db_activity db)), db\<lparr>db_activity := delete_where old (db_activity db)\<rparr>))"

section \<open>Agent registry\<close>

definition get_agent :: "string \<Rightarrow> task_db \<Rightarrow> agent_registry_row option" where
  "get_agent agent_id db = select_by ag_agent_id (db_agents db) agent_id"

definition register_agent ::
  "timestamp \<Rightarrow> string \<Rightarrow> string \<Rightarrow> string option \<Rightarrow> string \<Rightarrow> task_db \<Rightarrow> (agent_registry_row, task_error) result \<times> task_db" where
  "register_agent now agent_id agent_type session_id repo_path db =
     (let db' =
        (if agent_id \<in> ag_agent_id ` set (db_agents db)
         then db\<lparr>db_agents := set_where (\<lambda>r. ag_agent_id r = agent_id)
                (\<lambda>r. r\<lparr>ag_status := ''idle'', ag_session_id := session_id, ag_last_seen := now\<rparr>) (db_agents db)\<rparr>
         else db\<lparr>db_agents := db_agents db @
                [\<lparr>ag_agent_id = agent_id, ag_agent_type = agent_type, ag_session_id = session_id, ag_status = ''idle'',
                  ag_current_task_id = None, ag_connected_at = now, ag_last_seen = now, ag_repo_path = repo_path\<rparr>]\<rparr>)
      in (case get_agent agent_id db' of
            Some r \<Rightarrow> (Ok r, db') | None \<Rightarrow> (Err (TaskMessage ''agent not found after register''), db')))"

definition list_agents :: "string option \<Rightarrow> task_db \<Rightarrow> agent_registry_row list" where
  "list_agents repo_path db =
     filter (\<lambda>r. case repo_path of Some p \<Rightarrow> ag_repo_path r = p | None \<Rightarrow> True)
       (sort_key (\<lambda>r. - ag_last_seen r) (filter (\<lambda>r. ag_status r \<noteq> ''disconnected'') (db_agents db)))"

definition update_agent_heartbeat :: "timestamp \<Rightarrow> string \<Rightarrow> task_db \<Rightarrow> (unit, task_error) result \<times> task_db" where
  "update_agent_heartbeat now agent_id db =
     execute db (update_agents (\<lambda>r. ag_agent_id r = agent_id) (\<lambda>r. r\<lparr>ag_last_seen := now, ag_status := ''active''\<rparr>) db)
       (\<lambda>db' _. (Ok (), db'))"

definition set_agent_current_task :: "timestamp \<Rightarrow> string \<Rightarrow> string option \<Rightarrow> task_db \<Rightarrow> (unit, task_error) result \<times> task_db" where
  "set_agent_current_task now agent_id task_id db =
     execute db (update_agents (\<lambda>r. ag_agent_id r = agent_id)
       (\<lambda>r. r\<lparr>ag_current_task_id := task_id, ag_status := (if task_id \<noteq> None then ''active'' else ''idle''), ag_last_seen := now\<rparr>) db)
       (\<lambda>db' _. (Ok (), db'))"

definition mark_agent_disconnected :: "timestamp \<Rightarrow> string \<Rightarrow> task_db \<Rightarrow> (unit, task_error) result \<times> task_db" where
  "mark_agent_disconnected now agent_id db =
     execute db (update_agents (\<lambda>r. ag_agent_id r = agent_id)
       (\<lambda>r. r\<lparr>ag_status := ''disconnected'', ag_current_task_id := None, ag_last_seen := now\<rparr>) db)
       (\<lambda>db' _. (Ok (), db'))"

section \<open>Work sessions and summary\<close>

definition open_work_session :: "string \<Rightarrow> timestamp \<Rightarrow> string \<Rightarrow> task_db \<Rightarrow> (work_session_row, task_error) result \<times> task_db" where
  "open_work_session i now repo_path db =
     (case insert_row ws_id (\<lambda>_. None) (\<lambda>_. True) ''work_sessions''
              \<lparr>ws_id = i, ws_started_at = now, ws_ended_at = None, ws_tasks_completed = 0, ws_tasks_created = 0,
               ws_agents_active = ''[]'', ws_repo_path = repo_path\<rparr> (db_sessions db) of
        Err e \<Rightarrow> (Err (Db e), db)
      | Ok rows \<Rightarrow>
          (case select_by ws_id rows i of
             Some r \<Rightarrow> (Ok r, db\<lparr>db_sessions := rows\<rparr>) | None \<Rightarrow> (Err (Db RowNotFound), db\<lparr>db_sessions := rows\<rparr>)))"

definition close_work_session :: "timestamp \<Rightarrow> string \<Rightarrow> int \<Rightarrow> int \<Rightarrow> task_db \<Rightarrow> task_db" where
  "close_work_session now session_id tasks_completed tasks_created db =
     db\<lparr>db_sessions := set_where (\<lambda>r. ws_id r = session_id)
          (\<lambda>r. r\<lparr>ws_ended_at := Some now, ws_tasks_completed := tasks_completed, ws_tasks_created := tasks_created\<rparr>)
          (db_sessions db)\<rparr>"

text \<open>The average is kept as the sum and the number of the values it is taken over.\<close>

record task_summary =
  ts_total :: int
  ts_done :: int
  ts_in_progress :: int
  ts_blocked :: int
  ts_pending :: int
  ts_avg_duration :: "(int \<times> nat) option"

definition summary :: "string option \<Rightarrow> task_db \<Rightarrow> task_summary" where
  "summary repo_path db =
     (let mine = filter (\<lambda>r. case repo_path of Some p \<Rightarrow> at_repo_path r = p | None \<Rightarrow> True) (db_tasks db);
          total = int (length mine);
          done_n = int (length (filter (\<lambda>r. at_status r = ''done'') mine));
          in_progress = int (length (filter (\<lambda>r. at_status r = ''in_progress'') mine));
          blocked = int (length (filter (\<lambda>r. at_status r \<in> {''blocked'', ''interrupted''}) mine));
          minutes = List.map_filter at_actual_minutes (filter (\<lambda>r. at_status r = ''done'') mine)
      in \<lparr>ts_total = total, ts_done = done_n, ts_in_progress = in_progress, ts_blocked = blocked,
          ts_pending = total - done_n - in_progress - blocked,
          ts_avg_duration = (if minutes = [] then None else Some (sum_list minutes, length minutes))\<rparr>)"

section \<open>Leases\<close>

definition lease_expired :: "timestamp \<Rightarrow> agent_task_row \<Rightarrow> bool" where
  "lease_expired now r \<longleftrightarrow> at_status r = ''claimed'' \<and> (case at_lease_expires_at r of Some l \<Rightarrow> l < now | None \<Rightarrow> False)"

definition set_lease_released :: "timestamp \<Rightarrow> agent_task_row \<Rightarrow> agent_task_row" where
  "set_lease_released now r =
     r\<lparr>at_status := ''open'', at_claimed_by := None, at_claimed_by_agent_id := None, at_lease_expires_at := None,
       at_last_heartbeat_at := None, at_updated_at := now\<rparr>"

text \<open>A failed release is logged and skipped; so is the entry into \<^verbatim>\<open>task_activity_log\<close>, a table no migration
  creates.\<close>

definition release_lease :: "timestamp \<Rightarrow> string \<Rightarrow> task_db \<Rightarrow> task_db" where
  "release_lease now i db =
     (case update_tasks (\<lambda>r. at_id r = i \<and> at_status r = ''claimed'') (set_lease_released now) db of
        Ok (db', _) \<Rightarrow> db' | Err _ \<Rightarrow> db)"

definition release_expired_leases :: "timestamp \<Rightarrow> task_db \<Rightarrow> nat \<times> task_db" where
  "release_expired_leases now db =
     (let expired = map at_id (filter (lease_expired now) (db_tasks db))
      in if expired = [] then (0, db) else (length expired, fold (release_lease now) expired db))"

definition extend_lease :: "timestamp \<Rightarrow> string \<Rightarrow> int \<Rightarrow> task_db \<Rightarrow> (timestamp, task_error) result \<times> task_db" where
  "extend_lease now task_id extend_secs db =
     execute db (update_tasks (\<lambda>r. at_id r = task_id \<and> at_status r = ''claimed'')
         (\<lambda>r. r\<lparr>at_lease_expires_at := Some (now + extend_secs), at_last_heartbeat_at := Some now\<rparr>) db)
       (\<lambda>db' n. if n = 0
          then (Err (TaskMessage (''task '' @ quoted task_id @ '' is not currently claimed - cannot extend lease'')), db')
          else (Ok (now + extend_secs), db'))"

definition set_leased :: "timestamp \<Rightarrow> string \<Rightarrow> int \<Rightarrow> agent_task_row \<Rightarrow> agent_task_row" where
  "set_leased now agent_id lease_secs r =
     r\<lparr>at_status := ''claimed'', at_claimed_by := Some agent_id, at_claimed_by_agent_id := Some agent_id,
       at_lease_expires_at := Some (now + lease_secs), at_last_heartbeat_at := Some now, at_updated_at := now\<rparr>"

definition atomic_claim_with_lease ::
  "timestamp \<Rightarrow> string \<Rightarrow> string \<Rightarrow> int \<Rightarrow> task_db \<Rightarrow> (bool, task_error) result \<times> task_db" where
  "atomic_claim_with_lease now task_id agent_id lease_secs db =
     execute db (update_tasks
         (\<lambda>r. at_id r = task_id \<and> at_status r = ''open'' \<and> (case at_lease_expires_at r of Some l \<Rightarrow> l < now | None \<Rightarrow> True))
         (set_leased now agent_id lease_secs) db)
       (\<lambda>db' n. (Ok (n > 0), db'))"

section \<open>Background jobs\<close>

text \<open>One round of the heartbeat checker: the stale tasks are interrupted, each with an activity entry (its
  failure is ignored) and an event.\<close>

fun log_interrupted :: "timestamp \<Rightarrow> string \<Rightarrow> (string \<times> string) list \<Rightarrow> task_db \<Rightarrow> task_db" where
  "log_interrupted now reason [] db = db"
| "log_interrupted now reason ((task_id, log_id) # rest) db =
     log_interrupted now reason rest
       (snd (log_activity log_id now ''system'' (Some task_id) None ''task_released'' ''system'' (Some reason) None [] db))"

definition heartbeat_round ::
  "(nat \<Rightarrow> string) \<Rightarrow> timestamp \<Rightarrow> int \<Rightarrow> task_db \<Rightarrow> string list \<times> task_db" where
  "heartbeat_round fresh_id now timeout_secs db =
     (case interrupt_stale_tasks now timeout_secs db of
        (Ok ids, db') \<Rightarrow>
          (ids, log_interrupted now (''heartbeat timeout after '' @ show_int timeout_secs @ ''s'')
             (zip ids (map fresh_id [0..<length ids])) db')
      | (Err _, db') \<Rightarrow> ([], db'))"

definition session_round :: "string \<Rightarrow> timestamp \<Rightarrow> string \<Rightarrow> string \<Rightarrow> task_db \<Rightarrow> string \<times> task_db" where
  "session_round fresh_id now repo_path current_session_id db =
     (case open_work_session fresh_id now repo_path (close_work_session now current_session_id 0 0 db) of
        (Ok s, db') \<Rightarrow> (ws_id s, db')
      | (Err _, db') \<Rightarrow> (current_session_id, db'))"

end
