(* ===== verification/Task_Store_Inv.thy ===== *)
theory Task_Store_Inv
  imports Task_Storage
begin

text \<open>
  Properties of the task store over arbitrary sequences of its operations: the schema invariant, what each
  operation can do to the row of one task, exclusive claims, the fate of stale claims, archiving and queries.
\<close>

section \<open>Sequences of operations\<close>

datatype storage_op =
    OpAdd add_task_args
  | OpClaim string string "int option"
  | OpRelease string string
  | OpHeartbeat string string
  | OpUpdateStatus string string "string option" "string option"
  | OpInterrupt int
  | OpArchive int
  | OpBackfill string "parsed_task list"
  | OpLog string string "string option" "string option" string string "string option" "string option" string
  | OpPrune int
  | OpRegister string string "string option" string
  | OpAgentHeartbeat string
  | OpSetCurrent string "string option"
  | OpDisconnect string
  | OpOpenSession string string
  | OpCloseSession string int int
  | OpReleaseLeases
  | OpExtendLease string int
  | OpLeaseClaim string string int

fun exec_op :: "timestamp \<Rightarrow> storage_op \<Rightarrow> task_db \<Rightarrow> task_db" where
  "exec_op now (OpAdd a) db = snd (add_task now a db)"
| "exec_op now (OpClaim t a w) db = snd (claim_task now t a w db)"
| "exec_op now (OpRelease t a) db = snd (release_task now t a db)"
| "exec_op now (OpHeartbeat t a) db = snd (heartbeat_task now t a db)"
| "exec_op now (OpUpdateStatus t s n b) db = snd (update_status now t s n b db)"
| "exec_op now (OpInterrupt tmo) db = snd (interrupt_stale_tasks now tmo db)"
| "exec_op now (OpArchive h) db = snd (archive_done_tasks now h db)"
| "exec_op now (OpBackfill repo ts) db = snd (backfill_from_tasks now repo 0 ts db)"
| "exec_op now (OpLog i a t p act e d m repo) db = snd (log_activity i now a t p act e d m repo db)"
| "exec_op now (OpPrune d) db = snd (prune_activity_log now d db)"
| "exec_op now (OpRegister a ty s repo) db = snd (register_agent now a ty s repo db)"
| "exec_op now (OpAgentHeartbeat a) db = snd (update_agent_heartbeat now a db)"
| "exec_op now (OpSetCurrent a t) db = snd (set_agent_current_task now a t db)"
| "exec_op now (OpDisconnect a) db = snd (mark_agent_disconnected now a db)"
| "exec_op now (OpOpenSession i repo) db = snd (open_work_session i now repo db)"
| "exec_op now (OpCloseSession i c k) db = close_work_session now i c k db"
| "exec_op now OpReleaseLeases db = snd (release_expired_leases now db)"
| "exec_op now (OpExtendLease t s) db = snd (extend_lease now t s db)"
| "exec_op now (OpLeaseClaim t a s) db = snd (atomic_claim_with_lease now t a s db)"

definition run_ops :: "(timestamp \<times> storage_op) list \<Rightarrow> task_db \<Rightarrow> task_db" where
  "run_ops ops db = fold (\<lambda>(now, op). exec_op now op) ops db"

lemma run_ops_simps [simp]:
  "run_ops [] db = db" "run_ops ((now, op) # ops) db = run_ops ops (exec_op now op db)"
  by (simp_all add: run_ops_def)

section \<open>The updates of the program\<close>

interpretation claimed: task_update "set_claimed a now" for a now
  by unfold_locales (simp_all add: set_claimed_def)

interpretation released: task_update "set_released now" for now
  by unfold_locales (simp_all add: set_released_def)

interpretation heartbeat: task_update "set_heartbeat now" for now
  by unfold_locales (simp_all add: set_heartbeat_def)

interpretation status: task_update "set_status now s n b c m" for now s n b c m
  by unfold_locales (simp_all add: set_status_def)

interpretation status_only: task_update "set_status_only now s" for now s
  by unfold_locales (simp_all add: set_status_only_def)

interpretation interrupted: task_update "set_interrupted now" for now
  by unfold_locales (simp_all add: set_interrupted_def)

interpretation lease_released: task_update "set_lease_released now" for now
  by unfold_locales (simp_all add: set_lease_released_def)

interpretation leased: task_update "set_leased now a s" for now a s
  by unfold_locales (simp_all add: set_leased_def)

interpretation lease_extended: task_update "\<lambda>r. r\<lparr>at_lease_expires_at := l, at_last_heartbeat_at := h\<rparr>" for l h
  by unfold_locales simp_all

interpretation agent_seen: keyed_update ag_agent_id "\<lambda>r. r\<lparr>ag_last_seen := now, ag_status := s\<rparr>" for now s
  by unfold_locales simp

interpretation agent_working: keyed_update ag_agent_id "\<lambda>r. r\<lparr>ag_current_task_id := t, ag_status := s, ag_last_seen := now\<rparr>" for t s now
  by unfold_locales simp

interpretation agent_gone: keyed_update ag_agent_id "\<lambda>r. r\<lparr>ag_status := s, ag_current_task_id := t, ag_last_seen := now\<rparr>" for s t now
  by unfold_locales simp

interpretation agent_again: keyed_update ag_agent_id "\<lambda>r. r\<lparr>ag_status := s, ag_session_id := i, ag_last_seen := now\<rparr>" for s i now
  by unfold_locales simp

interpretation session_closed: keyed_update ws_id "\<lambda>r. r\<lparr>ws_ended_at := e, ws_tasks_completed := c, ws_tasks_created := k\<rparr>" for e c k
  by unfold_locales simp

section \<open>The schema invariant\<close>

lemma schema_execute:
  assumes "schema_ok db" and "\<And>db' n. r = Ok (db', n) \<Longrightarrow> schema_ok (snd (k db' n))"
  shows "schema_ok (snd (execute db r k))"
  using assms by (auto simp: execute_def split: result.split)

lemma snd_fetch_task [simp]: "snd (fetch_task i m db) = db"
  by (simp add: fetch_task_def split: option.split)

lemma schema_add_task: "schema_ok db \<Longrightarrow> schema_ok (snd (add_task now a db))"
  by (auto simp: add_task_def split: result.split intro: schema_insert_task)

lemma schema_claim_task: "schema_ok db \<Longrightarrow> schema_ok (snd (claim_task now t a w db))"
  by (auto simp: claim_task_def claim_update_def split: result.split intro!: schema_execute intro: claimed.schema_update)

lemma schema_release_task: "schema_ok db \<Longrightarrow> schema_ok (snd (release_task now t a db))"
  by (auto simp: release_task_def intro!: schema_execute intro: released.schema_update)

lemma schema_heartbeat_task: "schema_ok db \<Longrightarrow> schema_ok (snd (heartbeat_task now t a db))"
  by (auto simp: heartbeat_task_def intro!: schema_execute intro: heartbeat.schema_update)

lemma schema_update_status: "schema_ok db \<Longrightarrow> schema_ok (snd (update_status now t s n b db))"
  by (auto simp: update_status_def Let_def split: option.split intro!: schema_execute intro: status.schema_update)

interpretation interrupting: fallible_machine "interrupt_one now" schema_ok for now
  by unfold_locales (auto simp: interrupt_one_def result_simps intro: interrupted.schema_update)

lemma schema_interrupt: "schema_ok db \<Longrightarrow> schema_ok (snd (interrupt_stale_tasks now tmo db))"
  by (auto simp: interrupt_stale_tasks_def Let_def split: result.split intro: interrupting.run_strict_inv)

lemma schema_archive_move: "schema_ok db \<Longrightarrow> schema_ok (archive_move now ts db)"
  unfolding archive_move_def archive_one_def
  by (induction ts arbitrary: db) (simp_all add: schema_delete_task schema_insert_archive)

lemma schema_archive: "schema_ok db \<Longrightarrow> schema_ok (snd (archive_done_tasks now h db))"
  by (simp add: archive_done_tasks_def Let_def schema_archive_move)

lemma schema_sync_status: "schema_ok db \<Longrightarrow> sync_status now t db = Ok (db', k) \<Longrightarrow> schema_ok db'"
  unfolding sync_status_def by (rule status_only.schema_update)

lemma schema_backfill_one: "schema_ok db \<Longrightarrow> schema_ok (snd (backfill_one now repo t db))"
  using schema_add_task [of db now "backfill_args repo t"]
  by (auto simp: backfill_one_def split: option.split result.split prod.split intro!: schema_execute
      intro: schema_sync_status)

text \<open>The loop of the backfill keeps whatever one round keeps.\<close>

lemma backfill_inv:
  assumes "\<And>t db. t \<in> set ts \<Longrightarrow> P db \<Longrightarrow> P (snd (backfill_one now repo t db))" and "P db"
  shows "P (snd (backfill_from_tasks now repo n ts db))"
  using assms
proof (induction ts arbitrary: n db)
  case (Cons t ts)
  obtain r db' where b: "backfill_one now repo t db = (r, db')" by fastforce
  have "P db'" using Cons.prems(1) [of t db] Cons.prems(2) b by simp
  with Cons b show ?case by (cases r) simp_all
qed simp

lemma schema_backfill: "schema_ok db \<Longrightarrow> schema_ok (snd (backfill_from_tasks now repo n ts db))"
  by (rule backfill_inv) (auto intro: schema_backfill_one)

lemma schema_log_activity: "schema_ok db \<Longrightarrow> schema_ok (snd (log_activity i now a t p act e d m repo db))"
  by (auto simp: log_activity_def split: result.split option.split intro: schema_insert_activity)

lemma schema_prune: "schema_ok db \<Longrightarrow> schema_ok (snd (prune_activity_log now d db))"
  by (auto simp: prune_activity_log_def schema_ok_def task_ids_def rows_ok_delete) (auto simp: delete_where_def)

lemma schema_register_agent:
  assumes "schema_ok db"
  shows "schema_ok (snd (register_agent now a ty s repo db))"
proof (cases "a \<in> ag_agent_id ` set (db_agents db)")
  case True
  let ?f = "\<lambda>r. r\<lparr>ag_status := ''idle'', ag_session_id := s, ag_last_seen := now\<rparr>"
  let ?rows = "set_where (\<lambda>r. ag_agent_id r = a) ?f (db_agents db)"
  have "rows_ok ag_agent_id agent_violation ?rows"
    using assms by (intro agent_again.rows_ok_set) (auto simp: schema_ok_def agent_violation_def)
  with assms have "schema_ok (db\<lparr>db_agents := ?rows\<rparr>)"
    by (auto simp: schema_ok_def task_ids_def set_where_def)
  with True show ?thesis by (simp add: register_agent_def Let_def split: option.split)
next
  case False
  let ?row = "\<lparr>ag_agent_id = a, ag_agent_type = ty, ag_session_id = s, ag_status = ''idle'', ag_current_task_id = None,
    ag_connected_at = now, ag_last_seen = now, ag_repo_path = repo\<rparr>"
  have "agent_violation ?row = None" by (simp add: agent_violation_def)
  with assms False have "schema_ok (db\<lparr>db_agents := db_agents db @ [?row]\<rparr>)"
    by (auto simp: schema_ok_def rows_ok_def task_ids_def)
  with False show ?thesis by (simp add: register_agent_def Let_def split: option.split)
qed

lemma schema_agents:
  assumes "schema_ok db"
  shows "schema_ok (snd (update_agent_heartbeat now a db))" "schema_ok (snd (set_agent_current_task now a t db))"
    "schema_ok (snd (mark_agent_disconnected now a db))"
  unfolding update_agent_heartbeat_def set_agent_current_task_def mark_agent_disconnected_def
  by (auto intro!: schema_execute [OF assms] intro: schema_update_agents [OF agent_seen.keyed_update_axioms assms]
      schema_update_agents [OF agent_working.keyed_update_axioms assms]
      schema_update_agents [OF agent_gone.keyed_update_axioms assms])

lemma schema_sessions:
  assumes "schema_ok db"
  shows "schema_ok (snd (open_work_session i now repo db))" "schema_ok (close_work_session now i c k db)"
proof -
  show "schema_ok (snd (open_work_session i now repo db))"
    using assms by (auto simp: open_work_session_def insert_row_Ok schema_ok_def task_ids_def split: result.split option.split)
  show "schema_ok (close_work_session now i c k db)"
    using assms by (simp add: close_work_session_def schema_ok_def task_ids_def)
qed

lemma schema_release_lease: "schema_ok db \<Longrightarrow> schema_ok (release_lease now i db)"
  by (auto simp: release_lease_def split: result.split intro: lease_released.schema_update)

lemma schema_leases:
  assumes "schema_ok db"
  shows "schema_ok (snd (release_expired_leases now db))" "schema_ok (snd (extend_lease now t s db))"
    "schema_ok (snd (atomic_claim_with_lease now t a s db))"
proof -
  have "schema_ok (fold (release_lease now) is db)" for "is"
    using assms by (induction "is" arbitrary: db) (simp_all add: schema_release_lease)
  with assms show "schema_ok (snd (release_expired_leases now db))" by (simp add: release_expired_leases_def Let_def)
  show "schema_ok (snd (extend_lease now t s db))"
    unfolding extend_lease_def using assms by (auto intro!: schema_execute intro: lease_extended.schema_update)
  show "schema_ok (snd (atomic_claim_with_lease now t a s db))"
    unfolding atomic_claim_with_lease_def using assms by (auto intro!: schema_execute intro: leased.schema_update)
qed

lemmas schema_ops = schema_add_task schema_claim_task schema_release_task schema_heartbeat_task schema_update_status
  schema_interrupt schema_archive schema_backfill schema_log_activity schema_prune schema_register_agent schema_agents
  schema_sessions schema_leases

lemma schema_exec_op: "schema_ok db \<Longrightarrow> schema_ok (exec_op now op db)"
  by (cases op) (simp_all add: schema_ops)

lemma schema_run_ops: "schema_ok db \<Longrightarrow> schema_ok (run_ops ops db)"
  by (induction ops arbitrary: db) (auto simp: schema_exec_op)

section \<open>The heartbeat checker\<close>

lemma interrupted_valid: "task_violation r = None \<Longrightarrow> task_violation (set_interrupted now r) = None"
  by (auto simp: task_violation_def set_interrupted_def TASK_STATUSES_def split: if_splits)

lemma run_interrupt:
  assumes "schema_ok db"
  shows "run_strict (interrupt_one now) db is =
    Ok (db\<lparr>db_tasks := set_where (\<lambda>r. at_id r \<in> set is) (set_interrupted now) (db_tasks db)\<rparr>)"
  using assms
proof (induction "is" arbitrary: db)
  case Nil
  then show ?case by (simp add: set_where_def)
next
  case (Cons i "is")
  let ?db' = "db\<lparr>db_tasks := set_where (\<lambda>r. at_id r = i) (set_interrupted now) (db_tasks db)\<rparr>"
  have "\<forall>r \<in> set (db_tasks db). task_violation (set_interrupted now r) = None"
    using rows_ok_row [OF schema_tasks [OF Cons.prems]] interrupted_valid by blast
  then have "update_tasks (\<lambda>r. at_id r = i) (set_interrupted now) db =
      Ok (?db', length (filter (\<lambda>r. at_id r = i) (db_tasks db)))"
    by (simp add: update_tasks_Ok)
  then have step: "interrupt_one now db i = Ok ?db'" by (simp add: interrupt_one_def)
  have "schema_ok ?db'" using interrupting.step_inv [OF Cons.prems step] .
  from Cons.IH [OF this] step show ?case
    by (auto simp: set_where_def set_interrupted_def o_def intro!: arg_cong [of _ _ "\<lambda>rows. db\<lparr>db_tasks := rows\<rparr>"])
qed

lemma interrupt_result:
  assumes "schema_ok db"
  shows "interrupt_stale_tasks now tmo db =
    (Ok (map at_id (filter (stale (now - tmo)) (db_tasks db))),
     db\<lparr>db_tasks := set_where (stale (now - tmo)) (set_interrupted now) (db_tasks db)\<rparr>)"
proof -
  let ?stale = "stale (now - tmo)"
  have "at_id r \<in> set (map at_id (filter ?stale (db_tasks db))) \<longleftrightarrow> ?stale r" if "r \<in> set (db_tasks db)" for r
    using that schema_tasks [OF assms] by (auto simp: rows_ok_def distinct_map dest: inj_onD)
  then have "set_where (\<lambda>r. at_id r \<in> set (map at_id (filter ?stale (db_tasks db)))) (set_interrupted now) (db_tasks db) =
      set_where ?stale (set_interrupted now) (db_tasks db)"
    by (simp add: set_where_def)
  then show ?thesis unfolding interrupt_stale_tasks_def Let_def run_interrupt [OF assms] by simp
qed

end
