(* ===== verification/Task_Claims.thy ===== *)
theory Task_Claims
  imports Task_Store_Inv
begin

text \<open>
  Who holds a task. First the frame lemma: everything an operation of the store can do to the row of a given
  task. On top of it, claims are exclusive, and a claim whose holder vanished blocks its task; and the lease
  functions, written for statuses outside the schema, have no effect at all.
\<close>

section \<open>What an operation does to one row\<close>

fun row_change :: "string \<Rightarrow> timestamp \<Rightarrow> storage_op \<Rightarrow> agent_task_row \<Rightarrow> agent_task_row \<Rightarrow> bool" where
  "row_change t now (OpClaim i a w) r r' \<longleftrightarrow>
     i = t \<and> claimable now r \<and> reclaim_check now (or_default w 90) (Some r) = Ok () \<and> r' = set_claimed a now r"
| "row_change t now (OpRelease i a) r r' \<longleftrightarrow> i = t \<and> at_claimed_by r = Some a \<and> r' = set_released now r"
| "row_change t now (OpHeartbeat i a) r r' \<longleftrightarrow> i = t \<and> at_claimed_by r = Some a \<and> r' = set_heartbeat now r"
| "row_change t now (OpUpdateStatus i s n b) r r' \<longleftrightarrow> i = t \<and> (\<exists>c m. r' = set_status now s n b c m r)"
| "row_change t now (OpInterrupt tmo) r r' \<longleftrightarrow> stale (now - tmo) r \<and> r' = set_interrupted now r"
| "row_change t now (OpArchive h) r r' \<longleftrightarrow> (\<exists>p. r' = r\<lparr>at_parent_id := p\<rparr>)"
| "row_change t now (OpBackfill repo ts) r r' \<longleftrightarrow> t \<in> pt_id ` set ts \<and> (\<exists>s. r' = set_status_only now s r)"
| "row_change t now op r r' \<longleftrightarrow> False"

text \<open>An \<^verbatim>\<open>UPDATE\<close> that is executed and whose outcome is only reported.\<close>

lemma get_execute_update:
  assumes "task_update f" and "get_task t db = Some r" and "\<And>db' n. snd (k db' n) = db'"
  shows "get_task t (snd (execute db (update_tasks p f db) k)) = Some r \<or>
    p r \<and> get_task t (snd (execute db (update_tasks p f db) k)) = Some (f r)"
proof (cases "update_tasks p f db")
  case (Ok x)
  obtain db' n where x: "x = (db', n)" by fastforce
  have "select_by at_id (db_tasks db') t = Some (if p r then f r else r)"
    using task_update.get_update [OF assms(1) Ok [unfolded x]] assms(2) by (simp add: get_task_def)
  with Ok x assms(3) show ?thesis by (simp add: execute_def get_task_def)
next
  case (Err e)
  with assms show ?thesis by (simp add: execute_def)
qed

lemma id_of_get: "get_task t db = Some r \<Longrightarrow> at_id r = t"
  by (simp add: get_task_def) (auto dest: select_by_Some)

lemma get_add: "get_task t db = Some r \<Longrightarrow> get_task t (snd (add_task now a db)) = Some r"
  by (auto simp: add_task_def get_task_def insert_task_Ok select_by_append split: result.split)

text \<open>The possible rows of task \<open>t\<close> behind an operation.\<close>

definition row_after :: "string \<Rightarrow> timestamp \<Rightarrow> storage_op \<Rightarrow> agent_task_row \<Rightarrow> agent_task_row option \<Rightarrow> bool" where
  "row_after t now op r x \<longleftrightarrow> x = Some r \<or> (\<exists>r'. x = Some r' \<and> row_change t now op r r')"

lemma row_after_refl [simp]: "row_after t now op r (Some r)"
  by (simp add: row_after_def)

lemma row_after_change: "row_change t now op r r' \<Longrightarrow> row_after t now op r (Some r')"
  by (simp add: row_after_def)

lemma after_update:
  assumes "task_update f" and "get_task t db = Some r" and "\<And>db' n. snd (k db' n) = db'"
    and "p r \<Longrightarrow> row_change t now op r (f r)"
  shows "row_after t now op r (get_task t (snd (execute db (update_tasks p f db) k)))"
  using get_execute_update [where p = p and k = k, OF assms(1-3)] assms(4) by (auto simp: row_after_def)

lemma after_claim:
  assumes "get_task t db = Some r"
  shows "row_after t now (OpClaim i a w) r (get_task t (snd (claim_task now i a w db)))"
proof (cases "reclaim_check now (or_default w 90) (get_task i db)")
  case (Ok u)
  have "reclaim_check now (or_default w 90) (Some r) = Ok ()" if "i = t" using Ok assms that by simp
  with id_of_get [OF assms] show ?thesis
    unfolding claim_task_def claim_update_def Ok result.simps
    by (intro after_update [OF claimed.task_update_axioms assms]) auto
next
  case (Err e)
  with assms show ?thesis by (simp add: claim_task_def)
qed

lemma after_release:
  assumes "get_task t db = Some r"
  shows "row_after t now (OpRelease i a) r (get_task t (snd (release_task now i a db)))"
  unfolding release_task_def
  by (rule after_update [OF released.task_update_axioms assms]) (auto simp: id_of_get [OF assms])

lemma after_heartbeat:
  assumes "get_task t db = Some r"
  shows "row_after t now (OpHeartbeat i a) r (get_task t (snd (heartbeat_task now i a db)))"
  unfolding heartbeat_task_def
  by (rule after_update [OF heartbeat.task_update_axioms assms]) (auto simp: id_of_get [OF assms])

lemma after_update_status:
  assumes "get_task t db = Some r"
  shows "row_after t now (OpUpdateStatus i s n b) r (get_task t (snd (update_status now i s n b db)))"
proof (cases "s = ''done'' \<and> (n = None \<or> n = Some []) \<or> get_task i db = None")
  case True
  with assms show ?thesis by (auto simp: update_status_def)
next
  case False
  then obtain task where "get_task i db = Some task" by auto
  with False show ?thesis
    unfolding update_status_def Let_def
    by (simp only: if_False de_Morgan_disj option.simps)
      (rule after_update [OF status.task_update_axioms assms], auto simp: id_of_get [OF assms])
qed

lemma after_sync_status:
  assumes "get_task t db = Some r" and "sync_status now p db = Ok (db', n)"
  shows "get_task t db' = Some (if pt_id p = t then set_status_only now (pt_status p) r else r)"
  using status_only.get_update [OF assms(2) [unfolded sync_status_def]] assms(1) id_of_get [OF assms(1)]
  by (auto simp: get_task_def)

lemma after_backfill_one:
  assumes "get_task t db = Some r"
  shows "get_task t (snd (backfill_one now repo p db)) = Some r \<or>
    pt_id p = t \<and> get_task t (snd (backfill_one now repo p db)) = Some (set_status_only now (pt_status p) r)"
proof (cases "get_task (pt_id p) db")
  case (Some ex)
  with assms after_sync_status [OF assms, of now p] show ?thesis
    by (cases "sync_status now p db") (auto simp: backfill_one_def execute_def split: if_splits)
next
  case None
  obtain x db' where x: "add_task now (backfill_args repo p) db = (x, db')" by fastforce
  have r: "get_task t db' = Some r" using get_add [OF assms, of now "backfill_args repo p"] x by simp
  from None assms have "pt_id p \<noteq> t" by auto
  with None x r after_sync_status [OF r, of now p] show ?thesis
    by (cases x; cases "sync_status now p db'") (auto simp: backfill_one_def execute_def)
qed

text \<open>A backfill changes nothing but the status and its time, and only for the tasks of its file.\<close>

lemma after_backfill:
  assumes "get_task t db = Some r"
  shows "row_after t now (OpBackfill repo ts) r (get_task t (snd (backfill_from_tasks now repo n ts db)))"
proof (rule backfill_inv)
  have again: "set_status_only now s (set_status_only now s' r) = set_status_only now s r" for s s'
    by (simp add: set_status_only_def)
  show "row_after t now (OpBackfill repo ts) r (get_task t (snd (backfill_one now repo p db)))"
    if p: "p \<in> set ts" and db: "row_after t now (OpBackfill repo ts) r (get_task t db)" for p db
  proof -
    obtain r1 where r1: "get_task t db = Some r1" and o1: "r1 = r \<or> t \<in> pt_id ` set ts \<and> (\<exists>s. r1 = set_status_only now s r)"
      using db by (auto simp: row_after_def)
    from after_backfill_one [OF r1, of now repo p] o1 p show ?thesis by (auto simp: row_after_def again)
  qed
qed (simp add: assms)

lemma after_interrupt:
  assumes "schema_ok db" and "get_task t db = Some r"
  shows "row_after t now (OpInterrupt tmo) r (get_task t (snd (interrupt_stale_tasks now tmo db)))"
  using assms(2) by (simp add: interrupt_result [OF assms(1)] get_task_def row_after_def)

lemma get_delete: "get_task t (delete_task i db) =
  (if i = t then None else map_option (\<lambda>r. r\<lparr>at_parent_id := forget {i} (at_parent_id r)\<rparr>) (get_task t db))"
proof (cases "i = t")
  case True
  then have "t \<notin> task_ids (delete_task i db)" by (simp add: task_ids_delete)
  with True show ?thesis by (simp add: get_task_def select_by_None task_ids_def)
next
  case False
  have "select_by at_id (delete_where (\<lambda>r. at_id r = i) rows) t = select_by at_id rows t" for rows :: "agent_task_row list"
    using False by (induction rows) (auto simp: select_by_def delete_where_def)
  with False show ?thesis by (simp add: get_task_def delete_task_def select_by_map)
qed

lemma get_insert_archive [simp]: "get_task t (insert_archive row db) = get_task t db"
  by (simp add: get_task_def insert_archive_def)

lemma get_archive_move:
  "get_task t db = Some r \<Longrightarrow> t \<notin> at_id ` set ts \<Longrightarrow> \<exists>p. get_task t (archive_move now ts db) = Some (r\<lparr>at_parent_id := p\<rparr>)"
proof (induction ts arbitrary: db r)
  case Nil
  then show ?case by (auto simp: archive_move_def intro: exI [of _ "at_parent_id r"])
next
  case (Cons a ts)
  have "get_task t (archive_one now a db) = Some (r\<lparr>at_parent_id := forget {at_id a} (at_parent_id r)\<rparr>)"
    using Cons.prems by (auto simp: archive_one_def get_delete)
  from Cons.IH [OF this] Cons.prems show ?case by (simp add: archive_move_def)
qed

lemma after_archive:
  assumes "schema_ok db" and "get_task t db = Some r" and "\<not> archivable (now - h * 3600) r"
  shows "row_after t now (OpArchive h) r (get_task t (snd (archive_done_tasks now h db)))"
proof -
  have "t \<notin> at_id ` set (archive_select now h db)"
    using select_by_eq [OF schema_tasks [OF assms(1)]] assms(2,3) by (auto simp: archive_select_def get_task_def)
  from get_archive_move [OF assms(2) this, of now] assms(2) show ?thesis
    by (auto simp: archive_done_tasks_def Let_def row_after_def)
qed

section \<open>Leases\<close>

lemma status_cases:
  assumes "schema_ok db" and "r \<in> set (db_tasks db)"
  shows "at_status r \<noteq> ''claimed''" "at_status r \<noteq> ''open''" "at_status r \<noteq> ''needs_approval''"
  using status_in_domain [OF assms] by (auto simp: TASK_STATUSES_def)

lemma leases_dead:
  assumes "schema_ok db"
  shows "release_expired_leases now db = (0, db)"
    "extend_lease now t s db = (Err (TaskMessage (''task '' @ quoted t @ '' is not currently claimed - cannot extend lease'')), db)"
    "atomic_claim_with_lease now t a s db = (Ok False, db)"
proof -
  have "filter (lease_expired now) (db_tasks db) = []"
    using status_cases [OF assms] by (auto simp: filter_empty_conv lease_expired_def)
  then show "release_expired_leases now db = (0, db)" by (simp add: release_expired_leases_def)
  have none: "update_tasks p f db = Ok (db, 0)" if "\<forall>r \<in> set (db_tasks db). \<not> p r" for p f
    using that update_none [of "db_tasks db" p task_violation f] by (simp add: update_tasks_def)
  show "extend_lease now t s db = (Err (TaskMessage (''task '' @ quoted t @ '' is not currently claimed - cannot extend lease'')), db)"
    using status_cases [OF assms] by (simp add: extend_lease_def execute_def none)
  show "atomic_claim_with_lease now t a s db = (Ok False, db)"
    using status_cases [OF assms] by (simp add: atomic_claim_with_lease_def execute_def none)
qed

section \<open>The frame lemma\<close>

lemma get_other [simp]:
  "get_task t (snd (log_activity i now a tid p act e d m repo db)) = get_task t db"
  "get_task t (snd (prune_activity_log now d' db)) = get_task t db"
  "get_task t (snd (register_agent now a ty s repo db)) = get_task t db"
  "get_task t (snd (update_agent_heartbeat now a db)) = get_task t db"
  "get_task t (snd (set_agent_current_task now a tid db)) = get_task t db"
  "get_task t (snd (mark_agent_disconnected now a db)) = get_task t db"
  "get_task t (snd (open_work_session i now repo db)) = get_task t db"
  "get_task t (close_work_session now i c k db) = get_task t db"
  by (auto simp: get_task_def log_activity_def insert_activity_def prune_activity_log_def register_agent_def
      update_agent_heartbeat_def set_agent_current_task_def mark_agent_disconnected_def open_work_session_def
      close_work_session_def execute_def update_agents_Ok Let_def result_simps split: result.split option.split)

lemma exec_row:
  assumes "schema_ok db" and "get_task t db = Some r" and "\<And>h. op = OpArchive h \<Longrightarrow> \<not> archivable (now - h * 3600) r"
  shows "row_after t now op r (get_task t (exec_op now op db))"
  using assms
  by (cases op) (simp_all add: get_add after_claim after_release after_heartbeat after_update_status after_interrupt
      after_archive after_backfill leases_dead)

text \<open>A predicate on the row of a task that every allowed operation keeps holds after any run of allowed
  operations, and the task is still there.\<close>

lemma run_row_inv:
  assumes "schema_ok db" and "get_task t db = Some r" and "Q r" and "\<forall>(now, op) \<in> set ops. ok now op"
    and change: "\<And>now op r r'. ok now op \<Longrightarrow> Q r \<Longrightarrow> row_change t now op r r' \<Longrightarrow> Q r'"
    and kept: "\<And>now h r. ok now (OpArchive h) \<Longrightarrow> Q r \<Longrightarrow> \<not> archivable (now - h * 3600) r"
  shows "\<exists>r'. get_task t (run_ops ops db) = Some r' \<and> Q r'"
  using assms(1-4)
proof (induction ops arbitrary: db r)
  case (Cons x ops)
  obtain now op where x: "x = (now, op)" by fastforce
  with Cons.prems have ok: "ok now op" by auto
  have "row_after t now op r (get_task t (exec_op now op db))"
  proof (rule exec_row [OF Cons.prems(1,2)])
    show "\<not> archivable (now - h * 3600) r" if "op = OpArchive h" for h
      by (rule kept) (use ok Cons.prems(3) that in simp_all)
  qed
  then obtain r' where r': "get_task t (exec_op now op db) = Some r'" "Q r'"
    using change [OF ok Cons.prems(3)] Cons.prems(3) by (auto simp: row_after_def)
  from Cons.IH [OF schema_exec_op [OF Cons.prems(1)] r'] Cons.prems(4) x show ?case by auto
qed auto

section \<open>Claims\<close>

lemma claim_update_count:
  assumes "schema_ok db" and "get_task t db = Some r"
  shows "claim_update now t a db =
    (if claimable now r then claim_update now t a db else Ok (db, 0))"
proof (cases "claimable now r")
  case False
  have "\<not> (at_id x = t \<and> claimable now x)" if "x \<in> set (db_tasks db)" for x
    using select_by_eq [OF schema_tasks [OF assms(1)] that] assms(2) False by (auto simp: get_task_def)
  then show ?thesis using False update_none [of "db_tasks db" _ task_violation]
    by (simp add: claim_update_def update_tasks_def)
qed simp

lemma claim_refused:
  assumes "schema_ok db" and "get_task t db = Some r" and "\<not> claimable now r"
    and "reclaim_check now (or_default w 90) (Some r) = Ok ()"
  shows "claim_task now t a w db = (Err (TaskCode TASK_ALREADY_CLAIMED), db)"
  using assms claim_update_count [OF assms(1,2), of now a] by (simp add: claim_task_def execute_def)

lemma claim_granted:
  assumes "schema_ok db" and "claim_task now t a w db = (Ok r, db')"
  shows "get_task t db' = Some r" "at_status r = ''in_progress''" "at_claimed_by r = Some a" "at_last_heartbeat r = Some now"
proof -
  from assms(2) obtain db1 n where u: "claim_update now t a db = Ok (db1, n)" and n: "n \<noteq> 0"
    and f: "fetch_task t ''task not found after claim'' db1 = (Ok r, db')"
    by (auto simp: claim_task_def execute_def split: result.splits if_splits prod.splits)
  from f show get: "get_task t db' = Some r" by (auto simp: fetch_task_def split: option.splits)
  from f have db': "db' = db1" by (auto simp: fetch_task_def split: option.splits)
  have "n = length (filter (\<lambda>r. at_id r = t \<and> claimable now r) (db_tasks db))"
    using u by (simp add: claim_update_def update_tasks_Ok)
  with n count_by_key [OF schema_tasks [OF assms(1)], of t "claimable now"] obtain r0
    where r0: "select_by at_id (db_tasks db) t = Some r0" "claimable now r0"
    by (auto split: option.splits if_splits)
  have "r = set_claimed a now r0"
    using claimed.get_update [OF u [unfolded claim_update_def], of t] r0 get select_by_Some [OF r0(1)]
    by (simp add: get_task_def db')
  then show "at_status r = ''in_progress''" "at_claimed_by r = Some a" "at_last_heartbeat r = Some now"
    by (simp_all add: set_claimed_def)
qed

text \<open>The operations after which a task held by \<open>a\<close> may be free again: its release by \<open>a\<close>, a change of its status, and
  the heartbeat checker.\<close>

fun may_free :: "string \<Rightarrow> string \<Rightarrow> storage_op \<Rightarrow> bool" where
  "may_free t a (OpRelease i b) \<longleftrightarrow> i = t \<and> b = a"
| "may_free t a (OpUpdateStatus i s n b) \<longleftrightarrow> i = t"
| "may_free t a (OpBackfill repo ts) \<longleftrightarrow> t \<in> pt_id ` set ts"
| "may_free t a (OpInterrupt tmo) \<longleftrightarrow> True"
| "may_free t a op \<longleftrightarrow> False"

definition held_by :: "string \<Rightarrow> agent_task_row \<Rightarrow> bool" where
  "held_by a r \<longleftrightarrow> at_status r = ''in_progress'' \<and> at_claimed_by r = Some a"

lemma held_change: "\<not> may_free t a op \<Longrightarrow> held_by a r \<Longrightarrow> row_change t now op r r' \<Longrightarrow> held_by a r'"
  by (cases op) (auto simp: held_by_def claimable_def set_heartbeat_def)

lemma held_not_claimable:
  "held_by a r \<Longrightarrow> \<not> claimable now r" "held_by a r \<Longrightarrow> reclaim_check now w (Some r) = Ok ()"
  by (simp_all add: held_by_def claimable_def reclaim_check_def)

text \<open>C5: Claims are exclusive: after an agent has claimed a task, and whatever any number of agents do in any
  order (claims, heartbeats, releases by others, archiving, registrations, logging), the task stays in progress
  with its holder and every further claim of it is refused, until the holder releases it, its status is set or the
  heartbeat checker runs.\<close>

theorem claim_exclusive:
  assumes "schema_ok db" and "claim_task now t a w db = (Ok r, db1)" and "\<forall>(now', op) \<in> set ops. \<not> may_free t a op"
  shows "(\<exists>r'. get_task t (run_ops ops db1) = Some r' \<and> at_status r' = ''in_progress'' \<and> at_claimed_by r' = Some a) \<and>
    claim_task now' t b w' (run_ops ops db1) = (Err (TaskCode TASK_ALREADY_CLAIMED), run_ops ops db1)"
proof -
  have db1: "schema_ok db1" using schema_claim_task [OF assms(1), of now t a w] assms(2) by simp
  have "held_by a r" using claim_granted [OF assms(1,2)] by (simp add: held_by_def)
  have "\<exists>r'. get_task t (run_ops ops db1) = Some r' \<and> held_by a r'"
  proof (rule run_row_inv [where ok = "\<lambda>_ op. \<not> may_free t a op", OF db1 claim_granted(1) [OF assms(1,2)]])
    show "held_by a r'" if "\<not> may_free t a op" "held_by a r" "row_change t now op r r'" for now op r r'
      by (rule held_change [OF that])
    show "\<not> archivable (now - h * 3600) r" if "held_by a r" for now h r
      using that by (simp add: held_by_def archivable_def)
  qed fact+
  then obtain r' where r': "get_task t (run_ops ops db1) = Some r'" "held_by a r'" by blast
  have "claim_task now' t b w' (run_ops ops db1) = (Err (TaskCode TASK_ALREADY_CLAIMED), run_ops ops db1)"
    by (rule claim_refused [OF schema_run_ops [OF db1] r'(1) held_not_claimable(1) held_not_claimable(2)]) (rule r'(2))+
  with r' show ?thesis by (auto simp: held_by_def)
qed

definition sample_args :: add_task_args where
  "sample_args = \<lparr>ad_id = ''T1'', ad_title = ''demo'', ad_task_type = None, ad_phase = None, ad_group = None, ad_parent_id = None,
     ad_severity = None, ad_file = None, ad_files = None, ad_depends_on = None, ad_tags = None, ad_estimated_minutes = None,
     ad_repo_path = ''/r''\<rparr>"

definition sample_db :: task_db where
  "sample_db = run_ops [(0, OpAdd sample_args)] empty_db"

definition claimed_db :: task_db where
  "claimed_db = snd (claim_task 10 ''T1'' ''alice'' None sample_db)"

lemma schema_sample: "schema_ok sample_db" "schema_ok claimed_db"
  by (simp_all only: sample_db_def claimed_db_def schema_run_ops schema_ok_empty schema_claim_task)

lemma sample_claim: "claim_task 10 ''T1'' ''alice'' None sample_db = (Ok (the (get_task ''T1'' claimed_db)), claimed_db)"
  by code_simp

theorem claim_exclusive_witness:
  "claim_task 30 ''T1'' ''bob'' None (run_ops [(20, OpClaim ''T1'' ''bob'' None), (25, OpHeartbeat ''T1'' ''alice'')] claimed_db) =
    (Err (TaskCode TASK_ALREADY_CLAIMED), run_ops [(20, OpClaim ''T1'' ''bob'' None), (25, OpHeartbeat ''T1'' ''alice'')] claimed_db)"
  by (rule claim_exclusive [OF schema_sample(1) sample_claim, THEN conjunct2]) simp

text \<open>A claim whose holder \<open>a\<close> was last heard of at time \<open>h\<close>, and the operations that can revive the task.\<close>

definition left_by :: "string \<Rightarrow> timestamp \<Rightarrow> agent_task_row \<Rightarrow> bool" where
  "left_by a h r \<longleftrightarrow> at_claimed_by r = Some a \<and> at_last_heartbeat r = Some h"

fun no_revival :: "string \<Rightarrow> string \<Rightarrow> timestamp \<Rightarrow> timestamp \<Rightarrow> storage_op \<Rightarrow> bool" where
  "no_revival t a h now (OpClaim i b w) \<longleftrightarrow> i = t \<longrightarrow> or_default w 90 * 2 < now - h"
| "no_revival t a h now (OpRelease i b) \<longleftrightarrow> \<not> (i = t \<and> b = a)"
| "no_revival t a h now (OpHeartbeat i b) \<longleftrightarrow> \<not> (i = t \<and> b = a)"
| "no_revival t a h now (OpArchive d) \<longleftrightarrow> False"
| "no_revival t a h now op \<longleftrightarrow> True"

lemma left_refused:
  assumes "left_by a h r" and "or_default w 90 * 2 < now - h" and "at_status r \<noteq> ''claimed''"
  shows "\<not> (claimable now r \<and> reclaim_check now (or_default w 90) (Some r) = Ok ())"
  using assms by (auto simp: left_by_def claimable_def reclaim_check_def)

lemma left_change:
  assumes "no_revival t a h now op" and "left_by a h r" and "at_status r \<noteq> ''claimed''" and "row_change t now op r r'"
  shows "left_by a h r'"
  using assms left_refused [OF assms(2) _ assms(3)]
  by (cases op) (auto simp: left_by_def set_status_def set_interrupted_def set_status_only_def)

text \<open>C25: A holder that vanished long ago blocks its task. Let an agent have claimed a task and not be heard of since time
  \<open>h\<close>. If since then that very agent neither released the task nor sent a heartbeat, nobody claimed the task within
  twice the re-claim window after \<open>h\<close> (within it an interrupted task can still be taken over) and nothing was archived,
  then every claim made after twice the window is refused: also after the heartbeat checker has interrupted the task, and
  also after its status was explicitly reset to pending, since neither clears the holder.\<close>

theorem vanished_holder_blocks_task:
  assumes "schema_ok db" and "get_task t db = Some r" and "at_claimed_by r = Some a" and "at_last_heartbeat r = Some h"
    and "\<forall>(now', op) \<in> set ops. no_revival t a h now' op" and "or_default w 90 * 2 < now - h"
  shows "\<exists>e. claim_task now t b w (run_ops ops db) = (Err e, run_ops ops db)"
proof -
  have "\<exists>r'. get_task t (run_ops ops db) = Some r' \<and> left_by a h r'"
    using assms(1-5)
  proof (induction ops arbitrary: db r)
    case (Cons x ops)
    obtain now op where x: "x = (now, op)" by fastforce
    with Cons.prems have ok: "no_revival t a h now op" by auto
    have r: "left_by a h r" using Cons.prems by (simp add: left_by_def)
    have "r \<in> set (db_tasks db)" using Cons.prems(2) select_by_Some by (fastforce simp: get_task_def)
    note st = status_cases(1) [OF Cons.prems(1) this]
    have "row_after t now op r (get_task t (exec_op now op db))"
      using ok by (intro exec_row [OF Cons.prems(1,2)]) auto
    then obtain r' where "get_task t (exec_op now op db) = Some r'" "left_by a h r'"
      using left_change [OF ok r st] r by (auto simp: row_after_def)
    with Cons.IH [OF schema_exec_op [OF Cons.prems(1)]] Cons.prems(5) x show ?case by (auto simp: left_by_def)
  qed (auto simp: left_by_def)
  then obtain r' where r': "get_task t (run_ops ops db) = Some r'" "left_by a h r'" by blast
  have ok: "schema_ok (run_ops ops db)" by (rule schema_run_ops [OF assms(1)])
  have "r' \<in> set (db_tasks (run_ops ops db))" using r'(1) select_by_Some by (fastforce simp: get_task_def)
  from left_refused [OF r'(2) assms(6) status_cases(1) [OF ok this]] show ?thesis
    using claim_refused [OF ok r'(1)] r'(1)
    by (cases "reclaim_check now (or_default w 90) (Some r')") (auto simp: claim_task_def)
qed

theorem vanished_holder_blocks_task_witness:
  "\<exists>e. claim_task 2000 ''T1'' ''bob'' None
     (run_ops [(1000, OpInterrupt 90), (1001, OpUpdateStatus ''T1'' ''pending'' None None)] claimed_db) =
     (Err e, run_ops [(1000, OpInterrupt 90), (1001, OpUpdateStatus ''T1'' ''pending'' None None)] claimed_db)"
proof (rule vanished_holder_blocks_task [OF schema_sample(2), where a = "''alice''" and h = 10])
  have "map_option at_claimed_by (get_task ''T1'' claimed_db) = Some (Some ''alice'')"
    "map_option at_last_heartbeat (get_task ''T1'' claimed_db) = Some (Some 10)" by code_simp+
  then show "get_task ''T1'' claimed_db = Some (the (get_task ''T1'' claimed_db))"
    "at_claimed_by (the (get_task ''T1'' claimed_db)) = Some ''alice''"
    "at_last_heartbeat (the (get_task ''T1'' claimed_db)) = Some 10" by auto
qed (simp_all add: or_default_def)

section \<open>The schema and what it rules out\<close>

text \<open>Every database the store can reach satisfies its schema: ids are unique in every table, every status, type,
  severity and entry type is one the schema allows, and every reference names an existing task.\<close>

theorem reachable_schema_ok: "schema_ok (run_ops ops empty_db)"
  by (rule schema_run_ops [OF schema_ok_empty])

text \<open>The lease functions never do anything. The schema knows neither the status \<^verbatim>\<open>claimed\<close> nor \<^verbatim>\<open>open\<close>, on
  which they work: in every reachable database the janitor releases nothing, no lease can be extended and no task
  can be claimed with a lease.\<close>

theorem leases_have_no_effect:
  "release_expired_leases now (run_ops ops empty_db) = (0, run_ops ops empty_db) \<and>
   (\<exists>m. extend_lease now t s (run_ops ops empty_db) = (Err (TaskMessage m), run_ops ops empty_db)) \<and>
   atomic_claim_with_lease now t a s (run_ops ops empty_db) = (Ok False, run_ops ops empty_db)"
  using leases_dead [OF schema_run_ops [OF schema_ok_empty]] by blast

end
