(* ===== verification/Task_Queries.thy ===== *)
theory Task_Queries
  imports Task_Claims
begin

text \<open>
  The bulk operations and the queries of the task store: archiving, the heartbeat checker, the task list and the
  activity query, each against a description of the whole answer.
\<close>

section \<open>Archiving\<close>

lemma forget_forget: "forget A (forget B x) = forget (A \<union> B) x"
  by (auto simp: forget_def split: option.split)

lemma forget_empty [simp]: "forget {} x = x"
  by (simp add: forget_def split: option.split)

lemma get_after_move:
  "get_task t (archive_move now ts db) =
    (if t \<in> at_id ` set ts then None
     else map_option (\<lambda>r. r\<lparr>at_parent_id := forget (at_id ` set ts) (at_parent_id r)\<rparr>) (get_task t db))"
proof (induction ts arbitrary: db)
  case Nil
  then show ?case by (simp add: archive_move_def option.map_ident)
next
  case (Cons a ts)
  have "get_task t (archive_move now (a # ts) db) = get_task t (archive_move now ts (archive_one now a db))"
    by (simp add: archive_move_def)
  also have "\<dots> = (if t \<in> at_id ` set (a # ts) then None
      else map_option (\<lambda>r. r\<lparr>at_parent_id := forget (at_id ` set (a # ts)) (at_parent_id r)\<rparr>) (get_task t db))"
    by (auto simp: Cons.IH archive_one_def get_delete option.map_comp o_def forget_forget)
  finally show ?case .
qed

lemma archive_after_move:
  "distinct (map at_id ts) \<Longrightarrow>
   set (db_archive (archive_move now ts db)) =
     set (db_archive db) \<union> archive_of now ` {r \<in> set ts. at_id r \<notin> ar_id ` set (db_archive db)}"
proof (induction ts arbitrary: db)
  case (Cons a ts)
  have one: "set (db_archive (archive_one now a db)) =
      set (db_archive db) \<union> (if at_id a \<in> ar_id ` set (db_archive db) then {} else {archive_of now a})"
    by (simp add: archive_one_def delete_task_def insert_archive_def archive_of_def)
  have "ar_id (archive_of now a) = at_id a" by (simp add: archive_of_def)
  with one have ids: "at_id r \<in> ar_id ` set (db_archive (archive_one now a db)) \<longleftrightarrow> at_id r \<in> ar_id ` set (db_archive db)"
    if "r \<in> set ts" for r
  proof -
    from that have "at_id r \<noteq> at_id a" using Cons.prems by (metis distinct.simps(2) image_eqI list.set_map list.simps(9))
    with one \<open>ar_id (archive_of now a) = at_id a\<close> show ?thesis by auto
  qed
  have "set (db_archive (archive_move now (a # ts) db)) = set (db_archive (archive_move now ts (archive_one now a db)))"
    by (simp add: archive_move_def)
  also have "\<dots> = set (db_archive (archive_one now a db)) \<union>
      archive_of now ` {r \<in> set ts. at_id r \<notin> ar_id ` set (db_archive (archive_one now a db))}"
    using Cons by simp
  also have "{r \<in> set ts. at_id r \<notin> ar_id ` set (db_archive (archive_one now a db))} =
      {r \<in> set ts. at_id r \<notin> ar_id ` set (db_archive db)}"
    using ids by blast
  finally show ?case unfolding one by auto
qed (simp add: archive_move_def)

text \<open>Archiving moves exactly the tasks that are done and were completed before the cutoff. Every other task
  stays as it is, but for a reference to a parent that was moved; the archive gains one copy of each moved task
  whose id it did not hold before. A moved task whose id the archive already holds is not kept anywhere.\<close>

theorem archive_moves_old_done_tasks:
  assumes "schema_ok db" and "archive_done_tasks now h db = (n, db')"
  shows "n = length (archive_select now h db) \<and>
    (\<forall>t. get_task t db' = (case get_task t db of
        Some r \<Rightarrow> if archivable (now - h * 3600) r then None
                  else Some (r\<lparr>at_parent_id := forget (at_id ` set (archive_select now h db)) (at_parent_id r)\<rparr>)
      | None \<Rightarrow> None)) \<and>
    set (db_archive db') = set (db_archive db) \<union> archive_of now ` {r \<in> set (archive_select now h db). at_id r \<notin> ar_id ` set (db_archive db)}"
proof -
  define old where "old = archive_select now h db"
  have res: "n = length old" "db' = archive_move now old db"
    using assms(2) by (auto simp: archive_done_tasks_def old_def Let_def archive_move_def split: if_splits)
  note tasks = schema_tasks [OF assms(1)]
  have dist: "distinct (map at_id old)" using tasks by (auto simp: old_def archive_select_def rows_ok_def distinct_map_filter)
  have in_old: "t \<in> at_id ` set old \<longleftrightarrow> archivable (now - h * 3600) r" if "get_task t db = Some r" for t r
  proof
    assume "t \<in> at_id ` set old"
    then obtain r1 where "r1 \<in> set (db_tasks db)" "archivable (now - h * 3600) r1" "at_id r1 = t" by (auto simp: old_def archive_select_def)
    moreover from this select_by_eq [OF tasks] that have "r1 = r" by (auto simp: get_task_def)
    ultimately show "archivable (now - h * 3600) r" by simp
  next
    assume "archivable (now - h * 3600) r"
    with select_by_Some [OF that [unfolded get_task_def]] show "t \<in> at_id ` set old" by (auto simp: old_def archive_select_def)
  qed
  have "get_task t db = None \<Longrightarrow> t \<notin> at_id ` set old" for t
    by (auto simp: old_def archive_select_def get_task_def select_by_None)
  with in_old have "get_task t (archive_move now old db) = (case get_task t db of
        Some r \<Rightarrow> if archivable (now - h * 3600) r then None
                  else Some (r\<lparr>at_parent_id := forget (at_id ` set old) (at_parent_id r)\<rparr>)
      | None \<Rightarrow> None)" for t
    by (cases "get_task t db") (simp_all add: get_after_move)
  with res archive_after_move [OF dist, of now db] show ?thesis unfolding old_def by blast
qed

definition finished_db :: task_db where
  "finished_db = run_ops [(20, OpUpdateStatus ''T1'' ''done'' (Some ''ok'') None)] claimed_db"

lemma schema_finished: "schema_ok finished_db"
  unfolding finished_db_def by (rule schema_run_ops [OF schema_sample(2)])

theorem archive_moves_old_done_tasks_witness:
  "get_task ''T1'' finished_db \<noteq> None \<and> get_task ''T1'' (snd (archive_done_tasks 10000 1 finished_db)) = None"
proof -
  have old: "map_option (archivable (10000 - 1 * 3600)) (get_task ''T1'' finished_db) = Some True" by code_simp
  obtain n db' where r: "archive_done_tasks 10000 1 finished_db = (n, db')" by fastforce
  from archive_moves_old_done_tasks [OF schema_finished r] old r show ?thesis by auto
qed

text \<open>The rows are selected before the transaction that moves them: a task that is reopened in between is removed
  all the same, while it is in progress.\<close>

theorem archive_drops_reopened_task:
  "let old = archive_select 10000 1 finished_db;
       db = run_ops [(10000, OpUpdateStatus ''T1'' ''in_progress'' None None)] finished_db
   in map_option at_status (get_task ''T1'' db) = Some ''in_progress'' \<and> get_task ''T1'' (archive_move 10000 old db) = None"
  by code_simp

section \<open>The heartbeat checker\<close>

text \<open>The heartbeat checker interrupts exactly the tasks in progress whose last heartbeat is older than the
  timeout, reports exactly these, and changes nothing else.\<close>

theorem interrupts_exactly_stale_tasks:
  assumes "schema_ok db"
  shows "\<exists>ids db'. interrupt_stale_tasks now tmo db = (Ok ids, db') \<and>
    (\<forall>t. t \<in> set ids \<longleftrightarrow> (\<exists>r. get_task t db = Some r \<and> stale (now - tmo) r)) \<and>
    (\<forall>t. get_task t db' = map_option (\<lambda>r. if stale (now - tmo) r then set_interrupted now r else r) (get_task t db))"
proof -
  note tasks = schema_tasks [OF assms]
  let ?ids = "map at_id (filter (stale (now - tmo)) (db_tasks db))"
  have "t \<in> set ?ids \<longleftrightarrow> (\<exists>r. get_task t db = Some r \<and> stale (now - tmo) r)" for t
    using select_by_Some [of at_id "db_tasks db" t] select_by_eq [OF tasks] by (fastforce simp: get_task_def)
  then show ?thesis unfolding interrupt_result [OF assms] by (auto simp: get_task_def)
qed

theorem interrupts_exactly_stale_tasks_witness:
  "map_option at_status (get_task ''T1'' claimed_db) = Some ''in_progress'' \<and>
   map_option at_status (get_task ''T1'' (snd (interrupt_stale_tasks 1000 90 claimed_db))) = Some ''interrupted''"
proof -
  have t: "map_option (stale (1000 - 90)) (get_task ''T1'' claimed_db) = Some True"
    "map_option at_status (get_task ''T1'' claimed_db) = Some ''in_progress''" by code_simp+
  from interrupts_exactly_stale_tasks [OF schema_sample(2), of 1000 90] t show ?thesis
    by (auto simp: set_interrupted_def)
qed

section \<open>The task list\<close>

definition opt_matches :: "'p option \<Rightarrow> ('p \<Rightarrow> bool) \<Rightarrow> bool" where
  "opt_matches param p = (case param of Some x \<Rightarrow> p x | None \<Rightarrow> True)"

definition task_matches :: "(string \<Rightarrow> string list option) \<Rightarrow> task_list_params \<Rightarrow> agent_task_row \<Rightarrow> bool" where
  "task_matches from_str p r \<longleftrightarrow>
     opt_matches (lp_repo_path p) (\<lambda>x. at_repo_path r = x) \<and> opt_matches (lp_status p) (\<lambda>x. at_status r = x) \<and>
     opt_matches (lp_agent p) (\<lambda>x. at_claimed_by r = Some x) \<and> opt_matches (lp_severity p) (\<lambda>x. at_severity r = Some x) \<and>
     opt_matches (lp_phase p) (\<lambda>x. at_phase r = Some x) \<and> opt_matches (lp_search p) (\<lambda>x. matches_search x r) \<and>
     opt_matches (lp_tag p) (\<lambda>x. has_tag from_str x r)"

lemma retain_if_filter: "retain_if param p rows = filter (\<lambda>r. opt_matches param (\<lambda>x. p x r)) rows"
  by (simp add: retain_if_def opt_matches_def split: option.split)

lemma list_tasks_eq:
  "list_tasks from_str p db =
    take (as_usize (min (or_default (lp_limit p) 200) 500)) (drop (as_usize (or_default (lp_offset p) 0))
      (filter (task_matches from_str p) (sort_key (\<lambda>r. (severity_rank r, - at_updated_at r)) (db_tasks db))))"
proof -
  have "filter (task_matches from_str p) rows =
      retain_if (lp_tag p) (has_tag from_str) (retain_if (lp_search p) matches_search
        (retain_if (lp_phase p) (\<lambda>phase r. at_phase r = Some phase) (retain_if (lp_severity p) (\<lambda>sev r. at_severity r = Some sev)
          (retain_if (lp_agent p) (\<lambda>agent r. at_claimed_by r = Some agent) (retain_if (lp_status p) (\<lambda>status r. at_status r = status)
            (retain_if (lp_repo_path p) (\<lambda>repo r. at_repo_path r = repo) rows))))))" for rows
    unfolding retain_if_filter filter_filter task_matches_def by (rule filter_cong) auto
  then show ?thesis by (simp add: list_tasks_def Let_def or_default_def)
qed

text \<open>The task list filters before it pages. With a limit and an offset that are not negative, the answer is the
  requested page, of at most 500 tasks, of a list that holds exactly the matching tasks, by severity and then the
  latest change first.\<close>

theorem list_tasks_pages_matching_tasks:
  assumes "0 \<le> or_default (lp_limit p) 200" and "0 \<le> or_default (lp_offset p) 0" and "or_default (lp_offset p) 0 < 2 ^ 64"
  shows "\<exists>all. mset all = filter_mset (task_matches from_str p) (mset (db_tasks db)) \<and>
    sorted (map (\<lambda>r. (severity_rank r, - at_updated_at r)) all) \<and>
    list_tasks from_str p db = take (nat (min (or_default (lp_limit p) 200) 500)) (drop (nat (or_default (lp_offset p) 0)) all)"
proof (intro exI conjI)
  let ?all = "filter (task_matches from_str p) (sort_key (\<lambda>r. (severity_rank r, - at_updated_at r)) (db_tasks db))"
  show "mset ?all = filter_mset (task_matches from_str p) (mset (db_tasks db))" by (simp add: mset_filter)
  show "sorted (map (\<lambda>r. (severity_rank r, - at_updated_at r)) ?all)" by (rule sorted_filter) simp
  show "list_tasks from_str p db = take (nat (min (or_default (lp_limit p) 200) 500)) (drop (nat (or_default (lp_offset p) 0)) ?all)"
    using assms by (simp add: list_tasks_eq as_usize_nonneg)
qed

theorem list_tasks_pages_matching_tasks_witness:
  "\<exists>all. mset all = filter_mset (task_matches (\<lambda>_. None) (default_list_params\<lparr>lp_status := Some ''pending''\<rparr>)) (mset (db_tasks sample_db)) \<and>
    sorted (map (\<lambda>r. (severity_rank r, - at_updated_at r)) all) \<and>
    list_tasks (\<lambda>_. None) (default_list_params\<lparr>lp_status := Some ''pending''\<rparr>) sample_db = take 200 all"
  using list_tasks_pages_matching_tasks [of "default_list_params\<lparr>lp_status := Some ''pending''\<rparr>" "\<lambda>_. None" sample_db]
  by (simp add: default_list_params_def or_default_def)

text \<open>The bound of 500 does not hold for a negative limit: \<^verbatim>\<open>as usize\<close> makes it huge.\<close>

theorem negative_limit_is_unbounded:
  "list_tasks from_str (default_list_params\<lparr>lp_limit := Some (- 1)\<rparr>) db = sort_key (\<lambda>r. (severity_rank r, - at_updated_at r)) (db_tasks db)"
  if "length (db_tasks db) < 2 ^ 64" for db
proof -
  have "filter (task_matches from_str (default_list_params\<lparr>lp_limit := Some (- 1)\<rparr>)) rows = rows" for rows
    by (simp add: task_matches_def opt_matches_def default_list_params_def)
  with that show ?thesis
    by (simp add: list_tasks_eq default_list_params_def or_default_def as_usize_def nat_less_iff)
qed

section \<open>The activity query\<close>

definition activity_matches :: "activity_query_params \<Rightarrow> activity_log_row \<Rightarrow> bool" where
  "activity_matches p r \<longleftrightarrow>
     opt_matches (qp_task_id p) (\<lambda>x. al_task_id r = Some x) \<and> opt_matches (qp_agent p) (\<lambda>x. al_agent r = x) \<and>
     opt_matches (qp_entry_type p) (\<lambda>x. al_entry_type r = x) \<and> opt_matches (qp_action p) (\<lambda>x. al_action r = x) \<and>
     opt_matches (qp_since p) (\<lambda>x. x \<le> al_ts r) \<and> opt_matches (qp_repo_path p) (\<lambda>x. al_repo_path r = x)"

lemma query_activity_eq:
  assumes "qp_phase p = None"
  shows "query_activity p db = filter (activity_matches p)
    (limit_offset (min (or_default (qp_limit p) 100) 500) (or_default (qp_offset p) 0) (sort_key (\<lambda>r. - al_ts r) (db_activity db)))"
proof -
  have "filter (activity_matches p) rows =
      retain_if (qp_repo_path p) (\<lambda>q r. al_repo_path r = q) (retain_if (qp_since p) (\<lambda>s r. s \<le> al_ts r)
        (retain_if (qp_action p) (\<lambda>a r. al_action r = a) (retain_if (qp_entry_type p) (\<lambda>e r. al_entry_type r = e)
          (retain_if (qp_agent p) (\<lambda>a r. al_agent r = a) (retain_if (qp_task_id p) (\<lambda>t r. al_task_id r = Some t) rows)))))" for rows
    unfolding retain_if_filter filter_filter activity_matches_def by (rule filter_cong) auto
  then show ?thesis using assms by (simp add: query_activity_def Let_def)
qed

text \<open>The activity query, unlike the task list, cuts its page before it filters: a query without a phase answers with
  nothing as soon as the newest \<open>n\<close> entries belong to other tasks, although the task has entries.\<close>

theorem activity_page_cut_before_filter:
  assumes "qp_phase p = None" and "qp_task_id p = Some t" and "qp_limit p = Some (int n)" and "qp_offset p = None" and "n \<le> 500"
    and "n \<le> length newer" and "db_activity db = older @ newer" and "\<forall>r \<in> set newer. al_task_id r \<noteq> Some t"
    and "\<forall>r \<in> set older. \<forall>r' \<in> set newer. al_ts r < al_ts r'"
  shows "query_activity p db = []"
proof -
  let ?key = "\<lambda>r. - al_ts r"
  have stable: "filter (\<lambda>x. al_ts k = al_ts x) (sort_key ?key rows) = filter (\<lambda>x. al_ts k = al_ts x) rows" for k and rows :: "activity_log_row list"
    using sort_key_stable [of ?key "- al_ts k" rows] by (simp add: eq_commute)
  have "sort_key ?key (older @ newer) = sort_key ?key newer @ sort_key ?key older"
  proof (rule properties_for_sort_key)
    show "mset (sort_key ?key newer @ sort_key ?key older) = mset (older @ newer)" by simp
    show "filter (\<lambda>x. ?key k = ?key x) (sort_key ?key newer @ sort_key ?key older) = filter (\<lambda>x. ?key k = ?key x) (older @ newer)"
      if "k \<in> set (sort_key ?key newer @ sort_key ?key older)" for k
    proof (cases "k \<in> set newer")
      case True
      then have "\<forall>x \<in> set older. al_ts k \<noteq> al_ts x" using assms(9) by fastforce
      then have "filter (\<lambda>x. ?key k = ?key x) (sort_key ?key older) = []" "filter (\<lambda>x. ?key k = ?key x) older = []"
        by (auto simp: filter_empty_conv)
      then show ?thesis by (simp add: stable)
    next
      case False
      then have "\<forall>x \<in> set newer. al_ts k \<noteq> al_ts x" using that assms(9) by fastforce
      then have "filter (\<lambda>x. ?key k = ?key x) (sort_key ?key newer) = []" "filter (\<lambda>x. ?key k = ?key x) newer = []"
        by (auto simp: filter_empty_conv)
      then show ?thesis by (simp add: stable)
    qed
    show "sorted (map ?key (sort_key ?key newer @ sort_key ?key older))"
      using assms(9) by (auto simp: sorted_append less_imp_le)
  qed
  then have "limit_offset (int n) 0 (sort_key ?key (db_activity db)) = take n (sort_key ?key newer)"
    using assms(6,7) by (simp add: limit_offset_def)
  moreover have "set (take n (sort_key ?key newer)) \<subseteq> set newer" using set_take_subset by fastforce
  ultimately show ?thesis
    using assms(2-5,8) by (auto simp: query_activity_eq [OF assms(1)] or_default_def filter_empty_conv activity_matches_def opt_matches_def)
qed

definition sample_entry :: "timestamp \<Rightarrow> string option \<Rightarrow> activity_log_row" where
  "sample_entry ts t = \<lparr>al_id = [], al_ts = ts, al_agent = ''a'', al_task_id = t, al_phase = None, al_action = ''x'',
     al_entry_type = ''auto'', al_detail = None, al_meta = None, al_repo_path = ''/r''\<rparr>"

theorem activity_page_cut_before_filter_witness:
  "query_activity \<lparr>qp_repo_path = None, qp_task_id = Some ''T1'', qp_agent = None, qp_phase = None, qp_entry_type = None,
       qp_action = None, qp_since = None, qp_limit = Some (int 1), qp_offset = None\<rparr>
     (empty_db\<lparr>db_activity := [sample_entry 1 (Some ''T1'')] @ [sample_entry 2 None]\<rparr>) = []"
  by (rule activity_page_cut_before_filter [of _ "''T1''" 1 "[sample_entry 2 None]" _ "[sample_entry 1 (Some ''T1'')]"])
    (simp_all add: sample_entry_def)

end
