(* ===== verification/Supply_Chain.thy ===== *)
theory Supply_Chain
  imports Policy_Rules
begin

text \<open>
  The supply-chain allowlist of MCP servers, \<^verbatim>\<open>policy/supply_chain.rs\<close>. SHA-256 (with its hexadecimal
  printing) is the parameter \<open>sha256\<close>. Saving the allowlist is best effort: every call that may save
  is told whether the file system accepts it, and the state keeps what this process wrote last.
\<close>

section \<open>Definitions\<close>

record server_fingerprint =
  fp_command :: string
  fp_args :: "string list"
  fp_binary_hash :: string
  fp_first_seen :: timestamp
  fp_last_seen :: timestamp

type_synonym allowlist = "string \<rightharpoonup> server_fingerprint"

record supply_chain_policy =
  sc_allowlist_path :: string
  sc_servers :: allowlist
  sc_file :: "allowlist option"

definition empty_policy :: supply_chain_policy where
  "empty_policy = \<lparr>sc_allowlist_path = [], sc_servers = Map.empty, sc_file = None\<rparr>"

text \<open>Loading: the file may be missing or malformed; \<open>from_str\<close> decodes its text.\<close>

definition load_policy :: "(string \<Rightarrow> allowlist option) \<Rightarrow> string \<Rightarrow> string option \<Rightarrow> supply_chain_policy" where
  "load_policy from_str path content =
     (let servers = (case content of
          None \<Rightarrow> Map.empty
        | Some text \<Rightarrow> (case from_str text of None \<Rightarrow> Map.empty | Some m \<Rightarrow> m))
      in \<lparr>sc_allowlist_path = path, sc_servers = servers, sc_file = None\<rparr>)"

definition hash_input :: "string \<Rightarrow> string list \<Rightarrow> string" where
  "hash_input command args = command @ concat (map (\<lambda>a. CHR 0x00 # a) args)"

definition compute_command_hash :: "(string \<Rightarrow> string) \<Rightarrow> string \<Rightarrow> string list \<Rightarrow> string" where
  "compute_command_hash sha256 command args = sha256 (hash_input command args)"

definition persist :: "bool \<Rightarrow> supply_chain_policy \<Rightarrow> supply_chain_policy" where
  "persist fs_ok pol =
     (if sc_allowlist_path pol = [] \<or> \<not> fs_ok then pol else pol\<lparr>sc_file := Some (sc_servers pol)\<rparr>)"

definition verify_or_register ::
  "(string \<Rightarrow> string) \<Rightarrow> bool \<Rightarrow> timestamp \<Rightarrow> supply_chain_policy \<Rightarrow> string \<Rightarrow> string \<Rightarrow> string list \<Rightarrow>
   (unit, policy_violation) result \<times> supply_chain_policy" where
  "verify_or_register sha256 fs_ok now pol server_name command args =
     (let hash = compute_command_hash sha256 command args in
      case sc_servers pol server_name of
        Some existing \<Rightarrow>
          if fp_binary_hash existing \<noteq> hash
          then (Err (SupplyChainMismatch server_name (fp_binary_hash existing) hash), pol)
          else (Ok (), pol\<lparr>sc_servers := (sc_servers pol)(server_name \<mapsto> existing\<lparr>fp_last_seen := now\<rparr>)\<rparr>)
      | None \<Rightarrow>
          let fp = \<lparr>fp_command = command, fp_args = args, fp_binary_hash = hash, fp_first_seen = now, fp_last_seen = now\<rparr>
          in (Ok (), persist fs_ok (pol\<lparr>sc_servers := (sc_servers pol)(server_name \<mapsto> fp)\<rparr>)))"

definition verify ::
  "(string \<Rightarrow> string) \<Rightarrow> supply_chain_policy \<Rightarrow> string \<Rightarrow> string \<Rightarrow> string list \<Rightarrow> (unit, policy_violation) result" where
  "verify sha256 pol server_name command args =
     (case sc_servers pol server_name of
        None \<Rightarrow> Err (UnregisteredServer server_name)
      | Some existing \<Rightarrow>
          let hash = compute_command_hash sha256 command args
          in if fp_binary_hash existing \<noteq> hash
             then Err (SupplyChainMismatch server_name (fp_binary_hash existing) hash)
             else Ok ())"

text \<open>A sequence of connections: time, whether the disk accepts a write, server, command, arguments.\<close>

type_synonym connection = "timestamp \<times> bool \<times> string \<times> string \<times> string list"

fun connect_all :: "(string \<Rightarrow> string) \<Rightarrow> supply_chain_policy \<Rightarrow> connection list \<Rightarrow> supply_chain_policy" where
  "connect_all sha256 pol [] = pol"
| "connect_all sha256 pol ((now, ok, name, command, args) # rest) =
     connect_all sha256 (snd (verify_or_register sha256 ok now pol name command args)) rest"

section \<open>Lemmas\<close>

text \<open>What identifies a fingerprint: all of it but the time of the last connection.\<close>

definition pinned :: "server_fingerprint \<Rightarrow> string \<times> string list \<times> string \<times> timestamp" where
  "pinned fp = (fp_command fp, fp_args fp, fp_binary_hash fp, fp_first_seen fp)"

lemma register_pins:
  assumes "sc_servers pol name = Some fp"
  shows "\<exists>fp'. sc_servers (snd (verify_or_register sha256 ok now pol n c a)) name = Some fp' \<and> pinned fp' = pinned fp"
  using assms by (auto simp: verify_or_register_def persist_def pinned_def split: option.split)

lemma connect_all_pins:
  "sc_servers pol name = Some fp \<Longrightarrow>
     \<exists>fp'. sc_servers (connect_all sha256 pol cs) name = Some fp' \<and> pinned fp' = pinned fp"
proof (induction sha256 pol cs arbitrary: fp rule: connect_all.induct)
  case (2 sha256 pol now ok n c a rest)
  from register_pins [OF 2(2)] obtain fp1 where
    "sc_servers (snd (verify_or_register sha256 ok now pol n c a)) name = Some fp1" "pinned fp1 = pinned fp" by blast
  with 2(1) [OF this(1)] show ?case by auto
qed simp

text \<open>The hashed text determines command and arguments when none of them holds a NUL.\<close>

definition no_nul :: "string \<Rightarrow> bool" where
  "no_nul s \<longleftrightarrow> CHR 0x00 \<notin> set s"

lemma nul_split:
  assumes "no_nul a" "no_nul b" "a @ concat (map (\<lambda>x. CHR 0x00 # x) xs) = b @ concat (map (\<lambda>x. CHR 0x00 # x) ys)"
  shows "a = b \<and> concat (map (\<lambda>x. CHR 0x00 # x) xs) = concat (map (\<lambda>x. CHR 0x00 # x) ys)"
proof -
  let ?j = "\<lambda>xs. concat (map (\<lambda>x. CHR 0x00 # x) xs)"
  have t: "takeWhile (\<lambda>c. c \<noteq> CHR 0x00) (a @ ?j xs) = a" if "no_nul a" for a xs
    using that by (cases xs) (auto simp: no_nul_def takeWhile_append takeWhile_eq_all_conv)
  from t [OF assms(1), of xs] t [OF assms(2), of ys] assms(3) have "a = b" by metis
  with assms(3) show ?thesis by simp
qed

lemma hash_input_inj:
  assumes "no_nul c" "no_nul c'" "\<forall>a \<in> set as \<union> set as'. no_nul a" "hash_input c as = hash_input c' as'"
  shows "c = c' \<and> as = as'"
proof -
  have "c = c'" and j: "concat (map (\<lambda>x. CHR 0x00 # x) as) = concat (map (\<lambda>x. CHR 0x00 # x) as')"
    using nul_split [OF assms(1,2)] assms(4) by (auto simp: hash_input_def)
  moreover have "as = as'"
    using j assms(3)
  proof (induction as arbitrary: as')
    case (Cons a as)
    then obtain b bs where b: "as' = b # bs" by (cases as') auto
    with Cons.prems nul_split [of a b as bs] have "a = b" "concat (map (\<lambda>x. CHR 0x00 # x) as) = concat (map (\<lambda>x. CHR 0x00 # x) bs)"
      by auto
    with Cons.IH [of bs] Cons.prems b show ?case by auto
  qed (cases as'; simp)
  ultimately show ?thesis by simp
qed

section \<open>Properties\<close>

text \<open>C29: The first connection of a server pins it: after any further connections, under any names and commands and
  whatever happens on disk, a later connection (\<open>verify_or_register\<close>) and a tool call (\<open>verify\<close>) are accepted exactly with
  the command and arguments of the first connection, if no text has a NUL character and the two hashed texts do not
  collide. A refused connection changes nothing.\<close>

theorem first_connection_pins_server:
  assumes "sc_servers pol name = None" "no_nul command" "no_nul command'" "\<forall>a \<in> set args \<union> set args'. no_nul a"
    and "sha256 (hash_input command args) = sha256 (hash_input command' args') \<longrightarrow>
         hash_input command args = hash_input command' args'"
    and "pol' = connect_all sha256 pol ((now, ok, name, command, args) # cs)"
  shows "(is_ok (fst (verify_or_register sha256 ok' now' pol' name command' args')) \<longleftrightarrow> command' = command \<and> args' = args) \<and>
    (is_ok (verify sha256 pol' name command' args') \<longleftrightarrow> command' = command \<and> args' = args) \<and>
    (\<not> is_ok (fst (verify_or_register sha256 ok' now' pol' name command' args')) \<longrightarrow>
       snd (verify_or_register sha256 ok' now' pol' name command' args') = pol')"
proof -
  have "\<exists>fp. sc_servers (snd (verify_or_register sha256 ok now pol name command args)) name = Some fp \<and>
      fp_binary_hash fp = compute_command_hash sha256 command args"
    using assms(1) by (simp add: verify_or_register_def persist_def)
  then obtain fp where fp: "sc_servers pol' name = Some fp" "fp_binary_hash fp = compute_command_hash sha256 command args"
    using connect_all_pins unfolding assms(6) by (fastforce simp: pinned_def)
  have same: "sha256 (hash_input command args) = sha256 (hash_input command' args') \<longleftrightarrow> command' = command \<and> args' = args"
    using assms(5) hash_input_inj [OF assms(2,3,4)] by auto
  show ?thesis using fp by (simp add: verify_def verify_or_register_def compute_command_hash_def same)
qed

theorem first_connection_pins_server_witness:
  "\<not> is_ok (fst (verify_or_register (\<lambda>x. x) True 9 (connect_all (\<lambda>x. x) empty_policy [(0, True, ''fs'', ''node'', [''a.js'']), (5, True, ''fs'', ''deno'', [''a.js''])])
      ''fs'' ''deno'' [''a.js'']))"
  using first_connection_pins_server [of empty_policy "''fs''" "''node''" "''deno''" "[''a.js'']" "[''a.js'']" "\<lambda>x. x" _ 0 True
      "[(5, True, ''fs'', ''deno'', [''a.js''])]" True 9]
  by (simp add: empty_policy_def no_nul_def)

end
