(* ===== verification/Policy_Gate.thy ===== *)
theory Policy_Gate
  imports Redaction Supply_Chain
begin

text \<open>
  The policy chain in front of every MCP tool call: the engine (\<^verbatim>\<open>policy/engine.rs\<close>), the hooks
  (\<^verbatim>\<open>policy/hooks.rs\<close>), the gate (\<^verbatim>\<open>mcp/policy_gate.rs\<close>) and the dispatcher (\<^verbatim>\<open>mcp/dispatch.rs\<close>). A
  tool handler acts on a world of an arbitrary type and returns a value or an error text; the task
  storage the dispatcher reads and the table of handlers are parameters.
\<close>

section \<open>Engine and hooks\<close>

record policy_engine =
  pe_risk_db :: risk_database
  pe_trust_db :: trust_database
  pe_supply_chain :: supply_chain_policy
  pe_rules :: approval_rules

definition new_engine :: "risk_database \<Rightarrow> trust_database \<Rightarrow> supply_chain_policy \<Rightarrow> policy_engine" where
  "new_engine risk_db trust_db supply_chain =
     \<lparr>pe_risk_db = risk_db, pe_trust_db = trust_db, pe_supply_chain = supply_chain, pe_rules = default_approval_rules\<rparr>"

definition evaluate :: "policy_engine \<Rightarrow> string \<Rightarrow> task_state option \<Rightarrow> policy_decision" where
  "evaluate eng tool_name st = should_approve (pe_rules eng) tool_name (get_risk (pe_risk_db eng) tool_name) st"

record post_tool_actions =
  pa_run_formatter :: bool
  pa_run_linter :: bool
  pa_redacted :: "json option"

definition HOOK_WRITE_TOOLS :: "string list" where
  "HOOK_WRITE_TOOLS = [''apply_patch'', ''run_tests'']"

definition check_write_state :: "task_state \<Rightarrow> string \<Rightarrow> (unit, policy_violation) result" where
  "check_write_state st tool =
     (if st = Active then Ok () else Err (UnauthorizedTool tool (''task-state:'' @ show_task_state st)))"

definition pre_tool :: "secret_scanner \<Rightarrow> string \<Rightarrow> json \<Rightarrow> task_state \<Rightarrow> (unit, policy_violation) result" where
  "pre_tool sc tool args st =
     and_then (if tool \<in> set HOOK_WRITE_TOOLS then check_write_state st tool else Ok ())
       (\<lambda>_. check_tool_args sc args)"

definition post_tool :: "secret_scanner \<Rightarrow> string \<Rightarrow> json \<Rightarrow> post_tool_actions" where
  "post_tool sc tool tool_result =
     (let redacted = redact_value sc tool_result in
      \<lparr>pa_run_formatter = (tool = ''apply_patch''),
       pa_run_linter = (tool = ''apply_patch'' \<or> tool = ''run_tests''),
       pa_redacted = (if redacted \<noteq> tool_result then Some redacted else None)\<rparr>)"

section \<open>The gate: policy\_gate.rs\<close>

record server_identity =
  si_name :: string
  si_command :: string
  si_args :: "string list"

datatype gate_denial =
    UnknownCaller string
  | PolicyDenied string
  | ApprovalRequired string
  | SupplyChainDenied string
  | ChainError string

fun denial_kind :: "gate_denial \<Rightarrow> string" where
  "denial_kind (UnknownCaller _) = ''unknown_caller''"
| "denial_kind (PolicyDenied _) = ''policy_denied''"
| "denial_kind (ApprovalRequired _) = ''approval_required''"
| "denial_kind (SupplyChainDenied _) = ''supply_chain''"
| "denial_kind (ChainError _) = ''chain_error''"

fun denial_detail :: "gate_denial \<Rightarrow> string" where
  "denial_detail (UnknownCaller d) = d"
| "denial_detail (PolicyDenied d) = d"
| "denial_detail (ApprovalRequired d) = d"
| "denial_detail (SupplyChainDenied d) = d"
| "denial_detail (ChainError d) = d"

fun into_error :: "gate_denial \<Rightarrow> string" where
  "into_error (SupplyChainDenied d) = ''MCP_SUPPLY_CHAIN_DENIED: '' @ d"
| "into_error (UnknownCaller d) = ''MCP_UNKNOWN_ENTITY: '' @ d"
| "into_error other = ''MCP_POLICY_DENIED: '' @ denial_kind other @ '': '' @ denial_detail other"

text \<open>\<^verbatim>\<open>Display for PolicyViolation\<close>, for the violations the chain can meet.\<close>

fun show_violation :: "policy_violation \<Rightarrow> string" where
  "show_violation (SupplyChainMismatch server expected actual) =
     ''supply-chain mismatch for server '' @ quoted server @ '': expected '' @ expected @ '', got '' @ actual"
| "show_violation (UnregisteredServer server) =
     ''supply-chain: server '' @ quoted server @ '' is not registered in the allowlist''"
| "show_violation (UnauthorizedTool tool role) =
     ''tool '' @ quoted tool @ '' is not authorised for role '' @ quoted role"
| "show_violation (SecretDetected location detail) = ''secret detected in '' @ location @ '': '' @ detail"
| "show_violation (PathEscape target worktree) =
     ''path escape: target '' @ quoted target @ '' is outside worktree '' @ quoted worktree"
| "show_violation NetworkDenied = ''network access denied by policy''"
| "show_violation (PlaceholderDetected f line pat) =
     ''placeholder detected at '' @ f @ '':'' @ show_nat line @ '' - pattern: '' @ pat"
| "show_violation NoAcceptanceCriteria = ''task has no acceptance criteria - cannot transition to CR''"
| "show_violation TestsNotRun = ''tests have not been run - cannot transition to CR''"
| "show_violation TestsFailing = ''tests are failing - cannot transition to CR''"

fun map_err :: "('e \<Rightarrow> 'f) \<Rightarrow> ('a, 'e) result \<Rightarrow> ('a, 'f) result" where
  "map_err f (Ok x) = Ok x"
| "map_err f (Err e) = Err (f e)"

record policy_gate =
  pg_engine :: policy_engine
  pg_server :: server_identity

record gate_libs =
  gl_sha256 :: "string \<Rightarrow> string"
  gl_scanner :: secret_scanner

fun decision_result :: "policy_decision \<Rightarrow> (unit, gate_denial) result" where
  "decision_result Allow = Ok ()"
| "decision_result (Deny reason) = Err (PolicyDenied reason)"
| "decision_result (ApprovalNeeded tool risk reason) = Err (ApprovalRequired reason)"

definition trust_denial :: "trust_database \<Rightarrow> string \<Rightarrow> string \<Rightarrow> gate_denial" where
  "trust_denial db caller tool =
     (if get_trust db caller = Trusted
      then PolicyDenied (''tool '' @ quoted tool @ '' not permitted for caller '' @ quoted caller)
      else UnknownCaller (''caller '' @ quoted caller @ '' not trusted for tool '' @ quoted tool))"

definition gate_check ::
  "gate_libs \<Rightarrow> policy_gate \<Rightarrow> string \<Rightarrow> string \<Rightarrow> json \<Rightarrow> (task_state option, string) result \<Rightarrow>
   (task_state option, gate_denial) result" where
  "gate_check libs gate caller tool args task_state =
     (let eng = pg_engine gate; server = pg_server gate in
      if caller = [] then Err (UnknownCaller ''caller identity missing'')
      else if \<not> is_tool_allowed (pe_trust_db eng) caller tool then Err (trust_denial (pe_trust_db eng) caller tool)
      else and_then (map_err (\<lambda>_. ChainError ''task state lookup failed'') task_state) (\<lambda>st.
           and_then (decision_result (evaluate eng tool st)) (\<lambda>_.
           and_then (map_err (\<lambda>v. SupplyChainDenied (show_violation v))
             (verify (gl_sha256 libs) (pe_supply_chain eng) (si_name server) (si_command server) (si_args server))) (\<lambda>_.
           and_then (map_err (\<lambda>v. PolicyDenied (show_violation v))
             (pre_tool (gl_scanner libs) tool args (case st of Some s \<Rightarrow> s | None \<Rightarrow> Pending))) (\<lambda>_.
           Ok st)))))"

definition redact_output :: "secret_scanner \<Rightarrow> string \<Rightarrow> json \<Rightarrow> json" where
  "redact_output sc tool tool_result =
     (case pa_redacted (post_tool sc tool tool_result) of Some v \<Rightarrow> v | None \<Rightarrow> tool_result)"

type_synonym 'w tool_handler = "'w \<Rightarrow> json \<Rightarrow> (json, string) result \<times> 'w"

definition guard ::
  "gate_libs \<Rightarrow> policy_gate \<Rightarrow> string \<Rightarrow> string \<Rightarrow> json \<Rightarrow> (task_state option, string) result \<Rightarrow> 'w tool_handler \<Rightarrow> 'w \<Rightarrow>
   (json, string) result \<times> 'w" where
  "guard libs gate caller tool args task_state handler w =
     (case gate_check libs gate caller tool args task_state of
        Err denial \<Rightarrow> (Err (into_error denial), w)
      | Ok _ \<Rightarrow>
          (case handler w args of
             (Ok tool_result, w') \<Rightarrow> (Ok (redact_output (gl_scanner libs) tool tool_result), w')
           | (Err e, w') \<Rightarrow> (Err (scan_error_output (gl_scanner libs) e), w')))"

definition task_state_from_status :: "string \<Rightarrow> task_state option" where
  "task_state_from_status status =
     (if status = ''pending'' then Some Pending
      else if status = ''planned'' then Some Planned
      else if status = ''claimed'' then Some Claimed
      else if status = ''in_progress'' \<or> status = ''active'' then Some Active
      else if status = ''blocked'' then Some Blocked
      else if status = ''needs_approval'' then Some NeedsApproval
      else if status = ''code_review'' then Some CodeReview
      else if status = ''qa'' then Some Qa
      else if status = ''done'' then Some Done
      else if status = ''canceled'' \<or> status = ''cancelled'' then Some Canceled
      else if status = ''failed'' then Some Failed
      else None)"

section \<open>The dispatcher: dispatch.rs\<close>

definition DISPATCH_WRITE_TOOLS :: "string list" where
  "DISPATCH_WRITE_TOOLS = [''apply_patch'', ''run_tests'', ''transition_task'', ''claim_task'']"

text \<open>The columns of a stored task the dispatcher reads, and the part of the application it uses.\<close>

record stored_task =
  stt_status :: string
  stt_claimed_by :: "string option"

record 'w mcp_context =
  cx_get_task :: "'w \<Rightarrow> string \<Rightarrow> (stored_task option, string) result"
  cx_route :: "string \<Rightarrow> string option \<Rightarrow> 'w tool_handler"
  cx_clawd_tools :: "string list"

definition resolve_task_state :: "'w mcp_context \<Rightarrow> 'w \<Rightarrow> json \<Rightarrow> (task_state option, string) result" where
  "resolve_task_state ctx w arguments =
     (case get_str arguments ''task_id'' of
        None \<Rightarrow> Ok None
      | Some i \<Rightarrow>
          and_then (cx_get_task ctx w i) (\<lambda>t. Ok (case t of Some t \<Rightarrow> task_state_from_status (stt_status t) | None \<Rightarrow> None)))"

definition verify_active_claimed ::
  "'w mcp_context \<Rightarrow> 'w \<Rightarrow> json \<Rightarrow> string option \<Rightarrow> (unit, string) result" where
  "verify_active_claimed ctx w arguments agent_id =
     (case get_str arguments ''task_id'' of
        None \<Rightarrow> Err (''MCP_INVALID_PARAMS: missing required field '' @ quoted ''task_id'')
      | Some task_id \<Rightarrow>
          and_then (cx_get_task ctx w task_id) (\<lambda>t.
            case t of
              None \<Rightarrow> Err (''MCP_PROVIDER_NOT_AVAILABLE: task '' @ quoted task_id @ '' not found'')
            | Some task \<Rightarrow>
                if stt_status task \<noteq> ''in_progress''
                then Err (''MCP_PROVIDER_NOT_AVAILABLE: task '' @ quoted task_id @ '' is in state '' @ quoted (stt_status task) @
                       '' - must be '' @ quoted ''in_progress'' @ '' (Active+Claimed)'')
                else (case agent_id of
                    None \<Rightarrow> Ok ()
                  | Some aid \<Rightarrow>
                      if stt_claimed_by task \<noteq> Some aid
                      then Err (''MCP_PROVIDER_NOT_AVAILABLE: task '' @ quoted task_id @ '' is claimed by '' @
                             quoted (case stt_claimed_by task of Some c \<Rightarrow> c | None \<Rightarrow> ''unknown'') @ '', not '' @ quoted aid)
                      else Ok ())))"

definition dispatch_handler :: "'w mcp_context \<Rightarrow> string \<Rightarrow> string option \<Rightarrow> 'w tool_handler" where
  "dispatch_handler ctx tool_name agent_id w args =
     (if tool_name \<in> set DISPATCH_WRITE_TOOLS
      then (if agent_id = None
            then (Err (into_error (PolicyDenied ''agent identity required for write tools'')), w)
            else case verify_active_claimed ctx w args agent_id of
                Err e \<Rightarrow> (Err e, w)
              | Ok _ \<Rightarrow> cx_route ctx tool_name agent_id w args)
      else cx_route ctx tool_name agent_id w args)"

definition dispatch ::
  "gate_libs \<Rightarrow> policy_gate \<Rightarrow> string \<Rightarrow> 'w mcp_context \<Rightarrow> 'w \<Rightarrow> string \<Rightarrow> json \<Rightarrow> string option \<Rightarrow>
   (json, string) result \<times> 'w" where
  "dispatch libs gate client_id ctx w tool_name arguments agent_id =
     (if tool_name \<notin> set (cx_clawd_tools ctx)
      then (Err (''MCP_INVALID_PARAMS: unknown tool: '' @ tool_name), w)
      else guard libs gate client_id tool_name arguments (resolve_task_state ctx w arguments)
             (dispatch_handler ctx tool_name agent_id) w)"

text \<open>The wire codes of \<^verbatim>\<open>mcp/transport.rs\<close>.\<close>

definition MCP_INVALID_PARAMS :: int where "MCP_INVALID_PARAMS = - 32602"
definition MCP_INTERNAL_ERROR :: int where "MCP_INTERNAL_ERROR = - 32603"
definition MCP_PROVIDER_NOT_AVAILABLE :: int where "MCP_PROVIDER_NOT_AVAILABLE = - 32002"
definition MCP_UNKNOWN_ENTITY :: int where "MCP_UNKNOWN_ENTITY = - 32002"
definition MCP_POLICY_DENIED :: int where "MCP_POLICY_DENIED = - 32003"
definition MCP_SUPPLY_CHAIN_DENIED :: int where "MCP_SUPPLY_CHAIN_DENIED = - 32004"

definition classify_error :: "string \<Rightarrow> int \<times> string" where
  "classify_error msg =
     (if starts_with msg ''MCP_INVALID_PARAMS:''
      then (MCP_INVALID_PARAMS, trim (trim_start_matches ''MCP_INVALID_PARAMS:'' msg))
      else if starts_with msg ''MCP_UNKNOWN_ENTITY:''
      then (MCP_UNKNOWN_ENTITY, trim (trim_start_matches ''MCP_UNKNOWN_ENTITY:'' msg))
      else if starts_with msg ''MCP_POLICY_DENIED:''
      then (MCP_POLICY_DENIED, trim (trim_start_matches ''MCP_POLICY_DENIED:'' msg))
      else if starts_with msg ''MCP_SUPPLY_CHAIN_DENIED:''
      then (MCP_SUPPLY_CHAIN_DENIED, trim (trim_start_matches ''MCP_SUPPLY_CHAIN_DENIED:'' msg))
      else if starts_with msg ''MCP_PROVIDER_NOT_AVAILABLE:''
      then (MCP_PROVIDER_NOT_AVAILABLE, trim (trim_start_matches ''MCP_PROVIDER_NOT_AVAILABLE:'' msg))
      else (MCP_INTERNAL_ERROR, ''internal error''))"

section \<open>Lemmas\<close>

lemma map_err_Ok_iff [result_simps]: "map_err f r = Ok x \<longleftrightarrow> r = Ok x"
  by (cases r) auto

lemma decision_result_Ok: "decision_result d = Ok u \<longleftrightarrow> d = Allow"
  by (cases d) auto

lemma pre_tool_Ok:
  "pre_tool sc tool args st = Ok u \<longleftrightarrow> (tool \<in> set HOOK_WRITE_TOOLS \<longrightarrow> st = Active) \<and> check_tool_args sc args = Ok u"
  by (auto simp: pre_tool_def check_write_state_def result_simps)

text \<open>The whole chain, read as one condition on the call.\<close>

definition permitted :: "gate_libs \<Rightarrow> risk_database \<Rightarrow> trust_database \<Rightarrow> supply_chain_policy \<Rightarrow> server_identity \<Rightarrow>
  string \<Rightarrow> string \<Rightarrow> json \<Rightarrow> task_state option \<Rightarrow> bool" where
  "permitted libs risk trust chain server caller tool args st \<longleftrightarrow>
     caller \<noteq> [] \<and>
     (\<exists>e. trust caller = Some e \<and> te_trust e = Trusted \<and> (te_allowed_tools e = [] \<or> tool \<in> set (te_allowed_tools e))) \<and>
     (if tool = ''request_approval'' then st = Some Active
      else get_risk risk tool = LowRisk \<or> get_risk risk tool = MediumRisk \<and> (tool = ''create_task'' \<or> st = Some Active)) \<and>
     (\<exists>fp. sc_servers chain (si_name server) = Some fp \<and>
        fp_binary_hash fp = compute_command_hash (gl_sha256 libs) (si_command server) (si_args server)) \<and>
     (tool \<in> {''apply_patch'', ''run_tests''} \<longrightarrow> st = Some Active) \<and>
     is_ok (check_tool_args (gl_scanner libs) args)"

lemma verify_Ok:
  "verify sha chain name c a = Ok u \<longleftrightarrow>
     (\<exists>fp. sc_servers chain name = Some fp \<and> fp_binary_hash fp = compute_command_hash sha c a)"
  by (auto simp: verify_def split: option.splits)

lemma tool_allowed_ex:
  "(\<exists>e. db caller = Some e \<and> te_trust e = Trusted \<and> (te_allowed_tools e = [] \<or> tool \<in> set (te_allowed_tools e))) \<longleftrightarrow>
     is_tool_allowed db caller tool"
  by (auto simp: is_tool_allowed_def list_ex_iff split: option.split)

lemma gate_check_permitted:
  "gate_check libs \<lparr>pg_engine = new_engine risk trust chain, pg_server = server\<rparr> caller tool args task_state = Ok st \<longleftrightarrow>
     task_state = Ok st \<and> permitted libs risk trust chain server caller tool args st"
proof (cases "caller \<noteq> [] \<and> is_tool_allowed trust caller tool")
  case False
  then have "\<not> permitted libs risk trust chain server caller tool args st"
    unfolding permitted_def tool_allowed_ex by blast
  moreover have "gate_check libs \<lparr>pg_engine = new_engine risk trust chain, pg_server = server\<rparr> caller tool args task_state \<noteq> Ok st"
    using False by (simp add: gate_check_def new_engine_def) blast
  ultimately show ?thesis by simp
next
  case True
  have w: "(tool \<in> set HOOK_WRITE_TOOLS \<longrightarrow> (case st of Some s \<Rightarrow> s | None \<Rightarrow> Pending) = Active) \<longleftrightarrow>
      (tool \<in> {''apply_patch'', ''run_tests''} \<longrightarrow> st = Some Active)" for st
    by (cases st) (simp_all add: HOOK_WRITE_TOOLS_def)
  have "gate_check libs \<lparr>pg_engine = new_engine risk trust chain, pg_server = server\<rparr> caller tool args task_state = Ok st \<longleftrightarrow>
      task_state = Ok st \<and> should_approve default_approval_rules tool (get_risk risk tool) st = Allow \<and>
      is_ok (verify (gl_sha256 libs) chain (si_name server) (si_command server) (si_args server)) \<and>
      is_ok (pre_tool (gl_scanner libs) tool args (case st of Some s \<Rightarrow> s | None \<Rightarrow> Pending))"
    using True unfolding gate_check_def new_engine_def Let_def
    by (simp add: result_simps decision_result_Ok evaluate_def)
  then show ?thesis
    using True unfolding permitted_def is_ok_iff verify_Ok pre_tool_Ok should_approve_Allow tool_allowed_ex w by blast
qed

text \<open>A guarded call: either the chain refuses and nothing happens, or the handler runs.\<close>

lemma guard_cases:
  obtains (denied) d where "gate_check libs gate caller tool args st = Err d"
      "guard libs gate caller tool args st handler w = (Err (into_error d), w)"
  | (ran) st' where "gate_check libs gate caller tool args st = Ok st'"
      "snd (guard libs gate caller tool args st handler w) = snd (handler w args)"
proof (cases "gate_check libs gate caller tool args st")
  case (Ok st')
  obtain r w' where "handler w args = (r, w')" by fastforce
  with Ok ran show ?thesis by (cases r) (simp_all add: guard_def)
next
  case (Err d)
  with denied show ?thesis by (simp add: guard_def)
qed

lemma handler_claimed:
  assumes "tool \<in> set DISPATCH_WRITE_TOOLS" "snd (dispatch_handler ctx tool agent w args) \<noteq> w"
  shows "\<exists>i t a. get_str args ''task_id'' = Some i \<and> cx_get_task ctx w i = Ok (Some t) \<and>
    stt_status t = ''in_progress'' \<and> agent = Some a \<and> stt_claimed_by t = Some a"
proof -
  obtain a where a: "agent = Some a" using assms by (cases agent) (auto simp: dispatch_handler_def)
  have "is_ok (verify_active_claimed ctx w args agent)"
    using assms a by (auto simp: dispatch_handler_def result_simps split: result.splits)
  then show ?thesis
    by (auto simp: verify_active_claimed_def result_simps a split: option.splits if_splits)
qed

lemma classify_prefix:
  assumes "p \<in> set MCP_ERROR_PREFIXES" "starts_with m p" "starts_with m' p"
  shows "fst (classify_error m) = fst (classify_error m')"
proof -
  have only: "starts_with x q \<longleftrightarrow> q = p" if "q \<in> set MCP_ERROR_PREFIXES" "starts_with x p" for x q
    using that assms(1) prefixes_apart prefix_same_cases [of q x p] unfolding starts_with_def by metis
  have "starts_with m q = starts_with m' q" if "q \<in> set MCP_ERROR_PREFIXES" for q
    using only [OF that assms(2)] only [OF that assms(3)] by simp
  then have "starts_with m ''MCP_INVALID_PARAMS:'' = starts_with m' ''MCP_INVALID_PARAMS:''"
    "starts_with m ''MCP_UNKNOWN_ENTITY:'' = starts_with m' ''MCP_UNKNOWN_ENTITY:''"
    "starts_with m ''MCP_POLICY_DENIED:'' = starts_with m' ''MCP_POLICY_DENIED:''"
    "starts_with m ''MCP_SUPPLY_CHAIN_DENIED:'' = starts_with m' ''MCP_SUPPLY_CHAIN_DENIED:''"
    "starts_with m ''MCP_PROVIDER_NOT_AVAILABLE:'' = starts_with m' ''MCP_PROVIDER_NOT_AVAILABLE:''"
    unfolding MCP_ERROR_PREFIXES_def by simp_all
  then show ?thesis by (simp only: classify_error_def if_distrib [of fst] fst_conv)
qed

section \<open>Properties\<close>

text \<open>C4: The gate passes a call exactly if the caller is named and trusted for the tool, the task lookup
  succeeded, the tool's risk allows it in the task's state (low risk always, medium risk in an Active
  task or to create one, a request for approval in an Active task, nothing of high risk), the
  providing server's fingerprint is registered, a write tool meets an Active task, and no string of
  the arguments looks like a secret.\<close>

theorem gate_passes_iff_permitted:
  "gate_check libs \<lparr>pg_engine = new_engine risk trust chain, pg_server = server\<rparr> caller tool args task_state = Ok st \<longleftrightarrow>
     task_state = Ok st \<and> permitted libs risk trust chain server caller tool args st"
  by (rule gate_check_permitted)

text \<open>C3: A dispatched call that changes the world in any way was permitted by the whole chain, and for a
  write tool the task it names was in progress and claimed by the calling agent.\<close>

theorem dispatch_effect_authorised:
  assumes "snd (dispatch libs \<lparr>pg_engine = new_engine risk trust chain, pg_server = server\<rparr> client ctx w tool args agent) \<noteq> w"
  shows "tool \<in> set (cx_clawd_tools ctx) \<and>
    (\<exists>st. resolve_task_state ctx w args = Ok st \<and> permitted libs risk trust chain server client tool args st) \<and>
    (tool \<in> set DISPATCH_WRITE_TOOLS \<longrightarrow>
      (\<exists>i t a. get_str args ''task_id'' = Some i \<and> cx_get_task ctx w i = Ok (Some t) \<and>
         stt_status t = ''in_progress'' \<and> agent = Some a \<and> stt_claimed_by t = Some a))"
proof -
  let ?g = "\<lparr>pg_engine = new_engine risk trust chain, pg_server = server\<rparr>"
  let ?st = "resolve_task_state ctx w args"
  have known: "tool \<in> set (cx_clawd_tools ctx)" using assms by (cases "tool \<in> set (cx_clawd_tools ctx)") (simp_all add: dispatch_def)
  then have eff: "snd (guard libs ?g client tool args ?st (dispatch_handler ctx tool agent) w) \<noteq> w"
    using assms by (simp add: dispatch_def)
  show ?thesis
  proof (cases rule: guard_cases [of libs ?g client tool args ?st "dispatch_handler ctx tool agent" w])
    case (denied d)
    with eff show ?thesis by simp
  next
    case (ran st')
    with eff handler_claimed [of tool ctx agent w args] known gate_check_permitted show ?thesis by fastforce
  qed
qed

text \<open>Claiming a task through the dispatcher has no effect unless the calling agent has claimed it
  already: \<open>claim_task\<close> is treated as a write tool, so a pending task cannot be claimed.\<close>

theorem claim_task_needs_earlier_claim:
  assumes "get_str args ''task_id'' = Some i" "cx_get_task ctx w i = Ok (Some t)"
    and "stt_status t \<noteq> ''in_progress'' \<or> stt_claimed_by t \<noteq> agent"
  shows "snd (dispatch libs gate client ctx w ''claim_task'' args agent) = w \<and>
    \<not> is_ok (fst (dispatch libs gate client ctx w ''claim_task'' args agent))"
proof -
  have w: "''claim_task'' \<in> set DISPATCH_WRITE_TOOLS" by (simp add: DISPATCH_WRITE_TOOLS_def)
  have "snd (dispatch_handler ctx ''claim_task'' agent w args) = w"
    using handler_claimed [OF w] assms by fastforce
  moreover have "\<not> is_ok (fst (dispatch_handler ctx ''claim_task'' agent w args))"
    using assms w by (cases agent) (auto simp: dispatch_handler_def verify_active_claimed_def)
  ultimately obtain e where "dispatch_handler ctx ''claim_task'' agent w args = (Err e, w)"
    by (cases "dispatch_handler ctx ''claim_task'' agent w args"; cases "fst (dispatch_handler ctx ''claim_task'' agent w args)") auto
  then show ?thesis by (auto simp: dispatch_def guard_def split: result.split)
qed

text \<open>Redacting the text of a handler's error never changes its wire code: a message that starts with
  one of the protocol's error prefixes is classified as before.\<close>

theorem redaction_keeps_wire_code:
  assumes "p \<in> set MCP_ERROR_PREFIXES" "starts_with msg p"
  shows "fst (classify_error (scan_error_output sc msg)) = fst (classify_error msg)"
  using classify_prefix [OF assms(1) scan_error_keeps_prefix [OF assms] assms(2)] .

text \<open>A small installation for the witnesses: one trusted client, one registered server, a world that is
  the list of tool calls made so far, and one task.\<close>

definition sample_libs :: gate_libs where
  "sample_libs = \<lparr>gl_sha256 = \<lambda>x. x,
     gl_scanner = \<lparr>regex_find = \<lambda>p s. None, replace_all = \<lambda>p s. s, high_entropy = \<lambda>s. False\<rparr>\<rparr>"

definition sample_trust :: trust_database where
  "sample_trust = upsert_trust Map.empty
     \<lparr>te_server_name = ''ide'', te_trust = Trusted, te_command_hash = None, te_allowed_tools = []\<rparr>"

definition sample_chain :: supply_chain_policy where
  "sample_chain = snd (verify_or_register (\<lambda>x. x) True 0 empty_policy ''clawd'' ''clawd'' [])"

definition sample_server :: server_identity where
  "sample_server = \<lparr>si_name = ''clawd'', si_command = ''clawd'', si_args = []\<rparr>"

definition sample_context :: "string \<Rightarrow> string option \<Rightarrow> string list mcp_context" where
  "sample_context status claimed = \<lparr>
     cx_get_task = \<lambda>w i. Ok (Some \<lparr>stt_status = status, stt_claimed_by = claimed\<rparr>),
     cx_route = \<lambda>tool agent w args. (Ok JNull, tool # w),
     cx_clawd_tools = [''run_tests'', ''claim_task'']\<rparr>"

lemmas sample_simps = sample_libs_def sample_trust_def upsert_trust_def sample_chain_def verify_or_register_def
  persist_def empty_policy_def sample_server_def sample_context_def new_engine_def

theorem dispatch_effect_authorised_witness:
  "permitted sample_libs default_rules sample_trust sample_chain sample_server ''ide'' ''run_tests''
     (JObject [(''task_id'', JString ''T1'')]) (Some Active)"
proof -
  let ?a = "JObject [(''task_id'', JString ''T1'')]"
  let ?c = "sample_context ''in_progress'' (Some ''bob'')"
  let ?g = "\<lparr>pg_engine = new_engine default_rules sample_trust sample_chain, pg_server = sample_server\<rparr>"
  have r: "resolve_task_state ?c [] ?a = Ok (Some Active)"
    by (simp add: resolve_task_state_def get_str_def sample_context_def task_state_from_status_def)
  have p: "permitted sample_libs default_rules sample_trust sample_chain sample_server ''ide'' ''run_tests'' ?a (Some Active)"
    by (simp add: permitted_def sample_simps get_risk_def default_rules_def insert_all_lookup check_tool_args_def
        check_string_def find_secret_def NEVER_EXPOSE_PATTERNS_def List.map_filter_simps suspicious_token_def)
  then have "gate_check sample_libs ?g ''ide'' ''run_tests'' ?a (Ok (Some Active)) = Ok (Some Active)"
    by (simp add: gate_check_permitted)
  then have "snd (dispatch sample_libs ?g ''ide'' ?c [] ''run_tests'' ?a (Some ''bob'')) = [''run_tests'']"
    unfolding dispatch_def guard_def r
    by (simp add: dispatch_handler_def verify_active_claimed_def get_str_def sample_context_def DISPATCH_WRITE_TOOLS_def)
  then have "\<exists>st. resolve_task_state ?c [] ?a = Ok st \<and>
      permitted sample_libs default_rules sample_trust sample_chain sample_server ''ide'' ''run_tests'' ?a st"
    using dispatch_effect_authorised [of sample_libs default_rules sample_trust sample_chain sample_server "''ide''" ?c "[]"
        "''run_tests''" ?a "Some ''bob''"] by simp
  with r show ?thesis by simp
qed

theorem claim_task_needs_earlier_claim_witness:
  "snd (dispatch sample_libs \<lparr>pg_engine = new_engine default_rules sample_trust sample_chain, pg_server = sample_server\<rparr>
     ''ide'' (sample_context ''pending'' None) [] ''claim_task'' (JObject [(''task_id'', JString ''T1'')]) (Some ''bob'')) = []"
  using claim_task_needs_earlier_claim [of "JObject [(''task_id'', JString ''T1'')]" "''T1''" "sample_context ''pending'' None" "[]"
      "\<lparr>stt_status = ''pending'', stt_claimed_by = None\<rparr>" "Some ''bob''" sample_libs
      "\<lparr>pg_engine = new_engine default_rules sample_trust sample_chain, pg_server = sample_server\<rparr>" "''ide''"]
  by (simp add: get_str_def sample_context_def)

theorem redaction_keeps_wire_code_witness:
  "fst (classify_error (scan_error_output (gl_scanner sample_libs) ''MCP_INVALID_PARAMS: has PRIVATE KEY----- inside'')) = - 32602"
  using redaction_keeps_wire_code [of "''MCP_INVALID_PARAMS:''" "''MCP_INVALID_PARAMS: has PRIVATE KEY----- inside''" "gl_scanner sample_libs"]
  by (simp add: MCP_ERROR_PREFIXES_def starts_with_def classify_error_def MCP_INVALID_PARAMS_def)

end
