(* ===== verification/Task_Tools.thy ===== *)
theory Task_Tools
  imports Task_Queries Policy_Gate
begin

text \<open>
  The MCP task tools (\<^verbatim>\<open>mcp/tools/task.rs\<close>, \<^verbatim>\<open>mcp/tools/patch.rs\<close>) and the approval calls of the daemon's own
  protocol (\<^verbatim>\<open>ipc/handlers/approval.rs\<close>), on top of the task store. The world of a handler is the database, the
  events broadcast so far, the test runs started, the idempotency keys seen and the patches applied. What a handler
  asks of its environment (clock, random ids, file system, git, worktrees, the JSON printer, error texts of the
  database) is in the record \<open>tool_env\<close>.
\<close>

record daemon =
  dm_db :: task_db
  dm_events :: "(string \<times> json) list"
  dm_jobs :: "(string \<times> string \<times> string \<times> string list) list"
  dm_seen_keys :: "string list"
  dm_patches :: "(string \<times> string) list"

record tool_env =
  te_now :: timestamp
  te_uuid :: string
  te_log_id :: string
  te_path_exists :: "string \<Rightarrow> bool"
  te_to_string :: "json \<Rightarrow> string"
  te_db_message :: "db_error \<Rightarrow> string"
  te_parse_patch :: "string \<Rightarrow> (string, string) result"
  te_delta_files :: "string \<Rightarrow> (string list, string) result"
  te_worktree :: "string \<Rightarrow> string option"
  te_open_repo :: "string \<Rightarrow> (unit, string) result"
  te_git_apply :: "string \<Rightarrow> string \<Rightarrow> (unit, string) result"

definition empty_daemon :: daemon where
  "empty_daemon = \<lparr>dm_db = empty_db, dm_events = [], dm_jobs = [], dm_seen_keys = [], dm_patches = []\<rparr>"

fun show_task_error :: "tool_env \<Rightarrow> task_error \<Rightarrow> string" where
  "show_task_error env (Db e) = te_db_message env e"
| "show_task_error env (TaskCode c) = ''TASK_CODE:'' @ show_int c"
| "show_task_error env (NotResumable elapsed limit) =
     ''TASK_CODE:-32015 - interrupted task exceeded re-claim window ('' @ show_int elapsed @ ''s elapsed, '' @ show_int limit @ ''s max)''"
| "show_task_error env (TaskMessage m) = m"

section \<open>Arguments\<close>

definition missing_field :: "string \<Rightarrow> string" where
  "missing_field key = ''MCP_INVALID_PARAMS: missing required field '' @ quoted key"

definition get_member :: "json \<Rightarrow> string \<Rightarrow> json option" where
  "get_member v key = (case v of JObject members \<Rightarrow> map_of members key | _ \<Rightarrow> None)"

text \<open>\<^verbatim>\<open>str_arg\<close>: a required string argument.\<close>

definition str_arg :: "json \<Rightarrow> string \<Rightarrow> (string \<Rightarrow> (json, string) result \<times> 'w) \<Rightarrow> 'w \<Rightarrow> (json, string) result \<times> 'w" where
  "str_arg args key k w = (case get_str args key of Some s \<Rightarrow> k s | None \<Rightarrow> (Err (missing_field key), w))"

fun as_strings :: "json list \<Rightarrow> string list" where
  "as_strings [] = []"
| "as_strings (JString s # vs) = s # as_strings vs"
| "as_strings (_ # vs) = as_strings vs"

definition str_list :: "json \<Rightarrow> string \<Rightarrow> string list option" where
  "str_list args key = (case get_member args key of Some (JArray vs) \<Rightarrow> Some (as_strings vs) | _ \<Rightarrow> None)"

abbreviation agent_or_mcp :: "string option \<Rightarrow> string" where
  "agent_or_mcp agent \<equiv> or_default agent ''mcp-agent''"

text \<open>Calls of the store in a handler: passing its error on, or ignoring it (\<^verbatim>\<open>let _ =\<close>).\<close>

definition try_store ::
  "tool_env \<Rightarrow> daemon \<Rightarrow> ('a, task_error) result \<times> task_db \<Rightarrow> ('a \<Rightarrow> daemon \<Rightarrow> (json, string) result \<times> daemon) \<Rightarrow>
   (json, string) result \<times> daemon" where
  "try_store env w r k =
     (case r of (Ok x, db) \<Rightarrow> k x (w\<lparr>dm_db := db\<rparr>) | (Err e, db) \<Rightarrow> (Err (show_task_error env e), w\<lparr>dm_db := db\<rparr>))"

definition log_ignored ::
  "tool_env \<Rightarrow> string \<Rightarrow> string \<Rightarrow> string option \<Rightarrow> string \<Rightarrow> string option \<Rightarrow> string \<Rightarrow> daemon \<Rightarrow> daemon" where
  "log_ignored env agent task_id phase action detail repo_path w =
     w\<lparr>dm_db := snd (log_activity (te_log_id env) (te_now env) agent (Some task_id) phase action ''system'' detail None repo_path (dm_db w))\<rparr>"

definition broadcast :: "string \<Rightarrow> json \<Rightarrow> daemon \<Rightarrow> daemon" where
  "broadcast name payload w = w\<lparr>dm_events := dm_events w @ [(name, payload)]\<rparr>"

definition task_not_found :: "string \<Rightarrow> string" where
  "task_not_found task_id = ''MCP_INVALID_PARAMS: task '' @ quoted task_id @ '' not found''"

section \<open>Task tools\<close>

definition create_args :: "string \<Rightarrow> string \<Rightarrow> string \<Rightarrow> string \<Rightarrow> string \<Rightarrow> add_task_args" where
  "create_args task_id title priority tags_json repo =
     \<lparr>ad_id = task_id, ad_title = title, ad_task_type = Some ''code'', ad_phase = None, ad_group = None, ad_parent_id = None,
      ad_severity = Some priority, ad_file = None, ad_files = None, ad_depends_on = None, ad_tags = Some tags_json,
      ad_estimated_minutes = None, ad_repo_path = repo\<rparr>"

definition create_notes :: "json \<Rightarrow> string option" where
  "create_notes args =
     (let parts = (case get_str args ''summary'' of Some s \<Rightarrow> [s] | None \<Rightarrow> []) @
          (case str_list args ''acceptance_criteria'' of
             Some ac \<Rightarrow> if ac \<noteq> [] then [''Acceptance criteria:'' @ [NL] @ join ([NL] @ ''- '') ac] else []
           | None \<Rightarrow> [])
      in if parts = [] then None else Some (join [NL, NL] parts))"

definition create_task :: "tool_env \<Rightarrow> daemon \<Rightarrow> json \<Rightarrow> (json, string) result \<times> daemon" where
  "create_task env w args =
     str_arg args ''title'' (\<lambda>title. str_arg args ''repo'' (\<lambda>repo.
       let priority = or_default (get_str args ''priority'') ''medium'';
           tags_json = (case str_list args ''labels'' of Some l \<Rightarrow> te_to_string env (JArray (map JString l)) | None \<Rightarrow> ''[]'')
       in if \<not> te_path_exists env repo then (Err (''MCP_INVALID_PARAMS: repo path does not exist: '' @ repo), w)
          else try_store env w (add_task (te_now env) (create_args (te_uuid env) title priority tags_json repo) (dm_db w)) (\<lambda>task w1.
            let w2 = (case create_notes args of
                  Some notes \<Rightarrow> w1\<lparr>dm_db := snd (update_status (te_now env) (te_uuid env) (at_status task) (Some notes) None (dm_db w1))\<rparr>
                | None \<Rightarrow> w1)
            in (Ok (JObject [(''task_id'', JString (te_uuid env)), (''status'', JString ''pending'')]), w2))) w) w"

definition claim_task_tool :: "tool_env \<Rightarrow> daemon \<Rightarrow> json \<Rightarrow> string option \<Rightarrow> (json, string) result \<times> daemon" where
  "claim_task_tool env w args agent_id =
     str_arg args ''task_id'' (\<lambda>task_id.
       try_store env w (claim_task (te_now env) task_id (agent_or_mcp agent_id) None (dm_db w)) (\<lambda>_ w1.
         (Ok (JObject [(''claimed'', JBool True)]),
          log_ignored env (agent_or_mcp agent_id) task_id None ''task_claimed'' (Some ''Claimed via MCP tool'') [] w1))) w"

definition log_event :: "tool_env \<Rightarrow> daemon \<Rightarrow> json \<Rightarrow> string option \<Rightarrow> (json, string) result \<times> daemon" where
  "log_event env w args agent_id =
     str_arg args ''task_id'' (\<lambda>task_id. str_arg args ''event_type'' (\<lambda>event_type.
       case get_member args ''data'' of
         None \<Rightarrow> (Err (missing_field ''data''), w)
       | Some data \<Rightarrow>
           (case get_task task_id (dm_db w) of
              None \<Rightarrow> (Err (task_not_found task_id), w)
            | Some task \<Rightarrow>
                try_store env w (log_activity (te_log_id env) (te_now env) (agent_or_mcp agent_id) (Some task_id) (at_phase task)
                    event_type ''system'' None (Some (te_to_string env data)) (at_repo_path task) (dm_db w))
                  (\<lambda>_ w1. (Ok (JObject [(''logged'', JBool True)]), w1)))) w) w"

text \<open>\<^verbatim>\<open>splitn(2, ' ')\<close>: the program is the first word, everything behind the first space is one argument.\<close>

definition split_command :: "string \<Rightarrow> string \<times> string list" where
  "split_command command =
     (let prog = takeWhile (\<lambda>c. c \<noteq> CHR 0x20) command;
          arg = drop 1 (dropWhile (\<lambda>c. c \<noteq> CHR 0x20) command)
      in (prog, if arg = [] then [] else [arg]))"

definition run_tests :: "tool_env \<Rightarrow> daemon \<Rightarrow> json \<Rightarrow> string option \<Rightarrow> (json, string) result \<times> daemon" where
  "run_tests env w args agent_id =
     str_arg args ''task_id'' (\<lambda>task_id. str_arg args ''idempotency_key'' (\<lambda>key.
       let command = or_default (get_str args ''command'') ''cargo test'' in
       case get_task task_id (dm_db w) of
         None \<Rightarrow> (Err (task_not_found task_id), w)
       | Some task \<Rightarrow>
           (let detail = ''run_tests: command='' @ quoted command @ '' idempotency_key='' @ quoted key @ '' job_id='' @ quoted (te_uuid env);
                w1 = log_ignored env (agent_or_mcp agent_id) task_id (at_phase task) ''run_tests'' (Some detail) (at_repo_path task) w
            in (Ok (JObject [(''started'', JBool True), (''job_id'', JString (te_uuid env))]),
                w1\<lparr>dm_jobs := dm_jobs w1 @ [(te_uuid env, at_repo_path task, split_command command)]\<rparr>))) w) w"

definition request_approval_tool :: "tool_env \<Rightarrow> daemon \<Rightarrow> json \<Rightarrow> string option \<Rightarrow> (json, string) result \<times> daemon" where
  "request_approval_tool env w args agent_id =
     str_arg args ''task_id'' (\<lambda>task_id. str_arg args ''tool_name'' (\<lambda>tool_name. str_arg args ''risk_level'' (\<lambda>risk_level.
       let approval_id = te_uuid env;
           w1 = broadcast ''tool.approvalRequested''
             (JObject [(''approval_id'', JString approval_id), (''task_id'', JString task_id),
                (''agent_id'', JString (agent_or_mcp agent_id)), (''tool_name'', JString tool_name),
                (''arguments'', or_default (get_member args ''arguments'') (JObject [])), (''risk_level'', JString risk_level)]) w;
           w2 = w1\<lparr>dm_db := snd (update_status (te_now env) task_id ''needs_approval'' (Some approval_id) None (dm_db w1))\<rparr>;
           w3 = log_ignored env (agent_or_mcp agent_id) task_id None ''approval_requested''
             (Some (''approval_id='' @ approval_id @ '' tool='' @ tool_name @ '' risk='' @ risk_level)) [] w2
       in (Ok (JObject [(''pending'', JBool True), (''approval_id'', JString approval_id)]), w3)) w) w) w"

definition transition_task :: "tool_env \<Rightarrow> daemon \<Rightarrow> json \<Rightarrow> string option \<Rightarrow> (json, string) result \<times> daemon" where
  "transition_task env w args agent_id =
     str_arg args ''task_id'' (\<lambda>task_id. str_arg args ''new_state'' (\<lambda>new_state.
       let reason = get_str args ''reason'';
           notes = (if new_state = ''done'' then Some (or_default reason ''Completed via MCP transition_task.'') else reason);
           block_reason = (if new_state = ''blocked'' then reason else None)
       in try_store env w (update_status (te_now env) task_id new_state notes block_reason (dm_db w)) (\<lambda>_ w1.
            let w2 = log_ignored env (agent_or_mcp agent_id) task_id None ''task_transition''
                  (Some (''-> '' @ new_state @ '' '' @ or_default reason [])) [] w1;
                w3 = broadcast ''task.statusChanged''
                  (JObject [(''task_id'', JString task_id), (''new_state'', JString new_state),
                     (''agent_id'', JString (agent_or_mcp agent_id))]) w2
            in (Ok (JObject [(''transitioned'', JBool True)]), w3))) w) w"

section \<open>Patches\<close>

text \<open>The key is recorded before the patch is read: a failed attempt uses it up. The library for git reads the patch,
  lists its files, opens the worktree and applies the patch, and each of the four may fail.\<close>

definition apply_patch :: "tool_env \<Rightarrow> daemon \<Rightarrow> json \<Rightarrow> string option \<Rightarrow> (json, string) result \<times> daemon" where
  "apply_patch env w args agent_id =
     str_arg args ''task_id'' (\<lambda>task_id. str_arg args ''patch'' (\<lambda>patch. str_arg args ''idempotency_key'' (\<lambda>key.
       case get_task task_id (dm_db w) of
         None \<Rightarrow> (Err (task_not_found task_id), w)
       | Some task \<Rightarrow>
           if at_status task \<noteq> ''in_progress''
           then (Err (''MCP_PROVIDER_NOT_AVAILABLE: task '' @ quoted task_id @ '' is '' @ quoted (at_status task) @ '' - must be '' @
                   quoted ''in_progress''), w)
           else if key \<in> set (dm_seen_keys w)
           then (Ok (JObject [(''applied'', JBool False), (''files_changed'', JArray []), (''idempotent_skip'', JBool True)]), w)
           else let w1 = w\<lparr>dm_seen_keys := key # dm_seen_keys w\<rparr> in
             case te_parse_patch env patch of
               Err e \<Rightarrow> (Err (''MCP_INVALID_PARAMS: invalid patch: '' @ e), w1)
             | Ok diff \<Rightarrow>
              case te_delta_files env diff of
                Err e \<Rightarrow> (Err (''patch delta enumeration failed: '' @ e), w1)
              | Ok files \<Rightarrow>
                 (case te_worktree env task_id of
                    None \<Rightarrow> (Err (''MCP_INVALID_PARAMS: task '' @ quoted task_id @
                              '' has no worktree - claim the task first to provision one''), w1)
                  | Some path \<Rightarrow>
                     (case te_open_repo env path of
                        Err e \<Rightarrow> (Err (''failed to open worktree at '' @ quoted path @ '': '' @ e), w1)
                      | Ok _ \<Rightarrow>
                      (case te_git_apply env path diff of
                         Err e \<Rightarrow> (Err (''git apply failed: '' @ e), w1)
                       | Ok _ \<Rightarrow>
                           (let w2 = w1\<lparr>dm_patches := dm_patches w1 @ [(path, patch)]\<rparr>;
                                w3 = log_ignored env (agent_or_mcp agent_id) task_id (at_phase task) ''apply_patch''
                                  (Some (''apply_patch: files_changed='' @ show_nat (length files) @ '' idempotency_key='' @ key))
                                  (at_repo_path task) w2
                            in (Ok (JObject [(''applied'', JBool True), (''files_changed'', JArray (map JString files))]), w3)))))) w) w) w"

section \<open>The dispatcher on these tools\<close>

definition clawd_tools :: "string list" where
  "clawd_tools = [''create_task'', ''claim_task'', ''log_event'', ''apply_patch'', ''run_tests'', ''request_approval'', ''transition_task'']"

definition route :: "tool_env \<Rightarrow> string \<Rightarrow> string option \<Rightarrow> daemon tool_handler" where
  "route env tool_name agent_id w args =
     (if tool_name = ''create_task'' then create_task env w args
      else if tool_name = ''claim_task'' then claim_task_tool env w args agent_id
      else if tool_name = ''log_event'' then log_event env w args agent_id
      else if tool_name = ''apply_patch'' then apply_patch env w args agent_id
      else if tool_name = ''run_tests'' then run_tests env w args agent_id
      else if tool_name = ''request_approval'' then request_approval_tool env w args agent_id
      else if tool_name = ''transition_task'' then transition_task env w args agent_id
      else (Err (''MCP_INVALID_PARAMS: unknown tool: '' @ tool_name), w))"

definition stored_view :: "agent_task_row \<Rightarrow> stored_task" where
  "stored_view r = \<lparr>stt_status = at_status r, stt_claimed_by = at_claimed_by r\<rparr>"

definition tool_context :: "tool_env \<Rightarrow> daemon mcp_context" where
  "tool_context env =
     \<lparr>cx_get_task = \<lambda>w i. Ok (map_option stored_view (get_task i (dm_db w))), cx_route = route env, cx_clawd_tools = clawd_tools\<rparr>"

definition mcp_call ::
  "gate_libs \<Rightarrow> policy_gate \<Rightarrow> string \<Rightarrow> tool_env \<Rightarrow> string \<Rightarrow> json \<Rightarrow> string option \<Rightarrow> daemon \<Rightarrow> (json, string) result \<times> daemon" where
  "mcp_call libs gate client env tool args agent w = dispatch libs gate client (tool_context env) w tool args agent"

section \<open>Approvals over the daemon's protocol\<close>

definition waiting_params :: "int \<Rightarrow> task_list_params" where
  "waiting_params limit = default_list_params\<lparr>lp_status := Some ''needs_approval'', lp_limit := Some limit\<rparr>"

definition str_or_null :: "string option \<Rightarrow> json" where
  "str_or_null s = (case s of Some x \<Rightarrow> JString x | None \<Rightarrow> JNull)"

definition approval_list :: "(string \<Rightarrow> string list option) \<Rightarrow> daemon \<Rightarrow> json" where
  "approval_list from_str w =
     JObject [(''approvals'', JArray (map (\<lambda>t. JObject
       [(''task_id'', JString (at_id t)), (''title'', JString (at_title t)), (''claimed_by'', str_or_null (at_claimed_by t)),
        (''repo_path'', JString (at_repo_path t)), (''updated_at'', JNumber (show_int (at_updated_at t))),
        (''approval_id'', str_or_null (at_notes t))])
       (list_tasks from_str (waiting_params 100) (dm_db w))))]"

definition approval_respond ::
  "(string \<Rightarrow> string list option) \<Rightarrow> tool_env \<Rightarrow> json \<Rightarrow> daemon \<Rightarrow> (json, string) result \<times> daemon" where
  "approval_respond from_str env params w =
     (case get_str params ''approval_id'' of
        None \<Rightarrow> (Err ''missing field: approval_id'', w)
      | Some approval_id \<Rightarrow>
          (case get_str params ''decision'' of
             None \<Rightarrow> (Err (''missing field: decision (must be '' @ quoted ''grant'' @ '' or '' @ quoted ''deny'' @ '')''), w)
           | Some decision \<Rightarrow>
               let reason = or_default (get_str params ''reason'') ''user decision'' in
               if decision \<noteq> ''grant'' \<and> decision \<noteq> ''deny''
               then (Err (''invalid decision '' @ quoted decision @ '' - must be '' @ quoted ''grant'' @ '' or '' @ quoted ''deny''), w)
               else case find (\<lambda>t. at_notes t = Some approval_id) (list_tasks from_str (waiting_params 200) (dm_db w)) of
                   None \<Rightarrow> (Err (''approval '' @ quoted approval_id @ '' not found or already resolved''), w)
                 | Some task \<Rightarrow>
                     let answer = JObject [(''approval_id'', JString approval_id), (''task_id'', JString (at_id task)), (''decision'', JString decision)] in
                     if decision = ''grant''
                     then try_store env w (update_status (te_now env) (at_id task) ''in_progress'' None None (dm_db w)) (\<lambda>_ w1.
                            (Ok answer, broadcast ''task.approvalGranted''
                               (JObject [(''approval_id'', JString approval_id), (''task_id'', JString (at_id task)), (''granted_by'', JString ''user'')]) w1))
                     else try_store env w (update_status (te_now env) (at_id task) ''blocked'' None (Some reason) (dm_db w)) (\<lambda>_ w1.
                            (Ok answer, broadcast ''task.approvalDenied''
                               (JObject [(''approval_id'', JString approval_id), (''task_id'', JString (at_id task)), (''denied_by'', JString ''user''),
                                  (''reason'', JString reason)]) w1))))"

end
