(* ===== verification/Task_Tools_Props.thy ===== *)
theory Task_Tools_Props
  imports Task_Tools
begin

text \<open>
  Properties of the MCP tools together with the policy gate, the dispatcher and the task store: what a client
  can reach through MCP alone, and what becomes of approvals and of failed patches.
\<close>

section \<open>Statuses outside the schema\<close>

lemma unknown_status_refused:
  assumes "s \<notin> set TASK_STATUSES"
  shows "snd (update_status now t s n b db) = db" "\<not> is_ok (fst (update_status now t s n b db))"
proof -
  have "\<exists>e. update_status now t s n b db = (Err e, db)"
  proof (cases "get_task t db")
    case (Some r)
    have r: "r \<in> set (db_tasks db)" "at_id r = t" using select_by_Some [OF Some [unfolded get_task_def]] by auto
    have no: "update_tasks (\<lambda>r. at_id r = t) (set_status now s n b c m) db \<noteq> Ok x" for c m x
      using r assms by (cases x) (auto simp: update_tasks_Ok task_violation_def set_status_def split: if_splits)
    have "\<exists>e. execute db (update_tasks (\<lambda>r. at_id r = t) (set_status now s n b c m) db) k = (Err e, db)"
      for c m and k :: "task_db \<Rightarrow> nat \<Rightarrow> (agent_task_row, task_error) result \<times> task_db"
    proof (cases "update_tasks (\<lambda>r. at_id r = t) (set_status now s n b c m) db")
      case (Ok x)
      with no show ?thesis by blast
    qed (simp add: execute_def)
    then show ?thesis unfolding update_status_def Let_def Some option.simps by (simp only: split: if_split) blast
  qed (simp add: update_status_def)
  then show "snd (update_status now t s n b db) = db" "\<not> is_ok (fst (update_status now t s n b db))" by auto
qed

lemma needs_approval_unknown: "''needs_approval'' \<notin> set TASK_STATUSES"
  by (simp add: TASK_STATUSES_def)

section \<open>Tasks that only MCP clients touch\<close>

definition all_pending :: "task_db \<Rightarrow> bool" where
  "all_pending db \<longleftrightarrow> list_all (\<lambda>r. at_status r = ''pending'' \<and> at_claimed_by r = None) (db_tasks db)"

lemma tasks_log [simp]: "db_tasks (snd (log_activity i now a t p act e d m repo db)) = db_tasks db"
  by (auto simp: log_activity_def insert_activity_def result_simps split: result.split option.split)

lemma pending_log [simp]: "all_pending (snd (log_activity i now a t p act e d m repo db)) \<longleftrightarrow> all_pending db"
  by (simp add: all_pending_def)

lemma pending_add:
  assumes "all_pending db"
  shows "all_pending (snd (add_task now a db))"
    and "fst (add_task now a db) = Ok r \<Longrightarrow> at_status r = ''pending''"
proof -
  show ok: "all_pending (snd (add_task now a db))"
    using assms by (auto simp: add_task_def insert_task_Ok all_pending_def new_task_row_def split: result.split)
  assume "fst (add_task now a db) = Ok r"
  then have "r \<in> set (db_tasks (snd (add_task now a db)))"
    by (auto simp: add_task_def fetch_task_def get_task_def dest: select_by_Some split: result.splits option.splits)
  with ok show "at_status r = ''pending''" by (simp add: all_pending_def list_all_iff)
qed

lemma pending_update:
  assumes "all_pending db"
  shows "all_pending (snd (update_status now t ''pending'' n b db))"
proof (cases "get_task t db")
  case (Some r)
  have "all_pending db'" if "update_tasks (\<lambda>r. at_id r = t) (set_status now ''pending'' n b c m) db = Ok (db', k)" for c m db' k
    using that assms by (auto simp: update_tasks_Ok all_pending_def list_all_iff set_where_def set_status_def)
  with Some assms show ?thesis
    by (auto simp: update_status_def Let_def execute_def split: result.split)
qed (simp add: update_status_def assms)

lemma pending_create:
  assumes "all_pending (dm_db w)"
  shows "all_pending (dm_db (snd (create_task env w args)))"
proof -
  have "all_pending (dm_db (snd (try_store env w (add_task now a (dm_db w)) (\<lambda>task w1.
      let w2 = (case ns of Some notes \<Rightarrow> w1\<lparr>dm_db := snd (update_status now i (at_status task) (Some notes) None (dm_db w1))\<rparr> | None \<Rightarrow> w1)
      in (Ok v, w2)))))" for now a ns i v
  proof -
    obtain x db where x: "add_task now a (dm_db w) = (x, db)" by fastforce
    from pending_add [OF assms, of now a] x have "all_pending db" "x = Ok r \<Longrightarrow> at_status r = ''pending''" for r by auto
    with x pending_update show ?thesis by (cases x) (auto simp: try_store_def split: option.split)
  qed
  with assms show ?thesis by (auto simp: create_task_def str_arg_def Let_def split: option.split)
qed

lemma pending_log_event:
  assumes "all_pending (dm_db w)"
  shows "all_pending (dm_db (snd (log_event env w args agent)))"
proof -
  have "all_pending (dm_db (snd (try_store env w (log_activity i now a t p act e d m repo (dm_db w)) (\<lambda>_ w1. (Ok v, w1)))))"
    for i now a t p act e d m repo v
    using pending_log [of i now a t p act e d m repo "dm_db w"] assms
    by (auto simp: try_store_def simp del: pending_log split: prod.split result.split)
  with assms show ?thesis by (auto simp: log_event_def str_arg_def split: option.split)
qed

lemma approval_keeps_tasks:
  "db_tasks (dm_db (snd (request_approval_tool env w args agent))) = db_tasks (dm_db w)"
  by (simp add: request_approval_tool_def str_arg_def Let_def log_ignored_def broadcast_def
      unknown_status_refused(1) [OF needs_approval_unknown] split: option.split)

lemma pending_route:
  assumes "all_pending (dm_db w)" and "tool \<notin> set DISPATCH_WRITE_TOOLS"
  shows "all_pending (dm_db (snd (route env tool agent w args)))"
  using assms pending_create [OF assms(1)] pending_log_event [OF assms(1)] approval_keeps_tasks [of env w args agent]
  by (auto simp: route_def DISPATCH_WRITE_TOOLS_def all_pending_def)

lemma pending_call:
  assumes "all_pending (dm_db w)"
  shows "all_pending (dm_db (snd (mcp_call libs gate client env tool args agent w)))"
proof -
  let ?ctx = "tool_context env"
  have "all_pending (dm_db (snd (dispatch_handler ?ctx tool agent w args)))"
  proof (cases "tool \<in> set DISPATCH_WRITE_TOOLS")
    case True
    have "\<not> (cx_get_task ?ctx w i = Ok (Some t) \<and> stt_status t = ''in_progress'')" for i t
      using assms select_by_Some [of at_id "db_tasks (dm_db w)" i]
      by (auto simp: tool_context_def stored_view_def all_pending_def list_all_iff get_task_def)
    with handler_claimed [OF True, of ?ctx agent w args] have "snd (dispatch_handler ?ctx tool agent w args) = w" by metis
    with assms show ?thesis by simp
  next
    case False
    with pending_route [OF assms] show ?thesis by (simp add: dispatch_handler_def tool_context_def)
  qed
  with assms show ?thesis
    by (cases rule: guard_cases [of libs gate client tool args "resolve_task_state ?ctx w args" "dispatch_handler ?ctx tool agent" w])
      (simp_all add: mcp_call_def dispatch_def)
qed

type_synonym mcp_request = "gate_libs \<times> policy_gate \<times> string \<times> tool_env \<times> string \<times> json \<times> string option"

definition run_mcp :: "mcp_request list \<Rightarrow> daemon \<Rightarrow> daemon" where
  "run_mcp calls w = fold (\<lambda>(libs, gate, client, env, tool, args, agent) w. snd (mcp_call libs gate client env tool args agent w)) calls w"

text \<open>C6: Through MCP alone no task is ever worked on. Whatever calls any clients make in whatever order, under any
  policy, every task in the database is pending and unclaimed: the tools that could change this require a task
  in progress, and asking for an approval sets a status the schema refuses.\<close>

theorem mcp_tasks_stay_pending:
  "list_all (\<lambda>r. at_status r = ''pending'' \<and> at_claimed_by r = None) (db_tasks (dm_db (run_mcp calls empty_daemon)))"
proof -
  have "all_pending (dm_db (run_mcp calls w))" if "all_pending (dm_db w)" for w
    using that by (induction calls arbitrary: w) (auto simp: run_mcp_def pending_call)
  from this [of empty_daemon] show ?thesis by (simp add: empty_daemon_def empty_db_def all_pending_def)
qed

section \<open>Claiming over MCP\<close>

lemma claim_handler_fails:
  assumes "schema_ok (dm_db w)"
  shows "\<exists>e. dispatch_handler (tool_context env) ''claim_task'' agent w args = (Err e, w)"
proof (cases "verify_active_claimed (tool_context env) w args agent")
  case (Err e)
  then show ?thesis by (simp add: dispatch_handler_def DISPATCH_WRITE_TOOLS_def)
next
  case (Ok u)
  then obtain t r where t: "get_str args ''task_id'' = Some t" and r: "get_task t (dm_db w) = Some r"
    and st: "at_status r = ''in_progress''"
    by (auto simp: verify_active_claimed_def tool_context_def stored_view_def result_simps split: option.splits if_splits)
  have "claim_task now t a None (dm_db w) = (Err (TaskCode TASK_ALREADY_CLAIMED), dm_db w)" for now a
    using st by (intro claim_refused [OF assms r]) (simp_all add: claimable_def reclaim_check_def)
  with Ok t show ?thesis
    by (simp add: dispatch_handler_def DISPATCH_WRITE_TOOLS_def tool_context_def route_def claim_task_tool_def str_arg_def try_store_def)
qed

text \<open>The MCP tool \<^verbatim>\<open>claim_task\<close> never succeeds and never changes anything: the dispatcher lets it run only on a
  task that is already in progress, and there the store refuses the claim.\<close>

theorem mcp_claim_never_succeeds:
  assumes "schema_ok (dm_db w)"
  shows "\<not> is_ok (fst (mcp_call libs gate client env ''claim_task'' args agent w)) \<and>
    snd (mcp_call libs gate client env ''claim_task'' args agent w) = w"
proof -
  obtain e where "dispatch_handler (tool_context env) ''claim_task'' agent w args = (Err e, w)"
    using claim_handler_fails [OF assms] by blast
  then show ?thesis by (auto simp: mcp_call_def dispatch_def guard_def split: result.split)
qed

definition sample_env :: tool_env where
  "sample_env = \<lparr>te_now = 50, te_uuid = ''U1'', te_log_id = ''L1'', te_path_exists = \<lambda>_. True, te_to_string = \<lambda>_. ''[]'',
     te_db_message = \<lambda>_. ''db'', te_parse_patch = \<lambda>_. Err ''bad'', te_delta_files = \<lambda>_. Ok [], te_worktree = \<lambda>_. None, te_open_repo = \<lambda>_. Ok (), te_git_apply = \<lambda>_ _. Ok ()\<rparr>"

definition claimed_daemon :: daemon where
  "claimed_daemon = empty_daemon\<lparr>dm_db := claimed_db\<rparr>"

definition sample_call_args :: json where
  "sample_call_args = JObject [(''task_id'', JString ''T1''), (''patch'', JString ''p''), (''idempotency_key'', JString ''k''),
     (''tool_name'', JString ''apply_patch''), (''risk_level'', JString ''high'')]"

lemma schema_claimed_daemon: "schema_ok (dm_db claimed_daemon)"
  by (simp add: claimed_daemon_def schema_sample)

theorem mcp_claim_never_succeeds_witness:
  "\<not> is_ok (fst (mcp_call sample_libs \<lparr>pg_engine = new_engine default_rules sample_trust sample_chain, pg_server = sample_server\<rparr>
     ''client'' sample_env ''claim_task'' sample_call_args (Some ''alice'') claimed_daemon))"
  using mcp_claim_never_succeeds [OF schema_claimed_daemon] by blast

section \<open>Approvals\<close>

lemma nothing_waits:
  assumes "schema_ok (dm_db w)"
  shows "list_tasks from_str (waiting_params n) (dm_db w) = []"
proof -
  have "filter (task_matches from_str (waiting_params n)) (sort_key (\<lambda>r. (severity_rank r, - at_updated_at r)) (db_tasks (dm_db w))) = []"
    using status_cases(3) [OF assms] by (auto simp: filter_empty_conv task_matches_def waiting_params_def opt_matches_def)
  then show ?thesis by (simp add: list_tasks_eq)
qed

text \<open>An approval requested over MCP can never be answered. The request leaves every task as it was; behind it the
  list of waiting approvals is empty, and whatever answer is given, \<^verbatim>\<open>approval.respond\<close> reports an error and
  changes nothing.\<close>

theorem approval_request_unanswerable:
  assumes "schema_ok (dm_db w)" and "w' = snd (request_approval_tool env w args agent)"
  shows "db_tasks (dm_db w') = db_tasks (dm_db w) \<and>
    approval_list from_str w' = JObject [(''approvals'', JArray [])] \<and>
    \<not> is_ok (fst (approval_respond from_str env' params w')) \<and> snd (approval_respond from_str env' params w') = w'"
proof -
  have db: "schema_ok (dm_db w')"
    unfolding assms(2) using assms(1)
    by (simp add: request_approval_tool_def str_arg_def Let_def log_ignored_def broadcast_def schema_log_activity
        unknown_status_refused(1) [OF needs_approval_unknown] split: option.split)
  then show ?thesis
    using approval_keeps_tasks [of env w args agent]
    by (simp add: assms(2) [symmetric] approval_list_def approval_respond_def nothing_waits Let_def split: option.split)
qed

theorem approval_request_unanswerable_witness:
  "is_ok (fst (request_approval_tool sample_env claimed_daemon sample_call_args (Some ''alice''))) \<and>
   approval_list (\<lambda>_. None) (snd (request_approval_tool sample_env claimed_daemon sample_call_args (Some ''alice''))) =
     JObject [(''approvals'', JArray [])]"
proof
  show "is_ok (fst (request_approval_tool sample_env claimed_daemon sample_call_args (Some ''alice'')))"
    by (simp add: request_approval_tool_def sample_call_args_def str_arg_def get_str_def Let_def)
qed (use approval_request_unanswerable [OF schema_claimed_daemon refl] in blast)

section \<open>Patches\<close>

lemma patch_skipped:
  assumes "get_str args ''task_id'' = Some t" and "get_str args ''patch'' = Some p" and "get_str args ''idempotency_key'' = Some key"
    and "get_task t (dm_db w) = Some r" and "at_status r = ''in_progress''" and "key \<in> set (dm_seen_keys w)"
  shows "apply_patch env w args agent =
    (Ok (JObject [(''applied'', JBool False), (''files_changed'', JArray []), (''idempotent_skip'', JBool True)]), w)"
  using assms by (simp add: apply_patch_def str_arg_def)

text \<open>A failed attempt uses up its idempotency key: the key is recorded before the patch is parsed, the worktree looked
  up and the patch applied. If one of these fails, a second call with the same key reports success as a repetition,
  in every environment, although the patch was never applied.\<close>

theorem failed_patch_burns_key:
  assumes "get_str args ''task_id'' = Some t" and "get_str args ''patch'' = Some p" and "get_str args ''idempotency_key'' = Some key"
    and "get_task t (dm_db w) = Some r" and "at_status r = ''in_progress''" and "key \<notin> set (dm_seen_keys w)"
    and "apply_patch env w args agent = (Err e, w')"
  shows "dm_patches w' = dm_patches w \<and> dm_db w' = dm_db w \<and>
    apply_patch env' w' args agent' =
      (Ok (JObject [(''applied'', JBool False), (''files_changed'', JArray []), (''idempotent_skip'', JBool True)]), w')"
proof -
  have w': "w' = w\<lparr>dm_seen_keys := key # dm_seen_keys w\<rparr>"
    using assms by (auto simp: apply_patch_def str_arg_def Let_def split: result.splits option.splits)
  have "apply_patch env' w' args agent' =
      (Ok (JObject [(''applied'', JBool False), (''files_changed'', JArray []), (''idempotent_skip'', JBool True)]), w')"
    by (rule patch_skipped [OF assms(1-3) _ assms(5)]) (simp_all add: w' assms(4))
  with w' show ?thesis by simp
qed

theorem failed_patch_burns_key_witness:
  "\<exists>w'. apply_patch sample_env claimed_daemon sample_call_args (Some ''alice'') = (Err ''MCP_INVALID_PARAMS: invalid patch: bad'', w') \<and>
    is_ok (fst (apply_patch (sample_env\<lparr>te_parse_patch := Ok\<rparr>) w' sample_call_args (Some ''alice''))) \<and> dm_patches w' = []"
proof -
  have r: "map_option at_status (get_task ''T1'' claimed_db) = Some ''in_progress''" by code_simp
  then obtain r where r: "get_task ''T1'' (dm_db claimed_daemon) = Some r" "at_status r = ''in_progress''"
    by (auto simp: claimed_daemon_def)
  have g: "get_str sample_call_args ''task_id'' = Some ''T1''" "get_str sample_call_args ''patch'' = Some ''p''"
    "get_str sample_call_args ''idempotency_key'' = Some ''k''"
    by (simp_all add: sample_call_args_def get_str_def)
  have k: "''k'' \<notin> set (dm_seen_keys claimed_daemon)" by (simp add: claimed_daemon_def empty_daemon_def)
  obtain w' where w': "apply_patch sample_env claimed_daemon sample_call_args (Some ''alice'') = (Err ''MCP_INVALID_PARAMS: invalid patch: bad'', w')"
    using r g k by (simp add: apply_patch_def str_arg_def sample_env_def Let_def)
  from failed_patch_burns_key [OF g r k w'] have
    "dm_patches w' = dm_patches claimed_daemon" "\<And>env a. is_ok (fst (apply_patch env w' sample_call_args a))" by auto
  then have "dm_patches w' = []" "\<And>env a. is_ok (fst (apply_patch env w' sample_call_args a))"
    by (simp_all add: claimed_daemon_def empty_daemon_def)
  with w' show ?thesis by blast
qed

end
