(* ===== verification/Engine_Store.thy ===== *)
theory Engine_Store
  imports Sql_Table Rust_Strings "HOL-Library.Product_Lexorder" "HOL-Library.List_Lexorder" "HOL-Library.Char_ord"
begin

text \<open>
  The phase and task engine (\<^verbatim>\<open>task_engine/model.rs\<close>, \<^verbatim>\<open>task_engine/storage.rs\<close>) on the tables of
  \<^verbatim>\<open>storage/migrations/006_task_engine.sql\<close>: phases, tasks with a checked life cycle, agents with heartbeats, an
  event log per task, checkpoints and notes. Ids (ULIDs) and the clock are arguments; the clock is read once per
  call. The columns that no operation writes or reads keep their default and are left out, and so is the table of
  task dependencies, which no operation uses.
\<close>

section \<open>Rows\<close>

record te_phase =
  tp_id :: string
  tp_display_id :: string
  tp_title :: string
  tp_description :: string
  tp_status :: string
  tp_planning_doc_path :: "string option"
  tp_repo :: "string option"
  tp_priority :: string
  tp_created_at :: timestamp
  tp_started_at :: "timestamp option"
  tp_completed_at :: "timestamp option"

record te_task =
  tt_id :: string
  tt_display_id :: string
  tt_phase_id :: string
  tt_parent_task_id :: "string option"
  tt_depth :: int
  tt_title :: string
  tt_description :: string
  tt_task_type :: string
  tt_priority :: string
  tt_status :: string
  tt_blocked_reason :: "string option"
  tt_pause_reason :: "string option"
  tt_failure_reason :: "string option"
  tt_claimed_by :: "string option"
  tt_claimed_at :: "timestamp option"
  tt_created_at :: timestamp
  tt_started_at :: "timestamp option"
  tt_completed_at :: "timestamp option"

record te_agent =
  ta_id :: string
  ta_name :: string
  ta_agent_type :: string
  ta_role :: string
  ta_status :: string
  ta_current_task_id :: "string option"
  ta_last_heartbeat_at :: timestamp
  ta_heartbeat_timeout_secs :: int
  ta_capabilities :: string
  ta_max_context_tokens :: "int option"
  ta_model_id :: "string option"
  ta_registered_at :: timestamp
  ta_last_active_at :: "timestamp option"

record te_event =
  te_id :: string
  te_task_id :: string
  te_agent_id :: "string option"
  te_event_seq :: int
  te_event_type :: string
  te_payload :: string
  te_idempotency_key :: "string option"
  te_timestamp :: timestamp

record te_note =
  tn_id :: string
  tn_task_id :: string
  tn_agent_id :: "string option"
  tn_note_type :: string
  tn_title :: string
  tn_content :: string
  tn_related_file :: "string option"
  tn_visibility :: string
  tn_timestamp :: timestamp

record te_checkpoint =
  tc_id :: string
  tc_task_id :: string
  tc_agent_id :: string
  tc_checkpoint_type :: string
  tc_current_action :: string
  tc_completed_items :: string
  tc_files_modified :: string
  tc_next_steps :: string
  tc_remaining_items :: string
  tc_context_summary :: "string option"
  tc_last_event_seq :: int
  tc_timestamp :: timestamp

record te_db =
  ted_phases :: "te_phase list"
  ted_tasks :: "te_task list"
  ted_agents :: "te_agent list"
  ted_events :: "te_event list"
  ted_notes :: "te_note list"
  ted_checkpoints :: "te_checkpoint list"

definition te_empty :: te_db where
  "te_empty = \<lparr>ted_phases = [], ted_tasks = [], ted_agents = [], ted_events = [], ted_notes = [], ted_checkpoints = []\<rparr>"

datatype te_error = TeDb db_error | InvalidTransition string string

section \<open>Constraints\<close>

definition TE_PRIORITIES :: "string list" where
  "TE_PRIORITIES = [''critical'', ''high'', ''medium'', ''low'']"

definition TE_STATUSES :: "string list" where
  "TE_STATUSES = [''planned'', ''ready'', ''queued'', ''claimed'', ''active'', ''paused'', ''blocked'', ''needs_review'', ''in_review'',
     ''review_failed'', ''needs_qa'', ''in_qa'', ''qa_failed'', ''needs_secondary'', ''done'', ''canceled'', ''failed'']"

definition TE_TASK_TYPES :: "string list" where
  "TE_TASK_TYPES = [''implementation'', ''bugfix'', ''refactor'', ''test'', ''documentation'', ''investigation'', ''review'', ''qa'',
     ''secondary'', ''tertiary'', ''auxiliary'', ''hotfix'']"

fun first_failed :: "(string \<times> bool) list \<Rightarrow> string option" where
  "first_failed [] = None"
| "first_failed ((column, ok) # cs) = (if ok then first_failed cs else Some column)"

definition te_phase_violation :: "te_phase \<Rightarrow> string option" where
  "te_phase_violation r = first_failed
     [(''status'', tp_status r \<in> {''planned'', ''active'', ''completed'', ''canceled''}), (''priority'', tp_priority r \<in> set TE_PRIORITIES)]"

definition te_task_violation :: "te_task \<Rightarrow> string option" where
  "te_task_violation r = first_failed
     [(''task_type'', tt_task_type r \<in> set TE_TASK_TYPES), (''priority'', tt_priority r \<in> set TE_PRIORITIES),
      (''status'', tt_status r \<in> set TE_STATUSES)]"

definition te_agent_violation :: "te_agent \<Rightarrow> string option" where
  "te_agent_violation r = first_failed
     [(''agent_type'', ta_agent_type r \<in> {''claude'', ''codex'', ''chatgpt'', ''cursor'', ''human''}),
      (''role'', ta_role r \<in> {''router'', ''planner'', ''implementer'', ''reviewer'', ''qa'', ''general''}),
      (''status'', ta_status r \<in> {''idle'', ''working'', ''paused'', ''disconnected'', ''terminated''})]"

definition te_note_violation :: "te_note \<Rightarrow> string option" where
  "te_note_violation r = first_failed
     [(''note_type'', tn_note_type r \<in> {''discovery'', ''decision'', ''blocker'', ''workaround'', ''question'', ''answer'', ''observation'',
         ''warning'', ''performance'', ''security'', ''debt'', ''idea'', ''context''}),
      (''visibility'', tn_visibility r \<in> {''agent_only'', ''team'', ''public''})]"

definition te_checkpoint_violation :: "te_checkpoint \<Rightarrow> string option" where
  "te_checkpoint_violation r = first_failed
     [(''checkpoint_type'', tc_checkpoint_type r \<in> {''periodic'', ''milestone'', ''pre_pause'', ''pre_crash'', ''handoff''})]"

definition task_exists :: "te_db \<Rightarrow> string \<Rightarrow> bool" where
  "task_exists db i \<longleftrightarrow> i \<in> tt_id ` set (ted_tasks db)"

definition agent_exists :: "te_db \<Rightarrow> string \<Rightarrow> bool" where
  "agent_exists db i \<longleftrightarrow> i \<in> ta_id ` set (ted_agents db)"

definition opt_ref :: "(string \<Rightarrow> bool) \<Rightarrow> string option \<Rightarrow> bool" where
  "opt_ref p ref = (case ref of Some i \<Rightarrow> p i | None \<Rightarrow> True)"

text \<open>Two rows conflict if they agree in a unique column; empty idempotency keys never agree.\<close>

definition te_task_conflict :: "te_task \<Rightarrow> te_task \<Rightarrow> bool" where
  "te_task_conflict r r' \<longleftrightarrow> tt_id r = tt_id r' \<or> tt_display_id r = tt_display_id r'"

definition te_event_conflict :: "te_event \<Rightarrow> te_event \<Rightarrow> bool" where
  "te_event_conflict e e' \<longleftrightarrow>
     te_id e = te_id e' \<or> (te_task_id e = te_task_id e' \<and> te_event_seq e = te_event_seq e') \<or>
     (te_idempotency_key e \<noteq> None \<and> te_idempotency_key e = te_idempotency_key e')"

definition insert_checked ::
  "('r \<Rightarrow> string option) \<Rightarrow> ('r \<Rightarrow> 'r \<Rightarrow> bool) \<Rightarrow> ('r \<Rightarrow> bool) \<Rightarrow> string \<Rightarrow> 'r \<Rightarrow> 'r list \<Rightarrow> ('r list, te_error) result" where
  "insert_checked violated conflict refs_ok table row rows =
     (case violated row of
        Some column \<Rightarrow> Err (TeDb (CheckFailed column))
      | None \<Rightarrow>
          if list_ex (conflict row) rows then Err (TeDb (UniqueFailed table))
          else if \<not> refs_ok row then Err (TeDb ForeignKeyFailed)
          else Ok (rows @ [row]))"

text \<open>\<^verbatim>\<open>fetch_one\<close>.\<close>

definition fetch_one :: "'r option \<Rightarrow> ('r, te_error) result" where
  "fetch_one r = (case r of Some x \<Rightarrow> Ok x | None \<Rightarrow> Err (TeDb RowNotFound))"

section \<open>Phases\<close>

definition te_get_phase :: "string \<Rightarrow> te_db \<Rightarrow> (te_phase, te_error) result" where
  "te_get_phase i db = fetch_one (select_by tp_id (ted_phases db) i)"

definition te_create_phase ::
  "string \<Rightarrow> timestamp \<Rightarrow> string \<Rightarrow> string \<Rightarrow> string \<Rightarrow> string \<Rightarrow> string option \<Rightarrow> string option \<Rightarrow> te_db \<Rightarrow>
   (te_phase, te_error) result \<times> te_db" where
  "te_create_phase i now display_id title description priority planning_doc_path repo db =
     (case insert_checked te_phase_violation (\<lambda>r r'. tp_id r = tp_id r' \<or> tp_display_id r = tp_display_id r') (\<lambda>_. True) ''te_phases''
         \<lparr>tp_id = i, tp_display_id = display_id, tp_title = title, tp_description = description, tp_status = ''planned'',
          tp_planning_doc_path = planning_doc_path, tp_repo = repo, tp_priority = priority, tp_created_at = now,
          tp_started_at = None, tp_completed_at = None\<rparr> (ted_phases db) of
        Err e \<Rightarrow> (Err e, db)
      | Ok rows \<Rightarrow> (let db' = db\<lparr>ted_phases := rows\<rparr> in (te_get_phase i db', db')))"

definition te_list_phases :: "te_db \<Rightarrow> te_phase list" where
  "te_list_phases db = sort_key tp_created_at (ted_phases db)"

definition set_phase_status :: "timestamp \<Rightarrow> string \<Rightarrow> te_phase \<Rightarrow> te_phase" where
  "set_phase_status now status r =
     (if status = ''active'' then r\<lparr>tp_status := status, tp_started_at := Some now\<rparr>
      else if status = ''completed'' then r\<lparr>tp_status := status, tp_completed_at := Some now\<rparr>
      else r\<lparr>tp_status := status\<rparr>)"

definition te_update_phase_status :: "timestamp \<Rightarrow> string \<Rightarrow> string \<Rightarrow> te_db \<Rightarrow> (unit, te_error) result \<times> te_db" where
  "te_update_phase_status now i status db =
     (case update_where te_phase_violation (\<lambda>r. tp_id r = i) (set_phase_status now status) (ted_phases db) of
        Err e \<Rightarrow> (Err (TeDb e), db)
      | Ok (rows, _) \<Rightarrow> (Ok (), db\<lparr>ted_phases := rows\<rparr>))"

section \<open>Tasks\<close>

definition te_get_task :: "string \<Rightarrow> te_db \<Rightarrow> (te_task, te_error) result" where
  "te_get_task i db = fetch_one (select_by tt_id (ted_tasks db) i)"

definition te_create_task ::
  "string \<Rightarrow> timestamp \<Rightarrow> string \<Rightarrow> string \<Rightarrow> string option \<Rightarrow> string \<Rightarrow> string \<Rightarrow> string \<Rightarrow> string \<Rightarrow> te_db \<Rightarrow>
   (te_task, te_error) result \<times> te_db" where
  "te_create_task i now display_id phase_id parent_task_id title description task_type priority db =
     (case insert_checked te_task_violation te_task_conflict
         (\<lambda>r. tt_phase_id r \<in> tp_id ` set (ted_phases db) \<and> opt_ref (\<lambda>p. p = tt_id r \<or> task_exists db p) (tt_parent_task_id r)) ''te_tasks''
         \<lparr>tt_id = i, tt_display_id = display_id, tt_phase_id = phase_id, tt_parent_task_id = parent_task_id,
          tt_depth = (if parent_task_id \<noteq> None then 1 else 0), tt_title = title, tt_description = description,
          tt_task_type = task_type, tt_priority = priority, tt_status = ''planned'', tt_blocked_reason = None, tt_pause_reason = None,
          tt_failure_reason = None, tt_claimed_by = None, tt_claimed_at = None, tt_created_at = now, tt_started_at = None,
          tt_completed_at = None\<rparr> (ted_tasks db) of
        Err e \<Rightarrow> (Err e, db)
      | Ok rows \<Rightarrow> (let db' = db\<lparr>ted_tasks := rows\<rparr> in (te_get_task i db', db')))"

text \<open>\<^verbatim>\<open>ORDER BY priority DESC\<close> compares the texts.\<close>

definition sort_desc :: "('r \<Rightarrow> 'k::linorder) \<Rightarrow> 'r list \<Rightarrow> 'r list" where
  "sort_desc key rows = rev (sort_key key (rev rows))"

definition te_list_tasks :: "string option \<Rightarrow> string option \<Rightarrow> te_db \<Rightarrow> te_task list" where
  "te_list_tasks phase_id status db =
     (case (phase_id, status) of
        (Some p, Some s) \<Rightarrow> sort_key tt_created_at (filter (\<lambda>r. tt_phase_id r = p \<and> tt_status r = s) (ted_tasks db))
      | (Some p, None) \<Rightarrow> sort_key tt_created_at (filter (\<lambda>r. tt_phase_id r = p) (ted_tasks db))
      | (None, Some s) \<Rightarrow> sort_desc tt_priority (sort_key tt_created_at (filter (\<lambda>r. tt_status r = s) (ted_tasks db)))
      | (None, None) \<Rightarrow> sort_key tt_created_at (ted_tasks db))"

definition te_claimable :: "te_task \<Rightarrow> bool" where
  "te_claimable r \<longleftrightarrow> tt_status r \<in> {''queued'', ''ready''} \<and> tt_claimed_by r = None"

definition te_set_claimed :: "string \<Rightarrow> timestamp \<Rightarrow> te_task \<Rightarrow> te_task" where
  "te_set_claimed agent_id now r = r\<lparr>tt_status := ''claimed'', tt_claimed_by := Some agent_id, tt_claimed_at := Some now\<rparr>"

definition te_set_working :: "string \<Rightarrow> timestamp \<Rightarrow> te_agent \<Rightarrow> te_agent" where
  "te_set_working task_id now r = r\<lparr>ta_status := ''working'', ta_current_task_id := Some task_id, ta_last_active_at := Some now\<rparr>"

definition te_claim_task :: "timestamp \<Rightarrow> string \<Rightarrow> string \<Rightarrow> te_db \<Rightarrow> (te_task option, te_error) result \<times> te_db" where
  "te_claim_task now task_id agent_id db =
     (case update_where te_task_violation (\<lambda>r. tt_id r = task_id \<and> te_claimable r) (te_set_claimed agent_id now) (ted_tasks db) of
        Err e \<Rightarrow> (Err (TeDb e), db)
      | Ok (rows, n) \<Rightarrow>
          if n = 0 then (Ok None, db)
          else if \<not> agent_exists db agent_id then (Err (TeDb ForeignKeyFailed), db)
          else let db' = db\<lparr>ted_tasks := rows,
                   ted_agents := set_where (\<lambda>a. ta_id a = agent_id) (te_set_working task_id now) (ted_agents db)\<rparr>
               in (case te_get_task task_id db' of Ok t \<Rightarrow> (Ok (Some t), db') | Err e \<Rightarrow> (Err e, db')))"

definition te_priority_rank :: "te_task \<Rightarrow> nat" where
  "te_priority_rank r =
     (if tt_priority r = ''critical'' then 0 else if tt_priority r = ''high'' then 1 else if tt_priority r = ''medium'' then 2 else 3)"

definition te_candidates :: "te_db \<Rightarrow> te_task list" where
  "te_candidates db = take 10 (sort_key (\<lambda>r. (te_priority_rank r, tt_created_at r)) (filter te_claimable (ted_tasks db)))"

fun te_claim_first :: "timestamp \<Rightarrow> string \<Rightarrow> te_task list \<Rightarrow> te_db \<Rightarrow> (te_task option, te_error) result \<times> te_db" where
  "te_claim_first now agent_id [] db = (Ok None, db)"
| "te_claim_first now agent_id (t # ts) db =
     (case te_claim_task now (tt_id t) agent_id db of
        (Ok None, db') \<Rightarrow> te_claim_first now agent_id ts db'
      | r \<Rightarrow> r)"

text \<open>The role and the filter of priorities are parameters of the call; the code does not use them.\<close>

definition te_claim_next_task ::
  "timestamp \<Rightarrow> string \<Rightarrow> string \<Rightarrow> string list option \<Rightarrow> te_db \<Rightarrow> (te_task option, te_error) result \<times> te_db" where
  "te_claim_next_task now agent_id role priority_filter db = te_claim_first now agent_id (te_candidates db) db"

section \<open>Events\<close>

definition te_next_seq :: "string \<Rightarrow> te_db \<Rightarrow> int" where
  "te_next_seq task_id db = fold max (map te_event_seq (filter (\<lambda>e. te_task_id e = task_id) (ted_events db))) (- 1) + 1"

text \<open>\<^verbatim>\<open>INSERT OR IGNORE\<close> with a given number: a row that agrees with another in a unique column is dropped without an
  error; a dangling reference is an error.\<close>

definition te_insert_event ::
  "string \<Rightarrow> timestamp \<Rightarrow> string \<Rightarrow> string option \<Rightarrow> string \<Rightarrow> string \<Rightarrow> string option \<Rightarrow> int \<Rightarrow> te_db \<Rightarrow>
   (unit, te_error) result \<times> te_db" where
  "te_insert_event i now task_id agent_id event_type payload idempotency_key seq db =
     (let row = \<lparr>te_id = i, te_task_id = task_id, te_agent_id = agent_id, te_event_seq = seq,
            te_event_type = event_type, te_payload = payload, te_idempotency_key = idempotency_key, te_timestamp = now\<rparr>
      in if list_ex (te_event_conflict row) (ted_events db) then (Ok (), db)
         else if \<not> (task_exists db task_id \<and> opt_ref (agent_exists db) agent_id) then (Err (TeDb ForeignKeyFailed), db)
         else (Ok (), db\<lparr>ted_events := ted_events db @ [row]\<rparr>))"

text \<open>The three statements of \<^verbatim>\<open>append_event\<close> (the next number, the insertion, the row read back) when no other call comes
  between them; \<open>Engine_Interleave\<close> has them one by one.\<close>

definition te_append_event ::
  "string \<Rightarrow> timestamp \<Rightarrow> string \<Rightarrow> string option \<Rightarrow> string \<Rightarrow> string \<Rightarrow> string option \<Rightarrow> te_db \<Rightarrow>
   (te_event, te_error) result \<times> te_db" where
  "te_append_event i now task_id agent_id event_type payload idempotency_key db =
     (case te_insert_event i now task_id agent_id event_type payload idempotency_key (te_next_seq task_id db) db of
        (Err e, db') \<Rightarrow> (Err e, db')
      | (Ok _, db') \<Rightarrow> (fetch_one (select_by te_id (ted_events db') i), db'))"

definition te_list_events :: "string \<Rightarrow> int \<Rightarrow> te_db \<Rightarrow> te_event list" where
  "te_list_events task_id limit db =
     limit_offset limit 0 (sort_key te_event_seq (filter (\<lambda>e. te_task_id e = task_id) (ted_events db)))"

section \<open>The life cycle\<close>

definition TE_TRANSITIONS :: "(string \<times> string) list" where
  "TE_TRANSITIONS =
      [(''planned'', ''ready''), (''planned'', ''canceled''), (''ready'', ''queued''), (''ready'', ''canceled''),
       (''queued'', ''claimed''), (''queued'', ''canceled''), (''claimed'', ''active''), (''claimed'', ''queued''), (''claimed'', ''canceled''),
       (''active'', ''paused''), (''active'', ''blocked''), (''active'', ''needs_review''), (''active'', ''canceled''), (''active'', ''failed''),
       (''paused'', ''active''), (''paused'', ''canceled''), (''blocked'', ''active''), (''blocked'', ''canceled''),
       (''needs_review'', ''in_review''), (''in_review'', ''needs_qa''), (''in_review'', ''review_failed''), (''review_failed'', ''active''),
       (''needs_qa'', ''in_qa''), (''in_qa'', ''needs_secondary''), (''in_qa'', ''qa_failed''), (''qa_failed'', ''active''),
       (''needs_secondary'', ''done'')]"

definition valid_transition :: "string \<Rightarrow> string \<Rightarrow> bool" where
  "valid_transition from to \<longleftrightarrow> (from, to) \<in> set TE_TRANSITIONS \<or> to = ''canceled'' \<or> to = ''failed''"

definition task_status_to_event :: "string \<Rightarrow> string" where
  "task_status_to_event status =
     (if status \<in> {''ready'', ''queued'', ''claimed'', ''paused'', ''blocked'', ''needs_review'', ''needs_qa'', ''needs_secondary'', ''done'',
         ''canceled'', ''failed''} then status
      else if status = ''active'' then ''started'' else if status = ''in_review'' then ''review_started''
      else if status = ''in_qa'' then ''qa_started'' else ''updated'')"

definition te_set_status :: "timestamp \<Rightarrow> string \<Rightarrow> string option \<Rightarrow> bool \<Rightarrow> te_task \<Rightarrow> te_task" where
  "te_set_status now new_status reason not_started r =
     (let r' = r\<lparr>tt_status := new_status, tt_blocked_reason := (if new_status = ''blocked'' then reason else None),
            tt_pause_reason := (if new_status = ''paused'' then reason else None),
            tt_failure_reason := (if new_status = ''failed'' then reason else None)\<rparr>
      in if new_status = ''active'' \<and> not_started then r'\<lparr>tt_started_at := Some now\<rparr>
         else if new_status = ''done'' then r'\<lparr>tt_completed_at := Some now\<rparr>
         else r')"

definition te_write_status ::
  "timestamp \<Rightarrow> string \<Rightarrow> string \<Rightarrow> string option \<Rightarrow> bool \<Rightarrow> te_db \<Rightarrow> (te_db, te_error) result" where
  "te_write_status now task_id new_status reason not_started db =
     (case update_where te_task_violation (\<lambda>r. tt_id r = task_id) (te_set_status now new_status reason not_started) (ted_tasks db) of
        Err e \<Rightarrow> Err (TeDb e)
      | Ok (rows, _) \<Rightarrow> Ok (db\<lparr>ted_tasks := rows\<rparr>))"

text \<open>A transition whose statements (the check on the row read, the update, the event, the row read back) no other call
  comes between; \<open>Engine_Interleave\<close> has them one by one.\<close>

definition te_transition_task ::
  "string \<Rightarrow> timestamp \<Rightarrow> string \<Rightarrow> string \<Rightarrow> string option \<Rightarrow> te_db \<Rightarrow> (te_task, te_error) result \<times> te_db" where
  "te_transition_task i now task_id new_status reason db =
     (case te_get_task task_id db of
        Err e \<Rightarrow> (Err e, db)
      | Ok task \<Rightarrow>
          if \<not> valid_transition (tt_status task) new_status then (Err (InvalidTransition (tt_status task) new_status), db)
          else case te_write_status now task_id new_status reason (tt_started_at task = None) db of
              Err e \<Rightarrow> (Err e, db)
            | Ok db1 \<Rightarrow>
                (case te_append_event i now task_id None (''task.'' @ task_status_to_event new_status) ''{}'' None db1 of
                   (Err e, db') \<Rightarrow> (Err e, db')
                 | (Ok _, db') \<Rightarrow> (te_get_task task_id db', db')))"

section \<open>Agents\<close>

definition te_get_agent :: "string \<Rightarrow> te_db \<Rightarrow> (te_agent, te_error) result" where
  "te_get_agent i db = fetch_one (select_by ta_id (ted_agents db) i)"

definition te_register_agent ::
  "string \<Rightarrow> timestamp \<Rightarrow> string \<Rightarrow> string \<Rightarrow> string \<Rightarrow> string \<Rightarrow> string option \<Rightarrow> int option \<Rightarrow> te_db \<Rightarrow>
   (te_agent, te_error) result \<times> te_db" where
  "te_register_agent i now name agent_type role capabilities model_id max_context_tokens db =
     (case insert_checked te_agent_violation (\<lambda>r r'. ta_id r = ta_id r') (\<lambda>_. True) ''te_agents''
         \<lparr>ta_id = i, ta_name = name, ta_agent_type = agent_type, ta_role = role, ta_status = ''idle'', ta_current_task_id = None,
          ta_last_heartbeat_at = now, ta_heartbeat_timeout_secs = 90, ta_capabilities = capabilities,
          ta_max_context_tokens = max_context_tokens, ta_model_id = model_id, ta_registered_at = now, ta_last_active_at = None\<rparr>
         (ted_agents db) of
        Err e \<Rightarrow> (Err e, db)
      | Ok rows \<Rightarrow> (let db' = db\<lparr>ted_agents := rows\<rparr> in (te_get_agent i db', db')))"

definition te_heartbeat :: "timestamp \<Rightarrow> string \<Rightarrow> string \<Rightarrow> string option \<Rightarrow> te_db \<Rightarrow> (unit, te_error) result \<times> te_db" where
  "te_heartbeat now agent_id status current_task_id db =
     (case update_where te_agent_violation (\<lambda>r. ta_id r = agent_id)
         (\<lambda>r. r\<lparr>ta_last_heartbeat_at := now, ta_last_active_at := Some now, ta_status := status, ta_current_task_id := current_task_id\<rparr>)
         (ted_agents db) of
        Err e \<Rightarrow> (Err (TeDb e), db)
      | Ok (rows, _) \<Rightarrow> (Ok (), db\<lparr>ted_agents := rows\<rparr>))"

definition te_set_freed :: "te_task \<Rightarrow> te_task" where
  "te_set_freed r = r\<lparr>tt_status := ''queued'', tt_claimed_by := None, tt_claimed_at := None\<rparr>"

definition te_freeable :: "string \<Rightarrow> te_task \<Rightarrow> bool" where
  "te_freeable agent_id r \<longleftrightarrow> tt_claimed_by r = Some agent_id \<and> tt_status r \<in> {''claimed'', ''active'', ''paused''}"

definition te_deregister_agent :: "string \<Rightarrow> te_db \<Rightarrow> te_db" where
  "te_deregister_agent agent_id db =
     db\<lparr>ted_agents := set_where (\<lambda>r. ta_id r = agent_id) (\<lambda>r. r\<lparr>ta_status := ''terminated'', ta_current_task_id := None\<rparr>) (ted_agents db),
        ted_tasks := set_where (te_freeable agent_id) te_set_freed (ted_tasks db)\<rparr>"

definition te_dead :: "timestamp \<Rightarrow> te_agent \<Rightarrow> bool" where
  "te_dead now r \<longleftrightarrow> ta_status r = ''working'' \<and> ta_last_heartbeat_at r < now - ta_heartbeat_timeout_secs r"

definition te_detect_dead_agents :: "timestamp \<Rightarrow> te_db \<Rightarrow> string list \<times> te_db" where
  "te_detect_dead_agents now db =
     (let ids = map ta_id (filter (te_dead now) (ted_agents db)) in (ids, fold te_deregister_agent ids db))"

section \<open>Checkpoints and notes\<close>

definition te_write_checkpoint ::
  "string \<Rightarrow> timestamp \<Rightarrow> string \<Rightarrow> string \<Rightarrow> string \<Rightarrow> string \<Rightarrow> string \<Rightarrow> string \<Rightarrow> string \<Rightarrow> string \<Rightarrow> string option \<Rightarrow> te_db \<Rightarrow>
   (te_checkpoint, te_error) result \<times> te_db" where
  "te_write_checkpoint i now task_id agent_id checkpoint_type current_action completed_items files_modified next_steps remaining_items
      context_summary db =
     (let seq = (case map te_event_seq (filter (\<lambda>e. te_task_id e = task_id) (ted_events db)) of [] \<Rightarrow> 0 | s # ss \<Rightarrow> fold max ss s)
      in case insert_checked te_checkpoint_violation (\<lambda>r r'. tc_id r = tc_id r')
             (\<lambda>r. task_exists db (tc_task_id r) \<and> agent_exists db (tc_agent_id r)) ''te_checkpoints''
             \<lparr>tc_id = i, tc_task_id = task_id, tc_agent_id = agent_id, tc_checkpoint_type = checkpoint_type,
              tc_current_action = current_action, tc_completed_items = completed_items, tc_files_modified = files_modified,
              tc_next_steps = next_steps, tc_remaining_items = remaining_items, tc_context_summary = context_summary,
              tc_last_event_seq = seq, tc_timestamp = now\<rparr> (ted_checkpoints db) of
           Err e \<Rightarrow> (Err e, db)
         | Ok rows \<Rightarrow> (fetch_one (select_by tc_id rows i), db\<lparr>ted_checkpoints := rows\<rparr>))"

definition te_latest_checkpoint :: "string \<Rightarrow> te_db \<Rightarrow> te_checkpoint option" where
  "te_latest_checkpoint task_id db =
     (case rev (sort_key tc_timestamp (filter (\<lambda>c. tc_task_id c = task_id) (ted_checkpoints db))) of c # _ \<Rightarrow> Some c | [] \<Rightarrow> None)"

definition te_add_note ::
  "string \<Rightarrow> timestamp \<Rightarrow> string \<Rightarrow> string option \<Rightarrow> string \<Rightarrow> string \<Rightarrow> string \<Rightarrow> string option \<Rightarrow> string \<Rightarrow> te_db \<Rightarrow>
   (te_note, te_error) result \<times> te_db" where
  "te_add_note i now task_id agent_id note_type title content related_file visibility db =
     (case insert_checked te_note_violation (\<lambda>r r'. tn_id r = tn_id r')
         (\<lambda>r. task_exists db (tn_task_id r) \<and> opt_ref (agent_exists db) (tn_agent_id r)) ''te_notes''
         \<lparr>tn_id = i, tn_task_id = task_id, tn_agent_id = agent_id, tn_note_type = note_type, tn_title = title, tn_content = content,
          tn_related_file = related_file, tn_visibility = visibility, tn_timestamp = now\<rparr> (ted_notes db) of
        Err e \<Rightarrow> (Err e, db)
      | Ok rows \<Rightarrow> (fetch_one (select_by tn_id rows i), db\<lparr>ted_notes := rows\<rparr>))"

definition te_list_notes :: "string \<Rightarrow> te_db \<Rightarrow> te_note list" where
  "te_list_notes task_id db = sort_key tn_timestamp (filter (\<lambda>n. tn_task_id n = task_id) (ted_notes db))"

end
