(* ===== verification/Engine_Props.thy ===== *)
theory Engine_Props
  imports Engine_Store
begin

text \<open>
  Properties of the phase and task engine over arbitrary sequences of its operations: events are numbered without
  gaps, a task is done only after review and QA, claiming picks the most urgent task, and what becomes of the tasks
  of released and dead agents.
\<close>

section \<open>Sequences of operations\<close>

datatype te_op =
    TeCreatePhase string string string string "string option" "string option"
  | TePhaseStatus string string
  | TeCreateTask string string "string option" string string string string
  | TeClaim string string
  | TeClaimNext string string "string list option"
  | TeTransition string string "string option"
  | TeRegister string string string string "string option" "int option"
  | TeHeartbeat string string "string option"
  | TeDeregister string
  | TeDetectDead
  | TeAppend string "string option" string string "string option"
  | TeCheckpoint string string string string string string string string "string option"
  | TeNote string "string option" string string string "string option" string

text \<open>An operation runs with a new id and the time of the clock.\<close>

fun te_exec :: "string \<Rightarrow> timestamp \<Rightarrow> te_op \<Rightarrow> te_db \<Rightarrow> te_db" where
  "te_exec i now (TeCreatePhase d t ds p doc repo) db = snd (te_create_phase i now d t ds p doc repo db)"
| "te_exec i now (TePhaseStatus ph s) db = snd (te_update_phase_status now ph s db)"
| "te_exec i now (TeCreateTask d ph par t ds ty p) db = snd (te_create_task i now d ph par t ds ty p db)"
| "te_exec i now (TeClaim t a) db = snd (te_claim_task now t a db)"
| "te_exec i now (TeClaimNext a role pf) db = snd (te_claim_next_task now a role pf db)"
| "te_exec i now (TeTransition t s r) db = snd (te_transition_task i now t s r db)"
| "te_exec i now (TeRegister n ty r c m k) db = snd (te_register_agent i now n ty r c m k db)"
| "te_exec i now (TeHeartbeat a s t) db = snd (te_heartbeat now a s t db)"
| "te_exec i now (TeDeregister a) db = te_deregister_agent a db"
| "te_exec i now TeDetectDead db = snd (te_detect_dead_agents now db)"
| "te_exec i now (TeAppend t a ty p k) db = snd (te_append_event i now t a ty p k db)"
| "te_exec i now (TeCheckpoint t a ty ca ci fm ns ri cs) db = snd (te_write_checkpoint i now t a ty ca ci fm ns ri cs db)"
| "te_exec i now (TeNote t a ty ti c f v) db = snd (te_add_note i now t a ty ti c f v db)"

definition te_run :: "(string \<times> timestamp \<times> te_op) list \<Rightarrow> te_db \<Rightarrow> te_db" where
  "te_run ops db = fold (\<lambda>(i, now, op). te_exec i now op) ops db"

lemma te_run_simps [simp]:
  "te_run [] db = db" "te_run ((i, now, op) # ops) db = te_run ops (te_exec i now op db)"
  by (simp_all add: te_run_def)

lemma te_run_snoc: "te_run (ops @ [(i, now, op)]) db = te_exec i now op (te_run ops db)"
  by (simp add: te_run_def)

section \<open>What operations do to tasks and events\<close>

interpretation te_claimed: keyed_update tt_id "te_set_claimed a now" for a now
  by unfold_locales (simp add: te_set_claimed_def)

interpretation te_moved: keyed_update tt_id "te_set_status now s r ns" for now s r ns
  by unfold_locales (simp add: te_set_status_def Let_def)

interpretation te_freed: keyed_update tt_id te_set_freed
  by unfold_locales (simp add: te_set_freed_def)

lemma events_claim_first [simp]: "ted_events (snd (te_claim_first now a ts db)) = ted_events db"
proof (induction ts arbitrary: db)
  case (Cons t ts)
  have "ted_events (snd (te_claim_task now (tt_id t) a db)) = ted_events db"
    by (auto simp: te_claim_task_def Let_def split: result.split)
  with Cons show ?case by (auto split: prod.split result.split option.split)
qed simp

lemma events_deregister [simp]: "ted_events (fold te_deregister_agent is db) = ted_events db"
  by (induction "is" arbitrary: db) (simp_all add: te_deregister_agent_def)

lemma events_quiet:
  "ted_events (snd (te_create_phase i now d t ds p doc repo db)) = ted_events db"
  "ted_events (snd (te_update_phase_status now i s db)) = ted_events db"
  "ted_events (snd (te_create_task i now d ph par t ds ty p db)) = ted_events db"
  "ted_events (snd (te_claim_task now t a db)) = ted_events db"
  "ted_events (snd (te_register_agent i now n ty r c m k db)) = ted_events db"
  "ted_events (snd (te_heartbeat now a s tid db)) = ted_events db"
  "ted_events (te_deregister_agent a db) = ted_events db"
  "ted_events (snd (te_write_checkpoint i now t a ty ca ci fm ns ri cs db)) = ted_events db"
  "ted_events (snd (te_add_note i now t ag ty ti c f v db)) = ted_events db"
  by (auto simp: te_create_phase_def te_update_phase_status_def te_create_task_def te_claim_task_def te_register_agent_def
      te_heartbeat_def te_deregister_agent_def te_write_checkpoint_def te_add_note_def Let_def split: result.split)

text \<open>An appended event.\<close>

definition te_row :: "string \<Rightarrow> timestamp \<Rightarrow> string \<Rightarrow> string option \<Rightarrow> string \<Rightarrow> string \<Rightarrow> string option \<Rightarrow> te_db \<Rightarrow> te_event" where
  "te_row i now t a ty p k db = \<lparr>te_id = i, te_task_id = t, te_agent_id = a, te_event_seq = te_next_seq t db, te_event_type = ty,
     te_payload = p, te_idempotency_key = k, te_timestamp = now\<rparr>"

lemma append_db:
  "snd (te_append_event i now t a ty p k db) =
    (if list_ex (te_event_conflict (te_row i now t a ty p k db)) (ted_events db) \<or>
        \<not> (task_exists db t \<and> opt_ref (agent_exists db) a) then db
     else db\<lparr>ted_events := ted_events db @ [te_row i now t a ty p k db]\<rparr>)"
  by (simp add: te_append_event_def te_insert_event_def te_row_def Let_def)

lemma transition_db:
  "snd (te_transition_task i now t s r db) = db \<or>
   (\<exists>task rows. te_get_task t db = Ok task \<and> valid_transition (tt_status task) s \<and>
      rows = set_where (\<lambda>x. tt_id x = t) (te_set_status now s r (tt_started_at task = None)) (ted_tasks db) \<and>
      snd (te_transition_task i now t s r db) =
        snd (te_append_event i now t None (''task.'' @ task_status_to_event s) ''{}'' None (db\<lparr>ted_tasks := rows\<rparr>)))"
proof (cases "te_get_task t db")
  case (Ok task)
  show ?thesis
  proof (cases "valid_transition (tt_status task) s")
    case True
    show ?thesis
    proof (cases "update_where te_task_violation (\<lambda>x. tt_id x = t) (te_set_status now s r (tt_started_at task = None)) (ted_tasks db)")
      case (Ok x)
      obtain rows n where x: "x = (rows, n)" by fastforce
      with Ok have "rows = set_where (\<lambda>x. tt_id x = t) (te_set_status now s r (tt_started_at task = None)) (ted_tasks db)"
        by (simp add: update_where_Ok)
      with Ok x True \<open>te_get_task t db = Ok task\<close> show ?thesis
        by (auto simp: te_transition_task_def te_write_status_def split: prod.split result.split)
    qed (simp add: te_transition_task_def te_write_status_def Ok True)
  qed (simp add: te_transition_task_def te_write_status_def Ok)
qed (simp add: te_transition_task_def)

section \<open>Events are numbered without gaps\<close>

definition events_of :: "string \<Rightarrow> te_db \<Rightarrow> te_event list" where
  "events_of t db = filter (\<lambda>e. te_task_id e = t) (ted_events db)"

definition numbered :: "te_db \<Rightarrow> bool" where
  "numbered db \<longleftrightarrow> (\<forall>t. map te_event_seq (events_of t db) = map int [0..<length (events_of t db)])"

lemma fold_max_upt: "fold max (map int [0..<n]) (- 1) = int n - 1"
  by (induction n) simp_all

lemma next_seq: "numbered db \<Longrightarrow> te_next_seq t db = int (length (events_of t db))"
  by (simp add: numbered_def te_next_seq_def events_of_def fold_max_upt)

lemma numbered_events: "numbered db \<Longrightarrow> ted_events db' = ted_events db \<Longrightarrow> numbered db'"
  by (simp add: numbered_def events_of_def)

lemma numbered_append: "numbered db \<Longrightarrow> numbered (snd (te_append_event i now t a ty p k db))"
  using next_seq [of db t] by (auto simp: append_db numbered_def events_of_def te_row_def)

lemma numbered_exec: "numbered db \<Longrightarrow> numbered (te_exec i now op db)"
proof (cases op)
  case (TeTransition t s r)
  assume n: "numbered db"
  have "numbered (snd (te_append_event i now t None ty p None (db\<lparr>ted_tasks := rows\<rparr>)))" for ty p rows
    by (rule numbered_append [OF numbered_events [OF n]]) simp
  with TeTransition n transition_db [of i now t s r db] show ?thesis by auto
qed (auto simp: events_quiet te_claim_next_task_def te_detect_dead_agents_def Let_def numbered_append elim: numbered_events)

text \<open>The events of every task are numbered 0, 1, 2, ... in the order they were appended, whatever operations ran.\<close>

theorem te_events_numbered:
  "map te_event_seq (events_of t (te_run ops te_empty)) = map int [0..<length (events_of t (te_run ops te_empty))]"
proof -
  have "numbered (te_run ops db)" if "numbered db" for db
    using that by (induction ops arbitrary: db) (auto simp: numbered_exec)
  from this [of te_empty] show ?thesis by (simp add: numbered_def events_of_def te_empty_def)
qed

section \<open>Done means reviewed\<close>

definition review_stages :: "string list" where
  "review_stages = [''needs_review'', ''in_review'', ''needs_qa'', ''in_qa'', ''needs_secondary'', ''done'']"

text \<open>The events a task in a given state must have behind it.\<close>

definition passed :: "string \<Rightarrow> string list" where
  "passed s = (if s \<in> set review_stages
     then map (\<lambda>x. ''task.'' @ task_status_to_event x) (takeWhile (\<lambda>x. x \<noteq> s) review_stages @ [s]) else [])"

definition audited :: "te_db \<Rightarrow> bool" where
  "audited db \<longleftrightarrow> (\<forall>r \<in> set (ted_tasks db). subseq (passed (tt_status r)) (map te_event_type (events_of (tt_id r) db)))"

lemma passed_Nil [simp]: "passed ''planned'' = []" "passed ''claimed'' = []" "passed ''queued'' = []"
  by (simp_all add: passed_def review_stages_def)

lemma passed_table:
  "list_all (\<lambda>(s, s'). passed s' = [] \<or> passed s' = passed s @ [''task.'' @ task_status_to_event s']) TE_TRANSITIONS"
  by code_simp

lemma passed_end: "passed ''canceled'' = []" "passed ''failed'' = []"
  by (simp_all add: passed_def review_stages_def)

lemma passed_next: "valid_transition s s' \<Longrightarrow> passed s' = [] \<or> passed s' = passed s @ [''task.'' @ task_status_to_event s']"
  using passed_table passed_end unfolding valid_transition_def list_all_iff by fastforce

text \<open>A step that appends no state of the review chain to any task.\<close>

definition quiet :: "te_db \<Rightarrow> te_db \<Rightarrow> bool" where
  "quiet db db' \<longleftrightarrow> (\<exists>new. ted_events db' = ted_events db @ new) \<and>
     (\<forall>r' \<in> set (ted_tasks db'). passed (tt_status r') = [] \<or>
        (\<exists>r \<in> set (ted_tasks db). tt_id r = tt_id r' \<and> tt_status r = tt_status r'))"

lemma quiet_refl [simp]: "quiet db db"
  by (auto simp: quiet_def)

lemma quiet_trans: "quiet db db' \<Longrightarrow> quiet db' db'' \<Longrightarrow> quiet db db''"
  unfolding quiet_def by (metis append.assoc)

lemma quiet_same: "ted_events db' = ted_events db \<Longrightarrow> ted_tasks db' = ted_tasks db \<Longrightarrow> quiet db db'"
  by (auto simp: quiet_def)

lemma events_of_more: "ted_events db' = ted_events db @ new \<Longrightarrow> \<exists>more. events_of t db' = events_of t db @ more"
  by (simp add: events_of_def)

lemma audited_quiet:
  assumes "audited db" and "quiet db db'"
  shows "audited db'"
  unfolding audited_def
proof
  fix r' assume r': "r' \<in> set (ted_tasks db')"
  obtain new where new: "ted_events db' = ted_events db @ new" using assms(2) by (auto simp: quiet_def)
  from assms(2) r' consider "passed (tt_status r') = []"
    | r where "r \<in> set (ted_tasks db)" "tt_id r = tt_id r'" "tt_status r = tt_status r'"
    by (auto simp: quiet_def)
  then show "subseq (passed (tt_status r')) (map te_event_type (events_of (tt_id r') db'))"
  proof cases
    case 2
    with assms(1) have "subseq (passed (tt_status r')) (map te_event_type (events_of (tt_id r') db))" by (auto simp: audited_def)
    with events_of_more [OF new, of "tt_id r'"] show ?thesis by auto
  qed simp
qed

lemma quiet_append: "quiet db (snd (te_append_event i now t a ty p k db))"
  by (auto simp: append_db quiet_def)

lemma quiet_set_where:
  assumes "\<And>r. tt_id (f r) = tt_id r" and "\<And>r. passed (tt_status (f r)) = []" and "ted_events db' = ted_events db"
    and "ted_tasks db' = set_where p f (ted_tasks db)"
  shows "quiet db db'"
  using assms by (auto simp: quiet_def set_where_def)

lemma claim_tasks:
  "ted_tasks (snd (te_claim_task now t a db)) = ted_tasks db \<or>
   ted_tasks (snd (te_claim_task now t a db)) = set_where (\<lambda>r. tt_id r = t \<and> te_claimable r) (te_set_claimed a now) (ted_tasks db)"
proof (cases "update_where te_task_violation (\<lambda>r. tt_id r = t \<and> te_claimable r) (te_set_claimed a now) (ted_tasks db)")
  case (Ok x)
  obtain rows n where x: "x = (rows, n)" by fastforce
  with Ok have "rows = set_where (\<lambda>r. tt_id r = t \<and> te_claimable r) (te_set_claimed a now) (ted_tasks db)"
    by (simp add: update_where_Ok)
  with Ok x show ?thesis by (simp add: te_claim_task_def Let_def split: result.split)
qed (simp add: te_claim_task_def)

lemma quiet_claim: "quiet db (snd (te_claim_task now t a db))"
  using claim_tasks [of now t a db]
proof
  assume "ted_tasks (snd (te_claim_task now t a db)) = ted_tasks db"
  then show ?thesis by (intro quiet_same events_quiet)
next
  assume "ted_tasks (snd (te_claim_task now t a db)) = set_where (\<lambda>r. tt_id r = t \<and> te_claimable r) (te_set_claimed a now) (ted_tasks db)"
  then show ?thesis by (rule quiet_set_where [rotated 3]) (simp_all add: te_set_claimed_def events_quiet)
qed

lemma quiet_claim_first: "quiet db (snd (te_claim_first now a ts db))"
proof (induction ts arbitrary: db)
  case (Cons t ts)
  obtain x db' where x: "te_claim_task now (tt_id t) a db = (x, db')" by fastforce
  with quiet_claim [of db now "tt_id t" a] have "quiet db db'" by simp
  with x Cons [of db'] show ?case by (auto split: result.split option.split intro: quiet_trans)
qed simp

lemma quiet_deregister: "quiet db (te_deregister_agent a db)"
  by (rule quiet_set_where [of te_set_freed _ _ "te_freeable a"]) (simp_all add: te_deregister_agent_def te_set_freed_def)

lemma quiet_dead: "quiet db (fold te_deregister_agent is db)"
  by (induction "is" arbitrary: db) (auto intro: quiet_trans quiet_deregister)

lemma quiet_create: "quiet db (snd (te_create_task i now d ph par t ds ty p db))"
  by (auto simp: te_create_task_def insert_checked_def Let_def quiet_def split: option.split)

lemma tasks_quiet:
  "ted_tasks (snd (te_create_phase i now d t ds p doc repo db)) = ted_tasks db"
  "ted_tasks (snd (te_update_phase_status now i s db)) = ted_tasks db"
  "ted_tasks (snd (te_register_agent i now n ty r c m k db)) = ted_tasks db"
  "ted_tasks (snd (te_heartbeat now a s tid db)) = ted_tasks db"
  "ted_tasks (snd (te_write_checkpoint i now t a ty ca ci fm ns ri cs db)) = ted_tasks db"
  "ted_tasks (snd (te_add_note i now t ag ty ti c f v db)) = ted_tasks db"
  by (auto simp: te_create_phase_def te_update_phase_status_def te_register_agent_def te_heartbeat_def te_write_checkpoint_def
      te_add_note_def Let_def split: result.split)

lemma quiet_exec: "(\<And>t s r. op \<noteq> TeTransition t s r) \<Longrightarrow> quiet db (te_exec i now op db)"
  by (cases op) (auto simp: te_claim_next_task_def te_detect_dead_agents_def Let_def quiet_append quiet_claim quiet_claim_first
      quiet_deregister quiet_dead quiet_create tasks_quiet events_quiet intro: quiet_same)

text \<open>A transition with a new id logs its event.\<close>

lemma transition_logged:
  fixes f :: "te_task \<Rightarrow> te_task" and p :: "te_task \<Rightarrow> bool"
  assumes "numbered db" and "i \<notin> te_id ` set (ted_events db)" and "te_get_task t db = Ok task"
    and "\<And>r. tt_id (f r) = tt_id r" and "db1 = db\<lparr>ted_tasks := set_where p f (ted_tasks db)\<rparr>"
  shows "ted_events (snd (te_append_event i now t None ty pl None db1)) = ted_events db @ [te_row i now t None ty pl None db1] \<and>
    ted_tasks (snd (te_append_event i now t None ty pl None db1)) = ted_tasks db1"
proof -
  have ids: "tt_id ` set (ted_tasks db1) = tt_id ` set (ted_tasks db)"
    using keyed_update.keys_set [OF keyed_update.intro [of tt_id f, OF assms(4)]] by (simp add: assms(5))
  have "task_exists db1 t"
    using assms(3) ids by (auto simp: task_exists_def te_get_task_def fetch_one_def dest: select_by_Some split: option.splits)
  moreover have "numbered db1" by (rule numbered_events [OF assms(1)]) (simp add: assms(5))
  then have "te_event_seq e < te_next_seq t db1" if "e \<in> set (ted_events db)" "te_task_id e = t" for e
  proof -
    have "te_event_seq e \<in> set (map te_event_seq (events_of t db1))" using that by (auto simp: events_of_def assms(5))
    with \<open>numbered db1\<close> show ?thesis by (auto simp: numbered_def next_seq)
  qed
  then have "\<not> list_ex (te_event_conflict (te_row i now t None ty pl None db1)) (ted_events db1)"
    using assms(2) by (fastforce simp: list_ex_iff te_event_conflict_def te_row_def assms(5))
  ultimately show ?thesis by (simp add: append_db opt_ref_def assms(5))
qed

lemma audited_transition:
  assumes "audited db" and "numbered db" and "distinct (map tt_id (ted_tasks db))" and "i \<notin> te_id ` set (ted_events db)"
  shows "audited (snd (te_transition_task i now t s r db))"
  using transition_db [of i now t s r db]
proof (elim disjE exE conjE)
  fix task rows
  assume task: "te_get_task t db = Ok task" and valid: "valid_transition (tt_status task) s"
    and rows: "rows = set_where (\<lambda>x. tt_id x = t) (te_set_status now s r (tt_started_at task = None)) (ted_tasks db)"
    and res: "snd (te_transition_task i now t s r db) =
      snd (te_append_event i now t None (''task.'' @ task_status_to_event s) ''{}'' None (db\<lparr>ted_tasks := rows\<rparr>))"
  let ?e = "''task.'' @ task_status_to_event s"
  let ?db' = "snd (te_transition_task i now t s r db)"
  have log: "ted_events ?db' = ted_events db @ [te_row i now t None ?e ''{}'' None (db\<lparr>ted_tasks := rows\<rparr>)] \<and> ted_tasks ?db' = rows"
    using transition_logged [OF assms(2,4) task te_moved.key_f arg_cong [of _ _ "\<lambda>x. db\<lparr>ted_tasks := x\<rparr>", OF rows]] by (simp add: res)
  have ev: "map te_event_type (events_of t' ?db') = map te_event_type (events_of t' db) @ (if t' = t then [?e] else [])" for t'
    using log by (auto simp: events_of_def te_row_def)
  have same: "x = task" if "x \<in> set (ted_tasks db)" "tt_id x = t" for x
    using task that assms(3) by (auto simp: te_get_task_def fetch_one_def distinct_map dest!: select_by_Some inj_onD split: option.splits)
  have "subseq (passed (tt_status r')) (map te_event_type (events_of (tt_id r') ?db'))" if r': "r' \<in> set (ted_tasks ?db')" for r'
  proof -
    from r' log rows obtain x where x: "x \<in> set (ted_tasks db)"
      "r' = (if tt_id x = t then te_set_status now s r (tt_started_at task = None) x else x)"
      by (auto simp: set_where_def)
    from assms(1) x(1) have old: "subseq (passed (tt_status x)) (map te_event_type (events_of (tt_id x) db))" by (simp add: audited_def)
    show ?thesis
    proof (cases "tt_id x = t")
      case True
      with x same have "tt_status r' = s" "tt_id r' = t" "x = task" by (auto simp: te_set_status_def Let_def)
      with passed_next [OF valid] old True show ?thesis by (auto simp: ev subseq_append)
    next
      case False
      with x old show ?thesis by (simp add: ev)
    qed
  qed
  then show ?thesis by (simp add: audited_def)
qed (simp add: assms(1))

section \<open>Rows stay valid\<close>

abbreviation te_ok :: "te_db \<Rightarrow> bool" where
  "te_ok db \<equiv> rows_ok tt_id te_task_violation (ted_tasks db)"

lemma te_task_violation_None:
  "te_task_violation r = None \<longleftrightarrow>
     tt_task_type r \<in> set TE_TASK_TYPES \<and> tt_priority r \<in> set TE_PRIORITIES \<and> tt_status r \<in> set TE_STATUSES"
  by (simp add: te_task_violation_def)

lemma claimed_valid: "te_task_violation r = None \<Longrightarrow> te_task_violation (te_set_claimed a now r) = None"
  and freed_valid: "te_task_violation r = None \<Longrightarrow> te_task_violation (te_set_freed r) = None"
  unfolding te_task_violation_None by (simp_all add: te_set_claimed_def te_set_freed_def TE_STATUSES_def)

lemma te_ok_claim: "te_ok db \<Longrightarrow> te_ok (snd (te_claim_task now t a db))"
  by (auto simp: te_claim_task_def Let_def split: result.split dest: te_claimed.rows_ok_update)

lemma te_ok_claim_first: "te_ok db \<Longrightarrow> te_ok (snd (te_claim_first now a ts db))"
proof (induction ts arbitrary: db)
  case (Cons t ts)
  obtain x db' where x: "te_claim_task now (tt_id t) a db = (x, db')" by fastforce
  with te_ok_claim [OF Cons.prems, of now "tt_id t" a] Cons.IH [of db'] show ?case by (auto split: result.split option.split)
qed simp

lemma te_ok_append: "te_ok (snd (te_append_event i now t a ty p k db)) \<longleftrightarrow> te_ok db"
  by (simp add: append_db)

lemma te_ok_transition:
  assumes "te_ok db"
  shows "te_ok (snd (te_transition_task i now t s r db))"
proof -
  have "te_ok (snd x)" if "x = (case te_append_event i now t None ty p None (db\<lparr>ted_tasks := rows\<rparr>) of
      (Err e, db') \<Rightarrow> (Err e, db') | (Ok _, db') \<Rightarrow> (te_get_task t db', db'))"
    and "update_where te_task_violation q (te_set_status now s r ns) (ted_tasks db) = Ok (rows, n)" for x rows ty p q ns n
    using te_moved.rows_ok_update [OF assms that(2)] te_ok_append [of i now t None ty p None "db\<lparr>ted_tasks := rows\<rparr>"] that(1)
    by (auto split: prod.splits result.splits)
  with assms show ?thesis by (auto simp: te_transition_task_def te_write_status_def split: result.split)
qed

lemma te_ok_deregister:
  assumes "te_ok db"
  shows "te_ok (te_deregister_agent a db)"
proof -
  have "te_ok (db\<lparr>ted_tasks := set_where (te_freeable a) te_set_freed (ted_tasks db)\<rparr>)"
    using te_freed.rows_ok_set [OF assms, of "te_freeable a"] rows_ok_row [OF assms] freed_valid by simp
  then show ?thesis by (simp add: te_deregister_agent_def)
qed

lemma te_ok_dead: "te_ok db \<Longrightarrow> te_ok (fold te_deregister_agent is db)"
  by (induction "is" arbitrary: db) (simp_all add: te_ok_deregister)

lemma te_ok_create: "te_ok db \<Longrightarrow> te_ok (snd (te_create_task i now d ph par t ds ty p db))"
  by (auto simp: te_create_task_def insert_checked_def Let_def rows_ok_def te_task_conflict_def list_ex_iff split: option.split)

lemma te_ok_exec: "te_ok db \<Longrightarrow> te_ok (te_exec i now op db)"
  by (cases op) (simp_all add: te_claim_next_task_def te_detect_dead_agents_def Let_def tasks_quiet te_ok_claim te_ok_claim_first
      te_ok_append te_ok_transition te_ok_deregister te_ok_dead te_ok_create)

lemma te_ok_run: "te_ok db \<Longrightarrow> te_ok (te_run ops db)"
  by (induction ops arbitrary: db) (auto simp: te_ok_exec)

lemma te_ok_empty: "te_ok te_empty"
  by (simp add: te_empty_def)

section \<open>The review chain\<close>

lemma event_ids_append: "te_id ` set (ted_events (snd (te_append_event i now t a ty p k db))) \<subseteq> insert i (te_id ` set (ted_events db))"
  by (simp add: append_db te_row_def subset_insertI)

lemma event_ids_exec: "te_id ` set (ted_events (te_exec i now op db)) \<subseteq> insert i (te_id ` set (ted_events db))"
proof (cases op)
  case (TeTransition t s r)
  have "te_id ` set (ted_events (snd (te_append_event i now t None ty p None (db\<lparr>ted_tasks := rows\<rparr>)))) \<subseteq> insert i (te_id ` set (ted_events db))"
    for ty p rows using event_ids_append [of i now t None ty p None "db\<lparr>ted_tasks := rows\<rparr>"] by simp
  with transition_db [of i now t s r db] show ?thesis unfolding TeTransition te_exec.simps by (metis subset_insertI)
qed (use event_ids_append in \<open>simp_all add: events_quiet te_claim_next_task_def te_detect_dead_agents_def Let_def subset_insertI\<close>)

lemma audited_run:
  "distinct (map fst ops) \<Longrightarrow> audited (te_run ops te_empty) \<and> te_id ` set (ted_events (te_run ops te_empty)) \<subseteq> fst ` set ops"
proof (induction ops rule: rev_induct)
  case Nil
  then show ?case by (simp add: audited_def te_empty_def)
next
  case (snoc x ops)
  obtain i now op where x: "x = (i, now, op)" using prod_cases3 by blast
  let ?db = "te_run ops te_empty"
  from snoc have IH: "audited ?db" "te_id ` set (ted_events ?db) \<subseteq> fst ` set ops" by auto
  with snoc.prems x have fresh: "i \<notin> te_id ` set (ted_events ?db)" by auto
  have num: "numbered ?db" using te_events_numbered [of _ ops] by (simp add: numbered_def)
  have "distinct (map tt_id (ted_tasks ?db))" using te_ok_run [OF te_ok_empty, of ops] by (simp add: rows_ok_def)
  then have "audited (te_exec i now op ?db)"
    using audited_transition [OF IH(1) num _ fresh] audited_quiet [OF IH(1)] quiet_exec [of op ?db i now]
    by (cases "\<exists>t s r. op = TeTransition t s r") auto
  with event_ids_exec [of i now op ?db] IH(2) show ?case by (auto simp: x te_run_snoc)
qed

text \<open>If no two calls overlap, the event log shows it as well: whatever operations ran, each with an id of its own, the log of
  a done task holds, in this order, that review was asked for, review started, QA was asked for, QA started, a second
  look was asked for, and that it was done.\<close>

theorem done_means_reviewed:
  assumes "distinct (map fst ops)" and "te_get_task t (te_run ops te_empty) = Ok r" and "tt_status r = ''done''"
  shows "subseq [''task.needs_review'', ''task.review_started'', ''task.needs_qa'', ''task.qa_started'', ''task.needs_secondary'', ''task.done'']
    (map te_event_type (events_of t (te_run ops te_empty)))"
proof -
  have r: "r \<in> set (ted_tasks (te_run ops te_empty))" "tt_id r = t"
    using assms(2) by (auto simp: te_get_task_def fetch_one_def dest: select_by_Some split: option.splits)
  have "passed ''done'' = [''task.needs_review'', ''task.review_started'', ''task.needs_qa'', ''task.qa_started'', ''task.needs_secondary'', ''task.done'']"
    by code_simp
  with audited_run [OF assms(1)] r assms(3) show ?thesis by (auto simp: audited_def)
qed

section \<open>Claims\<close>

lemma te_claim_refused:
  assumes "te_ok db" and "te_get_task t db = Ok r" and "\<not> te_claimable r"
  shows "te_claim_task now t b db = (Ok None, db)"
proof -
  have sel: "select_by tt_id (ted_tasks db) t = Some r" using assms(2) by (simp add: te_get_task_def fetch_one_def split: option.splits)
  have "\<not> (tt_id x = t \<and> te_claimable x)" if "x \<in> set (ted_tasks db)" for x
    using select_by_eq [OF assms(1) that] sel assms(3) by auto
  then have "update_where te_task_violation (\<lambda>r. tt_id r = t \<and> te_claimable r) (te_set_claimed b now) (ted_tasks db) = Ok (ted_tasks db, 0)"
    by (intro update_none) auto
  then show ?thesis by (simp add: te_claim_task_def)
qed

lemma te_claim_granted:
  assumes "te_ok db" and "r \<in> set (ted_tasks db)" and "te_claimable r" and "agent_exists db a"
  shows "\<exists>db'. te_claim_task now (tt_id r) a db = (Ok (Some (te_set_claimed a now r)), db')"
proof -
  have sel: "select_by tt_id (ted_tasks db) (tt_id r) = Some r" by (rule select_by_eq [OF assms(1,2)])
  have "\<forall>x \<in> set (ted_tasks db). te_task_violation (te_set_claimed a now x) = None"
    using rows_ok_row [OF assms(1)] claimed_valid by blast
  then have u: "update_where te_task_violation (\<lambda>x. tt_id x = tt_id r \<and> te_claimable x) (te_set_claimed a now) (ted_tasks db) =
      Ok (set_where (\<lambda>x. tt_id x = tt_id r \<and> te_claimable x) (te_set_claimed a now) (ted_tasks db), 1)"
    using count_by_key [OF assms(1), of "tt_id r" te_claimable] sel assms(3) by (simp add: update_where_Ok)
  with sel assms(3,4) show ?thesis by (simp add: te_claim_task_def te_get_task_def fetch_one_def Let_def)
qed

text \<open>The role and the priorities that are asked for make no difference.\<close>

theorem te_claim_next_ignores_role: "te_claim_next_task now a role pf db = te_claim_next_task now a role' pf' db"
  by (simp add: te_claim_next_task_def)

text \<open>C32: Asking for the next task claims the most urgent one: if any task can be claimed, a registered agent gets, whatever
  role and priorities it asks for, a claimable task, now marked as claimed by it, such that no claimable task has a higher priority or the same
  priority and an earlier creation time.\<close>

theorem te_claim_next_most_urgent:
  assumes "rows_ok tt_id te_task_violation (ted_tasks db)" and "agent_exists db a" and "x \<in> set (ted_tasks db)" and "te_claimable x"
  shows "\<exists>r db'. te_claim_next_task now a role pf db = (Ok (Some (te_set_claimed a now r)), db') \<and>
    r \<in> set (ted_tasks db) \<and> te_claimable r \<and> (te_priority_rank r, tt_created_at r) \<le> (te_priority_rank x, tt_created_at x)"
proof -
  let ?key = "\<lambda>r. (te_priority_rank r, tt_created_at r)"
  let ?free = "filter te_claimable (ted_tasks db)"
  from assms(3,4) have ne: "?free \<noteq> []" by (auto simp: filter_empty_conv)
  then obtain r rs where sorted: "sort_key ?key ?free = r # rs" by (cases "sort_key ?key ?free") auto
  then have "r \<in> set ?free" by (metis list.set_intros(1) set_sort)
  then have r: "r \<in> set (ted_tasks db)" "te_claimable r" by auto
  have "?key r \<le> ?key x"
    using sorted_sort_key [of ?key ?free] set_sort [of ?key ?free] assms(3,4) unfolding sorted by auto
  moreover have "te_candidates db = r # take 9 rs" by (simp add: te_candidates_def sorted)
  moreover obtain db' where "te_claim_task now (tt_id r) a db = (Ok (Some (te_set_claimed a now r)), db')"
    using te_claim_granted [OF assms(1) r assms(2)] by blast
  ultimately show ?thesis using r by (auto simp: te_claim_next_task_def)
qed

section \<open>Releases and dead agents\<close>

text \<open>The operations that take a task away from agent \<open>a\<close>.\<close>

fun te_frees :: "string \<Rightarrow> te_op \<Rightarrow> bool" where
  "te_frees a (TeDeregister b) \<longleftrightarrow> b = a"
| "te_frees a TeDetectDead \<longleftrightarrow> True"
| "te_frees a op \<longleftrightarrow> False"

definition te_holds :: "string \<Rightarrow> string \<Rightarrow> te_db \<Rightarrow> bool" where
  "te_holds t a db \<longleftrightarrow> (\<exists>r. select_by tt_id (ted_tasks db) t = Some r \<and> tt_claimed_by r = Some a)"

lemma holds_set_where:
  assumes "keyed_update tt_id f" and "\<And>r. p r \<Longrightarrow> tt_claimed_by r = Some a \<Longrightarrow> tt_claimed_by (f r) = Some a"
    and "te_holds t a db" and "ted_tasks db' = set_where p f (ted_tasks db)"
  shows "te_holds t a db'"
proof -
  obtain r where r: "select_by tt_id (ted_tasks db) t = Some r" "tt_claimed_by r = Some a" using assms(3) by (auto simp: te_holds_def)
  then have "select_by tt_id (ted_tasks db') t = Some (if p r then f r else r)"
    by (simp add: assms(4) keyed_update.select_set [OF assms(1)])
  with r assms(2) show ?thesis by (simp add: te_holds_def)
qed

lemma holds_append [simp]: "te_holds t a (snd (te_append_event i now t' b ty p k db)) \<longleftrightarrow> te_holds t a db"
  by (simp add: append_db te_holds_def)

lemma holds_claim:
  assumes "te_holds t a db"
  shows "te_holds t a (snd (te_claim_task now t' b db))"
  using claim_tasks [of now t' b db]
proof
  assume "ted_tasks (snd (te_claim_task now t' b db)) = ted_tasks db"
  with assms show ?thesis by (simp add: te_holds_def)
next
  assume "ted_tasks (snd (te_claim_task now t' b db)) = set_where (\<lambda>r. tt_id r = t' \<and> te_claimable r) (te_set_claimed b now) (ted_tasks db)"
  from holds_set_where [OF te_claimed.keyed_update_axioms _ assms this] show ?thesis by (simp add: te_claimable_def)
qed

lemma holds_claim_first: "te_holds t a db \<Longrightarrow> te_holds t a (snd (te_claim_first now b ts db))"
proof (induction ts arbitrary: db)
  case (Cons x ts)
  obtain y db' where y: "te_claim_task now (tt_id x) b db = (y, db')" by fastforce
  with holds_claim [OF Cons.prems, of now "tt_id x" b] Cons.IH [of db'] show ?case by (auto split: result.split option.split)
qed simp

lemma holds_exec:
  assumes "te_holds t a db" and "\<not> te_frees a op"
  shows "te_holds t a (te_exec i now op db)"
proof (cases op)
  case (TeTransition t' s r)
  have "te_holds t a (db\<lparr>ted_tasks := set_where p (te_set_status now s r ns) (ted_tasks db)\<rparr>)" for p ns
    by (rule holds_set_where [OF te_moved.keyed_update_axioms _ assms(1)]) (auto simp: te_set_status_def Let_def)
  with assms(1) transition_db [of i now t' s r db] show ?thesis unfolding TeTransition te_exec.simps by (metis holds_append)
next
  case (TeDeregister b)
  with assms show ?thesis
    by (intro holds_set_where [OF te_freed.keyed_update_axioms _ assms(1), of "te_freeable b"])
      (auto simp: te_deregister_agent_def te_freeable_def)
next
  case (TeCreateTask d ph par ti ds ty p)
  with assms show ?thesis
    by (auto simp: te_holds_def te_create_task_def insert_checked_def Let_def select_by_append split: option.split)
next
  case TeDetectDead
  with assms(2) show ?thesis by simp
next
  case (TeClaim t' b)
  with assms show ?thesis by (simp add: holds_claim)
next
  case (TeClaimNext b role pf)
  with assms show ?thesis by (simp add: te_claim_next_task_def holds_claim_first)
next
  case (TeAppend t' b ty p k)
  with assms show ?thesis by simp
qed (use assms in \<open>simp_all add: te_holds_def tasks_quiet\<close>)

text \<open>Moving a claimed task back to the queue does not release it. Once agent \<open>a\<close> holds a task, no claim of it
  succeeds, by any agent and in whatever state the task was put, until \<open>a\<close> is deregistered or found dead.\<close>

theorem te_released_task_unclaimable:
  assumes "rows_ok tt_id te_task_violation (ted_tasks db)" and "te_get_task t db = Ok r" and "tt_claimed_by r = Some a"
    and "\<forall>(i, now', op) \<in> set ops. \<not> te_frees a op"
  shows "te_claim_task now t b (te_run ops db) = (Ok None, te_run ops db)"
proof -
  have "te_holds t a db" using assms(2,3) by (auto simp: te_holds_def te_get_task_def fetch_one_def split: option.splits)
  then have "te_holds t a (te_run ops db)"
    using assms(4) by (induction ops arbitrary: db) (auto simp: holds_exec)
  then obtain r' where "te_get_task t (te_run ops db) = Ok r'" "\<not> te_claimable r'"
    by (auto simp: te_holds_def te_get_task_def fetch_one_def te_claimable_def)
  from te_claim_refused [OF te_ok_run [OF assms(1)] this] show ?thesis .
qed

section \<open>Idempotency keys, orders and final states\<close>

text \<open>A repeated event is not answered with the first one but with an error: its row is ignored by the database and
  then looked up under an id that was never stored.\<close>

theorem te_repeated_key_fails:
  assumes "e \<in> set (ted_events db)" and "te_idempotency_key e = Some k" and "i \<notin> te_id ` set (ted_events db)"
  shows "te_append_event i now t a ty p (Some k) db = (Err (TeDb RowNotFound), db)"
proof -
  have "list_ex (te_event_conflict (te_row i now t a ty p (Some k) db)) (ted_events db)"
    using assms(1,2) by (auto simp: list_ex_iff te_event_conflict_def te_row_def intro!: bexI [of _ e])
  moreover have "select_by te_id (ted_events db) i = None" using assms(3) by (simp add: select_by_None)
  ultimately show ?thesis by (simp add: te_append_event_def te_insert_event_def te_row_def fetch_one_def)
qed

text \<open>No state is final: a task that is done can still be cancelled or fail, and a cancelled one can fail.\<close>

lemma te_no_final_state: "valid_transition s ''canceled'' \<and> valid_transition s ''failed''"
  by (simp add: valid_transition_def)

section \<open>A small project\<close>

definition sample_setup :: "(string \<times> timestamp \<times> te_op) list" where
  "sample_setup =
     [(''P'', 0, TeCreatePhase ''P1'' ''phase'' [] ''high'' None None),
      (''A'', 1, TeRegister ''a'' ''claude'' ''implementer'' ''[]'' None None),
      (''B'', 2, TeRegister ''b'' ''codex'' ''reviewer'' ''[]'' None None),
      (''T'', 3, TeCreateTask ''P1.T1'' ''P'' None ''task'' [] ''bugfix'' ''high''),
      (''U'', 4, TeCreateTask ''P1.T2'' ''P'' None ''other'' [] ''bugfix'' ''critical''),
      (''e1'', 5, TeTransition ''T'' ''ready'' None), (''e2'', 6, TeTransition ''U'' ''ready'' None)]"

definition sample_work :: "(string \<times> timestamp \<times> te_op) list" where
  "sample_work = sample_setup @
     [(''x1'', 10, TeClaim ''T'' ''A''), (''x2'', 11, TeTransition ''T'' ''active'' None), (''x3'', 12, TeTransition ''T'' ''needs_review'' None),
      (''x4'', 13, TeTransition ''T'' ''in_review'' None), (''x5'', 14, TeTransition ''T'' ''needs_qa'' None),
      (''x6'', 15, TeTransition ''T'' ''in_qa'' None), (''x7'', 16, TeTransition ''T'' ''needs_secondary'' None),
      (''x8'', 17, TeTransition ''T'' ''done'' None)]"

lemma done_means_reviewed_sample:
  "subseq [''task.needs_review'', ''task.review_started'', ''task.needs_qa'', ''task.qa_started'', ''task.needs_secondary'', ''task.done'']
    (map te_event_type (events_of ''T'' (te_run sample_work te_empty)))"
proof (rule done_means_reviewed)
  show "distinct (map fst sample_work)" by code_simp
  have "(case te_get_task ''T'' (te_run sample_work te_empty) of Ok r \<Rightarrow> tt_status r = ''done'' | Err _ \<Rightarrow> False)" by code_simp
  then show "te_get_task ''T'' (te_run sample_work te_empty) = Ok (get_ok (te_get_task ''T'' (te_run sample_work te_empty)))"
    "tt_status (get_ok (te_get_task ''T'' (te_run sample_work te_empty))) = ''done''"
    by (auto split: result.splits)
qed

definition sample_task :: "string \<Rightarrow> te_task" where
  "sample_task i = the (select_by tt_id (ted_tasks (te_run sample_setup te_empty)) i)"

lemma sample_tasks: "ted_tasks (te_run sample_setup te_empty) = [sample_task ''T'', sample_task ''U'']"
  by code_simp

theorem te_claim_next_most_urgent_witness:
  "\<exists>r db'. te_claim_next_task 20 ''B'' ''reviewer'' None (te_run sample_setup te_empty) = (Ok (Some (te_set_claimed ''B'' 20 r)), db') \<and>
    r \<in> set (ted_tasks (te_run sample_setup te_empty)) \<and> te_claimable r \<and>
    (te_priority_rank r, tt_created_at r) \<le> (te_priority_rank (sample_task ''T''), tt_created_at (sample_task ''T''))"
proof (rule te_claim_next_most_urgent [OF te_ok_run [OF te_ok_empty]])
  show "agent_exists (te_run sample_setup te_empty) ''B''" by code_simp
  show "sample_task ''T'' \<in> set (ted_tasks (te_run sample_setup te_empty))" by (simp add: sample_tasks)
  show "te_claimable (sample_task ''T'')" by code_simp
qed

theorem te_released_task_unclaimable_witness:
  "te_claim_task 30 ''T'' ''B'' (te_run [(''y'', 25, TeTransition ''T'' ''queued'' None)] (te_run [(''x'', 20, TeClaim ''T'' ''A'')] (te_run sample_setup te_empty))) =
    (Ok None, te_run [(''y'', 25, TeTransition ''T'' ''queued'' None)] (te_run [(''x'', 20, TeClaim ''T'' ''A'')] (te_run sample_setup te_empty)))"
proof (rule te_released_task_unclaimable [OF te_ok_run [OF te_ok_run [OF te_ok_empty]]])
  let ?db = "te_run [(''x'', 20, TeClaim ''T'' ''A'')] (te_run sample_setup te_empty)"
  have "(case te_get_task ''T'' ?db of Ok r \<Rightarrow> tt_claimed_by r = Some ''A'' | Err _ \<Rightarrow> False)" by code_simp
  then show "te_get_task ''T'' ?db = Ok (get_ok (te_get_task ''T'' ?db))" "tt_claimed_by (get_ok (te_get_task ''T'' ?db)) = Some ''A''"
    by (auto split: result.splits)
qed simp

text \<open>Listed by status, the urgent tasks come last: the order compares the names of the priorities as texts.\<close>

theorem te_list_orders_by_name:
  "map tt_priority (te_list_tasks None (Some ''ready'') (te_run sample_setup te_empty)) = [''high'', ''critical'']"
  by code_simp

end
