(* ===== verification/Engine_Interleave.thy ===== *)
theory Engine_Interleave
  imports Engine_Props
begin

text \<open>
  The transitions of the task engine statement by statement. A call of \<^verbatim>\<open>transition_task\<close> reads the task and checks the
  transition, updates the status, reads the next number of the event log and inserts the event, and a call of
  \<^verbatim>\<open>append_event\<close> does the last two; the database serialises statements but not calls, so the statements of several
  calls interleave. A pending call is what is left of it with what it has read. The other operations of the engine write
  statuses by one statement each and are single steps. A history of the updates of the status goes along.
\<close>

section \<open>Steps\<close>

datatype (discs_sels) te_pending =
    Checked string string "string option" bool timestamp
  | Event string "string option" string string "string option"
  | Numbered string "string option" string string "string option" int

record te_calls =
  tk_db :: te_db
  tk_pending :: "te_pending list"
  tk_writes :: "(string \<times> string) list"

datatype te_action =
    ACheck string string "string option" timestamp
  | AAppend string "string option" string string "string option"
  | AStatement nat string timestamp
  | AOther string timestamp te_op

definition te_start :: te_calls where
  "te_start = \<lparr>tk_db = te_empty, tk_pending = [], tk_writes = []\<rparr>"

text \<open>The next statement of a pending call: the state after it and what is then left of the call.\<close>

fun te_statement :: "string \<Rightarrow> timestamp \<Rightarrow> te_pending \<Rightarrow> te_calls \<Rightarrow> te_pending option \<times> te_calls" where
  "te_statement i now (Checked t s reason not_started at) c =
     (case te_write_status at t s reason not_started (tk_db c) of
        Err _ \<Rightarrow> (None, c)
      | Ok db \<Rightarrow> (Some (Event t None (''task.'' @ task_status_to_event s) ''{}'' None), c\<lparr>tk_db := db, tk_writes := tk_writes c @ [(t, s)]\<rparr>))"
| "te_statement i now (Event t a ty p k) c = (Some (Numbered t a ty p k (te_next_seq t (tk_db c))), c)"
| "te_statement i now (Numbered t a ty p k seq) c = (None, c\<lparr>tk_db := snd (te_insert_event i now t a ty p k seq (tk_db c))\<rparr>)"

text \<open>A step begins a call, carries out the next statement of a pending one, or runs another operation.\<close>

fun te_act :: "te_action \<Rightarrow> te_calls \<Rightarrow> te_calls" where
  "te_act (ACheck t s reason now) c =
     (case te_get_task t (tk_db c) of
        Err _ \<Rightarrow> c
      | Ok task \<Rightarrow>
          if valid_transition (tt_status task) s
          then c\<lparr>tk_pending := tk_pending c @ [Checked t s reason (tt_started_at task = None) now]\<rparr> else c)"
| "te_act (AAppend t a ty p k) c = c\<lparr>tk_pending := tk_pending c @ [Event t a ty p k]\<rparr>"
| "te_act (AStatement n i now) c =
     (if n < length (tk_pending c) then
        (case te_statement i now (tk_pending c ! n) c of
           (Some p, c') \<Rightarrow> c'\<lparr>tk_pending := (tk_pending c)[n := p]\<rparr>
         | (None, c') \<Rightarrow> c'\<lparr>tk_pending := take n (tk_pending c) @ drop (Suc n) (tk_pending c)\<rparr>)
      else c)"
| "te_act (AOther i now op) c =
     (case op of TeTransition t s r \<Rightarrow> c | TeAppend t a ty p k \<Rightarrow> c | _ \<Rightarrow> c\<lparr>tk_db := te_exec i now op (tk_db c)\<rparr>)"

definition te_acts :: "te_action list \<Rightarrow> te_calls \<Rightarrow> te_calls" where
  "te_acts acts c = fold te_act acts c"

definition writes_of :: "string \<Rightarrow> te_calls \<Rightarrow> string list" where
  "writes_of t c = map snd (filter (\<lambda>w. fst w = t) (tk_writes c))"

section \<open>A call without interruption\<close>

text \<open>Run to its end at once, a transition is the operation of \<open>Engine_Store\<close>.\<close>

theorem uninterrupted_transition:
  "tk_db (te_acts [ACheck t s reason now, AStatement 0 i now, AStatement 0 i now, AStatement 0 i now] \<lparr>tk_db = db, tk_pending = [], tk_writes = w\<rparr>) =
     snd (te_transition_task i now t s reason db)"
proof (cases "te_get_task t db")
  case (Ok task)
  then show ?thesis
  proof (cases "valid_transition (tt_status task) s")
    case True
    with Ok show ?thesis
      by (cases "te_write_status now t s reason (tt_started_at task = None) db")
        (auto simp: te_acts_def te_transition_task_def te_append_event_def split: prod.split result.split)
  qed (simp add: te_acts_def te_transition_task_def)
qed (simp add: te_acts_def te_transition_task_def)

section \<open>Done means reviewed, in every interleaving\<close>

text \<open>The statuses a task in a given status must have been given before, in this order.\<close>

definition chain :: "string \<Rightarrow> string list" where
  "chain s = (if s \<in> set review_stages then takeWhile (\<lambda>x. x \<noteq> s) review_stages @ [s] else [])"

lemma passed_chain: "passed s = map (\<lambda>x. ''task.'' @ task_status_to_event x) (chain s)"
  by (simp add: passed_def chain_def)

lemma chain_table: "list_all (\<lambda>(s, s'). chain s' = [] \<or> chain s' = chain s @ [s']) TE_TRANSITIONS"
  by code_simp

lemma chain_next: "valid_transition s s' \<Longrightarrow> chain s' = [] \<or> chain s' = chain s @ [s']"
proof -
  have "chain ''canceled'' = []" "chain ''failed'' = []" by (simp_all add: chain_def review_stages_def)
  then show "valid_transition s s' \<Longrightarrow> ?thesis"
    using chain_table unfolding valid_transition_def list_all_iff by fastforce
qed

text \<open>Every row has the chain of its status behind it, and every checked transition the chain up to its new status.\<close>

definition pending_ok :: "te_calls \<Rightarrow> te_pending \<Rightarrow> bool" where
  "pending_ok c p \<longleftrightarrow> (case p of Checked t s reason ns at \<Rightarrow> subseq (chain s) (writes_of t c @ [s]) | _ \<Rightarrow> True)"

lemma pending_simps [simp]:
  "pending_ok c (Checked t s reason ns at) \<longleftrightarrow> subseq (chain s) (writes_of t c @ [s])"
  "pending_ok c (Event t a ty p k)" "pending_ok c (Numbered t a ty p k seq)"
  "writes_of t (c\<lparr>tk_pending := ps\<rparr>) = writes_of t c" "writes_of t (c\<lparr>tk_db := db\<rparr>) = writes_of t c"
  "pending_ok (c\<lparr>tk_pending := ps\<rparr>) q = pending_ok c q" "pending_ok (c\<lparr>tk_db := db\<rparr>) q = pending_ok c q"
  by (simp_all add: pending_ok_def writes_of_def split: te_pending.split)

definition writes_ok :: "te_calls \<Rightarrow> bool" where
  "writes_ok c \<longleftrightarrow>
     (\<forall>r \<in> set (ted_tasks (tk_db c)). subseq (chain (tt_status r)) (writes_of (tt_id r) c)) \<and>
     (\<forall>p \<in> set (tk_pending c). pending_ok c p)"

lemma writes_ok_start: "writes_ok te_start"
  by (simp add: writes_ok_def te_start_def te_empty_def)

lemma checked_chain:
  assumes "writes_ok c" and "te_get_task t (tk_db c) = Ok task" and "valid_transition (tt_status task) s"
  shows "subseq (chain s) (writes_of t c @ [s])"
proof -
  have "task \<in> set (ted_tasks (tk_db c))" "tt_id task = t"
    using assms(2) by (auto simp: te_get_task_def fetch_one_def dest: select_by_Some split: option.splits)
  with assms(1) have "subseq (chain (tt_status task)) (writes_of t c)" by (auto simp: writes_ok_def)
  with chain_next [OF assms(3)] show ?thesis by (auto intro: list_emb_append_mono)
qed

lemma status_set: "tt_status (te_set_status at s reason ns r) = s"
  by (simp add: te_set_status_def Let_def)

lemma writes_ok_write:
  assumes ok: "writes_ok c" and call: "Checked t s reason ns at \<in> set (tk_pending c)"
    and w: "te_write_status at t s reason ns (tk_db c) = Ok db"
    and rest: "\<And>p. p \<in> set pend \<Longrightarrow> is_Checked p \<Longrightarrow> p \<in> set (tk_pending c)"
  shows "writes_ok (c\<lparr>tk_db := db, tk_writes := tk_writes c @ [(t, s)], tk_pending := pend\<rparr>)"
proof -
  let ?c = "c\<lparr>tk_db := db, tk_writes := tk_writes c @ [(t, s)], tk_pending := pend\<rparr>"
  have more: "writes_of u (c\<lparr>tk_db := db, tk_writes := tk_writes c @ [(t, s)]\<rparr>) = writes_of u c @ (if u = t then [s] else [])" for u by (simp add: writes_of_def)
  have rows: "ted_tasks db = set_where (\<lambda>r. tt_id r = t) (te_set_status at s reason ns) (ted_tasks (tk_db c))"
    using w by (auto simp: te_write_status_def dest: update_where_Ok [THEN iffD1] split: result.splits)
  have new: "subseq (chain s) (writes_of t c @ [s])" using ok call unfolding writes_ok_def pending_ok_def by force
  have "subseq (chain (tt_status r)) (writes_of (tt_id r) ?c)" if r: "r \<in> set (ted_tasks db)" for r
  proof -
    obtain x where x: "x \<in> set (ted_tasks (tk_db c))" "r = (if tt_id x = t then te_set_status at s reason ns x else x)"
      using r unfolding rows set_where_def by fastforce
    then have "subseq (chain (tt_status x)) (writes_of (tt_id x) c)" using ok by (auto simp: writes_ok_def)
    with x new show ?thesis by (cases "tt_id x = t") (simp_all add: more status_set)
  qed
  moreover have "pending_ok ?c p" if p: "p \<in> set pend" for p
  proof (cases p)
    case (Checked t' s' r' n' a')
    with ok rest [OF p] have "subseq (chain s') (writes_of t' c @ [s'])" unfolding writes_ok_def pending_ok_def by force
    then have "subseq (chain s') (writes_of t' ?c @ [s'])" by (rule subseq_order.trans) (auto simp: more intro: list_emb_append_mono)
    with Checked show ?thesis by (simp add: pending_ok_def)
  qed (simp_all add: pending_ok_def)
  ultimately show ?thesis unfolding writes_ok_def by auto
qed

lemma writes_ok_db:
  assumes "writes_ok c" and "quiet (tk_db c) db"
    and "\<And>p. p \<in> set pend \<Longrightarrow> is_Checked p \<Longrightarrow> p \<in> set (tk_pending c)"
  shows "writes_ok (c\<lparr>tk_db := db, tk_pending := pend\<rparr>)"
proof -
  have "subseq (chain (tt_status r)) (writes_of (tt_id r) c)" if "r \<in> set (ted_tasks db)" for r
  proof -
    from assms(2) that consider "passed (tt_status r) = []"
      | x where "x \<in> set (ted_tasks (tk_db c))" "tt_id x = tt_id r" "tt_status x = tt_status r"
      by (auto simp: quiet_def)
    then show ?thesis using assms(1) by cases (auto simp: writes_ok_def passed_chain)
  qed
  moreover have "pending_ok (c\<lparr>tk_db := db, tk_pending := pend\<rparr>) p" if p: "p \<in> set pend" for p
  proof (cases p)
    case (Checked t' s' r' n' a')
    with assms(3) [OF p] have "p \<in> set (tk_pending c)" by simp
    with assms(1) show ?thesis unfolding writes_ok_def pending_simps by blast
  qed simp_all
  ultimately show ?thesis by (simp add: writes_ok_def writes_of_def)
qed

lemma quiet_insert: "quiet db (snd (te_insert_event i now t a ty p k seq db))"
  by (auto simp: te_insert_event_def quiet_def Let_def)

lemma writes_ok_act:
  assumes ok: "writes_ok c"
  shows "writes_ok (te_act act c)"
proof (cases act)
  case (ACheck t s reason now)
  show ?thesis
  proof (cases "te_get_task t (tk_db c)")
    case (Ok task)
    with ok checked_chain [OF ok Ok, of s] show ?thesis by (auto simp: ACheck writes_ok_def)
  qed (use ok in \<open>simp add: ACheck\<close>)
next
  case (AAppend t a ty p k)
  with ok show ?thesis by (auto simp: writes_ok_def)
next
  case (AOther i now op)
  have "writes_ok (c\<lparr>tk_db := te_exec i now op (tk_db c)\<rparr>)" if "\<nexists>t s r. op = TeTransition t s r"
    using writes_ok_db [OF ok, of "te_exec i now op (tk_db c)" "tk_pending c"] quiet_exec [of op "tk_db c" i now] that by auto
  with ok AOther show ?thesis by (auto split: te_op.split)
next
  case (AStatement n i now)
  show ?thesis
  proof (cases "n < length (tk_pending c)")
    case True
    let ?p = "tk_pending c ! n" and ?rest = "take n (tk_pending c) @ drop (Suc n) (tk_pending c)"
    have mem: "?p \<in> set (tk_pending c)" using True by simp
    have rest: "p \<in> set ?rest \<Longrightarrow> is_Checked p \<Longrightarrow> p \<in> set (tk_pending c)" for p
      by (auto dest: in_set_takeD in_set_dropD)
    have put: "p \<in> set ((tk_pending c)[n := q]) \<Longrightarrow> is_Checked p \<Longrightarrow> p \<in> set (tk_pending c)" if "\<not> is_Checked q" for p q
      using that set_update_subset_insert [of "tk_pending c" n q] by auto
    show ?thesis
    proof (cases ?p)
      case (Checked t s reason ns at)
      show ?thesis
      proof (cases "te_write_status at t s reason ns (tk_db c)")
        case (Ok db)
        from writes_ok_write [OF ok mem [unfolded Checked] Ok, OF put [of "Event t None (''task.'' @ task_status_to_event s) ''{}'' None"]]
        show ?thesis using AStatement True Checked Ok by simp
      next
        case (Err e)
        have "writes_ok (c\<lparr>tk_db := tk_db c, tk_pending := ?rest\<rparr>)" by (rule writes_ok_db [OF ok quiet_refl rest])
        then show ?thesis using AStatement True Checked Err by simp
      qed
    next
      case (Event t a ty p k)
      from writes_ok_db [OF ok quiet_refl, OF put [of "Numbered t a ty p k (te_next_seq t (tk_db c))"]]
      show ?thesis using AStatement True Event by simp
    next
      case (Numbered t a ty p k seq)
      have "writes_ok (c\<lparr>tk_db := snd (te_insert_event i now t a ty p k seq (tk_db c)), tk_pending := ?rest\<rparr>)"
        by (rule writes_ok_db [OF ok quiet_insert rest])
      then show ?thesis using AStatement True Numbered by simp
    qed
  qed (use ok AStatement in simp)
qed

text \<open>C27: A task is done only after review and QA, in every interleaving of the statements of transitions, appended events
  and the other operations: the updates of the status of a done task contain, in this order, that review was asked for,
  review started, QA was asked for, QA started, a second look was asked for, and that it was done.\<close>

theorem done_after_review:
  assumes "c = te_acts acts te_start" and "te_get_task t (tk_db c) = Ok r" and "tt_status r = ''done''"
  shows "subseq [''needs_review'', ''in_review'', ''needs_qa'', ''in_qa'', ''needs_secondary'', ''done''] (writes_of t c)"
proof -
  have "writes_ok (te_acts acts c')" if "writes_ok c'" for c'
    using that unfolding te_acts_def by (induction acts arbitrary: c') (auto simp: writes_ok_act)
  then have "writes_ok c" using writes_ok_start assms(1) by simp
  moreover have "r \<in> set (ted_tasks (tk_db c))" "tt_id r = t"
    using assms(2) by (auto simp: te_get_task_def fetch_one_def dest: select_by_Some split: option.splits)
  moreover have "chain ''done'' = [''needs_review'', ''in_review'', ''needs_qa'', ''in_qa'', ''needs_secondary'', ''done'']" by code_simp
  ultimately show ?thesis using assms(3) by (auto simp: writes_ok_def)
qed

section \<open>A task on its way, and a lost event\<close>

text \<open>The statements of one transition, at once.\<close>

definition whole :: "string \<Rightarrow> string \<Rightarrow> string \<Rightarrow> te_action list" where
  "whole i t s = [ACheck t s None 9, AStatement 0 i 9, AStatement 0 i 9, AStatement 0 i 9]"

definition to_second_look :: "te_action list" where
  "to_second_look =
     [AOther ''P'' 0 (TeCreatePhase ''P1'' ''phase'' [] ''high'' None None), AOther ''A'' 1 (TeRegister ''a'' ''claude'' ''implementer'' ''[]'' None None),
      AOther ''T'' 3 (TeCreateTask ''P1.T1'' ''P'' None ''task'' [] ''bugfix'' ''high'')] @
     whole ''e1'' ''T'' ''ready'' @ [AOther ''x1'' 5 (TeClaim ''T'' ''A'')] @
     concat (map (\<lambda>(i, s). whole i ''T'' s) [(''e2'', ''active''), (''e3'', ''needs_review''), (''e4'', ''in_review''), (''e5'', ''needs_qa''),
       (''e6'', ''in_qa''), (''e7'', ''needs_secondary'')])"

theorem done_after_review_witness:
  "let c = te_acts (to_second_look @ [ACheck ''T'' ''done'' None 9, AAppend ''T'' None ''note'' ''{}'' None, AStatement 0 ''e8'' 9]) te_start
   in subseq [''needs_review'', ''in_review'', ''needs_qa'', ''in_qa'', ''needs_secondary'', ''done''] (writes_of ''T'' c)"
proof -
  let ?acts = "to_second_look @ [ACheck ''T'' ''done'' None 9, AAppend ''T'' None ''note'' ''{}'' None, AStatement 0 ''e8'' 9]"
  let ?c = "te_acts ?acts te_start"
  have "(case te_get_task ''T'' (tk_db ?c) of Ok r \<Rightarrow> tt_status r = ''done'' | Err _ \<Rightarrow> False)" by code_simp
  then obtain r where "te_get_task ''T'' (tk_db ?c) = Ok r" "tt_status r = ''done''" by (auto split: result.splits)
  from done_after_review [OF refl this] show ?thesis by (simp add: Let_def)
qed

text \<open>The event log is not reliable in this way: if another event takes the number a transition has read, the event of
  the transition is dropped without an error of the database, and the log of a done task does not show it.\<close>

theorem concurrent_append_loses_event:
  "let c = te_acts (to_second_look @ [ACheck ''T'' ''done'' None 9, AAppend ''T'' None ''note'' ''{}'' None, AStatement 0 ''e8'' 9,
        AStatement 0 ''e8'' 9, AStatement 1 ''n'' 9, AStatement 1 ''n'' 9, AStatement 0 ''e8'' 9]) te_start
   in tk_pending c = [] \<and> map tt_status (ted_tasks (tk_db c)) = [''done''] \<and>
      ''task.done'' \<notin> set (map te_event_type (events_of ''T'' (tk_db c)))"
  by code_simp

end
