(* ===== verification/Worktrees.thy ===== *)
theory Worktrees
  imports Sandbox Redaction
begin

text \<open>
  The per-task git worktrees: \<^verbatim>\<open>worktree/manager.rs\<close>, \<^verbatim>\<open>worktree/merge.rs\<close>, \<^verbatim>\<open>worktree/cleanup.rs\<close> and
  \<^verbatim>\<open>worktree/health.rs\<close>. The repository and the file system are a state of an arbitrary type; the calls of the
  \<^verbatim>\<open>git2\<close> library and of the file system are the fields of the record \<open>git2\<close>, each a computation that may change
  that state and may fail with a message. An error of a function is the text of its outermost context.
\<close>

section \<open>Calls of the git library\<close>

type_synonym ('g, 'a) git_call = "'g \<Rightarrow> ('a, string) result \<times> 'g"

definition git_return :: "'a \<Rightarrow> ('g, 'a) git_call" where
  "git_return x g = (Ok x, g)"

definition git_fail :: "string \<Rightarrow> ('g, 'a) git_call" where
  "git_fail e g = (Err e, g)"

definition git_bind :: "('g, 'a) git_call \<Rightarrow> ('a \<Rightarrow> ('g, 'b) git_call) \<Rightarrow> ('g, 'b) git_call" where
  "git_bind call k g = (case call g of (Ok x, g1) \<Rightarrow> k x g1 | (Err e, g1) \<Rightarrow> (Err e, g1))"

text \<open>\<^verbatim>\<open>call.context(message)\<close>, and the same followed by the rest of the function.\<close>

definition with_context :: "string \<Rightarrow> ('g, 'a) git_call \<Rightarrow> ('g, 'a) git_call" where
  "with_context message call g = (case call g of (Ok x, g1) \<Rightarrow> (Ok x, g1) | (Err e, g1) \<Rightarrow> (Err message, g1))"

definition git_try :: "string \<Rightarrow> ('g, 'a) git_call \<Rightarrow> ('a \<Rightarrow> ('g, 'b) git_call) \<Rightarrow> ('g, 'b) git_call" where
  "git_try message call k = git_bind (with_context message call) k"

text \<open>\<^verbatim>\<open>map_err(|e| anyhow!("prefix: {}", e))?\<close> followed by the rest of the function, and \<^verbatim>\<open>.ok()\<close>.\<close>

definition git_prefix :: "string \<Rightarrow> ('g, 'a) git_call \<Rightarrow> ('a \<Rightarrow> ('g, 'b) git_call) \<Rightarrow> ('g, 'b) git_call" where
  "git_prefix message call k g = (case call g of (Ok x, g1) \<Rightarrow> k x g1 | (Err e, g1) \<Rightarrow> (Err (message @ '': '' @ e), g1))"

definition git_ok :: "('g, 'a) git_call \<Rightarrow> ('a option \<Rightarrow> ('g, 'b) git_call) \<Rightarrow> ('g, 'b) git_call" where
  "git_ok call k g = (case call g of (Ok x, g1) \<Rightarrow> k (Some x) g1 | (Err e, g1) \<Rightarrow> k None g1)"

text \<open>The result of \<^verbatim>\<open>Repository::branch\<close>: created, already there, or another error.\<close>

datatype branch_result = BranchCreated | BranchExists | BranchFailed string

record 'g git2 =
  g_create_dir_all :: "string \<Rightarrow> ('g, unit) git_call"
  g_remove_dir_all :: "string \<Rightarrow> ('g, unit) git_call"
  g_exists :: "string \<Rightarrow> 'g \<Rightarrow> bool"
  g_open :: "string \<Rightarrow> ('g, unit) git_call"
  g_head :: "string \<Rightarrow> ('g, unit) git_call"
  g_head_commit :: "string \<Rightarrow> ('g, string) git_call"
  g_branch :: "string \<Rightarrow> string \<Rightarrow> string \<Rightarrow> 'g \<Rightarrow> branch_result \<times> 'g"
  g_find_branch :: "string \<Rightarrow> string \<Rightarrow> ('g, unit) git_call"
  g_add_worktree :: "string \<Rightarrow> string \<Rightarrow> string \<Rightarrow> string \<Rightarrow> ('g, unit) git_call"
  g_worktrees :: "string \<Rightarrow> ('g, string option list) git_call"
  g_find_worktree :: "string \<Rightarrow> string \<Rightarrow> ('g, string) git_call"
  g_prune :: "string \<Rightarrow> string \<Rightarrow> ('g, unit) git_call"
  g_statuses :: "string \<Rightarrow> ('g, string option list) git_call"
  g_branch_ref_name :: "string \<Rightarrow> string \<Rightarrow> ('g, string) git_call"
  g_find_reference :: "string \<Rightarrow> string \<Rightarrow> ('g, unit) git_call"
  g_annotated_commit :: "string \<Rightarrow> string \<Rightarrow> ('g, string) git_call"
  g_merge_analysis :: "string \<Rightarrow> string \<Rightarrow> ('g, bool \<times> bool) git_call"
  g_set_head_target :: "string \<Rightarrow> string \<Rightarrow> string \<Rightarrow> ('g, unit) git_call"
  g_checkout_head :: "string \<Rightarrow> ('g, unit) git_call"
  g_merge :: "string \<Rightarrow> string \<Rightarrow> ('g, unit) git_call"
  g_index :: "string \<Rightarrow> ('g, unit) git_call"
  g_has_conflicts :: "string \<Rightarrow> 'g \<Rightarrow> bool"
  g_signature :: "string \<Rightarrow> ('g, string) git_call"
  g_write_tree :: "string \<Rightarrow> ('g, string) git_call"
  g_find_tree :: "string \<Rightarrow> string \<Rightarrow> ('g, unit) git_call"
  g_find_commit :: "string \<Rightarrow> string \<Rightarrow> ('g, unit) git_call"
  g_commit :: "string \<Rightarrow> string \<Rightarrow> string \<Rightarrow> string \<Rightarrow> string list \<Rightarrow> ('g, string) git_call"
  g_cleanup_state :: "string \<Rightarrow> ('g, unit) git_call"
  g_commit_tree :: "string \<Rightarrow> string \<Rightarrow> ('g, string) git_call"
  g_parents :: "string \<Rightarrow> string \<Rightarrow> 'g \<Rightarrow> nat"
  g_parent :: "string \<Rightarrow> string \<Rightarrow> ('g, string) git_call"
  g_diff_trees :: "string \<Rightarrow> string option \<Rightarrow> string \<Rightarrow> ('g, string) git_call"
  g_print_diff :: "string \<Rightarrow> string \<Rightarrow> ('g, (char \<times> string option) list) git_call"
  g_head_tree :: "string \<Rightarrow> ('g, string) git_call"
  g_diff_workdir :: "string \<Rightarrow> string option \<Rightarrow> ('g, string) git_call"
  g_diff_stats :: "string \<Rightarrow> string \<Rightarrow> ('g, nat \<times> nat \<times> nat) git_call"
  g_add_all :: "string \<Rightarrow> ('g, unit) git_call"
  g_write_index :: "string \<Rightarrow> ('g, unit) git_call"

section \<open>Paths\<close>

text \<open>\<^verbatim>\<open>Path::join\<close>: an absolute path replaces the base.\<close>

definition path_join :: "string \<Rightarrow> string \<Rightarrow> string" where
  "path_join base p =
     (if starts_with p ''/'' then p else if base = [] \<or> ends_with base ''/'' then base @ p else base @ ''/'' @ p)"

text \<open>Paths are compared by their components.\<close>

definition same_path :: "string \<Rightarrow> string \<Rightarrow> bool" where
  "same_path p q \<longleftrightarrow> components p = components q"

section \<open>The manager\<close>

datatype worktree_status = WtActive | WtDone | WtAbandoned | WtMerged

record worktree_info =
  wt_task_id :: string
  wt_path :: string
  wt_branch :: string
  wt_repo_path :: string
  wt_created_at :: timestamp
  wt_status :: worktree_status

record worktree_manager =
  wm_worktrees :: "string \<rightharpoonup> worktree_info"
  wm_base :: string

definition new_manager :: "string \<Rightarrow> worktree_manager" where
  "new_manager data_dir = \<lparr>wm_worktrees = Map.empty, wm_base = path_join (path_join data_dir ''.claw'') ''worktrees''\<rparr>"

definition ascii_lower :: "char \<Rightarrow> char" where
  "ascii_lower c = (let n = of_char c :: nat in if 65 \<le> n \<and> n \<le> 90 then char_of (n + 32) else c)"

definition make_slug :: "string \<Rightarrow> string" where
  "make_slug title = take 6 (take 6 (map ascii_lower (filter is_alphanumeric title)))"

definition replace_slash :: "string \<Rightarrow> string" where
  "replace_slash s = concat (map (\<lambda>c. if c = CHR ''/'' then ''--'' else [c]) s)"

definition create_worktree_blocking :: "'g git2 \<Rightarrow> string \<Rightarrow> string \<Rightarrow> string \<Rightarrow> ('g, unit) git_call" where
  "create_worktree_blocking git repo_path branch_name worktree_path =
     git_try ''failed to open repository for worktree creation'' (g_open git repo_path) (\<lambda>_.
     git_try ''repository has no HEAD'' (g_head git repo_path) (\<lambda>_.
     git_try ''HEAD does not point to a commit'' (g_head_commit git repo_path) (\<lambda>head_commit.
     git_bind (\<lambda>g. case g_branch git repo_path branch_name head_commit g of
          (BranchCreated, g1) \<Rightarrow> git_return () g1
        | (BranchExists, g1) \<Rightarrow> with_context ''failed to find existing branch'' (g_find_branch git repo_path branch_name) g1
        | (BranchFailed e, g1) \<Rightarrow> git_fail (''failed to create branch '' @ branch_name @ '': '' @ e) g1) (\<lambda>_.
     git_try ''failed to add git worktree''
       (g_add_worktree git repo_path (replace_slash branch_name) worktree_path branch_name) git_return))))"

text \<open>The search for the worktree with the given path; worktrees that cannot be opened are skipped.\<close>

fun prune_first :: "'g git2 \<Rightarrow> string \<Rightarrow> string \<Rightarrow> string list \<Rightarrow> ('g, unit) git_call" where
  "prune_first git repo_path worktree_path [] g =
     (if g_exists git worktree_path g
      then with_context ''failed to remove orphaned worktree directory'' (g_remove_dir_all git worktree_path) g
      else (Ok (), g))"
| "prune_first git repo_path worktree_path (name # names) g =
     (case g_find_worktree git repo_path name g of
        (Ok path, g1) \<Rightarrow>
          if same_path path worktree_path
          then git_try ''failed to prune worktree'' (g_prune git repo_path name) (\<lambda>_ g2.
                 if g_exists git worktree_path g2
                 then with_context ''failed to remove worktree directory'' (g_remove_dir_all git worktree_path) g2
                 else (Ok (), g2)) g1
          else prune_first git repo_path worktree_path names g1
      | (Err _, g1) \<Rightarrow> prune_first git repo_path worktree_path names g1)"

definition remove_worktree_blocking :: "'g git2 \<Rightarrow> string \<Rightarrow> string \<Rightarrow> ('g, unit) git_call" where
  "remove_worktree_blocking git repo_path worktree_path =
     git_try ''failed to open repository for worktree removal'' (g_open git repo_path) (\<lambda>_.
     git_try ''failed to list worktrees'' (g_worktrees git repo_path) (\<lambda>names.
     prune_first git repo_path worktree_path (List.map_filter (\<lambda>n. n) names)))"

definition worktree_touches_files :: "'g git2 \<Rightarrow> string \<Rightarrow> string list \<Rightarrow> ('g, bool) git_call" where
  "worktree_touches_files git worktree_path check_files =
     git_try ''failed to open worktree repository'' (g_open git worktree_path) (\<lambda>_.
     git_try ''failed to get worktree status'' (g_statuses git worktree_path) (\<lambda>entries.
     git_return (list_ex (\<lambda>changed. list_ex (same_path (path_join worktree_path changed)) check_files)
       (List.map_filter (\<lambda>e. e) entries))))"

definition wm_get :: "worktree_manager \<Rightarrow> string \<Rightarrow> worktree_info option" where
  "wm_get m task_id = wm_worktrees m task_id"

definition wm_list :: "string list \<Rightarrow> worktree_manager \<Rightarrow> worktree_info list" where
  "wm_list ks m = map_values ks (wm_worktrees m)"

definition worktree_branch :: "string \<Rightarrow> string \<Rightarrow> string" where
  "worktree_branch task_id title = ''claw/'' @ task_id @ ''-'' @ make_slug title"

definition wm_create ::
  "'g git2 \<Rightarrow> timestamp \<Rightarrow> string \<Rightarrow> string \<Rightarrow> string \<Rightarrow> worktree_manager \<Rightarrow> 'g \<Rightarrow>
   (worktree_info, string) result \<times> worktree_manager \<times> 'g" where
  "wm_create git now task_id task_title repo_path m g =
     (let branch = worktree_branch task_id task_title;
          worktree_path = path_join (wm_base m) task_id
      in case git_try ''failed to create worktree base directory'' (g_create_dir_all git (wm_base m))
                (\<lambda>_. create_worktree_blocking git repo_path branch worktree_path) g of
           (Err e, g1) \<Rightarrow> (Err e, m, g1)
         | (Ok _, g1) \<Rightarrow>
             (let info = \<lparr>wt_task_id = task_id, wt_path = worktree_path, wt_branch = branch, wt_repo_path = repo_path,
                    wt_created_at = now, wt_status = WtActive\<rparr>
              in (Ok info, m\<lparr>wm_worktrees := (wm_worktrees m)(task_id \<mapsto> info)\<rparr>, g1)))"

definition wm_bind_task ::
  "'g git2 \<Rightarrow> timestamp \<Rightarrow> string \<Rightarrow> string \<Rightarrow> string \<Rightarrow> worktree_manager \<Rightarrow> 'g \<Rightarrow>
   (worktree_info, string) result \<times> worktree_manager \<times> 'g" where
  "wm_bind_task git now task_id task_title repo_path m g =
     (case wm_get m task_id of Some existing \<Rightarrow> (Ok existing, m, g) | None \<Rightarrow> wm_create git now task_id task_title repo_path m g)"

text \<open>A failed removal through git falls back to deleting the directory, whose errors are ignored; the entry
  always goes.\<close>

definition wm_remove :: "'g git2 \<Rightarrow> string \<Rightarrow> worktree_manager \<Rightarrow> 'g \<Rightarrow> bool \<times> worktree_manager \<times> 'g" where
  "wm_remove git task_id m g =
     (case wm_get m task_id of
        None \<Rightarrow> (False, m, g)
      | Some info \<Rightarrow>
          (let g2 = (case remove_worktree_blocking git (wt_repo_path info) (wt_path info) g of
                  (Ok _, g1) \<Rightarrow> g1
                | (Err _, g1) \<Rightarrow> if g_exists git (wt_path info) g1 then snd (g_remove_dir_all git (wt_path info) g1) else g1)
           in (True, m\<lparr>wm_worktrees := (wm_worktrees m)(task_id := None)\<rparr>, g2)))"

definition is_in_worktree :: "string list \<Rightarrow> worktree_manager \<Rightarrow> string \<Rightarrow> string option" where
  "is_in_worktree ks m path =
     find (\<lambda>task_id. case wm_worktrees m task_id of
         Some info \<Rightarrow> wt_status info = WtActive \<and> path_starts_with path (wt_path info) | None \<Rightarrow> False) ks"

text \<open>The active worktrees of a repository, and the check of their changed files; a failing check counts as no
  conflict.\<close>

definition active_in :: "string list \<Rightarrow> worktree_manager \<Rightarrow> string \<Rightarrow> worktree_info list" where
  "active_in ks m repo_path = filter (\<lambda>i. wt_status i = WtActive \<and> same_path (wt_repo_path i) repo_path) (wm_list ks m)"

fun touching :: "'g git2 \<Rightarrow> string list \<Rightarrow> worktree_info list \<Rightarrow> 'g \<Rightarrow> string list \<times> 'g" where
  "touching git files [] g = ([], g)"
| "touching git files (info # infos) g =
     (case worktree_touches_files git (wt_path info) files g of
        (Ok True, g1) \<Rightarrow> (let (rest, g2) = touching git files infos g1 in (wt_task_id info # rest, g2))
      | (_, g1) \<Rightarrow> touching git files infos g1)"

definition check_file_conflicts ::
  "'g git2 \<Rightarrow> string list \<Rightarrow> worktree_manager \<Rightarrow> string \<Rightarrow> string list \<Rightarrow> 'g \<Rightarrow> string list \<times> 'g" where
  "check_file_conflicts git ks m repo_path files g = touching git files (active_in ks m repo_path) g"

definition detect_file_conflicts :: "string list \<Rightarrow> worktree_manager \<Rightarrow> string \<Rightarrow> string list" where
  "detect_file_conflicts ks m repo_path = map wt_task_id (active_in ks m repo_path)"

definition validate_write_paths :: "worktree_manager \<Rightarrow> string \<Rightarrow> string list \<Rightarrow> (unit, string) result" where
  "validate_write_paths m task_id target_paths =
     (case wm_get m task_id of
        None \<Rightarrow> Err (''REPO_NOT_FOUND: no worktree for task '' @ task_id)
      | Some info \<Rightarrow>
          (case find (\<lambda>p. \<not> path_starts_with p (wt_path info)) target_paths of
             Some p \<Rightarrow> Err (''REPO_NOT_FOUND: path '' @ p @ '' is outside task worktree '' @ wt_path info)
           | None \<Rightarrow> Ok ()))"

definition reject_main_workspace_write ::
  "string list \<Rightarrow> worktree_manager \<Rightarrow> string \<Rightarrow> string \<Rightarrow> (unit, string) result" where
  "reject_main_workspace_write ks m repo_path target_path =
     (if \<not> path_starts_with target_path repo_path then Ok ()
      else if is_in_worktree ks m target_path \<noteq> None then Ok ()
      else Err (''REPO_NOT_FOUND: write to main workspace is forbidden; use a task worktree (path: '' @ target_path @ '')''))"

definition wm_set_status :: "string \<Rightarrow> worktree_status \<Rightarrow> worktree_manager \<Rightarrow> worktree_manager" where
  "wm_set_status task_id status m =
     (case wm_worktrees m task_id of
        Some info \<Rightarrow> m\<lparr>wm_worktrees := (wm_worktrees m)(task_id \<mapsto> info\<lparr>wt_status := status\<rparr>)\<rparr>
      | None \<Rightarrow> m)"

section \<open>Merging\<close>

definition patch_text :: "(char \<times> string option) list \<Rightarrow> string" where
  "patch_text ls = concat (List.map_filter snd ls)"

text \<open>The diff shown for review: the last commit of the worktree against its first parent.\<close>

definition diff_against_main :: "'g git2 \<Rightarrow> string \<Rightarrow> ('g, string) git_call" where
  "diff_against_main git worktree_path =
     git_try ''failed to open worktree for diff'' (g_open git worktree_path) (\<lambda>_.
     git_try ''worktree has no HEAD'' (g_head git worktree_path) (\<lambda>_.
     git_try ''HEAD does not point to a commit'' (g_head_commit git worktree_path) (\<lambda>head_commit.
     git_try ''failed to get HEAD tree'' (g_commit_tree git worktree_path head_commit) (\<lambda>head_tree.
     git_bind (\<lambda>g.
        if 0 < g_parents git worktree_path head_commit g
        then git_try ''failed to get parent commit'' (g_parent git worktree_path head_commit) (\<lambda>parent.
             git_try ''failed to get parent tree'' (g_commit_tree git worktree_path parent) (\<lambda>parent_tree.
             with_context ''failed to compute diff'' (g_diff_trees git worktree_path (Some parent_tree) head_tree))) g
        else with_context ''failed to compute initial diff'' (g_diff_trees git worktree_path None head_tree) g) (\<lambda>diff.
     git_try ''failed to format diff'' (g_print_diff git worktree_path diff) (\<lambda>ls.
     git_return (if patch_text ls = [] then ''(no changes)'' else patch_text ls)))))))"

definition stage_for_merge :: "'g git2 \<Rightarrow> worktree_manager \<Rightarrow> string \<Rightarrow> ('g, string) git_call" where
  "stage_for_merge git m task_id =
     (case wm_get m task_id of
        None \<Rightarrow> git_fail (''no worktree found for task '' @ task_id)
      | Some info \<Rightarrow> diff_against_main git (wt_path info))"

definition merge_commit :: "'g git2 \<Rightarrow> string \<Rightarrow> string \<Rightarrow> string \<Rightarrow> string \<Rightarrow> ('g, unit) git_call" where
  "merge_commit git repo_path branch task_id annotated =
     git_try ''failed to perform merge'' (g_merge git repo_path annotated) (\<lambda>_.
     git_try ''failed to get index after merge'' (g_index git repo_path) (\<lambda>_.
     git_bind (\<lambda>g. if g_has_conflicts git repo_path g
          then git_fail (''merge of '' @ branch @ '' has conflicts - resolve manually'') g else git_return () g) (\<lambda>_.
     git_try ''failed to get git signature'' (g_signature git repo_path) (\<lambda>sig.
     git_try ''failed to get index'' (g_index git repo_path) (\<lambda>_.
     git_try ''failed to write tree'' (g_write_tree git repo_path) (\<lambda>tree.
     git_try ''failed to find tree'' (g_find_tree git repo_path tree) (\<lambda>_.
     git_try ''failed to get HEAD'' (g_head git repo_path) (\<lambda>_.
     git_try ''HEAD is not a commit'' (g_head_commit git repo_path) (\<lambda>head_commit.
     git_try ''failed to find branch commit'' (g_find_commit git repo_path annotated) (\<lambda>_.
     git_try ''failed to create merge commit''
       (g_commit git repo_path sig (''Merge task '' @ task_id @ '' ('' @ branch @ '')'') tree [head_commit, annotated]) (\<lambda>_.
     git_try ''failed to cleanup merge state'' (g_cleanup_state git repo_path) git_return)))))))))))"

definition merge_branch_to_main :: "'g git2 \<Rightarrow> string \<Rightarrow> string \<Rightarrow> string \<Rightarrow> ('g, unit) git_call" where
  "merge_branch_to_main git repo_path branch task_id =
     git_try ''failed to open main repository for merge'' (g_open git repo_path) (\<lambda>_.
     git_try (''branch '' @ branch @ '' not found'') (g_find_branch git repo_path branch) (\<lambda>_.
     git_bind (\<lambda>g. case g_branch_ref_name git repo_path branch g of
          (Ok name, g1) \<Rightarrow> (Ok name, g1) | (Err e, g1) \<Rightarrow> (Err (''branch ref has no name: '' @ e), g1)) (\<lambda>ref_name.
     git_try ''failed to find branch reference'' (g_find_reference git repo_path ref_name) (\<lambda>_.
     git_try ''failed to create annotated commit'' (g_annotated_commit git repo_path ref_name) (\<lambda>annotated.
     git_try ''failed to analyse merge'' (g_merge_analysis git repo_path annotated) (\<lambda>(up_to_date, fast_forward).
       if up_to_date then git_return ()
       else if fast_forward
       then git_try ''failed to get HEAD ref'' (g_head git repo_path) (\<lambda>_.
            git_try ''failed to fast-forward HEAD''
              (g_set_head_target git repo_path annotated (''fast-forward merge of '' @ branch)) (\<lambda>_.
            git_try ''failed to checkout after fast-forward'' (g_checkout_head git repo_path) git_return))
       else merge_commit git repo_path branch task_id annotated))))))"

definition merge_to_main ::
  "'g git2 \<Rightarrow> string \<Rightarrow> worktree_manager \<Rightarrow> 'g \<Rightarrow> (unit, string) result \<times> worktree_manager \<times> 'g" where
  "merge_to_main git task_id m g =
     (case wm_get m task_id of
        None \<Rightarrow> (Err (''no worktree found for task '' @ task_id), m, g)
      | Some info \<Rightarrow>
          if wt_status info \<noteq> WtDone
          then (Err (''task '' @ task_id @ '' worktree is not in Done state - cannot merge''), m, g)
          else case merge_branch_to_main git (wt_repo_path info) (wt_branch info) task_id g of
              (Err e, g1) \<Rightarrow> (Err e, m, g1)
            | (Ok _, g1) \<Rightarrow> (Ok (), wm_set_status task_id WtMerged m, g1))"

section \<open>Cleanup and health\<close>

definition worktree_is_clean :: "'g git2 \<Rightarrow> string \<Rightarrow> ('g, bool) git_call" where
  "worktree_is_clean git worktree_path g =
     (if \<not> g_exists git worktree_path g then (Ok True, g)
      else git_bind (g_open git worktree_path) (\<lambda>_.
           git_bind (g_statuses git worktree_path) (\<lambda>entries. git_return (entries = []))) g)"

text \<open>The loop over the snapshot of the tracked worktrees. The counter is a \<^verbatim>\<open>u32\<close>, larger than any number of
  worktrees a machine can hold.\<close>

fun cleanup_loop :: "'g git2 \<Rightarrow> worktree_info list \<Rightarrow> worktree_manager \<Rightarrow> 'g \<Rightarrow> nat \<times> worktree_manager \<times> 'g" where
  "cleanup_loop git [] m g = (0, m, g)"
| "cleanup_loop git (info # infos) m g =
     (if wt_status info \<noteq> WtDone then cleanup_loop git infos m g
      else let (r, g1) = worktree_is_clean git (wt_path info) g in
           if unwrap_or r False
           then let (found, m1, g2) = wm_remove git (wt_task_id info) m g1;
                    (n, m2, g3) = cleanup_loop git infos m1 g2
                in ((if found then Suc n else n), m2, g3)
           else cleanup_loop git infos m g1)"

definition cleanup_empty_worktrees ::
  "'g git2 \<Rightarrow> string list \<Rightarrow> worktree_manager \<Rightarrow> 'g \<Rightarrow> nat \<times> worktree_manager \<times> 'g" where
  "cleanup_empty_worktrees git ks m g = cleanup_loop git (wm_list ks m) m g"

record worktree_health =
  wh_orphaned :: "string list"
  wh_stale :: "string list"
  wh_total :: nat

definition is_orphaned :: "'g git2 \<Rightarrow> 'g \<Rightarrow> worktree_info \<Rightarrow> bool" where
  "is_orphaned git g i \<longleftrightarrow> \<not> g_exists git (wt_path i) g \<and> wt_status i = WtActive"

definition check_health :: "'g git2 \<Rightarrow> 'g \<Rightarrow> timestamp \<Rightarrow> string list \<Rightarrow> worktree_manager \<Rightarrow> worktree_health" where
  "check_health git g now ks m =
     (let worktrees = wm_list ks m in
      \<lparr>wh_orphaned = map wt_task_id (filter (is_orphaned git g) worktrees),
       wh_stale = map wt_task_id
         (filter (\<lambda>i. \<not> is_orphaned git g i \<and> wt_status i = WtDone \<and> now - wt_created_at i > secs (24 * 3600)) worktrees),
       wh_total = length worktrees\<rparr>)"

end
