(* ===== verification/Worktrees_Props.thy ===== *)
theory Worktrees_Props
  imports Worktrees
begin

text \<open>
  Properties of the worktree manager: where the directory of a task lies, that the directories of tasks with
  plain names are disjoint, what every operation keeps of the table, and what cleaning up removes.
\<close>

section \<open>Directories named after tasks\<close>

definition plain_name :: "string \<Rightarrow> bool" where
  "plain_name s \<longleftrightarrow> s \<noteq> [] \<and> s \<noteq> ''.'' \<and> CHR ''/'' \<notin> set s"

lemma split_char_sep: "split_char d (a @ d # b) = split_char d a @ split_char d b"
proof (induction a)
  case (Cons c a)
  have "split_char d a \<noteq> []" by (cases a) (auto split: list.splits)
  with Cons show ?case by (auto split: list.splits)
qed simp

lemma split_char_ne [simp]: "split_char d s \<noteq> []"
  by (cases s) (auto split: list.splits)

lemma starts_with_append: "s \<noteq> [] \<Longrightarrow> starts_with (s @ t) [c] = starts_with s [c]"
  by (cases s) (auto simp: starts_with_def)

lemma components_sep:
  assumes "s \<noteq> []" and "plain_name t"
  shows "components (s @ CHR ''/'' # t) = components s @ [t]"
  using assms by (simp add: components_def split_char_sep plain_name_def split_char_single starts_with_append)

lemma components_prefix: "prefix (components s) (components (s @ CHR ''/'' # t))"
  by (cases "s = []") (simp_all add: components_def split_char_sep starts_with_append, simp add: starts_with_def)

lemma components_slash: "s \<noteq> [] \<Longrightarrow> components (s @ ''/'') = components s"
  by (simp add: components_def split_char_sep starts_with_append)

lemma components_path_join:
  assumes "plain_name t"
  shows "components (path_join b t) = components b @ [t]"
proof -
  have rel: "\<not> starts_with t ''/''" using assms by (cases t) (auto simp: plain_name_def starts_with_def)
  consider (empty) "b = []" | (slash) b' where "b = b' @ ''/''" | (other) "b \<noteq> []" "\<not> ends_with b ''/''"
    by (auto simp: ends_with_def suffix_def)
  then show ?thesis
  proof cases
    case empty
    with assms rel show ?thesis
      by (simp add: path_join_def components_def plain_name_def split_char_single starts_with_def)
  next
    case (slash b')
    show ?thesis
    proof (cases "b' = []")
      case True
      with slash assms rel show ?thesis
        by (simp add: path_join_def components_def plain_name_def split_char_single starts_with_def ends_with_def)
    next
      case False
      with slash assms rel show ?thesis
        by (simp add: path_join_def ends_with_def components_sep components_slash)
    qed
  next
    case other
    with assms rel show ?thesis by (simp add: path_join_def components_sep)
  qed
qed

text \<open>A family of directories, one per name, side by side under one parent: nothing lies below two of them.\<close>

locale sibling_dirs =
  fixes dir_of :: "string \<Rightarrow> string" and ok_name :: "string \<Rightarrow> bool" and parent :: "string list"
  assumes dir_components: "ok_name i \<Longrightarrow> components (dir_of i) = parent @ [i]"
begin

lemma below_iff: "ok_name i \<Longrightarrow> path_starts_with p (dir_of i) \<longleftrightarrow> (\<exists>rest. components p = parent @ i # rest)"
  by (auto simp: path_starts_with_def dir_components prefix_def)

lemma below_unique:
  "ok_name i \<Longrightarrow> ok_name j \<Longrightarrow> path_starts_with p (dir_of i) \<Longrightarrow> path_starts_with p (dir_of j) \<Longrightarrow> i = j"
  by (auto simp: below_iff)

end

interpretation joined: sibling_dirs "path_join b" plain_name "components b" for b
  by unfold_locales (rule components_path_join)

section \<open>The table of worktrees\<close>

definition info_ok :: "string \<Rightarrow> string \<Rightarrow> worktree_info \<Rightarrow> bool" where
  "info_ok base task_id i \<longleftrightarrow>
     wt_task_id i = task_id \<and> wt_path i = path_join base task_id \<and> (\<exists>title. wt_branch i = worktree_branch task_id title)"

definition manager_ok :: "worktree_manager \<Rightarrow> bool" where
  "manager_ok m \<longleftrightarrow> (\<forall>t i. wm_worktrees m t = Some i \<longrightarrow> info_ok (wm_base m) t i)"

lemma manager_okD: "manager_ok m \<Longrightarrow> wm_worktrees m t = Some i \<Longrightarrow> info_ok (wm_base m) t i"
  by (simp add: manager_ok_def)

lemma new_manager_ok [simp]: "manager_ok (new_manager d)"
  by (simp add: manager_ok_def new_manager_def)

lemma wm_create_cases:
  obtains (failed) e g1 where "wm_create git now t title repo m g = (Err e, m, g1)"
  | (created) info g1 where "wm_create git now t title repo m g = (Ok info, m\<lparr>wm_worktrees := (wm_worktrees m)(t \<mapsto> info)\<rparr>, g1)"
      "info = \<lparr>wt_task_id = t, wt_path = path_join (wm_base m) t, wt_branch = worktree_branch t title, wt_repo_path = repo,
         wt_created_at = now, wt_status = WtActive\<rparr>"
proof -
  let ?call = "git_try ''failed to create worktree base directory'' (g_create_dir_all git (wm_base m))
      (\<lambda>_. create_worktree_blocking git repo (worktree_branch t title) (path_join (wm_base m) t)) g"
  obtain r g1 where r: "?call = (r, g1)" by fastforce
  show ?thesis
  proof (cases r)
    case (Ok u)
    with r show ?thesis using created by (simp add: wm_create_def)
  next
    case (Err e)
    with r show ?thesis using failed by (simp add: wm_create_def)
  qed
qed

lemma wm_remove_table:
  "wm_remove git t m g = (b, m1, g1) \<Longrightarrow>
     b = (wm_worktrees m t \<noteq> None) \<and> wm_base m1 = wm_base m \<and> wm_worktrees m1 = (wm_worktrees m)(t := None)"
  by (auto simp: wm_remove_def wm_get_def fun_upd_idem split: option.splits)

lemma wm_set_status_table [simp]:
  "wm_base (wm_set_status t s m) = wm_base m"
  "wm_worktrees (wm_set_status t s m) =
     (wm_worktrees m)(t := map_option (\<lambda>i. i\<lparr>wt_status := s\<rparr>) (wm_worktrees m t))"
  by (auto simp: wm_set_status_def fun_upd_idem split: option.splits)

lemma merge_to_main_cases:
  obtains (failed) e g1 where "merge_to_main git t m g = (Err e, m, g1)"
  | (merged) i g1 where "merge_to_main git t m g = (Ok (), wm_set_status t WtMerged m, g1)"
      "wm_worktrees m t = Some i" "wt_status i = WtDone"
      "merge_branch_to_main git (wt_repo_path i) (wt_branch i) t g = (Ok (), g1)"
proof (cases "wm_worktrees m t")
  case None
  then show ?thesis using failed by (simp add: merge_to_main_def wm_get_def)
next
  case (Some i)
  obtain r g1 where r: "merge_branch_to_main git (wt_repo_path i) (wt_branch i) t g = (r, g1)" by fastforce
  show ?thesis
  proof (cases "wt_status i = WtDone")
    case True
    with Some r show ?thesis using failed merged by (cases r) (simp_all add: merge_to_main_def wm_get_def)
  next
    case False
    with Some show ?thesis using failed by (simp add: merge_to_main_def wm_get_def)
  qed
qed

text \<open>A round of cleaning up: the entries of some done worktrees are gone, and they are counted.\<close>

definition cleaned :: "worktree_info list \<Rightarrow> worktree_manager \<Rightarrow> nat \<Rightarrow> worktree_manager \<Rightarrow> bool" where
  "cleaned infos m n m1 \<longleftrightarrow> wm_base m1 = wm_base m \<and>
     (\<exists>R. finite R \<and> n = card R \<and> R \<subseteq> wt_task_id ` {i \<in> set infos. wt_status i = WtDone} \<and>
        wm_worktrees m1 = (\<lambda>t. if t \<in> R then None else wm_worktrees m t))"

lemma cleaned_Nil [simp]: "cleaned [] m 0 m"
  unfolding cleaned_def by (intro conjI exI [of _ "{}"]) simp_all

lemma cleaned_skip: "cleaned infos m n m1 \<Longrightarrow> cleaned (info # infos) m n m1"
  unfolding cleaned_def by (elim conjE exE, intro conjI exI, assumption+) auto

lemma cleaned_remove:
  assumes "cleaned infos m2 n m1" and "wm_base m2 = wm_base m" and "wm_worktrees m2 = (wm_worktrees m)(wt_task_id info := None)"
    and "wt_status info = WtDone" and "wt_task_id info \<notin> wt_task_id ` set infos"
  shows "cleaned (info # infos) m (Suc n) m1"
proof -
  obtain R where R: "finite R" "n = card R" "R \<subseteq> wt_task_id ` {i \<in> set infos. wt_status i = WtDone}"
    "wm_worktrees m1 = (\<lambda>t. if t \<in> R then None else wm_worktrees m2 t)"
    using assms(1) unfolding cleaned_def by blast
  have "wt_task_id info \<notin> R" using R(3) assms(5) by auto
  with R assms show ?thesis
    unfolding cleaned_def by (intro conjI exI [of _ "insert (wt_task_id info) R"]) (auto simp: cleaned_def intro!: ext)
qed

lemma cleanup_loop_cleaned:
  assumes "cleanup_loop git infos m g = (n, m1, g1)"
    and "distinct (map wt_task_id infos)"
    and "\<And>i. i \<in> set infos \<Longrightarrow> wm_worktrees m (wt_task_id i) \<noteq> None"
  shows "cleaned infos m n m1"
  using assms
proof (induction infos arbitrary: m g n)
  case (Cons info infos)
  show ?case
  proof (cases "wt_status info = WtDone")
    case False
    with Cons show ?thesis by (simp add: cleaned_skip)
  next
    case fin: True
    obtain r ga where r: "worktree_is_clean git (wt_path info) g = (r, ga)" by fastforce
    show ?thesis
    proof (cases "unwrap_or r False")
      case False
      with Cons fin r show ?thesis by (simp add: cleaned_skip)
    next
      case True
      obtain b m2 gb where rem: "wm_remove git (wt_task_id info) m ga = (b, m2, gb)" using prod_cases3 by blast
      note table = wm_remove_table [OF rem]
      obtain k m3 gc where rest: "cleanup_loop git infos m2 gb = (k, m3, gc)" using prod_cases3 by blast
      have out: "n = Suc k" "m1 = m3" using Cons.prems table fin r True rem rest by auto
      have "cleaned infos m2 k m1"
      proof (rule Cons.IH)
        show "cleanup_loop git infos m2 gb = (k, m1, g1)" using Cons.prems(1) fin r True rem rest out table by auto
        show "distinct (map wt_task_id infos)" using Cons.prems(2) by simp
        show "wm_worktrees m2 (wt_task_id i) \<noteq> None" if "i \<in> set infos" for i
        proof -
          have "wt_task_id i \<noteq> wt_task_id info" using Cons.prems(2) that by (metis distinct.simps(2) image_eqI list.simps(9) set_map)
          with Cons.prems(3) [of i] that table show ?thesis by simp
        qed
      qed
      with table out fin Cons.prems(2) show ?thesis by (auto intro: cleaned_remove)
    qed
  qed
qed simp

lemma wm_list_keys:
  assumes "iteration_order ks (wm_worktrees m)" and "manager_ok m"
  shows "map wt_task_id (wm_list ks m) = ks"
proof -
  have "\<forall>k \<in> set ks. \<exists>i. wm_worktrees m k = Some i \<and> wt_task_id i = k"
    using assms by (auto simp: iteration_order_def manager_ok_def info_ok_def)
  then show ?thesis unfolding wm_list_def by (induction ks) auto
qed

section \<open>Reachable managers\<close>

inductive manager_step :: "'g git2 \<Rightarrow> worktree_manager \<Rightarrow> worktree_manager \<Rightarrow> bool" for git where
  create: "wm_create git now t title repo m g = (r, m1, g1) \<Longrightarrow> manager_step git m m1"
| remove: "wm_remove git t m g = (b, m1, g1) \<Longrightarrow> manager_step git m m1"
| set_status: "manager_step git m (wm_set_status t s m)"
| merge: "merge_to_main git t m g = (r, m1, g1) \<Longrightarrow> manager_step git m m1"
| cleanup: "iteration_order ks (wm_worktrees m) \<Longrightarrow> cleanup_empty_worktrees git ks m g = (n, m1, g1) \<Longrightarrow> manager_step git m m1"

definition manager_reachable :: "'g git2 \<Rightarrow> string \<Rightarrow> worktree_manager \<Rightarrow> bool" where
  "manager_reachable git data_dir m \<longleftrightarrow> (manager_step git)\<^sup>*\<^sup>* (new_manager data_dir) m"

lemma manager_ok_status: "manager_ok m \<Longrightarrow> manager_ok (wm_set_status t s m)"
  by (auto simp: manager_ok_def info_ok_def split: if_splits)

lemma cleanup_cleaned:
  assumes "manager_ok m" and "iteration_order ks (wm_worktrees m)" and "cleanup_empty_worktrees git ks m g = (n, m1, g1)"
  shows "cleaned (wm_list ks m) m n m1"
proof (rule cleanup_loop_cleaned)
  show "cleanup_loop git (wm_list ks m) m g = (n, m1, g1)" using assms(3) by (simp add: cleanup_empty_worktrees_def)
  show "distinct (map wt_task_id (wm_list ks m))"
    using assms wm_list_keys [of ks m] by (simp add: iteration_order_def)
  have "wt_task_id ` set (wm_list ks m) = dom (wm_worktrees m)"
    using wm_list_keys [OF assms(2,1)] assms(2) unfolding iteration_order_def by (metis set_map)
  then show "wm_worktrees m (wt_task_id i) \<noteq> None" if "i \<in> set (wm_list ks m)" for i using that by blast
qed

lemma manager_ok_cleaned: "manager_ok m \<Longrightarrow> cleaned infos m n m1 \<Longrightarrow> manager_ok m1"
  by (auto simp: manager_ok_def cleaned_def split: if_splits)

lemma manager_ok_step: "manager_step git m m1 \<Longrightarrow> manager_ok m \<Longrightarrow> manager_ok m1"
proof (induction rule: manager_step.induct)
  case (create now t title repo m g r m1 g1)
  show ?case
  proof (cases rule: wm_create_cases [where git = git and now = now and t = t and title = title and repo = repo and m = m and g = g])
    case (failed e g2)
    with create show ?thesis by simp
  next
    case (created info g2)
    then have "info_ok (wm_base m) t info" by (auto simp: info_ok_def)
    with created create show ?thesis by (auto simp: manager_ok_def)
  qed
next
  case (remove t m g b m1 g1)
  then show ?case using wm_remove_table [OF remove(1)] by (auto simp: manager_ok_def)
next
  case (set_status m t s)
  then show ?case by (rule manager_ok_status)
next
  case (merge t m g r m1 g1)
  show ?case
  proof (cases rule: merge_to_main_cases [of git t m g])
    case (failed e g2)
    with merge show ?thesis by simp
  next
    case (merged i g2)
    have "(r, m1, g1) = (Ok (), wm_set_status t WtMerged m, g2)" by (rule trans [OF merge(1) [symmetric] merged(1)])
    then have "m1 = wm_set_status t WtMerged m" by (simp only: prod.inject)
    then show ?thesis by (simp only: manager_ok_status [OF merge(2)])
  qed
next
  case (cleanup ks m g n m1 g1)
  show ?case by (rule manager_ok_cleaned [OF cleanup(3) cleanup_cleaned [OF cleanup(3,1,2)]])
qed

lemma reachable_manager_ok: "manager_reachable git d m \<Longrightarrow> manager_ok m"
  unfolding manager_reachable_def by (induction rule: rtranclp_induct) (auto intro: manager_ok_step)

text \<open>What a round of cleaning up does to the table of a reachable manager.\<close>

lemma cleanup_effect:
  assumes "manager_reachable git data_dir m" and "iteration_order ks (wm_worktrees m)"
    and "cleanup_empty_worktrees git ks m g = (n, m1, g1)"
  shows "\<exists>R. n = card R \<and> R \<subseteq> {t. \<exists>i. wm_worktrees m t = Some i \<and> wt_status i = WtDone} \<and>
    wm_worktrees m1 = (\<lambda>t. if t \<in> R then None else wm_worktrees m t)"
proof -
  have ok: "manager_ok m" by (rule reachable_manager_ok [OF assms(1)])
  have "wt_task_id ` {i \<in> set (wm_list ks m). wt_status i = WtDone} \<subseteq> {t. \<exists>i. wm_worktrees m t = Some i \<and> wt_status i = WtDone}"
    using manager_okD [OF ok] by (fastforce simp: wm_list_def info_ok_def)
  then show ?thesis using cleanup_cleaned [OF ok assms(2,3)] unfolding cleaned_def by blast
qed

section \<open>A sample repository\<close>

text \<open>A repository in which every call succeeds, and a manager with two tasks.\<close>

definition sample_git :: "unit git2" where
  "sample_git =
     \<lparr>g_create_dir_all = \<lambda>_. git_return (), g_remove_dir_all = \<lambda>_. git_return (), g_exists = \<lambda>_ _. True,
      g_open = \<lambda>_. git_return (), g_head = \<lambda>_. git_return (), g_head_commit = \<lambda>_. git_return ''c0'',
      g_branch = \<lambda>_ _ _ g. (BranchCreated, g), g_find_branch = \<lambda>_ _. git_return (), g_add_worktree = \<lambda>_ _ _ _. git_return (),
      g_worktrees = \<lambda>_. git_return [], g_find_worktree = \<lambda>_ _. git_return [], g_prune = \<lambda>_ _. git_return (),
      g_statuses = \<lambda>_. git_return [], g_branch_ref_name = \<lambda>_ b. git_return b, g_find_reference = \<lambda>_ _. git_return (),
      g_annotated_commit = \<lambda>_ _. git_return ''c1'', g_merge_analysis = \<lambda>_ _. git_return (False, True),
      g_set_head_target = \<lambda>_ _ _. git_return (), g_checkout_head = \<lambda>_. git_return (), g_merge = \<lambda>_ _. git_return (),
      g_index = \<lambda>_. git_return (), g_has_conflicts = \<lambda>_ _. False, g_signature = \<lambda>_. git_return ''dev'',
      g_write_tree = \<lambda>_. git_return ''t1'', g_find_tree = \<lambda>_ _. git_return (), g_find_commit = \<lambda>_ _. git_return (),
      g_commit = \<lambda>_ _ _ _ _. git_return ''c2'', g_cleanup_state = \<lambda>_. git_return (), g_commit_tree = \<lambda>_ _. git_return ''t0'',
      g_parents = \<lambda>_ _ _. 1, g_parent = \<lambda>_ _. git_return ''c0'', g_diff_trees = \<lambda>_ _ _. git_return ''d'',
      g_print_diff = \<lambda>_ _. git_return [], g_head_tree = \<lambda>_. git_return ''t0'', g_diff_workdir = \<lambda>_ _. git_return ''d'',
      g_diff_stats = \<lambda>_ _. git_return (0, 0, 0), g_add_all = \<lambda>_. git_return (), g_write_index = \<lambda>_. git_return ()\<rparr>"

lemmas git_simps = git_return_def git_fail_def git_bind_def with_context_def git_try_def git_prefix_def git_ok_def

lemma sample_dir: "g_create_dir_all sample_git p g = (Ok (), g)"
  by (simp add: sample_git_def git_simps)

lemma sample_create:
  "create_worktree_blocking sample_git repo branch path g = (Ok (), g)"
  by (simp add: create_worktree_blocking_def sample_git_def git_simps)

lemma sample_merge: "merge_branch_to_main sample_git repo branch t g = (Ok (), g)"
  by (simp add: merge_branch_to_main_def sample_git_def git_simps)

definition sample_info :: "string \<Rightarrow> worktree_status \<Rightarrow> worktree_info" where
  "sample_info t s =
     \<lparr>wt_task_id = t, wt_path = ''/d/.claw/worktrees/'' @ t, wt_branch = ''claw/'' @ t @ ''-fix'', wt_repo_path = ''/repo'',
      wt_created_at = 0, wt_status = s\<rparr>"

definition sample_manager :: "worktree_status \<Rightarrow> worktree_manager" where
  "sample_manager s =
     \<lparr>wm_worktrees = [''T1'' \<mapsto> sample_info ''T1'' s, ''T2'' \<mapsto> sample_info ''T2'' WtActive], wm_base = ''/d/.claw/worktrees''\<rparr>"

lemma sample_slug: "make_slug ''Fix'' = ''fix''"
  by code_simp

lemma sample_base [simp]: "wm_base (new_manager ''/d'') = ''/d/.claw/worktrees''" "wm_worktrees (new_manager ''/d'') = Map.empty"
  by (simp_all add: new_manager_def path_join_def starts_with_def ends_with_def suffix_def)

lemma sample_reachable: "manager_reachable sample_git ''/d'' (sample_manager s)"
proof -
  let ?m0 = "new_manager ''/d''"
  let ?m1 = "?m0\<lparr>wm_worktrees := [''T1'' \<mapsto> sample_info ''T1'' WtActive]\<rparr>"
  let ?m2 = "?m0\<lparr>wm_worktrees := [''T1'' \<mapsto> sample_info ''T1'' WtActive, ''T2'' \<mapsto> sample_info ''T2'' WtActive]\<rparr>"
  have c: "wm_create sample_git 0 t ''Fix'' ''/repo'' m () =
      (Ok (sample_info t WtActive), m\<lparr>wm_worktrees := (wm_worktrees m)(t \<mapsto> sample_info t WtActive)\<rparr>, ())"
    if "\<not> starts_with t ''/''" "wm_base m = ''/d/.claw/worktrees''" for t m
    using that
    by (simp add: wm_create_def git_simps sample_dir sample_create sample_info_def worktree_branch_def sample_slug
        path_join_def ends_with_def suffix_def)
  have s1: "manager_step sample_git ?m0 ?m1"
    by (rule manager_step.create [where r = "Ok (sample_info ''T1'' WtActive)" and now = 0 and t = "''T1''" and title = "''Fix''"
        and repo = "''/repo''" and g = "()" and ?g1.0 = "()"]) (simp add: c starts_with_def)
  have s2: "manager_step sample_git ?m1 ?m2"
    by (rule manager_step.create [where r = "Ok (sample_info ''T2'' WtActive)" and now = 0 and t = "''T2''" and title = "''Fix''"
        and repo = "''/repo''" and g = "()" and ?g1.0 = "()"]) (simp add: c starts_with_def)
  have s3: "manager_step sample_git ?m2 (wm_set_status ''T1'' s ?m2)" by (rule manager_step.set_status)
  have eq: "wm_set_status ''T1'' s ?m2 = sample_manager s"
    by (simp add: wm_set_status_def sample_manager_def sample_info_def new_manager_def path_join_def starts_with_def
        ends_with_def suffix_def fun_upd_twist)
  have "(manager_step sample_git)\<^sup>*\<^sup>* ?m0 (wm_set_status ''T1'' s ?m2)"
    using s1 s2 s3 by (rule rtranclp.rtrancl_into_rtrancl [OF rtranclp.rtrancl_into_rtrancl [OF r_into_rtranclp]])
  then show ?thesis by (simp only: manager_reachable_def eq)
qed

lemma sample_order: "iteration_order [''T1'', ''T2''] (wm_worktrees (sample_manager s))"
  by (auto simp: iteration_order_def sample_manager_def)

section \<open>Properties\<close>

text \<open>The components of a path after its parent references are followed.\<close>

definition resolved :: "string \<Rightarrow> string list" where
  "resolved p = rev (fold (\<lambda>c acc. if c = ''..'' then tl acc else c # acc) (components p) [])"

lemma resolved_plain: "''..'' \<notin> set (components p) \<Longrightarrow> resolved p = components p"
proof -
  have "fold (\<lambda>c acc. if c = ''..'' then tl acc else c # acc) cs acc = rev cs @ acc" if "''..'' \<notin> set cs" for cs acc
    using that by (induction cs arbitrary: acc) auto
  then show "''..'' \<notin> set (components p) \<Longrightarrow> ?thesis" by (simp add: resolved_def)
qed

text \<open>C9: In every reachable manager the worktrees of two tasks with plain names are apart: a write path without parent
  references that is accepted for one task lies in the worktree of that task and not in that of the other, also after
  both paths are resolved. The hypothesis on parent references is needed: the code compares components as they are
  written, see \<open>write_paths_accept_parent_escape\<close>.\<close>

theorem worktrees_isolated:
  assumes "manager_reachable git data_dir m" and "plain_name t" and "plain_name u" and "t \<noteq> u"
    and "validate_write_paths m t paths = Ok ()" and "wm_get m t = Some i" and "wm_get m u = Some j" and "p \<in> set paths"
    and "''..'' \<notin> set (components p)" and "u \<noteq> ''..''"
  shows "prefix (resolved (wt_path i)) (resolved p) \<and> \<not> prefix (resolved (wt_path j)) (resolved p)"
proof -
  have below: "path_starts_with p (wt_path i)"
    using assms(5,6,8) by (auto simp: validate_write_paths_def find_None_iff split: option.splits)
  have paths: "wt_path i = path_join (wm_base m) t" "wt_path j = path_join (wm_base m) u"
    using manager_okD [OF reachable_manager_ok [OF assms(1)]] assms(6,7) by (auto simp: wm_get_def info_ok_def)
  have apart: "\<not> path_starts_with p (wt_path j)"
    using below paths assms(2-4) joined.below_unique [of t u p "wm_base m"] by auto
  have i: "''..'' \<notin> set (components (wt_path i))"
    using below assms(9) set_mono_prefix by (fastforce simp: path_starts_with_def)
  then have "''..'' \<notin> set (components (wt_path j))"
    using assms(2,3,10) unfolding paths by (auto simp: components_path_join plain_name_def)
  with i assms(9) below apart show ?thesis by (simp add: resolved_plain path_starts_with_def)
qed

theorem worktrees_isolated_witness:
  "\<not> prefix (resolved (wt_path (sample_info ''T2'' WtActive))) (resolved ''/d/.claw/worktrees/T1/a'')"
proof -
  have "validate_write_paths (sample_manager WtActive) ''T1'' [''/d/.claw/worktrees/T1/a''] = Ok ()"
    by (simp add: validate_write_paths_def wm_get_def sample_manager_def sample_info_def path_starts_with_def
        components_def starts_with_def)
  from worktrees_isolated [OF sample_reachable [of WtActive] _ _ _ this, of "''T2''" "sample_info ''T1'' WtActive" "sample_info ''T2'' WtActive"
      "''/d/.claw/worktrees/T1/a''"]
  show ?thesis by (simp add: plain_name_def wm_get_def sample_manager_def components_def starts_with_def)
qed

text \<open>In every reachable manager whose tasks have plain names, the owner of a path is the one active worktree
  the path lies in, in whatever order the table is searched.\<close>

theorem is_in_worktree_owner:
  assumes "manager_reachable git data_dir m" and "iteration_order ks (wm_worktrees m)" and "list_all plain_name ks"
  shows "is_in_worktree ks m p = Some t \<longleftrightarrow>
    (\<exists>i. wm_get m t = Some i \<and> wt_status i = WtActive \<and> path_starts_with p (wt_path i))"
proof -
  let ?owns = "\<lambda>k. case wm_worktrees m k of
      Some info \<Rightarrow> wt_status info = WtActive \<and> path_starts_with p (wt_path info) | None \<Rightarrow> False"
  have owns: "?owns k \<longleftrightarrow> (\<exists>i. wm_worktrees m k = Some i \<and> wt_status i = WtActive \<and> path_starts_with p (wt_path i))" for k
    by (cases "wm_worktrees m k") auto
  have ok: "manager_ok m" by (rule reachable_manager_ok [OF assms(1)])
  have unique: "k = l" if own: "?owns k" "?owns l" for k l
  proof -
    obtain i j where ij: "wm_worktrees m k = Some i" "wm_worktrees m l = Some j"
      "path_starts_with p (wt_path i)" "path_starts_with p (wt_path j)"
      using own unfolding owns by blast
    then have "plain_name k" "plain_name l" using assms(2,3) by (auto simp: iteration_order_def list_all_iff)
    with ij manager_okD [OF ok] show ?thesis
      using joined.below_unique [of k l p "wm_base m"] by (metis info_ok_def)
  qed
  have "find ?owns ks = Some t \<longleftrightarrow> ?owns t"
  proof
    assume "?owns t"
    moreover from this have "t \<in> set ks" using assms(2) by (auto simp: iteration_order_def split: option.splits)
    ultimately have "find ?owns ks \<noteq> None" by (auto simp: find_None_iff)
    then obtain k where "find ?owns ks = Some k" by auto
    moreover from this have "?owns k" by (auto simp: find_Some_iff)
    ultimately show "find ?owns ks = Some t" using unique \<open>?owns t\<close> by blast
  qed (auto simp: find_Some_iff)
  then show ?thesis unfolding is_in_worktree_def wm_get_def owns [symmetric] .
qed

theorem is_in_worktree_owner_witness:
  "is_in_worktree [''T1'', ''T2''] (sample_manager WtActive) ''/d/.claw/worktrees/T2/a'' = Some ''T2''"
proof -
  have "is_in_worktree [''T1'', ''T2''] (sample_manager WtActive) ''/d/.claw/worktrees/T2/a'' = Some ''T2'' \<longleftrightarrow>
      (\<exists>i. wm_get (sample_manager WtActive) ''T2'' = Some i \<and> wt_status i = WtActive \<and>
         path_starts_with ''/d/.claw/worktrees/T2/a'' (wt_path i))"
    by (rule is_in_worktree_owner [OF sample_reachable sample_order]) (simp add: plain_name_def)
  then show ?thesis
    by (simp add: wm_get_def sample_manager_def sample_info_def path_starts_with_def components_def starts_with_def)
qed

text \<open>The check of write paths compares components and keeps parent references: a path that starts in the
  worktree and climbs out of it is accepted.\<close>

theorem write_paths_accept_parent_escape:
  assumes "wm_get m t = Some i"
  shows "validate_write_paths m t [wt_path i @ ''/../'' @ rest] = Ok ()"
proof -
  have "prefix (components (wt_path i)) (components (wt_path i @ CHR ''/'' # ''../'' @ rest))" by (rule components_prefix)
  with assms show ?thesis by (simp add: validate_write_paths_def path_starts_with_def)
qed

theorem write_paths_accept_parent_escape_witness:
  "validate_write_paths (sample_manager WtActive) ''T1'' [''/d/.claw/worktrees/T1/../../../repo/a''] = Ok ()"
  using write_paths_accept_parent_escape [of "sample_manager WtActive" "''T1''" "sample_info ''T1'' WtActive" "''../../repo/a''"]
  by (simp add: wm_get_def sample_manager_def sample_info_def)

text \<open>Cleaning up removes entries of done worktrees only and reports how many: every other entry, and every
  entry of a worktree in another state, stays as it is.\<close>

theorem cleanup_removes_only_done:
  assumes "manager_reachable git data_dir m" and "iteration_order ks (wm_worktrees m)"
    and "cleanup_empty_worktrees git ks m g = (n, m1, g1)"
  shows "n = card (dom (wm_worktrees m) - dom (wm_worktrees m1)) \<and>
    (\<forall>t i. wm_get m t = Some i \<and> wt_status i \<noteq> WtDone \<longrightarrow> wm_get m1 t = Some i) \<and>
    (\<forall>t i. wm_get m1 t = Some i \<longrightarrow> wm_get m t = Some i)"
proof -
  obtain R where R: "n = card R" "R \<subseteq> {t. \<exists>i. wm_worktrees m t = Some i \<and> wt_status i = WtDone}"
    "wm_worktrees m1 = (\<lambda>t. if t \<in> R then None else wm_worktrees m t)"
    using cleanup_effect [OF assms] by blast
  then have "dom (wm_worktrees m) - dom (wm_worktrees m1) = R" by (auto split: if_splits)
  then have "n = card (dom (wm_worktrees m) - dom (wm_worktrees m1))" using R(1) by simp
  moreover have "wm_get m1 t = Some i" if "wm_get m t = Some i" "wt_status i \<noteq> WtDone" for t i
    using that R(2,3) by (auto simp: wm_get_def)
  moreover have "wm_get m t = Some i" if "wm_get m1 t = Some i" for t i
    using that R(3) by (auto simp: wm_get_def split: if_splits)
  ultimately show ?thesis by blast
qed

theorem cleanup_removes_only_done_witness:
  "\<exists>m1. cleanup_empty_worktrees sample_git [''T1'', ''T2''] (sample_manager WtDone) () = (1, m1, ()) \<and>
     wm_get m1 ''T1'' = None \<and> wm_get m1 ''T2'' = Some (sample_info ''T2'' WtActive)"
proof -
  let ?m = "sample_manager WtDone"
  obtain n m1 where run: "cleanup_empty_worktrees sample_git [''T1'', ''T2''] ?m () = (n, m1, ())"
    by (metis (full_types) old.unit.exhaust prod_cases3)
  have "wm_get m1 ''T1'' = None"
    using run by (simp add: cleanup_empty_worktrees_def wm_list_def sample_manager_def sample_info_def worktree_is_clean_def
        wm_remove_def wm_get_def sample_git_def git_simps remove_worktree_blocking_def List.map_filter_simps split: prod.splits)
      auto
  moreover have "n = card (dom (wm_worktrees ?m) - dom (wm_worktrees m1))"
    and keep: "wm_get m1 ''T2'' = Some (sample_info ''T2'' WtActive)"
    using cleanup_removes_only_done [OF sample_reachable sample_order run]
    by (auto simp: wm_get_def sample_manager_def sample_info_def)
  moreover have "dom (wm_worktrees ?m) = {''T1'', ''T2''}" by (auto simp: sample_manager_def)
  ultimately have "dom (wm_worktrees ?m) - dom (wm_worktrees m1) = {''T1''}" "n = card (dom (wm_worktrees ?m) - dom (wm_worktrees m1))"
    by (auto simp: wm_get_def)
  with run keep \<open>wm_get m1 ''T1'' = None\<close> show ?thesis by simp
qed

end
