(* ===== verification/Worktree_Rpc.thy ===== *)
theory Worktree_Rpc
  imports Worktrees_Props Task_Tools
begin

text \<open>
  The stored worktree records (the worktree methods of \<^verbatim>\<open>storage/mod.rs\<close>, table of
  \<^verbatim>\<open>014_worktrees.sql\<close>) and the handlers of \<^verbatim>\<open>ipc/handlers/worktrees.rs\<close>. The context of a handler is the
  daemon of the task tools together with the worktree manager, the stored rows, the repository and the queue files
  written for other programs. Times are the values of the clock at the call.
\<close>

section \<open>Stored worktrees\<close>

record worktree_row =
  wr_task_id :: string
  wr_worktree_path :: string
  wr_branch :: string
  wr_repo_path :: string
  wr_status :: string
  wr_created_at :: timestamp
  wr_updated_at :: timestamp

definition get_worktree :: "string \<Rightarrow> worktree_row list \<Rightarrow> worktree_row option" where
  "get_worktree task_id rows = select_by wr_task_id rows task_id"

definition create_worktree ::
  "timestamp \<Rightarrow> string \<Rightarrow> string \<Rightarrow> string \<Rightarrow> string \<Rightarrow> worktree_row list \<Rightarrow> (worktree_row, task_error) result \<times> worktree_row list" where
  "create_worktree now task_id worktree_path branch repo_path rows =
     (case insert_row wr_task_id (\<lambda>_. None) (\<lambda>_. True) ''worktrees''
         \<lparr>wr_task_id = task_id, wr_worktree_path = worktree_path, wr_branch = branch, wr_repo_path = repo_path,
          wr_status = ''active'', wr_created_at = now, wr_updated_at = now\<rparr> rows of
        Err e \<Rightarrow> (Err (Db e), rows)
      | Ok rows1 \<Rightarrow>
          (case get_worktree task_id rows1 of
             None \<Rightarrow> (Err (TaskMessage ''worktree not found after insert''), rows1)
           | Some row \<Rightarrow> (Ok row, rows1)))"

definition list_worktrees :: "string option \<Rightarrow> worktree_row list \<Rightarrow> worktree_row list" where
  "list_worktrees status_filter rows =
     sort_key (\<lambda>r. - wr_created_at r)
       (case status_filter of Some status \<Rightarrow> filter (\<lambda>r. wr_status r = status) rows | None \<Rightarrow> rows)"

definition set_worktree_status :: "timestamp \<Rightarrow> string \<Rightarrow> string \<Rightarrow> worktree_row list \<Rightarrow> worktree_row list" where
  "set_worktree_status now task_id status rows =
     set_where (\<lambda>r. wr_task_id r = task_id) (\<lambda>r. r\<lparr>wr_status := status, wr_updated_at := now\<rparr>) rows"

definition delete_worktree :: "string \<Rightarrow> worktree_row list \<Rightarrow> worktree_row list" where
  "delete_worktree task_id rows = delete_where (\<lambda>r. wr_task_id r = task_id) rows"

definition load_worktrees :: "worktree_row list \<Rightarrow> worktree_row list" where
  "load_worktrees rows = sort_key wr_created_at (filter (\<lambda>r. wr_status r \<notin> {''abandoned'', ''merged''}) rows)"

section \<open>The context of the handlers\<close>

record 'g app =
  ap_daemon :: daemon
  ap_manager :: worktree_manager
  ap_rows :: "worktree_row list"
  ap_git :: 'g
  ap_queues :: "string \<rightharpoonup> json"

text \<open>A new process: the manager starts empty, the tables and the repository stay.\<close>

definition restart :: "string \<Rightarrow> 'g app \<Rightarrow> 'g app" where
  "restart data_dir a = a\<lparr>ap_manager := new_manager data_dir\<rparr>"

definition missing :: "string \<Rightarrow> string" where
  "missing field = ''missing field: '' @ field"

definition no_worktree :: "string \<Rightarrow> string" where
  "no_worktree task_id = ''REPO_NOT_FOUND: no worktree for task '' @ quoted task_id"

definition emit :: "string \<Rightarrow> json \<Rightarrow> 'g app \<Rightarrow> 'g app" where
  "emit name payload a = a\<lparr>ap_daemon := broadcast name payload (ap_daemon a)\<rparr>"

text \<open>A required string parameter; a required parameter naming a tracked worktree.\<close>

definition req :: "json \<Rightarrow> string \<Rightarrow> string \<Rightarrow> 'w \<Rightarrow> (string \<Rightarrow> ('r, string) result \<times> 'w) \<Rightarrow> ('r, string) result \<times> 'w" where
  "req params field message w k = (case get_str params field of Some s \<Rightarrow> k s | None \<Rightarrow> (Err message, w))"

definition on_worktree ::
  "json \<Rightarrow> 'g app \<Rightarrow> (string \<Rightarrow> worktree_info \<Rightarrow> (json, string) result \<times> 'g app) \<Rightarrow> (json, string) result \<times> 'g app" where
  "on_worktree params a k =
     req params ''task_id'' (missing ''task_id'') a (\<lambda>task_id.
       case wm_get (ap_manager a) task_id of None \<Rightarrow> (Err (no_worktree task_id), a) | Some info \<Rightarrow> k task_id info)"

definition show_worktree_status :: "worktree_status \<Rightarrow> string" where
  "show_worktree_status s =
     (case s of WtActive \<Rightarrow> ''active'' | WtDone \<Rightarrow> ''done'' | WtAbandoned \<Rightarrow> ''abandoned'' | WtMerged \<Rightarrow> ''merged'')"

definition worktree_json :: "worktree_info \<Rightarrow> json" where
  "worktree_json i =
     JObject [(''task_id'', JString (wt_task_id i)), (''worktree_path'', JString (wt_path i)), (''branch'', JString (wt_branch i)),
       (''repo_path'', JString (wt_repo_path i)), (''status'', JString (show_worktree_status (wt_status i))),
       (''created_at'', JNumber (show_int (wt_created_at i)))]"

section \<open>Handlers\<close>

definition worktrees_create :: "'g git2 \<Rightarrow> tool_env \<Rightarrow> json \<Rightarrow> 'g app \<Rightarrow> (json, string) result \<times> 'g app" where
  "worktrees_create git env params a =
     req params ''task_id'' (missing ''task_id'') a (\<lambda>task_id.
       let task_title = or_default (get_str params ''task_title'') task_id in
       req params ''repo_path'' (missing ''repo_path'') a (\<lambda>repo_path.
         if \<not> g_exists git repo_path (ap_git a) then (Err (''REPO_NOT_FOUND: repo_path does not exist: '' @ repo_path), a)
         else if wm_get (ap_manager a) task_id \<noteq> None then (Err (''worktree already exists for task '' @ quoted task_id), a)
         else case wm_create git (te_now env) task_id task_title repo_path (ap_manager a) (ap_git a) of
             (Err e, m, g) \<Rightarrow> (Err e, a\<lparr>ap_manager := m, ap_git := g\<rparr>)
           | (Ok info, m, g) \<Rightarrow>
               (case create_worktree (te_now env) task_id (wt_path info) (wt_branch info) repo_path (ap_rows a) of
                  (Err e, rows) \<Rightarrow> (Err (show_task_error env e), a\<lparr>ap_manager := m, ap_git := g, ap_rows := rows\<rparr>)
                | (Ok _, rows) \<Rightarrow>
                    (Ok (worktree_json info),
                     emit ''worktree.created'' (JObject [(''taskId'', JString task_id), (''worktreePath'', JString (wt_path info)),
                        (''branch'', JString (wt_branch info))]) (a\<lparr>ap_manager := m, ap_git := g, ap_rows := rows\<rparr>)))))"

definition worktrees_list :: "string list \<Rightarrow> 'g app \<Rightarrow> json" where
  "worktrees_list ks a = JObject [(''worktrees'', JArray (map worktree_json (wm_list ks (ap_manager a))))]"

text \<open>The printed diff: added, removed and context lines keep their marker.\<close>

definition marked_patch :: "(char \<times> string option) list \<Rightarrow> string" where
  "marked_patch ls = concat (map (\<lambda>(origin, content). case content of
      None \<Rightarrow> [] | Some s \<Rightarrow> if origin \<in> {CHR ''+'', CHR ''-'', CHR 0x20} then origin # s else s) ls)"

definition worktree_diff :: "'g git2 \<Rightarrow> string \<Rightarrow> ('g, string \<times> nat \<times> nat \<times> nat) git_call" where
  "worktree_diff git path =
     git_prefix ''failed to open worktree'' (g_open git path) (\<lambda>_.
     git_ok (g_head_tree git path) (\<lambda>head_tree.
     git_prefix (if head_tree = None then ''diff (no HEAD) failed'' else ''diff failed'') (g_diff_workdir git path head_tree) (\<lambda>diff.
     git_prefix ''diff stats failed'' (g_diff_stats git path diff) (\<lambda>stats.
     git_prefix ''diff format failed'' (g_print_diff git path diff) (\<lambda>ls.
     git_return (marked_patch ls, stats))))))"

definition worktrees_diff :: "'g git2 \<Rightarrow> json \<Rightarrow> 'g app \<Rightarrow> (json, string) result \<times> 'g app" where
  "worktrees_diff git params a = on_worktree params a (\<lambda>task_id info.
     case worktree_diff git (wt_path info) (ap_git a) of
       (Err e, g) \<Rightarrow> (Err e, a\<lparr>ap_git := g\<rparr>)
     | (Ok (patch, files_changed, insertions, deletions), g) \<Rightarrow>
         (Ok (JObject [(''task_id'', JString task_id), (''diff'', JString patch),
            (''stats'', JObject [(''files_changed'', JNumber (show_nat files_changed)), (''insertions'', JNumber (show_nat insertions)),
               (''deletions'', JNumber (show_nat deletions))])]), a\<lparr>ap_git := g\<rparr>))"

definition commit_all :: "'g git2 \<Rightarrow> string \<Rightarrow> string \<Rightarrow> ('g, string) git_call" where
  "commit_all git path message =
     git_prefix ''failed to open worktree'' (g_open git path) (\<lambda>_.
     git_prefix ''failed to get index'' (g_index git path) (\<lambda>_.
     git_prefix ''failed to stage files'' (g_add_all git path) (\<lambda>_.
     git_prefix ''failed to write index'' (g_write_index git path) (\<lambda>_.
     git_prefix ''failed to write tree'' (g_write_tree git path) (\<lambda>tree.
     git_prefix ''failed to find tree'' (g_find_tree git path tree) (\<lambda>_.
     git_prefix ''failed to get signature'' (g_signature git path) (\<lambda>sig.
     git_ok (git_bind (g_head git path) (\<lambda>_. g_head_commit git path)) (\<lambda>head.
     git_prefix ''commit failed'' (g_commit git path sig message tree (case head of Some c \<Rightarrow> [c] | None \<Rightarrow> []))
       git_return))))))))"

definition worktrees_commit :: "'g git2 \<Rightarrow> json \<Rightarrow> 'g app \<Rightarrow> (json, string) result \<times> 'g app" where
  "worktrees_commit git params a = on_worktree params a (\<lambda>task_id info.
     case commit_all git (wt_path info) (or_default (get_str params ''message'') ''task commit'') (ap_git a) of
       (Err e, g) \<Rightarrow> (Err e, a\<lparr>ap_git := g\<rparr>)
     | (Ok sha, g) \<Rightarrow> (Ok (JObject [(''task_id'', JString task_id), (''sha'', JString sha)]), a\<lparr>ap_git := g\<rparr>))"

definition worktrees_accept :: "'g git2 \<Rightarrow> tool_env \<Rightarrow> json \<Rightarrow> 'g app \<Rightarrow> (json, string) result \<times> 'g app" where
  "worktrees_accept git env params a = on_worktree params a (\<lambda>task_id info.
     case merge_to_main git task_id (wm_set_status task_id WtDone (ap_manager a)) (ap_git a) of
       (Ok _, m, g) \<Rightarrow>
         (Ok (JObject [(''task_id'', JString task_id), (''merged'', JBool True)]),
          emit ''worktree.accepted'' (JObject [(''taskId'', JString task_id), (''branch'', JString (wt_branch info))])
            (a\<lparr>ap_manager := m, ap_git := g, ap_rows := set_worktree_status (te_now env) task_id ''merged'' (ap_rows a)\<rparr>))
     | (Err e, m, g) \<Rightarrow>
         (Err (''MERGE_CONFLICT: '' @ e), a\<lparr>ap_manager := wm_set_status task_id WtActive m, ap_git := g\<rparr>))"

definition worktrees_reject :: "'g git2 \<Rightarrow> tool_env \<Rightarrow> json \<Rightarrow> 'g app \<Rightarrow> (json, string) result \<times> 'g app" where
  "worktrees_reject git env params a = on_worktree params a (\<lambda>task_id info.
     case wm_remove git task_id (ap_manager a) (ap_git a) of
       (_, m, g) \<Rightarrow>
         (Ok (JObject [(''task_id'', JString task_id), (''deleted'', JBool True)]),
          emit ''worktree.rejected'' (JObject [(''taskId'', JString task_id), (''branch'', JString (wt_branch info))])
            (a\<lparr>ap_manager := m, ap_git := g, ap_rows := set_worktree_status (te_now env) task_id ''abandoned'' (ap_rows a)\<rparr>)))"

definition worktrees_delete :: "'g git2 \<Rightarrow> json \<Rightarrow> 'g app \<Rightarrow> (json, string) result \<times> 'g app" where
  "worktrees_delete git params a =
     req params ''task_id'' (missing ''task_id'') a (\<lambda>task_id.
       case wm_remove git task_id (ap_manager a) (ap_git a) of
         (_, m, g) \<Rightarrow>
           (Ok (JObject [(''task_id'', JString task_id), (''deleted'', JBool True)]),
            a\<lparr>ap_manager := m, ap_git := g, ap_rows := delete_worktree task_id (ap_rows a)\<rparr>))"

definition worktrees_merge :: "'g git2 \<Rightarrow> json \<Rightarrow> 'g app \<Rightarrow> (json, string) result \<times> 'g app" where
  "worktrees_merge git params a =
     req params ''task_id'' (missing ''task_id'') a (\<lambda>task_id.
       case merge_to_main git task_id (ap_manager a) (ap_git a) of
         (Err e, m, g) \<Rightarrow> (Err e, a\<lparr>ap_manager := m, ap_git := g\<rparr>)
       | (Ok _, m, g) \<Rightarrow> (Ok (JObject [(''merged'', JBool True), (''task_id'', JString task_id)]), a\<lparr>ap_manager := m, ap_git := g\<rparr>))"

definition worktrees_cleanup :: "'g git2 \<Rightarrow> string list \<Rightarrow> 'g app \<Rightarrow> json \<times> 'g app" where
  "worktrees_cleanup git ks a =
     (case cleanup_empty_worktrees git ks (ap_manager a) (ap_git a) of
        (n, m, g) \<Rightarrow> (JObject [(''removed'', JNumber (show_nat n))], a\<lparr>ap_manager := m, ap_git := g\<rparr>))"

section \<open>Lemmas\<close>

lemma on_worktree_tracked:
  "get_str params ''task_id'' = Some t \<Longrightarrow> wm_get (ap_manager a) t = Some i \<Longrightarrow> on_worktree params a k = k t i"
  by (simp add: on_worktree_def req_def)

lemma accept_tracked:
  assumes "get_str params ''task_id'' = Some t" and "wm_get (ap_manager a) t = Some i"
    and merge: "merge_branch_to_main git (wt_repo_path i) (wt_branch i) t (ap_git a) = (r, g)"
  shows "worktrees_accept git env params a =
    (case r of
       Ok _ \<Rightarrow>
         (Ok (JObject [(''task_id'', JString t), (''merged'', JBool True)]),
          emit ''worktree.accepted'' (JObject [(''taskId'', JString t), (''branch'', JString (wt_branch i))])
            (a\<lparr>ap_manager := wm_set_status t WtMerged (wm_set_status t WtDone (ap_manager a)), ap_git := g,
               ap_rows := set_worktree_status (te_now env) t ''merged'' (ap_rows a)\<rparr>))
     | Err e \<Rightarrow>
         (Err (''MERGE_CONFLICT: '' @ e),
          a\<lparr>ap_manager := wm_set_status t WtActive (wm_set_status t WtDone (ap_manager a)), ap_git := g\<rparr>))"
proof -
  have "wm_get (wm_set_status t WtDone (ap_manager a)) t = Some (i\<lparr>wt_status := WtDone\<rparr>)"
    using assms(2) by (simp add: wm_get_def)
  with merge have "merge_to_main git t (wm_set_status t WtDone (ap_manager a)) (ap_git a) =
      (case r of Ok _ \<Rightarrow> (Ok (), wm_set_status t WtMerged (wm_set_status t WtDone (ap_manager a)), g)
        | Err e \<Rightarrow> (Err e, wm_set_status t WtDone (ap_manager a), g))"
    by (cases r) (simp_all add: merge_to_main_def)
  then show ?thesis
    unfolding worktrees_accept_def on_worktree_tracked [OF assms(1,2)] by (cases r) simp_all
qed

lemma create_worktree_Ok:
  "create_worktree now t p b repo rows = (Ok row, rows1) \<Longrightarrow> t \<in> wr_task_id ` set rows1"
  by (auto simp: create_worktree_def insert_row_Ok get_worktree_def split: option.splits result.splits dest!: select_by_Some)

lemma create_worktree_taken: "t \<in> wr_task_id ` set rows \<Longrightarrow> create_worktree now t p b repo rows = (Err (Db (UniqueFailed ''worktrees'')), rows)"
  by (simp add: create_worktree_def insert_row_def)

lemma worktrees_create_Ok:
  assumes "worktrees_create git env params a = (Ok v, a1)" and "get_str params ''task_id'' = Some t"
  shows "t \<in> wr_task_id ` set (ap_rows a1)"
  using assms
  by (auto simp: worktrees_create_def req_def emit_def split: option.splits if_splits prod.splits result.splits
      dest: create_worktree_Ok)

section \<open>A sample daemon\<close>

definition quiet_env :: tool_env where
  "quiet_env =
     \<lparr>te_now = 0, te_uuid = ''u'', te_log_id = ''l'', te_path_exists = (\<lambda>_. True), te_to_string = (\<lambda>_. []),
      te_db_message = (\<lambda>_. ''database error''), te_parse_patch = Ok, te_delta_files = (\<lambda>_. Ok []), te_worktree = (\<lambda>_. None), te_open_repo = (\<lambda>_. Ok ()),
      te_git_apply = (\<lambda>_ _. Ok ())\<rparr>"

definition sample_app :: "worktree_status \<Rightarrow> unit app" where
  "sample_app s = \<lparr>ap_daemon = empty_daemon, ap_manager = sample_manager s, ap_rows = [], ap_git = (), ap_queues = Map.empty\<rparr>"

abbreviation task_params :: "string \<Rightarrow> json" where
  "task_params t \<equiv> JObject [(''task_id'', JString t), (''repo_path'', JString ''/repo'')]"

lemma sample_accept:
  "\<exists>v a1. worktrees_accept sample_git quiet_env (task_params ''T1'') (sample_app s) = (Ok v, a1) \<and>
     ap_manager a1 = sample_manager WtMerged"
proof -
  have "wm_get (ap_manager (sample_app s)) ''T1'' = Some (sample_info ''T1'' s)"
    by (simp add: sample_app_def wm_get_def sample_manager_def)
  from accept_tracked [OF _ this sample_merge, of "task_params ''T1''" quiet_env] show ?thesis
    by (simp add: get_str_def emit_def sample_app_def wm_set_status_def sample_manager_def sample_info_def fun_upd_twist)
qed

section \<open>Properties\<close>

text \<open>Accepting a tracked worktree merges its branch: if the merge succeeds the worktree is marked merged, in
  memory and in the table; if it fails the call reports a conflict and the worktree becomes active, whatever its
  state was before, and the table keeps its row. Other worktrees are not touched.\<close>

theorem worktrees_accept_outcome:
  assumes "get_str params ''task_id'' = Some t" and "wm_get (ap_manager a) t = Some i"
    and "worktrees_accept git env params a = (r, a1)"
  shows "is_ok r = is_ok (fst (merge_branch_to_main git (wt_repo_path i) (wt_branch i) t (ap_git a))) \<and>
    wm_get (ap_manager a1) t = Some (i\<lparr>wt_status := if is_ok r then WtMerged else WtActive\<rparr>) \<and>
    ap_rows a1 = (if is_ok r then set_worktree_status (te_now env) t ''merged'' (ap_rows a) else ap_rows a) \<and>
    (\<forall>u. u \<noteq> t \<longrightarrow> wm_get (ap_manager a1) u = wm_get (ap_manager a) u)"
proof -
  obtain s g where merge: "merge_branch_to_main git (wt_repo_path i) (wt_branch i) t (ap_git a) = (s, g)" by fastforce
  note accept = accept_tracked [OF assms(1,2) merge, of env]
  show ?thesis
  proof (cases s)
    case (Ok u)
    with accept assms merge show ?thesis by (auto simp: emit_def wm_get_def)
  next
    case (Err e)
    with accept assms merge show ?thesis by (auto simp: wm_get_def)
  qed
qed

theorem worktrees_accept_outcome_witness:
  "wm_get (ap_manager (snd (worktrees_accept sample_git quiet_env (task_params ''T1'') (sample_app WtDone)))) ''T2'' =
     wm_get (sample_manager WtDone) ''T2''"
  using worktrees_accept_outcome [of "task_params ''T1''" "''T1''" "sample_app WtDone" "sample_info ''T1'' WtDone" sample_git quiet_env]
  by (simp add: get_str_def sample_app_def wm_get_def sample_manager_def prod_eq_iff)

text \<open>An accepted worktree is never cleaned up: its entry stays in the table of worktrees, in state merged, after
  any round of cleaning, and no health report names it.\<close>

theorem accepted_worktree_never_cleaned:
  assumes "get_str params ''task_id'' = Some t" and "manager_reachable git data_dir (ap_manager a)"
    and "worktrees_accept git env params a = (Ok v, a1)"
    and "iteration_order ks (wm_worktrees (ap_manager a1))" and "worktrees_cleanup git ks a1 = (n, a2)"
  shows "\<exists>i. wm_get (ap_manager a2) t = Some i \<and> wt_status i = WtMerged \<and>
    t \<notin> set (wh_orphaned (check_health git g now ks (ap_manager a1))) \<and>
    t \<notin> set (wh_stale (check_health git g now ks (ap_manager a1)))"
proof -
  obtain i where i: "wm_get (ap_manager a) t = Some i"
    using assms(1,3) by (auto simp: worktrees_accept_def on_worktree_def req_def split: option.splits)
  obtain s h where merge: "merge_branch_to_main git (wt_repo_path i) (wt_branch i) t (ap_git a) = (s, h)" by fastforce
  have a1: "ap_manager a1 = wm_set_status t WtMerged (wm_set_status t WtDone (ap_manager a))"
    using accept_tracked [OF assms(1) i merge, of env] assms(3) by (cases s) (auto simp: emit_def)
  have reach: "manager_reachable git data_dir (ap_manager a1)"
    using assms(2) unfolding manager_reachable_def a1
    by (rule rtranclp.rtrancl_into_rtrancl [OF rtranclp.rtrancl_into_rtrancl]) (rule manager_step.set_status)+
  have merged: "wm_get (ap_manager a1) t = Some (i\<lparr>wt_status := WtMerged\<rparr>)" using i by (simp add: a1 wm_get_def)
  obtain k m2 g2 where run: "cleanup_empty_worktrees git ks (ap_manager a1) (ap_git a1) = (k, m2, g2)"
    using prod_cases3 by blast
  have a2: "ap_manager a2 = m2" using assms(5) run by (auto simp: worktrees_cleanup_def)
  have kept: "wm_get (ap_manager a2) t = Some (i\<lparr>wt_status := WtMerged\<rparr>)"
    using cleanup_effect [OF reach assms(4) run] merged unfolding a2 wm_get_def by force
  have only: "wt_status j = WtMerged" if j: "j \<in> set (wm_list ks (ap_manager a1))" "wt_task_id j = t" for j
  proof -
    obtain k where "wm_worktrees (ap_manager a1) k = Some j" using j(1) by (auto simp: wm_list_def)
    moreover from this have "k = t" using manager_okD [OF reachable_manager_ok [OF reach]] j(2) by (auto simp: info_ok_def)
    ultimately show ?thesis using merged by (simp add: wm_get_def)
  qed
  have "t \<notin> set (wh_orphaned (check_health git g now ks (ap_manager a1)))"
    "t \<notin> set (wh_stale (check_health git g now ks (ap_manager a1)))"
    using only by (force simp: check_health_def is_orphaned_def)+
  with kept show ?thesis by simp
qed

theorem accepted_worktree_never_cleaned_witness:
  "\<exists>a1 a2 n i. worktrees_cleanup sample_git [''T1'', ''T2''] a1 = (n, a2) \<and> wm_get (ap_manager a2) ''T1'' = Some i \<and>
     wt_status i = WtMerged"
proof -
  obtain v a1 where acc: "worktrees_accept sample_git quiet_env (task_params ''T1'') (sample_app WtActive) = (Ok v, a1)"
    and m: "ap_manager a1 = sample_manager WtMerged" using sample_accept by blast
  obtain n a2 where run: "worktrees_cleanup sample_git [''T1'', ''T2''] a1 = (n, a2)" by fastforce
  have "\<exists>i. wm_get (ap_manager a2) ''T1'' = Some i \<and> wt_status i = WtMerged \<and>
      ''T1'' \<notin> set (wh_orphaned (check_health sample_git () 0 [''T1'', ''T2''] (ap_manager a1))) \<and>
      ''T1'' \<notin> set (wh_stale (check_health sample_git () 0 [''T1'', ''T2''] (ap_manager a1)))"
  proof (rule accepted_worktree_never_cleaned [OF _ _ acc _ run])
    show "manager_reachable sample_git ''/d'' (ap_manager (sample_app WtActive))"
      by (simp add: sample_app_def sample_reachable)
    show "iteration_order [''T1'', ''T2''] (wm_worktrees (ap_manager a1))" by (simp add: m sample_order)
  qed (simp add: get_str_def)
  with run show ?thesis by blast
qed

text \<open>A restart forgets the tracked worktrees but keeps their rows: a worktree that was created once cannot be
  created again for its task, even where git would allow it.\<close>

theorem create_after_restart_fails:
  assumes "worktrees_create git env params a = (Ok v, a1)"
    and "get_str params ''task_id'' = Some t" and "get_str params' ''task_id'' = Some t"
  shows "wm_get (ap_manager (restart data_dir a1)) t = None \<and>
    \<not> is_ok (fst (worktrees_create git' env' params' (restart data_dir a1)))"
proof -
  have "t \<in> wr_task_id ` set (ap_rows a1)" by (rule worktrees_create_Ok [OF assms(1,2)])
  then have taken: "create_worktree now t p b repo (ap_rows a1) = (Err (Db (UniqueFailed ''worktrees'')), ap_rows a1)" for now p b repo
    by (rule create_worktree_taken)
  show ?thesis
    using assms(3) taken
    by (auto simp: restart_def wm_get_def new_manager_def worktrees_create_def req_def split: option.splits prod.splits)
qed

theorem create_after_restart_fails_witness:
  "\<exists>a1 v. worktrees_create sample_git quiet_env (task_params ''T3'') (sample_app WtActive) = (Ok v, a1) \<and>
     \<not> is_ok (fst (worktrees_create sample_git quiet_env (task_params ''T3'') (restart ''/d'' a1)))"
proof -
  have "\<exists>v a1. worktrees_create sample_git quiet_env (task_params ''T3'') (sample_app WtActive) = (Ok v, a1)"
    by (simp add: worktrees_create_def req_def get_str_def sample_app_def wm_get_def sample_manager_def wm_create_def git_simps
        sample_dir sample_create create_worktree_def insert_row_def get_worktree_def select_by_def emit_def)
      (simp add: sample_git_def)
  then obtain v a1 where c: "worktrees_create sample_git quiet_env (task_params ''T3'') (sample_app WtActive) = (Ok v, a1)" by blast
  from create_after_restart_fails [OF c, of "''T3''" "task_params ''T3''" "''/d''" sample_git quiet_env] c show ?thesis
    by (auto simp: get_str_def)
qed

end
