(* ===== verification/Stub_Gate.thy ===== *)
theory Stub_Gate
  imports Worktrees
begin

text \<open>
  The stub gate, \<^verbatim>\<open>tasks/stub_gate.rs\<close>: before a task is marked done its modified files are searched for
  placeholders. The file system, the TOML reader and the regular expressions are parameters; compiling a pattern
  gives a function from a line to its first match, or nothing for an invalid pattern. Paths that a function cuts
  out of another path are written with single separators.
\<close>

record completion_checks =
  cc_patterns :: "string list"
  cc_exclude :: "string list"
  cc_extensions :: "string list"
  cc_enabled :: bool

record stub_env =
  se_exists :: "string \<Rightarrow> bool"
  se_read :: "string \<Rightarrow> string option"
  se_toml :: "string \<Rightarrow> completion_checks option"
  se_regex :: "string \<Rightarrow> (string \<Rightarrow> string option) option"

definition default_patterns :: "string list" where
  "default_patterns =
     [''TODO'', ''FIXME'', [BS] @ ''bplaceholder'' @ [BS] @ ''b'', [BS] @ ''bstub'' @ [BS] @ ''b'',
      ''unimplemented!'' @ [BS] @ ''s*'' @ [BS] @ ''('', ''todo!'' @ [BS] @ ''s*'' @ [BS] @ ''('']"

definition default_extensions :: "string list" where
  "default_extensions = [''rs'', ''dart'', ''ts'', ''tsx'', ''js'', ''jsx'', ''py'', ''go'']"

definition default_completion_checks :: completion_checks where
  "default_completion_checks =
     \<lparr>cc_patterns = default_patterns, cc_exclude = [], cc_extensions = default_extensions, cc_enabled = True\<rparr>"

definition load_completion_checks :: "stub_env \<Rightarrow> string \<Rightarrow> completion_checks" where
  "load_completion_checks env project_root =
     (let config_path = path_join project_root ''.claude/qa/completion-checks.toml'' in
      if \<not> se_exists env config_path then default_completion_checks
      else case se_read env config_path of
          Some content \<Rightarrow> (case se_toml env content of Some cfg \<Rightarrow> cfg | None \<Rightarrow> default_completion_checks)
        | None \<Rightarrow> default_completion_checks)"

record stub_match =
  sm_file :: string
  sm_line :: nat
  sm_pattern :: string
  sm_content :: string

definition show_stub_match :: "stub_match \<Rightarrow> string" where
  "show_stub_match m = sm_file m @ '':'' @ show_nat (sm_line m) @ '' ['' @ sm_pattern m @ ''] '' @ trim (sm_content m)"

section \<open>Paths\<close>

text \<open>\<^verbatim>\<open>Path::extension\<close> of the last component, if that is a name.\<close>

definition path_extension :: "string \<Rightarrow> string option" where
  "path_extension p =
     (let cs = components p in
      if cs = [] \<or> last cs \<in> {''/'', ''.'', ''..''} then None
      else let name = last cs;
               after = rev (takeWhile (\<lambda>c. c \<noteq> CHR ''.'') (rev name));
               before = take (length name - Suc (length after)) name
           in if CHR ''.'' \<notin> set name \<or> before = [] then None else Some after)"

definition path_string :: "string list \<Rightarrow> string" where
  "path_string cs = (case cs of [] \<Rightarrow> [] | c # rest \<Rightarrow> if c = ''/'' then CHR ''/'' # join ''/'' rest else join ''/'' cs)"

text \<open>The components of \<^verbatim>\<open>Path::parent\<close>.\<close>

definition parent_components :: "string list \<Rightarrow> string list option" where
  "parent_components cs = (if cs = [] \<or> cs = [''/''] then None else Some (butlast cs))"

function find_root :: "(string \<Rightarrow> bool) \<Rightarrow> string list \<Rightarrow> string list option" where
  "find_root exists_path dir =
     (if exists_path (path_join (path_string dir) ''.claude'') then Some dir
      else if dir = [] \<or> dir = [''/''] then None
      else find_root exists_path (butlast dir))"
  by auto
termination by (relation "measure (\<lambda>(_, dir). length dir)") auto

definition infer_project_root :: "(string \<Rightarrow> bool) \<Rightarrow> string list \<Rightarrow> string option" where
  "infer_project_root exists_path files =
     (case files of
        [] \<Rightarrow> None
      | first # _ \<Rightarrow>
          (case parent_components (components first) of
             None \<Rightarrow> None
           | Some dir \<Rightarrow> Some (path_string (case find_root exists_path dir of Some root \<Rightarrow> root | None \<Rightarrow> dir))))"

section \<open>The gate\<close>

fun replace_double_star :: "string \<Rightarrow> string" where
  "replace_double_star (a # b # s) =
     (if a = CHR ''*'' \<and> b = CHR ''*'' then CHR 0x00 # replace_double_star s else a # replace_double_star (b # s))"
| "replace_double_star s = s"

definition replace_char :: "char \<Rightarrow> string \<Rightarrow> string \<Rightarrow> string" where
  "replace_char d r s = concat (map (\<lambda>c. if c = d then r else [c]) s)"

definition stub_glob_match :: "stub_env \<Rightarrow> string \<Rightarrow> string \<Rightarrow> bool" where
  "stub_glob_match env pattern path =
     (let regex_str = replace_char (CHR 0x00) ''.*'' (replace_char (CHR ''*'') ''[^/]*'' (replace_double_star pattern))
      in case se_regex env (''^'' @ regex_str @ ''$'') of Some re \<Rightarrow> re path \<noteq> None | None \<Rightarrow> False)"

definition is_excluded :: "stub_env \<Rightarrow> string \<Rightarrow> string \<Rightarrow> string list \<Rightarrow> bool" where
  "is_excluded env file project_root excludes =
     (if excludes = [] then False
      else if \<not> path_starts_with file project_root then False
      else let rel_str = join ''/'' (drop (length (components project_root)) (components file))
           in list_ex (\<lambda>pattern. stub_glob_match env pattern rel_str) excludes)"

definition is_checked :: "stub_env \<Rightarrow> string \<Rightarrow> completion_checks \<Rightarrow> string \<Rightarrow> bool" where
  "is_checked env project_root config file \<longleftrightarrow>
     path_starts_with file project_root \<and>
     (case path_extension file of Some ext \<Rightarrow> ext \<in> set (cc_extensions config) | None \<Rightarrow> False) \<and>
     \<not> is_excluded env file project_root (cc_exclude config)"

definition file_matches :: "(string \<Rightarrow> string option) \<Rightarrow> string \<Rightarrow> string \<Rightarrow> stub_match list" where
  "file_matches re file content =
     List.map_filter (\<lambda>(idx, line). map_option (\<lambda>m. \<lparr>sm_file = file, sm_line = idx + 1, sm_pattern = m, sm_content = line\<rparr>) (re line))
       (enumerate 0 (lines content))"

definition stub_check :: "stub_env \<Rightarrow> string list \<Rightarrow> string \<Rightarrow> completion_checks \<Rightarrow> stub_match list" where
  "stub_check env modified_files project_root config =
     (if \<not> cc_enabled config \<or> modified_files = [] then []
      else case se_regex env (join ''|'' (cc_patterns config)) of
          None \<Rightarrow> []
        | Some re \<Rightarrow>
            concat (map (\<lambda>file.
              if is_checked env project_root config file
              then (case se_read env file of Some content \<Rightarrow> file_matches re file content | None \<Rightarrow> [])
              else []) modified_files))"

definition format_stub_error :: "stub_match list \<Rightarrow> string" where
  "format_stub_error ms =
     ''taskCompletionBlocked: '' @ show_nat (length ms) @ '' stub pattern'' @ (if length ms = 1 then [] else ''s'') @
     '' found in modified files:'' @ [NL] @
     concat (map (\<lambda>m. ''  '' @ show_stub_match m @ [NL]) (take 20 ms)) @
     (if length ms > 20 then ''  ... and '' @ show_nat (length ms - 20) @ '' more'' @ [NL] else []) @
     [NL] @ ''Resolve all stubs before marking the task done.''"

section \<open>Properties\<close>

lemma file_matches_Nil: "file_matches re file content = [] \<longleftrightarrow> (\<forall>l \<in> set (lines content). re l = None)"
proof -
  have "set (lines content) = snd ` set (enumerate 0 (lines content))"
    by (metis map_snd_enumerate set_map)
  then show ?thesis by (force simp: file_matches_def List.map_filter_def filter_empty_conv)
qed

text \<open>With an enabled configuration and valid patterns the gate is silent exactly if no readable line of a checked
  file matches; every reported match names a checked modified file and the matching line with its number.\<close>

theorem stub_check_exact:
  assumes "cc_enabled config" and "se_regex env (join ''|'' (cc_patterns config)) = Some re"
  shows "\<lparr>sm_file = f, sm_line = n, sm_pattern = m, sm_content = l\<rparr> \<in> set (stub_check env files root config) \<longleftrightarrow>
    f \<in> set files \<and> is_checked env root config f \<and>
    (\<exists>content. se_read env f = Some content \<and> 0 < n \<and> n \<le> length (lines content) \<and> lines content ! (n - 1) = l \<and> re l = Some m)"
proof -
  have matches: "\<lparr>sm_file = f, sm_line = n, sm_pattern = m, sm_content = l\<rparr> \<in> set (file_matches re g content) \<longleftrightarrow>
      g = f \<and> 0 < n \<and> n \<le> length (lines content) \<and> lines content ! (n - 1) = l \<and> re l = Some m" for g content
    by (auto simp: file_matches_def List.map_filter_def in_set_enumerate_eq image_iff Bex_def gr0_conv_Suc
        intro!: exI [of _ "n - 1"])
  have reported: "x \<in> set (stub_check env files root config) \<longleftrightarrow>
      (\<exists>g \<in> set files. is_checked env root config g \<and> (\<exists>content. se_read env g = Some content \<and> x \<in> set (file_matches re g content)))" for x
  proof (cases "files = []")
    case False
    with assms have "stub_check env files root config = concat (map (\<lambda>file.
        if is_checked env root config file
        then (case se_read env file of Some content \<Rightarrow> file_matches re file content | None \<Rightarrow> []) else []) files)"
      by (simp add: stub_check_def)
    then show ?thesis by (auto split: if_splits option.splits) force+
  qed (simp add: stub_check_def)
  show ?thesis unfolding reported matches by blast
qed

definition plain_env :: "string \<Rightarrow> stub_env" where
  "plain_env content =
     \<lparr>se_exists = (\<lambda>_. False), se_read = (\<lambda>_. Some content), se_toml = (\<lambda>_. None),
      se_regex = (\<lambda>_. Some (\<lambda>l. if contains l ''TODO'' then Some ''TODO'' else None))\<rparr>"

theorem stub_check_exact_witness:
  "\<lparr>sm_file = ''/r/a.rs'', sm_line = 2, sm_pattern = ''TODO'', sm_content = ''// TODO''\<rparr>
     \<in> set (stub_check (plain_env (''x'' @ [NL] @ ''// TODO'')) [''/r/a.rs''] ''/r'' default_completion_checks)"
proof -
  have l: "lines (''x'' @ [NL] @ ''// TODO'') = [''x'', ''// TODO'']" by code_simp
  have "is_checked (plain_env (''x'' @ [NL] @ ''// TODO'')) ''/r'' default_completion_checks ''/r/a.rs''"
    by (simp add: is_checked_def path_starts_with_def components_def starts_with_def path_extension_def default_completion_checks_def
        default_extensions_def is_excluded_def)
  with l show ?thesis
    by (subst stub_check_exact [where re = "\<lambda>l. if contains l ''TODO'' then Some ''TODO'' else None"])
      (simp_all add: default_completion_checks_def plain_env_def)
qed

end
