(* ===== verification/Task_Rpc.thy ===== *)
theory Task_Rpc
  imports Worktree_Rpc Stub_Gate
begin

text \<open>
  The task calls of the daemon's own protocol, \<^verbatim>\<open>ipc/handlers/tasks.rs\<close>, with the queue file they write
  (\<^verbatim>\<open>tasks/queue_serializer.rs\<close>), on the task store, the worktrees and the stub gate. The reader of stored JSON
  texts and the outcome of writing a file are parameters. Numbers in JSON are kept as their decimal texts. The calls
  that read a markdown file and the progress estimate, which computes with floating point numbers, are not modelled.
\<close>

record rpc_env =
  re_tool :: tool_env
  re_from_str :: "string \<Rightarrow> string list option"
  re_parse :: "string \<Rightarrow> json option"
  re_stub :: stub_env
  re_write_ok :: "string \<Rightarrow> bool"

abbreviation re_now :: "rpc_env \<Rightarrow> timestamp" where
  "re_now env \<equiv> te_now (re_tool env)"

section \<open>Parameters\<close>

text \<open>\<^verbatim>\<open>Value::as_i64\<close> and \<^verbatim>\<open>as_u64\<close>: an integer literal in range. A negative zero is a floating point number.\<close>

definition decimal_value :: "string \<Rightarrow> nat" where
  "decimal_value s = foldl (\<lambda>acc c. acc * 10 + (of_char c - 48)) 0 s"

definition as_i64 :: "json \<Rightarrow> int option" where
  "as_i64 v =
     (case v of
        JNumber s \<Rightarrow>
          (let neg = starts_with s ''-''; ds = (if neg then drop 1 s else s);
               i = (if neg then - int (decimal_value ds) else int (decimal_value ds))
           in if ds = [] \<or> \<not> list_all is_digit ds \<or> neg \<and> decimal_value ds = 0 \<or> i < - (2 ^ 63) \<or> i \<ge> 2 ^ 63 then None else Some i)
      | _ \<Rightarrow> None)"

definition get_i64 :: "json \<Rightarrow> string \<Rightarrow> int option" where
  "get_i64 v key = (case get_member v key of Some x \<Rightarrow> as_i64 x | None \<Rightarrow> None)"

definition validate_task_id :: "string \<Rightarrow> (unit, string) result" where
  "validate_task_id i =
     (if i = [] \<or> 64 < length i then Err ''invalid task_id: must be 1-64 characters''
      else if CHR 0x00 \<in> set i then Err ''invalid task_id: null byte''
      else if \<not> list_all (\<lambda>c. is_alphanumeric c \<or> c = CHR ''-'' \<or> c = CHR ''_'') i
      then Err ''invalid task_id: only alphanumeric characters, hyphens, and underscores are allowed''
      else Ok ())"

definition validate_planning_path :: "string \<Rightarrow> string \<Rightarrow> (unit, string) result" where
  "validate_planning_path path repo_path =
     (if CHR 0x00 \<in> set path then Err ''invalid path: null byte''
      else if \<not> starts_with path ''/'' then Err ''invalid path: planning doc path must be absolute''
      else if \<not> path_starts_with path repo_path then Err ''invalid path: planning doc must be within the repository directory''
      else Ok ())"

section \<open>Rows as JSON\<close>

definition int_or_null :: "int option \<Rightarrow> json" where
  "int_or_null i = (case i of Some x \<Rightarrow> JNumber (show_int x) | None \<Rightarrow> JNull)"

definition task_fields :: "(string option \<Rightarrow> json) \<Rightarrow> agent_task_row \<Rightarrow> (string \<times> json) list" where
  "task_fields stored_list t =
     [(''id'', JString (at_id t)), (''title'', JString (at_title t)), (''type'', str_or_null (at_task_type t)),
      (''phase'', str_or_null (at_phase t)), (''group'', str_or_null (at_group t)), (''parent_id'', str_or_null (at_parent_id t)),
      (''severity'', str_or_null (at_severity t)), (''status'', JString (at_status t)), (''claimed_by'', str_or_null (at_claimed_by t)),
      (''claimed_at'', int_or_null (at_claimed_at t)), (''started_at'', int_or_null (at_started_at t)),
      (''completed_at'', int_or_null (at_completed_at t)), (''last_heartbeat'', int_or_null (at_last_heartbeat t)),
      (''file'', str_or_null (at_file t)), (''files'', stored_list (at_files t)), (''depends_on'', stored_list (at_depends_on t)),
      (''blocks'', stored_list (at_blocks t)), (''tags'', stored_list (at_tags t)), (''notes'', str_or_null (at_notes t)),
      (''block_reason'', str_or_null (at_block_reason t)), (''estimated_minutes'', int_or_null (at_estimated_minutes t)),
      (''actual_minutes'', int_or_null (at_actual_minutes t)), (''repo_path'', JString (at_repo_path t)),
      (''created_at'', JNumber (show_int (at_created_at t))), (''updated_at'', JNumber (show_int (at_updated_at t)))]"

text \<open>A row as serde prints it, and as the queue file shows it with the stored lists decoded.\<close>

definition row_json :: "agent_task_row \<Rightarrow> json" where
  "row_json t = JObject (task_fields str_or_null t)"

definition task_to_json :: "(string \<Rightarrow> json option) \<Rightarrow> agent_task_row \<Rightarrow> json" where
  "task_to_json parse t =
     JObject (task_fields (\<lambda>s. case s of Some text \<Rightarrow> or_default (parse text) (JArray []) | None \<Rightarrow> JArray []) t)"

definition activity_json :: "activity_log_row \<Rightarrow> json" where
  "activity_json r =
     JObject [(''id'', JString (al_id r)), (''ts'', JNumber (show_int (al_ts r))), (''agent'', JString (al_agent r)),
       (''task_id'', str_or_null (al_task_id r)), (''phase'', str_or_null (al_phase r)), (''action'', JString (al_action r)),
       (''entry_type'', JString (al_entry_type r)), (''detail'', str_or_null (al_detail r)), (''meta'', str_or_null (al_meta r)),
       (''repo_path'', JString (al_repo_path r))]"

section \<open>The queue file\<close>

definition queue_path :: "string \<Rightarrow> string" where
  "queue_path repo_path = path_join (path_join (path_join repo_path ''.claude'') ''tasks'') ''queue.json''"

definition queue_payload :: "rpc_env \<Rightarrow> string \<Rightarrow> task_db \<Rightarrow> json" where
  "queue_payload env repo_path db =
     JObject [(''version'', JNumber ''1''), (''repo_path'', JString repo_path), (''updated_at'', JNumber (show_int (re_now env))),
       (''tasks'', JArray (map (task_to_json (re_parse env))
          (list_tasks (re_from_str env) (default_list_params\<lparr>lp_repo_path := Some repo_path\<rparr>) db)))]"

text \<open>The file is replaced by a rename, so it holds the old or the new payload. Every caller ignores the outcome.\<close>

definition flush_queue :: "rpc_env \<Rightarrow> string \<Rightarrow> 'g app \<Rightarrow> 'g app" where
  "flush_queue env repo_path a =
     (if re_write_ok env (queue_path repo_path)
      then a\<lparr>ap_queues := (ap_queues a)(queue_path repo_path \<mapsto> queue_payload env repo_path (dm_db (ap_daemon a)))\<rparr>
      else a)"

section \<open>Calls of the store\<close>

abbreviation ap_db :: "'g app \<Rightarrow> task_db" where
  "ap_db a \<equiv> dm_db (ap_daemon a)"

definition set_db :: "task_db \<Rightarrow> 'g app \<Rightarrow> 'g app" where
  "set_db db a = a\<lparr>ap_daemon := (ap_daemon a)\<lparr>dm_db := db\<rparr>\<rparr>"

definition on_store ::
  "rpc_env \<Rightarrow> 'g app \<Rightarrow> ('a, task_error) result \<times> task_db \<Rightarrow> ('a \<Rightarrow> 'g app \<Rightarrow> (json, string) result \<times> 'g app) \<Rightarrow>
   (json, string) result \<times> 'g app" where
  "on_store env a r k =
     (case r of (Ok x, db) \<Rightarrow> k x (set_db db a) | (Err e, db) \<Rightarrow> (Err (show_task_error (re_tool env) e), set_db db a))"

definition log_quietly ::
  "rpc_env \<Rightarrow> string \<Rightarrow> string \<Rightarrow> string option \<Rightarrow> string \<Rightarrow> string option \<Rightarrow> string \<Rightarrow> 'g app \<Rightarrow> 'g app" where
  "log_quietly env agent task_id phase action detail repo_path a =
     a\<lparr>ap_daemon := log_ignored (re_tool env) agent task_id phase action detail repo_path (ap_daemon a)\<rparr>"

definition task_code :: "int \<Rightarrow> string" where
  "task_code c = ''TASK_CODE:'' @ show_int c"

section \<open>Handlers\<close>

definition rpc_list :: "rpc_env \<Rightarrow> json \<Rightarrow> 'g app \<Rightarrow> json" where
  "rpc_list env params a =
     JObject [(''tasks'', JArray (map row_json (list_tasks (re_from_str env)
       \<lparr>lp_repo_path = get_str params ''repo_path'', lp_status = get_str params ''status'', lp_agent = get_str params ''agent'',
        lp_severity = get_str params ''severity'', lp_phase = get_str params ''phase'', lp_tag = get_str params ''tag'',
        lp_search = get_str params ''search'', lp_limit = get_i64 params ''limit'', lp_offset = get_i64 params ''offset''\<rparr> (ap_db a))))]"

definition rpc_get :: "json \<Rightarrow> 'g app \<Rightarrow> (json, string) result" where
  "rpc_get params a =
     (case get_str params ''task_id'' of
        None \<Rightarrow> Err (task_code TASK_NOT_FOUND)
      | Some i \<Rightarrow> (case get_task i (ap_db a) of None \<Rightarrow> Err (task_code TASK_NOT_FOUND) | Some t \<Rightarrow> Ok (JObject [(''task'', row_json t)])))"

text \<open>The worktree of a claimed task: a failure to create or to store it is only logged.\<close>

definition auto_worktree :: "'g git2 \<Rightarrow> rpc_env \<Rightarrow> string \<Rightarrow> agent_task_row \<Rightarrow> 'g app \<Rightarrow> 'g app" where
  "auto_worktree git env task_id task a =
     (if at_repo_path task = [] \<or> \<not> g_exists git (at_repo_path task) (ap_git a) \<or> wm_get (ap_manager a) task_id \<noteq> None then a
      else case wm_create git (re_now env) task_id (at_title task) (at_repo_path task) (ap_manager a) (ap_git a) of
          (Ok wt, m, g) \<Rightarrow>
            a\<lparr>ap_manager := m, ap_git := g,
              ap_rows := snd (create_worktree (re_now env) task_id (wt_path wt) (wt_branch wt) (at_repo_path task) (ap_rows a))\<rparr>
        | (Err _, m, g) \<Rightarrow> a\<lparr>ap_manager := m, ap_git := g\<rparr>)"

definition rpc_claim :: "'g git2 \<Rightarrow> rpc_env \<Rightarrow> json \<Rightarrow> 'g app \<Rightarrow> (json, string) result \<times> 'g app" where
  "rpc_claim git env params a =
     req params ''task_id'' ''missing task_id'' a (\<lambda>task_id. req params ''agent_id'' ''missing agent_id'' a (\<lambda>agent_id.
       let is_resume = (case get_task task_id (ap_db a) of Some t \<Rightarrow> at_status t = ''interrupted'' | None \<Rightarrow> False) in
       on_store env a (claim_task (re_now env) task_id agent_id None (ap_db a)) (\<lambda>task a1.
         let a2 = set_db (snd (set_agent_current_task (re_now env) agent_id (Some task_id) (ap_db a1))) a1;
             a3 = log_quietly env agent_id task_id (at_phase task) (if is_resume then ''session_resume'' else ''task_claimed'')
               (Some (if is_resume then ''Resumed from interrupted state.'' else ''pending -> in_progress'')) (at_repo_path task) a2;
             a4 = emit (if is_resume then ''task.resumed'' else ''task.claimed'')
               (JObject [(''task_id'', JString task_id), (''agent_id'', JString agent_id), (''is_resume'', JBool is_resume)]) a3;
             a5 = auto_worktree git env task_id task a4;
             a6 = flush_queue env (at_repo_path task) a5
         in (Ok (JObject [(''task'', row_json task), (''is_resume'', JBool is_resume)]), a6))))"

definition rpc_release :: "rpc_env \<Rightarrow> json \<Rightarrow> 'g app \<Rightarrow> (json, string) result \<times> 'g app" where
  "rpc_release env params a =
     req params ''task_id'' ''missing task_id'' a (\<lambda>task_id. req params ''agent_id'' ''missing agent_id'' a (\<lambda>agent_id.
       case get_task task_id (ap_db a) of
         None \<Rightarrow> (Err (task_code TASK_NOT_FOUND), a)
       | Some task \<Rightarrow>
           on_store env a (release_task (re_now env) task_id agent_id (ap_db a)) (\<lambda>_ a1.
             let a2 = set_db (snd (set_agent_current_task (re_now env) agent_id None (ap_db a1))) a1
             in (Ok (JObject [(''ok'', JBool True)]),
                 emit ''task.released'' (JObject [(''task_id'', JString task_id)]) (flush_queue env (at_repo_path task) a2)))))"

definition rpc_heartbeat :: "rpc_env \<Rightarrow> json \<Rightarrow> 'g app \<Rightarrow> (json, string) result \<times> 'g app" where
  "rpc_heartbeat env params a =
     req params ''task_id'' ''missing task_id'' a (\<lambda>task_id. req params ''agent_id'' ''missing agent_id'' a (\<lambda>agent_id.
       on_store env a (heartbeat_task (re_now env) task_id agent_id (ap_db a)) (\<lambda>_ a1.
       on_store env a1 (update_agent_heartbeat (re_now env) agent_id (ap_db a1)) (\<lambda>_ a2.
         (Ok (JObject [(''ok'', JBool True)]), a2)))))"

text \<open>The gates of a completion: the stub gate over the reported files and the worktree of the task. A missing
  evidence pack is only logged.\<close>

definition stub_gate :: "rpc_env \<Rightarrow> json \<Rightarrow> (unit, string) result" where
  "stub_gate env params =
     (case str_list params ''modified_files'' of
        None \<Rightarrow> Ok ()
      | Some files \<Rightarrow>
          if files = [] then Ok ()
          else let project_root = or_default (infer_project_root (se_exists (re_stub env)) files) ''.'';
                   found = stub_check (re_stub env) files project_root (load_completion_checks (re_stub env) project_root)
               in if found \<noteq> [] then Err (format_stub_error found) else Ok ())"

definition worktree_gate :: "string \<Rightarrow> 'g app \<Rightarrow> (unit, string) result" where
  "worktree_gate task_id a =
     (case wm_get (ap_manager a) task_id of
        None \<Rightarrow> Ok ()
      | Some wt \<Rightarrow>
          if wt_status wt \<in> {WtActive, WtDone}
          then Err (''worktreeNotMerged: task '' @ quoted task_id @ '' has an active worktree on branch '' @ quoted (wt_branch wt) @
                 '' - call worktrees.accept or worktrees.reject before marking done'')
          else Ok ())"

definition completion_gates :: "rpc_env \<Rightarrow> json \<Rightarrow> string \<Rightarrow> string \<Rightarrow> 'g app \<Rightarrow> (unit, string) result" where
  "completion_gates env params task_id new_status a =
     (if new_status = ''done'' \<or> new_status = ''completed''
      then and_then (stub_gate env params) (\<lambda>_. worktree_gate task_id a) else Ok ())"

definition rpc_update_status :: "rpc_env \<Rightarrow> json \<Rightarrow> 'g app \<Rightarrow> (json, string) result \<times> 'g app" where
  "rpc_update_status env params a =
     req params ''task_id'' ''missing task_id'' a (\<lambda>task_id. req params ''status'' ''missing status'' a (\<lambda>new_status.
       let agent_id = or_default (get_str params ''agent_id'') ''system'' in
       case completion_gates env params task_id new_status a of
         Err e \<Rightarrow> (Err e, a)
       | Ok _ \<Rightarrow>
           on_store env a (update_status (re_now env) task_id new_status (get_str params ''notes'') (get_str params ''block_reason'') (ap_db a))
             (\<lambda>task a1.
               let a2 = log_quietly env agent_id task_id (at_phase task) ''status_transition'' (Some (''-> '' @ new_status)) (at_repo_path task) a1;
                   a3 = emit ''task.statusChanged'' (JObject [(''task_id'', JString task_id), (''status'', JString new_status)]) a2
               in (Ok (JObject [(''task'', row_json task)]), flush_queue env (at_repo_path task) a3))))"

definition rpc_add_task :: "rpc_env \<Rightarrow> json \<Rightarrow> 'g app \<Rightarrow> (json, string) result \<times> 'g app" where
  "rpc_add_task env params a =
     req params ''id'' ''missing id'' a (\<lambda>i. req params ''title'' ''missing title'' a (\<lambda>title.
     req params ''repo_path'' ''missing repo_path'' a (\<lambda>repo_path.
       let text = (\<lambda>key. map_option (te_to_string (re_tool env)) (get_member params key)) in
       on_store env a (add_task (re_now env)
           \<lparr>ad_id = i, ad_title = title, ad_task_type = get_str params ''type'', ad_phase = get_str params ''phase'',
            ad_group = get_str params ''group'', ad_parent_id = get_str params ''parent_id'', ad_severity = get_str params ''severity'',
            ad_file = get_str params ''file'', ad_files = text ''files'', ad_depends_on = text ''depends_on'', ad_tags = text ''tags'',
            ad_estimated_minutes = get_i64 params ''estimated_minutes'', ad_repo_path = repo_path\<rparr> (ap_db a)) (\<lambda>task a1.
         (Ok (JObject [(''task'', row_json task)]),
          flush_queue env repo_path (emit ''task.created'' (JObject [(''task_id'', JString i)]) a1))))))"

text \<open>The loop of \<^verbatim>\<open>bulk_add\<close> stops at the first task it cannot add; the earlier ones stay.\<close>

fun bulk_loop :: "rpc_env \<Rightarrow> string \<Rightarrow> nat \<Rightarrow> json list \<Rightarrow> 'g app \<Rightarrow> (nat, string) result \<times> 'g app" where
  "bulk_loop env repo_path created [] a = (Ok created, a)"
| "bulk_loop env repo_path created (t # ts) a =
     (case get_str t ''id'' of
        None \<Rightarrow> (Err ''task missing id'', a)
      | Some i \<Rightarrow>
          (case get_str t ''title'' of
             None \<Rightarrow> (Err ''task missing title'', a)
           | Some title \<Rightarrow>
               (case add_task (re_now env)
                    \<lparr>ad_id = i, ad_title = title, ad_task_type = get_str t ''type'', ad_phase = get_str t ''phase'',
                     ad_group = get_str t ''group'', ad_parent_id = get_str t ''parent_id'', ad_severity = get_str t ''severity'',
                     ad_file = get_str t ''file'', ad_files = None, ad_depends_on = None, ad_tags = None,
                     ad_estimated_minutes = get_i64 t ''estimated_minutes'', ad_repo_path = repo_path\<rparr> (ap_db a) of
                  (Err e, db) \<Rightarrow> (Err (show_task_error (re_tool env) e), set_db db a)
                | (Ok _, db) \<Rightarrow> bulk_loop env repo_path (Suc created) ts (set_db db a))))"

definition rpc_bulk_add :: "rpc_env \<Rightarrow> json \<Rightarrow> 'g app \<Rightarrow> (json, string) result \<times> 'g app" where
  "rpc_bulk_add env params a =
     (case get_member params ''tasks'' of
        Some (JArray ts) \<Rightarrow>
          req params ''repo_path'' ''missing repo_path'' a (\<lambda>repo_path.
            case bulk_loop env repo_path 0 ts a of
              (Err e, a1) \<Rightarrow> (Err e, a1)
            | (Ok created, a1) \<Rightarrow> (Ok (JObject [(''created'', JNumber (show_nat created))]), flush_queue env repo_path a1))
      | _ \<Rightarrow> (Err ''missing tasks array'', a))"

definition rpc_log_activity :: "rpc_env \<Rightarrow> json \<Rightarrow> 'g app \<Rightarrow> (json, string) result \<times> 'g app" where
  "rpc_log_activity env params a =
     req params ''agent_id'' ''missing agent_id'' a (\<lambda>agent. req params ''action'' ''missing action'' a (\<lambda>action.
     req params ''repo_path'' ''missing repo_path'' a (\<lambda>repo_path.
       on_store env a (Task_Storage.log_activity (te_log_id (re_tool env)) (re_now env) agent (get_str params ''task_id'') (get_str params ''phase'') action
           (or_default (get_str params ''entry_type'') ''auto'') (get_str params ''detail'')
           (map_option (te_to_string (re_tool env)) (get_member params ''meta'')) repo_path (ap_db a)) (\<lambda>entry a1.
         (Ok (JObject [(''ok'', JBool True), (''id'', JString (al_id entry))]),
          emit ''task.activityLogged'' (activity_json entry) a1)))))"

definition rpc_note :: "rpc_env \<Rightarrow> json \<Rightarrow> 'g app \<Rightarrow> (json, string) result \<times> 'g app" where
  "rpc_note env params a =
     req params ''agent_id'' ''missing agent_id'' a (\<lambda>agent. req params ''note'' ''missing note'' a (\<lambda>note_text.
     req params ''repo_path'' ''missing repo_path'' a (\<lambda>repo_path.
       on_store env a (post_note (te_log_id (re_tool env)) (re_now env) agent (get_str params ''task_id'') (get_str params ''phase'')
           (if length note_text > 2000 then take 2000 note_text else note_text) repo_path (ap_db a)) (\<lambda>entry a1.
         (Ok (JObject [(''ok'', JBool True), (''id'', JString (al_id entry))]),
          emit ''task.activityLogged'' (activity_json entry) a1)))))"

definition rpc_activity :: "json \<Rightarrow> 'g app \<Rightarrow> json" where
  "rpc_activity params a =
     (let entries = query_activity
        \<lparr>qp_repo_path = get_str params ''repo_path'', qp_task_id = get_str params ''task_id'', qp_agent = get_str params ''agent'',
         qp_phase = get_str params ''phase'', qp_entry_type = get_str params ''entry_type'', qp_action = get_str params ''action'',
         qp_since = get_i64 params ''since'', qp_limit = get_i64 params ''limit'', qp_offset = get_i64 params ''offset''\<rparr> (ap_db a)
      in JObject [(''entries'', JArray (map activity_json entries)), (''count'', JNumber (show_nat (length entries)))])"

section \<open>Export\<close>

abbreviation DQ :: char where "DQ \<equiv> CHR 0x22"

definition csv_escape :: "string \<Rightarrow> string" where
  "csv_escape s =
     (if CHR '','' \<in> set s \<or> DQ \<in> set s \<or> NL \<in> set s then [DQ] @ replace_char DQ [DQ, DQ] s @ [DQ] else s)"

definition csv_fields :: "agent_task_row \<Rightarrow> string list" where
  "csv_fields t =
     [at_id t, at_title t, or_default (at_task_type t) [], or_default (at_phase t) [], or_default (at_severity t) [],
      at_status t, or_default (at_claimed_by t) [], or_default (at_file t) [], or_default (at_notes t) []]"

text \<open>Every field but the status is escaped.\<close>

definition csv_line :: "agent_task_row \<Rightarrow> string" where
  "csv_line t =
     join '','' [csv_escape (at_id t), csv_escape (at_title t), csv_escape (or_default (at_task_type t) []),
        csv_escape (or_default (at_phase t) []), csv_escape (or_default (at_severity t) []), at_status t,
        csv_escape (or_default (at_claimed_by t) []), csv_escape (or_default (at_file t) []), csv_escape (or_default (at_notes t) [])] @ [NL]"

definition csv_header :: string where
  "csv_header = ''id,title,type,phase,severity,status,claimed_by,file,notes'' @ [NL]"

definition csv_export :: "agent_task_row list \<Rightarrow> string" where
  "csv_export tasks = csv_header @ concat (map csv_line tasks)"

definition rpc_export :: "rpc_env \<Rightarrow> json \<Rightarrow> 'g app \<Rightarrow> json" where
  "rpc_export env params a =
     (let tasks = list_tasks (re_from_str env) (default_list_params\<lparr>lp_repo_path := get_str params ''repo_path''\<rparr>) (ap_db a)
      in if or_default (get_str params ''format'') ''json'' = ''csv''
         then JObject [(''format'', JString ''csv''), (''data'', JString (csv_export tasks))]
         else JObject [(''format'', JString ''json''), (''tasks'', JArray (map row_json tasks))])"

section \<open>Genealogy\<close>

definition spawn_args :: "string \<Rightarrow> string \<Rightarrow> string \<Rightarrow> add_task_args" where
  "spawn_args child_id full_title parent_id =
     \<lparr>ad_id = child_id, ad_title = full_title, ad_task_type = Some ''spawned'', ad_phase = None, ad_group = None,
      ad_parent_id = Some parent_id, ad_severity = None, ad_file = None, ad_files = None, ad_depends_on = None, ad_tags = None,
      ad_estimated_minutes = None, ad_repo_path = []\<rparr>"

text \<open>The argument \<open>insert_genealogy\<close> is the statement on the table of task relations.\<close>

definition rpc_spawn ::
  "rpc_env \<Rightarrow> (string \<Rightarrow> string \<Rightarrow> string \<Rightarrow> 'g app \<Rightarrow> (unit, string) result \<times> 'g app) \<Rightarrow> json \<Rightarrow> 'g app \<Rightarrow> (json, string) result \<times> 'g app" where
  "rpc_spawn env insert_genealogy params a =
     req params ''parentId'' ''missing parentId'' a (\<lambda>parent_id. req params ''title'' ''missing title'' a (\<lambda>title.
       let relationship = or_default (get_str params ''relationship'') ''spawned_from'' in
       case validate_task_id parent_id of
         Err e \<Rightarrow> (Err e, a)
       | Ok _ \<Rightarrow>
           (case get_task parent_id (ap_db a) of
              None \<Rightarrow> (Err ''parent task not found'', a)
            | Some _ \<Rightarrow>
                let child_id = ''task-'' @ te_uuid (re_tool env);
                    full_title = (case get_str params ''description'' of Some d \<Rightarrow> title @ '': '' @ d | None \<Rightarrow> title)
                in on_store env a (add_task (re_now env) (spawn_args child_id full_title parent_id) (ap_db a)) (\<lambda>_ a1.
                     case insert_genealogy parent_id child_id relationship a1 of
                       (Err e, a2) \<Rightarrow> (Err e, a2)
                     | (Ok _, a2) \<Rightarrow>
                         (Ok (JObject [(''childId'', JString child_id), (''parentId'', JString parent_id),
                            (''relationship'', JString relationship), (''title'', JString full_title)]), a2)))))"

end
