(* ===== verification/Task_Rpc_Props.thy ===== *)
theory Task_Rpc_Props
  imports Task_Rpc
begin

text \<open>
  Properties of the task calls: every call acts on the task tables through operations of the store, the gates of a
  completion, where the worktree of a claimed task lies, the round trip of the CSV export, and the call that can
  never succeed.
\<close>

section \<open>Calls as sequences of store operations\<close>

definition by_ops :: "task_db \<Rightarrow> task_db \<Rightarrow> bool" where
  "by_ops db db1 \<longleftrightarrow> (\<exists>ops. db1 = run_ops ops db)"

lemma by_ops_refl [simp]: "by_ops db db"
  unfolding by_ops_def by (rule exI [of _ "[]"]) simp

lemma by_ops_trans: "by_ops a b \<Longrightarrow> by_ops b c \<Longrightarrow> by_ops a c"
  unfolding by_ops_def run_ops_def by (metis fold_append comp_apply)

lemma by_ops_exec: "by_ops db (exec_op now op db)"
  unfolding by_ops_def by (rule exI [of _ "[(now, op)]"]) simp

lemma by_ops_store [simp]:
  "by_ops db (snd (add_task now a db))"
  "by_ops db (snd (claim_task now t ag w db))"
  "by_ops db (snd (release_task now t ag db))"
  "by_ops db (snd (heartbeat_task now t ag db))"
  "by_ops db (snd (update_status now t s n b db))"
  "by_ops db (snd (Task_Storage.log_activity i now ag ot p act e d m repo db))"
  "by_ops db (snd (update_agent_heartbeat now ag db))"
  "by_ops db (snd (set_agent_current_task now ag ot db))"
  using by_ops_exec [of db now "OpAdd a"] by_ops_exec [of db now "OpClaim t ag w"] by_ops_exec [of db now "OpRelease t ag"]
    by_ops_exec [of db now "OpHeartbeat t ag"] by_ops_exec [of db now "OpUpdateStatus t s n b"]
    by_ops_exec [of db now "OpLog i ag ot p act e d m repo"] by_ops_exec [of db now "OpAgentHeartbeat ag"]
    by_ops_exec [of db now "OpSetCurrent ag ot"] by simp_all

lemma by_ops_note [simp]: "by_ops db (snd (post_note i now ag ot p n repo db))"
  by (simp add: post_note_def)

lemma by_ops_schema: "by_ops db db1 \<Longrightarrow> schema_ok db \<Longrightarrow> schema_ok db1"
  by (auto simp: by_ops_def schema_run_ops)

text \<open>What the helpers of the handlers leave alone.\<close>

lemma app_frame [simp]:
  "ap_db (set_db db a) = db" "ap_manager (set_db db a) = ap_manager a" "ap_git (set_db db a) = ap_git a"
  "ap_db (emit n v a) = ap_db a" "ap_manager (emit n v a) = ap_manager a"
  "ap_db (flush_queue env r a) = ap_db a" "ap_manager (flush_queue env r a) = ap_manager a"
  "ap_manager (log_quietly env ag t p act d r a) = ap_manager a"
  "ap_db (auto_worktree git env t task a) = ap_db a"
  by (auto simp: set_db_def emit_def broadcast_def flush_queue_def log_quietly_def auto_worktree_def
      split: prod.split result.split)

lemma by_ops_log [simp]: "by_ops (ap_db a) (ap_db (log_quietly env ag t p act d r a))"
  by (simp add: log_quietly_def log_ignored_def)

text \<open>A handler acts through store operations and leaves the manager to its own operations.\<close>

definition store_step :: "'g app \<Rightarrow> 'g app \<Rightarrow> bool" where
  "store_step a a1 \<longleftrightarrow> by_ops (ap_db a) (ap_db a1) \<and> ap_manager a1 = ap_manager a"

lemma store_step_refl [simp]: "store_step a a"
  by (simp add: store_step_def)

lemma store_step_trans: "store_step a b \<Longrightarrow> store_step b c \<Longrightarrow> store_step a c"
  by (auto simp: store_step_def intro: by_ops_trans)

lemma store_step_frame [simp]:
  "store_step a (emit n v b) = store_step a b" "store_step a (flush_queue env r b) = store_step a b"
  by (simp_all add: store_step_def)

lemma store_step_more [intro!]:
  "store_step a b \<Longrightarrow> store_step a (log_quietly env ag t p act d r b)"
  "store_step a b \<Longrightarrow> by_ops (ap_db b) db \<Longrightarrow> store_step a (set_db db b)"
  using by_ops_log [of b env ag t p act d r] by (auto simp: store_step_def intro: by_ops_trans)

lemma store_step_on_store:
  assumes "by_ops (ap_db a) (snd r)" and "\<And>x a1. r = (Ok x, ap_db a1) \<Longrightarrow> store_step a a1 \<Longrightarrow> store_step a1 (snd (k x a1))"
  shows "store_step a (snd (on_store env a r k))"
proof -
  obtain x db where r: "r = (x, db)" by fastforce
  have s: "store_step a (set_db db a)" using assms(1) r by (auto intro: store_step_more)
  show ?thesis
  proof (cases x)
    case (Ok y)
    with r s assms(2) [of y "set_db db a"] show ?thesis by (auto simp: on_store_def intro: store_step_trans)
  next
    case (Err e)
    with r s show ?thesis by (simp add: on_store_def)
  qed
qed

lemma store_step_req: "(\<And>s. store_step a (snd (k s))) \<Longrightarrow> store_step a (snd (req params f msg a k))"
  by (simp add: req_def split: option.split)

lemma rpc_add_task_step: "store_step a (snd (rpc_add_task env params a))"
  unfolding rpc_add_task_def Let_def
  by (intro store_step_req store_step_on_store) auto

lemma rpc_heartbeat_step: "store_step a (snd (rpc_heartbeat env params a))"
  unfolding rpc_heartbeat_def by (intro store_step_req store_step_on_store) auto

lemma rpc_note_step: "store_step a (snd (rpc_note env params a))" "store_step a (snd (rpc_log_activity env params a))"
  unfolding rpc_note_def rpc_log_activity_def by (intro store_step_req store_step_on_store; auto)+

lemma rpc_update_status_step: "store_step a (snd (rpc_update_status env params a))"
  unfolding rpc_update_status_def Let_def
  by (intro store_step_req)
    (auto split: result.split intro!: store_step_on_store)

lemma rpc_release_step: "store_step a (snd (rpc_release env params a))"
  unfolding rpc_release_def Let_def
  by (intro store_step_req)
    (auto split: option.split intro!: store_step_on_store)

lemma bulk_loop_step: "store_step b a \<Longrightarrow> store_step b (snd (bulk_loop env repo n ts a))"
proof (induction ts arbitrary: n a)
  case (Cons t ts)
  have "store_step b (set_db db a)" if "add_task now args (ap_db a) = (r, db)" for now args r db
    using by_ops_store(1) [of "ap_db a" now args] that Cons.prems by auto
  with Cons show ?case by (simp split: option.split prod.split)
qed simp

lemma rpc_bulk_add_step: "store_step a (snd (rpc_bulk_add env params a))"
proof -
  have "store_step a (snd (case bulk_loop env repo 0 ts a of
      (Err e, a1) \<Rightarrow> (Err e, a1) | (Ok created, a1) \<Rightarrow> (Ok (JObject [(''created'', JNumber (show_nat created))]), flush_queue env repo a1)))"
    for repo ts
    using bulk_loop_step [OF store_step_refl, of a env repo 0 ts] by (auto split: prod.split)
  then show ?thesis by (auto simp: rpc_bulk_add_def split: option.split json.split intro: store_step_req)
qed

section \<open>Calls as steps of the manager\<close>

definition sound_step :: "'g git2 \<Rightarrow> 'g app \<Rightarrow> 'g app \<Rightarrow> bool" where
  "sound_step git a a1 \<longleftrightarrow> by_ops (ap_db a) (ap_db a1) \<and> (manager_step git)\<^sup>*\<^sup>* (ap_manager a) (ap_manager a1)"

lemma sound_step_store: "store_step a a1 \<Longrightarrow> sound_step git a a1"
  by (simp add: sound_step_def store_step_def)

lemma sound_step_manager:
  "ap_db a1 = ap_db a \<Longrightarrow> (manager_step git)\<^sup>*\<^sup>* (ap_manager a) (ap_manager a1) \<Longrightarrow> sound_step git a a1"
  by (simp add: sound_step_def)

lemma sound_step_refl [simp]: "sound_step git a a"
  by (simp add: sound_step_def)

lemma sound_step_req: "(\<And>s. sound_step git a (snd (k s))) \<Longrightarrow> sound_step git a (snd (req params f msg a k))"
  by (simp add: req_def split: option.split)

lemma sound_step_on_worktree: "(\<And>t i. sound_step git a (snd (k t i))) \<Longrightarrow> sound_step git a (snd (on_worktree params a k))"
  unfolding on_worktree_def by (rule sound_step_req) (simp split: option.split)

lemma auto_worktree_step: "(manager_step git)\<^sup>*\<^sup>* (ap_manager a) (ap_manager (auto_worktree git env t task a))"
  unfolding auto_worktree_def
  by (auto split: prod.split intro!: r_into_rtranclp intro: manager_step.create)

lemma rpc_claim_step: "sound_step git a (snd (rpc_claim git env params a))"
proof -
  have claim: "sound_step git a (snd (on_store env a (claim_task (re_now env) t ag None (ap_db a)) (\<lambda>task a1.
      (Ok (f task), flush_queue env (at_repo_path task) (auto_worktree git env t task
         (emit n v (log_quietly env ag t (at_phase task) act d (at_repo_path task)
            (set_db (snd (set_agent_current_task (re_now env) ag (Some t) (ap_db a1))) a1))))))))" for t ag f n v act d
  proof -
    obtain r db where r: "claim_task (re_now env) t ag None (ap_db a) = (r, db)" by fastforce
    have db: "by_ops (ap_db a) db" using by_ops_store(2) [of "ap_db a" "re_now env" t ag None] r by simp
    show ?thesis
    proof (cases r)
      case (Ok task)
      let ?b = "log_quietly env ag t (at_phase task) act d (at_repo_path task)
          (set_db (snd (set_agent_current_task (re_now env) ag (Some t) db)) (set_db db a))"
      have "store_step a ?b" using db by auto
      moreover have "(manager_step git)\<^sup>*\<^sup>* (ap_manager (emit n v ?b)) (ap_manager (auto_worktree git env t task (emit n v ?b)))"
        by (rule auto_worktree_step)
      ultimately show ?thesis using r Ok by (simp add: on_store_def sound_step_def store_step_def)
    next
      case (Err e)
      with r db show ?thesis by (simp add: on_store_def sound_step_def)
    qed
  qed
  show ?thesis unfolding rpc_claim_def Let_def by (intro sound_step_req) (rule claim)
qed

lemma worktrees_create_step: "sound_step git a (snd (worktrees_create git env params a))"
  unfolding worktrees_create_def Let_def
  by (intro sound_step_req) (auto split: prod.split intro!: sound_step_manager r_into_rtranclp intro: manager_step.create)

lemma worktrees_read_step:
  "sound_step git a (snd (worktrees_diff git params a))" "sound_step git a (snd (worktrees_commit git params a))"
  unfolding worktrees_diff_def worktrees_commit_def
  by (intro sound_step_on_worktree; auto split: prod.split intro!: sound_step_manager)+

lemma worktrees_remove_step:
  "sound_step git a (snd (worktrees_reject git env params a))" "sound_step git a (snd (worktrees_delete git params a))"
  unfolding worktrees_reject_def worktrees_delete_def
  by (intro sound_step_on_worktree sound_step_req;
      auto split: prod.split intro!: sound_step_manager r_into_rtranclp intro: manager_step.remove)+

lemma worktrees_merge_step: "sound_step git a (snd (worktrees_merge git params a))"
  unfolding worktrees_merge_def
  by (intro sound_step_req) (auto split: prod.split intro!: sound_step_manager r_into_rtranclp intro: manager_step.merge)

lemma worktrees_accept_step: "sound_step git a (snd (worktrees_accept git env params a))"
proof -
  have "(manager_step git)\<^sup>*\<^sup>* (ap_manager a) m"
    if "merge_to_main git t (wm_set_status t WtDone (ap_manager a)) g = (r, m, g1)" for t g r m g1
    using manager_step.merge [OF that] manager_step.set_status [of git "ap_manager a" t WtDone]
    by (meson converse_rtranclp_into_rtranclp r_into_rtranclp)
  then show ?thesis
    unfolding worktrees_accept_def
    by (intro sound_step_on_worktree)
      (auto split: prod.split intro!: sound_step_manager,
        blast intro: rtranclp.rtrancl_into_rtrancl manager_step.set_status)
qed

lemma worktrees_cleanup_step:
  "iteration_order ks (wm_worktrees (ap_manager a)) \<Longrightarrow> sound_step git a (snd (worktrees_cleanup git ks a))"
  unfolding worktrees_cleanup_def
  by (auto split: prod.split intro!: sound_step_manager r_into_rtranclp intro: manager_step.cleanup)

section \<open>Reachable states of the daemon\<close>

text \<open>The calls of the protocol in any order, restarts of the process, and changes of the repository from outside.\<close>

inductive app_step :: "'g git2 \<Rightarrow> string \<Rightarrow> 'g app \<Rightarrow> 'g app \<Rightarrow> bool" for git data_dir where
  "app_step git data_dir a (snd (rpc_claim git env params a))"
| "app_step git data_dir a (snd (rpc_release env params a))"
| "app_step git data_dir a (snd (rpc_heartbeat env params a))"
| "app_step git data_dir a (snd (rpc_update_status env params a))"
| "app_step git data_dir a (snd (rpc_add_task env params a))"
| "app_step git data_dir a (snd (rpc_bulk_add env params a))"
| "app_step git data_dir a (snd (rpc_log_activity env params a))"
| "app_step git data_dir a (snd (rpc_note env params a))"
| "app_step git data_dir a (snd (worktrees_create git tool params a))"
| "app_step git data_dir a (snd (worktrees_diff git params a))"
| "app_step git data_dir a (snd (worktrees_commit git params a))"
| "app_step git data_dir a (snd (worktrees_accept git tool params a))"
| "app_step git data_dir a (snd (worktrees_reject git tool params a))"
| "app_step git data_dir a (snd (worktrees_delete git params a))"
| "app_step git data_dir a (snd (worktrees_merge git params a))"
| "iteration_order ks (wm_worktrees (ap_manager a)) \<Longrightarrow> app_step git data_dir a (snd (worktrees_cleanup git ks a))"
| "app_step git data_dir a (restart data_dir a)"
| "app_step git data_dir a (a\<lparr>ap_git := g\<rparr>)"

definition new_app :: "string \<Rightarrow> 'g \<Rightarrow> 'g app" where
  "new_app data_dir g =
     \<lparr>ap_daemon = empty_daemon, ap_manager = new_manager data_dir, ap_rows = [], ap_git = g, ap_queues = Map.empty\<rparr>"

definition app_reachable :: "'g git2 \<Rightarrow> string \<Rightarrow> 'g app \<Rightarrow> bool" where
  "app_reachable git data_dir a \<longleftrightarrow> (\<exists>g. (app_step git data_dir)\<^sup>*\<^sup>* (new_app data_dir g) a)"

lemmas call_steps = rpc_claim_step worktrees_create_step worktrees_read_step worktrees_remove_step worktrees_merge_step
  worktrees_accept_step worktrees_cleanup_step
  rpc_release_step [THEN sound_step_store] rpc_heartbeat_step [THEN sound_step_store]
  rpc_update_status_step [THEN sound_step_store] rpc_add_task_step [THEN sound_step_store]
  rpc_bulk_add_step [THEN sound_step_store] rpc_note_step [THEN sound_step_store]

definition app_inv :: "'g git2 \<Rightarrow> string \<Rightarrow> 'g app \<Rightarrow> bool" where
  "app_inv git data_dir a \<longleftrightarrow> by_ops empty_db (ap_db a) \<and> manager_reachable git data_dir (ap_manager a)"

lemma app_inv_sound: "app_inv git d a \<Longrightarrow> sound_step git a a1 \<Longrightarrow> app_inv git d a1"
  by (auto simp: app_inv_def sound_step_def manager_reachable_def intro: by_ops_trans rtranclp_trans)

lemma app_inv_step: "app_step git d a a1 \<Longrightarrow> app_inv git d a \<Longrightarrow> app_inv git d a1"
proof (induction rule: app_step.induct)
  case (17 a)
  then show ?case by (simp add: app_inv_def restart_def manager_reachable_def)
next
  case (18 a g)
  then show ?case by (simp add: app_inv_def)
qed (blast intro: app_inv_sound call_steps)+

lemma app_reachable_inv: "app_reachable git d a \<Longrightarrow> app_inv git d a"
proof -
  have "app_inv git d (new_app d g)" for g
    by (simp add: app_inv_def new_app_def empty_daemon_def manager_reachable_def)
  moreover have "(app_step git d)\<^sup>*\<^sup>* b a \<Longrightarrow> app_inv git d b \<Longrightarrow> app_inv git d a" for b
    by (induction rule: rtranclp_induct) (auto intro: app_inv_step)
  ultimately show "app_reachable git d a \<Longrightarrow> app_inv git d a" by (auto simp: app_reachable_def)
qed

section \<open>The CSV format\<close>

text \<open>A reader of comma separated values: fields end at a comma or a newline; inside quotes both are ordinary, and a
  doubled quote stands for one.\<close>

datatype csv_mode = FieldStart | InPlain | InQuotes | AfterQuote

fun csv_read :: "csv_mode \<Rightarrow> string \<Rightarrow> string list \<Rightarrow> string \<Rightarrow> string list list" where
  "csv_read mode cur flds [] = (if mode = FieldStart \<and> flds = [] then [] else [flds @ [cur]])"
| "csv_read InQuotes cur flds (c # s) =
     (if c = DQ then csv_read AfterQuote cur flds s else csv_read InQuotes (cur @ [c]) flds s)"
| "csv_read mode cur flds (c # s) =
     (if c = CHR '','' then csv_read FieldStart [] (flds @ [cur]) s
      else if c = NL then (flds @ [cur]) # csv_read FieldStart [] [] s
      else if c = DQ \<and> mode = FieldStart then csv_read InQuotes [] flds s
      else if c = DQ \<and> mode = AfterQuote then csv_read InQuotes (cur @ [DQ]) flds s
      else csv_read InPlain (cur @ [c]) flds s)"

definition csv_parse :: "string \<Rightarrow> string list list" where
  "csv_parse s = csv_read FieldStart [] [] s"

definition csv_plain :: "string \<Rightarrow> bool" where
  "csv_plain f \<longleftrightarrow> CHR '','' \<notin> set f \<and> DQ \<notin> set f \<and> NL \<notin> set f"

lemma replace_char_simps [simp]:
  "replace_char d r [] = []" "replace_char d r (c # s) = (if c = d then r else [c]) @ replace_char d r s"
  by (simp_all add: replace_char_def)

lemma csv_read_quoted:
  "csv_read InQuotes cur flds (replace_char DQ [DQ, DQ] f @ DQ # s) = csv_read AfterQuote (cur @ f) flds s"
  by (induction f arbitrary: cur) auto

lemma csv_read_in_plain: "csv_plain f \<Longrightarrow> csv_read InPlain cur flds (f @ s) = csv_read InPlain (cur @ f) flds s"
  by (induction f arbitrary: cur) (auto simp: csv_plain_def)

lemma csv_read_plain:
  assumes "csv_plain f" and "c = CHR '','' \<or> c = NL"
  shows "csv_read FieldStart [] flds (f @ c # s) = csv_read InPlain f flds (c # s)"
proof (cases f)
  case (Cons d ds)
  with assms csv_read_in_plain [of ds "[d]" flds "c # s"] show ?thesis by (auto simp: csv_plain_def)
qed (use assms in auto)

text \<open>An escaped field and its separator are read back as the field.\<close>

lemma csv_read_escaped:
  assumes "c = CHR '','' \<or> c = NL"
  shows "csv_read FieldStart [] flds (csv_escape f @ c # s) =
    (if c = NL then (flds @ [f]) # csv_read FieldStart [] [] s else csv_read FieldStart [] (flds @ [f]) s)"
proof (cases "csv_plain f")
  case True
  then have "csv_escape f = f" by (simp add: csv_escape_def csv_plain_def)
  with True assms show ?thesis by (auto simp: csv_read_plain)
next
  case False
  then have "csv_escape f = DQ # replace_char DQ [DQ, DQ] f @ [DQ]" by (auto simp: csv_escape_def csv_plain_def)
  with assms show ?thesis by (auto simp: csv_read_quoted)
qed

lemma csv_escape_plain: "csv_plain f \<Longrightarrow> csv_escape f = f"
  by (simp add: csv_escape_def csv_plain_def)

lemma csv_read_row:
  "fs \<noteq> [] \<Longrightarrow> csv_read FieldStart [] acc (join '','' (map csv_escape fs) @ NL # s) = (acc @ fs) # csv_read FieldStart [] [] s"
proof (induction fs arbitrary: acc)
  case (Cons f fs)
  show ?case
  proof (cases fs)
    case Nil
    then show ?thesis by (simp add: csv_read_escaped)
  next
    case (Cons g gs)
    then have "join '','' (map csv_escape (f # fs)) @ NL # s = csv_escape f @ CHR '','' # join '','' (map csv_escape fs) @ NL # s"
      by simp
    with Cons.IH [of "acc @ [f]"] Cons show ?thesis
      using csv_read_escaped [of "CHR '',''" acc f "join '','' (map csv_escape fs) @ NL # s"] by simp
  qed
qed simp

lemma status_plain: "r \<in> set TASK_STATUSES \<Longrightarrow> csv_plain r"
  by (auto simp: TASK_STATUSES_def csv_plain_def)

lemma csv_line_fields:
  assumes "at_status t \<in> set TASK_STATUSES"
  shows "csv_line t = join '','' (map csv_escape (csv_fields t)) @ [NL]"
  using csv_escape_plain [OF status_plain [OF assms]] by (simp add: csv_line_def csv_fields_def)

lemma csv_parse_export:
  assumes "\<forall>t \<in> set tasks. at_status t \<in> set TASK_STATUSES"
  shows "csv_read FieldStart [] [] (concat (map csv_line tasks)) = map csv_fields tasks"
  using assms
proof (induction tasks)
  case (Cons t ts)
  have "csv_fields t \<noteq> []" by (simp add: csv_fields_def)
  with Cons show ?case by (simp add: csv_line_fields csv_read_row)
qed simp

definition CSV_COLUMNS :: "string list" where
  "CSV_COLUMNS = [''id'', ''title'', ''type'', ''phase'', ''severity'', ''status'', ''claimed_by'', ''file'', ''notes'']"

lemma csv_header_row: "csv_header = join '','' (map csv_escape CSV_COLUMNS) @ [NL]"
  by code_simp

lemma reachable_statuses:
  assumes "app_reachable git d a" and "t \<in> set (db_tasks (ap_db a))"
  shows "at_status t \<in> set TASK_STATUSES"
proof -
  have "schema_ok (ap_db a)"
    using app_reachable_inv [OF assms(1)] by (auto simp: app_inv_def intro: by_ops_schema schema_ok_empty)
  with assms(2) show ?thesis using status_in_domain by blast
qed

lemma set_list_tasks: "set (list_tasks fs ps db) \<subseteq> set (db_tasks db)"
  unfolding list_tasks_eq by (auto dest!: in_set_takeD in_set_dropD)

section \<open>Lemmas about single calls\<close>

lemma update_status_Ok:
  assumes "update_status now t s n b db = (Ok task, db1)"
  shows "get_task t db1 = Some task \<and> at_status task = s \<and> (s = ''done'' \<longrightarrow> at_completed_at task = Some now \<and> n \<noteq> None \<and> n \<noteq> Some [])"
proof -
  have "update_status now t s n b db = (Err (TaskCode MISSING_COMPLETION_NOTES), db)" if "s = ''done'' \<and> (n = None \<or> n = Some [])"
    using that unfolding update_status_def by (rule if_P)
  with assms have guard: "\<not> (s = ''done'' \<and> (n = None \<or> n = Some []))" by force
  obtain r where r: "get_task t db = Some r" using assms guard by (cases "get_task t db") (auto simp: update_status_def)
  define c m where "c = (if s = ''done'' then Some now else None)"
    and "m = (if s = ''done'' then map_option (\<lambda>x. div_i64 (now - x) 60) (at_started_at r) else at_actual_minutes r)"
  have run: "execute db (update_tasks (\<lambda>x. at_id x = t) (set_status now s n b c m) db)
      (\<lambda>db' _. fetch_task t ''task not found after update'' db') = (Ok task, db1)"
    using assms guard r by (simp add: update_status_def c_def m_def)
  then obtain db2 k where up: "update_tasks (\<lambda>x. at_id x = t) (set_status now s n b c m) db = Ok (db2, k)"
    by (cases "update_tasks (\<lambda>x. at_id x = t) (set_status now s n b c m) db") (auto simp: execute_def)
  have "get_task t db2 = Some (set_status now s n b c m r)"
    using status.get_update [OF up, of t] r id_of_get [OF r] by (simp add: get_task_def)
  with run up show ?thesis
    using guard by (auto simp: execute_def fetch_task_def set_status_def c_def)
qed

lemma update_status_accepts:
  assumes "schema_ok db" and "get_task t db = Some r" and "s \<in> set TASK_STATUSES" and "n = Some c" and "c \<noteq> []"
  shows "is_ok (fst (update_status now t s n b db))"
proof -
  have ok: "rows_ok at_id task_violation (db_tasks db)" by (rule schema_tasks [OF assms(1)])
  have v: "task_violation (set_status now s n b x y q) = None" if "q \<in> set (db_tasks db)" for x y q
    using rows_ok_row [OF ok that] assms(3) by (auto simp: task_violation_def set_status_def split: if_splits)
  then have up: "\<exists>db1 k. update_tasks (\<lambda>q. at_id q = t) (set_status now s n b x y) db = Ok (db1, k)" for x y
    by (auto simp: update_tasks_Ok)
  have "is_ok (fst (execute db (update_tasks (\<lambda>q. at_id q = t) (set_status now s n b x y) db)
      (\<lambda>db' _. fetch_task t msg db')))" for x y msg
  proof -
    obtain db1 k where u: "update_tasks (\<lambda>q. at_id q = t) (set_status now s n b x y) db = Ok (db1, k)" using up by blast
    have "get_task t db1 \<noteq> None" using status.get_update [OF u, of t] assms(2) by (simp add: get_task_def)
    with u show ?thesis by (auto simp: execute_def fetch_task_def)
  qed
  with assms(2,4,5) show ?thesis by (simp add: update_status_def)
qed

lemma get_task_quiet [simp]: "get_task t (ap_db (log_quietly env ag i p act d r a)) = get_task t (ap_db a)"
  by (simp add: log_quietly_def log_ignored_def)

lemma valid_id_plain: "validate_task_id i = Ok () \<Longrightarrow> plain_name i"
proof -
  have "\<not> is_alphanumeric (CHR ''/'')" "\<not> is_alphanumeric (CHR ''.'')" by (simp_all add: is_alphanumeric_def)
  then show "validate_task_id i = Ok () \<Longrightarrow> plain_name i"
    by (auto simp: validate_task_id_def plain_name_def list_all_iff split: if_splits)
qed

lemma set_db_id [simp]: "set_db (ap_db a) a = a"
  by (simp add: set_db_def)

lemma auto_worktree_new:
  assumes "wm_get (ap_manager a) t = None" and "wm_get (ap_manager (auto_worktree git env t task a)) t = Some wt"
  shows "wt_path wt = path_join (wm_base (ap_manager a)) t"
proof -
  have "auto_worktree git env t task a \<noteq> a" using assms by auto
  with assms show ?thesis
    by (cases rule: wm_create_cases [where git = git and now = "re_now env" and t = t and title = "at_title task"
          and repo = "at_repo_path task" and m = "ap_manager a" and g = "ap_git a"])
      (auto simp: auto_worktree_def wm_get_def split: if_splits)
qed

section \<open>A sample run\<close>

definition rpc_quiet :: rpc_env where
  "rpc_quiet =
     \<lparr>re_tool = quiet_env, re_from_str = (\<lambda>_. None), re_parse = (\<lambda>_. None), re_stub = plain_env [], re_write_ok = (\<lambda>_. True)\<rparr>"

definition added_app :: "string \<Rightarrow> unit app" where
  "added_app i = snd (rpc_add_task rpc_quiet
     (JObject [(''id'', JString i), (''title'', JString ''Fix, now''), (''repo_path'', JString ''/repo'')]) (new_app ''/d'' ()))"

definition claim_params :: "string \<Rightarrow> json" where
  "claim_params i = JObject [(''task_id'', JString i), (''agent_id'', JString ''alice'')]"

definition claimed_app :: "string \<Rightarrow> unit app" where
  "claimed_app i = snd (rpc_claim sample_git rpc_quiet (claim_params i) (added_app i))"

definition done_params :: "string \<Rightarrow> json" where
  "done_params i = JObject [(''task_id'', JString i), (''status'', JString ''done''), (''notes'', JString ''ok'')]"

lemma sample_app_reachable: "app_reachable sample_git ''/d'' (added_app i)" "app_reachable sample_git ''/d'' (claimed_app i)"
proof -
  have "(app_step sample_git ''/d'')\<^sup>*\<^sup>* (new_app ''/d'' ()) (added_app i)"
    unfolding added_app_def by (rule r_into_rtranclp) (rule app_step.intros)
  moreover from this have "(app_step sample_git ''/d'')\<^sup>*\<^sup>* (new_app ''/d'' ()) (claimed_app i)"
    unfolding claimed_app_def by (rule rtranclp.rtrancl_into_rtrancl) (rule app_step.intros)
  ultimately show "app_reachable sample_git ''/d'' (added_app i)" "app_reachable sample_git ''/d'' (claimed_app i)"
    unfolding app_reachable_def by blast+
qed

lemma sample_base_path [simp]: "wm_base (ap_manager (added_app i)) = ''/d/.claw/worktrees''" "wm_get (ap_manager (added_app i)) t = None"
  using rpc_add_task_step [of "new_app ''/d'' ()" rpc_quiet
      "JObject [(''id'', JString i), (''title'', JString ''Fix, now''), (''repo_path'', JString ''/repo'')]"]
  by (simp_all add: added_app_def store_step_def new_app_def wm_get_def)

lemma sample_task: "get_task ''T1'' (ap_db (added_app ''T1'')) \<noteq> None"
  by code_simp

lemma sample_claim_row:
  "map_option (\<lambda>x. (is_ok x, at_repo_path (get_ok x))) (Some (fst (claim_task 0 ''/etc'' ''alice'' None (ap_db (added_app ''/etc''))))) =
     Some (True, ''/repo'')"
  by code_simp

lemma sample_claim_worktree:
  "\<exists>wt. wm_get (ap_manager (snd (rpc_claim sample_git rpc_quiet (claim_params ''/etc'') (added_app ''/etc'')))) ''/etc'' = Some wt"
proof -
  obtain task db where c: "claim_task 0 ''/etc'' ''alice'' None (ap_db (added_app ''/etc'')) = (Ok task, db)" and r: "at_repo_path task = ''/repo''"
    using sample_claim_row by (cases "claim_task 0 ''/etc'' ''alice'' None (ap_db (added_app ''/etc''))") (auto simp: result_simps)
  have now: "re_now rpc_quiet = 0" by (simp add: rpc_quiet_def quiet_env_def)
  have ex: "g_exists sample_git p g" for p g by (simp add: sample_git_def)
  have w: "\<exists>info m g1. wm_create sample_git n t title repo m0 g = (Ok info, m, g1) \<and> wm_get m t = Some info" for n t title repo m0 g
    by (simp add: wm_create_def git_simps sample_dir sample_create wm_get_def)
  have auto_wt: "\<exists>wt. wm_get (ap_manager (auto_worktree sample_git rpc_quiet t task a)) t = Some wt" if "wm_get (ap_manager a) t = None" for a t
    using w [of "re_now rpc_quiet" t "at_title task" "at_repo_path task" "ap_manager a" "ap_git a"] that r ex
    by (auto simp: auto_worktree_def)
  show ?thesis using c now
    by (simp add: rpc_claim_def req_def on_store_def claim_params_def get_str_def) (intro conjI impI auto_wt, simp_all)
qed

section \<open>Properties\<close>

text \<open>In every state the daemon can reach by its calls, restarts and outside changes of the repository, the task
  tables are the result of a sequence of operations of the task store on the empty database, and the worktree manager
  is one its own operations can reach.\<close>

theorem rpc_refines_store:
  assumes "app_reachable git data_dir a"
  shows "(\<exists>ops. ap_db a = run_ops ops empty_db) \<and> manager_reachable git data_dir (ap_manager a)"
  using app_reachable_inv [OF assms] by (auto simp: app_inv_def by_ops_def)

lemma rpc_refines_store_sample:
  "(\<exists>ops. ap_db (claimed_app ''T1'') = run_ops ops empty_db) \<and> manager_reachable sample_git ''/d'' (ap_manager (claimed_app ''T1''))"
  by (rule rpc_refines_store [OF sample_app_reachable(2)])

text \<open>C7: Reading the exported CSV text back gives the header and, for each exported task, its nine columns, whatever
  commas, quotes and newlines they contain. The status, which is not escaped, is covered by the schema.\<close>

theorem csv_export_roundtrip:
  assumes "app_reachable git data_dir a" and "get_str params ''format'' = Some ''csv''"
  shows "\<exists>s. rpc_export env params a = JObject [(''format'', JString ''csv''), (''data'', JString s)] \<and>
    csv_parse s = CSV_COLUMNS #
      map csv_fields (list_tasks (re_from_str env) (default_list_params\<lparr>lp_repo_path := get_str params ''repo_path''\<rparr>) (ap_db a))"
proof -
  let ?tasks = "list_tasks (re_from_str env) (default_list_params\<lparr>lp_repo_path := get_str params ''repo_path''\<rparr>) (ap_db a)"
  have "\<forall>t \<in> set ?tasks. at_status t \<in> set TASK_STATUSES"
    using reachable_statuses [OF assms(1)] set_list_tasks by blast
  then have "csv_parse (csv_export ?tasks) = CSV_COLUMNS # map csv_fields ?tasks"
    using csv_read_row [of CSV_COLUMNS "[]" "concat (map csv_line ?tasks)"] csv_parse_export [of ?tasks]
    by (simp add: csv_parse_def csv_export_def csv_header_row CSV_COLUMNS_def [THEN arg_cong [where f = "\<lambda>x. x = []"]])
  with assms(2) show ?thesis by (simp add: rpc_export_def or_default_def)
qed

theorem csv_export_roundtrip_witness:
  "\<exists>s. rpc_export rpc_quiet (JObject [(''format'', JString ''csv'')]) (added_app ''T1'') =
       JObject [(''format'', JString ''csv''), (''data'', JString s)] \<and>
     csv_parse s = [CSV_COLUMNS, [''T1'', ''Fix, now'', ''code'', [], ''medium'', ''pending'', [], [], []]]"
proof -
  have "map csv_fields (list_tasks (\<lambda>_. None) (default_list_params\<lparr>lp_repo_path := None\<rparr>) (ap_db (added_app ''T1''))) =
      [[''T1'', ''Fix, now'', ''code'', [], ''medium'', ''pending'', [], [], []]]" by code_simp
  with csv_export_roundtrip [OF sample_app_reachable(1) [of "''T1''"], of "JObject [(''format'', JString ''csv'')]" rpc_quiet]
  show ?thesis by (simp add: get_str_def rpc_quiet_def)
qed

text \<open>C8: The call \<^verbatim>\<open>tasks.updateStatus\<close> marks a task done only with completion notes, with a silent stub gate, and if its
  worktree, where the manager tracks one, was merged or given up; the stored row is then done and carries the time of
  completion. Two other ways to the status are outside of it: see \<open>backfill_skips_gates\<close> and
  \<open>restart_opens_worktree_gate\<close>.\<close>

theorem done_needs_gates:
  assumes "rpc_update_status env params a = (Ok v, a1)" and "get_str params ''task_id'' = Some t"
    and "get_str params ''status'' = Some ''done''"
  shows "(\<forall>wt. wm_get (ap_manager a) t = Some wt \<longrightarrow> wt_status wt \<in> {WtAbandoned, WtMerged}) \<and>
    stub_gate env params = Ok () \<and> (\<exists>n. get_str params ''notes'' = Some n \<and> n \<noteq> []) \<and>
    (\<exists>r. get_task t (ap_db a1) = Some r \<and> at_status r = ''done'' \<and> at_completed_at r = Some (re_now env))"
proof -
  have gates: "completion_gates env params t ''done'' a = Ok ()"
    using assms by (cases "completion_gates env params t ''done'' a") (auto simp: rpc_update_status_def req_def)
  then have stub: "stub_gate env params = Ok ()" and wt: "worktree_gate t a = Ok ()"
    by (auto simp: completion_gates_def result_simps)
  obtain r db where run: "update_status (re_now env) t ''done'' (get_str params ''notes'') (get_str params ''block_reason'') (ap_db a) = (r, db)"
    by fastforce
  obtain task where r: "r = Ok task" "get_task t (ap_db a1) = get_task t db"
    using assms run gates by (cases r) (auto simp: rpc_update_status_def req_def on_store_def)
  have "wt_status w \<in> {WtAbandoned, WtMerged}" if "wm_get (ap_manager a) t = Some w" for w
    using wt that by (cases "wt_status w") (auto simp: worktree_gate_def)
  with stub r update_status_Ok [OF run [unfolded r(1)]] show ?thesis by auto
qed

theorem done_needs_gates_witness:
  "\<exists>v a1. rpc_update_status rpc_quiet (done_params ''T1'') (added_app ''T1'') = (Ok v, a1) \<and>
     (\<exists>r. get_task ''T1'' (ap_db a1) = Some r \<and> at_status r = ''done'')"
proof -
  have "is_ok (fst (rpc_update_status rpc_quiet (done_params ''T1'') (added_app ''T1'')))" by code_simp
  then obtain v a1 where c: "rpc_update_status rpc_quiet (done_params ''T1'') (added_app ''T1'') = (Ok v, a1)"
    by (cases "rpc_update_status rpc_quiet (done_params ''T1'') (added_app ''T1'')") (auto simp: is_ok_iff)
  from done_needs_gates [OF c, of "''T1''"] c show ?thesis by (auto simp: done_params_def get_str_def)
qed

text \<open>A planning document that is read in (\<^verbatim>\<open>tasks.fromPlanning\<close>, \<^verbatim>\<open>tasks.sync\<close>) sets the status of its tasks directly: a task in
  progress is done afterwards, without notes and without a time of completion.\<close>

theorem backfill_skips_gates:
  "let entry = \<lparr>pt_id = ''T1'', pt_title = ''x'', pt_severity = None, pt_file = None, pt_status = ''done'', pt_phase = None, pt_group = None\<rparr>;
       db = snd (backfill_from_tasks 20 ''/r'' 0 [entry] claimed_db)
   in map_option at_status (get_task ''T1'' claimed_db) = Some ''in_progress'' \<and>
      map_option (\<lambda>r. (at_status r, at_notes r, at_completed_at r)) (get_task ''T1'' db) = Some (''done'', None, None)"
  by code_simp

text \<open>A restart opens the worktree gate: the restarted daemon marks every task done that it is given notes for,
  also if its worktree was never merged.\<close>

theorem restart_opens_worktree_gate:
  assumes "app_reachable git data_dir a" and "get_task t (ap_db a) = Some r" and "get_str params ''task_id'' = Some t"
    and "get_str params ''status'' = Some ''done''" and "get_str params ''notes'' = Some n" and "n \<noteq> []"
    and "stub_gate env params = Ok ()"
  shows "is_ok (fst (rpc_update_status env params (restart data_dir a)))"
proof -
  have "schema_ok (ap_db a)"
    using app_reachable_inv [OF assms(1)] by (auto simp: app_inv_def intro: by_ops_schema schema_ok_empty)
  then have "is_ok (fst (update_status (re_now env) t ''done'' (Some n) b (ap_db a)))" for b
    using update_status_accepts [OF _ assms(2) _ refl assms(6)] by (simp add: TASK_STATUSES_def)
  then obtain task db where u: "update_status (re_now env) t ''done'' (Some n) (get_str params ''block_reason'') (ap_db a) = (Ok task, db)"
    by (metis is_ok_iff prod.collapse)
  have "completion_gates env params t ''done'' (restart data_dir a) = Ok ()"
    using assms(7) by (simp add: completion_gates_def worktree_gate_def wm_get_def restart_def new_manager_def)
  with u assms(3-5) show ?thesis by (simp add: rpc_update_status_def req_def on_store_def restart_def)
qed

theorem restart_opens_worktree_gate_witness:
  "is_ok (fst (rpc_update_status rpc_quiet (done_params ''T1'') (restart ''/d'' (added_app ''T1''))))"
proof -
  obtain r where r: "get_task ''T1'' (ap_db (added_app ''T1'')) = Some r" using sample_task by auto
  show ?thesis
    by (rule restart_opens_worktree_gate [OF sample_app_reachable(1) r, where n = "''ok''"])
      (simp_all add: done_params_def get_str_def stub_gate_def str_list_def get_member_def)
qed

text \<open>The worktree a claim creates lies under the base directory, at the id of the task: directly below it for an id
  that the check of ids accepts, but at the id itself for an absolute path, which adding a task does not refuse.\<close>

theorem claim_worktree_location:
  assumes "get_str params ''task_id'' = Some t" and "wm_get (ap_manager a) t = None"
    and "wm_get (ap_manager (snd (rpc_claim git env params a))) t = Some wt"
  shows "wt_path wt = path_join (wm_base (ap_manager a)) t \<and>
    (validate_task_id t = Ok () \<longrightarrow> components (wt_path wt) = components (wm_base (ap_manager a)) @ [t]) \<and>
    (starts_with t ''/'' \<longrightarrow> wt_path wt = t)"
proof -
  obtain ag where ag: "get_str params ''agent_id'' = Some ag"
    using assms by (cases "get_str params ''agent_id''") (auto simp: rpc_claim_def req_def)
  obtain r db where c: "claim_task (re_now env) t ag None (ap_db a) = (r, db)" by fastforce
  obtain task where r: "r = Ok task"
    using assms ag c by (cases r) (auto simp: rpc_claim_def req_def on_store_def)
  have "wt_path wt = path_join (wm_base (ap_manager a)) t"
    using assms ag c r by (auto simp: rpc_claim_def req_def on_store_def dest!: auto_worktree_new [rotated])
  then show ?thesis by (auto simp: components_path_join valid_id_plain) (simp add: path_join_def)
qed

theorem claim_worktree_location_witness:
  "\<exists>wt. wm_get (ap_manager (snd (rpc_claim sample_git rpc_quiet (claim_params ''/etc'') (added_app ''/etc'')))) ''/etc'' = Some wt \<and>
     wt_path wt = ''/etc''"
proof -
  obtain wt where "wm_get (ap_manager (snd (rpc_claim sample_git rpc_quiet (claim_params ''/etc'') (added_app ''/etc'')))) ''/etc'' = Some wt"
    using sample_claim_worktree by blast
  with claim_worktree_location [of "claim_params ''/etc''" "''/etc''" "added_app ''/etc''" sample_git rpc_quiet wt]
  show ?thesis by (auto simp: claim_params_def get_str_def starts_with_def)
qed

text \<open>The call that spawns a child task fails for every input and changes nothing: the type it gives the child is not
  one the table of tasks allows.\<close>

theorem spawn_always_fails:
  "\<not> is_ok (fst (rpc_spawn env insert_genealogy params a)) \<and> snd (rpc_spawn env insert_genealogy params a) = a"
proof -
  have "task_violation (new_task_row now (spawn_args c f p)) = Some ''type''" for now c f p
    by (simp add: task_violation_def new_task_row_def spawn_args_def or_default_def TASK_TYPES_def)
  then have "add_task now (spawn_args c f p) db = (Err (Db (CheckFailed ''type'')), db)" for now c f p db
    by (simp add: add_task_def insert_task_def insert_row_def)
  then show ?thesis by (simp add: rpc_spawn_def req_def on_store_def split: option.split)
qed

end
