(* ===== verification/Pairing.thy ===== *)
theory Pairing
  imports Task_Rpc
begin

text \<open>
  Device pairing (\<^verbatim>\<open>pairing/model.rs\<close>, \<^verbatim>\<open>pairing/storage.rs\<close>, \<^verbatim>\<open>pairing/handlers.rs\<close>) on the tables of
  \<^verbatim>\<open>009_devices.sql\<close>: one-time PINs and the devices that redeemed them. The clock in whole seconds, the numbers of
  the operating system's generator, new identifiers and tokens, the decoder of the request and the environment
  variables are parameters of a call. The generator is an infinite sequence; the loop that draws from it is a partial
  function, so that a call that never returns has the value \<open>None\<close>.
\<close>

section \<open>Rows\<close>

record paired_device =
  pd_id :: string
  pd_name :: string
  pd_platform :: string
  pd_device_token :: string
  pd_created_at :: int
  pd_last_seen_at :: "int option"
  pd_revoked :: int

definition is_revoked :: "paired_device \<Rightarrow> bool" where
  "is_revoked d \<longleftrightarrow> pd_revoked d \<noteq> 0"

record paired_device_public =
  pp_id :: string
  pp_name :: string
  pp_platform :: string
  pp_created_at :: int
  pp_last_seen_at :: "int option"
  pp_revoked :: bool

definition public_view :: "paired_device \<Rightarrow> paired_device_public" where
  "public_view d =
     \<lparr>pp_id = pd_id d, pp_name = pd_name d, pp_platform = pd_platform d, pp_created_at = pd_created_at d,
      pp_last_seen_at = pd_last_seen_at d, pp_revoked = is_revoked d\<rparr>"

record pin_record =
  pr_pin :: string
  pr_expires_at :: int
  pr_used :: int

record pair_request =
  rq_pin :: string
  rq_name :: string
  rq_platform :: string

record pairing_db =
  pb_pins :: "pin_record list"
  pb_devices :: "paired_device list"

section \<open>PINs\<close>

definition PIN_TTL_SECS :: int where
  "PIN_TTL_SECS = 600"

definition pin_range :: u32 where
  "pin_range = 900000"

definition pin_threshold :: u32 where
  "pin_threshold = - 1 - (- 1 mod pin_range)"

definition pin_of_draw :: "u32 \<Rightarrow> string" where
  "pin_of_draw n = pad_zero 6 (show_nat (unat (100000 + n mod pin_range)))"

partial_function (option) draw_pin :: "(nat \<Rightarrow> u32) \<Rightarrow> nat \<Rightarrow> string option" where
  "draw_pin rng i = (let n = rng i in if n < pin_threshold then Some (pin_of_draw n) else draw_pin rng (Suc i))"

definition random_six_digit_pin :: "(nat \<Rightarrow> u32) \<Rightarrow> string option" where
  "random_six_digit_pin rng = draw_pin rng 0"

definition cleanup_expired_pins :: "int \<Rightarrow> pairing_db \<Rightarrow> nat \<times> pairing_db" where
  "cleanup_expired_pins now db =
     (let p = (\<lambda>r. pr_used r = 1 \<or> pr_expires_at r \<le> now)
      in (length (filter p (pb_pins db)), db\<lparr>pb_pins := delete_where p (pb_pins db)\<rparr>))"

text \<open>\<^verbatim>\<open>INSERT ... ON CONFLICT(pin) DO UPDATE\<close>.\<close>

definition upsert_pin :: "string \<Rightarrow> int \<Rightarrow> pin_record list \<Rightarrow> pin_record list" where
  "upsert_pin pin expires_at rows =
     (if pin \<in> pr_pin ` set rows
      then set_where (\<lambda>r. pr_pin r = pin) (\<lambda>r. r\<lparr>pr_expires_at := expires_at, pr_used := 0\<rparr>) rows
      else rows @ [\<lparr>pr_pin = pin, pr_expires_at = expires_at, pr_used = 0\<rparr>])"

definition generate_pin :: "(nat \<Rightarrow> u32) \<Rightarrow> int \<Rightarrow> pairing_db \<Rightarrow> (string \<times> pairing_db) option" where
  "generate_pin rng now db =
     (let db1 = snd (cleanup_expired_pins now db)
      in map_option (\<lambda>pin. (pin, db1\<lparr>pb_pins := upsert_pin pin (now + PIN_TTL_SECS) (pb_pins db1)\<rparr>)) (random_six_digit_pin rng))"

definition redeemable :: "string \<Rightarrow> int \<Rightarrow> pin_record \<Rightarrow> bool" where
  "redeemable pin now r \<longleftrightarrow> pr_pin r = pin \<and> pr_used r = 0 \<and> pr_expires_at r > now"

definition validate_and_consume_pin :: "int \<Rightarrow> string \<Rightarrow> pairing_db \<Rightarrow> bool \<times> pairing_db" where
  "validate_and_consume_pin now pin db =
     (length (filter (redeemable pin now) (pb_pins db)) > 0,
      db\<lparr>pb_pins := set_where (redeemable pin now) (\<lambda>r. r\<lparr>pr_used := 1\<rparr>) (pb_pins db)\<rparr>)"

definition pin_row_exists :: "string \<Rightarrow> pairing_db \<Rightarrow> bool" where
  "pin_row_exists pin db \<longleftrightarrow> select_by pr_pin (pb_pins db) pin \<noteq> None"

section \<open>Devices\<close>

definition issue_device_token ::
  "string \<Rightarrow> string \<Rightarrow> int \<Rightarrow> string \<Rightarrow> string \<Rightarrow> pairing_db \<Rightarrow> (paired_device, db_error) result \<times> pairing_db" where
  "issue_device_token ulid token now name platform db =
     (if ulid \<in> pd_id ` set (pb_devices db) \<or> token \<in> pd_device_token ` set (pb_devices db)
      then (Err (UniqueFailed ''paired_devices''), db)
      else let db1 = db\<lparr>pb_devices := pb_devices db @
             [\<lparr>pd_id = ulid, pd_name = name, pd_platform = platform, pd_device_token = token, pd_created_at = now,
               pd_last_seen_at = None, pd_revoked = 0\<rparr>]\<rparr>
           in case select_by pd_id (pb_devices db1) ulid of
                None \<Rightarrow> (Err RowNotFound, db1)
              | Some d \<Rightarrow> (Ok d, db1))"

definition list_devices :: "pairing_db \<Rightarrow> paired_device_public list" where
  "list_devices db = map public_view (sort_key (\<lambda>d. - pd_created_at d) (filter (\<lambda>d. pd_revoked d = 0) (pb_devices db)))"

definition get_by_token :: "int \<Rightarrow> string \<Rightarrow> pairing_db \<Rightarrow> paired_device option \<times> pairing_db" where
  "get_by_token now token db =
     (case find (\<lambda>d. pd_device_token d = token \<and> pd_revoked d = 0) (pb_devices db) of
        None \<Rightarrow> (None, db)
      | Some d \<Rightarrow>
          let db1 = db\<lparr>pb_devices := set_where (\<lambda>r. pd_id r = pd_id d) (\<lambda>r. r\<lparr>pd_last_seen_at := Some now\<rparr>) (pb_devices db)\<rparr>
          in (select_by pd_id (pb_devices db1) (pd_id d), db1))"

definition revoke_device :: "string \<Rightarrow> pairing_db \<Rightarrow> bool \<times> pairing_db" where
  "revoke_device i db =
     (let p = (\<lambda>d. pd_id d = i \<and> pd_revoked d = 0)
      in (length (filter p (pb_devices db)) > 0, db\<lparr>pb_devices := set_where p (\<lambda>d. d\<lparr>pd_revoked := 1\<rparr>) (pb_devices db)\<rparr>))"

definition rename_device :: "string \<Rightarrow> string \<Rightarrow> pairing_db \<Rightarrow> bool \<times> pairing_db" where
  "rename_device i name db =
     (let p = (\<lambda>d. pd_id d = i)
      in (length (filter p (pb_devices db)) > 0, db\<lparr>pb_devices := set_where p (\<lambda>d. d\<lparr>pd_name := name\<rparr>) (pb_devices db)\<rparr>))"

section \<open>Handlers\<close>

text \<open>The context of the calls: the application, the pairing tables, the daemon's own token and its configuration.\<close>

record 'g server =
  sv_app :: "'g app"
  sv_pairing :: pairing_db
  sv_auth_token :: string
  sv_daemon_id :: string
  sv_relay_url :: string

record pair_env =
  pe_now :: int
  pe_rng :: "nat \<Rightarrow> u32"
  pe_ulid :: string
  pe_token :: string
  pe_var :: "string \<Rightarrow> string option"
  pe_decode :: "json \<Rightarrow> (pair_request, string) result"
  pe_db_message :: "db_error \<Rightarrow> string"

definition PAIR_PIN_INVALID :: int where "PAIR_PIN_INVALID = - 32021"
definition PAIR_PIN_EXPIRED :: int where "PAIR_PIN_EXPIRED = - 32022"
definition DEVICE_NOT_FOUND :: int where "DEVICE_NOT_FOUND = - 32020"

definition host_name :: "(string \<Rightarrow> string option) \<Rightarrow> string" where
  "host_name var = or_default (coalesce (var ''HOSTNAME'') (var ''COMPUTERNAME'')) ''clawd''"

definition announce :: "string \<Rightarrow> json \<Rightarrow> 'g server \<Rightarrow> 'g server" where
  "announce name payload s = s\<lparr>sv_app := emit name payload (sv_app s)\<rparr>"

definition pairing_generate_pin :: "pair_env \<Rightarrow> 'g server \<Rightarrow> ((json, string) result \<times> 'g server) option" where
  "pairing_generate_pin env s =
     map_option (\<lambda>(pin, db).
       (Ok (JObject [(''pin'', JString pin), (''expires_in_seconds'', JNumber ''600''), (''daemon_id'', JString (sv_daemon_id s)),
          (''relay_url'', JString (sv_relay_url s)), (''host_name'', JString (host_name (pe_var env)))]),
        s\<lparr>sv_pairing := db\<rparr>)) (generate_pin (pe_rng env) (pe_now env) (sv_pairing s))"

definition device_pair :: "pair_env \<Rightarrow> json \<Rightarrow> 'g server \<Rightarrow> (json, string) result \<times> 'g server" where
  "device_pair env params s =
     (case pe_decode env params of
        Err e \<Rightarrow> (Err e, s)
      | Ok rq \<Rightarrow>
          let (consumed, db) = validate_and_consume_pin (pe_now env) (rq_pin rq) (sv_pairing s); s1 = s\<lparr>sv_pairing := db\<rparr> in
          if \<not> consumed
          then (Err (if pin_row_exists (rq_pin rq) db then ''PAIR_PIN_EXPIRED: pin expired or already used''
                     else ''PAIR_PIN_INVALID: pin rejected''), s1)
          else (case issue_device_token (pe_ulid env) (pe_token env) (pe_now env) (rq_name rq) (rq_platform rq) db of
                  (Err e, db1) \<Rightarrow> (Err (pe_db_message env e), s\<lparr>sv_pairing := db1\<rparr>)
                | (Ok d, db1) \<Rightarrow>
                    (Ok (JObject [(''device_id'', JString (pd_id d)), (''device_token'', JString (pd_device_token d)),
                       (''host_name'', JString (host_name (pe_var env))), (''daemon_id'', JString (sv_daemon_id s)),
                       (''relay_url'', JString (sv_relay_url s))]),
                     announce ''device.paired'' (JObject [(''device_id'', JString (pd_id d)), (''name'', JString (pd_name d)),
                       (''platform'', JString (pd_platform d))]) (s\<lparr>sv_pairing := db1\<rparr>))))"

definition device_json :: "paired_device_public \<Rightarrow> json" where
  "device_json d =
     JObject [(''id'', JString (pp_id d)), (''name'', JString (pp_name d)), (''platform'', JString (pp_platform d)),
       (''created_at'', JNumber (show_int (pp_created_at d))), (''last_seen_at'', int_or_null (pp_last_seen_at d)),
       (''revoked'', JBool (pp_revoked d))]"

definition device_list :: "'g server \<Rightarrow> json" where
  "device_list s = JObject [(''devices'', JArray (map device_json (list_devices (sv_pairing s))))]"

definition device_revoke :: "json \<Rightarrow> 'g server \<Rightarrow> (json, string) result \<times> 'g server" where
  "device_revoke params s =
     req params ''id'' ''DEVICE_NOT_FOUND: missing `id` parameter'' s (\<lambda>i.
       let (revoked, db) = revoke_device i (sv_pairing s); s1 = s\<lparr>sv_pairing := db\<rparr> in
       if \<not> revoked then (Err (''DEVICE_NOT_FOUND: no active device with id '' @ i), s1)
       else (Ok (JObject [(''revoked'', JBool True)]), announce ''device.revoked'' (JObject [(''device_id'', JString i)]) s1))"

definition device_rename :: "json \<Rightarrow> 'g server \<Rightarrow> (json, string) result \<times> 'g server" where
  "device_rename params s =
     req params ''id'' ''DEVICE_NOT_FOUND: missing `id` parameter'' s (\<lambda>i.
     req params ''name'' ''missing `name` parameter'' s (\<lambda>name.
       let (ok, db) = rename_device i name (sv_pairing s); s1 = s\<lparr>sv_pairing := db\<rparr> in
       if \<not> ok then (Err (''DEVICE_NOT_FOUND: no device with id '' @ i), s1) else (Ok (JObject [(''ok'', JBool True)]), s1)))"

end
