(* ===== verification/Pairing_Props.thy ===== *)
theory Pairing_Props
  imports Pairing
begin

text \<open>
  Pairing: the numbers a PIN is drawn from, the invariant of the tables over every sequence of calls, that a PIN
  admits one device at most, and that a revoked token is never accepted again.
\<close>

section \<open>Drawing a PIN\<close>

lemma pin_threshold_value: "unat pin_threshold = 4772 * 900000"
  by (simp add: pin_threshold_def pin_range_def)

lemma pin_draw_value: "unat (100000 + n mod pin_range) = 100000 + unat n mod 900000"
proof -
  have m: "unat (n mod pin_range) = unat n mod 900000" by (simp add: unat_mod pin_range_def)
  have "unat n mod 900000 < 900000" by simp
  then have "unat (100000 :: u32) + unat (n mod pin_range) < 2 ^ 32" unfolding m by simp
  then show ?thesis using unat_add_lem [where x = "100000 :: u32" and y = "n mod pin_range"] m by simp
qed

lemma length_show_nat: "10 ^ k \<le> n \<Longrightarrow> n < 10 ^ Suc k \<Longrightarrow> length (show_nat n) = Suc k"
proof (induction k arbitrary: n)
  case 0
  then show ?case by (simp add: show_nat.simps)
next
  case (Suc k)
  have "10 ^ k \<le> n div 10" using div_le_mono [OF Suc.prems(1), of 10] by simp
  moreover have "n div 10 < 10 ^ Suc k" using Suc.prems(2) by (simp add: less_mult_imp_div_less)
  moreover have "\<not> n < 10"
  proof -
    have "10 * 1 \<le> 10 * (10 :: nat) ^ k" by (intro mult_le_mono2 one_le_power) simp
    also have "\<dots> \<le> n" using Suc.prems(1) by (simp only: power_Suc)
    finally show ?thesis by (simp add: not_less)
  qed
  ultimately show ?case using Suc.IH by (simp add: show_nat.simps [of n])
qed

lemma length_show_nat_6: "100000 \<le> n \<Longrightarrow> n < 1000000 \<Longrightarrow> length (show_nat n) = 6"
  using length_show_nat [of 5 n] by simp

lemma pin_of_draw_eq: "pin_of_draw n = show_nat (100000 + unat n mod 900000)"
proof -
  have "unat n mod 900000 < 900000" by simp
  then have "length (show_nat (100000 + unat n mod 900000)) = 6" by (intro length_show_nat_6) auto
  then show ?thesis by (simp add: pin_of_draw_def pin_draw_value pad_zero_def)
qed

text \<open>The words below a multiple of \<open>r\<close> with one residue.\<close>

lemma card_residues:
  assumes j: "j < r" and k: "k * r \<le> 2 ^ 32"
  shows "card {n :: u32. unat n < k * r \<and> unat n mod r = j} = k"
proof -
  have below: "i * r + j < k * r" if "i < k" for i
  proof -
    have "Suc i * r \<le> k * r" using that by (intro mult_le_mono1) simp
    with j show ?thesis by simp
  qed
  have word: "unat (of_nat (i * r + j) :: u32) = i * r + j" if "i < k" for i
    using below [OF that] k by (simp only: unat_of_nat) simp
  have "bij_betw (\<lambda>i. of_nat (i * r + j) :: u32) {..<k} {n. unat n < k * r \<and> unat n mod r = j}"
  proof (rule bij_betw_byWitness [where f' = "\<lambda>n. unat n div r"])
    show "\<forall>i \<in> {..<k}. unat (of_nat (i * r + j) :: u32) div r = i" using word j by simp
    show "\<forall>n \<in> {n. unat n < k * r \<and> unat n mod r = j}. of_nat (unat n div r * r + j) = (n :: u32)"
    proof
      fix n :: u32 assume "n \<in> {n. unat n < k * r \<and> unat n mod r = j}"
      then have "unat n div r * r + j = unat n" using div_mult_mod_eq [of "unat n" r] by simp
      then show "of_nat (unat n div r * r + j) = n" by (simp only: of_nat_unat ucast_id)
    qed
    show "(\<lambda>i. of_nat (i * r + j) :: u32) ` {..<k} \<subseteq> {n. unat n < k * r \<and> unat n mod r = j}"
      using word below j by auto
    show "(\<lambda>n :: u32. unat n div r) ` {n. unat n < k * r \<and> unat n mod r = j} \<subseteq> {..<k}"
      by (auto simp: less_mult_imp_div_less)
  qed
  from bij_betw_same_card [OF this] show ?thesis by simp
qed

lemma show_nat_inj [simp]: "show_nat m = show_nat n \<longleftrightarrow> m = n"
  using digits_value by metis

lemma draw_pin_Some: "draw_pin rng i = Some pin \<Longrightarrow> \<exists>j. rng j < pin_threshold \<and> pin = pin_of_draw (rng j)"
proof (erule draw_pin.raw_induct [rotated])
  fix draw and rng :: "nat \<Rightarrow> u32" and i :: nat and pin
  assume IH: "\<And>rng i pin. draw rng i = Some pin \<Longrightarrow> \<exists>j. rng j < pin_threshold \<and> pin = pin_of_draw (rng j)"
    and eq: "(let n = rng i in if n < pin_threshold then Some (pin_of_draw n) else draw rng (Suc i)) = Some pin"
  then show "\<exists>j. rng j < pin_threshold \<and> pin = pin_of_draw (rng j)" by (auto simp: Let_def split: if_splits)
qed

lemma draw_pin_returns: "rng j < pin_threshold \<Longrightarrow> i \<le> j \<Longrightarrow> \<exists>pin. draw_pin rng i = Some pin"
proof (induction "j - i" arbitrary: i)
  case 0
  then show ?case by (simp add: draw_pin.simps)
next
  case (Suc d)
  then show ?case by (cases "i = j") (simp_all add: draw_pin.simps [of rng i] Let_def)
qed

lemma pin_of_draw_6: "length (pin_of_draw n) = 6 \<and> list_all is_digit (pin_of_draw n)"
proof -
  have "unat n mod 900000 < 900000" by simp
  then show ?thesis unfolding pin_of_draw_eq using show_nat_digits length_show_nat_6 by simp
qed

lemma draws_of_pin:
  assumes "100000 \<le> p" "p \<le> 999999"
  shows "card {n :: u32. n < pin_threshold \<and> pin_of_draw n = show_nat p} = 4772"
proof -
  have "n < pin_threshold \<and> pin_of_draw n = show_nat p \<longleftrightarrow> unat n < 4772 * 900000 \<and> unat n mod 900000 = p - 100000" for n :: u32
    using assms(1) by (auto simp: word_less_nat_alt pin_threshold_value pin_of_draw_eq)
  then show ?thesis using card_residues [of "p - 100000" 900000 4772] assms(2) by simp
qed

text \<open>C37: Drawing a PIN: the loop returns exactly if some number of the generator is below the threshold; what it returns
  are six digits; and every number from 100000 to 999999 is the PIN of the same number of draws, so that a uniform
  generator gives uniform PINs.\<close>

theorem pins_uniform:
  "(random_six_digit_pin rng = None \<longleftrightarrow> (\<forall>j. pin_threshold \<le> rng j)) \<and>
   (random_six_digit_pin rng = Some pin \<longrightarrow> length pin = 6 \<and> list_all is_digit pin) \<and>
   (100000 \<le> p \<and> p \<le> 999999 \<longrightarrow> card {n :: u32. n < pin_threshold \<and> pin_of_draw n = show_nat p} = 4772)"
proof (intro conjI impI)
  show "random_six_digit_pin rng = None \<longleftrightarrow> (\<forall>j. pin_threshold \<le> rng j)"
    using draw_pin_Some [of rng 0] draw_pin_returns [of rng _ 0]
    by (cases "draw_pin rng 0") (auto simp: random_six_digit_pin_def not_less [symmetric])
  assume "random_six_digit_pin rng = Some pin"
  then show "length pin = 6" "list_all is_digit pin"
    using draw_pin_Some [of rng 0 pin] pin_of_draw_6 by (auto simp: random_six_digit_pin_def)
qed (simp add: draws_of_pin)

theorem pins_uniform_witness:
  "random_six_digit_pin (\<lambda>i. if i = 0 then 4294967295 else 23456) = Some ''123456'' \<and>
   length ''123456'' = 6 \<and> card {n :: u32. n < pin_threshold \<and> pin_of_draw n = show_nat 123456} = 4772"
proof -
  have "pin_of_draw 23456 = ''123456''" by (simp add: pin_of_draw_eq show_nat.simps digit_chars)
  moreover have "\<not> (4294967295 :: u32) < pin_threshold" "(23456 :: u32) < pin_threshold" by (simp_all add: word_less_nat_alt pin_threshold_value)
  ultimately have d: "random_six_digit_pin (\<lambda>i. if i = 0 then 4294967295 else 23456) = Some ''123456''"
    by (simp add: random_six_digit_pin_def draw_pin.simps Let_def)
  with pins_uniform [of "\<lambda>i. if i = 0 then 4294967295 else 23456" "''123456''" 123456] show ?thesis by simp
qed

section \<open>The calls as steps\<close>

text \<open>A step of the server, with the number of PINs it hands out. The check of a token changes the time the device was
  last seen; every other call of the daemon leaves the pairing tables alone.\<close>

inductive server_step :: "'g server \<Rightarrow> nat \<Rightarrow> 'g server \<Rightarrow> bool" where
  generate: "pairing_generate_pin env s = Some (r, s') \<Longrightarrow> server_step s 1 s'"
| pair: "device_pair env params s = (r, s') \<Longrightarrow> server_step s 0 s'"
| revoke: "device_revoke params s = (r, s') \<Longrightarrow> server_step s 0 s'"
| rename: "device_rename params s = (r, s') \<Longrightarrow> server_step s 0 s'"
| token: "get_by_token now tok (sv_pairing s) = (d, db) \<Longrightarrow> server_step s 0 (s\<lparr>sv_pairing := db\<rparr>)"
| other: "server_step s 0 (s\<lparr>sv_app := a\<rparr>)"

inductive server_run :: "'g server \<Rightarrow> nat \<Rightarrow> 'g server \<Rightarrow> bool" for s where
  refl: "server_run s 0 s"
| step: "server_run s m s1 \<Longrightarrow> server_step s1 k s2 \<Longrightarrow> server_run s (m + k) s2"

definition unpaired :: "'g server \<Rightarrow> bool" where
  "unpaired s \<longleftrightarrow> pb_pins (sv_pairing s) = [] \<and> pb_devices (sv_pairing s) = []"

section \<open>The invariant of the tables\<close>

abbreviation unused :: "pin_record \<Rightarrow> bool" where
  "unused r \<equiv> pr_used r = 0"

definition pairing_ok :: "nat \<Rightarrow> pairing_db \<Rightarrow> bool" where
  "pairing_ok n db \<longleftrightarrow>
     distinct (map pr_pin (pb_pins db)) \<and> distinct (map pd_id (pb_devices db)) \<and> distinct (map pd_device_token (pb_devices db)) \<and>
     (\<forall>d \<in> set (pb_devices db). pd_revoked d \<in> {0, 1}) \<and>
     length (pb_devices db) + length (filter unused (pb_pins db)) \<le> n"

lemma set_where_map [simp]: "(\<And>r. k (f r) = k r) \<Longrightarrow> map k (set_where p f rows) = map k rows"
  by (simp add: set_where_def)

lemma length_set_where [simp]: "length (set_where p f rows) = length rows"
  by (simp add: set_where_def)

lemma set_set_where: "r \<in> set (set_where p f rows) \<longleftrightarrow> (\<exists>r0 \<in> set rows. r = (if p r0 then f r0 else r0))"
  by (auto simp: set_where_def)

lemma length_filter_delete: "length (filter q (delete_where p rows)) \<le> length (filter q rows)"
  by (induction rows) (auto simp: delete_where_def)

lemma unused_consumed:
  "length (filter unused (set_where (redeemable pin now) (\<lambda>r. r\<lparr>pr_used := 1\<rparr>) rows)) + length (filter (redeemable pin now) rows) =
     length (filter unused rows)"
  by (induction rows) (auto simp: set_where_def redeemable_def)

lemma unused_other: "pin \<notin> pr_pin ` set rows \<Longrightarrow> set_where (\<lambda>r. pr_pin r = pin) f rows = rows"
  by (induction rows) (auto simp: set_where_def)

lemma unused_upsert:
  "distinct (map pr_pin rows) \<Longrightarrow> length (filter unused (upsert_pin pin t rows)) \<le> Suc (length (filter unused rows))"
proof -
  have "length (filter unused (set_where (\<lambda>r. pr_pin r = pin) f rows)) \<le> Suc (length (filter unused rows))"
    if "distinct (map pr_pin rows)" for f
    using that
  proof (induction rows)
    case (Cons r rows)
    show ?case
    proof (cases "pr_pin r = pin")
      case True
      with Cons.prems have "set_where (\<lambda>r. pr_pin r = pin) f rows = rows" by (intro unused_other) auto
      then show ?thesis by (simp add: set_where_def)
    next
      case False
      with Cons show ?thesis by (simp add: set_where_def)
    qed
  qed (simp add: set_where_def)
  then show "distinct (map pr_pin rows) \<Longrightarrow> ?thesis" by (simp add: upsert_pin_def)
qed

lemma distinct_upsert: "distinct (map pr_pin rows) \<Longrightarrow> distinct (map pr_pin (upsert_pin pin t rows))"
  by (auto simp: upsert_pin_def)

lemma generate_ok:
  assumes "pairing_ok n db" and "generate_pin rng now db = Some (pin, db')"
  shows "pairing_ok (Suc n) db'"
proof -
  let ?rows = "delete_where (\<lambda>r. pr_used r = 1 \<or> pr_expires_at r \<le> now) (pb_pins db)"
  have d: "distinct (map pr_pin ?rows)"
    using assms(1) by (auto simp: pairing_ok_def delete_where_def distinct_map_filter)
  have "length (filter unused ?rows) \<le> length (filter unused (pb_pins db))"
    by (rule length_filter_delete)
  moreover have "db' = db\<lparr>pb_pins := upsert_pin pin (now + PIN_TTL_SECS) ?rows\<rparr>"
    using assms(2) by (auto simp: generate_pin_def cleanup_expired_pins_def Let_def)
  ultimately show ?thesis
    using assms(1) unused_upsert [OF d, of pin "now + PIN_TTL_SECS"] distinct_upsert [OF d]
    by (auto simp: pairing_ok_def)
qed

lemma issue_ok:
  assumes "pairing_ok n db" and "issue_device_token ulid tok now name platform db = (r, db')"
  shows "pairing_ok (Suc n) db' \<and> (\<forall>e. r = Err e \<longrightarrow> db' = db)"
proof (cases "ulid \<in> pd_id ` set (pb_devices db) \<or> tok \<in> pd_device_token ` set (pb_devices db)")
  case True
  with assms show ?thesis by (auto simp: issue_device_token_def pairing_ok_def)
next
  case False
  then have "select_by pd_id (pb_devices db) ulid = None" by (simp add: select_by_None)
  then have "select_by pd_id (pb_devices db @ [d]) ulid = Some d" if "pd_id d = ulid" for d
    using that by (simp add: select_by_append) (simp add: select_by_def)
  with False assms show ?thesis by (auto simp: issue_device_token_def pairing_ok_def)
qed

lemma consume_ok:
  assumes "pairing_ok n db" and "validate_and_consume_pin now pin db = (c, db')"
  shows "pairing_ok n db' \<and> (c \<longrightarrow> (\<exists>m. n = Suc m \<and> pairing_ok m db'))"
proof -
  have db': "db' = db\<lparr>pb_pins := set_where (redeemable pin now) (\<lambda>r. r\<lparr>pr_used := 1\<rparr>) (pb_pins db)\<rparr>"
    and c: "c \<longleftrightarrow> length (filter (redeemable pin now) (pb_pins db)) > 0"
    using assms(2) by (auto simp: validate_and_consume_pin_def)
  have count: "length (filter unused (pb_pins db')) + length (filter (redeemable pin now) (pb_pins db)) = length (filter unused (pb_pins db))"
    unfolding db' using unused_consumed [of pin now "pb_pins db"] by simp
  show ?thesis
  proof (cases c)
    case True
    with c have "0 < length (filter (redeemable pin now) (pb_pins db))" by simp
    moreover have "length (pb_devices db) + length (filter unused (pb_pins db)) \<le> n" using assms(1) by (simp add: pairing_ok_def)
    ultimately have "Suc (length (pb_devices db) + length (filter unused (pb_pins db'))) \<le> n" using count by linarith
    with assms(1) show ?thesis by (cases n) (auto simp: pairing_ok_def db')
  next
    case False
    with count assms(1) show ?thesis by (auto simp: pairing_ok_def db')
  qed
qed

lemma device_pair_ok:
  assumes "pairing_ok n (sv_pairing s)" and "device_pair env params s = (r, s')"
  shows "pairing_ok n (sv_pairing s')"
proof (cases "pe_decode env params")
  case (Ok rq)
  obtain c db where v: "validate_and_consume_pin (pe_now env) (rq_pin rq) (sv_pairing s) = (c, db)" by fastforce
  note ok = consume_ok [OF assms(1) v]
  show ?thesis
  proof (cases c)
    case True
    with ok obtain m where m: "n = Suc m" "pairing_ok m db" by blast
    obtain r1 db1 where i: "issue_device_token (pe_ulid env) (pe_token env) (pe_now env) (rq_name rq) (rq_platform rq) db = (r1, db1)"
      by fastforce
    from issue_ok [OF m(2) i] m(1) Ok v i True assms(2) show ?thesis
      by (cases r1) (auto simp: device_pair_def announce_def)
  next
    case False
    with ok Ok v assms(2) show ?thesis by (auto simp: device_pair_def)
  qed
qed (use assms in \<open>simp add: device_pair_def\<close>)

text \<open>Updates of device rows that keep the identifier and the token and do not take a revocation back: what every call
  does to the devices but \<^verbatim>\<open>device.pair\<close>.\<close>

definition keeps_device :: "(paired_device \<Rightarrow> paired_device) \<Rightarrow> bool" where
  "keeps_device f \<longleftrightarrow> (\<forall>d. pd_id (f d) = pd_id d \<and> pd_device_token (f d) = pd_device_token d \<and> pd_revoked (f d) \<in> {pd_revoked d, 1})"

definition device_update :: "pairing_db \<Rightarrow> pairing_db \<Rightarrow> bool" where
  "device_update db db' \<longleftrightarrow> (\<exists>p f. keeps_device f \<and> db' = db\<lparr>pb_devices := set_where p f (pb_devices db)\<rparr>)"

lemma device_updateI: "keeps_device f \<Longrightarrow> device_update db (db\<lparr>pb_devices := set_where p f (pb_devices db)\<rparr>)"
  by (auto simp: device_update_def)

lemma keeps_device_fields [simp]:
  "keeps_device (pd_revoked_update (\<lambda>_. 1))" "keeps_device (pd_name_update (\<lambda>_. name))" "keeps_device (pd_last_seen_at_update (\<lambda>_. t))"
  by (simp_all add: keeps_device_def)

lemma device_update_refl [simp]: "device_update db db"
proof -
  have "db = db\<lparr>pb_devices := set_where (\<lambda>_. False) id (pb_devices db)\<rparr>" by (simp add: set_where_def)
  moreover have "keeps_device id" by (simp add: keeps_device_def)
  ultimately show ?thesis unfolding device_update_def by blast
qed

lemma device_updates:
  "device_update (sv_pairing s) (sv_pairing (snd (device_revoke params s)))"
  "device_update (sv_pairing s) (sv_pairing (snd (device_rename params s)))"
  "device_update db (snd (get_by_token now tok db))"
  by (auto simp: device_revoke_def device_rename_def get_by_token_def req_def revoke_device_def rename_device_def announce_def Let_def
      intro: device_updateI split: option.split)

lemma device_update_ok:
  assumes "pairing_ok n db" and "device_update db db'"
  shows "pairing_ok n db'"
proof -
  obtain p f where f: "keeps_device f" and db': "db' = db\<lparr>pb_devices := set_where p f (pb_devices db)\<rparr>"
    using assms(2) by (auto simp: device_update_def)
  have k: "pd_id (f d) = pd_id d" "pd_device_token (f d) = pd_device_token d" "pd_revoked (f d) = pd_revoked d \<or> pd_revoked (f d) = 1" for d
    using f by (auto simp: keeps_device_def)
  have "pd_revoked (if p d then f d else d) \<in> {0, 1}" if "d \<in> set (pb_devices db)" for d
    using assms(1) that k(3) [of d] by (auto simp: pairing_ok_def)
  then have "\<forall>d \<in> set (set_where p f (pb_devices db)). pd_revoked d \<in> {0, 1}" unfolding set_where_def set_map by blast
  then show ?thesis using assms(1) k(1,2) by (simp add: pairing_ok_def db')
qed

lemma server_step_ok: "server_step s k s' \<Longrightarrow> pairing_ok n (sv_pairing s) \<Longrightarrow> pairing_ok (n + k) (sv_pairing s')"
proof (induction rule: server_step.induct)
  case (generate env s r s')
  then show ?case using generate_ok [of n "sv_pairing s"] by (auto simp: pairing_generate_pin_def)
next
  case (pair env params s r s')
  then show ?case using device_pair_ok by simp
next
  case (revoke params s r s')
  then show ?case using device_update_ok [OF _ device_updates(1) [of s params]] by simp
next
  case (rename params s r s')
  then show ?case using device_update_ok [OF _ device_updates(2) [of s params]] by simp
next
  case (token now t s d db)
  then show ?case using device_update_ok [OF _ device_updates(3) [of "sv_pairing s" now t]] by simp
qed simp

lemma server_run_ok: "server_run s n s' \<Longrightarrow> pairing_ok k (sv_pairing s) \<Longrightarrow> pairing_ok (k + n) (sv_pairing s')"
proof (induction rule: server_run.induct)
  case (step m s1 j s2)
  then show ?case using server_step_ok [of s1 j s2 "k + m"] by (simp add: add.assoc)
qed simp

lemma unpaired_ok: "unpaired s \<Longrightarrow> pairing_ok 0 (sv_pairing s)"
  by (simp add: unpaired_def pairing_ok_def)

text \<open>Pairing from an empty database, over every sequence of calls: there are never more devices than PINs handed out,
  and a PIN that can still be redeemed counts as one of them. So a PIN admits at most one device, at any interleaving.
  Identifiers and tokens of devices stay unique.\<close>

theorem pairing_single_use:
  assumes "unpaired s" and "server_run s n s'"
  shows "length (pb_devices (sv_pairing s')) + length (filter (\<lambda>r. pr_used r = 0) (pb_pins (sv_pairing s'))) \<le> n \<and>
    distinct (map pd_id (pb_devices (sv_pairing s'))) \<and> distinct (map pd_device_token (pb_devices (sv_pairing s')))"
  using server_run_ok [OF assms(2) unpaired_ok [OF assms(1)]] by (simp add: pairing_ok_def)

section \<open>Revocation\<close>

text \<open>A device stays in the table, with its token, and stays revoked.\<close>

definition revoked_in :: "string \<Rightarrow> pairing_db \<Rightarrow> bool" where
  "revoked_in tok db \<longleftrightarrow> (\<exists>d \<in> set (pb_devices db). pd_device_token d = tok \<and> pd_revoked d = 1)"

lemma device_update_revoked:
  assumes "revoked_in tok db" and "device_update db db'"
  shows "revoked_in tok db'"
proof -
  obtain p f where f: "keeps_device f" and db': "db' = db\<lparr>pb_devices := set_where p f (pb_devices db)\<rparr>"
    using assms(2) by (auto simp: device_update_def)
  obtain d where d: "d \<in> set (pb_devices db)" "pd_device_token d = tok" "pd_revoked d = 1"
    using assms(1) by (auto simp: revoked_in_def)
  let ?d = "if p d then f d else d"
  have "pd_revoked (f d) \<in> {pd_revoked d, 1}" "pd_device_token (f d) = pd_device_token d" using f by (simp_all add: keeps_device_def)
  then have "pd_device_token ?d = tok" "pd_revoked ?d = 1" using d by auto
  moreover have "?d \<in> set (pb_devices db')" using d(1) by (auto simp: db' set_where_def)
  ultimately show ?thesis unfolding revoked_in_def by blast
qed

lemma device_pair_devices:
  assumes "device_pair env params s = (r, s')"
  shows "\<exists>ds. pb_devices (sv_pairing s') = pb_devices (sv_pairing s) @ ds"
  using assms
  by (auto simp: device_pair_def validate_and_consume_pin_def issue_device_token_def announce_def Let_def
      split: result.splits if_splits option.splits)

lemma server_step_revoked: "server_step s k s' \<Longrightarrow> revoked_in tok (sv_pairing s) \<Longrightarrow> revoked_in tok (sv_pairing s')"
proof (induction rule: server_step.induct)
  case (generate env s r s')
  then show ?case
    by (auto simp: revoked_in_def pairing_generate_pin_def generate_pin_def cleanup_expired_pins_def Let_def)
next
  case (pair env params s r s')
  then show ?case using device_pair_devices by (fastforce simp: revoked_in_def)
next
  case (revoke params s r s')
  then show ?case using device_update_revoked [OF _ device_updates(1) [of s params]] by simp
next
  case (rename params s r s')
  then show ?case using device_update_revoked [OF _ device_updates(2) [of s params]] by simp
next
  case (token now t s d db)
  then show ?case using device_update_revoked [OF _ device_updates(3) [of "sv_pairing s" now t]] by simp
qed simp

lemma server_run_revoked: "server_run s n s' \<Longrightarrow> revoked_in tok (sv_pairing s) \<Longrightarrow> revoked_in tok (sv_pairing s')"
  by (induction rule: server_run.induct) (auto intro: server_step_revoked)

lemma revoked_not_found:
  assumes "pairing_ok n db" and "revoked_in tok db"
  shows "get_by_token now tok db = (None, db)"
proof -
  obtain d where d: "d \<in> set (pb_devices db)" "pd_device_token d = tok" "pd_revoked d = 1"
    using assms(2) by (auto simp: revoked_in_def)
  have "pd_revoked e = 1" if "e \<in> set (pb_devices db)" "pd_device_token e = tok" for e
    using assms(1) that d by (metis distinct_map inj_onD pairing_ok_def)
  then have "find (\<lambda>d. pd_device_token d = tok \<and> pd_revoked d = 0) (pb_devices db) = None"
    by (auto simp: find_None_iff)
  then show ?thesis by (simp add: get_by_token_def)
qed

text \<open>C14: Once \<^verbatim>\<open>device.revoke\<close> has succeeded for a device, its token is refused in every later state.\<close>

theorem revoked_token_refused:
  assumes "unpaired s0" and "server_run s0 m s" and "d \<in> set (pb_devices (sv_pairing s))"
    and "get_str params ''id'' = Some (pd_id d)" and "device_revoke params s = (Ok v, s1)" and "server_run s1 n s2"
  shows "fst (get_by_token now (pd_device_token d) (sv_pairing s2)) = None"
proof -
  let ?p = "\<lambda>x. pd_id x = pd_id d \<and> pd_revoked x = 0"
  have ok: "pairing_ok m (sv_pairing s)" using server_run_ok [OF assms(2) unpaired_ok [OF assms(1)]] by simp
  have s1: "sv_pairing s1 = (sv_pairing s)\<lparr>pb_devices := set_where ?p (\<lambda>x. x\<lparr>pd_revoked := 1\<rparr>) (pb_devices (sv_pairing s))\<rparr>"
    and "filter ?p (pb_devices (sv_pairing s)) \<noteq> []"
    using assms(4,5) by (auto simp: device_revoke_def req_def revoke_device_def announce_def Let_def split: if_splits)
  then obtain e where "e \<in> set (pb_devices (sv_pairing s))" "?p e" by (auto simp: filter_empty_conv)
  with assms(3) ok have "?p d" by (metis distinct_map inj_onD pairing_ok_def)
  then have "revoked_in (pd_device_token d) (sv_pairing s1)"
    unfolding s1 revoked_in_def using assms(3) by (intro bexI [of _ "d\<lparr>pd_revoked := 1\<rparr>"]) (auto simp: set_set_where)
  then have "revoked_in (pd_device_token d) (sv_pairing s2)" by (rule server_run_revoked [OF assms(6)])
  moreover have "pairing_ok m (sv_pairing s1)" unfolding s1 by (intro device_update_ok [OF ok] device_updateI) simp
  then have "pairing_ok (m + n) (sv_pairing s2)" by (rule server_run_ok [OF assms(6)])
  ultimately show ?thesis using revoked_not_found by simp
qed

section \<open>A run\<close>

definition sample_pair_env :: "string \<Rightarrow> pair_env" where
  "sample_pair_env tok =
     \<lparr>pe_now = 1000, pe_rng = (\<lambda>_. 23456), pe_ulid = ''D1'', pe_token = tok, pe_var = Map.empty,
      pe_decode = (\<lambda>v. case get_str v ''pin'' of None \<Rightarrow> Err ''missing field `pin`''
        | Some pin \<Rightarrow> Ok \<lparr>rq_pin = pin, rq_name = ''phone'', rq_platform = ''ios''\<rparr>),
      pe_db_message = (\<lambda>_. ''database error'')\<rparr>"

definition fresh_server :: "'g app \<Rightarrow> 'g server" where
  "fresh_server a = \<lparr>sv_app = a, sv_pairing = \<lparr>pb_pins = [], pb_devices = []\<rparr>, sv_auth_token = ''secret'',
     sv_daemon_id = ''d'', sv_relay_url = ''wss://relay''\<rparr>"

definition sample_device :: "string \<Rightarrow> int \<Rightarrow> paired_device" where
  "sample_device tok revoked = \<lparr>pd_id = ''D1'', pd_name = ''phone'', pd_platform = ''ios'', pd_device_token = tok,
     pd_created_at = 1000, pd_last_seen_at = None, pd_revoked = revoked\<rparr>"

definition sample_pin :: "int \<Rightarrow> pin_record" where
  "sample_pin used = \<lparr>pr_pin = ''123456'', pr_expires_at = 1600, pr_used = used\<rparr>"

lemma sample_generate: "snd (the (pairing_generate_pin (sample_pair_env tok) (fresh_server a))) =
    (fresh_server a)\<lparr>sv_pairing := \<lparr>pb_pins = [sample_pin 0], pb_devices = []\<rparr>\<rparr> \<and>
  pairing_generate_pin (sample_pair_env tok) (fresh_server a) \<noteq> None"
proof -
  have "pin_of_draw 23456 = ''123456''" by (simp add: pin_of_draw_eq show_nat.simps digit_chars)
  moreover have "(23456 :: u32) < pin_threshold" by (simp add: word_less_nat_alt pin_threshold_value)
  ultimately show ?thesis
    by (simp add: pairing_generate_pin_def generate_pin_def random_six_digit_pin_def draw_pin.simps Let_def sample_pair_env_def
        fresh_server_def cleanup_expired_pins_def delete_where_def upsert_pin_def PIN_TTL_SECS_def sample_pin_def)
qed

lemma sample_paired:
  "sv_pairing (snd (device_pair (sample_pair_env tok) (JObject [(''pin'', JString ''123456'')])
      ((fresh_server a)\<lparr>sv_pairing := \<lparr>pb_pins = [sample_pin 0], pb_devices = []\<rparr>\<rparr>))) =
    \<lparr>pb_pins = [sample_pin 1], pb_devices = [sample_device tok 0]\<rparr>"
  by (simp add: device_pair_def sample_pair_env_def fresh_server_def sample_pin_def sample_device_def validate_and_consume_pin_def
      redeemable_def get_str_def issue_device_token_def select_by_def set_where_def announce_def)

lemma sample_run:
  "\<exists>s. server_run (fresh_server a) 1 s \<and> sv_pairing s = \<lparr>pb_pins = [sample_pin 1], pb_devices = [sample_device tok 0]\<rparr>"
proof -
  let ?s1 = "(fresh_server a)\<lparr>sv_pairing := \<lparr>pb_pins = [sample_pin 0], pb_devices = []\<rparr>\<rparr>"
  let ?s2 = "snd (device_pair (sample_pair_env tok) (JObject [(''pin'', JString ''123456'')]) ?s1)"
  obtain r where "pairing_generate_pin (sample_pair_env tok) (fresh_server a) = Some (r, ?s1)"
    using sample_generate [of tok a] by fastforce
  then have "server_run (fresh_server a) (0 + 1) ?s1" by (intro server_run.step [OF server_run.refl] server_step.generate)
  then have "server_run (fresh_server a) (0 + 1 + 0) ?s2"
    by (rule server_run.step) (rule server_step.pair [OF prod.collapse [symmetric]])
  with sample_paired [of tok a] show ?thesis by auto
qed

theorem pairing_single_use_witness:
  "\<exists>s :: unit server. server_run (fresh_server (sample_app WtActive)) 1 s \<and> pb_devices (sv_pairing s) = [sample_device ''t1'' 0] \<and>
     1 + length (filter (\<lambda>r. pr_used r = 0) (pb_pins (sv_pairing s))) \<le> 1"
proof -
  obtain s :: "unit server" where s: "server_run (fresh_server (sample_app WtActive)) 1 s"
      "sv_pairing s = \<lparr>pb_pins = [sample_pin 1], pb_devices = [sample_device ''t1'' 0]\<rparr>"
    using sample_run by blast
  have "unpaired (fresh_server (sample_app WtActive) :: unit server)" by (simp add: unpaired_def fresh_server_def)
  from pairing_single_use [OF this s(1)] s show ?thesis by auto
qed

theorem revoked_token_refused_witness:
  "\<exists>s s1 :: unit server. server_run (fresh_server (sample_app WtActive)) 1 s \<and>
     fst (get_by_token 2000 ''t1'' (sv_pairing s)) \<noteq> None \<and>
     device_revoke (JObject [(''id'', JString ''D1'')]) s = (Ok (JObject [(''revoked'', JBool True)]), s1) \<and>
     fst (get_by_token 2000 ''t1'' (sv_pairing s1)) = None"
proof -
  let ?p = "JObject [(''id'', JString ''D1'')]"
  obtain s :: "unit server" where s: "server_run (fresh_server (sample_app WtActive)) 1 s"
      "sv_pairing s = \<lparr>pb_pins = [sample_pin 1], pb_devices = [sample_device ''t1'' 0]\<rparr>"
    using sample_run by blast
  have u: "unpaired (fresh_server (sample_app WtActive) :: unit server)" by (simp add: unpaired_def fresh_server_def)
  have before: "fst (get_by_token 2000 ''t1'' (sv_pairing s)) \<noteq> None"
    by (simp add: s(2) get_by_token_def sample_device_def select_by_def set_where_def)
  obtain s1 where s1: "device_revoke ?p s = (Ok (JObject [(''revoked'', JBool True)]), s1)"
    by (simp add: device_revoke_def req_def get_str_def revoke_device_def s(2) sample_device_def Let_def)
  have "sample_device ''t1'' 0 \<in> set (pb_devices (sv_pairing s))" by (simp add: s(2))
  from revoked_token_refused [OF u s(1) this _ s1 server_run.refl, of 2000]
  have "fst (get_by_token 2000 ''t1'' (sv_pairing s1)) = None" by (simp add: sample_device_def get_str_def)
  with s(1) before s1 show ?thesis by blast
qed

end
