(* ===== verification/Ipc_Server.thy ===== *)
theory Ipc_Server
  imports Pairing_Props
begin

unbundle bit_operations_syntax

text \<open>
  The daemon's local protocol (\<^verbatim>\<open>ipc/mod.rs\<close>): the two rate limiters, the comparison of tokens, the handshake of a
  connection, the dispatch of a request and the error codes. The JSON reader of a request, the home directory, the
  handlers that are not modelled and the outcome of sending are parameters. A request, a response and a frame are kept as
  values; counters of metrics are left out. A call that never returns has the value \<open>None\<close>.
\<close>

section \<open>Rate limits\<close>

type_synonym 'ip conn_limiter = "'ip \<rightharpoonup> timestamp list"

definition check_and_record :: "('ip \<Rightarrow> bool) \<Rightarrow> timestamp \<Rightarrow> 'ip \<Rightarrow> nat \<Rightarrow> 'ip conn_limiter \<Rightarrow> bool \<times> 'ip conn_limiter" where
  "check_and_record is_loopback now ip limit connections =
     (if is_loopback ip then (True, connections)
      else let one_min_ago = now - secs 60;
               timestamps = filter (\<lambda>t. t > one_min_ago) (case connections ip of Some ts \<Rightarrow> ts | None \<Rightarrow> [])
           in if length timestamps \<ge> limit then (False, connections(ip \<mapsto> timestamps))
              else (True, connections(ip \<mapsto> timestamps @ [now])))"

record rpc_limiter =
  rl_count :: u32
  rl_max_per_min :: u32
  rl_window_start :: timestamp
  rl_is_loopback :: bool

definition new_rpc_limiter :: "timestamp \<Rightarrow> u32 \<Rightarrow> bool \<Rightarrow> rpc_limiter" where
  "new_rpc_limiter now max_per_min is_loopback =
     \<lparr>rl_count = 0, rl_max_per_min = max_per_min, rl_window_start = now, rl_is_loopback = is_loopback\<rparr>"

text \<open>\<^verbatim>\<open>duration_since\<close> is zero for an earlier time, and \<^verbatim>\<open>as_secs\<close> rounds down. The counter wraps.\<close>

definition rpc_check :: "timestamp \<Rightarrow> rpc_limiter \<Rightarrow> bool \<times> rpc_limiter" where
  "rpc_check now l =
     (if rl_is_loopback l then (True, l)
      else let l1 = (if max 0 (now - rl_window_start l) div secs 1 \<ge> 60 then l\<lparr>rl_count := 0, rl_window_start := now\<rparr> else l);
               l2 = l1\<lparr>rl_count := rl_count l1 + 1\<rparr>
           in (rl_count l2 \<le> rl_max_per_min l2, l2))"

section \<open>Tokens\<close>

definition tokens_equal :: "string \<Rightarrow> string \<Rightarrow> bool" where
  "tokens_equal a b =
     (let a = as_bytes a; b = as_bytes b
      in if length a \<noteq> length b then False else foldl (\<lambda>result (x, y). result OR (x XOR y)) 0 (zip a b) = 0)"

section \<open>Requests and responses\<close>

record rpc_request =
  rr_jsonrpc :: string
  rr_id :: "json option"
  rr_method :: string
  rr_params :: "json option"

record rpc_response =
  rs_id :: json
  rs_result :: "json option"
  rs_error :: "(int \<times> string) option"

definition PARSE_ERROR :: int where "PARSE_ERROR = - 32700"
definition INVALID_REQUEST :: int where "INVALID_REQUEST = - 32600"
definition METHOD_NOT_FOUND :: int where "METHOD_NOT_FOUND = - 32601"
definition INVALID_PARAMS :: int where "INVALID_PARAMS = - 32602"
definition INTERNAL_ERROR :: int where "INTERNAL_ERROR = - 32603"
definition UNAUTHORIZED :: int where "UNAUTHORIZED = - 32004"
definition SESSION_NOT_FOUND :: int where "SESSION_NOT_FOUND = - 32001"
definition REPO_NOT_FOUND :: int where "REPO_NOT_FOUND = - 32005"
definition SESSION_BUSY :: int where "SESSION_BUSY = - 32002"
definition RATE_LIMITED :: int where "RATE_LIMITED = - 32003"
definition SESSION_PAUSED_CODE :: int where "SESSION_PAUSED_CODE = - 32006"
definition SESSION_LIMIT_CODE :: int where "SESSION_LIMIT_CODE = - 32007"
definition TOOL_SECURITY_CODE :: int where "TOOL_SECURITY_CODE = - 32028"
definition IPC_RATE_LIMITED_CODE :: int where "IPC_RATE_LIMITED_CODE = - 32029"
definition TASK_NOT_FOUND_CODE :: int where "TASK_NOT_FOUND_CODE = - 32010"
definition TASK_ALREADY_CLAIMED_CODE :: int where "TASK_ALREADY_CLAIMED_CODE = - 32011"
definition MISSING_COMPLETION_NOTES_CODE :: int where "MISSING_COMPLETION_NOTES_CODE = - 32014"
definition TASK_NOT_RESUMABLE_CODE :: int where "TASK_NOT_RESUMABLE_CODE = - 32015"
definition MODE_VIOLATION_CODE :: int where "MODE_VIOLATION_CODE = - 32016"

text \<open>\<^verbatim>\<open>split_once(p).map(|x| x.1)\<close>: what follows the first occurrence.\<close>

fun after :: "string \<Rightarrow> string \<Rightarrow> string option" where
  "after p [] = (if p = [] then Some [] else None)"
| "after p (c # s) = (if prefix p (c # s) then Some (drop (length p) (c # s)) else after p s)"

definition ipc_classify_error :: "string \<Rightarrow> int \<times> string" where
  "ipc_classify_error msg =
     (if starts_with msg ''METHOD_NOT_FOUND:'' then (METHOD_NOT_FOUND, ''Method not found'')
      else if contains msg (task_code TASK_NOT_FOUND) then (TASK_NOT_FOUND_CODE, ''Task not found'')
      else if contains msg (task_code TASK_ALREADY_CLAIMED) then (TASK_ALREADY_CLAIMED_CODE, ''Task already claimed by another agent'')
      else if contains msg (task_code MISSING_COMPLETION_NOTES)
      then (MISSING_COMPLETION_NOTES_CODE, ''Completion notes are required when marking a task done'')
      else if contains msg (task_code (- 32015))
      then (TASK_NOT_RESUMABLE_CODE, ''Task cannot be resumed - not in interrupted or pending state'')
      else if contains msg ''SESSION_NOT_FOUND'' then (SESSION_NOT_FOUND, ''Session not found'')
      else if contains msg ''SESSION_LIMIT_REACHED'' then (SESSION_LIMIT_CODE, ''Session limit reached'')
      else if contains msg ''REPO_NOT_FOUND'' then (REPO_NOT_FOUND, ''Repo not found'')
      else if contains msg ''PROVIDER_NOT_AVAILABLE''
      then (SESSION_BUSY, or_default (after ''PROVIDER_NOT_AVAILABLE: '' msg) ''Provider not available'')
      else if contains msg ''SESSION_BUSY'' then (SESSION_BUSY, ''Session is busy - cancel or wait for the current turn'')
      else if contains msg ''SESSION_PAUSED'' then (SESSION_PAUSED_CODE, ''Session is paused - resume before sending messages'')
      else if contains msg ''TOOL_DENIED:'' \<or> contains msg ''TOOL_NOT_ALLOWED:'' \<or> contains msg ''TOOL_PATH_DENIED:''
      then (TOOL_SECURITY_CODE, ''Tool call blocked by security policy'')
      else if contains msg ''MODE_VIOLATION''
      then (MODE_VIOLATION_CODE, ''Tool rejected - session is in '' @ or_default (after ''MODE_VIOLATION: '' msg) ''FORGE or STORM'' @
              '' mode (write operations blocked)'')
      else if contains msg ''RATE_LIMITED'' then (RATE_LIMITED, ''AI provider rate limit - try again shortly'')
      else if contains msg ''session limit reached'' then (SESSION_LIMIT_CODE, ''Session limit reached'')
      else if contains msg ''session not found'' then (SESSION_NOT_FOUND, ''Session not found'')
      else if contains msg ''repo not found'' \<or> contains msg ''not a git repository'' then (REPO_NOT_FOUND, ''Repo not found'')
      else if contains msg ''rate limit'' \<or> contains msg ''rate_limit'' then (RATE_LIMITED, ''AI provider rate limit - try again shortly'')
      else if contains msg ''missing field'' \<or> contains msg ''invalid type'' then (INVALID_PARAMS, ''Invalid params: '' @ msg)
      else (INTERNAL_ERROR, ''Internal error''))"

definition sanitize_path_in_message :: "string option \<Rightarrow> string \<Rightarrow> string" where
  "sanitize_path_in_message home msg =
     (case home of Some h \<Rightarrow> if h \<noteq> [] then replace_str h ''~'' msg else msg | None \<Rightarrow> msg)"

definition error_response :: "string option \<Rightarrow> json \<Rightarrow> int \<Rightarrow> string \<Rightarrow> rpc_response" where
  "error_response home i code message =
     \<lparr>rs_id = i, rs_result = None, rs_error = Some (code, sanitize_path_in_message home message)\<rparr>"

section \<open>Dispatch\<close>

text \<open>What a call finds: the parameters of the modelled handlers, and in \<open>ce_other\<close> those that are not modelled, which
  have no access to the pairing tables.\<close>

record 'g call_env =
  ce_parse :: "string \<Rightarrow> rpc_request option"
  ce_home :: "string option"
  ce_git :: "'g git2"
  ce_rpc :: rpc_env
  ce_pair :: pair_env
  ce_keys :: "string list"
  ce_genealogy :: "string \<Rightarrow> string \<Rightarrow> string \<Rightarrow> 'g app \<Rightarrow> (unit, string) result \<times> 'g app"
  ce_other :: "string \<Rightarrow> (json \<Rightarrow> 'g app \<Rightarrow> (json, string) result \<times> 'g app) option"

definition on_app :: "'g server \<Rightarrow> ('g app \<Rightarrow> (json, string) result \<times> 'g app) \<Rightarrow> (json, string) result \<times> 'g server" where
  "on_app s h = (let (r, a) = h (sv_app s) in (r, s\<lparr>sv_app := a\<rparr>))"

definition on_daemon :: "('g app \<Rightarrow> daemon \<Rightarrow> (json, string) result \<times> daemon) \<Rightarrow> 'g app \<Rightarrow> (json, string) result \<times> 'g app" where
  "on_daemon h a = (let (r, d) = h a (ap_daemon a) in (r, a\<lparr>ap_daemon := d\<rparr>))"

definition task_call :: "'g call_env \<Rightarrow> string \<Rightarrow> (json \<Rightarrow> 'g app \<Rightarrow> (json, string) result \<times> 'g app) option" where
  "task_call env name =
     (let git = ce_git env; rpc = ce_rpc env; tool = re_tool (ce_rpc env) in
      map_of
        [(''tasks.list'', \<lambda>p a. (Ok (rpc_list rpc p a), a)), (''tasks.get'', \<lambda>p a. (rpc_get p a, a)),
         (''tasks.claim'', rpc_claim git rpc), (''tasks.release'', rpc_release rpc), (''tasks.heartbeat'', rpc_heartbeat rpc),
         (''tasks.updateStatus'', rpc_update_status rpc), (''tasks.addTask'', rpc_add_task rpc), (''tasks.bulkAdd'', rpc_bulk_add rpc),
         (''tasks.logActivity'', rpc_log_activity rpc), (''tasks.note'', rpc_note rpc),
         (''tasks.activity'', \<lambda>p a. (Ok (rpc_activity p a), a)), (''tasks.export'', \<lambda>p a. (Ok (rpc_export rpc p a), a)),
         (''task.spawn'', rpc_spawn rpc (ce_genealogy env)),
         (''worktrees.create'', worktrees_create git tool), (''worktrees.list'', \<lambda>_ a. (Ok (worktrees_list (ce_keys env) a), a)),
         (''worktrees.diff'', worktrees_diff git), (''worktrees.commit'', worktrees_commit git),
         (''worktrees.accept'', worktrees_accept git tool), (''worktrees.reject'', worktrees_reject git tool),
         (''worktrees.delete'', worktrees_delete git), (''worktrees.merge'', worktrees_merge git),
         (''worktrees.cleanup'', \<lambda>_ a. let (v, a1) = worktrees_cleanup git (ce_keys env) a in (Ok v, a1)),
         (''approval.list'', \<lambda>_ a. (Ok (approval_list (re_from_str rpc) (ap_daemon a)), a)),
         (''approval.respond'', \<lambda>p. on_daemon (\<lambda>_. approval_respond (re_from_str rpc) tool p))] name)"

definition ipc_dispatch ::
  "'g call_env \<Rightarrow> string \<Rightarrow> json \<Rightarrow> 'g server \<Rightarrow> ((json, string) result \<times> 'g server) option" where
  "ipc_dispatch env name params s =
     (if name = ''daemon.pairPin'' then pairing_generate_pin (ce_pair env) s
      else if name = ''device.pair'' then Some (device_pair (ce_pair env) params s)
      else if name = ''device.list'' then Some (Ok (device_list s), s)
      else if name = ''device.revoke'' then Some (device_revoke params s)
      else if name = ''device.rename'' then Some (device_rename params s)
      else case coalesce (task_call env name) (ce_other env name) of
             Some h \<Rightarrow> Some (on_app s (h params))
           | None \<Rightarrow> Some (Err (''METHOD_NOT_FOUND:'' @ name), s))"

text \<open>The check of the token on every call: the daemon's own token, or that of a device that is not revoked.\<close>

definition authorize :: "pair_env \<Rightarrow> string \<Rightarrow> 'g server \<Rightarrow> bool \<times> 'g server" where
  "authorize env client_token s =
     (if sv_auth_token s = [] then (True, s)
      else if tokens_equal client_token (sv_auth_token s) then (True, s)
      else if client_token = [] then (False, s)
      else let (d, db) = get_by_token (pe_now env) client_token (sv_pairing s) in (d \<noteq> None, s\<lparr>sv_pairing := db\<rparr>))"

definition or_null :: "json option \<Rightarrow> json" where
  "or_null v = (case v of Some x \<Rightarrow> x | None \<Rightarrow> JNull)"

definition dispatch_text :: "'g call_env \<Rightarrow> string \<Rightarrow> string \<Rightarrow> 'g server \<Rightarrow> (rpc_response \<times> 'g server) option" where
  "dispatch_text env text client_token s =
     (case ce_parse env text of
        None \<Rightarrow> Some (error_response (ce_home env) JNull PARSE_ERROR ''Parse error'', s)
      | Some rq \<Rightarrow>
          let i = or_null (rr_id rq); (allowed, s1) = authorize (ce_pair env) client_token s in
          if \<not> allowed then Some (error_response (ce_home env) i UNAUTHORIZED ''Unauthorized - invalid or missing token'', s1)
          else if rr_jsonrpc rq \<noteq> ''2.0'' then Some (error_response (ce_home env) i INVALID_REQUEST ''Invalid Request'', s1)
          else map_option (\<lambda>(r, s2).
                 (case r of
                    Ok v \<Rightarrow> \<lparr>rs_id = i, rs_result = Some v, rs_error = None\<rparr>
                  | Err e \<Rightarrow> (let (code, msg) = ipc_classify_error e in error_response (ce_home env) i code msg), s2))
               (ipc_dispatch env (rr_method rq) (or_null (rr_params rq)) s1))"

section \<open>A connection\<close>

text \<open>The first bytes of a connection select the health check, the metrics or the protocol.\<close>

datatype conn_route = HealthCheck | Metrics | WebSocket

definition peek_route :: "string \<Rightarrow> conn_route" where
  "peek_route bytes =
     (let n = length (take 13 bytes) in
      if n \<ge> 12 \<and> take 12 bytes = ''GET /health '' then HealthCheck
      else if n \<ge> 13 \<and> take 13 bytes = ''GET /metrics '' then Metrics
      else WebSocket)"

datatype ws_message = WsText string | WsPing string | WsOther | WsClose | WsEnd | WsError | WsTimeout

datatype ws_output = Reply rpc_response | Pong string | Event string

text \<open>The handshake: what is sent, and the token of a connection that is admitted.\<close>

definition handshake :: "'g call_env \<Rightarrow> ws_message \<Rightarrow> 'g server \<Rightarrow> rpc_response list \<times> string option" where
  "handshake env first s =
     (case first of
        WsText text \<Rightarrow>
          (case ce_parse env text of
             None \<Rightarrow> ([error_response (ce_home env) JNull PARSE_ERROR ''Parse error''], None)
           | Some rq \<Rightarrow>
               let i = or_null (rr_id rq) in
               if rr_method rq \<noteq> ''daemon.auth''
               then ([error_response (ce_home env) i UNAUTHORIZED ''Unauthorized - send daemon.auth first''], None)
               else let provided = or_default (get_str (or_null (rr_params rq)) ''token'') [] in
                 if \<not> tokens_equal provided (sv_auth_token s)
                 then ([error_response (ce_home env) i UNAUTHORIZED ''Unauthorized - invalid token''], None)
                 else ([\<lparr>rs_id = i, rs_result = Some (JObject [(''authenticated'', JBool True)]), rs_error = None\<rparr>], Some provided))
      | _ \<Rightarrow> ([], None))"

record connection =
  cn_token :: string
  cn_limiter :: rpc_limiter

text \<open>A frame of an admitted connection or an event of the broadcaster; \<open>None\<close> in the result closes the connection.
  A handler that never returns keeps the connection waiting: the outer \<open>None\<close>.\<close>

datatype conn_input = Frame ws_message | Broadcast string | Lagged nat | BroadcastClosed

definition conn_step ::
  "'g call_env \<Rightarrow> timestamp \<Rightarrow> bool \<Rightarrow> conn_input \<Rightarrow> connection \<Rightarrow> 'g server \<Rightarrow>
   (ws_output list \<times> connection option \<times> 'g server) option" where
  "conn_step env now send_ok input c s =
     (let keep = (\<lambda>c1. if send_ok then Some c1 else None) in
      case input of
        Frame (WsText text) \<Rightarrow>
          (let (allowed, l) = rpc_check now (cn_limiter c); c1 = c\<lparr>cn_limiter := l\<rparr> in
           if \<not> allowed
           then Some ([Reply (error_response (ce_home env) JNull IPC_RATE_LIMITED_CODE ''RPC rate limit exceeded - try again shortly'')], keep c1, s)
           else map_option (\<lambda>(r, s1). ([Reply r], keep c1, s1)) (dispatch_text env text (cn_token c) s))
      | Frame (WsPing data) \<Rightarrow> Some ([Pong data], Some c, s)
      | Frame WsOther \<Rightarrow> Some ([], Some c, s)
      | Frame _ \<Rightarrow> Some ([], None, s)
      | Broadcast json \<Rightarrow> Some ([Event json], keep c, s)
      | Lagged _ \<Rightarrow> Some ([], Some c, s)
      | BroadcastClosed \<Rightarrow> Some ([], None, s))"

text \<open>The start of a connection: without a token of the daemon there is no handshake.\<close>

definition open_connection ::
  "'g call_env \<Rightarrow> timestamp \<Rightarrow> u32 \<Rightarrow> bool \<Rightarrow> ws_message \<Rightarrow> 'g server \<Rightarrow> rpc_response list \<times> connection option" where
  "open_connection env now max_calls is_loopback first s =
     (let limiter = new_rpc_limiter now max_calls is_loopback in
      if sv_auth_token s = [] then ([], Some \<lparr>cn_token = [], cn_limiter = limiter\<rparr>)
      else let (out, tok) = handshake env first s
           in (out, map_option (\<lambda>t. \<lparr>cn_token = t, cn_limiter = limiter\<rparr>) tok))"

end
