(* ===== verification/Ipc_Props.thy ===== *)
theory Ipc_Props
  imports Ipc_Server Task_Rpc_Props
begin

text \<open>
  The local protocol: the comparison of tokens is equality, the connection limiter keeps its bound in every window of a
  minute, a call without a valid token reaches no handler, every sequence of calls is a run of the pairing steps, and
  which error code a failure is answered with.
\<close>

unbundle bit_operations_syntax

section \<open>Tokens\<close>

lemma of_char_u8_inj: "(of_char c :: u8) = of_char d \<longleftrightarrow> c = d"
proof
  assume "(of_char c :: u8) = of_char d"
  then have "unat (of_nat (of_char c) :: u8) = unat (of_nat (of_char d) :: u8)" by (simp add: of_nat_of_char)
  then have "(of_char c :: nat) mod 256 = of_char d mod 256" by (simp add: unat_of_nat)
  then show "c = d" by simp
qed simp

lemma or_fold_zero: "foldl (\<lambda>r (x, y). r OR (x XOR y)) (z :: u8) ps = 0 \<longleftrightarrow> z = 0 \<and> (\<forall>(x, y) \<in> set ps. x = y)"
proof (induction ps arbitrary: z)
  case (Cons p ps)
  obtain x y where p: "p = (x, y)" by (cases p)
  have "x XOR y = 0 \<longleftrightarrow> x = y" by (auto simp: bit_eq_iff bit_xor_iff)
  then have "z OR (x XOR y) = 0 \<longleftrightarrow> z = 0 \<and> x = y" by (simp add: or_eq_0_iff)
  with Cons.IH p show ?case by auto
qed simp

lemma tokens_equal_iff: "tokens_equal a b \<longleftrightarrow> a = b"
proof -
  have "(\<forall>(x, y) \<in> set (zip (as_bytes a) (as_bytes b)). x = y) \<longleftrightarrow> a = b" if "length a = length b"
    using that by (induction a b rule: list_induct2) (auto simp: as_bytes_def of_char_u8_inj)
  then show ?thesis by (auto simp: tokens_equal_def Let_def or_fold_zero as_bytes_def)
qed

section \<open>The limit on connections\<close>

text \<open>A sequence of attempts, each with its time and its address, and those that are admitted.\<close>

definition attempt ::
  "('ip \<Rightarrow> bool) \<Rightarrow> nat \<Rightarrow> (timestamp \<times> 'ip) list \<times> 'ip conn_limiter \<Rightarrow> timestamp \<times> 'ip \<Rightarrow> (timestamp \<times> 'ip) list \<times> 'ip conn_limiter" where
  "attempt is_loopback limit st x =
     (let (ok, c) = check_and_record is_loopback (fst x) (snd x) limit (snd st) in (if ok then fst st @ [x] else fst st, c))"

definition admitted :: "('ip \<Rightarrow> bool) \<Rightarrow> nat \<Rightarrow> (timestamp \<times> 'ip) list \<Rightarrow> (timestamp \<times> 'ip) list" where
  "admitted is_loopback limit xs = fst (foldl (attempt is_loopback limit) ([], Map.empty) xs)"

definition times_of :: "'ip \<Rightarrow> (timestamp \<times> 'ip) list \<Rightarrow> timestamp list" where
  "times_of ip adm = map fst (filter (\<lambda>x. snd x = ip) adm)"

definition stored :: "'ip \<Rightarrow> 'ip conn_limiter \<Rightarrow> timestamp list" where
  "stored ip c = (case c ip of Some ts \<Rightarrow> ts | None \<Rightarrow> [])"

lemma times_of_simps [simp]:
  "times_of ip [] = []" "times_of ip (xs @ [(u, j)]) = (if j = ip then times_of ip xs @ [u] else times_of ip xs)"
  by (simp_all add: times_of_def)

text \<open>Up to the time \<open>T\<close>: the limiter remembers the admitted connections of the last minute, and no window holds too
  many of them.\<close>

definition limiter_ok :: "nat \<Rightarrow> 'ip \<Rightarrow> timestamp \<Rightarrow> (timestamp \<times> 'ip) list \<times> 'ip conn_limiter \<Rightarrow> bool" where
  "limiter_ok limit ip T st \<longleftrightarrow>
     (\<forall>u \<in> set (times_of ip (fst st)). u \<le> T) \<and>
     (\<forall>t \<ge> T - secs 60. filter (\<lambda>u. t < u) (times_of ip (fst st)) = filter (\<lambda>u. t < u) (stored ip (snd st))) \<and>
     (\<forall>t. length (filter (\<lambda>u. t - secs 60 < u \<and> u \<le> t) (times_of ip (fst st))) \<le> limit)"

lemma limiter_ok_later: "limiter_ok limit ip T st \<Longrightarrow> T \<le> T' \<Longrightarrow> limiter_ok limit ip T' st"
  by (fastforce simp: limiter_ok_def)

lemma length_filter_mono: "(\<And>x. x \<in> set xs \<Longrightarrow> p x \<Longrightarrow> q x) \<Longrightarrow> length (filter p xs) \<le> length (filter q xs)"
  by (induction xs) auto

lemma filter_newer: "t0 \<le> t \<Longrightarrow> filter (\<lambda>u. t0 < u \<and> t < u) us = filter (\<lambda>u. t < u) (us :: timestamp list)"
  by (rule filter_cong) auto

lemma attempt_ok:
  assumes ok: "limiter_ok limit ip T st" and nl: "\<not> is_loopback ip" and t: "T \<le> fst x"
  shows "limiter_ok limit ip (fst x) (attempt is_loopback limit st x)"
proof (cases "snd x = ip")
  case other: False
  have "stored ip (snd (check_and_record is_loopback (fst x) (snd x) limit (snd st))) = stored ip (snd st)"
    using other by (simp add: check_and_record_def stored_def Let_def)
  then show ?thesis
    using limiter_ok_later [OF ok t] other
    by (cases x) (auto simp: attempt_def limiter_ok_def split_beta)
next
  case True
  let ?now = "fst x" and ?us = "times_of ip (fst st)"
  let ?ts = "filter (\<lambda>u. ?now - secs 60 < u) (stored ip (snd st))"
  have ok': "limiter_ok limit ip ?now st" by (rule limiter_ok_later [OF ok t])
  have ts: "?ts = filter (\<lambda>u. ?now - secs 60 < u) ?us" using ok' by (simp add: limiter_ok_def)
  have x: "x = (?now, ip)" using True by (cases x) simp
  show ?thesis
  proof (cases "limit \<le> length ?ts")
    case True
    then have "attempt is_loopback limit st x = (fst st, (snd st)(ip \<mapsto> ?ts))"
      using nl by (subst x) (simp add: attempt_def check_and_record_def stored_def Let_def)
    with ok' show ?thesis by (simp add: limiter_ok_def stored_def [of ip "(snd st)(ip \<mapsto> _)"] filter_newer)
  next
    case False
    then have a: "attempt is_loopback limit st x = (fst st @ [(?now, ip)], (snd st)(ip \<mapsto> ?ts @ [?now]))"
      using nl by (subst x) (simp add: attempt_def check_and_record_def stored_def Let_def)
    have "length (filter (\<lambda>u. t - secs 60 < u \<and> u \<le> t) (?us @ [?now])) \<le> limit" for t
    proof (cases "?now \<le> t")
      case True
      then have "length (filter (\<lambda>u. t - secs 60 < u \<and> u \<le> t) ?us) \<le> length ?ts"
        unfolding ts by (intro length_filter_mono) auto
      with False show ?thesis by simp
    qed (use ok' in \<open>simp add: limiter_ok_def\<close>)
    with ok' show ?thesis unfolding a by (simp add: limiter_ok_def stored_def [of ip "(snd st)(ip \<mapsto> _)"] filter_newer)
  qed
qed

lemma attempts_ok:
  assumes "\<not> is_loopback ip"
  shows "limiter_ok limit ip T st \<Longrightarrow> sorted (T # map fst xs) \<Longrightarrow>
    \<exists>T'. limiter_ok limit ip T' (foldl (attempt is_loopback limit) st xs)"
proof (induction xs arbitrary: T st)
  case (Cons x xs)
  have "limiter_ok limit ip (fst x) (attempt is_loopback limit st x)"
    using Cons.prems assms by (intro attempt_ok) auto
  from Cons.IH [OF this] Cons.prems(2) show ?case by simp
qed auto

text \<open>The connection limiter over any sequence of attempts in the order of time, from any addresses: in every span of
  sixty seconds it admits at most the configured number of connections of an address that is not the local machine.\<close>

theorem connection_window_bound:
  assumes "sorted (map fst xs)" and "\<not> is_loopback ip"
  shows "length (filter (\<lambda>(u, j). j = ip \<and> t - secs 60 < u \<and> u \<le> t) (admitted is_loopback limit xs)) \<le> limit"
proof -
  let ?st = "foldl (attempt is_loopback limit) ([], Map.empty) xs"
  have "\<exists>T. limiter_ok limit ip T ?st"
  proof (cases xs)
    case Nil
    then show ?thesis by (auto simp: limiter_ok_def stored_def)
  next
    case (Cons x xs')
    have "limiter_ok limit ip (fst x) ([], Map.empty)" by (simp add: limiter_ok_def stored_def)
    then show ?thesis using assms Cons by (intro attempts_ok) auto
  qed
  then have "length (filter (\<lambda>u. t - secs 60 < u \<and> u \<le> t) (times_of ip (fst ?st))) \<le> limit"
    by (auto simp: limiter_ok_def)
  then show ?thesis
    by (simp add: admitted_def times_of_def filter_map o_def) (simp add: case_prod_unfold conj_commute)
qed

theorem connection_window_bound_witness:
  "admitted (\<lambda>_. False) 2 [(0, ''a''), (secs 1, ''a''), (secs 2, ''b''), (secs 3, ''a''), (secs 61, ''a'')] =
     [(0, ''a''), (secs 1, ''a''), (secs 2, ''b''), (secs 61, ''a'')] \<and>
   length (filter (\<lambda>(u, j). j = ''a'' \<and> secs 50 - secs 60 < u \<and> u \<le> secs 50)
     (admitted (\<lambda>_. False) 2 [(0, ''a''), (secs 1, ''a''), (secs 2, ''b''), (secs 3, ''a''), (secs 61, ''a'')])) \<le> 2"
  using connection_window_bound [of "[(0, ''a''), (secs 1, ''a''), (secs 2, ''b''), (secs 3, ''a''), (secs 61, ''a'')]" "\<lambda>_. False" "''a''" "secs 50" 2]
  by (simp add: admitted_def attempt_def check_and_record_def)

section \<open>Calls as pairing steps\<close>

lemma server_step_same: "server_step s 0 s"
  using server_step.other [of s "sv_app s"] by simp

lemma on_app_step: "on_app s h = (r, s') \<Longrightarrow> server_step s 0 s'"
  by (auto simp: on_app_def split_beta intro: server_step.other)

definition pins_of :: "string \<Rightarrow> nat" where
  "pins_of name = (if name = ''daemon.pairPin'' then 1 else 0)"

lemma ipc_dispatch_step: "ipc_dispatch env name params s = Some (r, s') \<Longrightarrow> server_step s (pins_of name) s'"
  by (auto simp: ipc_dispatch_def pins_of_def server_step_same intro: server_step.intros(2-) on_app_step
      server_step.generate [unfolded One_nat_def] split: if_splits option.splits)

lemma authorize_step: "authorize env tok s = (b, s') \<Longrightarrow> server_step s 0 s'"
  by (auto simp: authorize_def server_step_same split_beta intro: server_step.token [OF prod.collapse [symmetric]] split: if_splits)

lemma server_run_1: "server_step s k s' \<Longrightarrow> server_run s k s'"
  using server_run.step [OF server_run.refl] by fastforce

lemma server_run_trans: "server_run s1 n s2 \<Longrightarrow> server_run s0 m s1 \<Longrightarrow> server_run s0 (m + n) s2"
proof (induction rule: server_run.induct)
  case (step k s1' j s2)
  then have "server_run s0 (m + k) s1'" by simp
  from server_run.step [OF this step.hyps(2)] show ?case by (simp add: add.assoc)
qed simp

text \<open>The PINs a call may hand out: one for a request that is read and names \<^verbatim>\<open>daemon.pairPin\<close>.\<close>

definition call_pins :: "'g call_env \<Rightarrow> string \<Rightarrow> nat" where
  "call_pins env text = (case ce_parse env text of Some rq \<Rightarrow> pins_of (rr_method rq) | None \<Rightarrow> 0)"

lemma dispatch_text_run:
  assumes "dispatch_text env text tok s = Some (r, s')"
  shows "\<exists>n \<le> call_pins env text. server_run s n s'"
proof (cases "ce_parse env text")
  case None
  with assms show ?thesis by (auto simp: dispatch_text_def intro: server_run.refl)
next
  case (Some rq)
  obtain b s1 where a: "authorize (ce_pair env) tok s = (b, s1)" by fastforce
  have s1: "server_run s 0 s1" by (rule server_run_1 [OF authorize_step [OF a]])
  show ?thesis
  proof (cases "b \<and> rr_jsonrpc rq = ''2.0''")
    case True
    with Some a assms obtain r1 where "ipc_dispatch env (rr_method rq) (or_null (rr_params rq)) s1 = Some (r1, s')"
      by (auto simp: dispatch_text_def)
    from server_run_trans [OF server_run_1 [OF ipc_dispatch_step [OF this]] s1]
    show ?thesis using Some by (auto simp: call_pins_def)
  next
    case False
    with Some a assms s1 show ?thesis by (auto simp: dispatch_text_def split: if_splits)
  qed
qed

text \<open>A sequence of requests, each with its environment and the token it is sent under.\<close>

fun calls :: "('g call_env \<times> string \<times> string) list \<Rightarrow> 'g server \<Rightarrow> 'g server option" where
  "calls [] s = Some s"
| "calls ((env, text, tok) # cs) s =
     (case dispatch_text env text tok s of None \<Rightarrow> None | Some (r, s1) \<Rightarrow> calls cs s1)"

lemma calls_run: "calls cs s = Some s' \<Longrightarrow> \<exists>n \<le> sum_list (map (\<lambda>(env, text, tok). call_pins env text) cs). server_run s n s'"
proof (induction cs arbitrary: s)
  case Nil
  then show ?case by (auto intro: server_run.refl)
next
  case (Cons c cs)
  obtain env body tok where c: "c = (env, body, tok)" by (cases c)
  with Cons.prems obtain r s1 where d: "dispatch_text env body tok s = Some (r, s1)" and rest: "calls cs s1 = Some s'"
    by (auto split: option.splits)
  obtain m where m: "m \<le> call_pins env body" "server_run s m s1" using dispatch_text_run [OF d] by blast
  obtain n where n: "n \<le> sum_list (map (\<lambda>(env, text, tok). call_pins env text) cs)" "server_run s1 n s'"
    using Cons.IH [OF rest] by blast
  from server_run_trans [OF n(2) m(2)] m(1) n(1) show ?case by (auto simp: c intro!: exI [of _ "m + n"])
qed

text \<open>C13: The protocol from an empty database, over every sequence of requests under whatever tokens: there are at most as
  many paired devices as requests for a PIN, and identifiers and tokens of devices are unique.\<close>

theorem protocol_single_use:
  assumes "unpaired s" and "calls cs s = Some s'"
  shows "length (pb_devices (sv_pairing s')) \<le> length (filter (\<lambda>(env, text, tok). call_pins env text = 1) cs) \<and>
    distinct (map pd_id (pb_devices (sv_pairing s'))) \<and> distinct (map pd_device_token (pb_devices (sv_pairing s')))"
proof -
  obtain n where n: "n \<le> sum_list (map (\<lambda>(env, text, tok). call_pins env text) cs)" "server_run s n s'"
    using calls_run [OF assms(2)] by blast
  have "sum_list (map (\<lambda>(env, text, tok). call_pins env text) cs) = length (filter (\<lambda>(env, text, tok). call_pins env text = 1) cs)"
    by (induction cs) (auto simp: call_pins_def pins_of_def split: option.splits)
  with pairing_single_use [OF assms(1) n(2)] n(1) show ?thesis by auto
qed

section \<open>Who may call\<close>

definition active_token :: "string \<Rightarrow> pairing_db \<Rightarrow> bool" where
  "active_token tok db \<longleftrightarrow> (\<exists>d \<in> set (pb_devices db). pd_device_token d = tok \<and> pd_revoked d = 0)"

lemma get_by_token_cases:
  "fst (get_by_token now tok db) \<noteq> None \<longleftrightarrow> active_token tok db" "\<not> active_token tok db \<Longrightarrow> get_by_token now tok db = (None, db)"
proof -
  let ?f = "find (\<lambda>d. pd_device_token d = tok \<and> pd_revoked d = 0) (pb_devices db)"
  have none: "?f = None \<longleftrightarrow> \<not> active_token tok db" by (auto simp: active_token_def find_None_iff)
  then show "\<not> active_token tok db \<Longrightarrow> get_by_token now tok db = (None, db)" by (simp add: get_by_token_def)
  have "fst (get_by_token now tok db) \<noteq> None" if "?f = Some d" for d
  proof -
    have "pd_id d \<in> pd_id ` set (pb_devices db)" using that by (auto simp: find_Some_iff)
    moreover have "pd_id ` set (set_where p (pd_last_seen_at_update (\<lambda>_. Some now)) rows) = pd_id ` set rows" for p and rows :: "paired_device list"
      unfolding set_map [symmetric] by simp
    ultimately show ?thesis using that by (simp add: get_by_token_def select_by_None del: not_None_eq)
  qed
  with none show "fst (get_by_token now tok db) \<noteq> None \<longleftrightarrow> active_token tok db"
    by (cases ?f) (auto simp: get_by_token_def)
qed

lemma authorize_iff:
  assumes "sv_auth_token s \<noteq> []"
  shows "fst (authorize env tok s) \<longleftrightarrow> tok = sv_auth_token s \<or> tok \<noteq> [] \<and> active_token tok (sv_pairing s)"
    and "\<not> fst (authorize env tok s) \<Longrightarrow> snd (authorize env tok s) = s"
  using assms get_by_token_cases(1) [of "pe_now env" tok "sv_pairing s"] get_by_token_cases(2) [of tok "sv_pairing s" "pe_now env"]
  by (auto simp: authorize_def tokens_equal_iff split_beta)

text \<open>C12: Access: if the daemon has a token, a call that changes anything or returns a result was made under that token or
  under the token of a paired device that is not revoked.\<close>

theorem call_needs_valid_token:
  assumes "sv_auth_token s \<noteq> []" and "dispatch_text env text tok s = Some (r, s')" and "s' \<noteq> s \<or> rs_result r \<noteq> None"
  shows "tok = sv_auth_token s \<or> (\<exists>d \<in> set (pb_devices (sv_pairing s)). pd_device_token d = tok \<and> pd_revoked d = 0)"
proof (rule ccontr)
  assume "\<not> ?thesis"
  then have "\<not> fst (authorize (ce_pair env) tok s)" using authorize_iff(1) [OF assms(1)] by (auto simp: active_token_def)
  with authorize_iff(2) [OF assms(1) this] have a: "authorize (ce_pair env) tok s = (False, s)" by (metis prod.collapse)
  show False using assms(2,3) a by (auto simp: dispatch_text_def error_response_def split: option.splits)
qed

text \<open>A connection: it is admitted under the daemon's own token only, keeps that token, and every call over it passes
  the check without a look at the paired devices. A device that presents its own token at the start is refused.\<close>

theorem device_token_cannot_connect:
  assumes "sv_auth_token s \<noteq> []" and "open_connection env now calls_per_min local first s = (out, c)"
  shows "(\<forall>cn. c = Some cn \<longrightarrow> cn_token cn = sv_auth_token s \<and> authorize penv (cn_token cn) s = (True, s)) \<and>
    (\<forall>text rq tok. first = WsText text \<and> ce_parse env text = Some rq \<and> rr_method rq = ''daemon.auth'' \<and>
       get_str (or_null (rr_params rq)) ''token'' = Some tok \<and> tok \<noteq> sv_auth_token s \<longrightarrow>
       c = None \<and> map (map_option fst \<circ> rs_error) out = [Some UNAUTHORIZED])"
  using assms
  by (auto simp: open_connection_def handshake_def tokens_equal_iff authorize_def Let_def error_response_def or_default_def
      split: ws_message.splits option.splits if_splits)

section \<open>Error codes\<close>

lemma contains_hd: "contains s p \<Longrightarrow> p \<noteq> [] \<Longrightarrow> hd p \<in> set s"
  by (induction s) (auto simp: neq_Nil_conv)

lemma show_nat_no_T: "CHR ''T'' \<notin> set (show_nat n)"
  using show_nat_digits [of n] by (auto simp: list_all_iff is_digit_def)

lemma contains_no_T [simp]: "CHR ''T'' \<notin> set s \<Longrightarrow> \<not> contains s (CHR ''T'' # p)"
  using contains_hd [of s "CHR ''T'' # p"] by auto

text \<open>The code of a failure of the store.\<close>

fun store_code :: "task_error \<Rightarrow> int" where
  "store_code (TaskCode c) = (if c \<in> {TASK_NOT_FOUND, TASK_ALREADY_CLAIMED, MISSING_COMPLETION_NOTES} then c else INTERNAL_ERROR)"
| "store_code (NotResumable elapsed limit) = TASK_NOT_RESUMABLE_CODE"
| "store_code _ = INTERNAL_ERROR"

definition coded :: "task_error \<Rightarrow> bool" where
  "coded e \<longleftrightarrow> store_code e \<noteq> INTERNAL_ERROR"

lemmas ipc_codes = METHOD_NOT_FOUND_def INTERNAL_ERROR_def TASK_NOT_FOUND_def TASK_NOT_FOUND_CODE_def TASK_ALREADY_CLAIMED_def
  TASK_ALREADY_CLAIMED_CODE_def MISSING_COMPLETION_NOTES_def MISSING_COMPLETION_NOTES_CODE_def TASK_NOT_RESUMABLE_CODE_def

lemma task_code_texts:
  "task_code TASK_NOT_FOUND = ''TASK_CODE:-32010''" "task_code TASK_ALREADY_CLAIMED = ''TASK_CODE:-32011''"
  "task_code MISSING_COMPLETION_NOTES = ''TASK_CODE:-32014''" "task_code (- 32015) = ''TASK_CODE:-32015''"
  by (simp_all add: task_code_def ipc_codes show_int_def show_nat.simps digit_chars)

lemma classify_not_resumable:
  "fst (ipc_classify_error (show_task_error env (NotResumable elapsed limit))) = TASK_NOT_RESUMABLE_CODE"
proof -
  define rest where "rest = tl (show_task_error env (NotResumable elapsed limit))"
  have "CHR ''T'' \<notin> set (show_int i)" for i using show_nat_no_T by (simp add: show_int_def)
  then have no: "CHR ''T'' \<notin> set rest" by (simp add: rest_def)
  have msg: "show_task_error env (NotResumable elapsed limit) = CHR ''T'' # rest" by (simp add: rest_def)
  have "\<exists>more. rest = ''ASK_CODE:-32015'' @ more" by (simp add: rest_def)
  then obtain more where more: "rest = ''ASK_CODE:-32015'' @ more" by blast
  with no have "CHR ''T'' \<notin> set more" by simp
  then show ?thesis unfolding msg ipc_classify_error_def task_code_texts by (simp add: starts_with_def more)
qed

lemma classify_task_codes:
  "fst (ipc_classify_error ''TASK_CODE:-32010'') = - 32010" "fst (ipc_classify_error ''TASK_CODE:-32011'') = - 32011"
  "fst (ipc_classify_error ''TASK_CODE:-32014'') = - 32014"
  by (simp_all add: ipc_classify_error_def task_code_texts starts_with_def) (simp_all add: ipc_codes)

lemma classify_store_error:
  assumes "coded e"
  shows "fst (ipc_classify_error (show_task_error env e)) = store_code e"
proof (cases e)
  case (TaskCode c)
  then have "c = TASK_NOT_FOUND \<or> c = TASK_ALREADY_CLAIMED \<or> c = MISSING_COMPLETION_NOTES"
    using assms by (auto simp: coded_def split: if_splits)
  then have "fst (ipc_classify_error (task_code c)) = c" using classify_task_codes task_code_texts by (auto simp: ipc_codes)
  then show ?thesis using assms TaskCode by (auto simp: task_code_def coded_def split: if_splits)
next
  case (NotResumable a b)
  then show ?thesis using classify_not_resumable by simp
qed (use assms in \<open>simp_all add: coded_def\<close>)

text \<open>A failed claim, from the store to the wire: the error code of the task store reaches the client of
  \<^verbatim>\<open>tasks.claim\<close> unchanged, also for an interrupted task whose time to resume is over.\<close>

theorem claim_error_reaches_client:
  assumes "ce_parse env text = Some rq" and "rr_jsonrpc rq = ''2.0''" and "rr_method rq = ''tasks.claim''"
    and "rr_params rq = Some params" and "get_str params ''task_id'' = Some t" and "get_str params ''agent_id'' = Some a"
    and "claim_task (re_now (ce_rpc env)) t a None (ap_db (sv_app s)) = (Err e, db)" and "coded e"
  shows "\<exists>msg s'. dispatch_text env text (sv_auth_token s) s =
    Some (\<lparr>rs_id = or_null (rr_id rq), rs_result = None, rs_error = Some (store_code e, msg)\<rparr>, s')"
proof -
  have "authorize (ce_pair env) (sv_auth_token s) s = (True, s)" by (simp add: authorize_def tokens_equal_iff)
  moreover have "ipc_dispatch env ''tasks.claim'' params s =
      Some (Err (show_task_error (re_tool (ce_rpc env)) e), s\<lparr>sv_app := set_db db (sv_app s)\<rparr>)"
    using assms(5,6,7) by (simp add: ipc_dispatch_def task_call_def on_app_def rpc_claim_def req_def on_store_def Let_def)
  ultimately show ?thesis
    using assms(1-4) classify_store_error [OF assms(8), of "re_tool (ce_rpc env)"]
    by (auto simp: dispatch_text_def or_null_def error_response_def split_beta)
qed

lemma classify_pin_errors:
  "ipc_classify_error ''PAIR_PIN_EXPIRED: pin expired or already used'' = (INTERNAL_ERROR, ''Internal error'')"
  "ipc_classify_error ''PAIR_PIN_INVALID: pin rejected'' = (INTERNAL_ERROR, ''Internal error'')"
  "ipc_classify_error ''missing task_id'' = (INTERNAL_ERROR, ''Internal error'')"
  by (simp_all add: ipc_classify_error_def task_code_texts starts_with_def)

text \<open>A PIN that cannot be redeemed: the pairing module declares the codes -32021 and -32022 for it, but the client is
  told of an internal error, and no device is added.\<close>

theorem pin_error_code_lost:
  assumes "ce_parse env text = Some rq" and "rr_jsonrpc rq = ''2.0''" and "rr_method rq = ''device.pair''"
    and "pe_decode (ce_pair env) (or_null (rr_params rq)) = Ok p"
    and "filter (redeemable (rq_pin p) (pe_now (ce_pair env))) (pb_pins (sv_pairing s)) = []"
  shows "\<exists>msg s'. dispatch_text env text (sv_auth_token s) s =
      Some (\<lparr>rs_id = or_null (rr_id rq), rs_result = None, rs_error = Some (INTERNAL_ERROR, msg)\<rparr>, s') \<and>
      INTERNAL_ERROR \<notin> {PAIR_PIN_INVALID, PAIR_PIN_EXPIRED} \<and> pb_devices (sv_pairing s') = pb_devices (sv_pairing s)"
proof -
  have a: "authorize (ce_pair env) (sv_auth_token s) s = (True, s)" by (simp add: authorize_def tokens_equal_iff)
  obtain e s' where d: "device_pair (ce_pair env) (or_null (rr_params rq)) s = (Err e, s')"
    and e: "e = ''PAIR_PIN_EXPIRED: pin expired or already used'' \<or> e = ''PAIR_PIN_INVALID: pin rejected''"
    and s': "pb_devices (sv_pairing s') = pb_devices (sv_pairing s)"
    using assms(4,5) by (simp add: device_pair_def validate_and_consume_pin_def)
  then have "ipc_dispatch env ''device.pair'' (or_null (rr_params rq)) s = Some (Err e, s')" by (simp add: ipc_dispatch_def)
  moreover have "ipc_classify_error e = (INTERNAL_ERROR, ''Internal error'')" using e classify_pin_errors by auto
  moreover have "INTERNAL_ERROR \<notin> {PAIR_PIN_INVALID, PAIR_PIN_EXPIRED}"
    by (simp add: INTERNAL_ERROR_def PAIR_PIN_INVALID_def PAIR_PIN_EXPIRED_def)
  ultimately show ?thesis using assms(1-3) a s' by (simp add: dispatch_text_def error_response_def)
qed

section \<open>Sample calls\<close>

text \<open>A request by its method and parameters, and the environment that reads it.\<close>

definition sample_request :: "string \<Rightarrow> json \<Rightarrow> rpc_request" where
  "sample_request name params = \<lparr>rr_jsonrpc = ''2.0'', rr_id = None, rr_method = name, rr_params = Some params\<rparr>"

definition sample_call :: "string \<Rightarrow> json \<Rightarrow> unit call_env" where
  "sample_call name params =
     \<lparr>ce_parse = (\<lambda>_. Some (sample_request name params)), ce_home = None, ce_git = sample_git, ce_rpc = rpc_quiet,
      ce_pair = sample_pair_env ''t1'', ce_keys = [], ce_genealogy = (\<lambda>_ _ _ a. (Ok (), a)), ce_other = (\<lambda>_. None)\<rparr>"

abbreviation fresh :: "unit server" where
  "fresh \<equiv> fresh_server (sample_app WtActive)"

abbreviation pin_params :: json where
  "pin_params \<equiv> JObject [(''pin'', JString ''123456'')]"

lemma sample_authorized: "authorize env (sv_auth_token s) s = (True, s)"
  by (simp add: authorize_def tokens_equal_iff)

lemma sample_dispatch:
  "ipc_dispatch (sample_call name params) name params s = Some (r, s') \<Longrightarrow>
   \<exists>r. dispatch_text (sample_call name params) text (sv_auth_token s) s = Some (r, s')"
  by (simp add: dispatch_text_def sample_call_def [of name params] sample_request_def sample_authorized or_null_def)

lemma sample_calls_device:
  "\<exists>s'. calls [(sample_call ''daemon.pairPin'' JNull, [], ''secret''), (sample_call ''device.pair'' pin_params, [], ''secret'')] fresh = Some s' \<and>
     sv_pairing s' = \<lparr>pb_pins = [sample_pin 1], pb_devices = [sample_device ''t1'' 0]\<rparr>"
proof -
  let ?s1 = "fresh\<lparr>sv_pairing := \<lparr>pb_pins = [sample_pin 0], pb_devices = []\<rparr>\<rparr>"
  have tok: "sv_auth_token fresh = ''secret''" "sv_auth_token ?s1 = ''secret''" by (simp_all add: fresh_server_def)
  obtain r where "pairing_generate_pin (sample_pair_env ''t1'') fresh = Some (r, ?s1)"
    using sample_generate [of "''t1''" "sample_app WtActive"] by fastforce
  then have "ipc_dispatch (sample_call ''daemon.pairPin'' JNull) ''daemon.pairPin'' JNull fresh = Some (r, ?s1)"
    by (simp add: ipc_dispatch_def sample_call_def)
  from sample_dispatch [OF this] obtain r1 where
    c1: "dispatch_text (sample_call ''daemon.pairPin'' JNull) [] ''secret'' fresh = Some (r1, ?s1)" using tok by auto
  let ?s2 = "snd (device_pair (sample_pair_env ''t1'') pin_params ?s1)"
  have "ipc_dispatch (sample_call ''device.pair'' pin_params) ''device.pair'' pin_params ?s1 =
      Some (fst (device_pair (sample_pair_env ''t1'') pin_params ?s1), ?s2)"
    by (simp add: ipc_dispatch_def) (simp add: sample_call_def)
  from sample_dispatch [OF this] obtain r2 where
    c2: "dispatch_text (sample_call ''device.pair'' pin_params) [] ''secret'' ?s1 = Some (r2, ?s2)" using tok by auto
  show ?thesis using c1 c2 sample_paired [of "''t1''" "sample_app WtActive"] by simp
qed

theorem protocol_single_use_witness:
  "\<exists>s'. calls [(sample_call ''daemon.pairPin'' JNull, [], ''secret''), (sample_call ''device.pair'' pin_params, [], ''secret'')] fresh = Some s' \<and>
     length (pb_devices (sv_pairing s')) = 1 \<and> distinct (map pd_id (pb_devices (sv_pairing s')))"
proof -
  obtain s' where s': "calls [(sample_call ''daemon.pairPin'' JNull, [], ''secret''), (sample_call ''device.pair'' pin_params, [], ''secret'')] fresh = Some s'"
      "sv_pairing s' = \<lparr>pb_pins = [sample_pin 1], pb_devices = [sample_device ''t1'' 0]\<rparr>"
    using sample_calls_device by blast
  have "unpaired fresh" by (simp add: unpaired_def fresh_server_def)
  from protocol_single_use [OF this s'(1)] s' show ?thesis by auto
qed

theorem call_needs_valid_token_witness:
  "\<exists>r s'. dispatch_text (sample_call ''device.list'' JNull) [] ''secret'' fresh = Some (r, s') \<and> rs_result r \<noteq> None \<and>
     (''secret'' = sv_auth_token fresh \<or> (\<exists>d \<in> set (pb_devices (sv_pairing fresh)). pd_device_token d = ''secret'' \<and> pd_revoked d = 0))"
proof -
  have tok: "sv_auth_token fresh = ''secret''" by (simp add: fresh_server_def)
  then have d: "dispatch_text (sample_call ''device.list'' JNull) [] ''secret'' fresh =
      Some (\<lparr>rs_id = JNull, rs_result = Some (device_list fresh), rs_error = None\<rparr>, fresh)"
    using sample_authorized [of _ fresh]
    by (simp add: dispatch_text_def sample_call_def sample_request_def or_null_def ipc_dispatch_def)
  from call_needs_valid_token [OF _ d] tok d show ?thesis by simp
qed

theorem device_token_cannot_connect_witness:
  "\<exists>out. open_connection (sample_call ''daemon.auth'' (JObject [(''token'', JString ''t1'')])) 0 10 True (WsText []) fresh = (out, None) \<and>
     map (map_option fst \<circ> rs_error) out = [Some UNAUTHORIZED]"
proof -
  let ?env = "sample_call ''daemon.auth'' (JObject [(''token'', JString ''t1'')])"
  obtain out c where oc: "open_connection ?env 0 10 True (WsText []) fresh = (out, c)" by fastforce
  have tok: "sv_auth_token fresh = ''secret''" by (simp add: fresh_server_def)
  have "ce_parse ?env [] = Some (sample_request ''daemon.auth'' (JObject [(''token'', JString ''t1'')]))" by (simp add: sample_call_def)
  with device_token_cannot_connect [OF _ oc, of "sample_pair_env ''t1''"] tok oc show ?thesis
    by (simp add: sample_request_def or_null_def get_str_def)
qed

theorem claim_error_reaches_client_witness:
  "\<exists>msg s'. dispatch_text (sample_call ''tasks.claim'' (JObject [(''task_id'', JString ''X''), (''agent_id'', JString ''a'')])) [] ''secret'' fresh =
     Some (\<lparr>rs_id = JNull, rs_result = None, rs_error = Some (- 32011, msg)\<rparr>, s')"
proof -
  have tok: "sv_auth_token fresh = ''secret''" by (simp add: fresh_server_def)
  have "fst (claim_task 0 ''X'' ''a'' None empty_db) = Err (TaskCode TASK_ALREADY_CLAIMED)" by code_simp
  then obtain db where "claim_task 0 ''X'' ''a'' None empty_db = (Err (TaskCode TASK_ALREADY_CLAIMED), db)" by (metis prod.collapse)
  then have "claim_task (re_now (ce_rpc (sample_call m p))) ''X'' ''a'' None (ap_db (sv_app fresh)) = (Err (TaskCode TASK_ALREADY_CLAIMED), db)" for m p
    by (simp add: sample_call_def rpc_quiet_def quiet_env_def fresh_server_def sample_app_def empty_daemon_def)
  from claim_error_reaches_client [OF _ _ _ _ _ _ this, of _ _ _ "sample_request ''tasks.claim'' (JObject [(''task_id'', JString ''X''), (''agent_id'', JString ''a'')])"]
  show ?thesis using tok by (simp add: sample_call_def sample_request_def get_str_def coded_def ipc_codes or_null_def)
qed

theorem pin_error_code_lost_witness:
  "\<exists>msg s'. dispatch_text (sample_call ''device.pair'' pin_params) [] ''secret'' fresh =
     Some (\<lparr>rs_id = JNull, rs_result = None, rs_error = Some (INTERNAL_ERROR, msg)\<rparr>, s') \<and> pb_devices (sv_pairing s') = []"
proof -
  have tok: "sv_auth_token fresh = ''secret''" "pb_devices (sv_pairing fresh) = []" by (simp_all add: fresh_server_def)
  have "ce_parse (sample_call ''device.pair'' pin_params) [] = Some (sample_request ''device.pair'' pin_params)" by (simp add: sample_call_def)
  moreover have "pe_decode (ce_pair (sample_call ''device.pair'' pin_params)) (or_null (rr_params (sample_request ''device.pair'' pin_params))) =
      Ok \<lparr>rq_pin = ''123456'', rq_name = ''phone'', rq_platform = ''ios''\<rparr>"
    by (simp add: sample_call_def sample_pair_env_def sample_request_def or_null_def get_str_def)
  moreover have "pb_pins (sv_pairing fresh) = []" by (simp add: fresh_server_def)
  ultimately show ?thesis
    using pin_error_code_lost [of "sample_call ''device.pair'' pin_params" "[]" "sample_request ''device.pair'' pin_params" _ fresh] tok
    by (auto simp: sample_request_def or_null_def)
qed

end
