(* ===== verification/Relay.thy ===== *)
theory Relay
  imports Ipc_Props
begin

text \<open>
  The relay client: the encrypted session of \<^verbatim>\<open>relay/crypto.rs\<close> and the handling of frames of \<^verbatim>\<open>relay/mod.rs\<close>. The
  encoders, the key exchange, the key derivation and the cipher are the record \<open>'k crypto\<close>; what the development relies
  on of them is \<open>same_standards\<close> of \<open>Relay_Client\<close>. A string is the list of its bytes. A connection is a sequence of events:
  its start with the plain register frame, a message of the relay, and an event of the broadcaster. The calls of the two
  tasks interleave where the code gives up the lock: while a request is carried out, events of the broadcaster may be
  encrypted under the same session. The socket and its timing are not modelled; whether a frame can be sent is a parameter.
\<close>

unbundle bit_operations_syntax

section \<open>Bytes\<close>

definition to_le_bytes :: "u64 \<Rightarrow> u8 list" where
  "to_le_bytes c = map (\<lambda>i. ucast (drop_bit (8 * i) c)) [0..<8]"

text \<open>The byte sequences \<^verbatim>\<open>String::from_utf8\<close> accepts.\<close>

definition cont :: "u8 \<Rightarrow> u8 \<Rightarrow> u8 \<Rightarrow> bool" where
  "cont lo hi b \<longleftrightarrow> lo \<le> b \<and> b \<le> hi"

abbreviation tail_byte :: "u8 \<Rightarrow> bool" where
  "tail_byte \<equiv> cont 0x80 0xBF"

function valid_utf8 :: "u8 list \<Rightarrow> bool" where
  "valid_utf8 bs =
     (case bs of
        [] \<Rightarrow> True
      | b # rest \<Rightarrow>
          if b < 0x80 then valid_utf8 rest
          else if cont 0xC2 0xDF b then (case rest of c # r \<Rightarrow> tail_byte c \<and> valid_utf8 r | _ \<Rightarrow> False)
          else if cont 0xE0 0xEF b
          then (case rest of c # d # r \<Rightarrow> cont (if b = 0xE0 then 0xA0 else 0x80) (if b = 0xED then 0x9F else 0xBF) c \<and> tail_byte d \<and> valid_utf8 r | _ \<Rightarrow> False)
          else if cont 0xF0 0xF4 b
          then (case rest of c # d # e # r \<Rightarrow> cont (if b = 0xF0 then 0x90 else 0x80) (if b = 0xF4 then 0x8F else 0xBF) c \<and> tail_byte d \<and> tail_byte e \<and> valid_utf8 r | _ \<Rightarrow> False)
          else False)"
  by pat_completeness auto
termination by (relation "measure length") auto

declare valid_utf8.simps [simp del]

definition from_utf8 :: "u8 list \<Rightarrow> string option" where
  "from_utf8 bs = (if valid_utf8 bs then Some (map (\<lambda>b. char_of (unat b)) bs) else None)"

section \<open>The encrypted session\<close>

record 'k crypto =
  cr_encode :: "u8 list \<Rightarrow> string"
  cr_decode :: "string \<Rightarrow> u8 list option"
  cr_public :: "u8 list \<Rightarrow> u8 list"
  cr_diffie_hellman :: "u8 list \<Rightarrow> u8 list \<Rightarrow> u8 list"
  cr_derive :: "u8 list \<Rightarrow> string \<Rightarrow> 'k option"
  cr_encrypt :: "'k \<Rightarrow> u8 list \<Rightarrow> u8 list \<Rightarrow> u8 list option"
  cr_decrypt :: "'k \<Rightarrow> u8 list \<Rightarrow> u8 list \<Rightarrow> u8 list option"

record 'k relay_e2e =
  e2_cipher_recv :: 'k
  e2_cipher_send :: 'k
  e2_send_counter :: u64
  e2_recv_counter :: u64

definition make_nonce :: "u64 \<Rightarrow> u8 list" where
  "make_nonce counter = to_le_bytes counter @ replicate 4 0"

definition derive_cipher :: "'k crypto \<Rightarrow> u8 list \<Rightarrow> string \<Rightarrow> ('k, string) result" where
  "derive_cipher cr ikm info = (case cr_derive cr ikm info of Some k \<Rightarrow> Ok k | None \<Rightarrow> Err ''HKDF expand failed'')"

definition server_handshake :: "'k crypto \<Rightarrow> u8 list \<Rightarrow> string \<Rightarrow> (string \<times> 'k relay_e2e, string) result" where
  "server_handshake cr server_sk client_pubkey_b64 =
     (case cr_decode cr client_pubkey_b64 of
        None \<Rightarrow> Err ''invalid client pubkey encoding''
      | Some client_pk \<Rightarrow>
          if length client_pk \<noteq> 32 then Err ''client pubkey must be 32 bytes''
          else let shared = cr_diffie_hellman cr server_sk client_pk in
            and_then (derive_cipher cr shared ''clawd-relay-c2d-v1'') (\<lambda>cipher_recv.
            and_then (derive_cipher cr shared ''clawd-relay-d2c-v1'') (\<lambda>cipher_send.
              Ok (cr_encode cr (cr_public cr server_sk),
                  \<lparr>e2_cipher_recv = cipher_recv, e2_cipher_send = cipher_send, e2_send_counter = 0, e2_recv_counter = 0\<rparr>))))"

definition e2e_decrypt :: "'k crypto \<Rightarrow> string \<Rightarrow> 'k relay_e2e \<Rightarrow> (string, string) result \<times> 'k relay_e2e" where
  "e2e_decrypt cr payload_b64 e =
     (case cr_decode cr payload_b64 of
        None \<Rightarrow> (Err ''invalid e2e payload'', e)
      | Some data \<Rightarrow>
          if length data < 12 then (Err ''e2e payload too short'', e)
          else let nonce_bytes = take 12 data; ct = drop 12 data in
            if nonce_bytes \<noteq> make_nonce (e2_recv_counter e) then (Err ''nonce mismatch - possible replay attack'', e)
            else let e1 = e\<lparr>e2_recv_counter := e2_recv_counter e + 1\<rparr> in
              (case cr_decrypt cr (e2_cipher_recv e) nonce_bytes ct of
                 None \<Rightarrow> (Err ''AEAD decrypt failed'', e1)
               | Some pt \<Rightarrow>
                   (case from_utf8 pt of
                      None \<Rightarrow> (Err ''decrypted bytes are not valid UTF-8'', e1)
                    | Some text \<Rightarrow> (Ok text, e1))))"

definition e2e_encrypt :: "'k crypto \<Rightarrow> string \<Rightarrow> 'k relay_e2e \<Rightarrow> (string, string) result \<times> 'k relay_e2e" where
  "e2e_encrypt cr plaintext e =
     (let nonce_bytes = make_nonce (e2_send_counter e); e1 = e\<lparr>e2_send_counter := e2_send_counter e + 1\<rparr> in
      case cr_encrypt cr (e2_cipher_send e) nonce_bytes (as_bytes plaintext) of
        None \<Rightarrow> (Err ''AEAD encrypt failed'', e1)
      | Some ct \<Rightarrow> (Ok (cr_encode cr (nonce_bytes @ ct)), e1))"

section \<open>Frames\<close>

record 'k relay_state =
  rl_e2e :: "'k relay_e2e option"
  rl_established :: bool

datatype relay_message = RText string | RClosed | ROther

definition hello_frame :: "string \<Rightarrow> json" where
  "hello_frame pubkey = JObject [(''type'', JString ''e2e_hello''), (''pubkey'', JString pubkey)]"

definition register_frame :: "string \<Rightarrow> string \<Rightarrow> json" where
  "register_frame daemon_id token = JObject [(''type'', JString ''register''), (''daemonId'', JString daemon_id), (''token'', JString token)]"

definition e2e_frame :: "string \<Rightarrow> json" where
  "e2e_frame payload = JObject [(''type'', JString ''e2e''), (''payload'', JString payload)]"

text \<open>Encrypting under the session, if there is one: what is sent, and the session with its counter moved on.\<close>

definition seal :: "'k crypto \<Rightarrow> string \<Rightarrow> 'k relay_state \<Rightarrow> json option \<times> 'k relay_state" where
  "seal cr text st =
     (case rl_e2e st of
        None \<Rightarrow> (None, st)
      | Some e \<Rightarrow> let (r, e1) = e2e_encrypt cr text e; st1 = st\<lparr>rl_e2e := Some e1\<rparr>
          in (case r of Ok p \<Rightarrow> (Some (e2e_frame p), st1) | Err _ \<Rightarrow> (None, st1)))"

record ('g, 'k) relay_env =
  ry_call :: "'g call_env"
  ry_crypto :: "'k crypto"
  ry_secret :: "u8 list"
  ry_parse :: "string \<Rightarrow> json option"
  ry_print :: "rpc_response \<Rightarrow> string"
  ry_send_ok :: bool
  ry_pushed :: "string list"
  ry_daemon_id :: string
  ry_license_token :: string

text \<open>One event of the broadcaster, \<^verbatim>\<open>forward_broadcasts\<close>: the frames sent, whether the loop goes on, and the session.\<close>

definition relay_broadcast :: "('g, 'k) relay_env \<Rightarrow> string \<Rightarrow> 'k relay_state \<Rightarrow> json list \<times> bool \<times> 'k relay_state" where
  "relay_broadcast env event st =
     (case seal (ry_crypto env) event st of
        (None, st1) \<Rightarrow> ([], True, st1)
      | (Some out, st1) \<Rightarrow> (if ry_send_ok env then [out] else [], ry_send_ok env, st1))"

text \<open>The events forwarded while a request is carried out, \<open>ry_pushed\<close>. When one cannot be sent the connection ends, and the
  response with it.\<close>

fun forward_all :: "('g, 'k) relay_env \<Rightarrow> string list \<Rightarrow> 'k relay_state \<Rightarrow> json list \<times> bool \<times> 'k relay_state" where
  "forward_all env [] st = ([], True, st)"
| "forward_all env (event # events) st =
     (let (outs, go, st1) = relay_broadcast env event st in
      if go then let (outs2, go2, st2) = forward_all env events st1 in (outs @ outs2, go2, st2) else (outs, False, st1))"

text \<open>One round of \<^verbatim>\<open>handle_inbound\<close>: the frames sent, whether the loop goes on, and the new states.\<close>

definition e2e_call ::
  "('g, 'k) relay_env \<Rightarrow> string \<Rightarrow> 'k relay_state \<Rightarrow> 'g server \<Rightarrow> (json list \<times> bool \<times> 'k relay_state \<times> 'g server) option" where
  "e2e_call env payload st s =
     (case rl_e2e st of
        None \<Rightarrow> Some ([], True, st, s)
      | Some e \<Rightarrow>
          (case e2e_decrypt (ry_crypto env) payload e of
             (Err _, e1) \<Rightarrow> Some ([], True, st\<lparr>rl_e2e := Some e1\<rparr>, s)
           | (Ok inner, e1) \<Rightarrow>
               map_option (\<lambda>(response, s1).
                 let (pushes, go, st1) = forward_all env (ry_pushed env) (st\<lparr>rl_e2e := Some e1\<rparr>) in
                 if \<not> go then (pushes, False, st1, s1)
                 else case seal (ry_crypto env) (ry_print env response) st1 of
                   (None, st2) \<Rightarrow> (pushes, True, st2, s1)
                 | (Some out, st2) \<Rightarrow> (pushes @ (if ry_send_ok env then [out] else []), ry_send_ok env, st2, s1))
               (dispatch_text (ry_call env) inner (sv_auth_token s) s)))"

definition relay_inbound ::
  "('g, 'k) relay_env \<Rightarrow> relay_message \<Rightarrow> 'k relay_state \<Rightarrow> 'g server \<Rightarrow> (json list \<times> bool \<times> 'k relay_state \<times> 'g server) option" where
  "relay_inbound env msg st s =
     (case msg of
        RClosed \<Rightarrow> Some ([], False, st, s)
      | ROther \<Rightarrow> Some ([], True, st, s)
      | RText text \<Rightarrow>
          (case ry_parse env text of
             None \<Rightarrow> Some ([], True, st, s)
           | Some frame \<Rightarrow>
               let msg_type = or_default (get_str frame ''type'') [] in
               if msg_type = ''registered'' \<or> msg_type = ''client_disconnected'' then Some ([], True, st, s)
               else if msg_type = ''client_connected'' then Some ([], True, \<lparr>rl_e2e = None, rl_established = False\<rparr>, s)
               else if msg_type = ''e2e_hello''
               then (case get_str frame ''pubkey'' of
                       None \<Rightarrow> Some ([], True, st, s)
                     | Some client_pubkey \<Rightarrow>
                         (case server_handshake (ry_crypto env) (ry_secret env) client_pubkey of
                            Err _ \<Rightarrow> Some ([], True, st, s)
                          | Ok (server_pubkey, new_e2e) \<Rightarrow>
                              if ry_send_ok env
                              then Some ([hello_frame server_pubkey], True, \<lparr>rl_e2e = Some new_e2e, rl_established = True\<rparr>, s)
                              else Some ([], False, st, s)))
               else if msg_type = ''e2e''
               then (if \<not> rl_established st then Some ([], True, st, s)
                     else case get_str frame ''payload'' of
                         None \<Rightarrow> Some ([], True, st, s)
                       | Some payload \<Rightarrow> e2e_call env payload st s)
               else Some ([], False, st, s)))"

text \<open>The start of a connection, \<^verbatim>\<open>relay_loop\<close>: the daemon registers itself and begins without a session.\<close>

definition relay_connect :: "('g, 'k) relay_env \<Rightarrow> json list \<times> bool \<times> 'k relay_state" where
  "relay_connect env =
     (if ry_send_ok env then [register_frame (ry_daemon_id env) (ry_license_token env)] else [], ry_send_ok env,
      \<lparr>rl_e2e = None, rl_established = False\<rparr>)"

datatype relay_event = Connected | Inbound relay_message | Push string

definition relay_step ::
  "('g, 'k) relay_env \<Rightarrow> relay_event \<Rightarrow> 'k relay_state \<Rightarrow> 'g server \<Rightarrow> (json list \<times> bool \<times> 'k relay_state \<times> 'g server) option" where
  "relay_step env ev st s =
     (case ev of
        Connected \<Rightarrow> (case relay_connect env of (outs, go, st') \<Rightarrow> Some (outs, go, st', s))
      | Inbound msg \<Rightarrow> relay_inbound env msg st s
      | Push event \<Rightarrow> (case relay_broadcast env event st of (outs, go, st') \<Rightarrow> Some (outs, go, st', s)))"

text \<open>The waiting time before the next attempt to connect.\<close>

definition next_backoff :: "u64 \<Rightarrow> u64" where
  "next_backoff b = min (b * 2) 60"

end
