(* ===== verification/Relay_Props.thy ===== *)
theory Relay_Props
  imports Relay
begin

text \<open>
  The relay: nonces do not repeat within a session, a repeated frame is refused, a request is carried out only from a
  frame that the established session authenticates, and nothing but the registration, public keys and frames encrypted
  under that session is sent. What is carried out does not depend on the paired devices.
\<close>

unbundle bit_operations_syntax

section \<open>Nonces\<close>

lemma to_le_bytes_inj: "to_le_bytes c = to_le_bytes d \<longleftrightarrow> c = d"
proof
  assume eq: "to_le_bytes c = to_le_bytes d"
  show "c = d"
  proof (rule bit_word_eqI)
    fix n assume "n < LENGTH(64)"
    then have n: "n < 64" by simp
    have "(ucast (drop_bit (8 * (n div 8)) c) :: u8) = ucast (drop_bit (8 * (n div 8)) d)"
      using eq n by (auto simp: to_le_bytes_def)
    then have "bit (ucast (drop_bit (8 * (n div 8)) c) :: u8) (n mod 8) = bit (ucast (drop_bit (8 * (n div 8)) d) :: u8) (n mod 8)"
      by simp
    then show "bit c n = bit d n" by (simp add: bit_ucast_iff bit_drop_bit_eq)
  qed
qed simp

lemma length_make_nonce [simp]: "length (make_nonce c) = 12"
  by (simp add: make_nonce_def to_le_bytes_def)

lemma make_nonce_inj [simp]: "make_nonce c = make_nonce d \<longleftrightarrow> c = d"
  by (simp add: make_nonce_def to_le_bytes_inj)

section \<open>Streams of messages\<close>

fun send_all :: "'k crypto \<Rightarrow> string list \<Rightarrow> 'k relay_e2e \<Rightarrow> (string, string) result list \<times> 'k relay_e2e" where
  "send_all cr [] e = ([], e)"
| "send_all cr (t # ts) e = (let (r, e1) = e2e_encrypt cr t e; (rs, e2) = send_all cr ts e1 in (r # rs, e2))"

fun receive_all :: "'k crypto \<Rightarrow> string list \<Rightarrow> 'k relay_e2e \<Rightarrow> (string, string) result list \<times> 'k relay_e2e" where
  "receive_all cr [] e = ([], e)"
| "receive_all cr (p # ps) e = (let (r, e1) = e2e_decrypt cr p e; (rs, e2) = receive_all cr ps e1 in (r # rs, e2))"

definition utf8_text :: "string \<Rightarrow> bool" where
  "utf8_text t \<longleftrightarrow> valid_utf8 (as_bytes t)"

lemma from_utf8_as_bytes: "utf8_text t \<Longrightarrow> from_utf8 (as_bytes t) = Some t"
proof -
  have "char_of (unat (of_char c :: u8)) = c" for c
  proof -
    have "unat (of_char c :: u8) = of_char c mod 256" by (simp add: of_nat_of_char [symmetric, where 'a = u8] unat_of_nat)
    then show ?thesis by simp
  qed
  then show "utf8_text t \<Longrightarrow> ?thesis" by (simp add: from_utf8_def utf8_text_def) (simp add: as_bytes_def o_def)
qed

lemma nonces_distinct:
  assumes "n \<le> 2 ^ 64"
  shows "distinct (map (\<lambda>i. make_nonce (c + of_nat i)) [0..<n])"
proof -
  have "i = j" if "i < n" "j < n" "(of_nat i :: u64) = of_nat j" for i j
  proof -
    have "unat (of_nat i :: u64) = unat (of_nat j :: u64)" using that(3) by (rule arg_cong)
    then have "i mod 2 ^ 64 = j mod 2 ^ 64" by (simp only: unat_of_nat) simp
    then show ?thesis using that(1,2) assms by simp
  qed
  then show ?thesis by (auto simp: distinct_map inj_on_def)
qed

lemma decrypt_counter:
  "e2e_decrypt cr p c = (r, c1) \<Longrightarrow> e2_recv_counter c1 = e2_recv_counter c \<or> e2_recv_counter c1 = e2_recv_counter c + 1"
  by (auto simp: e2e_decrypt_def Let_def split: option.splits if_splits)

lemma receive_all_counter: "\<exists>k \<le> length qs. e2_recv_counter (snd (receive_all cr qs c)) = e2_recv_counter c + of_nat k"
proof (induction qs arbitrary: c)
  case (Cons q qs)
  obtain r c1 where d: "e2e_decrypt cr q c = (r, c1)" by fastforce
  obtain k where k: "k \<le> length qs" "e2_recv_counter (snd (receive_all cr qs c1)) = e2_recv_counter c1 + of_nat k"
    using Cons.IH by blast
  have "\<exists>j \<le> 1. e2_recv_counter c1 = e2_recv_counter c + of_nat j" using decrypt_counter [OF d] by force
  then obtain j :: nat where "j \<le> 1" "e2_recv_counter c1 = e2_recv_counter c + of_nat j" by blast
  with k d show ?case by (intro exI [of _ "j + k"]) (simp add: split_beta)
qed simp

lemma decrypt_Ok_nonce:
  "e2e_decrypt cr p c = (Ok t, c1) \<Longrightarrow> \<exists>data. cr_decode cr p = Some data \<and> 12 \<le> length data \<and>
     take 12 data = make_nonce (e2_recv_counter c) \<and> e2_recv_counter c1 = e2_recv_counter c + 1"
  by (auto simp: e2e_decrypt_def Let_def split: option.splits if_splits)

lemma decrypt_other_nonce:
  assumes "cr_decode cr p = Some data" and "12 \<le> length data" and "take 12 data = make_nonce n" and "e2_recv_counter c \<noteq> n"
  shows "e2e_decrypt cr p c = (Err ''nonce mismatch - possible replay attack'', c)"
  using assms by (simp add: e2e_decrypt_def Let_def)

text \<open>C16: Replay: a frame that was accepted once is refused whenever it comes again, whatever frames arrived in between, up
  to the range of the counter, and the refusal changes nothing.\<close>

theorem relay_replay_refused:
  assumes "e2e_decrypt cr p c = (Ok t, c1)" and "length qs < 2 ^ 64 - 1"
  shows "e2e_decrypt cr p (snd (receive_all cr qs c1)) = (Err ''nonce mismatch - possible replay attack'', snd (receive_all cr qs c1))"
proof -
  obtain data where d: "cr_decode cr p = Some data" "12 \<le> length data" "take 12 data = make_nonce (e2_recv_counter c)"
      "e2_recv_counter c1 = e2_recv_counter c + 1"
    using decrypt_Ok_nonce [OF assms(1)] by blast
  obtain k where k: "k \<le> length qs" "e2_recv_counter (snd (receive_all cr qs c1)) = e2_recv_counter c1 + of_nat k"
    using receive_all_counter by blast
  have "(1 + of_nat k :: u64) \<noteq> 0"
  proof
    assume "(1 + of_nat k :: u64) = 0"
    then have "(of_nat (Suc k) :: u64) = 0" by simp
    then have "unat (of_nat (Suc k) :: u64) = 0" by (simp only: unat_0)
    then have "Suc k mod 2 ^ 64 = 0" by (simp only: unat_of_nat) simp
    moreover have "Suc k < 2 ^ 64" using k(1) assms(2) by simp
    ultimately show False by simp
  qed
  then have "e2_recv_counter (snd (receive_all cr qs c1)) \<noteq> e2_recv_counter c" using k(2) d(4) by (simp add: add.assoc)
  with decrypt_other_nonce [OF d(1-3)] show ?thesis by blast
qed

text \<open>The counter moves on before a frame is authenticated: after a forged frame with the expected nonce, the genuine one
  is refused.\<close>

theorem forged_frame_displaces_genuine:
  assumes "cr_decode cr q = Some (make_nonce (e2_recv_counter c) @ junk)"
    and "cr_decrypt cr (e2_cipher_recv c) (make_nonce (e2_recv_counter c)) junk = None"
    and "e2e_decrypt cr p c = (Ok t, c1)"
  shows "e2e_decrypt cr p (snd (e2e_decrypt cr q c)) = (Err ''nonce mismatch - possible replay attack'', snd (e2e_decrypt cr q c))"
proof -
  have q: "snd (e2e_decrypt cr q c) = c\<lparr>e2_recv_counter := e2_recv_counter c + 1\<rparr>"
    using assms(1,2) by (simp add: e2e_decrypt_def Let_def)
  obtain data where d: "cr_decode cr p = Some data" "12 \<le> length data" "take 12 data = make_nonce (e2_recv_counter c)"
    using decrypt_Ok_nonce [OF assms(3)] by blast
  show ?thesis by (rule decrypt_other_nonce [OF d]) (simp add: q)
qed

section \<open>The handling of frames\<close>

definition relay_ok :: "'k relay_state \<Rightarrow> bool" where
  "relay_ok st \<longleftrightarrow> (rl_established st \<longleftrightarrow> rl_e2e st \<noteq> None)"

text \<open>A text encrypted under the session of \<open>st\<close>: with its key of sending, at some position of the stream.\<close>

definition sealed :: "'k crypto \<Rightarrow> 'k relay_state \<Rightarrow> json \<Rightarrow> bool" where
  "sealed cr st v \<longleftrightarrow> (\<exists>e n text p. rl_e2e st = Some e \<and> v = e2e_frame p \<and> fst (e2e_encrypt cr text (e\<lparr>e2_send_counter := n\<rparr>)) = Ok p)"

text \<open>The sessions of two states are under the same key of sending.\<close>

definition same_key :: "'k relay_state \<Rightarrow> 'k relay_state \<Rightarrow> bool" where
  "same_key st st' \<longleftrightarrow> rl_established st' = rl_established st \<and>
     map_option e2_cipher_send (rl_e2e st') = map_option e2_cipher_send (rl_e2e st)"

lemma same_key_refl [simp]: "same_key st st"
  by (simp add: same_key_def)

lemma same_key_trans: "same_key st st1 \<Longrightarrow> same_key st1 st2 \<Longrightarrow> same_key st st2"
  by (simp add: same_key_def)

lemma same_key_ok: "same_key st st' \<Longrightarrow> relay_ok st' \<longleftrightarrow> relay_ok st"
  by (cases "rl_e2e st"; cases "rl_e2e st'") (simp_all add: same_key_def relay_ok_def)

lemma encrypt_by_key: "e2_cipher_send e' = e2_cipher_send e \<Longrightarrow>
    fst (e2e_encrypt cr text (e'\<lparr>e2_send_counter := n\<rparr>)) = fst (e2e_encrypt cr text (e\<lparr>e2_send_counter := n\<rparr>))"
  by (simp add: e2e_encrypt_def Let_def split: option.split)

lemma sealed_same_key: "same_key st st' \<Longrightarrow> sealed cr st' v \<Longrightarrow> sealed cr st v"
  unfolding same_key_def sealed_def by (cases "rl_e2e st") (auto, (metis encrypt_by_key)+)

lemma seal_keeps_key: "seal cr text st = (v, st') \<Longrightarrow> same_key st st' \<and> (\<forall>x \<in> set_option v. sealed cr st x)"
proof (cases "rl_e2e st")
  case (Some e)
  assume sl: "seal cr text st = (v, st')"
  have k: "e2_cipher_send (snd (e2e_encrypt cr text e)) = e2_cipher_send e" by (simp add: e2e_encrypt_def Let_def split: option.split)
  have "sealed cr st x" if "v = Some x" for x
  proof -
    from sl Some that obtain p where "x = e2e_frame p" "fst (e2e_encrypt cr text (e\<lparr>e2_send_counter := e2_send_counter e\<rparr>)) = Ok p"
      by (auto simp: seal_def split_beta split: result.splits)
    with Some show ?thesis unfolding sealed_def by blast
  qed
  with sl Some k show ?thesis by (auto simp: seal_def same_key_def split_beta split: result.splits)
qed (simp add: seal_def)

lemma broadcast_keeps_key:
  "relay_broadcast env event st = (outs, go, st') \<Longrightarrow> same_key st st' \<and> (\<forall>v \<in> set outs. sealed (ry_crypto env) st v)"
  using seal_keeps_key [of "ry_crypto env" event st] by (auto simp: relay_broadcast_def split: prod.splits option.splits if_splits)

lemma forward_keeps_key:
  "forward_all env events st = (outs, go, st') \<Longrightarrow> same_key st st' \<and> (\<forall>v \<in> set outs. sealed (ry_crypto env) st v)"
proof (induction events arbitrary: st outs go st')
  case (Cons event events)
  obtain o1 g1 st1 where b: "relay_broadcast env event st = (o1, g1, st1)" by (metis prod_cases3)
  obtain o2 g2 st2 where f: "forward_all env events st1 = (o2, g2, st2)" by (metis prod_cases3)
  from broadcast_keeps_key [OF b] Cons.IH [OF f] have "same_key st st2" "\<forall>v \<in> set o2. sealed (ry_crypto env) st v"
    by (auto intro: same_key_trans sealed_same_key)
  with broadcast_keeps_key [OF b] b f Cons.prems show ?case by (cases g1) auto
qed simp

text \<open>An encrypted frame whose payload the session decrypts to a request that is carried out.\<close>

definition carried_out :: "('g, 'k) relay_env \<Rightarrow> string \<Rightarrow> 'k relay_state \<Rightarrow> 'g server \<Rightarrow> 'g server \<Rightarrow> bool" where
  "carried_out env payload st s s' \<longleftrightarrow>
     (\<exists>e inner e1 response. rl_e2e st = Some e \<and> e2e_decrypt (ry_crypto env) payload e = (Ok inner, e1) \<and>
        dispatch_text (ry_call env) inner (sv_auth_token s) s = Some (response, s'))"

lemma decrypt_keeps_key: "e2e_decrypt cr payload e = (r, e1) \<Longrightarrow> e2_cipher_send e1 = e2_cipher_send e"
  by (auto simp: e2e_decrypt_def Let_def split: option.splits if_splits)

lemma e2e_call_keeps_key:
  assumes "e2e_call env payload st s = Some (outs, go, st', s')"
  shows "same_key st st' \<and> (\<forall>v \<in> set outs. sealed (ry_crypto env) st v) \<and> (s' \<noteq> s \<longrightarrow> carried_out env payload st s s')"
proof (cases "rl_e2e st")
  case e: (Some e)
  obtain r e1 where d: "e2e_decrypt (ry_crypto env) payload e = (r, e1)" by fastforce
  let ?st = "st\<lparr>rl_e2e := Some e1\<rparr>"
  have k: "same_key st ?st" using e decrypt_keeps_key [OF d] by (simp add: same_key_def)
  show ?thesis
  proof (cases r)
    case (Err x)
    with e d k assms show ?thesis by (auto simp: e2e_call_def)
  next
    case (Ok inner)
    with e d assms obtain response where ds: "dispatch_text (ry_call env) inner (sv_auth_token s) s = Some (response, s')"
      by (auto simp: e2e_call_def split_beta split: option.splits if_splits)
    obtain o1 g1 st1 where f: "forward_all env (ry_pushed env) ?st = (o1, g1, st1)" by (metis prod_cases3)
    obtain v st2 where v: "seal (ry_crypto env) (ry_print env response) st1 = (v, st2)" by fastforce
    have "(st' = st1 \<or> st' = st2) \<and> set outs \<subseteq> set o1 \<union> set_option v"
      using e d Ok ds f v assms by (auto simp: e2e_call_def split: option.splits if_splits)
    moreover have "same_key st st1" "same_key st st2" "\<forall>x \<in> set o1 \<union> set_option v. sealed (ry_crypto env) st x"
      using k forward_keeps_key [OF f] seal_keeps_key [OF v] by (auto intro: same_key_trans sealed_same_key)
    ultimately show ?thesis using e d Ok ds by (auto simp: carried_out_def)
  qed
qed (use assms in \<open>auto simp: e2e_call_def\<close>)

lemma handshake_answer: "server_handshake cr sk pk = Ok (k, e) \<Longrightarrow> k = cr_encode cr (cr_public cr sk)"
  by (auto simp: server_handshake_def Let_def and_then_Ok_iff split: option.splits if_splits)

text \<open>A frame of type \<open>kind\<close> with the text \<open>x\<close> under \<open>key\<close>, as it was received.\<close>

definition received :: "('g, 'k) relay_env \<Rightarrow> relay_event \<Rightarrow> string \<Rightarrow> string \<Rightarrow> string \<Rightarrow> bool" where
  "received env ev kind key x \<longleftrightarrow>
     (\<exists>text frame. ev = Inbound (RText text) \<and> ry_parse env text = Some frame \<and>
        get_str frame ''type'' = Some kind \<and> get_str frame key = Some x)"

lemma inbound_cases:
  assumes "relay_inbound env msg st s = Some (outs, go, st', s')" and "relay_ok st"
  obtains (quiet) "outs = []" "s' = s" "relay_ok st'"
    | (hello) pk where "received env (Inbound msg) ''e2e_hello'' ''pubkey'' pk" "s' = s" "relay_ok st'"
        "outs = [hello_frame (cr_encode (ry_crypto env) (cr_public (ry_crypto env) (ry_secret env)))]"
    | (call) payload where "received env (Inbound msg) ''e2e'' ''payload'' payload" "rl_established st"
        "e2e_call env payload st s = Some (outs, go, st', s')"
proof (cases msg)
  case (RText t)
  show thesis
  proof (cases "ry_parse env t")
    case (Some frame)
    note r = assms(1) [unfolded relay_inbound_def RText relay_message.case Some option.case Let_def]
    consider (h) pk where "get_str frame ''type'' = Some ''e2e_hello''" "get_str frame ''pubkey'' = Some pk"
      | (c) payload where "get_str frame ''type'' = Some ''e2e''" "get_str frame ''payload'' = Some payload" "rl_established st"
      | (q) "outs = []" "s' = s" "relay_ok st'"
      using r assms(2) by (cases "get_str frame ''type''") (auto simp: or_default_def relay_ok_def split: if_splits option.splits)
    then show thesis
    proof cases
      case (h pk)
      then have rec: "received env (Inbound msg) ''e2e_hello'' ''pubkey'' pk" using RText Some by (auto simp: received_def)
      show thesis
      proof (cases "outs = []")
        case True
        then show thesis using r h assms(2) quiet by (auto simp: or_default_def relay_ok_def split: if_splits result.splits)
      next
        case False
        with r h obtain k e where "server_handshake (ry_crypto env) (ry_secret env) pk = Ok (k, e)" "outs = [hello_frame k]" "s' = s" "relay_ok st'"
          by (auto simp: or_default_def relay_ok_def split: if_splits result.splits)
        with hello [OF rec] handshake_answer show thesis by metis
      qed
    next
      case (c payload)
      then show thesis using r call [of payload] RText Some by (auto simp: received_def or_default_def)
    qed (rule quiet)
  qed (use RText assms quiet in \<open>auto simp: relay_inbound_def\<close>)
qed (use assms quiet in \<open>auto simp: relay_inbound_def\<close>)

text \<open>C15: The relay as a gate, for every event of a connection. Anything changes only if the event is an encrypted frame whose
  payload is authentic for the established session, and then by carrying out the decrypted request. What the daemon
  sends is its registration at the start, its own public key in answer to a client's key, or a text encrypted under the
  key of sending of the session it is in, also for events of the broadcaster and for those that come in while a request
  is carried out. The flag and the session agree.\<close>

theorem relay_gate:
  assumes "relay_ok st" and "relay_step env ev st s = Some (outs, go, st', s')"
  shows "relay_ok st' \<and>
    (\<forall>v \<in> set outs.
       ev = Connected \<and> v = register_frame (ry_daemon_id env) (ry_license_token env) \<or>
       (\<exists>pk. received env ev ''e2e_hello'' ''pubkey'' pk) \<and>
         v = hello_frame (cr_encode (ry_crypto env) (cr_public (ry_crypto env) (ry_secret env))) \<or>
       rl_established st \<and> sealed (ry_crypto env) st v) \<and>
    (s' \<noteq> s \<longrightarrow> rl_established st \<and>
      (\<exists>payload. received env ev ''e2e'' ''payload'' payload \<and> carried_out env payload st s s'))"
proof (cases ev)
  case Connected
  with assms show ?thesis by (auto simp: relay_step_def relay_connect_def relay_ok_def split: if_splits)
next
  case (Push event)
  obtain o1 g1 st1 where b: "relay_broadcast env event st = (o1, g1, st1)" by (metis prod_cases3)
  from broadcast_keeps_key [OF b] have k: "same_key st st1" "\<forall>v \<in> set o1. sealed (ry_crypto env) st v" by auto
  then have "\<forall>v \<in> set o1. rl_established st" using assms(1) by (auto simp: sealed_def relay_ok_def)
  with k Push b assms same_key_ok [OF k(1)] show ?thesis by (auto simp: relay_step_def)
next
  case (Inbound msg)
  with assms(2) have "relay_inbound env msg st s = Some (outs, go, st', s')" by (simp add: relay_step_def)
  from this assms(1) show ?thesis
  proof (cases rule: inbound_cases)
    case (call payload)
    from e2e_call_keeps_key [OF call(3)] call(1,2) Inbound assms(1) same_key_ok show ?thesis by blast
  qed (use Inbound in auto)
qed

text \<open>Who gets in over the relay: any client whose key has the right length establishes a session, and its requests are
  carried out under the daemon's own token. The paired devices are not looked at, so revoking a device does not shut it
  out.\<close>

theorem relay_ignores_paired_devices:
  assumes "\<And>bs. cr_decode (ry_crypto env) (cr_encode (ry_crypto env) bs) = Some bs" and "length pk = 32" and "ry_send_ok env"
    and "\<And>ikm info. cr_derive (ry_crypto env) ikm info \<noteq> None"
    and "ry_parse env text = Some (hello_frame (cr_encode (ry_crypto env) pk))"
  shows "\<exists>k e. relay_inbound env (RText text) st s = Some ([hello_frame k], True, \<lparr>rl_e2e = Some e, rl_established = True\<rparr>, s) \<and>
    (\<forall>s2 payload inner e1 rq r s3. e2e_decrypt (ry_crypto env) payload e = (Ok inner, e1) \<and>
       ce_parse (ry_call env) inner = Some rq \<and> rr_jsonrpc rq = ''2.0'' \<and>
       ipc_dispatch (ry_call env) (rr_method rq) (or_null (rr_params rq)) s2 = Some (r, s3) \<longrightarrow>
       (\<exists>outs go st3. e2e_call env payload \<lparr>rl_e2e = Some e, rl_established = True\<rparr> s2 = Some (outs, go, st3, s3)))"
proof -
  let ?shared = "cr_diffie_hellman (ry_crypto env) (ry_secret env) pk"
  obtain k1 k2 where "cr_derive (ry_crypto env) ?shared ''clawd-relay-c2d-v1'' = Some k1" "cr_derive (ry_crypto env) ?shared ''clawd-relay-d2c-v1'' = Some k2"
    using assms(4) by blast
  then obtain k e where h: "server_handshake (ry_crypto env) (ry_secret env) (cr_encode (ry_crypto env) pk) = Ok (k, e)"
    using assms(1,2) by (simp add: server_handshake_def derive_cipher_def)
  have "relay_inbound env (RText text) st s = Some ([hello_frame k], True, \<lparr>rl_e2e = Some e, rl_established = True\<rparr>, s)"
    using assms(3,5) h by (simp add: relay_inbound_def hello_frame_def get_str_def or_default_def)
  moreover have "\<exists>outs go st3. e2e_call env payload \<lparr>rl_e2e = Some e, rl_established = True\<rparr> s2 = Some (outs, go, st3, s3)"
    if given: "e2e_decrypt (ry_crypto env) payload e = (Ok inner, e1)" "ce_parse (ry_call env) inner = Some rq" "rr_jsonrpc rq = ''2.0''"
      "ipc_dispatch (ry_call env) (rr_method rq) (or_null (rr_params rq)) s2 = Some (r, s3)" for s2 payload inner e1 rq r s3
  proof -
    obtain resp where "dispatch_text (ry_call env) inner (sv_auth_token s2) s2 = Some (resp, s3)"
      using given(2-4) by (simp add: dispatch_text_def sample_authorized)
    with given(1) show ?thesis by (auto simp: e2e_call_def split: prod.split option.split)
  qed
  ultimately show ?thesis by blast
qed

section \<open>A sample session\<close>

text \<open>A cipher for evaluation only: the text follows the nonce and a check byte.\<close>

definition plain_crypto :: "unit crypto" where
  "plain_crypto =
     \<lparr>cr_encode = map (\<lambda>b. char_of (unat b)), cr_decode = (\<lambda>s. Some (as_bytes s)), cr_public = id,
      cr_diffie_hellman = (\<lambda>sk pk. sk @ pk), cr_derive = (\<lambda>_ _. Some ()),
      cr_encrypt = (\<lambda>_ n pt. Some (1 # pt)), cr_decrypt = (\<lambda>_ n ct. case ct of b # pt \<Rightarrow> if b = 1 then Some pt else None | [] \<Rightarrow> None)\<rparr>"

definition plain_session :: "unit relay_e2e" where
  "plain_session = \<lparr>e2_cipher_recv = (), e2_cipher_send = (), e2_send_counter = 0, e2_recv_counter = 0\<rparr>"

lemma bytes_of_chars: "as_bytes (map (\<lambda>b. char_of (unat b)) bs) = bs"
proof -
  have "(of_char (char_of (unat b) :: char) :: u8) = b" for b :: u8
  proof -
    have "unat b < 256" using unsigned_less [of b] by simp
    then have "(of_char (char_of (unat b) :: char) :: nat) = unat b" by simp
    then have "of_nat (of_char (char_of (unat b) :: char)) = (of_nat (unat b) :: u8)" by (rule arg_cong)
    then show ?thesis by (simp only: of_nat_of_char of_nat_unat ucast_id)
  qed
  then show ?thesis by (simp add: as_bytes_def o_def)
qed

lemma ascii_utf8: "\<forall>b \<in> set bs. b < 0x80 \<Longrightarrow> valid_utf8 bs"
  by (induction bs) (simp_all add: valid_utf8.simps)

lemma sample_text: "utf8_text ''ping''"
  by (simp add: utf8_text_def as_bytes_def ascii_utf8)

lemma sample_frame: "\<exists>p e1 c1. e2e_encrypt plain_crypto ''ping'' plain_session = (Ok p, e1) \<and> e2e_decrypt plain_crypto p plain_session = (Ok ''ping'', c1)"
  using from_utf8_as_bytes [OF sample_text]
  by (simp add: e2e_encrypt_def e2e_decrypt_def Let_def plain_crypto_def plain_session_def bytes_of_chars del: map_append)

theorem relay_replay_refused_witness:
  "\<exists>p c1. e2e_decrypt plain_crypto p plain_session = (Ok ''ping'', c1) \<and>
     e2e_decrypt plain_crypto p c1 = (Err ''nonce mismatch - possible replay attack'', c1)"
proof -
  obtain p c1 where d: "e2e_decrypt plain_crypto p plain_session = (Ok ''ping'', c1)" using sample_frame by blast
  with relay_replay_refused [OF d, of "[]"] show ?thesis by auto
qed

text \<open>A daemon that is asked for a PIN over the relay, with one event of the broadcaster in between.\<close>

definition sample_relay :: "string \<Rightarrow> (unit, unit) relay_env" where
  "sample_relay p =
     \<lparr>ry_call = sample_call ''daemon.pairPin'' JNull, ry_crypto = plain_crypto, ry_secret = replicate 32 7,
      ry_parse = (\<lambda>_. Some (e2e_frame p)), ry_print = (\<lambda>_. ''done''), ry_send_ok = True, ry_pushed = [''event''],
      ry_daemon_id = ''d1'', ry_license_token = ''lic''\<rparr>"

abbreviation established :: "unit relay_state" where
  "established \<equiv> \<lparr>rl_e2e = Some plain_session, rl_established = True\<rparr>"

lemma plain_seal:
  "\<exists>out st1. seal plain_crypto t \<lparr>rl_e2e = Some e, rl_established = True\<rparr> = (Some out, \<lparr>rl_e2e = Some st1, rl_established = True\<rparr>)"
  by (simp add: seal_def e2e_encrypt_def Let_def plain_crypto_def)

lemma sample_relay_pin:
  "\<exists>p outs st' s'. relay_step (sample_relay p) (Inbound (RText [])) established fresh = Some (outs, True, st', s') \<and> s' \<noteq> fresh \<and> length outs = 2"
proof -
  let ?s1 = "fresh\<lparr>sv_pairing := \<lparr>pb_pins = [sample_pin 0], pb_devices = []\<rparr>\<rparr>"
  obtain p c1 where d: "e2e_decrypt plain_crypto p plain_session = (Ok ''ping'', c1)" using sample_frame by blast
  obtain r where "pairing_generate_pin (sample_pair_env ''t1'') fresh = Some (r, ?s1)"
    using sample_generate [of "''t1''" "sample_app WtActive"] by fastforce
  then have "ipc_dispatch (sample_call ''daemon.pairPin'' JNull) ''daemon.pairPin'' JNull fresh = Some (r, ?s1)"
    by (simp add: ipc_dispatch_def sample_call_def)
  from sample_dispatch [OF this] obtain r1 where
    c: "dispatch_text (sample_call ''daemon.pairPin'' JNull) ''ping'' (sv_auth_token fresh) fresh = Some (r1, ?s1)" by blast
  obtain o1 e2 where s1: "seal plain_crypto ''event'' \<lparr>rl_e2e = Some c1, rl_established = True\<rparr> = (Some o1, \<lparr>rl_e2e = Some e2, rl_established = True\<rparr>)"
    using plain_seal by blast
  obtain o2 e3 where s2: "seal plain_crypto ''done'' \<lparr>rl_e2e = Some e2, rl_established = True\<rparr> = (Some o2, \<lparr>rl_e2e = Some e3, rl_established = True\<rparr>)"
    using plain_seal by blast
  have "relay_step (sample_relay p) (Inbound (RText [])) established fresh = Some ([o1, o2], True, \<lparr>rl_e2e = Some e3, rl_established = True\<rparr>, ?s1)"
    using d c s1 s2 by (simp add: relay_step_def relay_inbound_def sample_relay_def e2e_frame_def get_str_def or_default_def e2e_call_def relay_broadcast_def)
  moreover have "?s1 \<noteq> fresh" by (simp add: fresh_server_def)
  ultimately show ?thesis by fastforce
qed

theorem relay_gate_witness:
  "\<exists>p outs st' s'. relay_step (sample_relay p) (Inbound (RText [])) established fresh = Some (outs, True, st', s') \<and> s' \<noteq> fresh \<and> length outs = 2 \<and>
     (\<exists>payload. received (sample_relay p) (Inbound (RText [])) ''e2e'' ''payload'' payload \<and> carried_out (sample_relay p) payload established fresh s') \<and> relay_ok st'"
proof -
  obtain p outs st' s' where r: "relay_step (sample_relay p) (Inbound (RText [])) established fresh = Some (outs, True, st', s')"
      "s' \<noteq> fresh" "length outs = 2"
    using sample_relay_pin by blast
  have "relay_ok established" by (simp add: relay_ok_def)
  from relay_gate [OF this r(1)] r show ?thesis by blast
qed

end
