(* ===== verification/Relay_Client.thy ===== *)
theory Relay_Client
  imports Relay_Props
begin

text \<open>
  The other end of a relay session, \<^verbatim>\<open>relay_crypto.dart\<close> of the client library, and its agreement with the daemon: from the
  exchange of public keys on, each side reads what the other sends. The two programs use different libraries for the same
  standards (base64url, X25519, HKDF-SHA256, ChaCha20-Poly1305); the client's are the record \<open>'k client_crypto\<close>, and
  \<open>same_standards\<close> says that both follow the standards. A text is the list of its UTF-8 bytes; an integer of the client
  has 64 bits.
\<close>

unbundle bit_operations_syntax

section \<open>The libraries of the client\<close>

record 'k client_crypto =
  cc_b64_encode :: "u8 list \<Rightarrow> string"
  cc_b64_decode :: "string \<Rightarrow> u8 list option"
  cc_public :: "u8 list \<Rightarrow> u8 list"
  cc_shared :: "u8 list \<Rightarrow> u8 list \<Rightarrow> u8 list option"
  cc_derive :: "u8 list \<Rightarrow> u8 list \<Rightarrow> 'k"
  cc_encrypt :: "'k \<Rightarrow> u8 list \<Rightarrow> u8 list \<Rightarrow> u8 list \<times> u8 list"
  cc_decrypt :: "'k \<Rightarrow> u8 list \<Rightarrow> u8 list \<Rightarrow> u8 list \<Rightarrow> u8 list option"

definition pad_right :: "nat \<Rightarrow> char \<Rightarrow> string \<Rightarrow> string" where
  "pad_right w c s = s @ replicate (w - length s) c"

definition b64url_nopad :: "'k client_crypto \<Rightarrow> u8 list \<Rightarrow> string" where
  "b64url_nopad cc bs = filter (\<lambda>c. c \<noteq> CHR ''='') (cc_b64_encode cc bs)"

definition b64url_decode :: "'k client_crypto \<Rightarrow> string \<Rightarrow> u8 list option" where
  "b64url_decode cc s = cc_b64_decode cc (pad_right ((length s + 3) div 4 * 4) CHR ''='' s)"

text \<open>The decoder of UTF-8 of the language drops a leading byte order mark.\<close>

definition dart_utf8_decode :: "u8 list \<Rightarrow> string option" where
  "dart_utf8_decode bs = from_utf8 (if take 3 bs = [0xEF, 0xBB, 0xBF] then drop 3 bs else bs)"

section \<open>The handshake\<close>

record client_handshake =
  hs_seed :: "u8 list"
  hs_client_pubkey :: string

definition create_from_seed :: "'k client_crypto \<Rightarrow> u8 list \<Rightarrow> client_handshake" where
  "create_from_seed cc seed = \<lparr>hs_seed = seed, hs_client_pubkey = b64url_nopad cc (cc_public cc seed)\<rparr>"

record 'k client_session =
  cs_send_key :: 'k
  cs_recv_key :: 'k
  cs_send_counter :: u64
  cs_recv_counter :: u64

definition complete_handshake :: "'k client_crypto \<Rightarrow> client_handshake \<Rightarrow> string \<Rightarrow> ('k client_session, string) result" where
  "complete_handshake cc hs server_pubkey_b64 =
     (case b64url_decode cc server_pubkey_b64 of
        None \<Rightarrow> Err ''FormatException''
      | Some server_bytes \<Rightarrow>
          (case cc_shared cc (hs_seed hs) server_bytes of
             None \<Rightarrow> Err ''ArgumentError''
           | Some shared \<Rightarrow>
               Ok \<lparr>cs_send_key = cc_derive cc shared (as_bytes ''clawd-relay-c2d-v1''),
                   cs_recv_key = cc_derive cc shared (as_bytes ''clawd-relay-d2c-v1''),
                   cs_send_counter = 0, cs_recv_counter = 0\<rparr>))"

section \<open>The session\<close>

definition client_nonce :: "u64 \<Rightarrow> u8 list" where
  "client_nonce counter = map (\<lambda>i. ucast (signed_drop_bit (i * 8) counter AND 0xFF)) [0..<8] @ replicate 4 0"

definition client_encrypt :: "'k client_crypto \<Rightarrow> string \<Rightarrow> 'k client_session \<Rightarrow> string \<times> 'k client_session" where
  "client_encrypt cc plaintext c =
     (let nonce = client_nonce (cs_send_counter c);
          (cipher_text, mac) = cc_encrypt cc (cs_send_key c) nonce (as_bytes plaintext)
      in (b64url_nopad cc (nonce @ cipher_text @ mac), c\<lparr>cs_send_counter := cs_send_counter c + 1\<rparr>))"

definition client_decrypt :: "'k client_crypto \<Rightarrow> string \<Rightarrow> 'k client_session \<Rightarrow> (string, string) result \<times> 'k client_session" where
  "client_decrypt cc payload_b64 c =
     (case b64url_decode cc payload_b64 of
        None \<Rightarrow> (Err ''FormatException'', c)
      | Some data \<Rightarrow>
          if length data < 12 + 16 then (Err ''e2e payload too short'', c)
          else let nonce = take 12 data;
                   cipher_text = drop 12 (take (length data - 16) data);
                   mac = drop (length data - 16) data
               in if nonce \<noteq> client_nonce (cs_recv_counter c) then (Err ''e2e nonce mismatch - possible replay attack'', c)
                  else let c1 = c\<lparr>cs_recv_counter := cs_recv_counter c + 1\<rparr> in
                    (case cc_decrypt cc (cs_recv_key c) nonce cipher_text mac of
                       None \<Rightarrow> (Err ''SecretBoxAuthenticationError'', c1)
                     | Some pt \<Rightarrow>
                         (case dart_utf8_decode pt of
                            None \<Rightarrow> (Err ''FormatException'', c1)
                          | Some t \<Rightarrow> (Ok t, c1))))"

fun client_send_all :: "'k client_crypto \<Rightarrow> string list \<Rightarrow> 'k client_session \<Rightarrow> string list \<times> 'k client_session" where
  "client_send_all cc [] c = ([], c)"
| "client_send_all cc (t # ts) c = (let (p, c1) = client_encrypt cc t c; (ps, c2) = client_send_all cc ts c1 in (p # ps, c2))"

fun client_receive_all :: "'k client_crypto \<Rightarrow> string list \<Rightarrow> 'k client_session \<Rightarrow> (string, string) result list \<times> 'k client_session" where
  "client_receive_all cc [] c = ([], c)"
| "client_receive_all cc (p # ps) c = (let (r, c1) = client_decrypt cc p c; (rs, c2) = client_receive_all cc ps c1 in (r # rs, c2))"

section \<open>Nonces agree\<close>

lemma low_byte_of_shift:
  fixes c :: u64
  assumes "i < 8"
  shows "(ucast (signed_drop_bit (i * 8) c AND 0xFF) :: u8) = ucast (drop_bit (8 * i) c)"
proof (rule bit_word_eqI)
  fix n assume "n < LENGTH(8)"
  then have n: "n < 8" by simp
  then have "i * 8 + n < 64" using assms by simp
  moreover have "bit (0xFF :: u64) n" using n by (simp add: numeral_eq_Suc less_Suc_eq bit_simps) auto
  ultimately show "bit (ucast (signed_drop_bit (i * 8) c AND 0xFF) :: u8) n = bit (ucast (drop_bit (8 * i) c) :: u8) n"
    using n by (auto simp: bit_ucast_iff bit_and_iff bit_drop_bit_eq bit_signed_drop_bit_iff ac_simps)
qed

lemma client_nonce_eq [simp]: "client_nonce c = make_nonce c"
  by (simp add: client_nonce_def make_nonce_def to_le_bytes_def low_byte_of_shift)

section \<open>The standards\<close>

text \<open>What both ends rely on: the encodings are the same and invertible, the exchanged secret is the same on both sides for
  a secret key and a seed of 32 bytes, a public key has 32 bytes, the derivation is the same function and never fails for
  keys of this length, and for a nonce of 12 bytes the cipher of the daemon appends the tag of 16 bytes that the one of
  the client returns beside the text; both ciphers invert both.\<close>

definition same_standards :: "'k crypto \<Rightarrow> 'k client_crypto \<Rightarrow> bool" where
  "same_standards cr cc \<longleftrightarrow>
     (\<forall>bs. b64url_nopad cc bs = cr_encode cr bs \<and> b64url_decode cc (cr_encode cr bs) = Some bs \<and> cr_decode cr (cr_encode cr bs) = Some bs) \<and>
     (\<forall>sk seed. length sk = 32 \<and> length seed = 32 \<longrightarrow> cc_shared cc seed (cr_public cr sk) = Some (cr_diffie_hellman cr sk (cc_public cc seed))) \<and>
     (\<forall>seed. length seed = 32 \<longrightarrow> length (cc_public cc seed) = 32) \<and>
     (\<forall>ikm info. cr_derive cr ikm info = Some (cc_derive cc ikm (as_bytes info))) \<and>
     (\<forall>k n pt. length n = 12 \<longrightarrow> (\<exists>ct mac. cc_encrypt cc k n pt = (ct, mac) \<and> length mac = 16 \<and> cr_encrypt cr k n pt = Some (ct @ mac) \<and>
        cr_decrypt cr k n (ct @ mac) = Some pt \<and> cc_decrypt cc k n ct mac = Some pt))"

text \<open>The two ends of a session: each sends under the key the other receives under, from the same position.\<close>

definition in_step :: "'k relay_e2e \<Rightarrow> 'k client_session \<Rightarrow> bool" where
  "in_step e c \<longleftrightarrow> cs_recv_key c = e2_cipher_send e \<and> cs_recv_counter c = e2_send_counter e \<and>
     cs_send_key c = e2_cipher_recv e \<and> cs_send_counter c = e2_recv_counter e"

lemma handshake_in_step:
  assumes "same_standards cr cc" and "length sk = 32" and "length seed = 32"
  shows "\<exists>server_pubkey e c. server_handshake cr sk (hs_client_pubkey (create_from_seed cc seed)) = Ok (server_pubkey, e) \<and>
    complete_handshake cc (create_from_seed cc seed) server_pubkey = Ok c \<and> in_step e c"
  using assms by (simp add: same_standards_def server_handshake_def create_from_seed_def complete_handshake_def derive_cipher_def in_step_def)

text \<open>A text the client reads as it was sent: valid UTF-8 that does not begin with a byte order mark.\<close>

definition client_text :: "string \<Rightarrow> bool" where
  "client_text t \<longleftrightarrow> utf8_text t \<and> take 3 (as_bytes t) \<noteq> [0xEF, 0xBB, 0xBF]"

definition nonces_of :: "'k crypto \<Rightarrow> string list \<Rightarrow> u8 list list" where
  "nonces_of cr ps = map (\<lambda>p. take 12 (the (cr_decode cr p))) ps"

lemma ciphers_agree:
  assumes "same_standards cr cc" and "length n = 12"
  obtains ct mac where "cc_encrypt cc k n pt = (ct, mac)" "length mac = 16" "cr_encrypt cr k n pt = Some (ct @ mac)"
    "cr_decrypt cr k n (ct @ mac) = Some pt" "cc_decrypt cc k n ct mac = Some pt"
proof -
  from assms(1) have "\<forall>k n pt. length n = 12 \<longrightarrow> (\<exists>ct mac. cc_encrypt cc k n pt = (ct, mac) \<and> length mac = 16 \<and>
      cr_encrypt cr k n pt = Some (ct @ mac) \<and> cr_decrypt cr k n (ct @ mac) = Some pt \<and> cc_decrypt cc k n ct mac = Some pt)"
    unfolding same_standards_def by (elim conjE)
  with assms(2) that show thesis by blast
qed

lemma to_client:
  assumes "same_standards cr cc" and "in_step e c" and "client_text t"
  shows "\<exists>p. e2e_encrypt cr t e = (Ok p, e\<lparr>e2_send_counter := e2_send_counter e + 1\<rparr>) \<and>
    client_decrypt cc p c = (Ok t, c\<lparr>cs_recv_counter := cs_recv_counter c + 1\<rparr>) \<and>
    take 12 (the (cr_decode cr p)) = make_nonce (e2_send_counter e)"
proof -
  let ?n = "make_nonce (e2_send_counter e)"
  obtain ct mac where ct: "cr_encrypt cr (e2_cipher_send e) ?n (as_bytes t) = Some (ct @ mac)" "length mac = 16"
      "cc_decrypt cc (e2_cipher_send e) ?n ct mac = Some (as_bytes t)"
    by (rule ciphers_agree [OF assms(1) length_make_nonce])
  let ?p = "cr_encode cr (?n @ ct @ mac)"
  have enc: "b64url_decode cc ?p = Some (?n @ ct @ mac)" "cr_decode cr ?p = Some (?n @ ct @ mac)"
    using assms(1) by (simp_all add: same_standards_def)
  have "dart_utf8_decode (as_bytes t) = Some t"
    using assms(3) from_utf8_as_bytes [of t] by (simp add: dart_utf8_decode_def client_text_def)
  then have "client_decrypt cc ?p c = (Ok t, c\<lparr>cs_recv_counter := cs_recv_counter c + 1\<rparr>)"
    using enc(1) ct(2,3) assms(2) by (simp add: client_decrypt_def Let_def in_step_def)
  with ct enc(2) show ?thesis by (intro exI [of _ ?p]) (simp add: e2e_encrypt_def)
qed

lemma from_client:
  assumes "same_standards cr cc" and "in_step e c" and "utf8_text t"
  shows "\<exists>p. client_encrypt cc t c = (p, c\<lparr>cs_send_counter := cs_send_counter c + 1\<rparr>) \<and>
    e2e_decrypt cr p e = (Ok t, e\<lparr>e2_recv_counter := e2_recv_counter e + 1\<rparr>) \<and>
    take 12 (the (cr_decode cr p)) = make_nonce (cs_send_counter c)"
proof -
  let ?n = "make_nonce (cs_send_counter c)"
  obtain ct mac where ct: "cc_encrypt cc (cs_send_key c) ?n (as_bytes t) = (ct, mac)" "cr_decrypt cr (cs_send_key c) ?n (ct @ mac) = Some (as_bytes t)"
    by (rule ciphers_agree [OF assms(1) length_make_nonce])
  let ?p = "cr_encode cr (?n @ ct @ mac)"
  have enc: "b64url_nopad cc (?n @ ct @ mac) = ?p" "cr_decode cr ?p = Some (?n @ ct @ mac)"
    using assms(1) by (simp_all add: same_standards_def)
  have "e2e_decrypt cr ?p e = (Ok t, e\<lparr>e2_recv_counter := e2_recv_counter e + 1\<rparr>)"
    using enc(2) ct(2) assms(2) from_utf8_as_bytes [OF assms(3)] by (simp add: e2e_decrypt_def Let_def in_step_def)
  with ct(1) enc show ?thesis by (intro exI [of _ ?p]) (simp add: client_encrypt_def)
qed

lemma next_nonces:
  "map (\<lambda>i. make_nonce (n + of_nat i)) [0..<Suc k] = make_nonce n # map (\<lambda>i. make_nonce (n + 1 + of_nat i)) [0..<k]"
  unfolding map_upt_Suc by (simp add: ac_simps)

lemma stream_to_client:
  assumes "same_standards cr cc" and "in_step e c" and "\<forall>t \<in> set ts. client_text t"
  shows "\<exists>ps. fst (send_all cr ts e) = map Ok ps \<and> fst (client_receive_all cc ps c) = map Ok ts \<and>
    nonces_of cr ps = map (\<lambda>i. make_nonce (e2_send_counter e + of_nat i)) [0..<length ts]"
  using assms(2,3)
proof (induction ts arbitrary: e c)
  case Nil
  then show ?case by (auto simp: nonces_of_def intro: exI [of _ "[]"])
next
  case (Cons t ts)
  let ?e = "e\<lparr>e2_send_counter := e2_send_counter e + 1\<rparr>" and ?c = "c\<lparr>cs_recv_counter := cs_recv_counter c + 1\<rparr>"
  obtain p where p: "e2e_encrypt cr t e = (Ok p, ?e)" "client_decrypt cc p c = (Ok t, ?c)" "take 12 (the (cr_decode cr p)) = make_nonce (e2_send_counter e)"
    using to_client [OF assms(1) Cons.prems(1)] Cons.prems(2) by (metis list.set_intros(1))
  have "in_step ?e ?c" using Cons.prems(1) by (simp add: in_step_def)
  from Cons.IH [OF this] Cons.prems(2) obtain ps where ps: "fst (send_all cr ts ?e) = map Ok ps" "fst (client_receive_all cc ps ?c) = map Ok ts"
      "nonces_of cr ps = map (\<lambda>i. make_nonce (e2_send_counter e + 1 + of_nat i)) [0..<length ts]" by auto
  with p show ?case by (intro exI [of _ "p # ps"]) (simp add: split_beta nonces_of_def next_nonces del: upt_Suc)
qed

lemma stream_from_client:
  assumes "same_standards cr cc" and "in_step e c" and "\<forall>t \<in> set ts. utf8_text t"
  shows "fst (receive_all cr (fst (client_send_all cc ts c)) e) = map Ok ts \<and>
    nonces_of cr (fst (client_send_all cc ts c)) = map (\<lambda>i. make_nonce (cs_send_counter c + of_nat i)) [0..<length ts]"
  using assms(2,3)
proof (induction ts arbitrary: e c)
  case Nil
  then show ?case by (simp add: nonces_of_def)
next
  case (Cons t ts)
  let ?e = "e\<lparr>e2_recv_counter := e2_recv_counter e + 1\<rparr>" and ?c = "c\<lparr>cs_send_counter := cs_send_counter c + 1\<rparr>"
  obtain p where p: "client_encrypt cc t c = (p, ?c)" "e2e_decrypt cr p e = (Ok t, ?e)" "take 12 (the (cr_decode cr p)) = make_nonce (cs_send_counter c)"
    using from_client [OF assms(1) Cons.prems(1)] Cons.prems(2) by (metis list.set_intros(1))
  have "in_step ?e ?c" using Cons.prems(1) by (simp add: in_step_def)
  from Cons.IH [OF this] Cons.prems(2) p show ?case by (simp add: split_beta nonces_of_def next_nonces del: upt_Suc)
qed

text \<open>C17: Client and daemon understand each other, from the exchange of keys on: for the key a client derives from its seed of 32 bytes the
  daemon's handshake succeeds, the client completes it with the key the daemon answers, and then each side reads exactly
  the texts the other sends, in their order, in both directions and up to the range of the counters; within a
  direction no nonce is used twice. A text of the daemon that begins with a byte order mark is excluded: the client would
  drop the mark.\<close>

theorem relay_interoperates:
  assumes "same_standards cr cc" and "length sk = 32" and "length seed = 32"
  shows "\<exists>server_pubkey e c. server_handshake cr sk (hs_client_pubkey (create_from_seed cc seed)) = Ok (server_pubkey, e) \<and>
    complete_handshake cc (create_from_seed cc seed) server_pubkey = Ok c \<and>
    (\<forall>ts. (\<forall>t \<in> set ts. client_text t) \<and> length ts \<le> 2 ^ 64 \<longrightarrow>
       (\<exists>ps. fst (send_all cr ts e) = map Ok ps \<and> fst (client_receive_all cc ps c) = map Ok ts \<and> distinct (nonces_of cr ps))) \<and>
    (\<forall>ts. (\<forall>t \<in> set ts. utf8_text t) \<and> length ts \<le> 2 ^ 64 \<longrightarrow>
       fst (receive_all cr (fst (client_send_all cc ts c)) e) = map Ok ts \<and> distinct (nonces_of cr (fst (client_send_all cc ts c))))"
proof -
  obtain server_pubkey e c where h: "server_handshake cr sk (hs_client_pubkey (create_from_seed cc seed)) = Ok (server_pubkey, e)"
      "complete_handshake cc (create_from_seed cc seed) server_pubkey = Ok c" "in_step e c"
    using handshake_in_step [OF assms] by blast
  have "\<exists>ps. fst (send_all cr ts e) = map Ok ps \<and> fst (client_receive_all cc ps c) = map Ok ts \<and> distinct (nonces_of cr ps)"
    if "\<forall>t \<in> set ts. client_text t" "length ts \<le> 2 ^ 64" for ts
    using stream_to_client [OF assms(1) h(3) that(1)] nonces_distinct [OF that(2), of "e2_send_counter e"] by metis
  moreover have "fst (receive_all cr (fst (client_send_all cc ts c)) e) = map Ok ts \<and> distinct (nonces_of cr (fst (client_send_all cc ts c)))"
    if "\<forall>t \<in> set ts. utf8_text t" "length ts \<le> 2 ^ 64" for ts
    using stream_from_client [OF assms(1) h(3) that(1)] nonces_distinct [OF that(2), of "cs_send_counter c"] by metis
  ultimately show ?thesis using h(1,2) by blast
qed

section \<open>Sample libraries\<close>

text \<open>Libraries for evaluation only, which show that the standards can be met: two letters for a byte, addition as the
  exchange of keys, a key that is the secret with the purpose, and the purpose as the tag.\<close>

definition letter :: "u8 \<Rightarrow> char" where
  "letter w = char_of (unat (97 + w))"

fun unletters :: "string \<Rightarrow> u8 list" where
  "unletters (a # b # r) = ((of_char a - 97) * 16 + (of_char b - 97)) # unletters r"
| "unletters _ = []"

definition letters :: "u8 list \<Rightarrow> string" where
  "letters bs = concat (map (\<lambda>b. [letter (b div 16), letter (b mod 16)]) bs)"

definition key32 :: "u8 list \<Rightarrow> u8 list" where
  "key32 bs = take 32 (bs @ replicate 32 0)"

definition sample_tag :: "u8 list \<times> u8 list \<Rightarrow> u8 list" where
  "sample_tag k = take 16 (snd k @ replicate 16 0)"

definition sample_daemon :: "(u8 list \<times> u8 list) crypto" where
  "sample_daemon =
     \<lparr>cr_encode = letters, cr_decode = (\<lambda>s. Some (unletters s)), cr_public = key32,
      cr_diffie_hellman = (\<lambda>sk pk. map2 (+) (key32 sk) pk), cr_derive = (\<lambda>ikm info. Some (ikm, as_bytes info)),
      cr_encrypt = (\<lambda>k n pt. Some (pt @ sample_tag k)),
      cr_decrypt = (\<lambda>k n ct. if drop (length ct - 16) ct = sample_tag k then Some (take (length ct - 16) ct) else None)\<rparr>"

definition sample_client :: "(u8 list \<times> u8 list) client_crypto" where
  "sample_client =
     \<lparr>cc_b64_encode = (\<lambda>bs. pad_right ((length (letters bs) + 3) div 4 * 4) CHR ''='' (letters bs)),
      cc_b64_decode = (\<lambda>s. Some (unletters (takeWhile (\<lambda>c. c \<noteq> CHR ''='') s))), cc_public = key32,
      cc_shared = (\<lambda>sk pk. if length pk = 32 then Some (map2 (+) (key32 sk) pk) else None), cc_derive = Pair,
      cc_encrypt = (\<lambda>k n pt. (pt, sample_tag k)),
      cc_decrypt = (\<lambda>k n ct mac. if mac = sample_tag k then Some ct else None)\<rparr>"

lemma of_char_letter: "(of_char (letter w) :: u8) = 97 + w"
  using bytes_of_chars [of "[97 + w]"] by (simp add: as_bytes_def letter_def)

lemma letter_pad: "w < 16 \<Longrightarrow> letter w \<noteq> CHR ''=''"
proof
  assume w: "w < 16" and "letter w = CHR ''=''"
  then have "(of_char (letter w) :: u8) = 61" by simp
  then have "97 + w = 61" by (simp only: of_char_letter)
  then have "w = 61 - 97" by (metis add_diff_cancel_left')
  with w show False by simp
qed

lemma nibbles: "(b :: u8) div 16 < 16" "b mod 16 < 16"
proof -
  have "unat b < 256" using unsigned_less [of b] by simp
  then show "b div 16 < 16" "b mod 16 < 16" by (simp_all add: word_less_nat_alt unat_div unat_mod)
qed

lemma unletters_letters: "unletters (letters bs) = bs"
  by (induction bs) (simp_all add: letters_def of_char_letter div_mult_mod_eq)

lemma letters_no_pad: "c \<in> set (letters bs) \<Longrightarrow> c \<noteq> CHR ''=''"
  unfolding letters_def using letter_pad nibbles by (fastforce simp del: not_less)

lemma takeWhile_letters: "takeWhile (\<lambda>c. c \<noteq> CHR ''='') (letters bs @ replicate n CHR ''='') = letters bs"
  using letters_no_pad [of _ bs] by (subst takeWhile_append2) auto

lemma filter_letters: "filter (\<lambda>c. c \<noteq> CHR ''='') (letters bs @ replicate n CHR ''='') = letters bs"
proof -
  have f: "filter (\<lambda>c. c \<noteq> CHR ''='') (letters bs) = letters bs" by (rule filter_True) (metis letters_no_pad)
  show ?thesis unfolding filter_append f filter_replicate by simp
qed

lemma length_key32 [simp]: "length (key32 bs) = 32"
  by (simp add: key32_def)

lemma map2_add_commute: "map2 (+) xs ys = map2 (+) ys (xs :: u8 list)"
  by (induction xs ys rule: list_induct2') (simp_all add: ac_simps)

lemma sample_standards: "same_standards sample_daemon sample_client"
proof -
  have enc: "b64url_nopad sample_client bs = cr_encode sample_daemon bs" "b64url_decode sample_client (cr_encode sample_daemon bs) = Some bs"
      "cr_decode sample_daemon (cr_encode sample_daemon bs) = Some bs" for bs
    by (simp_all add: b64url_nopad_def b64url_decode_def sample_client_def sample_daemon_def pad_right_def filter_letters filter_letters [of _ 0, simplified] takeWhile_letters unletters_letters)
  have dh: "cc_shared sample_client seed (cr_public sample_daemon sk) = Some (cr_diffie_hellman sample_daemon sk (cc_public sample_client seed))" for sk seed
    by (simp add: sample_client_def sample_daemon_def map2_add_commute [of "key32 seed"])
  have tag: "length (sample_tag k) = 16" for k by (simp add: sample_tag_def)
  show ?thesis unfolding same_standards_def using enc dh by (simp add: tag) (simp add: sample_client_def sample_daemon_def tag)
qed

theorem relay_interoperates_witness:
  "\<exists>server_pubkey e c ps. server_handshake sample_daemon (replicate 32 7) (hs_client_pubkey (create_from_seed sample_client (replicate 32 5))) = Ok (server_pubkey, e) \<and>
     complete_handshake sample_client (create_from_seed sample_client (replicate 32 5)) server_pubkey = Ok c \<and>
     fst (send_all sample_daemon [''ping'', ''ping''] e) = map Ok ps \<and> fst (client_receive_all sample_client ps c) = [Ok ''ping'', Ok ''ping''] \<and>
     fst (receive_all sample_daemon (fst (client_send_all sample_client [''ping''] c)) e) = [Ok ''ping'']"
proof -
  have "client_text ''ping''" using sample_text by (simp add: client_text_def as_bytes_def)
  with relay_interoperates [OF sample_standards length_replicate length_replicate, of 7 5] sample_text show ?thesis
    by (elim exE conjE, drule_tac spec [of _ "[''ping'', ''ping'']"], drule_tac spec [of _ "[''ping'']"]) fastforce
qed

end
