(* ===== verification/Completion.thy ===== *)
theory Completion
  imports Stub_Gate Task_Storage "HOL-Library.AList"
begin

text \<open>
  Code completion: the cache of results (\<^verbatim>\<open>completion/cache.rs\<close>), the prompt (\<^verbatim>\<open>completion/engine.rs\<close>), the context of
  the file (\<^verbatim>\<open>completion/context.rs\<close>) and the two calls \<^verbatim>\<open>completion.complete\<close> (\<^verbatim>\<open>ipc/handlers/completion.rs\<close>) and
  \<^verbatim>\<open>completion.suggest\<close> (\<^verbatim>\<open>completion/handlers.rs\<close>). A string is the list of its bytes; a slice that would cut a
  character is a panic, the value \<open>None\<close>. The hash function, the clock and the session that answers a prompt are
  parameters. The confidence of an insertion, always 0.9, and the hit rate are left out.
\<close>

section \<open>Slices\<close>

text \<open>\<^verbatim>\<open>str::is_char_boundary\<close>: a byte inside a character has its two highest bits \<open>10\<close>.\<close>

definition is_char_boundary :: "string \<Rightarrow> nat \<Rightarrow> bool" where
  "is_char_boundary s i \<longleftrightarrow>
     i = 0 \<or> i = length s \<or> i < length s \<and> \<not> (0x80 \<le> (of_char (s ! i) :: nat) \<and> (of_char (s ! i) :: nat) < 0xC0)"

definition slice_from :: "string \<Rightarrow> nat \<Rightarrow> string option" where
  "slice_from s i = (if is_char_boundary s i then Some (drop i s) else None)"

definition slice_to :: "string \<Rightarrow> nat \<Rightarrow> string option" where
  "slice_to s i = (if is_char_boundary s i then Some (take i s) else None)"

definition last_bytes :: "nat \<Rightarrow> string \<Rightarrow> string option" where
  "last_bytes n s = (if length s > n then slice_from s (length s - n) else Some s)"

definition first_bytes :: "nat \<Rightarrow> string \<Rightarrow> string option" where
  "first_bytes n s = (if length s > n then slice_to s n else Some s)"

fun rfind :: "string \<Rightarrow> string \<Rightarrow> nat option" where
  "rfind p [] = (if p = [] then Some 0 else None)"
| "rfind p (c # s) = (case rfind p s of Some i \<Rightarrow> Some (Suc i) | None \<Rightarrow> if prefix p (c # s) then Some 0 else None)"

section \<open>The cache\<close>

record 'e completion_cache =
  cc_capacity :: nat
  cc_map :: "(string \<times> 'e) list"
  cc_order :: "string list"
  cc_hits :: u64
  cc_misses :: u64

definition new_cache :: "nat \<Rightarrow> 'e completion_cache" where
  "new_cache capacity = \<lparr>cc_capacity = capacity, cc_map = [], cc_order = [], cc_hits = 0, cc_misses = 0\<rparr>"

text \<open>The digest is computed from the two slices with a zero byte between them.\<close>

definition cache_key :: "(u8 list \<Rightarrow> string) \<Rightarrow> string \<Rightarrow> string \<Rightarrow> string option" where
  "cache_key sha pre suf =
     (case last_bytes 512 pre of
        None \<Rightarrow> None
      | Some prefix_slice \<Rightarrow>
          (case first_bytes 128 suf of
             None \<Rightarrow> None
           | Some suffix_slice \<Rightarrow> Some (sha (as_bytes prefix_slice @ [0] @ as_bytes suffix_slice))))"

definition cache_get :: "string \<Rightarrow> 'e completion_cache \<Rightarrow> 'e option \<times> 'e completion_cache" where
  "cache_get key c =
     (if map_of (cc_map c) key \<noteq> None
      then (map_of (cc_map c) key,
            c\<lparr>cc_order := filter (\<lambda>k. k \<noteq> key) (cc_order c) @ [key], cc_hits := cc_hits c + 1\<rparr>)
      else (None, c\<lparr>cc_misses := cc_misses c + 1\<rparr>))"

definition cache_len :: "'e completion_cache \<Rightarrow> nat" where
  "cache_len c = length (cc_map c)"

definition cache_is_empty :: "'e completion_cache \<Rightarrow> bool" where
  "cache_is_empty c \<longleftrightarrow> cc_map c = []"

definition cache_insert :: "string \<Rightarrow> 'e \<Rightarrow> 'e completion_cache \<Rightarrow> 'e completion_cache" where
  "cache_insert key entry c =
     (let c1 =
        (if map_of (cc_map c) key \<noteq> None then c\<lparr>cc_order := filter (\<lambda>k. k \<noteq> key) (cc_order c)\<rparr>
         else if cache_len c \<ge> cc_capacity c
         then (case cc_order c of
                 [] \<Rightarrow> c
               | evict # rest \<Rightarrow> c\<lparr>cc_order := rest, cc_map := AList.delete evict (cc_map c)\<rparr>)
         else c)
      in c1\<lparr>cc_order := cc_order c1 @ [key], cc_map := AList.update key entry (cc_map c1)\<rparr>)"

section \<open>The prompt\<close>

definition FIM_PREFIX_TOKEN :: string where "FIM_PREFIX_TOKEN = ''<|fim_prefix|>''"
definition FIM_SUFFIX_TOKEN :: string where "FIM_SUFFIX_TOKEN = ''<|fim_suffix|>''"
definition FIM_MIDDLE_TOKEN :: string where "FIM_MIDDLE_TOKEN = ''<|fim_middle|>''"

definition file_ext :: "string \<Rightarrow> string" where
  "file_ext file_path = or_default (path_extension file_path) []"

definition pick_label :: "(string list \<times> string) list \<Rightarrow> string \<Rightarrow> string" where
  "pick_label table ext = (case find (\<lambda>(exts, _). ext \<in> set exts) table of Some (_, l) \<Rightarrow> l | None \<Rightarrow> ''plaintext'')"

definition detect_language :: "string \<Rightarrow> string" where
  "detect_language file_path = pick_label
     [([''rs''], ''Rust''), ([''ts'', ''tsx''], ''TypeScript''), ([''js'', ''jsx'', ''mjs'', ''cjs''], ''JavaScript''),
      ([''dart''], ''Dart''), ([''py'', ''pyw''], ''Python''), ([''go''], ''Go''), ([''java''], ''Java''), ([''kt'', ''kts''], ''Kotlin''),
      ([''swift''], ''Swift''), ([''c'', ''h''], ''C''), ([''cpp'', ''cc'', ''cxx'', ''hpp'', ''hxx''], ''C++''), ([''cs''], ''C#''),
      ([''rb''], ''Ruby''), ([''php''], ''PHP''), ([''html'', ''htm''], ''HTML''), ([''css'', ''scss'', ''sass'', ''less''], ''CSS''),
      ([''sql''], ''SQL''), ([''sh'', ''bash'', ''zsh''], ''Shell''), ([''toml''], ''TOML''), ([''yaml'', ''yml''], ''YAML''),
      ([''json'', ''jsonc''], ''JSON''), ([''md'', ''mdx''], ''Markdown''), ([''lua''], ''Lua''), ([''r''], ''R''), ([''ex'', ''exs''], ''Elixir''),
      ([''hs''], ''Haskell'')] (file_ext file_path)"

definition build_fim_prompt :: "string \<Rightarrow> string \<Rightarrow> string \<Rightarrow> string" where
  "build_fim_prompt pre suf file_path =
     ''Complete the missing code. Language: '' @ detect_language file_path @
     ''. Return ONLY the inserted text - no markdown fences, no explanation.'' @ [NL] @
     FIM_PREFIX_TOKEN @ pre @ FIM_SUFFIX_TOKEN @ suf @ FIM_MIDDLE_TOKEN"

definition truncate_prefix :: "string \<Rightarrow> nat \<Rightarrow> string option" where
  "truncate_prefix s max_len = last_bytes max_len s"

definition truncate_suffix :: "string \<Rightarrow> nat \<Rightarrow> string option" where
  "truncate_suffix s max_len = first_bytes max_len s"

definition extract_completion_text :: "string \<Rightarrow> string" where
  "extract_completion_text raw =
     (let trimmed = trim raw in
      case strip_prefix trimmed ''```'' of
        None \<Rightarrow> trimmed
      | Some after_fence \<Rightarrow>
          let body = (if NL \<in> set after_fence then tl (dropWhile (\<lambda>c. c \<noteq> NL) after_fence) else after_fence)
          in (case rfind (NL # ''```'') body of
                Some e \<Rightarrow> take e body
              | None \<Rightarrow> or_default (strip_suffix body ''```'') body))"

section \<open>The context of the file\<close>

definition MAX_CONTEXT_CHARS :: nat where
  "MAX_CONTEXT_CHARS = 2048"

definition is_import_line :: "string \<Rightarrow> string \<Rightarrow> bool" where
  "is_import_line line ext =
     (let trimmed = trim line in
      if ext = ''rs'' then starts_with trimmed ''use ''
      else if ext \<in> {''ts'', ''tsx'', ''js'', ''jsx'', ''mjs''}
      then starts_with trimmed ''import '' \<or> starts_with trimmed ''const '' \<and> contains trimmed ''require(''
      else if ext = ''dart'' then starts_with trimmed ''import ''
      else if ext \<in> {''py'', ''pyw''} then starts_with trimmed ''import '' \<or> starts_with trimmed ''from ''
      else if ext = ''go'' then starts_with trimmed ''import ''
      else if ext \<in> {''java'', ''kt'', ''kts''} then starts_with trimmed ''import ''
      else if ext = ''cs'' then starts_with trimmed ''using ''
      else if ext \<in> {''cpp'', ''cc'', ''cxx'', ''c'', ''h'', ''hpp''} then starts_with trimmed ''#include''
      else if ext = ''php'' then starts_with trimmed ''use '' \<or> starts_with trimmed ''require''
      else if ext = ''rb'' then starts_with trimmed ''require''
      else False)"

definition is_definition_line :: "string \<Rightarrow> string \<Rightarrow> bool" where
  "is_definition_line line ext =
     (let begins = list_ex (starts_with line) in
      if ext = ''rs''
      then begins [''pub fn '', ''fn '', ''pub struct '', ''struct '', ''pub enum '', ''enum '', ''impl '', ''pub impl '', ''trait '', ''pub trait '']
      else if ext \<in> {''ts'', ''tsx'', ''js'', ''jsx''}
      then begins [''function '', ''async function '', ''export function '', ''export async function '', ''class '', ''export class '',
             ''export default ''] \<or> starts_with line ''const '' \<and> contains line ''=>''
      else if ext = ''dart''
      then begins [''class '', ''abstract class '', ''mixin '', ''extension ''] \<or>
           CHR ''('' \<in> set line \<and> \<not> starts_with line ''//'' \<and> \<not> starts_with line ''*''
      else if ext \<in> {''py'', ''pyw''} then begins [''def '', ''async def '', ''class '']
      else if ext = ''go'' then begins [''func '', ''type '']
      else if ext \<in> {''java'', ''kt'', ''kts''} then list_ex (contains line) [''class '', ''fun '', ''void '', ''interface '']
      else False)"

text \<open>The loop from the cursor line backwards.\<close>

fun walk_back :: "(string \<Rightarrow> bool) \<Rightarrow> string list \<Rightarrow> nat \<Rightarrow> string option" where
  "walk_back p ls i =
     (if p (trim (ls ! i)) then Some (ls ! i) else case i of 0 \<Rightarrow> None | Suc j \<Rightarrow> walk_back p ls j)"

declare walk_back.simps [simp del]

definition nearest_definition :: "string list \<Rightarrow> nat \<Rightarrow> string \<Rightarrow> string option" where
  "nearest_definition ls cursor_line ext =
     (if ls = [] then None
      else walk_back (\<lambda>l. is_definition_line l ext) ls (min cursor_line (length ls - 1)))"

definition extract_context :: "string \<Rightarrow> nat \<Rightarrow> string \<Rightarrow> string option" where
  "extract_context file_content cursor_line file_path =
     (let ext = file_ext file_path; ls = lines file_content;
          import_lines = filter (\<lambda>l. is_import_line l ext) ls;
          parts = (if import_lines \<noteq> [] then [join [NL] import_lines] else []) @
            (case nearest_definition ls (min cursor_line (length ls - 1)) ext of Some sig \<Rightarrow> [sig] | None \<Rightarrow> [])
      in if parts = [] then Some []
         else map_option (\<lambda>truncated. ''// Context:'' @ [NL] @ truncated @ [NL] @ ''// End context'' @ [NL])
                (first_bytes MAX_CONTEXT_CHARS (join [NL] parts)))"

section \<open>The calls\<close>

record insertion =
  in_text :: string
  in_start_line :: u64
  in_end_line :: u64

record cache_entry =
  ce_insertions :: "insertion list"
  ce_created_at :: timestamp

record completion_response =
  cr_insertions :: "insertion list"
  cr_source :: string

record completion_params =
  cp_file_path :: string
  cp_prefix :: string
  cp_suffix :: string
  cp_cursor_line :: u64
  cp_file_content :: string
  cp_session_id :: string

record completion_env =
  cv_sha :: "u8 list \<Rightarrow> string"
  cv_now :: timestamp
  cv_send :: "string \<Rightarrow> string \<Rightarrow> (string, string) result"
  cv_session_exists :: "string \<Rightarrow> bool"

definition MAX_PREFIX :: nat where "MAX_PREFIX = 4096"
definition MAX_SUFFIX :: nat where "MAX_SUFFIX = 2048"

definition new_insertion :: "string \<Rightarrow> u64 \<Rightarrow> insertion" where
  "new_insertion completion_text cursor_line =
     (let line_count = max (length (lines completion_text)) 1
      in \<lparr>in_text = completion_text, in_start_line = cursor_line, in_end_line = cursor_line + of_nat line_count - 1\<rparr>)"

definition completion_prompt :: "completion_params \<Rightarrow> string option" where
  "completion_prompt p =
     (case truncate_prefix (cp_prefix p) MAX_PREFIX of
        None \<Rightarrow> None
      | Some pre \<Rightarrow>
          (case truncate_suffix (cp_suffix p) MAX_SUFFIX of
             None \<Rightarrow> None
           | Some suf \<Rightarrow>
               map_option (\<lambda>context_block.
                   if context_block = [] then build_fim_prompt pre suf (cp_file_path p)
                   else context_block @ [NL] @ build_fim_prompt pre suf (cp_file_path p))
                 (if cp_file_content p \<noteq> [] then extract_context (cp_file_content p) (unat (cp_cursor_line p)) (cp_file_path p) else Some [])))"

definition complete ::
  "completion_env \<Rightarrow> completion_params \<Rightarrow> cache_entry completion_cache \<Rightarrow>
   ((completion_response, string) result \<times> cache_entry completion_cache) option" where
  "complete env p c =
     (case cache_key (cv_sha env) (cp_prefix p) (cp_suffix p) of
        None \<Rightarrow> None
      | Some key \<Rightarrow>
          (case cache_get key c of
             (Some entry, c1) \<Rightarrow> Some (Ok \<lparr>cr_insertions = ce_insertions entry, cr_source = ''cache''\<rparr>, c1)
           | (None, c1) \<Rightarrow>
               map_option (\<lambda>fim_prompt.
                 if cp_session_id p = [] then (Ok \<lparr>cr_insertions = [], cr_source = ''no_session''\<rparr>, c1)
                 else case cv_send env (cp_session_id p) fim_prompt of
                     Err e \<Rightarrow> (Err (''provider error: '' @ e), c1)
                   | Ok response_text \<Rightarrow>
                       let i = new_insertion (extract_completion_text response_text) (cp_cursor_line p)
                       in (Ok \<lparr>cr_insertions = [i], cr_source = ''provider''\<rparr>,
                           cache_insert key \<lparr>ce_insertions = [i], ce_created_at = cv_now env\<rparr> c1))
               (completion_prompt p)))"

text \<open>The other call, without the cache and with a prompt and a language table of its own.\<close>

definition suggest_language :: "string \<Rightarrow> string" where
  "suggest_language file_path = pick_label
     [([''rs''], ''Rust''), ([''ts'', ''tsx''], ''TypeScript''), ([''js'', ''jsx'', ''mjs''], ''JavaScript''), ([''dart''], ''Dart''),
      ([''py''], ''Python''), ([''go''], ''Go''), ([''java''], ''Java''), ([''kt'', ''kts''], ''Kotlin''), ([''swift''], ''Swift''), ([''c'', ''h''], ''C''),
      ([''cpp'', ''cc'', ''cxx'', ''hpp''], ''C++''), ([''cs''], ''C#''), ([''rb''], ''Ruby''), ([''php''], ''PHP''), ([''html'', ''htm''], ''HTML''),
      ([''css'', ''scss'', ''sass''], ''CSS''), ([''sql''], ''SQL''), ([''sh'', ''bash''], ''Shell''), ([''toml''], ''TOML''), ([''yaml'', ''yml''], ''YAML''),
      ([''json''], ''JSON''), ([''md'', ''mdx''], ''Markdown'')] (file_ext file_path)"

definition suggest_prompt :: "string \<Rightarrow> string \<Rightarrow> string \<Rightarrow> string" where
  "suggest_prompt pre suf file_path =
     ''You are a code completion engine. Complete the missing code between the prefix and suffix. '' @
     ''Return ONLY the completion text - no explanation, no markdown fences, no extra whitespace before or after.'' @ [NL] @
     ''Language: '' @ suggest_language file_path @ [NL, NL] @
     ''<fim_prefix>'' @ pre @ ''<fim_suffix>'' @ suf @ ''<fim_middle>''"

definition suggest_completion :: "completion_env \<Rightarrow> completion_params \<Rightarrow> (insertion \<times> nat, string) result option" where
  "suggest_completion env p =
     (if cp_session_id p = [] then Some (Err ''invalid type: sessionId must not be empty'')
      else if \<not> cv_session_exists env (cp_session_id p)
      then Some (Err (''SESSION_NOT_FOUND: session '' @ quoted (cp_session_id p) @ '' not found''))
      else case last_bytes 4000 (cp_prefix p) of
          None \<Rightarrow> None
        | Some pre \<Rightarrow>
            map_option (\<lambda>suf.
              case cv_send env (cp_session_id p) (suggest_prompt pre suf (cp_file_path p)) of
                Err e \<Rightarrow> Err e
              | Ok content \<Rightarrow>
                  let text = extract_completion_text content
                  in Ok (new_insertion text (cp_cursor_line p), max (length (lines text)) 1))
            (first_bytes 2000 (cp_suffix p)))"

end
