(* ===== verification/Completion_Props.thy ===== *)
theory Completion_Props
  imports Completion
begin

text \<open>
  Code completion: the cache holds exactly the most recently used keys and answers with the value stored last, a fenced
  answer is unwrapped to its body, the context names the nearest definition, and what the cache key leaves out.
\<close>

section \<open>The contract of a cache\<close>

text \<open>A history of uses: a lookup is \<open>(k, None)\<close>, an insertion \<open>(k, Some v)\<close>.\<close>

fun run_uses :: "('k \<Rightarrow> 's \<Rightarrow> 'v option \<times> 's) \<Rightarrow> ('k \<Rightarrow> 'v \<Rightarrow> 's \<Rightarrow> 's) \<Rightarrow> ('k \<times> 'v option) list \<Rightarrow> 's \<Rightarrow> 's" where
  "run_uses lookup store [] s = s"
| "run_uses lookup store ((k, None) # us) s = run_uses lookup store us (snd (lookup k s))"
| "run_uses lookup store ((k, Some v) # us) s = run_uses lookup store us (store k v s)"

definition last_stored :: "('k \<times> 'v option) list \<Rightarrow> 'k \<Rightarrow> 'v option" where
  "last_stored us k = (case filter (\<lambda>(j, v). j = k \<and> v \<noteq> None) us of [] \<Rightarrow> None | xs \<Rightarrow> snd (last xs))"

lemma last_stored_snoc: "last_stored (us @ [(j, v)]) k = (if j = k \<and> v \<noteq> None then v else last_stored us k)"
  by (auto simp: last_stored_def split: list.split)

lemma run_uses_append: "run_uses lookup store (us @ vs) s = run_uses lookup store vs (run_uses lookup store us s)"
  by (induction lookup store us s rule: run_uses.induct) simp_all

text \<open>What a user of a bounded cache relies on: a state is well formed, a lookup does not change the contents, an insertion
  stores its value and otherwise only forgets.\<close>

locale bounded_cache =
  fixes ok :: "'s \<Rightarrow> bool" and lookup :: "'k \<Rightarrow> 's \<Rightarrow> 'v option \<times> 's" and store :: "'k \<Rightarrow> 'v \<Rightarrow> 's \<Rightarrow> 's"
    and contents :: "'s \<Rightarrow> 'k \<Rightarrow> 'v option" and bound :: "'s \<Rightarrow> nat"
  assumes lookup_ok: "ok s \<Longrightarrow> ok (snd (lookup k s))"
    and store_ok: "ok s \<Longrightarrow> ok (store k v s)"
    and lookup_value: "ok s \<Longrightarrow> fst (lookup k s) = contents s k"
    and lookup_contents: "ok s \<Longrightarrow> contents (snd (lookup k s)) = contents s"
    and store_same: "ok s \<Longrightarrow> contents (store k v s) k = Some v"
    and store_other: "ok s \<Longrightarrow> j \<noteq> k \<Longrightarrow> contents (store k v s) j \<in> {contents s j, None}"
    and size_bound: "ok s \<Longrightarrow> finite (dom (contents s)) \<and> card (dom (contents s)) \<le> bound s"
    and bound_lookup: "bound (snd (lookup k s)) = bound s"
    and bound_store: "bound (store k v s) = bound s"
begin

abbreviation uses :: "('k \<times> 'v option) list \<Rightarrow> 's \<Rightarrow> 's" where
  "uses \<equiv> run_uses lookup store"

lemma uses_ok: "ok s \<Longrightarrow> ok (uses us s) \<and> bound (uses us s) = bound s"
proof (induction us arbitrary: s)
  case (Cons u us)
  then show ?case by (cases u; cases "snd u") (auto simp: lookup_ok store_ok bound_lookup bound_store)
qed simp

lemma uses_contents:
  assumes "ok s" and "contents s = Map.empty"
  shows "contents (uses us s) k = Some v \<Longrightarrow> last_stored us k = Some v"
proof (induction us rule: rev_induct)
  case Nil
  with assms show ?case by simp
next
  case (snoc u us)
  obtain j w where u: "u = (j, w)" by (cases u)
  have ok: "ok (uses us s)" using uses_ok [OF assms(1)] by blast
  show ?case
  proof (cases w)
    case None
    with snoc u ok show ?thesis by (simp add: run_uses_append lookup_contents last_stored_snoc)
  next
    case (Some x)
    show ?thesis
    proof (cases "j = k")
      case True
      with snoc.prems u Some ok show ?thesis by (simp add: run_uses_append store_same last_stored_snoc)
    next
      case False
      then have "contents (uses us s) k = Some v"
        using snoc.prems u Some store_other [OF ok, of k j x] by (auto simp: run_uses_append)
      with snoc.IH False u show ?thesis by (simp add: last_stored_snoc)
    qed
  qed
qed

text \<open>A hit is the value stored last under the key, and the bound holds.\<close>

lemma hit_is_last_stored:
  assumes "ok s" and "contents s = Map.empty"
  shows "(fst (lookup k (uses us s)) = Some v \<longrightarrow> last_stored us k = Some v) \<and> card (dom (contents (uses us s))) \<le> bound s"
  using uses_contents [OF assms] uses_ok [OF assms(1)] lookup_value size_bound by metis

end

section \<open>The completion cache\<close>

definition cache_ok :: "'e completion_cache \<Rightarrow> bool" where
  "cache_ok c \<longleftrightarrow> distinct (cc_order c) \<and> distinct (map fst (cc_map c)) \<and> set (cc_order c) = fst ` set (cc_map c) \<and>
     length (cc_map c) \<le> max 1 (cc_capacity c)"

lemma cache_ok_len: "cache_ok c \<Longrightarrow> length (cc_order c) = length (cc_map c)"
  unfolding cache_ok_def by (metis distinct_card length_map set_map)

lemma new_cache_ok [simp]: "cache_ok (new_cache n)"
  by (simp add: cache_ok_def new_cache_def)

lemma map_of_None_order: "cache_ok c \<Longrightarrow> map_of (cc_map c) k = None \<longleftrightarrow> k \<notin> set (cc_order c)"
  by (simp add: cache_ok_def map_of_eq_None_iff)

lemma cache_get_ok: "cache_ok c \<Longrightarrow> cache_ok (snd (cache_get k c))"
  using map_of_None_order [of c k] by (auto simp: cache_get_def cache_ok_def)

lemma length_update: "length (AList.update k v m) = (if k \<in> fst ` set m then length m else Suc (length m))"
  using arg_cong [OF AList.update_keys [of k v m], of length] by simp

lemma length_delete: "k \<in> fst ` set m \<Longrightarrow> distinct (map fst m) \<Longrightarrow> length (AList.delete k m) = length m - 1"
  using arg_cong [OF AList.delete_keys [of k m], of length] length_remove1 [of k "map fst m"]
  by (simp add: distinct_remove1_removeAll)

lemma keys_delete: "fst ` set (AList.delete k m) = fst ` set m - {k}"
  using arg_cong [OF AList.delete_keys [of k m], of set] by simp

lemmas alist_simps = length_update length_delete keys_delete AList.dom_update AList.distinct_update AList.distinct_delete

text \<open>The two cases of an insertion: the key is known, or it takes the place of the oldest one.\<close>

lemma cache_insert_known:
  "map_of (cc_map c) k \<noteq> None \<Longrightarrow> cache_insert k v c =
     c\<lparr>cc_order := filter (\<lambda>j. j \<noteq> k) (cc_order c) @ [k], cc_map := AList.update k v (cc_map c)\<rparr>"
  by (simp add: cache_insert_def)

lemma cache_insert_new:
  assumes "cache_ok c" and "map_of (cc_map c) k = None" and "0 < cc_capacity c"
  shows "cache_insert k v c =
    (if length (cc_order c) < cc_capacity c then c\<lparr>cc_order := cc_order c @ [k], cc_map := AList.update k v (cc_map c)\<rparr>
     else c\<lparr>cc_order := tl (cc_order c) @ [k], cc_map := AList.update k v (AList.delete (hd (cc_order c)) (cc_map c))\<rparr>)"
proof (cases "cc_order c")
  case Nil
  then have "cc_map c = []" using assms(1) by (simp add: cache_ok_def)
  with Nil assms show ?thesis by (simp add: cache_insert_def cache_len_def)
next
  case (Cons e rest)
  then show ?thesis using assms cache_ok_len [OF assms(1)] by (simp add: cache_insert_def cache_len_def not_less)
qed

lemma cache_insert_ok:
  assumes "cache_ok c"
  shows "cache_ok (cache_insert k v c)"
proof (cases "map_of (cc_map c) k = None")
  case known: False
  then have "k \<in> fst ` set (cc_map c)" by (simp add: map_of_eq_None_iff)
  with known assms show ?thesis by (auto simp: cache_insert_known cache_ok_def alist_simps)
next
  case new: True
  then have k: "k \<notin> set (cc_order c)" "k \<notin> fst ` set (cc_map c)" using map_of_None_order [OF assms] by (auto simp: map_of_eq_None_iff)
  have len: "length (cc_order c) = length (cc_map c)" by (rule cache_ok_len [OF assms])
  show ?thesis
  proof (cases "cc_order c")
    case Nil
    with new k assms len show ?thesis by (auto simp: cache_insert_def cache_ok_def cache_len_def alist_simps)
  next
    case (Cons e rest)
    with assms have "e \<in> fst ` set (cc_map c)" by (auto simp: cache_ok_def)
    with new k assms len Cons show ?thesis
      by (auto simp: cache_insert_def cache_ok_def cache_len_def alist_simps)
  qed
qed

lemma cache_insert_contents:
  "map_of (cc_map (cache_insert k v c)) = (map_of (cc_map c))(k \<mapsto> v) \<or>
   (\<exists>e. map_of (cc_map (cache_insert k v c)) = (map_of (cc_map c))(e := None, k \<mapsto> v))"
  by (auto simp: cache_insert_def Let_def AList.update_conv' AList.delete_conv' split: list.split)

interpretation cc: bounded_cache cache_ok cache_get cache_insert "\<lambda>c. map_of (cc_map c)" "\<lambda>c. max 1 (cc_capacity c)"
proof unfold_locales
  fix c :: "'e completion_cache" and k j v
  show "cache_ok c \<Longrightarrow> cache_ok (snd (cache_get k c))" by (rule cache_get_ok)
  show "cache_ok c \<Longrightarrow> cache_ok (cache_insert k v c)" by (rule cache_insert_ok)
  show "fst (cache_get k c) = map_of (cc_map c) k" by (simp add: cache_get_def)
  show "map_of (cc_map (snd (cache_get k c))) = map_of (cc_map c)" by (simp add: cache_get_def)
  show "map_of (cc_map (cache_insert k v c)) k = Some v" using cache_insert_contents [of k v c] by auto
  show "j \<noteq> k \<Longrightarrow> map_of (cc_map (cache_insert k v c)) j \<in> {map_of (cc_map c) j, None}"
    using cache_insert_contents [of k v c] by (auto split: if_splits)
  show "max 1 (cc_capacity (snd (cache_get k c))) = max 1 (cc_capacity c)" by (simp add: cache_get_def)
  show "max 1 (cc_capacity (cache_insert k v c)) = max 1 (cc_capacity c)"
    by (simp add: cache_insert_def Let_def split: list.split)
  assume "cache_ok c"
  then have "length (cc_map c) \<le> max 1 (cc_capacity c)" by (simp add: cache_ok_def)
  moreover have "card (fst ` set (cc_map c)) \<le> length (cc_map c)" by (metis card_length length_map set_map)
  ultimately show "finite (dom (map_of (cc_map c))) \<and> card (dom (map_of (cc_map c))) \<le> max 1 (cc_capacity c)"
    by (simp add: dom_map_of_conv_image_fst)
qed

text \<open>The completion cache from its start, over every history of lookups and insertions: a hit is the value inserted last
  under that key, and the number of entries stays within the capacity.\<close>

theorem cache_hit_is_last_insert:
  "(fst (cache_get k (run_uses cache_get cache_insert us (new_cache n))) = Some v \<longrightarrow> last_stored us k = Some v) \<and>
   card (dom (map_of (cc_map (run_uses cache_get cache_insert us (new_cache n))))) \<le> max 1 n"
  using cc.hit_is_last_stored [of "new_cache n" k us v] by (simp add: new_cache_def cache_ok_def)

section \<open>Which keys are kept\<close>

text \<open>A use of a key as \<^verbatim>\<open>complete\<close> makes it: a lookup, and after a miss an insertion.\<close>

definition touch :: "string \<Rightarrow> 'e \<Rightarrow> 'e completion_cache \<Rightarrow> 'e completion_cache" where
  "touch k v c = (case cache_get k c of (Some _, c1) \<Rightarrow> c1 | (None, c1) \<Rightarrow> cache_insert k v c1)"

fun touch_all :: "(string \<times> 'e) list \<Rightarrow> 'e completion_cache \<Rightarrow> 'e completion_cache" where
  "touch_all [] c = c"
| "touch_all ((k, v) # us) c = touch_all us (touch k v c)"

lemma touch_all_snoc: "touch_all (us @ [(k, v)]) c = touch k v (touch_all us c)"
  by (induction us c rule: touch_all.induct) simp_all

lemma cache_insert_capacity [simp]: "cc_capacity (cache_insert k v c) = cc_capacity c"
  by (simp add: cache_insert_def Let_def split: list.split)

lemma touch_cases:
  "touch k v c = (case map_of (cc_map c) k of
     Some _ \<Rightarrow> c\<lparr>cc_order := filter (\<lambda>j. j \<noteq> k) (cc_order c) @ [k], cc_hits := cc_hits c + 1\<rparr>
   | None \<Rightarrow> cache_insert k v (c\<lparr>cc_misses := cc_misses c + 1\<rparr>))"
  by (simp add: touch_def cache_get_def split: option.split)

lemma touch_ok:
  assumes "cache_ok c"
  shows "cache_ok (touch k v c) \<and> cc_capacity (touch k v c) = cc_capacity c"
proof (cases "map_of (cc_map c) k")
  case None
  moreover have "cache_ok (c\<lparr>cc_misses := cc_misses c + 1\<rparr>)" using assms by (simp add: cache_ok_def)
  ultimately show ?thesis by (simp add: touch_cases cache_insert_ok)
next
  case (Some x)
  then show ?thesis using cache_get_ok [OF assms, of k] by (simp add: touch_cases cache_get_def)
qed

definition last_n :: "nat \<Rightarrow> 'a list \<Rightarrow> 'a list" where
  "last_n n xs = drop (length xs - n) xs"

lemma last_n_snoc: "0 < n \<Longrightarrow> last_n n (xs @ [x]) = last_n (n - 1) xs @ [x]"
  by (cases n) (auto simp: last_n_def)

lemma last_n_all: "length xs \<le> n \<Longrightarrow> last_n n xs = xs"
  by (simp add: last_n_def)

lemma last_n_tl: "n \<le> length xs \<Longrightarrow> 0 < n \<Longrightarrow> last_n (n - 1) xs = tl (last_n n xs)"
  by (simp add: last_n_def tl_drop drop_Suc [symmetric] Suc_diff_le)

lemma last_n_removeAll_older:
  assumes "k \<notin> set (last_n n xs)"
  shows "last_n n (removeAll k xs) = last_n n xs"
proof -
  let ?a = "take (length xs - n) xs" and ?b = "drop (length xs - n) xs"
  have "removeAll k xs = removeAll k ?a @ ?b"
    using assms by (subst append_take_drop_id [of "length xs - n", symmetric]) (simp del: append_take_drop_id add: last_n_def)
  moreover have "length (removeAll k ?a) + length ?b - n = length (removeAll k ?a)"
  proof (cases "n \<le> length xs")
    case False
    then show ?thesis by simp
  qed simp
  ultimately show ?thesis by (simp add: last_n_def)
qed

lemma last_n_removeAll_recent:
  assumes "k \<in> set (last_n n xs)" and "distinct xs"
  shows "last_n (n - 1) (removeAll k xs) = removeAll k (last_n n xs)"
proof -
  let ?m = "length xs - n"
  let ?a = "take ?m xs" and ?b = "drop ?m xs"
  have k: "k \<in> set ?b" "k \<notin> set ?a" "distinct ?b"
    using assms by (auto simp: last_n_def dest: in_set_takeD) (metis append_take_drop_id disjoint_iff distinct_append)
  have "removeAll k xs = ?a @ removeAll k ?b"
    using k(2) by (subst append_take_drop_id [of ?m, symmetric]) (simp del: append_take_drop_id)
  moreover have "length (removeAll k ?b) = length ?b - 1"
    using k length_remove1 [of k ?b] by (simp add: distinct_remove1_removeAll)
  moreover have "0 < length ?b" using k(1) by (cases ?b) auto
  ultimately show ?thesis by (auto simp: last_n_def)
qed

lemma remdups_snoc: "remdups (us @ [k]) = removeAll k (remdups us) @ [k]"
  by (induction us) auto

lemma touch_order:
  assumes "cache_ok c" and "0 < cc_capacity c" and "cc_order c = last_n (cc_capacity c) (remdups us)"
  shows "cc_order (touch k v c) = last_n (cc_capacity c) (remdups (us @ [k]))"
proof (cases "k \<in> set (cc_order c)")
  case True
  then obtain x where "map_of (cc_map c) k = Some x" using map_of_None_order [OF assms(1)] by blast
  then have "cc_order (touch k v c) = removeAll k (cc_order c) @ [k]"
    by (simp add: touch_cases removeAll_filter_not_eq) (metis (mono_tags, lifting) filter_cong)
  also have "\<dots> = last_n (cc_capacity c) (remdups (us @ [k]))"
    using True assms(2) last_n_removeAll_recent [of k "cc_capacity c" "remdups us"] by (simp add: assms(3) remdups_snoc last_n_snoc)
  finally show ?thesis .
next
  case False
  let ?n = "cc_capacity c" and ?c = "c\<lparr>cc_misses := cc_misses c + 1\<rparr>"
  have none: "map_of (cc_map c) k = None" using False map_of_None_order [OF assms(1)] by blast
  have "cache_ok ?c" using assms(1) by (simp add: cache_ok_def)
  then have "cc_order (touch k v c) = (if length (cc_order c) < ?n then cc_order c else tl (cc_order c)) @ [k]"
    using none cache_insert_new [of ?c k v] assms(2) by (simp add: touch_cases)
  moreover have "last_n (?n - 1) (removeAll k (remdups us)) = last_n (?n - 1) (remdups us)"
  proof (rule last_n_removeAll_older)
    have "set (last_n (?n - 1) (remdups us)) \<subseteq> set (last_n ?n (remdups us))"
      by (simp add: last_n_def set_drop_subset_set_drop)
    with False assms(3) show "k \<notin> set (last_n (?n - 1) (remdups us))" by auto
  qed
  moreover have "last_n (?n - 1) (remdups us) = (if length (cc_order c) < ?n then cc_order c else tl (cc_order c))"
  proof (cases "?n \<le> length (remdups us)")
    case True
    then have "length (cc_order c) = ?n" by (simp add: assms(3) last_n_def)
    with last_n_tl [OF True assms(2)] assms(3) show ?thesis by simp
  next
    case shorter: False
    then show ?thesis using assms(2,3) by (simp add: last_n_def)
  qed
  ultimately show ?thesis using assms(2) by (simp add: remdups_snoc last_n_snoc)
qed

text \<open>C20: The keys the cache holds, in the order of eviction, after any sequence of uses: the most recently used different
  keys, as many as the capacity.\<close>

theorem cache_keeps_recent_keys:
  assumes "0 < n"
  shows "cc_order (touch_all us (new_cache n)) = last_n n (remdups (map fst us)) \<and>
    dom (map_of (cc_map (touch_all us (new_cache n)))) = set (last_n n (remdups (map fst us)))"
proof -
  have "cache_ok (touch_all us (new_cache n)) \<and> cc_capacity (touch_all us (new_cache n)) = n \<and>
    cc_order (touch_all us (new_cache n)) = last_n n (remdups (map fst us))"
  proof (induction us rule: rev_induct)
    case Nil
    show ?case by (simp add: new_cache_def cache_ok_def last_n_def)
  next
    case (snoc u us)
    obtain k v where u: "u = (k, v)" by (cases u)
    from snoc assms touch_ok [of "touch_all us (new_cache n)" k v] touch_order [of "touch_all us (new_cache n)" "map fst us" k v]
    show ?case by (simp add: u touch_all_snoc)
  qed
  then have "cc_order (touch_all us (new_cache n)) = last_n n (remdups (map fst us))" "cache_ok (touch_all us (new_cache n))" by simp_all
  then show ?thesis using map_of_None_order [of "touch_all us (new_cache n)"] by (auto simp: dom_def)
qed

theorem cache_keeps_recent_keys_witness:
  "cc_order (touch_all [(''a'', 1), (''b'', 2), (''a'', 3), (''c'', 4 :: nat)] (new_cache 2)) = [''a'', ''c'']"
  using cache_keeps_recent_keys [of 2 "[(''a'', 1), (''b'', 2), (''a'', 3), (''c'', 4 :: nat)]"] by (simp add: last_n_def)

section \<open>Answers of a provider\<close>

lemma trim_fixed:
  assumes "s \<noteq> []" and "\<not> is_whitespace (hd s)" and "\<not> is_whitespace (last s)"
  shows "trim s = s"
proof -
  have "dropWhile is_whitespace xs = xs" if "xs \<noteq> []" "\<not> is_whitespace (hd xs)" for xs using that by (cases xs) simp_all
  then show ?thesis using assms by (simp add: trim_def trim_start_def trim_end_def hd_rev)
qed

lemma rfind_short: "length s < length p \<Longrightarrow> rfind p s = None"
  by (induction s) (auto dest: prefix_length_le)

lemma rfind_last: "p \<noteq> [] \<Longrightarrow> rfind p (s @ p) = Some (length s)"
proof (induction s)
  case Nil
  then show ?case by (cases p) (simp_all add: rfind_short)
qed simp

text \<open>The body of a fenced answer, whatever it contains, also fences of its own: the first line and the last fence are
  taken off, and nothing else.\<close>

theorem fenced_answer_unwrapped:
  assumes "NL \<notin> set lang"
  shows "extract_completion_text (''```'' @ lang @ [NL] @ body @ [NL] @ ''```'') = body"
proof -
  have t: "trim (''```'' @ lang @ [NL] @ body @ [NL] @ ''```'') = ''```'' @ lang @ [NL] @ body @ [NL] @ ''```''"
    by (rule trim_fixed) (simp_all add: is_whitespace_def)
  have "dropWhile (\<lambda>c. c \<noteq> NL) (lang @ [NL] @ body @ [NL] @ ''```'') = [NL] @ body @ [NL] @ ''```''"
    using assms by (subst dropWhile_append2) auto
  moreover have "rfind (NL # ''```'') (body @ NL # ''```'') = Some (length body)" by (rule rfind_last) simp
  ultimately show ?thesis unfolding extract_completion_text_def t by (simp add: strip_prefix_def Let_def)
qed

theorem fenced_answer_unwrapped_witness:
  "extract_completion_text (''```rust'' @ [NL] @ ''a'' @ [NL] @ ''```'' @ [NL] @ ''b'' @ [NL] @ ''```'') = ''a'' @ [NL] @ ''```'' @ [NL] @ ''b''"
  using fenced_answer_unwrapped [of "''rust''" "''a'' @ [NL] @ ''```'' @ [NL] @ ''b''"] by simp

section \<open>The nearest definition\<close>

lemma walk_back_spec:
  "walk_back p ls i = Some l \<longleftrightarrow> (\<exists>j \<le> i. l = ls ! j \<and> p (trim (ls ! j)) \<and> (\<forall>m. j < m \<and> m \<le> i \<longrightarrow> \<not> p (trim (ls ! m))))"
proof (induction i)
  case 0
  show ?case by (auto simp: walk_back.simps [of p ls 0])
next
  case (Suc i)
  show ?case
  proof (cases "p (trim (ls ! Suc i))")
    case True
    then show ?thesis by (auto simp: walk_back.simps [of p ls "Suc i"] intro: exI [of _ "Suc i"]) (metis le_neq_implies_less order_refl)
  next
    case False
    then have "walk_back p ls (Suc i) = walk_back p ls i" by (simp add: walk_back.simps [of p ls "Suc i"])
    with Suc.IH False show ?thesis by (auto simp: le_Suc_eq)
  qed
qed

text \<open>The definition the context names: the last line at or above the cursor, within the file, that looks like one.\<close>

theorem nearest_definition_spec:
  "nearest_definition ls cursor ext = Some l \<longleftrightarrow>
     (\<exists>j < length ls. j \<le> cursor \<and> l = ls ! j \<and> is_definition_line (trim (ls ! j)) ext \<and>
        (\<forall>m < length ls. j < m \<and> m \<le> cursor \<longrightarrow> \<not> is_definition_line (trim (ls ! m)) ext))"
proof (cases "ls = []")
  case False
  then have "m \<le> min cursor (length ls - 1) \<longleftrightarrow> m < length ls \<and> m \<le> cursor" for m by (cases ls) auto
  with False show ?thesis by (auto simp: nearest_definition_def walk_back_spec)
qed (simp add: nearest_definition_def)

section \<open>The call\<close>

text \<open>A hit answers with the lines of the request that filled the cache: the key covers neither the file nor the cursor, so
  the same text around the cursor at another place is answered with the old place.\<close>

theorem cached_completion_keeps_old_lines:
  assumes "complete env p c = Some (Ok r, c1)" and "cr_source r = ''provider''"
    and "cp_prefix q = cp_prefix p" and "cp_suffix q = cp_suffix p" and "cv_sha env' = cv_sha env"
  shows "\<exists>c2. complete env' q c1 = Some (Ok \<lparr>cr_insertions = cr_insertions r, cr_source = ''cache''\<rparr>, c2) \<and>
    map in_start_line (cr_insertions r) = [cp_cursor_line p]"
proof -
  obtain key where key: "cache_key (cv_sha env) (cp_prefix p) (cp_suffix p) = Some key"
    using assms(1) by (cases "cache_key (cv_sha env) (cp_prefix p) (cp_suffix p)") (simp_all add: complete_def)
  have "fst (cache_get key c) = None"
    using assms(1,2) key by (cases "cache_get key c"; cases "fst (cache_get key c)") (auto simp: complete_def)
  then obtain c0 where g: "cache_get key c = (None, c0)" by (metis prod.collapse)
  from assms(1,2) key g obtain t where
    r: "cr_insertions r = [new_insertion t (cp_cursor_line p)]" and
    c1: "c1 = cache_insert key \<lparr>ce_insertions = cr_insertions r, ce_created_at = cv_now env\<rparr> c0"
    by (auto simp: complete_def Let_def split: if_splits result.splits)
  have "map_of (cc_map c1) key = Some \<lparr>ce_insertions = cr_insertions r, ce_created_at = cv_now env\<rparr>"
    unfolding c1 using cache_insert_contents [of key "\<lparr>ce_insertions = cr_insertions r, ce_created_at = cv_now env\<rparr>" c0] by auto
  then have "\<exists>c2. cache_get key c1 = (Some \<lparr>ce_insertions = cr_insertions r, ce_created_at = cv_now env\<rparr>, c2)"
    by (simp add: cache_get_def)
  with key assms(3-5) r show ?thesis by (auto simp: complete_def new_insertion_def Let_def)
qed

text \<open>When the computation of the key panics: exactly if one of the cuts falls inside a character.\<close>

theorem cache_key_panics_iff:
  "cache_key sha pre suf = None \<longleftrightarrow>
     length pre > 512 \<and> \<not> is_char_boundary pre (length pre - 512) \<or> length suf > 128 \<and> \<not> is_char_boundary suf 128"
  by (auto simp: cache_key_def last_bytes_def first_bytes_def slice_from_def slice_to_def split: option.splits)

text \<open>A text of two-byte characters behind an odd number of one-byte characters makes it panic.\<close>

lemma cache_key_panics_sample:
  "cache_key sha (''x'' @ concat (replicate 256 [CHR 0xC3, CHR 0xA9]) @ ''y'') suf = None"
proof -
  let ?p = "''x'' @ concat (replicate 256 [CHR 0xC3, CHR 0xA9]) @ ''y''"
  have len: "length (concat (replicate n [CHR 0xC3, CHR 0xA9])) = 2 * n" for n by (induction n) simp_all
  have "concat (replicate 256 [CHR 0xC3, CHR 0xA9]) = [CHR 0xC3, CHR 0xA9] @ concat (replicate 255 [CHR 0xC3, CHR 0xA9])"
    using replicate_Suc [of 255 "[CHR 0xC3, CHR 0xA9]"] by simp
  then have "?p ! 2 = CHR 0xA9" by simp
  then have "\<not> is_char_boundary ?p 2" by (simp add: is_char_boundary_def len)
  then show ?thesis unfolding cache_key_panics_iff by (simp add: len)
qed

end
