(* ===== verification/Session_Store.thy ===== *)
theory Session_Store
  imports Task_Storage
begin

text \<open>
  The daemon's own tables (\<^verbatim>\<open>storage/mod.rs\<close> on the migrations \<^verbatim>\<open>001\<close> to \<^verbatim>\<open>048\<close>): sessions, messages, tool calls,
  the audit of tool calls, the context of a session, settings, the license cache, accounts and push tokens, with the
  full-text index that triggers keep beside the messages. Every operation takes the database and answers with its
  result and the database after it. Times are nanoseconds; the code stores them as RFC 3339 texts in UTC, which
  compare as the times do. New identifiers and the clock are arguments; statements fail by the constraints of the
  schema and not by timeouts.
\<close>

section \<open>Rows\<close>

record session_row =
  sn_id :: string
  sn_provider :: string
  sn_repo_path :: string
  sn_title :: string
  sn_status :: string
  sn_created_at :: timestamp
  sn_updated_at :: timestamp
  sn_message_count :: int
  sn_permissions :: "string option"
  sn_tier :: string
  sn_tier_changed_at :: int
  sn_last_user_interaction_at :: int
  sn_pid :: "int option"
  sn_routed_provider :: "string option"
  sn_mode :: string
  sn_model_override :: "string option"

record message_row =
  ms_id :: string
  ms_session_id :: string
  ms_role :: string
  ms_content :: string
  ms_status :: string
  ms_created_at :: timestamp
  ms_token_count :: int
  ms_pinned :: bool

record license_cache_row =
  lc_id :: int
  lc_tier :: string
  lc_features :: string
  lc_cached_at :: string
  lc_valid_until :: string
  lc_hmac :: "string option"

record account_row =
  ac_id :: string
  ac_name :: string
  ac_provider :: string
  ac_credentials_path :: string
  ac_priority :: int
  ac_limited_until :: "string option"

record account_event_row =
  ax_id :: string
  ax_account_id :: string
  ax_event_type :: string
  ax_metadata :: "string option"
  ax_created_at :: timestamp

record tool_call_row =
  tl_id :: string
  tl_message_id :: string
  tl_session_id :: string
  tl_name :: string
  tl_input :: string
  tl_output :: "string option"
  tl_status :: string
  tl_created_at :: timestamp
  tl_completed_at :: "timestamp option"

record tool_call_event_row =
  tv_id :: string
  tv_session_id :: string
  tv_tool_name :: string
  tv_sanitized_input :: "string option"
  tv_approved_by :: string
  tv_rejection_reason :: "string option"
  tv_created_at :: timestamp

record session_context_row =
  sx_id :: string
  sx_session_id :: string
  sx_path :: string
  sx_priority :: int
  sx_added_at :: timestamp

record push_token_row =
  pk_device_id :: string
  pk_token :: string
  pk_platform :: string
  pk_registered_at :: timestamp
  pk_updated_at :: timestamp

record fts_row =
  ft_content :: string
  ft_session_id :: string
  ft_message_id :: string
  ft_role :: string
  ft_created_at :: timestamp

record session_db =
  sd_sessions :: "session_row list"
  sd_messages :: "message_row list"
  sd_fts :: "fts_row list"
  sd_tool_calls :: "tool_call_row list"
  sd_tool_events :: "tool_call_event_row list"
  sd_contexts :: "session_context_row list"
  sd_settings :: "(string \<times> string) list"
  sd_license :: "license_cache_row list"
  sd_accounts :: "account_row list"
  sd_account_events :: "account_event_row list"
  sd_push_tokens :: "push_token_row list"

definition empty_session_db :: session_db where
  "empty_session_db = \<lparr>sd_sessions = [], sd_messages = [], sd_fts = [], sd_tool_calls = [], sd_tool_events = [], sd_contexts = [],
     sd_settings = [], sd_license = [], sd_accounts = [], sd_account_events = [], sd_push_tokens = []\<rparr>"

text \<open>A row that was just inserted is read back.\<close>

definition read_back :: "string \<Rightarrow> 'r option \<Rightarrow> 'd \<Rightarrow> ('r, task_error) result \<times> 'd" where
  "read_back message row db = (case row of None \<Rightarrow> (Err (TaskMessage message), db) | Some r \<Rightarrow> (Ok r, db))"

definition no_check :: "'r \<Rightarrow> string option" where
  "no_check r = None"

section \<open>Sessions\<close>

definition new_session_row :: "string \<Rightarrow> timestamp \<Rightarrow> string \<Rightarrow> string \<Rightarrow> string \<Rightarrow> string option \<Rightarrow> session_row" where
  "new_session_row ident now provider repo_path title permissions =
     \<lparr>sn_id = ident, sn_provider = provider, sn_repo_path = repo_path, sn_title = title, sn_status = ''idle'',
      sn_created_at = now, sn_updated_at = now, sn_message_count = 0, sn_permissions = permissions, sn_tier = ''cold'',
      sn_tier_changed_at = 0, sn_last_user_interaction_at = 0, sn_pid = None, sn_routed_provider = None,
      sn_mode = ''NORMAL'', sn_model_override = None\<rparr>"

definition get_session :: "string \<Rightarrow> session_db \<Rightarrow> session_row option" where
  "get_session ident db = select_by sn_id (sd_sessions db) ident"

definition create_session ::
  "string \<Rightarrow> timestamp \<Rightarrow> string \<Rightarrow> string \<Rightarrow> string \<Rightarrow> string option \<Rightarrow> session_db \<Rightarrow>
   (session_row, task_error) result \<times> session_db" where
  "create_session ident now provider repo_path title permissions db =
     (case insert_row sn_id no_check (\<lambda>_. True) ''sessions''
         (new_session_row ident now provider repo_path title permissions) (sd_sessions db) of
        Err e \<Rightarrow> (Err (Db e), db)
      | Ok rows \<Rightarrow>
          (let db1 = db\<lparr>sd_sessions := rows\<rparr> in read_back ''session not found after insert'' (get_session ident db1) db1))"

definition list_sessions :: "session_db \<Rightarrow> session_row list" where
  "list_sessions db = sort_key (\<lambda>s. - sn_created_at s) (sd_sessions db)"

definition count_sessions :: "session_db \<Rightarrow> nat" where
  "count_sessions db = length (sd_sessions db)"

text \<open>\<^verbatim>\<open>UPDATE sessions SET ..., updated_at = ? WHERE ...\<close>\<close>

definition update_sessions :: "(session_row \<Rightarrow> bool) \<Rightarrow> (session_row \<Rightarrow> session_row) \<Rightarrow> timestamp \<Rightarrow> session_db \<Rightarrow> session_db" where
  "update_sessions p f now db = db\<lparr>sd_sessions := set_where p (\<lambda>s. (f s)\<lparr>sn_updated_at := now\<rparr>) (sd_sessions db)\<rparr>"

definition update_session_routed_provider :: "timestamp \<Rightarrow> string \<Rightarrow> string \<Rightarrow> session_db \<Rightarrow> session_db" where
  "update_session_routed_provider now ident routed_provider db =
     update_sessions (\<lambda>s. sn_id s = ident) (\<lambda>s. s\<lparr>sn_routed_provider := Some routed_provider\<rparr>) now db"

definition update_session_status :: "timestamp \<Rightarrow> string \<Rightarrow> string \<Rightarrow> session_db \<Rightarrow> session_db" where
  "update_session_status now ident status db = update_sessions (\<lambda>s. sn_id s = ident) (\<lambda>s. s\<lparr>sn_status := status\<rparr>) now db"

definition claim_session_for_run :: "timestamp \<Rightarrow> string \<Rightarrow> session_db \<Rightarrow> bool \<times> session_db" where
  "claim_session_for_run now ident db =
     (let p = (\<lambda>s. sn_id s = ident \<and> sn_status s \<in> {''idle'', ''error''})
      in (0 < length (filter p (sd_sessions db)), update_sessions p (\<lambda>s. s\<lparr>sn_status := ''running''\<rparr>) now db))"

definition increment_message_count :: "timestamp \<Rightarrow> string \<Rightarrow> session_db \<Rightarrow> session_db" where
  "increment_message_count now session_id db =
     update_sessions (\<lambda>s. sn_id s = session_id) (\<lambda>s. s\<lparr>sn_message_count := sn_message_count s + 1\<rparr>) now db"

text \<open>\<^verbatim>\<open>DELETE FROM sessions\<close>: the references with \<^verbatim>\<open>ON DELETE CASCADE\<close> and the trigger on messages take the rows that
  depend on the deleted ones along; the audit of tool calls has no reference and stays.\<close>

definition delete_sessions :: "(session_row \<Rightarrow> bool) \<Rightarrow> session_db \<Rightarrow> nat \<times> session_db" where
  "delete_sessions p db =
     (let gone = map sn_id (filter p (sd_sessions db));
          gone_messages = map ms_id (filter (\<lambda>m. ms_session_id m \<in> set gone) (sd_messages db))
      in (length gone,
          db\<lparr>sd_sessions := delete_where p (sd_sessions db),
             sd_messages := delete_where (\<lambda>m. ms_session_id m \<in> set gone) (sd_messages db),
             sd_fts := delete_where (\<lambda>f. ft_message_id f \<in> set gone_messages) (sd_fts db),
             sd_tool_calls := delete_where (\<lambda>t. tl_session_id t \<in> set gone \<or> tl_message_id t \<in> set gone_messages) (sd_tool_calls db),
             sd_contexts := delete_where (\<lambda>c. sx_session_id c \<in> set gone) (sd_contexts db)\<rparr>))"

definition delete_session :: "string \<Rightarrow> session_db \<Rightarrow> session_db" where
  "delete_session ident db = snd (delete_sessions (\<lambda>s. sn_id s = ident) db)"

definition set_session_mode :: "timestamp \<Rightarrow> string \<Rightarrow> string \<Rightarrow> session_db \<Rightarrow> session_db" where
  "set_session_mode now ident mode db = update_sessions (\<lambda>s. sn_id s = ident) (\<lambda>s. s\<lparr>sn_mode := mode\<rparr>) now db"

definition set_model_override :: "timestamp \<Rightarrow> string \<Rightarrow> string option \<Rightarrow> session_db \<Rightarrow> session_db" where
  "set_model_override now session_id model db =
     update_sessions (\<lambda>s. sn_id s = session_id) (\<lambda>s. s\<lparr>sn_model_override := model\<rparr>) now db"

section \<open>Messages\<close>

text \<open>\<^verbatim>\<open>intelligence/context.rs\<close>: four bytes to a token, rounded up.\<close>

definition estimate_tokens :: "string \<Rightarrow> nat" where
  "estimate_tokens content = (length content + 3) div 4"

definition new_message_row :: "string \<Rightarrow> timestamp \<Rightarrow> string \<Rightarrow> string \<Rightarrow> string \<Rightarrow> string \<Rightarrow> message_row" where
  "new_message_row ident now session_id role content status =
     \<lparr>ms_id = ident, ms_session_id = session_id, ms_role = role, ms_content = content, ms_status = status,
      ms_created_at = now, ms_token_count = int (estimate_tokens content), ms_pinned = False\<rparr>"

definition fts_of :: "message_row \<Rightarrow> fts_row" where
  "fts_of m = \<lparr>ft_content = ms_content m, ft_session_id = ms_session_id m, ft_message_id = ms_id m, ft_role = ms_role m,
     ft_created_at = ms_created_at m\<rparr>"

definition session_exists :: "string \<Rightarrow> session_db \<Rightarrow> bool" where
  "session_exists ident db \<longleftrightarrow> ident \<in> set (map sn_id (sd_sessions db))"

text \<open>\<^verbatim>\<open>INSERT INTO messages\<close> with the trigger \<^verbatim>\<open>messages_ai_fts\<close>.\<close>

definition insert_message :: "message_row \<Rightarrow> session_db \<Rightarrow> (session_db, db_error) result" where
  "insert_message m db =
     (case insert_row ms_id no_check (\<lambda>r. session_exists (ms_session_id r) db) ''messages'' m (sd_messages db) of
        Err e \<Rightarrow> Err e
      | Ok rows \<Rightarrow> Ok (db\<lparr>sd_messages := rows, sd_fts := sd_fts db @ [fts_of m]\<rparr>))"

definition get_message :: "string \<Rightarrow> session_db \<Rightarrow> message_row option" where
  "get_message ident db = select_by ms_id (sd_messages db) ident"

definition create_message ::
  "string \<Rightarrow> timestamp \<Rightarrow> string \<Rightarrow> string \<Rightarrow> string \<Rightarrow> string \<Rightarrow> session_db \<Rightarrow> (message_row, task_error) result \<times> session_db" where
  "create_message ident now session_id role content status db =
     (case insert_message (new_message_row ident now session_id role content status) db of
        Err e \<Rightarrow> (Err (Db e), db)
      | Ok db1 \<Rightarrow> read_back ''message not found after insert'' (get_message ident db1) db1)"

text \<open>The two statements are one transaction.\<close>

definition create_message_and_increment_count ::
  "string \<Rightarrow> timestamp \<Rightarrow> string \<Rightarrow> string \<Rightarrow> string \<Rightarrow> string \<Rightarrow> session_db \<Rightarrow> (message_row, task_error) result \<times> session_db" where
  "create_message_and_increment_count ident now session_id role content status db =
     (case insert_message (new_message_row ident now session_id role content status) db of
        Err e \<Rightarrow> (Err (Db e), db)
      | Ok db1 \<Rightarrow>
          (let db2 = increment_message_count now session_id db1
           in read_back ''message not found after insert'' (get_message ident db2) db2))"

definition set_message :: "string \<Rightarrow> (message_row \<Rightarrow> message_row) \<Rightarrow> session_db \<Rightarrow> session_db" where
  "set_message ident f db = db\<lparr>sd_messages := set_where (\<lambda>m. ms_id m = ident) f (sd_messages db)\<rparr>"

definition update_message_content :: "string \<Rightarrow> string \<Rightarrow> string \<Rightarrow> session_db \<Rightarrow> session_db" where
  "update_message_content ident content status db = set_message ident (\<lambda>m. m\<lparr>ms_content := content, ms_status := status\<rparr>) db"

definition pin_message :: "string \<Rightarrow> session_db \<Rightarrow> session_db" where
  "pin_message ident db = set_message ident (\<lambda>m. m\<lparr>ms_pinned := True\<rparr>) db"

definition unpin_message :: "string \<Rightarrow> session_db \<Rightarrow> session_db" where
  "unpin_message ident db = set_message ident (\<lambda>m. m\<lparr>ms_pinned := False\<rparr>) db"

text \<open>The cursor is the identifier of a message; a cursor that is no message of the session compares as \<^verbatim>\<open>NULL\<close>.\<close>

definition message_key :: "message_row \<Rightarrow> timestamp \<times> string" where
  "message_key m = (ms_created_at m, ms_id m)"

definition before_cursor :: "string \<Rightarrow> string \<Rightarrow> session_db \<Rightarrow> message_row \<Rightarrow> bool" where
  "before_cursor session_id msg_id db m \<longleftrightarrow>
     (case find (\<lambda>c. ms_id c = msg_id \<and> ms_session_id c = session_id) (sd_messages db) of
        None \<Rightarrow> False
      | Some c \<Rightarrow> ms_created_at m < ms_created_at c \<or> ms_created_at m = ms_created_at c \<and> ms_id m < msg_id)"

definition list_messages :: "string \<Rightarrow> int \<Rightarrow> string option \<Rightarrow> session_db \<Rightarrow> message_row list" where
  "list_messages session_id limit before db =
     (let own = filter (\<lambda>m. ms_session_id m = session_id) (sd_messages db);
          selected = (case before of None \<Rightarrow> own | Some msg_id \<Rightarrow> filter (before_cursor session_id msg_id db) own)
      in sort_key message_key (limit_offset limit 0 (rev (sort_key message_key selected))))"

section \<open>Tool calls\<close>

definition get_tool_call :: "string \<Rightarrow> session_db \<Rightarrow> tool_call_row option" where
  "get_tool_call ident db = select_by tl_id (sd_tool_calls db) ident"

definition create_tool_call ::
  "string \<Rightarrow> timestamp \<Rightarrow> string \<Rightarrow> string \<Rightarrow> string \<Rightarrow> string \<Rightarrow> session_db \<Rightarrow> (tool_call_row, task_error) result \<times> session_db" where
  "create_tool_call ident now session_id message_id name input db =
     (case insert_row tl_id no_check
         (\<lambda>t. session_exists (tl_session_id t) db \<and> tl_message_id t \<in> set (map ms_id (sd_messages db))) ''tool_calls''
         \<lparr>tl_id = ident, tl_message_id = message_id, tl_session_id = session_id, tl_name = name, tl_input = input,
          tl_output = None, tl_status = ''pending'', tl_created_at = now, tl_completed_at = None\<rparr> (sd_tool_calls db) of
        Err e \<Rightarrow> (Err (Db e), db)
      | Ok rows \<Rightarrow>
          (let db1 = db\<lparr>sd_tool_calls := rows\<rparr> in read_back ''tool_call not found after insert'' (get_tool_call ident db1) db1))"

definition complete_tool_call :: "timestamp \<Rightarrow> string \<Rightarrow> string option \<Rightarrow> string \<Rightarrow> session_db \<Rightarrow> session_db" where
  "complete_tool_call now ident output status db =
     db\<lparr>sd_tool_calls := set_where (\<lambda>t. tl_id t = ident)
         (\<lambda>t. t\<lparr>tl_output := output, tl_status := status, tl_completed_at := Some now\<rparr>) (sd_tool_calls db)\<rparr>"

definition list_tool_calls_for_session :: "string \<Rightarrow> session_db \<Rightarrow> tool_call_row list" where
  "list_tool_calls_for_session session_id db =
     sort_key tl_created_at (filter (\<lambda>t. tl_session_id t = session_id) (sd_tool_calls db))"

section \<open>Recovery and maintenance\<close>

definition recover_stale_sessions :: "timestamp \<Rightarrow> session_db \<Rightarrow> nat \<times> session_db" where
  "recover_stale_sessions now db =
     (let crashed = (\<lambda>s. sn_status s \<in> {''running'', ''waiting''});
          db1 = update_sessions crashed (\<lambda>s. s\<lparr>sn_status := ''error''\<rparr>) now db;
          paused = (\<lambda>s. sn_status s = ''paused'');
          db2 = update_sessions paused (\<lambda>s. s\<lparr>sn_status := ''idle''\<rparr>) now db1
      in (length (filter crashed (sd_sessions db)) + length (filter paused (sd_sessions db1)), db2))"

definition DAY_NANOS :: int where
  "DAY_NANOS = 86400 * 1000000000"

definition prune_old_sessions :: "timestamp \<Rightarrow> nat \<Rightarrow> session_db \<Rightarrow> nat \<times> session_db" where
  "prune_old_sessions now days db =
     (if days = 0 then (0, db)
      else delete_sessions (\<lambda>s. sn_status s \<in> {''idle'', ''error''} \<and> sn_updated_at s < now - int days * DAY_NANOS) db)"

section \<open>Settings and the license cache\<close>

definition get_setting :: "string \<Rightarrow> session_db \<Rightarrow> string option" where
  "get_setting key db = map_option snd (select_by fst (sd_settings db) key)"

text \<open>\<^verbatim>\<open>INSERT ... ON CONFLICT(key) DO UPDATE\<close>: the row with the key is changed, or a new one is added.\<close>

definition upsert :: "('r \<Rightarrow> 'k) \<Rightarrow> ('r \<Rightarrow> 'r) \<Rightarrow> 'r \<Rightarrow> 'r list \<Rightarrow> 'r list" where
  "upsert key f row rows =
     (if key row \<in> key ` set rows then set_where (\<lambda>r. key r = key row) f rows else rows @ [row])"

definition set_setting :: "string \<Rightarrow> string \<Rightarrow> session_db \<Rightarrow> session_db" where
  "set_setting key value db = db\<lparr>sd_settings := upsert fst (\<lambda>(k, _). (k, value)) (key, value) (sd_settings db)\<rparr>"

definition get_license_cache :: "session_db \<Rightarrow> license_cache_row option" where
  "get_license_cache db = select_by lc_id (sd_license db) 1"

definition set_license_cache ::
  "string \<Rightarrow> string \<Rightarrow> string \<Rightarrow> string \<Rightarrow> string option \<Rightarrow> session_db \<Rightarrow> session_db" where
  "set_license_cache tier features cached_at valid_until hmac db =
     db\<lparr>sd_license := upsert lc_id
         (\<lambda>r. r\<lparr>lc_tier := tier, lc_features := features, lc_cached_at := cached_at, lc_valid_until := valid_until, lc_hmac := hmac\<rparr>)
         \<lparr>lc_id = 1, lc_tier = tier, lc_features = features, lc_cached_at = cached_at, lc_valid_until = valid_until, lc_hmac = hmac\<rparr>
         (sd_license db)\<rparr>"

section \<open>Accounts\<close>

definition list_account_rows :: "session_db \<Rightarrow> account_row list" where
  "list_account_rows db = sort_key ac_priority (sd_accounts db)"

definition get_account_row :: "string \<Rightarrow> session_db \<Rightarrow> account_row option" where
  "get_account_row ident db = select_by ac_id (sd_accounts db) ident"

definition create_account ::
  "string \<Rightarrow> string \<Rightarrow> string \<Rightarrow> string \<Rightarrow> int \<Rightarrow> session_db \<Rightarrow> (account_row, task_error) result \<times> session_db" where
  "create_account ident name provider credentials_path priority db =
     (case insert_row ac_id no_check (\<lambda>_. True) ''accounts''
         \<lparr>ac_id = ident, ac_name = name, ac_provider = provider, ac_credentials_path = credentials_path, ac_priority = priority,
          ac_limited_until = None\<rparr> (sd_accounts db) of
        Err e \<Rightarrow> (Err (Db e), db)
      | Ok rows \<Rightarrow>
          (let db1 = db\<lparr>sd_accounts := rows\<rparr> in read_back ''account not found after insert'' (get_account_row ident db1) db1))"

definition delete_account :: "string \<Rightarrow> session_db \<Rightarrow> session_db" where
  "delete_account ident db = db\<lparr>sd_accounts := delete_where (\<lambda>a. ac_id a = ident) (sd_accounts db)\<rparr>"

definition set_account_limited :: "string \<Rightarrow> string option \<Rightarrow> session_db \<Rightarrow> session_db" where
  "set_account_limited ident limited_until db =
     db\<lparr>sd_accounts := set_where (\<lambda>a. ac_id a = ident) (\<lambda>a. a\<lparr>ac_limited_until := limited_until\<rparr>) (sd_accounts db)\<rparr>"

definition update_account_priority :: "string \<Rightarrow> int \<Rightarrow> session_db \<Rightarrow> session_db" where
  "update_account_priority ident priority db =
     db\<lparr>sd_accounts := set_where (\<lambda>a. ac_id a = ident) (\<lambda>a. a\<lparr>ac_priority := priority\<rparr>) (sd_accounts db)\<rparr>"

definition log_account_event ::
  "string \<Rightarrow> timestamp \<Rightarrow> string \<Rightarrow> string \<Rightarrow> string option \<Rightarrow> session_db \<Rightarrow> (unit, task_error) result \<times> session_db" where
  "log_account_event ident now account_id event_type metadata db =
     (case insert_row ax_id no_check (\<lambda>_. True) ''account_events''
         \<lparr>ax_id = ident, ax_account_id = account_id, ax_event_type = event_type, ax_metadata = metadata, ax_created_at = now\<rparr>
         (sd_account_events db) of
        Err e \<Rightarrow> (Err (Db e), db)
      | Ok rows \<Rightarrow> (Ok (), db\<lparr>sd_account_events := rows\<rparr>))"

definition list_account_events :: "string option \<Rightarrow> int \<Rightarrow> session_db \<Rightarrow> account_event_row list" where
  "list_account_events account_id limit db =
     limit_offset limit 0 (sort_key (\<lambda>e. - ax_created_at e)
       (case account_id of Some aid \<Rightarrow> filter (\<lambda>e. ax_account_id e = aid) (sd_account_events db) | None \<Rightarrow> sd_account_events db))"

section \<open>The audit of tool calls\<close>

definition create_tool_call_event ::
  "string \<Rightarrow> timestamp \<Rightarrow> string \<Rightarrow> string \<Rightarrow> string option \<Rightarrow> string \<Rightarrow> string option \<Rightarrow> session_db \<Rightarrow>
   (tool_call_event_row, task_error) result \<times> session_db" where
  "create_tool_call_event ident now session_id tool_name sanitized_input approved_by rejection_reason db =
     (let row = \<lparr>tv_id = ident, tv_session_id = session_id, tv_tool_name = tool_name, tv_sanitized_input = sanitized_input,
            tv_approved_by = approved_by, tv_rejection_reason = rejection_reason, tv_created_at = now\<rparr>
      in case insert_row tv_id no_check (\<lambda>_. True) ''tool_call_events'' row (sd_tool_events db) of
           Err e \<Rightarrow> (Err (Db e), db)
         | Ok rows \<Rightarrow> (Ok row, db\<lparr>sd_tool_events := rows\<rparr>))"

definition list_tool_call_events :: "string option \<Rightarrow> int \<Rightarrow> string option \<Rightarrow> session_db \<Rightarrow> tool_call_event_row list" where
  "list_tool_call_events session_id limit before db =
     limit_offset limit 0 (sort_key (\<lambda>e. - tv_created_at e)
       (filter (\<lambda>e. (case session_id of Some sid \<Rightarrow> tv_session_id e = sid | None \<Rightarrow> True) \<and>
                    (case before of Some cursor \<Rightarrow> tv_id e < cursor | None \<Rightarrow> True)) (sd_tool_events db)))"

text \<open>The stored time has a \<^verbatim>\<open>T\<close> between date and time of day, the result of \<^verbatim>\<open>datetime\<close> a blank. As texts, an event
  of the day of the cutoff is therefore never below the cutoff: only the days are compared.\<close>

definition prune_tool_call_events :: "timestamp \<Rightarrow> nat \<Rightarrow> session_db \<Rightarrow> nat \<times> session_db" where
  "prune_tool_call_events now days db =
     (if days = 0 then (0, db)
      else let p = (\<lambda>e. tv_created_at e div DAY_NANOS < (now - int days * DAY_NANOS) div DAY_NANOS)
           in (length (filter p (sd_tool_events db)), db\<lparr>sd_tool_events := delete_where p (sd_tool_events db)\<rparr>))"

section \<open>The context of a session\<close>

definition context_key :: "session_context_row \<Rightarrow> string \<times> string" where
  "context_key c = (sx_session_id c, sx_path c)"

definition add_repo_context ::
  "string \<Rightarrow> timestamp \<Rightarrow> string \<Rightarrow> string \<Rightarrow> int \<Rightarrow> session_db \<Rightarrow> (session_context_row, task_error) result \<times> session_db" where
  "add_repo_context ident now session_id path priority db =
     (let row = \<lparr>sx_id = ident, sx_session_id = session_id, sx_path = path, sx_priority = priority, sx_added_at = now\<rparr>;
          fetch = (\<lambda>db1. case select_by context_key (sd_contexts db1) (session_id, path) of
              None \<Rightarrow> (Err (Db RowNotFound), db1) | Some r \<Rightarrow> (Ok r, db1))
      in if context_key row \<in> context_key ` set (sd_contexts db)
         then fetch (db\<lparr>sd_contexts := set_where (\<lambda>c. context_key c = context_key row)
                (\<lambda>c. c\<lparr>sx_priority := priority, sx_added_at := now\<rparr>) (sd_contexts db)\<rparr>)
         else case insert_row sx_id no_check (\<lambda>c. session_exists (sx_session_id c) db) ''session_contexts'' row (sd_contexts db) of
             Err e \<Rightarrow> (Err (Db e), db)
           | Ok rows \<Rightarrow> fetch (db\<lparr>sd_contexts := rows\<rparr>))"

definition list_repo_contexts :: "string \<Rightarrow> session_db \<Rightarrow> session_context_row list" where
  "list_repo_contexts session_id db =
     sort_key (\<lambda>c. (- sx_priority c, sx_added_at c)) (filter (\<lambda>c. sx_session_id c = session_id) (sd_contexts db))"

definition remove_repo_context :: "string \<Rightarrow> session_db \<Rightarrow> session_db" where
  "remove_repo_context ident db = db\<lparr>sd_contexts := delete_where (\<lambda>c. sx_id c = ident) (sd_contexts db)\<rparr>"

section \<open>Push tokens\<close>

definition push_check :: "push_token_row \<Rightarrow> string option" where
  "push_check r = (if pk_platform r \<in> {''apns'', ''fcm''} then None else Some ''platform'')"

definition upsert_push_token ::
  "timestamp \<Rightarrow> string \<Rightarrow> string \<Rightarrow> string \<Rightarrow> session_db \<Rightarrow> (unit, task_error) result \<times> session_db" where
  "upsert_push_token now device_id token platform db =
     (let row = \<lparr>pk_device_id = device_id, pk_token = token, pk_platform = platform, pk_registered_at = now, pk_updated_at = now\<rparr>
      in case push_check row of
           Some column \<Rightarrow> (Err (Db (CheckFailed column)), db)
         | None \<Rightarrow>
             (Ok (), db\<lparr>sd_push_tokens := upsert pk_device_id
                (\<lambda>r. r\<lparr>pk_token := token, pk_platform := platform, pk_updated_at := now\<rparr>) row (sd_push_tokens db)\<rparr>))"

definition delete_push_token :: "string \<Rightarrow> session_db \<Rightarrow> session_db" where
  "delete_push_token device_id db = db\<lparr>sd_push_tokens := delete_where (\<lambda>r. pk_device_id r = device_id) (sd_push_tokens db)\<rparr>"

definition list_push_tokens :: "session_db \<Rightarrow> (string \<times> string \<times> string) list" where
  "list_push_tokens db =
     map (\<lambda>r. (pk_device_id r, pk_token r, pk_platform r)) (sort_key pk_registered_at (sd_push_tokens db))"

end
