(* ===== verification/Session_Store_Props.thy ===== *)
theory Session_Store_Props
  imports Session_Store
begin

text \<open>
  What the tables of \<open>Session_Store\<close> promise: every operation keeps keys, references and the full-text index in step;
  the pages of a conversation put together are the conversation; recovery after a crash and pruning touch exactly the
  sessions they are meant for. The last section holds what the operations do not promise.
\<close>

section \<open>The invariant of the tables\<close>

definition session_refs_ok :: "session_db \<Rightarrow> bool" where
  "session_refs_ok db \<longleftrightarrow>
     (\<forall>m \<in> set (sd_messages db). session_exists (ms_session_id m) db) \<and>
     (\<forall>t \<in> set (sd_tool_calls db). session_exists (tl_session_id t) db \<and> tl_message_id t \<in> ms_id ` set (sd_messages db)) \<and>
     (\<forall>c \<in> set (sd_contexts db). session_exists (sx_session_id c) db)"

definition session_keys_ok :: "session_db \<Rightarrow> bool" where
  "session_keys_ok db \<longleftrightarrow>
     distinct (map sn_id (sd_sessions db)) \<and> distinct (map ms_id (sd_messages db)) \<and> distinct (map tl_id (sd_tool_calls db)) \<and>
     distinct (map tv_id (sd_tool_events db)) \<and> distinct (map sx_id (sd_contexts db)) \<and> distinct (map context_key (sd_contexts db)) \<and>
     distinct (map fst (sd_settings db)) \<and> distinct (map lc_id (sd_license db)) \<and> distinct (map ac_id (sd_accounts db)) \<and>
     distinct (map ax_id (sd_account_events db)) \<and> distinct (map pk_device_id (sd_push_tokens db))"

definition session_db_ok :: "session_db \<Rightarrow> bool" where
  "session_db_ok db \<longleftrightarrow>
     session_keys_ok db \<and> session_refs_ok db \<and>
     (\<forall>r \<in> set (sd_push_tokens db). pk_platform r \<in> {''apns'', ''fcm''}) \<and>
     map ft_message_id (sd_fts db) = map ms_id (sd_messages db)"

lemmas session_db_defs = session_db_ok_def session_keys_ok_def session_refs_ok_def session_exists_def

lemma empty_session_db_ok: "session_db_ok empty_session_db"
  by (simp add: session_db_defs empty_session_db_def)

lemma map_set_where: "(\<And>r. key (f r) = key r) \<Longrightarrow> map key (set_where p f rows) = map key rows"
  by (simp add: set_where_def)

lemma image_set_where: "(\<And>r. key (f r) = key r) \<Longrightarrow> key ` set (set_where p f rows) = key ` set rows"
  by (simp only: list.set_map [symmetric] map_set_where)

lemma ball_set_where: "(\<And>r. Q (f r) \<longleftrightarrow> Q r) \<Longrightarrow> (\<forall>r \<in> set (set_where p f rows). Q r) \<longleftrightarrow> (\<forall>r \<in> set rows. Q r)"
  by (induction rows) (auto simp: set_where_def)

lemma insert_row_Ok_no_check:
  "insert_row key no_check refs_ok table row rows = Ok rows' \<longleftrightarrow>
     key row \<notin> key ` set rows \<and> refs_ok row \<and> rows' = rows @ [row]"
  by (simp add: insert_row_Ok no_check_def)

lemma upsert_keys_distinct:
  assumes "distinct (map key rows)" and "\<And>r. key (f r) = key r"
  shows "distinct (map key (upsert key f row rows))"
  using assms by (auto simp: upsert_def map_set_where)

lemma distinct_delete: "distinct (map key rows) \<Longrightarrow> distinct (map key (delete_where p rows))"
  by (simp add: delete_where_def distinct_map_filter)

lemma session_exists_update [simp]:
  assumes "\<And>s. sn_id (f s) = sn_id s"
  shows "session_exists i (update_sessions p f now db) \<longleftrightarrow> session_exists i db"
  using assms by (simp add: session_exists_def update_sessions_def map_set_where del: set_map)

lemma update_sessions_ok:
  assumes "session_db_ok db" and "\<And>s. sn_id (f s) = sn_id s"
  shows "session_db_ok (update_sessions p f now db)"
proof -
  have "map sn_id (set_where p (\<lambda>s. (f s)\<lparr>sn_updated_at := now\<rparr>) (sd_sessions db)) = map sn_id (sd_sessions db)"
    by (rule map_set_where) (simp add: assms(2))
  then show ?thesis using assms(1) unfolding session_db_defs update_sessions_def by (simp del: set_map)
qed

lemma set_message_ok:
  assumes "session_db_ok db" and "\<And>m. ms_id (f m) = ms_id m" and "\<And>m. ms_session_id (f m) = ms_session_id m"
  shows "session_db_ok (set_message i f db)"
proof -
  let ?rows = "set_where (\<lambda>m. ms_id m = i) f (sd_messages db)"
  have "map ms_id ?rows = map ms_id (sd_messages db)" by (rule map_set_where) (simp add: assms(2))
  moreover have "ms_id ` set ?rows = ms_id ` set (sd_messages db)" by (rule image_set_where) (simp add: assms(2))
  moreover have "(\<forall>m \<in> set ?rows. session_exists (ms_session_id m) db) \<longleftrightarrow> (\<forall>m \<in> set (sd_messages db). session_exists (ms_session_id m) db)"
    by (rule ball_set_where) (simp add: assms(3))
  ultimately show ?thesis
    using assms(1) unfolding session_db_defs set_message_def by (simp del: set_map)
qed

lemma insert_message_ok:
  assumes "session_db_ok db" and "insert_message m db = Ok db'"
  shows "session_db_ok db'"
proof -
  from assms(2) have m: "ms_id m \<notin> ms_id ` set (sd_messages db)" "session_exists (ms_session_id m) db"
    and db': "db' = db\<lparr>sd_messages := sd_messages db @ [m], sd_fts := sd_fts db @ [fts_of m]\<rparr>"
    by (auto simp: insert_message_def insert_row_Ok_no_check split: result.splits)
  show ?thesis using assms(1) m unfolding db' session_db_defs by (auto simp: fts_of_def)
qed

text \<open>Deleting sessions keeps the references because it follows them.\<close>

lemma map_filter_aligned:
  assumes "map g ys = map f xs"
  shows "map g (filter (\<lambda>y. Q (g y)) ys) = map f (filter (\<lambda>x. Q (f x)) xs)"
proof -
  have "map g (filter (\<lambda>y. Q (g y)) ys) = filter Q (map g ys)" by (simp add: filter_map comp_def)
  also have "\<dots> = map f (filter (\<lambda>x. Q (f x)) xs)" by (simp add: assms filter_map comp_def)
  finally show ?thesis .
qed

lemma gone_message_iff:
  assumes "distinct (map ms_id rows)" and "m \<in> set rows"
  shows "ms_id m \<in> ms_id ` set (filter p rows) \<longleftrightarrow> p m"
  using assms by (auto simp: distinct_map inj_on_def)

lemma delete_sessions_ok:
  assumes ok: "session_db_ok db"
  shows "session_db_ok (snd (delete_sessions p db))"
proof -
  let ?gone = "sn_id ` set (filter p (sd_sessions db))"
  let ?lost = "\<lambda>m. ms_session_id m \<in> ?gone"
  let ?msgs = "ms_id ` set (filter ?lost (sd_messages db))"
  have keys: "session_keys_ok db" and refs: "session_refs_ok db" and fts: "map ft_message_id (sd_fts db) = map ms_id (sd_messages db)"
    and push: "\<forall>r \<in> set (sd_push_tokens db). pk_platform r \<in> {''apns'', ''fcm''}"
    using ok by (auto simp: session_db_ok_def)
  have dm: "distinct (map ms_id (sd_messages db))" and ds: "distinct (map sn_id (sd_sessions db))"
    using keys by (auto simp: session_keys_ok_def)
  have survives: "i \<in> sn_id ` set (delete_where p (sd_sessions db))" if "i \<in> sn_id ` set (sd_sessions db)" "i \<notin> ?gone" for i
    using that by (auto simp: delete_where_def)
  have same: "filter (\<lambda>m. ms_id m \<notin> ?msgs) (sd_messages db) = delete_where ?lost (sd_messages db)"
    unfolding delete_where_def by (rule filter_cong) (simp_all add: gone_message_iff [OF dm] del: set_filter)
  have index: "map ft_message_id (delete_where (\<lambda>f. ft_message_id f \<in> ?msgs) (sd_fts db)) = map ms_id (delete_where ?lost (sd_messages db))"
    using map_filter_aligned [OF fts, of "\<lambda>i. i \<notin> ?msgs"] by (simp only: delete_where_def [where p = "\<lambda>f. ft_message_id f \<in> ?msgs"] same)
  have msg: "i \<in> ms_id ` set (delete_where ?lost (sd_messages db))"
    if "i \<in> ms_id ` set (sd_messages db)" "i \<notin> ?msgs" for i
    using that by (auto simp: delete_where_def)
  have "session_refs_ok (snd (delete_sessions p db))"
    unfolding session_refs_ok_def session_exists_def delete_sessions_def Let_def snd_conv set_map
    using refs survives msg by (simp add: session_refs_ok_def session_exists_def delete_where_def)
  moreover have "session_keys_ok (snd (delete_sessions p db))"
    using keys unfolding session_keys_ok_def delete_sessions_def Let_def by (simp add: distinct_delete)
  ultimately show ?thesis
    using push index unfolding session_db_ok_def delete_sessions_def Let_def by (simp del: set_filter)
qed

section \<open>Operations\<close>

text \<open>The states the operations reach from the empty database.\<close>

inductive stored :: "session_db \<Rightarrow> bool" where
  stored_empty: "stored empty_session_db"
| stored_create_session: "stored db \<Longrightarrow> stored (snd (create_session i now provider repo title perms db))"
| stored_route_session: "stored db \<Longrightarrow> stored (update_session_routed_provider now i provider db)"
| stored_session_status: "stored db \<Longrightarrow> stored (update_session_status now i status db)"
| stored_claim_session: "stored db \<Longrightarrow> stored (snd (claim_session_for_run now i db))"
| stored_count_message: "stored db \<Longrightarrow> stored (increment_message_count now i db)"
| stored_delete_session: "stored db \<Longrightarrow> stored (delete_session i db)"
| stored_session_mode: "stored db \<Longrightarrow> stored (set_session_mode now i mode db)"
| stored_model_override: "stored db \<Longrightarrow> stored (set_model_override now i model db)"
| stored_create_message: "stored db \<Longrightarrow> stored (snd (create_message i now sid role content status db))"
| stored_create_counted: "stored db \<Longrightarrow> stored (snd (create_message_and_increment_count i now sid role content status db))"
| stored_update_message: "stored db \<Longrightarrow> stored (update_message_content i content status db)"
| stored_pin_message: "stored db \<Longrightarrow> stored (pin_message i db)"
| stored_unpin_message: "stored db \<Longrightarrow> stored (unpin_message i db)"
| stored_create_tool_call: "stored db \<Longrightarrow> stored (snd (create_tool_call i now sid mid name input db))"
| stored_complete_tool_call: "stored db \<Longrightarrow> stored (complete_tool_call now i output status db)"
| stored_recover_sessions: "stored db \<Longrightarrow> stored (snd (recover_stale_sessions now db))"
| stored_prune_sessions: "stored db \<Longrightarrow> stored (snd (prune_old_sessions now days db))"
| stored_set_setting: "stored db \<Longrightarrow> stored (set_setting k v db)"
| stored_set_license: "stored db \<Longrightarrow> stored (set_license_cache tier features cached valid hmac db)"
| stored_create_account: "stored db \<Longrightarrow> stored (snd (create_account i name provider path prio db))"
| stored_delete_account: "stored db \<Longrightarrow> stored (delete_account i db)"
| stored_limit_account: "stored db \<Longrightarrow> stored (set_account_limited i until db)"
| stored_prioritize_account: "stored db \<Longrightarrow> stored (update_account_priority i prio db)"
| stored_log_account: "stored db \<Longrightarrow> stored (snd (log_account_event i now acc kind meta db))"
| stored_tool_event: "stored db \<Longrightarrow> stored (snd (create_tool_call_event i now sid name input approved reason db))"
| stored_prune_events: "stored db \<Longrightarrow> stored (snd (prune_tool_call_events now days db))"
| stored_add_context: "stored db \<Longrightarrow> stored (snd (add_repo_context i now sid path prio db))"
| stored_remove_context: "stored db \<Longrightarrow> stored (remove_repo_context i db)"
| stored_upsert_push: "stored db \<Longrightarrow> stored (snd (upsert_push_token now dev token platform db))"
| stored_delete_push: "stored db \<Longrightarrow> stored (delete_push_token dev db)"

lemma snd_read_back [simp]: "snd (read_back message row db) = db"
  by (simp add: read_back_def split: option.split)

lemma create_session_ok: "session_db_ok db \<Longrightarrow> session_db_ok (snd (create_session i now provider repo title perms db))"
  by (auto simp: create_session_def insert_row_Ok_no_check session_db_defs Let_def new_session_row_def split: result.split)

lemma create_message_ok: "session_db_ok db \<Longrightarrow> session_db_ok (snd (create_message i now sid role content status db))"
  by (auto simp: create_message_def intro: insert_message_ok split: result.split)

lemma update_message_content_ok: "session_db_ok db \<Longrightarrow> session_db_ok (update_message_content i content status db)"
  unfolding update_message_content_def by (rule set_message_ok) simp_all

lemma increment_message_count_ok: "session_db_ok db \<Longrightarrow> session_db_ok (increment_message_count now i db)"
  unfolding increment_message_count_def by (rule update_sessions_ok) simp_all

lemma update_session_status_ok: "session_db_ok db \<Longrightarrow> session_db_ok (update_session_status now i status db)"
  unfolding update_session_status_def by (rule update_sessions_ok) simp_all

lemma create_counted_ok:
  "session_db_ok db \<Longrightarrow> session_db_ok (snd (create_message_and_increment_count i now sid role content status db))"
  by (auto simp: create_message_and_increment_count_def Let_def intro: insert_message_ok increment_message_count_ok split: result.split)

lemma create_tool_call_ok:
  "session_db_ok db \<Longrightarrow> session_db_ok (snd (create_tool_call i now sid mid name input db))"
  by (auto simp: create_tool_call_def insert_row_Ok_no_check session_db_defs Let_def split: result.split)

lemma complete_tool_call_ok: "session_db_ok db \<Longrightarrow> session_db_ok (complete_tool_call now i output status db)"
  unfolding session_db_defs complete_tool_call_def by (simp add: map_set_where) (auto simp: set_where_def)

lemma recover_stale_sessions_ok: "session_db_ok db \<Longrightarrow> session_db_ok (snd (recover_stale_sessions now db))"
  unfolding recover_stale_sessions_def Let_def snd_conv by (intro update_sessions_ok) simp_all

lemma prune_old_sessions_ok: "session_db_ok db \<Longrightarrow> session_db_ok (snd (prune_old_sessions now days db))"
  by (simp add: prune_old_sessions_def delete_sessions_ok)

lemma set_setting_ok: "session_db_ok db \<Longrightarrow> session_db_ok (set_setting k v db)"
  unfolding session_db_defs set_setting_def by (simp add: upsert_keys_distinct split_beta)

lemma set_license_cache_ok: "session_db_ok db \<Longrightarrow> session_db_ok (set_license_cache tier features cached valid hmac db)"
  unfolding session_db_defs set_license_cache_def by (simp add: upsert_keys_distinct)

lemma table_ok:
  assumes "session_db_ok db"
  shows "distinct (map ac_id accounts) \<Longrightarrow> session_db_ok (db\<lparr>sd_accounts := accounts\<rparr>)"
    "distinct (map ax_id events) \<Longrightarrow> session_db_ok (db\<lparr>sd_account_events := events\<rparr>)"
    "distinct (map tv_id calls) \<Longrightarrow> session_db_ok (db\<lparr>sd_tool_events := calls\<rparr>)"
  using assms unfolding session_db_defs by simp_all

lemma table_keys:
  "session_db_ok db \<Longrightarrow> distinct (map ac_id (sd_accounts db)) \<and> distinct (map ax_id (sd_account_events db)) \<and> distinct (map tv_id (sd_tool_events db))"
  unfolding session_db_defs by simp

lemma account_ops_ok:
  assumes ok: "session_db_ok db"
  shows "session_db_ok (snd (create_account i name provider path prio db))" "session_db_ok (delete_account i db)"
    "session_db_ok (set_account_limited i until db)" "session_db_ok (update_account_priority i prio db)"
    "session_db_ok (snd (log_account_event i now acc kind meta db))"
  using table_keys [OF ok] ok
  by (simp_all add: create_account_def delete_account_def set_account_limited_def update_account_priority_def log_account_event_def
      insert_row_Ok_no_check map_set_where distinct_delete Let_def table_ok split: result.split)

lemma tool_event_ops_ok:
  assumes ok: "session_db_ok db"
  shows "session_db_ok (snd (create_tool_call_event i now sid name input approved reason db))"
    "session_db_ok (snd (prune_tool_call_events now days db))"
  using table_keys [OF ok] ok
  by (simp_all add: create_tool_call_event_def prune_tool_call_events_def insert_row_Ok_no_check distinct_delete Let_def table_ok
      split: result.split)

lemma contexts_ok:
  assumes "session_db_ok db" and "distinct (map sx_id rows)" and "distinct (map context_key rows)"
    and "\<forall>c \<in> set rows. session_exists (sx_session_id c) db"
  shows "session_db_ok (db\<lparr>sd_contexts := rows\<rparr>)"
  using assms unfolding session_db_defs by simp

lemma contexts_of:
  "session_db_ok db \<Longrightarrow> distinct (map sx_id (sd_contexts db)) \<and> distinct (map context_key (sd_contexts db)) \<and>
     (\<forall>c \<in> set (sd_contexts db). session_exists (sx_session_id c) db)"
  unfolding session_db_defs by simp

lemma add_repo_context_ok:
  assumes ok: "session_db_ok db"
  shows "session_db_ok (snd (add_repo_context i now sid path prio db))"
proof (cases "(sid, path) \<in> context_key ` set (sd_contexts db)")
  case True
  let ?f = "\<lambda>c. c\<lparr>sx_priority := prio, sx_added_at := now\<rparr>"
  let ?rows = "set_where (\<lambda>c. context_key c = (sid, path)) ?f (sd_contexts db)"
  have "snd (add_repo_context i now sid path prio db) = db\<lparr>sd_contexts := ?rows\<rparr>"
    using True by (simp add: add_repo_context_def context_key_def split: option.split)
  moreover have "\<forall>c \<in> set ?rows. session_exists (sx_session_id c) db"
    using contexts_of [OF ok] by (auto simp: set_where_def)
  moreover have "map context_key ?rows = map context_key (sd_contexts db)" "map sx_id ?rows = map sx_id (sd_contexts db)"
    by (rule map_set_where, simp add: context_key_def)+
  ultimately show ?thesis using contexts_ok [OF ok, of ?rows] contexts_of [OF ok] by simp
next
  case False
  let ?row = "\<lparr>sx_id = i, sx_session_id = sid, sx_path = path, sx_priority = prio, sx_added_at = now\<rparr>"
  let ?ins = "insert_row sx_id no_check (\<lambda>c. session_exists (sx_session_id c) db) ''session_contexts'' ?row (sd_contexts db)"
  have run: "snd (add_repo_context i now sid path prio db) = (case ?ins of Err e \<Rightarrow> db | Ok rows \<Rightarrow> db\<lparr>sd_contexts := rows\<rparr>)"
    using False by (simp add: add_repo_context_def context_key_def split: option.split result.split)
  show ?thesis
  proof (cases ?ins)
    case (Ok rows)
    then have "i \<notin> sx_id ` set (sd_contexts db)" "session_exists sid db" "rows = sd_contexts db @ [?row]"
      by (auto simp: insert_row_Ok_no_check)
    with False contexts_of [OF ok] have "session_db_ok (db\<lparr>sd_contexts := rows\<rparr>)"
      by (intro contexts_ok [OF ok]) (auto simp: context_key_def)
    with run Ok show ?thesis by simp
  qed (simp add: run ok)
qed

lemma remove_repo_context_ok: "session_db_ok db \<Longrightarrow> session_db_ok (remove_repo_context i db)"
  unfolding session_db_defs remove_repo_context_def by (simp add: distinct_delete) (auto simp: delete_where_def)

lemma push_ops_ok:
  assumes "session_db_ok db"
  shows "session_db_ok (snd (upsert_push_token now dev token platform db))" "session_db_ok (delete_push_token dev db)"
proof -
  show "session_db_ok (snd (upsert_push_token now dev token platform db))"
    using assms unfolding session_db_defs upsert_push_token_def Let_def
    by (simp add: upsert_keys_distinct push_check_def) (auto simp: upsert_def set_where_def)
  show "session_db_ok (delete_push_token dev db)"
    using assms unfolding session_db_defs delete_push_token_def by (simp add: distinct_delete) (auto simp: delete_where_def)
qed

lemmas session_ops_ok = create_session_ok create_message_ok create_counted_ok update_message_content_ok increment_message_count_ok
  update_session_status_ok create_tool_call_ok complete_tool_call_ok recover_stale_sessions_ok prune_old_sessions_ok
  set_setting_ok set_license_cache_ok account_ops_ok tool_event_ops_ok add_repo_context_ok remove_repo_context_ok push_ops_ok
  delete_sessions_ok

text \<open>Every state the operations reach has unique keys, valid references and one entry in the full-text index for each
  message, in the same order.\<close>

lemma stored_ok: "stored db \<Longrightarrow> session_db_ok db"
  by (induction rule: stored.induct)
    (simp_all add: empty_session_db_ok session_ops_ok update_session_routed_provider_def claim_session_for_run_def Let_def
      update_sessions_ok delete_session_def set_session_mode_def set_model_override_def pin_message_def unpin_message_def set_message_ok)

section \<open>Pages of a conversation\<close>

definition conversation :: "string \<Rightarrow> session_db \<Rightarrow> message_row list" where
  "conversation session_id db = sort_key message_key (filter (\<lambda>m. ms_session_id m = session_id) (sd_messages db))"

lemma inj_message_key:
  assumes "session_db_ok db"
  shows "inj_on message_key (set (sd_messages db))"
proof -
  have "inj_on ms_id (set (sd_messages db))" using assms by (simp add: session_db_defs distinct_map)
  then show ?thesis by (auto simp: inj_on_def message_key_def)
qed

lemma sorted_conversation: "sorted (map message_key (conversation session_id db))"
  by (simp add: conversation_def)

lemma distinct_conversation:
  assumes "session_db_ok db"
  shows "distinct (map message_key (conversation session_id db))"
proof -
  have "distinct (sd_messages db)" using assms by (simp add: session_db_defs distinct_map)
  with inj_message_key [OF assms] show ?thesis
    unfolding conversation_def distinct_map by (auto intro: inj_on_subset)
qed

text \<open>The last \<open>n\<close> of a list in descending order, put back in ascending order.\<close>

lemma newest_ascending:
  assumes "distinct (map key l)" and "sorted (map key l)"
  shows "sort_key key (limit_offset (int n) 0 (rev l)) = drop (length l - n) l"
proof -
  have "sort_key key (rev (drop (length l - n) l)) = drop (length l - n) l"
  proof (rule sort_key_inj_key_eq)
    show "mset (rev (drop (length l - n) l)) = mset (drop (length l - n) l)" by simp
    show "inj_on key (set (rev (drop (length l - n) l)))"
      using assms(1) by (auto simp: distinct_map dest!: in_set_dropD intro: inj_on_subset)
    show "sorted (map key (drop (length l - n) l))" using assms(2) by (simp add: drop_map [symmetric] sorted_wrt_drop)
  qed
  then show ?thesis by (simp add: limit_offset_def take_rev)
qed

lemma filter_below_nth:
  fixes key :: "'r \<Rightarrow> 'k::linorder"
  assumes "distinct (map key l)" and "sorted (map key l)" and "i < length l"
  shows "filter (\<lambda>x. key x < key (l ! i)) l = take i l"
proof -
  have less: "key (l ! j) < key (l ! i) \<longleftrightarrow> j < i" if "j < length l" for j
  proof (cases "j < i")
    case True
    have "key (l ! j) \<le> key (l ! i)" using sorted_nth_mono [OF assms(2), of j i] True assms(3) by simp
    moreover have "key (l ! j) \<noteq> key (l ! i)" using nth_eq_iff_index_eq [OF assms(1), of j i] True assms(3) by simp
    ultimately show ?thesis using True by simp
  next
    case False
    with sorted_nth_mono [OF assms(2), of i j] that show ?thesis by auto
  qed
  have "filter (\<lambda>x. key x < key (l ! i)) (take i l) = take i l"
    using less assms(3) by (intro filter_True) (fastforce simp: in_set_conv_nth)
  moreover have "filter (\<lambda>x. key x < key (l ! i)) (drop i l) = []"
    by (rule filter_False) (auto simp: in_set_conv_nth less)
  ultimately show ?thesis using filter_append [of _ "take i l" "drop i l"] by simp
qed

lemma list_messages_newest:
  assumes "session_db_ok db"
  shows "list_messages session_id (int n) None db = drop (length (conversation session_id db) - n) (conversation session_id db)"
  unfolding list_messages_def Let_def option.case conversation_def [symmetric]
  by (rule newest_ascending [OF distinct_conversation [OF assms] sorted_conversation])

lemma list_messages_before:
  assumes ok: "session_db_ok db" and i: "i < length (conversation session_id db)"
  shows "list_messages session_id (int n) (Some (ms_id (conversation session_id db ! i))) db =
    drop (i - n) (take i (conversation session_id db))"
proof -
  let ?c = "conversation session_id db" and ?own = "filter (\<lambda>m. ms_session_id m = session_id) (sd_messages db)"
  let ?m = "?c ! i"
  have m: "?m \<in> set (sd_messages db)" "ms_session_id ?m = session_id"
    using nth_mem [OF i] by (auto simp: conversation_def)
  have uniq: "m' = ?m" if "m' \<in> set (sd_messages db)" "ms_id m' = ms_id ?m" for m'
    using that m(1) ok by (auto simp: session_db_defs distinct_map dest: inj_onD)
  have found: "find (\<lambda>c. ms_id c = ms_id ?m \<and> ms_session_id c = session_id) (sd_messages db) = Some ?m"
    using m uniq by (cases "find (\<lambda>c. ms_id c = ms_id ?m \<and> ms_session_id c = session_id) (sd_messages db)")
      (auto simp: find_None_iff find_Some_iff, metis nth_mem)
  have below: "before_cursor session_id (ms_id ?m) db = (\<lambda>m. message_key m < message_key ?m)"
    by (rule ext) (auto simp: before_cursor_def found message_key_def)
  have "sort_key message_key (filter (\<lambda>m. message_key m < message_key ?m) ?own) = take i ?c"
    using filter_below_nth [OF distinct_conversation [OF ok] sorted_conversation i]
    by (simp add: conversation_def filter_sort)
  moreover have "sort_key message_key (limit_offset (int n) 0 (rev (take i ?c))) = drop (length (take i ?c) - n) (take i ?c)"
  proof (rule newest_ascending)
    show "distinct (map message_key (take i ?c))" using distinct_conversation [OF ok] by (simp add: take_map [symmetric])
    show "sorted (map message_key (take i ?c))" using sorted_conversation by (simp add: take_map [symmetric] sorted_wrt_take)
  qed
  ultimately show ?thesis using i by (simp add: list_messages_def Let_def below)
qed

text \<open>A client loads the newest page and then, \<open>k\<close> times, the page before the oldest message it has.\<close>

fun load_pages :: "string \<Rightarrow> nat \<Rightarrow> nat \<Rightarrow> session_db \<Rightarrow> message_row list" where
  "load_pages session_id n 0 db = list_messages session_id (int n) None db"
| "load_pages session_id n (Suc k) db =
     (case load_pages session_id n k db of
        [] \<Rightarrow> []
      | m # ms \<Rightarrow> list_messages session_id (int n) (Some (ms_id m)) db @ m # ms)"

lemma load_pages_eq:
  assumes "session_db_ok db"
  shows "load_pages session_id n k db =
    drop (length (conversation session_id db) - Suc k * n) (conversation session_id db)"
proof (induction k)
  case 0
  show ?case using list_messages_newest [OF assms] by simp
next
  case (Suc k)
  let ?c = "conversation session_id db"
  let ?i = "length ?c - Suc k * n"
  show ?case
  proof (cases "?i < length ?c")
    case True
    then have split: "drop ?i ?c = ?c ! ?i # drop (Suc ?i) ?c" by (rule Cons_nth_drop_Suc [symmetric])
    have "load_pages session_id n (Suc k) db = drop (?i - n) (take ?i ?c) @ drop ?i ?c"
      unfolding load_pages.simps Suc split list.case list_messages_before [OF assms True] ..
    also have "\<dots> = drop (?i - n) ?c"
      by (metis append_take_drop_id diff_le_self drop_append drop_0 length_take min.absorb4 diff_is_0_eq True)
    also have "?i - n = length ?c - Suc (Suc k) * n" by simp
    finally show ?thesis .
  next
    case False
    then have "Suc k * n = 0 \<or> ?c = []" using diff_less [of "Suc k * n" "length ?c"] by (auto simp del: mult_Suc)
    with Suc show ?thesis by auto
  qed
qed

text \<open>C19: Paging backwards shows the conversation without gaps and without repetitions: after \<open>k\<close> further pages the client
  holds the newest \<open>(k + 1) n\<close> messages in order, also when messages share a time. So it holds the whole conversation
  as soon as the pages are large enough together.\<close>

theorem pages_are_conversation:
  assumes "stored db"
  shows "load_pages session_id n k db = drop (length (conversation session_id db) - Suc k * n) (conversation session_id db)"
  by (rule load_pages_eq [OF stored_ok [OF assms]])

definition two_message_db :: session_db where
  "two_message_db =
     snd (create_message ''a'' 5 ''s'' ''assistant'' ''yes'' ''done''
       (snd (create_message_and_increment_count ''b'' 5 ''s'' ''user'' ''ok?'' ''done''
         (snd (create_session ''s'' 1 ''claude'' ''/r'' ''t'' None empty_session_db)))))"

lemma stored_two_messages: "stored two_message_db"
  unfolding two_message_db_def by (intro stored.intros)

theorem pages_are_conversation_witness:
  "map ms_id (load_pages ''s'' 1 0 two_message_db) = [''b''] \<and> map ms_id (load_pages ''s'' 1 1 two_message_db) = [''a'', ''b'']"
proof -
  have ids: "map ms_id (conversation ''s'' two_message_db) = [''a'', ''b'']" by code_simp
  then have "length (conversation ''s'' two_message_db) = 2" using length_map [of ms_id] by (metis list.size(3,4) One_nat_def Suc_1 add.right_neutral add_Suc_right)
  with ids show ?thesis
    using pages_are_conversation [OF stored_two_messages, of "''s''" 1 0] pages_are_conversation [OF stored_two_messages, of "''s''" 1 1]
    by (simp add: drop_map [symmetric])
qed

section \<open>Recovery and pruning\<close>

definition settle :: "timestamp \<Rightarrow> session_row \<Rightarrow> session_row" where
  "settle now s =
     (if sn_status s \<in> {''running'', ''waiting''} then s\<lparr>sn_status := ''error'', sn_updated_at := now\<rparr>
      else if sn_status s = ''paused'' then s\<lparr>sn_status := ''idle'', sn_updated_at := now\<rparr> else s)"

text \<open>The recovery at the start of the daemon settles every session that was left in the middle of a turn, counts them,
  and changes nothing else; afterwards every session of the three statuses can be claimed for a new turn.\<close>

theorem recover_settles_sessions:
  "recover_stale_sessions now db =
     (length (filter (\<lambda>s. sn_status s \<in> {''running'', ''waiting'', ''paused''}) (sd_sessions db)),
      db\<lparr>sd_sessions := map (settle now) (sd_sessions db)\<rparr>)"
proof -
  let ?crashed = "\<lambda>s :: session_row. sn_status s \<in> {''running'', ''waiting''}" and ?paused = "\<lambda>s :: session_row. sn_status s = ''paused''"
  have rows: "set_where ?paused (\<lambda>s. s\<lparr>sn_status := ''idle'', sn_updated_at := now\<rparr>)
      (set_where ?crashed (\<lambda>s. s\<lparr>sn_status := ''error'', sn_updated_at := now\<rparr>) rs) = map (settle now) rs" for rs
    by (auto simp: set_where_def settle_def)
  have count: "length (filter ?crashed rs) + length (filter ?paused (set_where ?crashed (\<lambda>s. s\<lparr>sn_status := ''error'', sn_updated_at := now\<rparr>) rs)) =
      length (filter (\<lambda>s. sn_status s \<in> {''running'', ''waiting'', ''paused''}) rs)" for rs
    by (induction rs) (auto simp: set_where_def)
  show ?thesis using rows count by (simp add: recover_stale_sessions_def update_sessions_def Let_def)
qed

lemma settled_claimable:
  "sn_status (settle now s) \<notin> {''running'', ''waiting'', ''paused''}"
  by (simp add: settle_def)

text \<open>Pruning removes exactly the idle and failed sessions that were not touched for the given number of days; the
  conversations of all other sessions and the audit of tool calls stay.\<close>

theorem prune_keeps_other_sessions:
  assumes "0 < days"
  shows "sd_sessions (snd (prune_old_sessions now days db)) =
      filter (\<lambda>s. sn_status s \<notin> {''idle'', ''error''} \<or> now - int days * DAY_NANOS \<le> sn_updated_at s) (sd_sessions db)"
    and "stored db \<Longrightarrow> session_exists i (snd (prune_old_sessions now days db)) \<Longrightarrow>
      conversation i (snd (prune_old_sessions now days db)) = conversation i db"
    and "sd_tool_events (snd (prune_old_sessions now days db)) = sd_tool_events db"
proof -
  let ?old = "\<lambda>s :: session_row. sn_status s \<in> {''idle'', ''error''} \<and> sn_updated_at s < now - int days * DAY_NANOS"
  have prune: "prune_old_sessions now days db = delete_sessions ?old db" using assms by (simp add: prune_old_sessions_def)
  show "sd_sessions (snd (prune_old_sessions now days db)) =
      filter (\<lambda>s. sn_status s \<notin> {''idle'', ''error''} \<or> now - int days * DAY_NANOS \<le> sn_updated_at s) (sd_sessions db)"
    unfolding prune by (auto simp: delete_sessions_def delete_where_def Let_def intro!: filter_cong)
  show "sd_tool_events (snd (prune_old_sessions now days db)) = sd_tool_events db"
    unfolding prune by (simp add: delete_sessions_def Let_def)
  assume "stored db" and i: "session_exists i (snd (prune_old_sessions now days db))"
  then have inj: "inj_on sn_id (set (sd_sessions db))" using stored_ok by (simp add: session_db_defs distinct_map)
  have "i \<notin> sn_id ` set (filter ?old (sd_sessions db))"
  proof
    assume "i \<in> sn_id ` set (filter ?old (sd_sessions db))"
    then obtain s where s: "s \<in> set (sd_sessions db)" "?old s" "sn_id s = i" by auto
    from i obtain s' where s': "s' \<in> set (sd_sessions db)" "\<not> ?old s'" "sn_id s' = i"
      unfolding prune by (auto simp: session_exists_def delete_sessions_def delete_where_def Let_def)
    from inj s(1,3) s'(1,3) have "s = s'" by (auto dest: inj_onD)
    with s(2) s'(2) show False by simp
  qed
  then show "conversation i (snd (prune_old_sessions now days db)) = conversation i db"
    unfolding prune conversation_def delete_sessions_def Let_def delete_where_def
    by (auto intro!: arg_cong [where f = "sort_key message_key"] filter_cong)
qed

section \<open>What the operations do not promise\<close>

text \<open>The index is filled when a message is inserted and never updated: an answer that is streamed into its message is
  found by its first piece only.\<close>

theorem index_keeps_first_piece:
  "let db = update_message_content ''a'' ''yes, and more'' ''done'' two_message_db
   in map ms_content (conversation ''s'' db) = [''yes, and more'', ''ok?''] \<and> map ft_content (sd_fts db) = [''ok?'', ''yes'']"
  by code_simp

text \<open>The pages of the audit are cut by identifier but ordered by time: following the cursor can miss events.\<close>

theorem audit_pages_miss_events:
  "let db = snd (create_tool_call_event ''a'' 2 ''s'' ''Bash'' None ''user'' None
        (snd (create_tool_call_event ''b'' 1 ''s'' ''Read'' None ''user'' None empty_session_db)))
   in map tv_id (list_tool_call_events None 1 None db) = [''a''] \<and> list_tool_call_events None 1 (Some ''a'') db = []"
  by code_simp

text \<open>An event stays until the day after the one on which it passes the given age.\<close>

theorem audit_pruned_by_day:
  assumes "0 < days"
  shows "sd_tool_events (snd (prune_tool_call_events now days db)) =
    filter (\<lambda>e. now div DAY_NANOS - int days \<le> tv_created_at e div DAY_NANOS) (sd_tool_events db)"
proof -
  have day: "(now - int days * DAY_NANOS) div DAY_NANOS = now div DAY_NANOS - int days"
    using div_mult_self1 [of DAY_NANOS now "- int days"] by (simp add: DAY_NANOS_def)
  show ?thesis using assms by (simp add: prune_tool_call_events_def day delete_where_def Let_def not_less)
qed

end
