(* ===== verification/Session_Runner.thy ===== *)
theory Session_Runner
  imports Session_Store_Props Worktree_Rpc
begin

text \<open>
  The runners of a session (\<^verbatim>\<open>session/runner.rs\<close>, \<^verbatim>\<open>claude.rs\<close>, \<^verbatim>\<open>codex.rs\<close>, \<^verbatim>\<open>cursor.rs\<close>, \<^verbatim>\<open>stream_guards.rs\<close>,
  \<^verbatim>\<open>events.rs\<close>, \<^verbatim>\<open>storage/event_log.rs\<close>): one turn starts the program of the provider, reads its output line by line into
  messages and tool calls, and settles the status of the session when the program ends. A runner is shared by the table of
  handles and by the turns that run on it, so runners live in a store and are named by their index; a turn is a small
  machine with the steps start, line, end, read error and timeout, and turns are interleaved with the calls of the clients. What a
  process is and prints, the JSON library, SHA-256, the clock and new identifiers are parameters. Signals are those of
  Unix.
\<close>

section \<open>Guards on the output\<close>

definition RATE_LIMIT_MARKERS :: "string list" where
  "RATE_LIMIT_MARKERS = [''rate limit'', ''rate_limit'', ''too many requests'', ''429'']"

definition is_rate_limit_notice :: "string \<Rightarrow> bool" where
  "is_rate_limit_notice line = list_ex (contains (lowercase line)) RATE_LIMIT_MARKERS"

definition would_exceed_cap :: "nat \<Rightarrow> nat \<Rightarrow> nat \<Rightarrow> bool" where
  "would_exceed_cap accumulated_len line_len cap \<longleftrightarrow> cap < accumulated_len + line_len + 1"

definition MAX_ACCUMULATED_BYTES :: nat where
  "MAX_ACCUMULATED_BYTES = 1048576"

section \<open>Tool calls of the provider\<close>

definition contains_any :: "string \<Rightarrow> string list \<Rightarrow> bool" where
  "contains_any s parts = list_ex (contains s) parts"

definition classify_tool_risk :: "string \<Rightarrow> string" where
  "classify_tool_risk tool_name =
     (let n = lowercase tool_name in
      if contains_any n [''bash'', ''execute'', ''run'', ''computer'', ''delete'', ''remove'', ''kill'', ''terminal''] then ''high''
      else if contains_any n [''write'', ''edit'', ''create'', ''patch'', ''overwrite'', ''replace'', ''insert'', ''append''] then ''medium''
      else ''low'')"

datatype arg_validation = ArgsOk | ArgsBlocked string

definition destructive_patterns :: "string list" where
  "destructive_patterns = [''rm -rf /'', ''rm -rf ~'', ''rm -rf $HOME'', ''rm --no-preserve-root'', ''chmod 777'', ''mkfs.'', '':(){:|:&};:'']"

text \<open>The text of the field \<^verbatim>\<open>command\<close>, or of \<^verbatim>\<open>cmd\<close> where there is no field \<^verbatim>\<open>command\<close>.\<close>

definition command_text :: "json \<Rightarrow> string" where
  "command_text input =
     (case (case get_member input ''command'' of Some v \<Rightarrow> Some v | None \<Rightarrow> get_member input ''cmd'') of
        Some (JString s) \<Rightarrow> s | _ \<Rightarrow> [])"

definition outside_home :: "string \<Rightarrow> json \<Rightarrow> string \<Rightarrow> string option" where
  "outside_home home input key =
     (case get_str input key of
        None \<Rightarrow> None
      | Some path \<Rightarrow> if starts_with path ''/'' \<and> home \<noteq> [] \<and> \<not> starts_with path home then Some path else None)"

definition validate_tool_args :: "(string \<Rightarrow> string) \<Rightarrow> string \<Rightarrow> string \<Rightarrow> json \<Rightarrow> arg_validation" where
  "validate_tool_args debug home tool_name input =
     (let is_shell_tool = contains_any (lowercase tool_name) [''bash'', ''execute'', ''run'', ''terminal'', ''command''];
          cmd = command_text input
      in if is_shell_tool \<and> contains_any cmd [''&&'', ''||'', [CHR 0x60], ''$('']
         then ArgsBlocked (''shell command contains injection-prone operator: '' @ debug cmd)
         else case (if is_shell_tool then find (contains cmd) destructive_patterns else None) of
             Some pat \<Rightarrow> ArgsBlocked (''shell command matches known destructive pattern '' @ debug pat)
           | None \<Rightarrow>
               (case List.map_filter (outside_home home input) [''path'', ''file_path'', ''filename'', ''target''] of
                  path # _ \<Rightarrow> ArgsBlocked (''file path '' @ debug path @ '' is outside the home directory'')
                | [] \<Rightarrow> ArgsOk))"

record audit_entry =
  au_timestamp :: timestamp
  au_session_id :: string
  au_agent_id :: "string option"
  au_tool_name :: string
  au_arguments_hash :: string
  au_risk_level :: string
  au_approval_status :: string
  au_duration_ms :: nat

section \<open>State\<close>

datatype content_block = TextBlock string | OtherBlock

datatype claude_event =
    EvAssistant string "content_block list"
  | EvToolUse string string json
  | EvToolResult string json
  | EvResult string "string option" "bool option"
  | EvSystem "string option" "string option"
  | EvUnknown

record runner =
  rn_provider :: string
  rn_session :: string
  rn_repo_path :: string
  rn_cancelled :: bool
  rn_paused :: bool
  rn_child_pid :: nat
  rn_current_child :: "nat option"
  rn_claude_session_id :: "string option"
  rn_previous_response_id :: "string option"

definition new_runner :: "string \<Rightarrow> string \<Rightarrow> string \<Rightarrow> runner" where
  "new_runner provider session_id repo_path =
     \<lparr>rn_provider = provider, rn_session = session_id, rn_repo_path = repo_path, rn_cancelled = False, rn_paused = False,
      rn_child_pid = 0, rn_current_child = None, rn_claude_session_id = None, rn_previous_response_id = None\<rparr>"

text \<open>The local variables of the reading loop.\<close>

record stream_state =
  ss_message_id :: "string option"
  ss_content :: string
  ss_truncated :: bool
  ss_received_result :: bool

definition new_stream :: stream_state where
  "new_stream = \<lparr>ss_message_id = None, ss_content = [], ss_truncated = False, ss_received_result = False\<rparr>"

datatype turn_phase = Spawned | Streaming stream_state | Ended

record turn =
  tu_session :: string
  tu_runner :: nat
  tu_content :: string
  tu_phase :: turn_phase

record session_app =
  sa_db :: session_db
  sa_events :: "(string \<times> json) list"
  sa_runners :: "runner list"
  sa_handles :: "(string \<times> nat) list"
  sa_turns :: "turn list"
  sa_signals :: "(string \<times> nat) list"
  sa_spawns :: "(string \<times> string list \<times> string) list"
  sa_event_log :: "(string \<times> json) list"
  sa_audit_log :: "audit_entry list"
  sa_paths :: "string list"

record runner_env =
  re_now :: timestamp
  re_show_time :: "timestamp \<Rightarrow> string"
  re_message_id :: string
  re_tool_id :: string
  re_parse_event :: "string \<Rightarrow> claude_event option"
  re_parse_json :: "string \<Rightarrow> json option"
  re_to_string :: "json \<Rightarrow> string"
  re_sha256_hex :: "string \<Rightarrow> string"
  re_debug :: "string \<Rightarrow> string"
  re_home :: string
  re_standards :: "string \<Rightarrow> string option"
  re_knowledge :: "string \<Rightarrow> string list"

definition announce :: "string \<Rightarrow> json \<Rightarrow> session_app \<Rightarrow> session_app" where
  "announce name payload a = a\<lparr>sa_events := sa_events a @ [(name, payload)]\<rparr>"

definition announce_status :: "string \<Rightarrow> string \<Rightarrow> session_app \<Rightarrow> session_app" where
  "announce_status session_id status a =
     announce ''session.statusChanged'' (JObject [(''sessionId'', JString session_id), (''status'', JString status)]) a"

text \<open>The status is stored and announced.\<close>

definition settle_status :: "timestamp \<Rightarrow> string \<Rightarrow> string \<Rightarrow> session_app \<Rightarrow> session_app" where
  "settle_status now session_id status a =
     announce_status session_id status (a\<lparr>sa_db := update_session_status now session_id status (sa_db a)\<rparr>)"

definition set_runner :: "nat \<Rightarrow> (runner \<Rightarrow> runner) \<Rightarrow> session_app \<Rightarrow> session_app" where
  "set_runner r f a = (if r < length (sa_runners a) then a\<lparr>sa_runners := (sa_runners a)[r := f (sa_runners a ! r)]\<rparr> else a)"

definition signal :: "string \<Rightarrow> nat \<Rightarrow> session_app \<Rightarrow> session_app" where
  "signal name pid a = a\<lparr>sa_signals := sa_signals a @ [(name, pid)]\<rparr>"

section \<open>Messages of a turn\<close>

definition message_json :: "runner_env \<Rightarrow> message_row \<Rightarrow> json" where
  "message_json env m =
     JObject [(''id'', JString (ms_id m)), (''sessionId'', JString (ms_session_id m)), (''role'', JString (ms_role m)),
       (''content'', JString (ms_content m)), (''status'', JString (ms_status m)),
       (''createdAt'', JString (re_show_time env (ms_created_at m)))]"

definition rewrite_message :: "string \<Rightarrow> string \<Rightarrow> string \<Rightarrow> string \<Rightarrow> session_app \<Rightarrow> session_app" where
  "rewrite_message session_id msg_id content status a =
     announce ''session.messageUpdated''
       (JObject [(''sessionId'', JString session_id), (''messageId'', JString msg_id), (''content'', JString content),
          (''status'', JString status)])
       (a\<lparr>sa_db := update_message_content msg_id content status (sa_db a)\<rparr>)"

definition first_piece ::
  "runner_env \<Rightarrow> string \<Rightarrow> string \<Rightarrow> session_app \<Rightarrow> (string, task_error) result \<times> session_app" where
  "first_piece env session_id content a =
     (case create_message (re_message_id env) (re_now env) session_id ''assistant'' content ''streaming'' (sa_db a) of
        (Err e, db) \<Rightarrow> (Err e, a\<lparr>sa_db := db\<rparr>)
      | (Ok m, db) \<Rightarrow>
          (Ok (ms_id m),
           announce ''session.messageCreated'' (JObject [(''sessionId'', JString session_id), (''message'', message_json env m)])
             (a\<lparr>sa_db := increment_message_count (re_now env) session_id db\<rparr>)))"

text \<open>The answer so far replaces the content of the message of the turn, which is created with the first piece.\<close>

definition stream_piece ::
  "runner_env \<Rightarrow> string \<Rightarrow> string \<Rightarrow> stream_state \<Rightarrow> session_app \<Rightarrow> (stream_state, task_error) result \<times> session_app" where
  "stream_piece env session_id content st a =
     (case ss_message_id st of
        Some mid \<Rightarrow> (Ok (st\<lparr>ss_content := content\<rparr>), rewrite_message session_id mid content ''streaming'' a)
      | None \<Rightarrow>
          (case first_piece env session_id content a of
             (Err e, b) \<Rightarrow> (Err e, b)
           | (Ok mid, b) \<Rightarrow> (Ok (st\<lparr>ss_message_id := Some mid, ss_content := content\<rparr>), b)))"

section \<open>Claude\<close>

definition finish_message :: "string \<Rightarrow> stream_state \<Rightarrow> session_app \<Rightarrow> stream_state \<times> session_app" where
  "finish_message session_id st a =
     (case ss_message_id st of
        None \<Rightarrow> (st, a)
      | Some mid \<Rightarrow> (st\<lparr>ss_message_id := None\<rparr>, rewrite_message session_id mid (ss_content st) ''done'' a))"

definition block_text :: "content_block list \<Rightarrow> string" where
  "block_text blocks = concat (map (\<lambda>b. case b of TextBlock t \<Rightarrow> t | OtherBlock \<Rightarrow> []) blocks)"

definition audit_tool_call :: "runner_env \<Rightarrow> nat \<Rightarrow> string \<Rightarrow> string \<Rightarrow> string \<Rightarrow> string \<Rightarrow> session_app \<Rightarrow> session_app" where
  "audit_tool_call env r session_id name input_str approval_status a =
     a\<lparr>sa_audit_log := sa_audit_log a @
        [\<lparr>au_timestamp = re_now env, au_session_id = session_id, au_agent_id = rn_claude_session_id (sa_runners a ! r),
          au_tool_name = name, au_arguments_hash = re_sha256_hex env input_str, au_risk_level = classify_tool_risk name,
          au_approval_status = approval_status, au_duration_ms = 0\<rparr>]\<rparr>"

definition record_tool_use ::
  "runner_env \<Rightarrow> string \<Rightarrow> nat \<Rightarrow> string \<Rightarrow> json \<Rightarrow> session_app \<Rightarrow> (unit, task_error) result \<times> session_app" where
  "record_tool_use env session_id r name input a =
     (case create_message (re_message_id env) (re_now env) session_id ''tool'' [] ''done'' (sa_db a) of
        (Err e, db) \<Rightarrow> (Err e, a\<lparr>sa_db := db\<rparr>)
      | (Ok tool_msg, db) \<Rightarrow>
          (let input_str = re_to_string env input;
               db1 = increment_message_count (re_now env) session_id db
           in case create_tool_call (re_tool_id env) (re_now env) session_id (ms_id tool_msg) name input_str db1 of
                (Err e, db2) \<Rightarrow> (Err e, a\<lparr>sa_db := db2\<rparr>)
              | (Ok tool_call, db2) \<Rightarrow>
                  (let approval_status = (case validate_tool_args (re_debug env) (re_home env) name input of
                         ArgsOk \<Rightarrow> ''auto-approved'' | ArgsBlocked _ \<Rightarrow> ''blocked'');
                       b = announce ''session.toolCallCreated'' (JObject [(''sessionId'', JString session_id),
                             (''toolCall'', JObject [(''id'', JString (tl_id tool_call)), (''messageId'', JString (ms_id tool_msg)),
                                (''name'', JString name), (''input'', input), (''status'', JString ''running''),
                                (''riskLevel'', JString (classify_tool_risk name)),
                                (''createdAt'', JString (re_show_time env (tl_created_at tool_call)))])])
                             (a\<lparr>sa_db := db2\<rparr>);
                       c = announce ''session.toolCallUpdated'' (JObject [(''sessionId'', JString session_id),
                             (''toolCallId'', JString (tl_id tool_call)), (''status'', JString ''done''),
                             (''output'', JString approval_status)])
                             (b\<lparr>sa_db := complete_tool_call (re_now env) (tl_id tool_call) (Some approval_status) ''done'' (sa_db b)\<rparr>)
                   in (Ok (), audit_tool_call env r session_id name input_str approval_status c))))"

definition claude_handle ::
  "runner_env \<Rightarrow> string \<Rightarrow> nat \<Rightarrow> claude_event \<Rightarrow> stream_state \<Rightarrow> session_app \<Rightarrow> (stream_state, task_error) result \<times> session_app" where
  "claude_handle env session_id r ev st a =
     (case ev of
        EvSystem _ sid \<Rightarrow>
          (Ok st, case sid of Some s \<Rightarrow> set_runner r (\<lambda>rn. rn\<lparr>rn_claude_session_id := Some s\<rparr>) a | None \<Rightarrow> a)
      | EvAssistant _ blocks \<Rightarrow> stream_piece env session_id (block_text blocks) st a
      | EvToolUse _ name input \<Rightarrow>
          (case finish_message session_id st a of
             (st1, b) \<Rightarrow>
               (case record_tool_use env session_id r name input b of (Err e, c) \<Rightarrow> (Err e, c) | (Ok _, c) \<Rightarrow> (Ok st1, c)))
      | EvResult _ _ is_error \<Rightarrow>
          (case finish_message session_id st a of
             (st1, b) \<Rightarrow>
               (Ok (st1\<lparr>ss_received_result := True\<rparr>),
                settle_status (re_now env) session_id (if or_default is_error False then ''error'' else ''idle'') b))
      | EvToolResult _ _ \<Rightarrow> (Ok st, a)
      | EvUnknown \<Rightarrow> (Ok st, a))"

definition claude_line ::
  "runner_env \<Rightarrow> string \<Rightarrow> nat \<Rightarrow> string \<Rightarrow> stream_state \<Rightarrow> session_app \<Rightarrow> (stream_state, task_error) result \<times> session_app" where
  "claude_line env session_id r line st a =
     (let b = (case re_parse_json env line of
            Some raw \<Rightarrow> a\<lparr>sa_event_log := sa_event_log a @ [(session_id, raw)]\<rparr> | None \<Rightarrow> a)
      in case re_parse_event env line of None \<Rightarrow> (Ok st, b) | Some ev \<Rightarrow> claude_handle env session_id r ev st b)"

definition reap :: "nat \<Rightarrow> session_app \<Rightarrow> session_app" where
  "reap r a = set_runner r (\<lambda>rn. rn\<lparr>rn_current_child := None, rn_child_pid := 0\<rparr>) a"

definition is_cancelled :: "nat \<Rightarrow> session_app \<Rightarrow> bool" where
  "is_cancelled r a \<longleftrightarrow> r < length (sa_runners a) \<and> rn_cancelled (sa_runners a ! r)"

definition claude_end :: "runner_env \<Rightarrow> string \<Rightarrow> nat \<Rightarrow> stream_state \<Rightarrow> session_app \<Rightarrow> session_app" where
  "claude_end env session_id r st a =
     (let b = reap r a
      in if \<not> ss_received_result st \<and> \<not> is_cancelled r b then settle_status (re_now env) session_id ''error'' b else b)"

section \<open>Codex and Cursor\<close>

definition stream_line ::
  "runner_env \<Rightarrow> string \<Rightarrow> string \<Rightarrow> stream_state \<Rightarrow> session_app \<Rightarrow> (stream_state, task_error) result \<times> session_app" where
  "stream_line env session_id line st a =
     (let st1 = (if \<not> ss_truncated st \<and> would_exceed_cap (length (ss_content st)) (length line) MAX_ACCUMULATED_BYTES
                 then st\<lparr>ss_content := ss_content st @ [NL, NL] @ ''[output truncated at 1 MB]'', ss_truncated := True\<rparr> else st)
      in if ss_truncated st1 then (Ok st1, a) else stream_piece env session_id (ss_content st1 @ line @ [NL]) st1 a)"

definition codex_end :: "runner_env \<Rightarrow> string \<Rightarrow> nat \<Rightarrow> stream_state \<Rightarrow> session_app \<Rightarrow> session_app" where
  "codex_end env session_id r st a =
     (let b = (case ss_message_id st of
            None \<Rightarrow> a | Some mid \<Rightarrow> rewrite_message session_id mid (trim_end (ss_content st)) ''done'' a);
          c = reap r b
      in if is_cancelled r c then c else settle_status (re_now env) session_id ''idle'' c)"

definition cursor_end :: "runner_env \<Rightarrow> string \<Rightarrow> nat \<Rightarrow> stream_state \<Rightarrow> session_app \<Rightarrow> session_app" where
  "cursor_end env session_id r st a =
     (let b = reap r a;
          c = (case ss_message_id st of None \<Rightarrow> b | Some mid \<Rightarrow> rewrite_message session_id mid (ss_content st) ''done'' b)
      in if is_cancelled r c then c
         else settle_status (re_now env) session_id (if ss_content st = [] then ''error'' else ''idle'') c)"

section \<open>Turns\<close>

definition claude_args :: "runner_env \<Rightarrow> string \<Rightarrow> runner \<Rightarrow> string list" where
  "claude_args env content rn =
     [''--output-format'', ''stream-json'', ''--verbose'', ''--dangerously-skip-permissions'', ''-p'', content] @
     (case rn_claude_session_id rn of
        Some sid \<Rightarrow> [''--resume'', sid]
      | None \<Rightarrow>
          (case re_standards env (rn_repo_path rn) of Some t \<Rightarrow> [''--append-system-prompt'', t] | None \<Rightarrow> []) @
          (case re_knowledge env (rn_repo_path rn) of [] \<Rightarrow> [] | ks \<Rightarrow> [''--append-system-prompt'', join [NL] ks]))"

definition codex_args :: "string \<Rightarrow> runner \<Rightarrow> string list" where
  "codex_args content rn =
     [''--approval-mode'', ''full-auto'', ''-q'', content] @
     (case rn_previous_response_id rn of Some i \<Rightarrow> [''--previous-response-id'', i] | None \<Rightarrow> [])"

definition cursor_args :: "string \<Rightarrow> string list" where
  "cursor_args content = [''--headless'', ''-p'', content]"

definition turn_args :: "runner_env \<Rightarrow> string \<Rightarrow> runner \<Rightarrow> string list" where
  "turn_args env content rn =
     (if rn_provider rn = ''codex'' then codex_args content rn
      else if rn_provider rn = ''cursor'' then cursor_args content else claude_args env content rn)"

definition set_phase :: "nat \<Rightarrow> turn_phase \<Rightarrow> session_app \<Rightarrow> session_app" where
  "set_phase i ph a = a\<lparr>sa_turns := (sa_turns a)[i := (sa_turns a ! i)\<lparr>tu_phase := ph\<rparr>]\<rparr>"

text \<open>The task of \<^verbatim>\<open>send_message\<close> reports an error of the turn.\<close>

definition turn_failed :: "runner_env \<Rightarrow> nat \<Rightarrow> session_app \<Rightarrow> session_app" where
  "turn_failed env i a = settle_status (re_now env) (tu_session (sa_turns a ! i)) ''error'' (set_phase i Ended a)"

text \<open>The first part of \<^verbatim>\<open>run_turn\<close>: the program is started, or cannot be started.\<close>

definition turn_start :: "runner_env \<Rightarrow> nat option \<Rightarrow> nat \<Rightarrow> session_app \<Rightarrow> session_app" where
  "turn_start env spawned i a =
     (let t = sa_turns a ! i; r = tu_runner t;
          b = set_runner r (\<lambda>rn. rn\<lparr>rn_cancelled := False\<rparr>) a
      in case spawned of
           None \<Rightarrow> turn_failed env i b
         | Some pid \<Rightarrow>
             (let rn = sa_runners b ! r;
                  c = set_runner r (\<lambda>rn. rn\<lparr>rn_child_pid := pid, rn_current_child := Some pid\<rparr>)
                        (b\<lparr>sa_spawns := sa_spawns b @ [(rn_provider rn, turn_args env (tu_content t) rn, rn_repo_path rn)]\<rparr>)
              in settle_status (re_now env) (tu_session t) ''running'' (set_phase i (Streaming new_stream) c)))"

definition turn_end :: "runner_env \<Rightarrow> nat \<Rightarrow> session_app \<Rightarrow> session_app" where
  "turn_end env i a =
     (let t = sa_turns a ! i; r = tu_runner t; p = rn_provider (sa_runners a ! r); b = set_phase i Ended a
      in case tu_phase t of
           Streaming st \<Rightarrow>
             (if p = ''codex'' then codex_end env (tu_session t) r st b
              else if p = ''cursor'' then cursor_end env (tu_session t) r st b else claude_end env (tu_session t) r st b)
         | _ \<Rightarrow> a)"

text \<open>One line of output. Claude and Cursor leave the loop if the turn was cancelled; Codex reads on.\<close>

definition turn_line :: "runner_env \<Rightarrow> string \<Rightarrow> nat \<Rightarrow> session_app \<Rightarrow> session_app" where
  "turn_line env line i a =
     (let t = sa_turns a ! i; r = tu_runner t; p = rn_provider (sa_runners a ! r)
      in case tu_phase t of
           Streaming st \<Rightarrow>
             (if p \<noteq> ''codex'' \<and> is_cancelled r a then turn_end env i a
              else case (if p = ''codex'' \<or> p = ''cursor'' then stream_line env (tu_session t) line st a
                         else claude_line env (tu_session t) r line st a) of
                  (Err e, b) \<Rightarrow> turn_failed env i b
                | (Ok st1, b) \<Rightarrow> set_phase i (Streaming st1) b)
         | _ \<Rightarrow> a)"

text \<open>The output cannot be read, for instance because a line is not UTF-8: the turn fails, and the child is neither killed
  nor forgotten.\<close>

definition turn_read_error :: "runner_env \<Rightarrow> nat \<Rightarrow> session_app \<Rightarrow> session_app" where
  "turn_read_error env i a = (case tu_phase (sa_turns a ! i) of Streaming st \<Rightarrow> turn_failed env i a | _ \<Rightarrow> a)"

definition turn_timeout :: "runner_env \<Rightarrow> nat \<Rightarrow> session_app \<Rightarrow> session_app" where
  "turn_timeout env i a =
     turn_failed env i
       (let r = tu_runner (sa_turns a ! i)
        in case rn_current_child (sa_runners a ! r) of
             None \<Rightarrow> a
           | Some pid \<Rightarrow> set_runner r (\<lambda>rn. rn\<lparr>rn_current_child := None\<rparr>) (signal ''SIGKILL'' pid a))"

text \<open>A whole turn of a program that prints the given lines and ends.\<close>

definition run_turn :: "runner_env \<Rightarrow> nat \<Rightarrow> (runner_env \<times> string) list \<Rightarrow> runner_env \<Rightarrow> nat \<Rightarrow> session_app \<Rightarrow> session_app" where
  "run_turn env pid output env' i a =
     turn_end env' i (fold (\<lambda>(e, line). turn_line e line i) output (turn_start env (Some pid) i a))"

section \<open>Signals to a runner\<close>

definition runner_pause :: "nat \<Rightarrow> session_app \<Rightarrow> session_app" where
  "runner_pause r a =
     (let b = set_runner r (\<lambda>rn. rn\<lparr>rn_paused := True\<rparr>) a; pid = rn_child_pid (sa_runners b ! r)
      in if pid \<noteq> 0 then signal ''SIGSTOP'' pid b else b)"

definition runner_resume :: "nat \<Rightarrow> session_app \<Rightarrow> session_app" where
  "runner_resume r a =
     (let b = set_runner r (\<lambda>rn. rn\<lparr>rn_paused := False\<rparr>) a; pid = rn_child_pid (sa_runners b ! r)
      in if pid \<noteq> 0 then signal ''SIGCONT'' pid b else b)"

definition runner_stop :: "nat \<Rightarrow> session_app \<Rightarrow> session_app" where
  "runner_stop r a =
     (let b = set_runner r (\<lambda>rn. rn\<lparr>rn_cancelled := True\<rparr>) a; rn = sa_runners b ! r;
          c = (if rn_child_pid rn \<noteq> 0 \<and> rn_paused rn then signal ''SIGCONT'' (rn_child_pid rn) b else b);
          d = (case rn_current_child rn of None \<Rightarrow> c | Some pid \<Rightarrow> signal ''SIGKILL'' pid c)
      in reap r d)"

text \<open>A line of the error output of Codex or Cursor.\<close>

definition stderr_line :: "string \<Rightarrow> string \<Rightarrow> session_app \<Rightarrow> session_app" where
  "stderr_line session_id line a =
     (if is_rate_limit_notice line
      then announce ''session.statusChanged'' (JObject [(''sessionId'', JString session_id), (''status'', JString ''error''),
             (''reason'', JString ''RATE_LIMITED'')]) a
      else a)"

end
