(* ===== verification/Session_Manager.thy ===== *)
theory Session_Manager
  imports Session_Runner "HOL-Library.AList"
begin

text \<open>
  The session manager (\<^verbatim>\<open>session/mod.rs\<close>), the choice of a provider (\<^verbatim>\<open>session/router.rs\<close>) and the worktree of a session
  (\<^verbatim>\<open>session/worktree.rs\<close>). An operation takes the state and answers with its result and the state after it; sending a
  message adds a turn that has still to start. The outcome of external programs and of directory operations, the
  clock, new identifiers and the text of a database error are parameters of a call.
\<close>

section \<open>Choosing a provider\<close>

datatype provider = Claude | Codex

definition provider_as_str :: "provider \<Rightarrow> string" where
  "provider_as_str p = (case p of Claude \<Rightarrow> ''claude'' | Codex \<Rightarrow> ''codex'')"

definition codex_signals :: "string list" where
  "codex_signals = [''debug'', ''explain'', ''review'', ''why'', ''error'', ''bug'', ''what does'', ''what is'']"

definition claude_signals :: "string list" where
  "claude_signals = [''generate'', ''refactor'', ''implement'', ''build'', ''create'', ''write'', ''add'', ''fix'']"

definition classify_intent :: "string option \<Rightarrow> provider" where
  "classify_intent initial_message =
     (let msg = lowercase (or_default initial_message []);
          codex_score = length (filter (contains msg) codex_signals);
          claude_score = length (filter (contains msg) claude_signals)
      in if claude_score < codex_score then Codex else Claude)"

section \<open>The environment of a call\<close>

record manager_env =
  me_now :: timestamp
  me_id :: string
  me_data_dir :: string
  me_show_time :: "timestamp \<Rightarrow> string"
  me_error :: "task_error \<Rightarrow> string"
  me_cli :: "string \<Rightarrow> string list \<Rightarrow> bool option"
  me_git :: "string list \<Rightarrow> string \<Rightarrow> bool"
  me_mkdir_ok :: bool
  me_rmdir_ok :: bool
  me_print_scopes :: "string list \<Rightarrow> string"
  me_parse_scopes :: "string \<Rightarrow> string list option"

text \<open>\<^verbatim>\<open>check_provider_ready\<close>: the outcome of a program is \<open>None\<close> if it cannot be run, and else whether it succeeded.\<close>

definition check_provider_ready :: "(string \<Rightarrow> string list \<Rightarrow> bool option) \<Rightarrow> string \<Rightarrow> (unit, string) result" where
  "check_provider_ready cli provider =
     (if provider = ''claude'' then
        (case cli ''claude'' [''auth'', ''status''] of
           None \<Rightarrow> Err ''PROVIDER_NOT_AVAILABLE: claude CLI not found - install from claude.ai/download''
         | Some False \<Rightarrow> Err ''PROVIDER_NOT_AVAILABLE: claude is not authenticated - run `claude auth login`''
         | Some True \<Rightarrow> Ok ())
      else if provider = ''codex'' then
        (case cli ''codex'' [''--version''] of
           None \<Rightarrow> Err ''PROVIDER_NOT_AVAILABLE: codex CLI not found - install via: npm install -g @openai/codex''
         | Some _ \<Rightarrow> Ok ())
      else Ok ())"

section \<open>The worktree of a session\<close>

definition session_worktree_path :: "string \<Rightarrow> string \<Rightarrow> string" where
  "session_worktree_path data_dir session_id = path_join (path_join data_dir ''worktrees'') session_id"

definition path_exists :: "string \<Rightarrow> session_app \<Rightarrow> bool" where
  "path_exists p a \<longleftrightarrow> p \<in> set (sa_paths a)"

definition try_create :: "manager_env \<Rightarrow> string \<Rightarrow> string \<Rightarrow> session_app \<Rightarrow> session_app" where
  "try_create env repo_path wt_dir a =
     (if me_mkdir_ok env \<and> me_git env [''worktree'', ''add'', ''--detach'', wt_dir, ''HEAD''] repo_path
      then a\<lparr>sa_paths := List.insert wt_dir (sa_paths a)\<rparr> else a)"

definition try_remove :: "manager_env \<Rightarrow> string \<Rightarrow> string \<Rightarrow> session_app \<Rightarrow> session_app" where
  "try_remove env repo_path wt_dir a =
     (if \<not> path_exists wt_dir a then a
      else if me_git env [''worktree'', ''remove'', ''--force'', wt_dir] repo_path \<or> me_rmdir_ok env
      then a\<lparr>sa_paths := removeAll wt_dir (sa_paths a)\<rparr> else a)"

definition effective_repo_path :: "string \<Rightarrow> string \<Rightarrow> string \<Rightarrow> session_app \<Rightarrow> string" where
  "effective_repo_path data_dir session_id repo_path a =
     (let wt = session_worktree_path data_dir session_id in if path_exists wt a then wt else repo_path)"

section \<open>Views\<close>

record session_view =
  vw_id :: string
  vw_provider :: string
  vw_repo_path :: string
  vw_title :: string
  vw_status :: string
  vw_created_at :: timestamp
  vw_updated_at :: timestamp
  vw_message_count :: int
  vw_permissions :: "string list option"
  vw_routed_provider :: "string option"
  vw_mode :: string
  vw_tier :: string
  vw_model_override :: "string option"

definition row_to_view :: "(string \<Rightarrow> string list option) \<Rightarrow> session_row \<Rightarrow> session_view" where
  "row_to_view parse row =
     \<lparr>vw_id = sn_id row, vw_provider = sn_provider row, vw_repo_path = sn_repo_path row, vw_title = sn_title row,
      vw_status = sn_status row, vw_created_at = sn_created_at row, vw_updated_at = sn_updated_at row,
      vw_message_count = sn_message_count row, vw_permissions = Option.bind (sn_permissions row) parse,
      vw_routed_provider = sn_routed_provider row, vw_mode = sn_mode row, vw_tier = sn_tier row,
      vw_model_override = sn_model_override row\<rparr>"

record message_view =
  mv_id :: string
  mv_session_id :: string
  mv_role :: string
  mv_content :: string
  mv_status :: string
  mv_created_at :: timestamp

definition msg_row_to_view :: "message_row \<Rightarrow> message_view" where
  "msg_row_to_view row =
     \<lparr>mv_id = ms_id row, mv_session_id = ms_session_id row, mv_role = ms_role row, mv_content = ms_content row,
      mv_status = ms_status row, mv_created_at = ms_created_at row\<rparr>"

definition message_view_json :: "(timestamp \<Rightarrow> string) \<Rightarrow> message_view \<Rightarrow> json" where
  "message_view_json show_time v =
     JObject [(''id'', JString (mv_id v)), (''sessionId'', JString (mv_session_id v)), (''role'', JString (mv_role v)),
       (''content'', JString (mv_content v)), (''status'', JString (mv_status v)), (''createdAt'', JString (show_time (mv_created_at v)))]"

text \<open>Optional members are left out where they have no value.\<close>

definition opt_member :: "string \<Rightarrow> json option \<Rightarrow> (string \<times> json) list" where
  "opt_member name v = (case v of Some j \<Rightarrow> [(name, j)] | None \<Rightarrow> [])"

definition session_view_json :: "(timestamp \<Rightarrow> string) \<Rightarrow> session_view \<Rightarrow> json" where
  "session_view_json show_time v = JObject
     ([(''id'', JString (vw_id v)), (''provider'', JString (vw_provider v)), (''repoPath'', JString (vw_repo_path v)),
       (''title'', JString (vw_title v)), (''status'', JString (vw_status v)), (''createdAt'', JString (show_time (vw_created_at v))),
       (''updatedAt'', JString (show_time (vw_updated_at v))), (''messageCount'', JNumber (show_int (vw_message_count v)))] @
      opt_member ''permissions'' (map_option (\<lambda>ps. JArray (map JString ps)) (vw_permissions v)) @
      opt_member ''routedProvider'' (map_option JString (vw_routed_provider v)) @
      [(''mode'', JString (vw_mode v)), (''tier'', JString (vw_tier v))] @
      opt_member ''modelOverride'' (map_option JString (vw_model_override v)))"

section \<open>Creating, listing and deleting sessions\<close>

definition explicit_providers :: "string set" where
  "explicit_providers = {''claude'', ''codex'', ''cursor''}"

definition unknown_provider :: "string \<Rightarrow> string" where
  "unknown_provider provider = ''PROVIDER_NOT_AVAILABLE: unknown provider: '' @ provider"

definition resolve_provider :: "string \<Rightarrow> string option \<Rightarrow> (string \<times> string option, string) result" where
  "resolve_provider provider initial_message =
     (if provider = ''auto'' then
        (let chosen = provider_as_str (classify_intent initial_message) in Ok (chosen, Some chosen))
      else if provider \<in> explicit_providers then Ok (provider, None) else Err (unknown_provider provider))"

definition session_create ::
  "manager_env \<Rightarrow> string \<Rightarrow> string \<Rightarrow> string \<Rightarrow> nat \<Rightarrow> string list option \<Rightarrow> string option \<Rightarrow> session_app \<Rightarrow>
   (session_view, string) result \<times> session_app" where
  "session_create env provider repo_path title max_sessions permissions initial_message a =
     (case resolve_provider provider initial_message of
        Err e \<Rightarrow> (Err e, a)
      | Ok (effective_provider, routed_provider) \<Rightarrow>
          (case check_provider_ready (me_cli env) effective_provider of
             Err e \<Rightarrow> (Err e, a)
           | Ok _ \<Rightarrow>
               if 0 < max_sessions \<and> max_sessions \<le> count_sessions (sa_db a)
               then (Err (''session limit reached ('' @ show_nat max_sessions @ '' max)''), a)
               else
                 (case create_session (me_id env) (me_now env) effective_provider repo_path title
                     (map_option (me_print_scopes env) permissions) (sa_db a) of
                    (Err e, db) \<Rightarrow> (Err (me_error env e), a\<lparr>sa_db := db\<rparr>)
                  | (Ok row, db) \<Rightarrow>
                      (let db1 = (case routed_provider of
                             Some rp \<Rightarrow> update_session_routed_provider (me_now env) (sn_id row) rp db | None \<Rightarrow> db);
                           b = try_create env repo_path (session_worktree_path (me_data_dir env) (sn_id row)) (a\<lparr>sa_db := db1\<rparr>);
                           view = row_to_view (me_parse_scopes env) row;
                           view1 = (if routed_provider \<noteq> None then view\<lparr>vw_routed_provider := routed_provider\<rparr> else view)
                       in (Ok view1, announce_status (vw_id view1) (vw_status view1) b)))))"

definition session_list :: "manager_env \<Rightarrow> session_app \<Rightarrow> session_view list" where
  "session_list env a = map (row_to_view (me_parse_scopes env)) (list_sessions (sa_db a))"

text \<open>The operations on an existing session.\<close>

definition on_session :: "string \<Rightarrow> session_app \<Rightarrow> (session_row \<Rightarrow> ('r, string) result \<times> session_app) \<Rightarrow> ('r, string) result \<times> session_app" where
  "on_session session_id a k =
     (case get_session session_id (sa_db a) of None \<Rightarrow> (Err ''SESSION_NOT_FOUND'', a) | Some row \<Rightarrow> k row)"

definition session_get :: "manager_env \<Rightarrow> string \<Rightarrow> session_app \<Rightarrow> (session_view, string) result" where
  "session_get env session_id a = fst (on_session session_id a (\<lambda>row. (Ok (row_to_view (me_parse_scopes env) row), a)))"

text \<open>The handle is taken out of the table and its runner is stopped.\<close>

definition stop_handle :: "string \<Rightarrow> session_app \<Rightarrow> session_app" where
  "stop_handle session_id a =
     (case map_of (sa_handles a) session_id of
        None \<Rightarrow> a
      | Some r \<Rightarrow> runner_stop r (a\<lparr>sa_handles := AList.delete session_id (sa_handles a)\<rparr>))"

definition session_delete :: "manager_env \<Rightarrow> string \<Rightarrow> session_app \<Rightarrow> (unit, string) result \<times> session_app" where
  "session_delete env session_id a = on_session session_id a (\<lambda>row.
     let b = stop_handle session_id a;
         c = try_remove env (sn_repo_path row) (session_worktree_path (me_data_dir env) session_id) b
     in (Ok (), c\<lparr>sa_db := delete_session session_id (sa_db c)\<rparr>))"

section \<open>Pausing, resuming and cancelling\<close>

definition session_pause :: "manager_env \<Rightarrow> string \<Rightarrow> session_app \<Rightarrow> (unit, string) result \<times> session_app" where
  "session_pause env session_id a = on_session session_id a (\<lambda>_.
     let b = a\<lparr>sa_db := update_session_status (me_now env) session_id ''paused'' (sa_db a)\<rparr>;
         c = (case map_of (sa_handles b) session_id of Some r \<Rightarrow> runner_pause r b | None \<Rightarrow> b)
     in (Ok (), announce_status session_id ''paused'' c))"

definition session_resume :: "manager_env \<Rightarrow> string \<Rightarrow> session_app \<Rightarrow> (unit, string) result \<times> session_app" where
  "session_resume env session_id a = on_session session_id a (\<lambda>session.
     let has_runner = (map_of (sa_handles a) session_id \<noteq> None);
         new_status = (if sn_status session = ''paused'' \<and> has_runner then ''running'' else ''idle'');
         b = a\<lparr>sa_db := update_session_status (me_now env) session_id new_status (sa_db a)\<rparr>;
         c = (case map_of (sa_handles b) session_id of Some r \<Rightarrow> runner_resume r b | None \<Rightarrow> b)
     in (Ok (), announce_status session_id new_status c))"

definition session_cancel :: "manager_env \<Rightarrow> string \<Rightarrow> session_app \<Rightarrow> (unit, string) result \<times> session_app" where
  "session_cancel env session_id a = on_session session_id a (\<lambda>_.
     (Ok (), settle_status (me_now env) session_id ''idle'' (stop_handle session_id a)))"

text \<open>What \<^verbatim>\<open>set_provider\<close> does after its check, with the row it read then. The code awaits the database and the lock of the
  handles in between, so \<open>session_set_provider\<close> is the call that no other call comes between;
  \<open>provider_check_races\<close> shows what happens if one does.\<close>

definition apply_provider :: "manager_env \<Rightarrow> string \<Rightarrow> string \<Rightarrow> session_row \<Rightarrow> session_app \<Rightarrow> (unit, string) result \<times> session_app" where
  "apply_provider env session_id new_provider session a =
     (let b = a\<lparr>sa_handles := AList.delete session_id (sa_handles a),
                sa_db := update_session_routed_provider (me_now env) session_id new_provider (sa_db a)\<rparr>
      in (Ok (), announce ''session.statusChanged'' (JObject [(''sessionId'', JString session_id),
            (''status'', JString (sn_status session)), (''provider'', JString new_provider)]) b))"

definition session_set_provider :: "manager_env \<Rightarrow> string \<Rightarrow> string \<Rightarrow> session_app \<Rightarrow> (unit, string) result \<times> session_app" where
  "session_set_provider env session_id new_provider a =
     (if new_provider \<notin> explicit_providers then (Err (unknown_provider new_provider), a)
      else on_session session_id a (\<lambda>session.
        if sn_status session = ''running''
        then (Err ''PROVIDER_NOT_AVAILABLE: cannot change provider while session is running'', a)
        else apply_provider env session_id new_provider session a))"

section \<open>Messages\<close>

text \<open>The runner of the session, created for its provider on the first turn.\<close>

definition runner_kind :: "string \<Rightarrow> string" where
  "runner_kind provider = (if provider = ''codex'' \<or> provider = ''cursor'' then provider else ''claude'')"

definition get_runner :: "string \<Rightarrow> string \<Rightarrow> string \<Rightarrow> session_app \<Rightarrow> nat \<times> session_app" where
  "get_runner session_id provider path a =
     (case map_of (sa_handles a) session_id of
        Some r \<Rightarrow> (r, a)
      | None \<Rightarrow>
          (let r = length (sa_runners a)
           in (r, a\<lparr>sa_runners := sa_runners a @ [new_runner (runner_kind provider) session_id path],
                    sa_handles := (session_id, r) # sa_handles a\<rparr>)))"

text \<open>The two parts of \<^verbatim>\<open>send_message\<close> behind its first await: the claim, which is one statement of the database, and the
  message, the runner and the turn, with the row that was read at the beginning. \<open>send_message\<close> is the call that no other
  call comes between; \<open>late_claim_refused\<close> shows that the claim decides also if one does.\<close>

definition begin_turn ::
  "manager_env \<Rightarrow> string \<Rightarrow> string \<Rightarrow> session_row \<Rightarrow> session_app \<Rightarrow> (message_view, string) result \<times> session_app" where
  "begin_turn env session_id content session_row a =
     (case create_message_and_increment_count (me_id env) (me_now env) session_id ''user'' content ''done'' (sa_db a) of
        (Err e, db1) \<Rightarrow> (Err (me_error env e), a\<lparr>sa_db := db1\<rparr>)
      | (Ok msg, db1) \<Rightarrow>
          (let view = msg_row_to_view msg;
               b = announce ''session.messageCreated'' (JObject [(''sessionId'', JString session_id),
                     (''message'', message_view_json (me_show_time env) view)]) (a\<lparr>sa_db := db1\<rparr>);
               path = effective_repo_path (me_data_dir env) session_id (sn_repo_path session_row) b;
               provider = or_default (sn_routed_provider session_row) (sn_provider session_row)
           in case get_runner session_id provider path b of
                (r, c) \<Rightarrow>
                  (Ok view, c\<lparr>sa_turns := sa_turns c @
                     [\<lparr>tu_session = session_id, tu_runner = r, tu_content = content, tu_phase = Spawned\<rparr>]\<rparr>)))"

definition claim_and_begin ::
  "manager_env \<Rightarrow> string \<Rightarrow> string \<Rightarrow> session_row \<Rightarrow> session_app \<Rightarrow> (message_view, string) result \<times> session_app" where
  "claim_and_begin env session_id content session_row a =
     (case claim_session_for_run (me_now env) session_id (sa_db a) of
        (False, db) \<Rightarrow> (Err ''SESSION_BUSY'', a\<lparr>sa_db := db\<rparr>)
      | (True, db) \<Rightarrow> begin_turn env session_id content session_row (a\<lparr>sa_db := db\<rparr>))"

definition send_message ::
  "manager_env \<Rightarrow> string \<Rightarrow> string \<Rightarrow> session_app \<Rightarrow> (message_view, string) result \<times> session_app" where
  "send_message env session_id content a = on_session session_id a (\<lambda>session_row.
     if sn_status session_row = ''paused'' then (Err ''SESSION_PAUSED'', a)
     else claim_and_begin env session_id content session_row a)"

definition get_messages ::
  "string \<Rightarrow> int \<Rightarrow> string option \<Rightarrow> session_app \<Rightarrow> (message_view list, string) result" where
  "get_messages session_id limit before a =
     fst (on_session session_id a (\<lambda>_. (Ok (map msg_row_to_view (list_messages session_id limit before (sa_db a))), a)))"

section \<open>Tools\<close>

definition tool_name_to_scope :: "string \<Rightarrow> string" where
  "tool_name_to_scope tool_name =
     (let lower = lowercase tool_name in
      if contains_any lower [''read'', ''glob'', ''grep'', ''fetch'', ''search''] then ''file_read''
      else if contains_any lower [''write'', ''edit'', ''notebook''] then ''file_write''
      else if contains lower ''git'' then ''git''
      else if contains_any lower [''bash'', ''shell'', ''exec'', ''run'', ''command''] then ''shell_exec''
      else ''unknown'')"

definition scopes_permit :: "(string \<Rightarrow> string list option) \<Rightarrow> string option \<Rightarrow> string \<Rightarrow> bool" where
  "scopes_permit parse permissions scope =
     (case permissions of
        None \<Rightarrow> True
      | Some json \<Rightarrow> (let ps = or_default (parse json) [] in ps = [] \<or> scope \<in> set ps))"

definition check_tool_permission :: "(string \<Rightarrow> string list option) \<Rightarrow> string \<Rightarrow> string \<Rightarrow> session_db \<Rightarrow> (unit, string) result" where
  "check_tool_permission parse session_id tool_name db =
     (case get_session session_id db of
        None \<Rightarrow> Err ''SESSION_NOT_FOUND''
      | Some row \<Rightarrow>
          if scopes_permit parse (sn_permissions row) (tool_name_to_scope tool_name) then Ok ()
          else Err (''PROVIDER_NOT_AVAILABLE: tool '' @ quoted tool_name @ '' requires '' @ quoted (tool_name_to_scope tool_name) @
                    '' permission which is not in session scope''))"

definition decide_tool :: "timestamp \<Rightarrow> string \<Rightarrow> string \<Rightarrow> string \<Rightarrow> session_app \<Rightarrow> session_app" where
  "decide_tool now session_id tool_call_id status a =
     announce ''session.toolCallUpdated'' (JObject [(''sessionId'', JString session_id), (''toolCallId'', JString tool_call_id),
         (''status'', JString status)])
       (a\<lparr>sa_db := complete_tool_call now tool_call_id None status (sa_db a)\<rparr>)"

definition approve_tool :: "timestamp \<Rightarrow> string \<Rightarrow> string \<Rightarrow> session_app \<Rightarrow> session_app" where
  "approve_tool now session_id tool_call_id a = decide_tool now session_id tool_call_id ''approved'' a"

definition reject_tool :: "timestamp \<Rightarrow> string \<Rightarrow> string \<Rightarrow> session_app \<Rightarrow> session_app" where
  "reject_tool now session_id tool_call_id a = decide_tool now session_id tool_call_id ''rejected'' a"

section \<open>Shutdown and restart\<close>

definition drain_one :: "timestamp \<Rightarrow> string \<times> nat \<Rightarrow> session_app \<Rightarrow> session_app" where
  "drain_one now h a = (case h of (session_id, r) \<Rightarrow>
     (let b = runner_stop r a in b\<lparr>sa_db := update_session_status now session_id ''idle'' (sa_db b)\<rparr>))"

definition drain :: "timestamp \<Rightarrow> session_app \<Rightarrow> session_app" where
  "drain now a = fold (drain_one now) (sa_handles a) (a\<lparr>sa_handles := []\<rparr>)"

definition active_count :: "session_app \<Rightarrow> nat" where
  "active_count a = length (sa_handles a)"

definition new_session_app :: session_app where
  "new_session_app = \<lparr>sa_db = empty_session_db, sa_events = [], sa_runners = [], sa_handles = [], sa_turns = [], sa_signals = [],
     sa_spawns = [], sa_event_log = [], sa_audit_log = [], sa_paths = []\<rparr>"

text \<open>A new process: the runners and turns of the old one are gone, the tables, logs and directories stay, and stale
  sessions are recovered.\<close>

definition restart_sessions :: "timestamp \<Rightarrow> session_app \<Rightarrow> session_app" where
  "restart_sessions now a =
     a\<lparr>sa_runners := [], sa_handles := [], sa_turns := [], sa_db := snd (recover_stale_sessions now (sa_db a))\<rparr>"

end
