(* ===== verification/Session_Props.thy ===== *)
theory Session_Props
  imports Session_Manager
begin

text \<open>
  Turns and sessions: what a turn and each call do to the status of a session, and that in every calm history of calls
  and turns at most one turn works on a session at a time. A history is calm if nobody resumes a session that is running,
  cancels or deletes a session whose turn has not started yet, or changes the provider under a paused turn; the last
  section shows that each of these exceptions is needed.
\<close>

section \<open>The status of a session\<close>

definition status_of :: "session_db \<Rightarrow> string \<Rightarrow> string option" where
  "status_of db s = map_option sn_status (get_session s db)"

lemma get_session_update:
  assumes "\<And>r. sn_id (f r) = sn_id r"
  shows "get_session s (update_sessions p f now db) =
    map_option (\<lambda>r. if p r then (f r)\<lparr>sn_updated_at := now\<rparr> else r) (get_session s db)"
proof -
  have "keyed_update sn_id (\<lambda>r. (f r)\<lparr>sn_updated_at := now\<rparr>)" by unfold_locales (simp add: assms)
  from keyed_update.select_set [OF this] show ?thesis by (simp add: get_session_def update_sessions_def)
qed

lemma get_session_id: "get_session s db = Some r \<Longrightarrow> sn_id r = s"
  using select_by_Some unfolding get_session_def by fastforce

lemma status_of_update_status:
  "status_of (update_session_status now s st db) u = (if u = s then map_option (\<lambda>_. st) (status_of db u) else status_of db u)"
  by (cases "get_session u db") (auto simp: status_of_def update_session_status_def get_session_update dest: get_session_id)

lemma status_of_keep:
  assumes "\<And>r. sn_id (f r) = sn_id r" and "\<And>r. sn_status (f r) = sn_status r"
  shows "status_of (update_sessions p f now db) u = status_of db u"
  by (cases "get_session u db") (simp_all add: status_of_def get_session_update assms)

lemma status_of_increment [simp]: "status_of (increment_message_count now s db) u = status_of db u"
  unfolding increment_message_count_def by (rule status_of_keep) simp_all

lemma status_of_route [simp]: "status_of (update_session_routed_provider now s p db) u = status_of db u"
  unfolding update_session_routed_provider_def by (rule status_of_keep) simp_all

lemma status_of_sessions: "sd_sessions db' = sd_sessions db \<Longrightarrow> status_of db' u = status_of db u"
  by (simp add: status_of_def get_session_def)

lemma status_of_update_message [simp]: "status_of (update_message_content i c st db) u = status_of db u"
  by (rule status_of_sessions) (simp add: update_message_content_def set_message_def)

lemma status_of_complete_tool_call [simp]: "status_of (complete_tool_call now i out st db) u = status_of db u"
  by (rule status_of_sessions) (simp add: complete_tool_call_def)

lemma status_of_insert_message: "insert_message m db = Ok db' \<Longrightarrow> status_of db' u = status_of db u"
  by (rule status_of_sessions) (auto simp: insert_message_def split: result.splits)

lemma status_of_create_message [simp]: "status_of (snd (create_message i now s role c st db)) u = status_of db u"
  by (auto simp: create_message_def status_of_insert_message split: result.split)

lemma status_of_create_tool_call [simp]: "status_of (snd (create_tool_call i now s m n inp db)) u = status_of db u"
  by (rule status_of_sessions) (auto simp: create_tool_call_def Let_def split: result.split)

lemma status_of_create_counted [simp]:
  "status_of (snd (create_message_and_increment_count i now s role c st db)) u = status_of db u"
  by (auto simp: create_message_and_increment_count_def Let_def status_of_insert_message split: result.split)

lemma claim_iff:
  assumes "session_db_ok db"
  shows "fst (claim_session_for_run now s db) \<longleftrightarrow> status_of db s \<in> {Some ''idle'', Some ''error''}"
proof -
  have "rows_ok sn_id no_check (sd_sessions db)" using assms by (simp add: session_db_defs rows_ok_def no_check_def)
  note count = count_by_key [OF this, of s "\<lambda>r. sn_status r \<in> {''idle'', ''error''}"]
  show ?thesis unfolding claim_session_for_run_def Let_def fst_conv count status_of_def get_session_def
    by (simp split: option.split)
qed

lemma claim_status:
  "status_of (snd (claim_session_for_run now s db)) u =
     (if u = s \<and> status_of db s \<in> {Some ''idle'', Some ''error''} then Some ''running'' else status_of db u)"
  by (cases "get_session u db")
    (auto simp: status_of_def claim_session_for_run_def Let_def get_session_update dest: get_session_id)

lemma claim_db_ok: "session_db_ok db \<Longrightarrow> session_db_ok (snd (claim_session_for_run now s db))"
  by (simp add: claim_session_for_run_def Let_def update_sessions_ok)

section \<open>What the steps leave alone\<close>

text \<open>Of a runner only the provider, the session and the flag of cancellation matter for the status.\<close>

definition flags :: "session_app \<Rightarrow> (string \<times> string \<times> bool) list" where
  "flags a = map (\<lambda>rn. (rn_provider rn, rn_session rn, rn_cancelled rn)) (sa_runners a)"

lemma is_cancelled_flags: "is_cancelled r a \<longleftrightarrow> r < length (flags a) \<and> snd (snd (flags a ! r))"
  by (auto simp: is_cancelled_def flags_def)

lemma flags_set_runner:
  "flags (set_runner r f a) =
     (if r < length (flags a) then (flags a)[r := (\<lambda>rn. (rn_provider rn, rn_session rn, rn_cancelled rn)) (f (sa_runners a ! r))] else flags a)"
  by (simp add: flags_def set_runner_def map_update)

lemma flags_keep:
  assumes "\<And>rn. rn_provider (f rn) = rn_provider rn" "\<And>rn. rn_session (f rn) = rn_session rn" "\<And>rn. rn_cancelled (f rn) = rn_cancelled rn"
  shows "flags (set_runner r f a) = flags a"
proof (cases "r < length (sa_runners a)")
  case True
  then show ?thesis by (intro nth_equalityI) (auto simp: set_runner_def flags_def nth_list_update assms)
qed (simp add: set_runner_def)

lemma set_runner_frame [simp]:
  "sa_db (set_runner r f a) = sa_db a" "sa_handles (set_runner r f a) = sa_handles a" "sa_turns (set_runner r f a) = sa_turns a"
  "length (sa_runners (set_runner r f a)) = length (sa_runners a)"
  by (simp_all add: set_runner_def)

lemma announce_frame [simp]:
  "sa_db (announce n p a) = sa_db a" "sa_handles (announce n p a) = sa_handles a" "sa_turns (announce n p a) = sa_turns a"
  "sa_runners (announce n p a) = sa_runners a" "flags (announce n p a) = flags a"
  by (simp_all add: announce_def flags_def)

lemma signal_frame [simp]:
  "sa_db (signal n p a) = sa_db a" "sa_handles (signal n p a) = sa_handles a" "sa_turns (signal n p a) = sa_turns a"
  "sa_runners (signal n p a) = sa_runners a" "flags (signal n p a) = flags a"
  by (simp_all add: signal_def flags_def)

lemma flags_simps [simp]:
  "flags (a\<lparr>sa_db := db\<rparr>) = flags a" "flags (a\<lparr>sa_handles := hs\<rparr>) = flags a" "flags (a\<lparr>sa_turns := ts\<rparr>) = flags a"
  "flags (a\<lparr>sa_paths := ps\<rparr>) = flags a" "flags (a\<lparr>sa_spawns := sp\<rparr>) = flags a" "flags (a\<lparr>sa_event_log := el\<rparr>) = flags a"
  "flags (a\<lparr>sa_audit_log := al\<rparr>) = flags a"
  by (simp_all add: flags_def)

lemma settle_status_frame [simp]:
  "sa_db (settle_status now s st a) = update_session_status now s st (sa_db a)"
  "sa_handles (settle_status now s st a) = sa_handles a" "sa_turns (settle_status now s st a) = sa_turns a"
  "sa_runners (settle_status now s st a) = sa_runners a" "flags (settle_status now s st a) = flags a"
  by (simp_all add: settle_status_def announce_status_def)

lemma reap_frame [simp]:
  "sa_db (reap r a) = sa_db a" "sa_handles (reap r a) = sa_handles a" "sa_turns (reap r a) = sa_turns a" "flags (reap r a) = flags a"
  by (simp_all add: reap_def flags_keep)

lemma set_phase_frame [simp]:
  "sa_db (set_phase i ph a) = sa_db a" "sa_handles (set_phase i ph a) = sa_handles a" "sa_runners (set_phase i ph a) = sa_runners a"
  "flags (set_phase i ph a) = flags a" "sa_turns (set_phase i ph a) = (sa_turns a)[i := (sa_turns a ! i)\<lparr>tu_phase := ph\<rparr>]"
  by (simp_all add: set_phase_def)

lemma rewrite_message_frame [simp]:
  "sa_handles (rewrite_message s m c st a) = sa_handles a" "sa_turns (rewrite_message s m c st a) = sa_turns a"
  "sa_runners (rewrite_message s m c st a) = sa_runners a" "flags (rewrite_message s m c st a) = flags a"
  "sa_db (rewrite_message s m c st a) = update_message_content m c st (sa_db a)"
  by (simp_all add: rewrite_message_def)

text \<open>Work of a turn on its messages and tool calls: the tables stay in order, no status changes, and neither turns nor
  handles nor flags are touched.\<close>

definition quiet :: "session_app \<Rightarrow> session_app \<Rightarrow> bool" where
  "quiet a b \<longleftrightarrow> (session_db_ok (sa_db a) \<longrightarrow> session_db_ok (sa_db b)) \<and> (\<forall>u. status_of (sa_db b) u = status_of (sa_db a) u) \<and>
     sa_handles b = sa_handles a \<and> sa_turns b = sa_turns a \<and> flags b = flags a"

lemma quiet_itself [simp]: "quiet a a"
  by (simp add: quiet_def)

lemma quiet_then: "quiet a b \<Longrightarrow> quiet b c \<Longrightarrow> quiet a c"
  by (simp add: quiet_def)

lemma quiet_rewrite [simp]: "quiet a (rewrite_message s m c st a)"
  by (simp add: quiet_def update_message_content_ok)

lemma create_message_cases:
  obtains (Err) e db' where "create_message i now s role c st db = (Err e, db')" "session_db_ok db \<longrightarrow> session_db_ok db'"
      "\<forall>u. status_of db' u = status_of db u"
  | (Ok) m db' where "create_message i now s role c st db = (Ok m, db')" "session_db_ok db \<longrightarrow> session_db_ok db'"
      "\<forall>u. status_of db' u = status_of db u"
  using create_message_ok [of db i now s role c st] status_of_create_message [of i now s role c st db]
  by (cases "create_message i now s role c st db"; cases "fst (create_message i now s role c st db)") auto

lemma quiet_first_piece: "quiet a (snd (first_piece env s c a))"
  by (rule create_message_cases [of "re_message_id env" "re_now env" s "''assistant''" c "''streaming''" "sa_db a"])
    (simp_all add: first_piece_def quiet_def increment_message_count_ok)

lemma quiet_stream_piece: "quiet a (snd (stream_piece env s c st a))"
  using quiet_first_piece [of a env s c]
  by (auto simp: stream_piece_def split: option.split prod.split result.split)

lemma quiet_finish: "quiet a (snd (finish_message s st a))"
  by (simp add: finish_message_def split: option.split)

lemma quiet_record_tool_use: "quiet a (snd (record_tool_use env s r n inp a))"
proof (rule create_message_cases [of "re_message_id env" "re_now env" s "''tool''" "[]" "''done''" "sa_db a"])
  fix m db' assume m: "create_message (re_message_id env) (re_now env) s ''tool'' [] ''done'' (sa_db a) = (Ok m, db')"
    "session_db_ok (sa_db a) \<longrightarrow> session_db_ok db'" "\<forall>u. status_of db' u = status_of (sa_db a) u"
  let ?db = "increment_message_count (re_now env) s db'"
  let ?call = "create_tool_call (re_tool_id env) (re_now env) s (ms_id m) n (re_to_string env inp) ?db"
  have "session_db_ok (sa_db a) \<longrightarrow> session_db_ok (snd ?call)" using m(2) by (simp add: create_tool_call_ok increment_message_count_ok)
  moreover have "\<forall>u. status_of (snd ?call) u = status_of (sa_db a) u" using m(3) by simp
  ultimately show ?thesis using m(1)
    by (cases ?call; cases "fst ?call")
      (simp_all add: record_tool_use_def Let_def quiet_def audit_tool_call_def complete_tool_call_ok)
qed (simp add: record_tool_use_def quiet_def)

section \<open>Turns that work on a session\<close>

text \<open>A turn works on its session until it has delivered its result, was cancelled or has ended.\<close>

definition busy_turn :: "(string \<times> string \<times> bool) list \<Rightarrow> turn \<Rightarrow> bool" where
  "busy_turn fl t \<longleftrightarrow>
     (case tu_phase t of
        Spawned \<Rightarrow> True
      | Streaming st \<Rightarrow> \<not> ss_received_result st \<and> \<not> snd (snd (fl ! tu_runner t))
      | Ended \<Rightarrow> False)"

definition busy :: "session_app \<Rightarrow> nat \<Rightarrow> bool" where
  "busy a i \<longleftrightarrow> i < length (sa_turns a) \<and> busy_turn (flags a) (sa_turns a ! i)"

abbreviation turn_session :: "session_app \<Rightarrow> nat \<Rightarrow> string" where
  "turn_session a i \<equiv> tu_session (sa_turns a ! i)"

definition occupied :: "session_app \<Rightarrow> string \<Rightarrow> bool" where
  "occupied a s \<longleftrightarrow> status_of (sa_db a) s \<in> {Some ''running'', Some ''paused''}"

definition handles_inv :: "session_app \<Rightarrow> bool" where
  "handles_inv a \<longleftrightarrow> (\<forall>s r. map_of (sa_handles a) s = Some r \<longrightarrow> r < length (flags a) \<and> snd (flags a ! r) = (s, False))"

definition turns_inv :: "session_app \<Rightarrow> bool" where
  "turns_inv a \<longleftrightarrow> (\<forall>t \<in> set (sa_turns a). tu_runner t < length (flags a) \<and> fst (snd (flags a ! tu_runner t)) = tu_session t \<and>
     (\<forall>st. tu_phase t = Streaming st \<and> fst (flags a ! tu_runner t) \<in> {''codex'', ''cursor''} \<longrightarrow> \<not> ss_received_result st))"

definition busy_inv :: "session_app \<Rightarrow> bool" where
  "busy_inv a \<longleftrightarrow>
     (\<forall>i. busy a i \<longrightarrow> map_of (sa_handles a) (turn_session a i) = Some (tu_runner (sa_turns a ! i)) \<and> occupied a (turn_session a i)) \<and>
     (\<forall>i j. busy a i \<longrightarrow> busy a j \<longrightarrow> turn_session a i = turn_session a j \<longrightarrow> i = j)"

definition turn_inv :: "session_app \<Rightarrow> bool" where
  "turn_inv a \<longleftrightarrow> session_db_ok (sa_db a) \<and> handles_inv a \<and> turns_inv a \<and> busy_inv a"

lemma turn_inv_new: "turn_inv new_session_app"
  by (simp add: turn_inv_def handles_inv_def turns_inv_def busy_inv_def busy_def new_session_app_def empty_session_db_ok)

lemma busy_occupied: "turn_inv a \<Longrightarrow> busy a i \<Longrightarrow> occupied a (turn_session a i)"
  by (simp add: turn_inv_def busy_inv_def)

lemma busy_unique: "turn_inv a \<Longrightarrow> busy a i \<Longrightarrow> busy a j \<Longrightarrow> turn_session a i = turn_session a j \<Longrightarrow> i = j"
  unfolding turn_inv_def busy_inv_def by blast

lemma busy_cong: "sa_turns b = sa_turns a \<Longrightarrow> flags b = flags a \<Longrightarrow> busy b i = busy a i"
  by (simp add: busy_def)

text \<open>A call that touches neither turns nor handles nor flags only has to keep the sessions of busy turns occupied.\<close>

lemma inv_same_turns:
  assumes inv: "turn_inv a" and same: "sa_turns b = sa_turns a" "sa_handles b = sa_handles a" "flags b = flags a"
    and db: "session_db_ok (sa_db b)" and occ: "\<And>i. busy a i \<Longrightarrow> occupied b (turn_session a i)"
  shows "turn_inv b"
proof -
  have bz: "busy b i = busy a i" for i using same by (simp add: busy_def)
  have "handles_inv b" "turns_inv b" using inv same by (simp_all add: turn_inv_def handles_inv_def turns_inv_def)
  moreover have "busy_inv b" unfolding busy_inv_def bz same
    using inv occ busy_unique [OF inv] by (auto simp: turn_inv_def busy_inv_def)
  ultimately show ?thesis using db by (simp add: turn_inv_def)
qed

text \<open>A step of one turn: the status of its session may change only if the turn was busy, and if it stays busy the
  session stays occupied.\<close>

lemma inv_step_turn:
  assumes inv: "turn_inv a" and i: "i < length (sa_turns a)"
    and turns: "sa_turns b = (sa_turns a)[i := (sa_turns a ! i)\<lparr>tu_phase := ph\<rparr>]"
    and same: "sa_handles b = sa_handles a" "flags b = flags a" and db: "session_db_ok (sa_db b)"
    and other: "\<And>u. u \<noteq> turn_session a i \<Longrightarrow> status_of (sa_db b) u = status_of (sa_db a) u"
    and result: "\<And>st. ph = Streaming st \<Longrightarrow> fst (flags a ! tu_runner (sa_turns a ! i)) \<in> {''codex'', ''cursor''} \<Longrightarrow> \<not> ss_received_result st"
    and stays: "busy b i \<Longrightarrow> busy a i \<and> occupied b (turn_session a i)"
    and idle: "\<not> busy a i \<Longrightarrow> status_of (sa_db b) (turn_session a i) = status_of (sa_db a) (turn_session a i)"
  shows "turn_inv b"
proof -
  have sess: "turn_session b j = turn_session a j \<and> tu_runner (sa_turns b ! j) = tu_runner (sa_turns a ! j)" for j
    by (cases "j = i") (simp_all add: turns i)
  have neq: "busy b j = busy a j" if "j \<noteq> i" for j
    using that same by (simp add: busy_def turns)
  have was: "busy a j" if "busy b j" for j using that neq stays by (cases "j = i") auto
  have "occupied b (turn_session a j)" if j: "busy b j" for j
  proof (cases "j = i")
    case False
    have "status_of (sa_db b) (turn_session a j) = status_of (sa_db a) (turn_session a j)"
    proof (cases "turn_session a j = turn_session a i")
      case True
      with busy_unique [OF inv was [OF j], of i] False have "\<not> busy a i" by blast
      with idle True show ?thesis by simp
    qed (rule other)
    with busy_occupied [OF inv was [OF j]] show ?thesis by (simp add: occupied_def)
  qed (use stays j in simp)
  then have "busy_inv b"
    using inv was sess busy_unique [OF inv] unfolding busy_inv_def turn_inv_def same(1) by metis
  moreover have "handles_inv b" using inv same by (simp add: turn_inv_def handles_inv_def)
  moreover have "turns_inv b"
    unfolding turns_inv_def same
  proof
    fix t assume "t \<in> set (sa_turns b)"
    then consider "t \<in> set (sa_turns a)" | "t = (sa_turns a ! i)\<lparr>tu_phase := ph\<rparr>"
      unfolding turns by (meson in_mono insert_iff set_update_subset_insert)
    then show "tu_runner t < length (flags a) \<and> fst (snd (flags a ! tu_runner t)) = tu_session t \<and>
      (\<forall>st. tu_phase t = Streaming st \<and> fst (flags a ! tu_runner t) \<in> {''codex'', ''cursor''} \<longrightarrow> \<not> ss_received_result st)"
      using inv nth_mem [OF i] result unfolding turn_inv_def turns_inv_def by cases auto
  qed
  ultimately show ?thesis using db by (simp add: turn_inv_def)
qed

section \<open>Steps of a turn\<close>

lemma busy_runner:
  assumes "turn_inv a" and "busy a i"
  shows "tu_runner (sa_turns a ! i) < length (flags a) \<and> snd (flags a ! tu_runner (sa_turns a ! i)) = (turn_session a i, False)"
  using assms unfolding turn_inv_def busy_inv_def handles_inv_def by metis

lemma busy_length: "busy a i \<Longrightarrow> i < length (sa_turns a)"
  by (simp add: busy_def)

lemma inv_quiet: "turn_inv a \<Longrightarrow> quiet a b \<Longrightarrow> turn_inv b"
  by (rule inv_same_turns) (auto simp: quiet_def turn_inv_def occupied_def busy_inv_def)

lemma busy_quiet: "quiet a b \<Longrightarrow> busy b i = busy a i"
  by (simp add: quiet_def busy_def)

lemma inv_turn_failed:
  assumes "turn_inv a" and "busy a i"
  shows "turn_inv (turn_failed env i a)"
  using assms
  by (intro inv_step_turn [OF assms(1) busy_length [OF assms(2)], of _ Ended])
    (auto simp: turn_failed_def status_of_update_status update_session_status_ok turn_inv_def busy_def busy_turn_def)

lemma flags_uncancel:
  assumes "turn_inv a" and "busy a i"
  shows "flags (set_runner (tu_runner (sa_turns a ! i)) (\<lambda>rn. rn\<lparr>rn_cancelled := False\<rparr>) a) = flags a"
proof -
  let ?r = "tu_runner (sa_turns a ! i)"
  have r: "?r < length (flags a)" "\<not> rn_cancelled (sa_runners a ! ?r)"
    using busy_runner [OF assms] by (auto simp: flags_def)
  then have "flags a ! ?r = (rn_provider (sa_runners a ! ?r), rn_session (sa_runners a ! ?r), False)"
    by (simp add: flags_def)
  with r show ?thesis by (simp add: flags_set_runner) (metis list_update_id)
qed

lemma inv_turn_start:
  assumes inv: "turn_inv a" and busy: "busy a i" and ph: "tu_phase (sa_turns a ! i) = Spawned"
  shows "turn_inv (turn_start env spawned i a)"
proof -
  let ?t = "sa_turns a ! i"
  let ?b = "set_runner (tu_runner ?t) (\<lambda>rn. rn\<lparr>rn_cancelled := False\<rparr>) a"
  have fl: "flags ?b = flags a" by (rule flags_uncancel [OF inv busy])
  have q: "quiet a ?b" using fl by (simp add: quiet_def)
  show ?thesis
  proof (cases spawned)
    case None
    with inv_turn_failed [OF inv_quiet [OF inv q], of i] busy_quiet [OF q] busy show ?thesis
      by (simp add: turn_start_def Let_def)
  next
    case (Some pid)
    have occ: "\<exists>st. status_of (sa_db a) (turn_session a i) = Some st"
      using busy_occupied [OF inv busy] by (auto simp: occupied_def)
    show ?thesis
      by (rule inv_step_turn [OF inv busy_length [OF busy], of _ "Streaming new_stream"])
        (use inv occ busy fl in \<open>auto simp: Some turn_start_def Let_def flags_keep status_of_update_status occupied_def
           update_session_status_ok turn_inv_def new_stream_def\<close>)
  qed
qed

lemma quiet_stream_line: "quiet a (snd (stream_line env s line st a))"
  by (simp add: stream_line_def Let_def quiet_stream_piece)

lemma stream_piece_result: "fst (stream_piece env s c st a) = Ok st1 \<Longrightarrow> ss_received_result st1 = ss_received_result st"
  by (auto simp: stream_piece_def split: option.splits prod.splits result.splits)

lemma stream_line_result: "fst (stream_line env s line st a) = Ok st1 \<Longrightarrow> ss_received_result st1 = ss_received_result st"
  by (auto simp: stream_line_def Let_def dest!: stream_piece_result split: if_splits)

text \<open>Work that ends with the result of the turn settles the status of its own session only.\<close>

definition settles :: "string \<Rightarrow> session_app \<Rightarrow> session_app \<Rightarrow> bool" where
  "settles s a b \<longleftrightarrow> (session_db_ok (sa_db a) \<longrightarrow> session_db_ok (sa_db b)) \<and> (\<forall>u. u \<noteq> s \<longrightarrow> status_of (sa_db b) u = status_of (sa_db a) u) \<and>
     (status_of (sa_db a) s \<noteq> None \<longrightarrow> status_of (sa_db b) s \<in> {Some ''idle'', Some ''error''}) \<and>
     sa_handles b = sa_handles a \<and> sa_turns b = sa_turns a \<and> flags b = flags a"

lemma settles_status: "quiet a b \<Longrightarrow> st \<in> {''idle'', ''error''} \<Longrightarrow> settles s a (settle_status now s st b)"
  by (auto simp: quiet_def settles_def status_of_update_status update_session_status_ok)

lemma quiet_log: "quiet a (a\<lparr>sa_event_log := el\<rparr>)"
  by (simp add: quiet_def)

lemma quiet_claude_session: "quiet a (set_runner r (\<lambda>rn. rn\<lparr>rn_claude_session_id := x\<rparr>) a)"
  by (simp add: quiet_def flags_keep)

lemma finish_result: "ss_received_result (fst (finish_message s st a)) = ss_received_result st"
  by (simp add: finish_message_def split: option.split)

lemma claude_handle_outcome:
  assumes "\<not> ss_received_result st"
  shows "case claude_handle env s r ev st a of
      (Err e, b) \<Rightarrow> quiet a b
    | (Ok st1, b) \<Rightarrow> if ss_received_result st1 then settles s a b else quiet a b"
proof (cases ev)
  case (EvAssistant role blocks)
  then show ?thesis
    using quiet_stream_piece [of a env s "block_text blocks" st] stream_piece_result [of env s "block_text blocks" st a] assms
    by (auto simp: claude_handle_def split: prod.split result.split)
next
  case (EvToolUse i name input)
  obtain st1 b where fin: "finish_message s st a = (st1, b)" by fastforce
  then have "quiet a b" "\<not> ss_received_result st1"
    using quiet_finish [of a s st] finish_result [of s st a] assms by auto
  moreover have "quiet b (snd (record_tool_use env s r name input b))" by (rule quiet_record_tool_use)
  ultimately show ?thesis using fin quiet_then EvToolUse
    by (cases "record_tool_use env s r name input b") (auto simp: claude_handle_def split: result.split)
next
  case (EvResult x y is_error)
  then show ?thesis using quiet_finish [of a s st]
    by (auto simp: claude_handle_def settles_status split: prod.split)
qed (use assms in \<open>auto simp: claude_handle_def quiet_claude_session split: option.split\<close>)

lemma claude_line_outcome:
  assumes "\<not> ss_received_result st"
  shows "case claude_line env s r line st a of
      (Err e, b) \<Rightarrow> quiet a b
    | (Ok st1, b) \<Rightarrow> if ss_received_result st1 then settles s a b else quiet a b"
proof -
  define b where "b = (case re_parse_json env line of Some raw \<Rightarrow> a\<lparr>sa_event_log := sa_event_log a @ [(s, raw)]\<rparr> | None \<Rightarrow> a)"
  have q: "quiet a b" by (simp add: b_def quiet_log split: option.split)
  have step: "settles s a c" if "settles s b c" for c using that q by (simp add: settles_def quiet_def)
  have line: "claude_line env s r line st a = (case re_parse_event env line of None \<Rightarrow> (Ok st, b) | Some ev \<Rightarrow> claude_handle env s r ev st b)"
    unfolding claude_line_def b_def Let_def ..
  show ?thesis
  proof (cases "re_parse_event env line")
    case (Some ev)
    obtain res c where h: "claude_handle env s r ev st b = (res, c)" by fastforce
    with claude_handle_outcome [OF assms, where env = env and s = s and r = r and ev = ev and a = b] quiet_then [OF q, of c] step [of c]
    show ?thesis by (cases res) (auto simp: line Some split: if_splits)
  qed (use q assms in \<open>simp add: line\<close>)
qed

text \<open>The line in which Claude delivers its result.\<close>

definition result_line :: "runner_env \<Rightarrow> string \<Rightarrow> nat \<Rightarrow> session_app \<Rightarrow> bool" where
  "result_line env line i a \<longleftrightarrow> rn_provider (sa_runners a ! tu_runner (sa_turns a ! i)) \<notin> {''codex'', ''cursor''} \<and>
     (\<exists>subtype text is_error. re_parse_event env line = Some (EvResult subtype text is_error))"

lemma claude_result_line:
  assumes "re_parse_event env line = Some (EvResult subtype txt is_error)"
  shows "\<exists>st1 b. claude_line env s r line st a = (Ok st1, b) \<and> ss_received_result st1"
  using assms by (simp add: claude_line_def claude_handle_def Let_def split: prod.split)

lemma turn_line_run:
  assumes inv: "turn_inv a" and busy: "busy a i" and ph: "tu_phase (sa_turns a ! i) = Streaming st"
  obtains (failed) b where "quiet a b" "turn_line env line i a = turn_failed env i b"
    | (result) st1 b where "settles (turn_session a i) a b" "rn_provider (sa_runners a ! tu_runner (sa_turns a ! i)) \<notin> {''codex'', ''cursor''}"
        "ss_received_result st1" "turn_line env line i a = set_phase i (Streaming st1) b"
    | (more) st1 b where "quiet a b" "\<not> ss_received_result st1" "turn_line env line i a = set_phase i (Streaming st1) b" "\<not> result_line env line i a"
proof -
  let ?t = "sa_turns a ! i"
  let ?r = "tu_runner ?t"
  let ?p = "rn_provider (sa_runners a ! ?r)"
  define out where "out = (if ?p = ''codex'' \<or> ?p = ''cursor'' then stream_line env (tu_session ?t) line st a
                         else claude_line env (tu_session ?t) ?r line st a)"
  obtain res b where out': "out = (res, b)" by fastforce
  have r: "\<not> is_cancelled ?r a" using busy_runner [OF inv busy] by (auto simp: is_cancelled_flags flags_def)
  have open_turn: "\<not> ss_received_result st" using busy ph by (simp add: busy_def busy_turn_def)
  have run: "turn_line env line i a = (case out of (Err e, b) \<Rightarrow> turn_failed env i b | (Ok st1, b) \<Rightarrow> set_phase i (Streaming st1) b)"
    using r ph by (simp add: turn_line_def Let_def out_def)
  have outcome: "case out of (Err e, b) \<Rightarrow> quiet a b | (Ok st1, b) \<Rightarrow>
      if ss_received_result st1 then settles (tu_session ?t) a b \<and> ?p \<notin> {''codex'', ''cursor''} else quiet a b"
    using claude_line_outcome [OF open_turn, where env = env and s = "tu_session ?t" and r = ?r and line = line and a = a]
      quiet_stream_line [of a env "tu_session ?t" line st] stream_line_result [of env "tu_session ?t" line st a] open_turn
    by (auto simp: out_def split: prod.splits result.splits if_splits)
  have got: "ss_received_result st1" if "result_line env line i a" "res = Ok st1" for st1
    using that claude_result_line [of env line _ _ _ "tu_session ?t" ?r st a] out' by (fastforce simp: out_def result_line_def)
  show thesis
  proof (cases res)
    case (Err e)
    with outcome run failed show thesis by (simp add: out')
  next
    case (Ok st1)
    with outcome run got [OF _ Ok] result more show thesis by (cases "ss_received_result st1") (auto simp: out')
  qed
qed

lemma inv_turn_line:
  assumes inv: "turn_inv a" and busy: "busy a i" and ph: "tu_phase (sa_turns a ! i) = Streaming st"
  shows "turn_inv (turn_line env line i a)"
proof -
  let ?r = "tu_runner (sa_turns a ! i)"
  have "fst (flags a ! ?r) = rn_provider (sa_runners a ! ?r)" using busy_runner [OF inv busy] by (auto simp: flags_def)
  note prov = this
  from assms show ?thesis
  proof (cases rule: turn_line_run [where env = env and line = line])
    case (failed b)
    with inv_turn_failed [OF inv_quiet [OF inv]] busy_quiet busy show ?thesis by simp
  next
    case (result st1 b)
    show ?thesis unfolding result(4)
      by (rule inv_step_turn [OF inv busy_length [OF busy], of _ "Streaming st1"])
        (use result inv busy prov in \<open>auto simp: settles_def turn_inv_def busy_def busy_turn_def\<close>)
  next
    case (more st1 b)
    show ?thesis unfolding more(3)
      by (rule inv_step_turn [OF inv busy_length [OF busy], of _ "Streaming st1"])
        (use more inv busy busy_occupied [OF inv busy] in \<open>auto simp: quiet_def turn_inv_def occupied_def\<close>)
  qed
qed

text \<open>At the end of the output the status is settled if the turn was still busy, and else left alone.\<close>

lemma turn_end_run:
  assumes "tu_phase (sa_turns a ! i) = Streaming st"
  shows "\<exists>b. quiet (set_phase i Ended a) b \<and>
    (turn_end env i a = b \<and> (is_cancelled (tu_runner (sa_turns a ! i)) a \<or>
        ss_received_result st \<and> rn_provider (sa_runners a ! tu_runner (sa_turns a ! i)) \<notin> {''codex'', ''cursor''}) \<or>
     (\<exists>st. st \<in> {''idle'', ''error''} \<and> turn_end env i a = settle_status (re_now env) (turn_session a i) st b) \<and>
        \<not> is_cancelled (tu_runner (sa_turns a ! i)) a \<and>
        (ss_received_result st \<longrightarrow> rn_provider (sa_runners a ! tu_runner (sa_turns a ! i)) \<in> {''codex'', ''cursor''}))"
proof -
  let ?t = "sa_turns a ! i" and ?e = "set_phase i Ended a"
  let ?r = "tu_runner ?t"
  let ?p = "rn_provider (sa_runners a ! ?r)"
  have canc: "is_cancelled ?r b = is_cancelled ?r a" if "quiet ?e b" for b
    using that by (simp add: is_cancelled_flags quiet_def)
  let ?reap = "reap ?r ?e"
  have qr: "quiet ?e ?reap" by (simp add: quiet_def)
  let ?cx = "reap ?r (case ss_message_id st of None \<Rightarrow> ?e | Some mid \<Rightarrow> rewrite_message (tu_session ?t) mid (trim_end (ss_content st)) ''done'' ?e)"
  have qx: "quiet ?e ?cx" by (simp add: quiet_def update_message_content_ok split: option.split)
  let ?cu = "case ss_message_id st of None \<Rightarrow> ?reap | Some mid \<Rightarrow> rewrite_message (tu_session ?t) mid (ss_content st) ''done'' ?reap"
  have qu: "quiet ?e ?cu" by (simp add: quiet_def update_message_content_ok split: option.split)
  consider "?p = ''codex''" | "?p = ''cursor''" | "?p \<notin> {''codex'', ''cursor''}" by blast
  then show ?thesis
  proof cases
    case 1
    then have "turn_end env i a = (if is_cancelled ?r ?cx then ?cx else settle_status (re_now env) (tu_session ?t) ''idle'' ?cx)"
      by (simp add: turn_end_def assms Let_def codex_end_def)
    with qx canc [OF qx] 1 show ?thesis by (intro exI [of _ ?cx]) auto
  next
    case 2
    then have "turn_end env i a = (if is_cancelled ?r ?cu then ?cu
        else settle_status (re_now env) (tu_session ?t) (if ss_content st = [] then ''error'' else ''idle'') ?cu)"
      by (simp add: turn_end_def assms Let_def cursor_end_def)
    with qu canc [OF qu] 2 show ?thesis by (intro exI [of _ ?cu]) auto
  next
    case 3
    then have "turn_end env i a = (if \<not> ss_received_result st \<and> \<not> is_cancelled ?r ?reap
        then settle_status (re_now env) (tu_session ?t) ''error'' ?reap else ?reap)"
      by (simp add: turn_end_def assms Let_def claude_end_def)
    with qr canc [OF qr] 3 show ?thesis by (intro exI [of _ ?reap]) auto
  qed
qed

lemma inv_turn_end:
  assumes inv: "turn_inv a" and i: "i < length (sa_turns a)" and ph: "tu_phase (sa_turns a ! i) = Streaming st"
  shows "turn_inv (turn_end env i a)"
proof -
  let ?r = "tu_runner (sa_turns a ! i)"
  have t: "?r < length (flags a)" "fst (flags a ! ?r) \<in> {''codex'', ''cursor''} \<Longrightarrow> \<not> ss_received_result st"
    using inv ph nth_mem [OF i] by (auto simp: turn_inv_def turns_inv_def)
  then have prov: "fst (flags a ! ?r) = rn_provider (sa_runners a ! ?r)" by (simp add: flags_def)
  have bz: "busy a i \<longleftrightarrow> \<not> ss_received_result st \<and> \<not> is_cancelled ?r a"
    using i ph t(1) by (auto simp: busy_def busy_turn_def is_cancelled_flags)
  obtain b where q: "quiet (set_phase i Ended a) b"
    and run: "turn_end env i a = b \<and> \<not> busy a i \<or>
      (\<exists>st. turn_end env i a = settle_status (re_now env) (turn_session a i) st b) \<and> busy a i"
    using turn_end_run [OF ph, of env] t(2) prov unfolding bz by auto
  have ended: "\<not> busy (turn_end env i a) i"
    using q run i by (auto simp: quiet_def busy_def busy_turn_def)
  show ?thesis
    by (rule inv_step_turn [OF inv i, of _ Ended])
      (use q run inv ended in \<open>auto simp: quiet_def turn_inv_def status_of_update_status update_session_status_ok\<close>)
qed

lemma inv_turn_timeout:
  assumes "turn_inv a" and "busy a i"
  shows "turn_inv (turn_timeout env i a)"
proof -
  let ?r = "tu_runner (sa_turns a ! i)"
  let ?b = "case rn_current_child (sa_runners a ! ?r) of None \<Rightarrow> a
    | Some pid \<Rightarrow> set_runner ?r (\<lambda>rn. rn\<lparr>rn_current_child := None\<rparr>) (signal ''SIGKILL'' pid a)"
  have q: "quiet a ?b" by (simp add: quiet_def flags_keep split: option.split)
  from inv_turn_failed [OF inv_quiet [OF assms(1) q], of i env] busy_quiet [OF q] assms(2) show ?thesis
    by (simp only: turn_timeout_def Let_def simp_thms)
qed

section \<open>Calls\<close>

lemma runner_signal_frame [simp]:
  "quiet a (runner_pause r a)" "quiet a (runner_resume r a)"
  by (simp_all add: quiet_def runner_pause_def runner_resume_def Let_def flags_keep)

lemma runner_stop_frame [simp]:
  "sa_db (runner_stop r a) = sa_db a" "sa_handles (runner_stop r a) = sa_handles a" "sa_turns (runner_stop r a) = sa_turns a"
  by (simp_all add: runner_stop_def Let_def split: option.split)

lemma flags_stop: "flags (runner_stop r a) = flags (set_runner r (\<lambda>rn. rn\<lparr>rn_cancelled := True\<rparr>) a)"
  by (simp add: runner_stop_def Let_def split: option.split)

lemma on_session_inv:
  assumes "turn_inv a" and "\<And>row. get_session s (sa_db a) = Some row \<Longrightarrow> turn_inv (snd (k row))"
  shows "turn_inv (snd (on_session s a k))"
  using assms by (simp add: on_session_def split: option.split)

lemma status_session: "get_session s db = Some row \<Longrightarrow> status_of db s = Some (sn_status row)"
  by (simp add: status_of_def)

text \<open>Setting the status of one session and signalling a runner.\<close>

lemma inv_set_status:
  assumes inv: "turn_inv a" and q: "quiet (a\<lparr>sa_db := update_session_status now s st (sa_db a)\<rparr>) b"
    and st: "\<And>i. busy a i \<Longrightarrow> turn_session a i = s \<Longrightarrow> st \<in> {''running'', ''paused''}"
  shows "turn_inv b"
proof (rule inv_same_turns [OF inv])
  fix i assume i: "busy a i"
  from busy_occupied [OF inv i] have "\<exists>x. status_of (sa_db a) (turn_session a i) = Some x" by (auto simp: occupied_def)
  with busy_occupied [OF inv i] st [OF i] q show "occupied b (turn_session a i)"
    by (auto simp: quiet_def occupied_def status_of_update_status)
qed (use q inv in \<open>auto simp: quiet_def turn_inv_def update_session_status_ok\<close>)

lemma inv_pause:
  assumes "turn_inv a"
  shows "turn_inv (snd (session_pause env s a))"
  unfolding session_pause_def
proof (rule on_session_inv [OF assms])
  let ?b = "a\<lparr>sa_db := update_session_status (me_now env) s ''paused'' (sa_db a)\<rparr>"
  have "quiet ?b (announce_status s ''paused'' (case map_of (sa_handles ?b) s of Some r \<Rightarrow> runner_pause r ?b | None \<Rightarrow> ?b))"
    by (rule quiet_then [where b = "case map_of (sa_handles ?b) s of Some r \<Rightarrow> runner_pause r ?b | None \<Rightarrow> ?b"])
      (simp_all add: announce_status_def quiet_def [of _ "announce _ _ _"] split: option.split)
  from inv_set_status [OF assms this] show "turn_inv (snd (let b = ?b; c = (case map_of (sa_handles b) s of Some r \<Rightarrow> runner_pause r b | None \<Rightarrow> b)
      in (Ok (), announce_status s ''paused'' c)))"
    by (simp only: Let_def snd_conv) simp
qed

lemma inv_resume:
  assumes inv: "turn_inv a" and st: "status_of (sa_db a) s \<noteq> Some ''running''"
  shows "turn_inv (snd (session_resume env s a))"
  unfolding session_resume_def
proof (rule on_session_inv [OF inv])
  fix row assume row: "get_session s (sa_db a) = Some row"
  let ?st = "if sn_status row = ''paused'' \<and> map_of (sa_handles a) s \<noteq> None then ''running'' else ''idle''"
  let ?b = "a\<lparr>sa_db := update_session_status (me_now env) s ?st (sa_db a)\<rparr>"
  have q: "quiet ?b (announce_status s ?st (case map_of (sa_handles ?b) s of Some r \<Rightarrow> runner_resume r ?b | None \<Rightarrow> ?b))"
    by (rule quiet_then [where b = "case map_of (sa_handles ?b) s of Some r \<Rightarrow> runner_resume r ?b | None \<Rightarrow> ?b"])
      (simp_all add: announce_status_def quiet_def [of _ "announce _ _ _"] split: option.split)
  have "?st \<in> {''running'', ''paused''}" if i: "busy a i" "turn_session a i = s" for i
  proof -
    have "sn_status row = ''paused''" using busy_occupied [OF inv i(1)] st status_session [OF row] i(2) by (auto simp: occupied_def)
    moreover have "map_of (sa_handles a) s \<noteq> None" using inv i by (auto simp: turn_inv_def busy_inv_def)
    ultimately show ?thesis by simp
  qed
  from inv_set_status [OF inv q this]
  show "turn_inv (snd (let has_runner = (map_of (sa_handles a) s \<noteq> None);
         new_status = (if sn_status row = ''paused'' \<and> has_runner then ''running'' else ''idle'');
         b = a\<lparr>sa_db := update_session_status (me_now env) s new_status (sa_db a)\<rparr>;
         c = (case map_of (sa_handles b) s of Some r \<Rightarrow> runner_resume r b | None \<Rightarrow> b)
     in (Ok (), announce_status s new_status c)))"
    by (simp only: Let_def snd_conv)
qed

text \<open>Stopping a session whose turns have started: afterwards no turn of the session is busy.\<close>

definition none_spawned :: "string \<Rightarrow> session_app \<Rightarrow> bool" where
  "none_spawned s a \<longleftrightarrow> (\<forall>t \<in> set (sa_turns a). tu_session t = s \<longrightarrow> tu_phase t \<noteq> Spawned)"

lemma map_of_delete: "map_of (AList.delete s hs) u = (if u = s then None else map_of hs u)"
  by (simp add: AList.delete_conv)

lemma stop_handle_frame [simp]:
  "sa_db (stop_handle s a) = sa_db a" "sa_turns (stop_handle s a) = sa_turns a"
  by (simp_all add: stop_handle_def split: option.split)

lemma stop_handle_handles: "map_of (sa_handles (stop_handle s a)) u = (if u = s then None else map_of (sa_handles a) u)"
  by (simp add: stop_handle_def map_of_delete split: option.split)

lemma stop_handle_flags:
  assumes "turn_inv a"
  shows "length (flags (stop_handle s a)) = length (flags a) \<and>
    (\<forall>r < length (flags a). fst (flags (stop_handle s a) ! r) = fst (flags a ! r) \<and>
       fst (snd (flags (stop_handle s a) ! r)) = fst (snd (flags a ! r)) \<and>
       snd (snd (flags (stop_handle s a) ! r)) = (snd (snd (flags a ! r)) \<or> map_of (sa_handles a) s = Some r))"
proof (cases "map_of (sa_handles a) s")
  case (Some r)
  with assms have "r < length (flags a)" by (simp add: turn_inv_def handles_inv_def)
  with Some show ?thesis by (auto simp: stop_handle_def flags_stop flags_set_runner nth_list_update) (auto simp: flags_def)
qed (simp add: stop_handle_def)

lemma inv_stop_handle:
  assumes inv: "turn_inv a" and sp: "none_spawned s a"
  shows "turn_inv (stop_handle s a) \<and> (\<forall>i. busy (stop_handle s a) i \<longrightarrow> busy a i \<and> turn_session a i \<noteq> s)"
proof -
  let ?b = "stop_handle s a"
  note fl = stop_handle_flags [OF inv, of s]
  have runner: "tu_runner (sa_turns a ! i) < length (flags a)" if "i < length (sa_turns a)" for i
    using inv nth_mem [OF that] by (simp add: turn_inv_def turns_inv_def)
  have was: "busy a i" if "busy ?b i" for i
    using that runner [of i] fl by (auto simp: busy_def busy_turn_def split: turn_phase.splits)
  have gone: "turn_session a i \<noteq> s" if b: "busy ?b i" for i
  proof
    assume s: "turn_session a i = s"
    have "map_of (sa_handles a) s = Some (tu_runner (sa_turns a ! i))" using inv was [OF b] s by (auto simp: turn_inv_def busy_inv_def)
    moreover have "tu_phase (sa_turns a ! i) \<noteq> Spawned" using sp s nth_mem [OF busy_length [OF b]] by (simp add: none_spawned_def)
    ultimately show False using b runner [of i] fl by (auto simp: busy_def busy_turn_def split: turn_phase.splits)
  qed
  have "handles_inv ?b" unfolding handles_inv_def
  proof (intro allI impI)
    fix u r assume u: "map_of (sa_handles ?b) u = Some r"
    then have h: "u \<noteq> s" "map_of (sa_handles a) u = Some r" by (auto simp: stop_handle_handles split: if_splits)
    then have r: "r < length (flags a)" "snd (flags a ! r) = (u, False)" using inv by (auto simp: turn_inv_def handles_inv_def)
    moreover have "map_of (sa_handles a) s \<noteq> Some r" using inv h(1) r unfolding turn_inv_def handles_inv_def by force
    ultimately show "r < length (flags ?b) \<and> snd (flags ?b ! r) = (u, False)" using fl by (auto intro: prod_eqI)
  qed
  moreover have "turns_inv ?b" using inv fl by (auto simp: turn_inv_def turns_inv_def)
  moreover have "busy_inv ?b" unfolding busy_inv_def
    using inv was gone busy_unique [OF inv] by (auto simp: turn_inv_def busy_inv_def stop_handle_handles occupied_def)
  ultimately show ?thesis using inv was gone by (simp add: turn_inv_def)
qed

lemma inv_cancel:
  assumes inv: "turn_inv a" and "none_spawned s a"
  shows "turn_inv (snd (session_cancel env s a))"
  unfolding session_cancel_def
proof (rule on_session_inv [OF inv], unfold snd_conv)
  let ?b = "stop_handle s a"
  have b: "turn_inv ?b" "\<And>i. busy ?b i \<Longrightarrow> turn_session ?b i \<noteq> s" using inv_stop_handle [OF assms] by auto
  show "turn_inv (settle_status (me_now env) s ''idle'' ?b)"
    by (rule inv_set_status [OF b(1), of "me_now env" s "''idle''"]) (use b(2) in \<open>auto simp: quiet_def update_session_status_ok\<close>)
qed

lemma status_of_delete: "u \<noteq> s \<Longrightarrow> status_of (delete_session s db) u = status_of db u"
proof -
  assume u: "u \<noteq> s"
  have "find (\<lambda>r. sn_id r = u) (filter (\<lambda>r. sn_id r \<noteq> s) rs) = find (\<lambda>r. sn_id r = u) rs" for rs :: "session_row list"
    using u by (induction rs) auto
  then show ?thesis by (simp add: status_of_def get_session_def select_by_def delete_session_def delete_sessions_def Let_def delete_where_def)
qed

lemma inv_delete:
  assumes inv: "turn_inv a" and "none_spawned s a"
  shows "turn_inv (snd (session_delete env s a))"
  unfolding session_delete_def
proof (rule on_session_inv [OF inv])
  fix row
  let ?b = "stop_handle s a"
  let ?c = "try_remove env (sn_repo_path row) (session_worktree_path (me_data_dir env) s) ?b"
  have b: "turn_inv ?b" "\<And>i. busy ?b i \<Longrightarrow> turn_session ?b i \<noteq> s" using inv_stop_handle [OF assms] by auto
  have c: "sa_turns ?c = sa_turns ?b" "sa_handles ?c = sa_handles ?b" "flags ?c = flags ?b" "sa_db ?c = sa_db ?b"
    by (simp_all add: try_remove_def)
  have "turn_inv (?c\<lparr>sa_db := delete_session s (sa_db ?c)\<rparr>)"
    by (rule inv_same_turns [OF b(1)])
      (use b c busy_occupied [OF b(1)] in \<open>auto simp: turn_inv_def delete_session_def delete_sessions_ok occupied_def
         status_of_delete [unfolded delete_session_def]\<close>)
  then show "turn_inv (snd (let b = ?b; c = try_remove env (sn_repo_path row) (session_worktree_path (me_data_dir env) s) b
     in (Ok (), c\<lparr>sa_db := delete_session s (sa_db c)\<rparr>)))" by (simp add: Let_def)
qed

lemma inv_set_provider:
  assumes inv: "turn_inv a" and free: "\<And>i. busy a i \<Longrightarrow> turn_session a i \<noteq> s"
  shows "turn_inv (snd (session_set_provider env s p a))"
proof -
  let ?b = "a\<lparr>sa_handles := AList.delete s (sa_handles a), sa_db := update_session_routed_provider (me_now env) s p (sa_db a)\<rparr>"
  have bz: "busy ?b i = busy a i" for i by (simp add: busy_def)
  have "handles_inv ?b" "turns_inv ?b" using inv by (auto simp: turn_inv_def handles_inv_def turns_inv_def map_of_delete)
  moreover have "busy_inv ?b" unfolding busy_inv_def bz
    using inv free busy_unique [OF inv] by (auto simp: turn_inv_def busy_inv_def map_of_delete occupied_def)
  moreover have "session_db_ok (sa_db ?b)"
    using inv by (simp add: turn_inv_def update_session_routed_provider_def update_sessions_ok)
  ultimately have b: "turn_inv ?b" by (simp add: turn_inv_def)
  have ann: "turn_inv (announce n j ?b)" for n j by (rule inv_quiet [OF b]) (simp add: quiet_def)
  show ?thesis
    using inv ann unfolding session_set_provider_def apply_provider_def on_session_def Let_def by (simp split: option.split)
qed

lemma create_session_status:
  assumes "session_db_ok db" and "status_of db u \<noteq> None"
  shows "status_of (snd (create_session i now p repo title perms db)) u = status_of db u"
  using assms by (auto simp: create_session_def Let_def status_of_def get_session_def insert_row_Ok_no_check select_by_append
      split: result.split option.split)

lemma inv_create:
  assumes inv: "turn_inv a"
  shows "turn_inv (snd (session_create env provider repo title limit perms initial a))"
proof -
  have step: "turn_inv b" if b: "sa_turns b = sa_turns a" "sa_handles b = sa_handles a" "flags b = flags a"
    "\<exists>p perms'. (\<forall>u. status_of (sa_db b) u = status_of (snd (create_session (me_id env) (me_now env) p repo title perms' (sa_db a))) u) \<and>
       session_db_ok (sa_db b)" for b
  proof (rule inv_same_turns [OF inv b(1-3)])
    fix i assume i: "busy a i"
    then have "status_of (sa_db a) (turn_session a i) \<noteq> None" using busy_occupied [OF inv i] by (auto simp: occupied_def)
    with b(4) create_session_status inv busy_occupied [OF inv i] show "occupied b (turn_session a i)"
      by (fastforce simp: occupied_def turn_inv_def)
  qed (use b(4) in blast)
  have db: "session_db_ok (sa_db a)" using inv by (simp add: turn_inv_def)
  show ?thesis
  proof (cases "resolve_provider provider initial")
    case (Ok r)
    obtain p rp where r: "r = (p, rp)" by fastforce
    let ?perms = "map_option (me_print_scopes env) perms"
    let ?cs = "create_session (me_id env) (me_now env) p repo title ?perms (sa_db a)"
    obtain res db' where cs: "?cs = (res, db')" by fastforce
    then have db': "session_db_ok db'" using create_session_ok [OF db] by (metis snd_conv)
    have route: "session_db_ok (update_session_routed_provider now j rp' db')" for now j rp'
      using db' by (simp add: update_session_routed_provider_def update_sessions_ok)
    show ?thesis
      using inv cs db' route
      by (auto simp: session_create_def Ok r Let_def announce_status_def try_create_def intro!: step exI [of _ p] exI [of _ ?perms]
          split: result.split option.split)
  qed (use inv in \<open>simp add: session_create_def\<close>)
qed

lemma inv_get_runner:
  assumes inv: "turn_inv a" and free: "\<And>i. busy a i \<Longrightarrow> turn_session a i \<noteq> s" and c: "get_runner s p path a = (r, c)"
  shows "turn_inv c \<and> sa_db c = sa_db a \<and> sa_turns c = sa_turns a \<and> map_of (sa_handles c) s = Some r \<and> (\<forall>i. busy c i = busy a i)"
proof (cases "map_of (sa_handles a) s")
  case None
  then have r: "r = length (flags a)" and fl: "flags c = flags a @ [(runner_kind p, s, False)]"
    and h: "sa_handles c = (s, r) # sa_handles a" and same: "sa_db c = sa_db a" "sa_turns c = sa_turns a"
    using c by (auto simp: get_runner_def Let_def flags_def new_runner_def)
  have "busy c i = busy a i" for i
    using inv fl same by (auto simp: turn_inv_def turns_inv_def busy_def busy_turn_def nth_append split: turn_phase.split)
  moreover have "turns_inv c" unfolding turns_inv_def same fl
    using inv by (auto simp: turn_inv_def turns_inv_def nth_append)
  moreover have "handles_inv c" unfolding handles_inv_def h fl
    using inv r by (auto simp: turn_inv_def handles_inv_def nth_append intro: less_SucI)
  ultimately show ?thesis
    using inv free busy_unique [OF inv] same h by (auto simp: turn_inv_def busy_inv_def occupied_def)
next
  case (Some r')
  with c inv show ?thesis by (auto simp: get_runner_def)
qed

lemma inv_append_turn:
  assumes inv: "turn_inv c" and h: "map_of (sa_handles c) s = Some r" and free: "\<And>i. busy c i \<Longrightarrow> turn_session c i \<noteq> s"
    and occ: "occupied c s"
  shows "turn_inv (c\<lparr>sa_turns := sa_turns c @ [\<lparr>tu_session = s, tu_runner = r, tu_content = content, tu_phase = Spawned\<rparr>]\<rparr>)"
proof -
  let ?t = "\<lparr>tu_session = s, tu_runner = r, tu_content = content, tu_phase = Spawned\<rparr>"
  let ?d = "c\<lparr>sa_turns := sa_turns c @ [?t]\<rparr>"
  let ?n = "length (sa_turns c)"
  have r: "r < length (flags c)" "snd (flags c ! r) = (s, False)" using inv h by (auto simp: turn_inv_def handles_inv_def)
  have bz: "busy ?d i \<longleftrightarrow> i = ?n \<or> busy c i" for i
    by (auto simp: busy_def busy_turn_def nth_append)
  have sess: "sa_turns ?d ! i = (if i = ?n then ?t else sa_turns c ! i)" if "busy ?d i" for i
    using that by (auto simp: busy_def nth_append)
  have "handles_inv ?d" using inv by (simp add: turn_inv_def handles_inv_def)
  moreover have "turns_inv ?d" using inv r by (auto simp: turn_inv_def turns_inv_def)
  moreover have "busy_inv ?d"
    unfolding busy_inv_def
  proof (intro conjI allI impI)
    fix i assume i: "busy ?d i"
    show "map_of (sa_handles ?d) (turn_session ?d i) = Some (tu_runner (sa_turns ?d ! i))" "occupied ?d (turn_session ?d i)"
      using inv h occ i sess [OF i] bz [of i] by (auto simp: turn_inv_def busy_inv_def occupied_def split: if_splits)
    fix j assume j: "busy ?d j" and "turn_session ?d i = turn_session ?d j"
    then show "i = j"
      using sess [OF i] sess [OF j] i j bz [of i] bz [of j] free busy_unique [OF inv, of i j] by (auto split: if_splits)
  qed
  ultimately show ?thesis using inv by (simp add: turn_inv_def)
qed

lemma inv_claim_and_begin:
  assumes inv: "turn_inv a"
  shows "turn_inv (snd (claim_and_begin env s content row a))"
proof -
  have db: "session_db_ok (sa_db a)" using inv by (simp add: turn_inv_def)
  obtain ok db1 where claim: "claim_session_for_run (me_now env) s (sa_db a) = (ok, db1)" by fastforce
  have ok: "ok \<longleftrightarrow> status_of (sa_db a) s \<in> {Some ''idle'', Some ''error''}" "session_db_ok db1"
    using claim_iff [OF db, of "me_now env" s] claim_db_ok [OF db, of "me_now env" s] claim by auto
  have st: "status_of db1 u = (if u = s \<and> ok then Some ''running'' else status_of (sa_db a) u)" for u
    using claim_status [of "me_now env" s "sa_db a" u] claim ok by simp
  let ?cm = "create_message_and_increment_count (me_id env) (me_now env) s ''user'' content ''done'' db1"
  obtain res db2 where cm: "?cm = (res, db2)" by fastforce
  have db2: "session_db_ok db2" "\<And>u. status_of db2 u = status_of db1 u"
    using create_counted_ok [OF ok(2)] status_of_create_counted [of _ _ _ _ _ _ db1] cm by (metis snd_conv)+
  have free: "turn_session a i \<noteq> s" if "busy a i" ok for i
    using busy_occupied [OF inv that(1)] that(2) ok(1) by (auto simp: occupied_def)
  have keep: "turn_inv b" if b: "sa_turns b = sa_turns a" "sa_handles b = sa_handles a" "flags b = flags a" "session_db_ok (sa_db b)"
    "\<And>u. status_of (sa_db b) u = status_of db1 u" for b
    by (rule inv_same_turns [OF inv b(1-4)]) (use b(5) st free busy_occupied [OF inv] in \<open>auto simp: occupied_def\<close>)
  have busy_claim: "turn_inv (a\<lparr>sa_db := db1\<rparr>)" "turn_inv (a\<lparr>sa_db := db2\<rparr>)" using keep ok(2) db2 by simp_all
  have spawn: "turn_inv (d\<lparr>sa_turns := sa_turns d @ [\<lparr>tu_session = s, tu_runner = r, tu_content = content, tu_phase = Spawned\<rparr>]\<rparr>)"
    if "ok" and d: "get_runner s p path (announce n j (a\<lparr>sa_db := db2\<rparr>)) = (r, d)" for p path n j r d
  proof -
    let ?b = "announce n j (a\<lparr>sa_db := db2\<rparr>)"
    have b: "turn_inv ?b" by (rule keep) (use db2 in simp_all)
    have bz: "busy ?b i = busy a i" for i by (simp add: busy_def)
    have fb: "turn_session ?b i \<noteq> s" if "busy ?b i" for i using that free \<open>ok\<close> bz by auto
    note g = inv_get_runner [OF b fb d]
    show ?thesis
      by (rule inv_append_turn) (use g fb st db2 \<open>ok\<close> in \<open>auto simp: occupied_def\<close>)
  qed
  show ?thesis
  proof (cases ok)
    case True
    then show ?thesis using inv claim cm busy_claim spawn by (cases res) (auto simp: claim_and_begin_def begin_turn_def Let_def split: prod.split)
  qed (use inv claim busy_claim in \<open>simp add: claim_and_begin_def\<close>)
qed

lemma inv_send: "turn_inv a \<Longrightarrow> turn_inv (snd (send_message env s content a))"
  unfolding send_message_def by (rule on_session_inv) (simp_all add: inv_claim_and_begin)

section \<open>Calm histories\<close>

text \<open>The states reached by calls and steps of turns. Other steps may come between the first reading of the session by
  \<^verbatim>\<open>send_message\<close> and its claim (a late send, with the row read earlier); the other calls are single steps. Besides the exceptions for resuming, cancelling, deleting and
  changing the provider, the programs behave: a program that has delivered its result or was killed only ends. Every
  other operation of the daemon may do anything to the tables but change the status of a session a turn works on.\<close>

inductive calm :: "session_app \<Rightarrow> bool" where
  calm_new: "calm new_session_app"
| calm_create: "calm a \<Longrightarrow> calm (snd (session_create env provider repo title limit perms initial a))"
| calm_send: "calm a \<Longrightarrow> calm (snd (send_message env s content a))"
| calm_late_send: "calm a \<Longrightarrow> calm (snd (claim_and_begin env s content row a))"
| calm_pause: "calm a \<Longrightarrow> calm (snd (session_pause env s a))"
| calm_resume: "calm a \<Longrightarrow> status_of (sa_db a) s \<noteq> Some ''running'' \<Longrightarrow> calm (snd (session_resume env s a))"
| calm_cancel: "calm a \<Longrightarrow> none_spawned s a \<Longrightarrow> calm (snd (session_cancel env s a))"
| calm_delete: "calm a \<Longrightarrow> none_spawned s a \<Longrightarrow> calm (snd (session_delete env s a))"
| calm_provider: "calm a \<Longrightarrow> (\<And>i. busy a i \<Longrightarrow> turn_session a i \<noteq> s) \<Longrightarrow> calm (snd (session_set_provider env s p a))"
| calm_start: "calm a \<Longrightarrow> i < length (sa_turns a) \<Longrightarrow> tu_phase (sa_turns a ! i) = Spawned \<Longrightarrow> calm (turn_start renv spawned i a)"
| calm_line: "calm a \<Longrightarrow> busy a i \<Longrightarrow> tu_phase (sa_turns a ! i) = Streaming st \<Longrightarrow> calm (turn_line renv line i a)"
| calm_end: "calm a \<Longrightarrow> i < length (sa_turns a) \<Longrightarrow> tu_phase (sa_turns a ! i) = Streaming st \<Longrightarrow> calm (turn_end renv i a)"
| calm_timeout: "calm a \<Longrightarrow> busy a i \<Longrightarrow> tu_phase (sa_turns a ! i) = Streaming st \<Longrightarrow> calm (turn_timeout renv i a)"
| calm_read_error: "calm a \<Longrightarrow> busy a i \<Longrightarrow> tu_phase (sa_turns a ! i) = Streaming st \<Longrightarrow> calm (turn_read_error renv i a)"
| calm_other: "calm a \<Longrightarrow> session_db_ok db \<Longrightarrow> (\<And>i. busy a i \<Longrightarrow> status_of db (turn_session a i) = status_of (sa_db a) (turn_session a i)) \<Longrightarrow>
    calm (a\<lparr>sa_db := db\<rparr>)"
| calm_restart: "calm a \<Longrightarrow> calm (restart_sessions now a)"

lemma calm_inv: "calm a \<Longrightarrow> turn_inv a"
proof (induction rule: calm.induct)
  case (calm_start a i renv spawned)
  then show ?case by (intro inv_turn_start) (auto simp: busy_def busy_turn_def)
next
  case (calm_other a db)
  show ?case by (rule inv_same_turns [OF calm_other.IH])
      (use calm_other busy_occupied in \<open>auto simp: occupied_def\<close>)
next
  case (calm_restart now a)
  then show ?case
    by (simp add: restart_sessions_def turn_inv_def handles_inv_def turns_inv_def busy_inv_def busy_def recover_stale_sessions_ok)
qed (simp_all add: turn_inv_new inv_create inv_send inv_claim_and_begin inv_pause inv_resume inv_cancel inv_delete inv_set_provider inv_turn_line inv_turn_end
    inv_turn_timeout turn_read_error_def inv_turn_failed)

text \<open>C10: In a calm history at most one turn works on a session at a time: while it does, sending another message is refused
  and starts nothing.\<close>

theorem one_turn_per_session:
  assumes "calm a" and "busy a i"
  shows "(\<forall>j. busy a j \<and> turn_session a j = turn_session a i \<longrightarrow> j = i) \<and>
    fst (send_message env (turn_session a i) content a) \<in> {Err ''SESSION_BUSY'', Err ''SESSION_PAUSED''} \<and>
    sa_turns (snd (send_message env (turn_session a i) content a)) = sa_turns a"
proof (intro conjI)
  have inv: "turn_inv a" by (rule calm_inv [OF assms(1)])
  show "\<forall>j. busy a j \<and> turn_session a j = turn_session a i \<longrightarrow> j = i" using busy_unique [OF inv _ assms(2)] by blast
  let ?s = "turn_session a i"
  obtain row where row: "get_session ?s (sa_db a) = Some row" "sn_status row \<in> {''running'', ''paused''}"
    using busy_occupied [OF inv assms(2)] by (auto simp: occupied_def status_of_def)
  have "\<not> fst (claim_session_for_run (me_now env) ?s (sa_db a))"
    using claim_iff [of "sa_db a"] inv row by (auto simp: turn_inv_def status_of_def)
  then obtain db where "claim_session_for_run (me_now env) ?s (sa_db a) = (False, db)"
    by (cases "claim_session_for_run (me_now env) ?s (sa_db a)") auto
  with row show "fst (send_message env ?s content a) \<in> {Err ''SESSION_BUSY'', Err ''SESSION_PAUSED''}"
    "sa_turns (snd (send_message env ?s content a)) = sa_turns a"
    by (simp_all add: send_message_def claim_and_begin_def begin_turn_def on_session_def)
qed

text \<open>A first session and its first message, in an environment where all programs work.\<close>

definition plain_menv :: "string \<Rightarrow> manager_env" where
  "plain_menv i = \<lparr>me_now = 1, me_id = i, me_data_dir = ''/d'', me_show_time = (\<lambda>_. []), me_error = (\<lambda>_. ''error''),
     me_cli = (\<lambda>_ _. Some True), me_git = (\<lambda>_ _. True), me_mkdir_ok = True, me_rmdir_ok = True,
     me_print_scopes = (\<lambda>_. []), me_parse_scopes = (\<lambda>_. None)\<rparr>"

definition plain_renv :: "string \<Rightarrow> runner_env" where
  "plain_renv i = \<lparr>re_now = 1, re_show_time = (\<lambda>_. []), re_message_id = i, re_tool_id = i,
     re_parse_event = (\<lambda>line. if line = ''result'' then Some (EvResult ''success'' None None)
        else if line = ''text'' then Some (EvAssistant ''assistant'' [TextBlock ''hi'']) else None),
     re_parse_json = (\<lambda>_. None), re_to_string = (\<lambda>_. []), re_sha256_hex = (\<lambda>x. x), re_debug = (\<lambda>x. x), re_home = ''/h'',
     re_standards = (\<lambda>_. None), re_knowledge = (\<lambda>_. [])\<rparr>"

definition asked :: session_app where
  "asked = snd (send_message (plain_menv ''m'') ''s'' ''hello''
     (snd (session_create (plain_menv ''s'') ''claude'' ''/r'' ''t'' 0 None None new_session_app)))"

theorem one_turn_per_session_witness:
  "busy asked 0 \<and> fst (send_message (plain_menv ''n'') ''s'' ''again'' asked) \<in> {Err ''SESSION_BUSY'', Err ''SESSION_PAUSED''}"
proof -
  have "calm asked" unfolding asked_def by (intro calm.intros)
  moreover have b: "busy asked 0" by code_simp
  moreover have "turn_session asked 0 = ''s''" by code_simp
  ultimately show ?thesis using one_turn_per_session [of asked 0 "plain_menv ''n''" "''again''"] by simp
qed

section \<open>Turns end\<close>

lemma create_counted_Ok:
  assumes "ident \<notin> ms_id ` set (sd_messages db)" and "session_exists s db"
  shows "\<exists>m db'. create_message_and_increment_count ident now s role c st db = (Ok m, db')"
proof -
  let ?m = "new_message_row ident now s role c st"
  let ?db = "increment_message_count now s (db\<lparr>sd_messages := sd_messages db @ [?m], sd_fts := sd_fts db @ [fts_of ?m]\<rparr>)"
  have m: "ms_id ?m = ident" "ms_session_id ?m = s" by (simp_all add: new_message_row_def)
  have ins: "insert_message ?m db = Ok (db\<lparr>sd_messages := sd_messages db @ [?m], sd_fts := sd_fts db @ [fts_of ?m]\<rparr>)"
    using assms m by (simp add: insert_message_def insert_row_def no_check_def)
  have "get_message ident ?db = Some ?m"
  proof -
    have "select_by ms_id (sd_messages db) ident = None" using assms(1) by (simp add: select_by_None)
    then show ?thesis using m by (simp add: get_message_def increment_message_count_def update_sessions_def select_by_append) (simp add: select_by_def)
  qed
  then show ?thesis unfolding create_message_and_increment_count_def ins by (simp add: Let_def read_back_def)
qed

lemma free_session_accepts:
  assumes db: "session_db_ok (sa_db a)" and st: "status_of (sa_db a) s \<in> {Some ''idle'', Some ''error''}"
    and fresh: "me_id env \<notin> ms_id ` set (sd_messages (sa_db a))"
  shows "is_ok (fst (send_message env s content a)) \<and>
    length (sa_turns (snd (send_message env s content a))) = Suc (length (sa_turns a))"
proof -
  obtain row where row: "get_session s (sa_db a) = Some row" "sn_status row \<in> {''idle'', ''error''}"
    using st by (auto simp: status_of_def)
  obtain db1 where claim: "claim_session_for_run (me_now env) s (sa_db a) = (True, db1)"
    using claim_iff [OF db, of "me_now env" s] st by (cases "claim_session_for_run (me_now env) s (sa_db a)") auto
  then have db1: "db1 = snd (claim_session_for_run (me_now env) s (sa_db a))" by simp
  have "sd_messages db1 = sd_messages (sa_db a)" unfolding db1 by (simp add: claim_session_for_run_def Let_def update_sessions_def)
  moreover have "session_exists s (sa_db a)"
    using select_by_Some [of sn_id "sd_sessions (sa_db a)" s row] row(1) by (force simp: session_exists_def get_session_def)
  then have "session_exists s db1" unfolding db1 by (simp add: claim_session_for_run_def Let_def)
  ultimately obtain m db2 where "create_message_and_increment_count (me_id env) (me_now env) s ''user'' content ''done'' db1 = (Ok m, db2)"
    using create_counted_Ok [of "me_id env" db1 s] fresh by metis
  with row claim show ?thesis
    by (auto simp: send_message_def claim_and_begin_def begin_turn_def on_session_def Let_def get_runner_def split: option.split prod.split)
qed

lemma failed_turn_frees:
  assumes "quiet a b" and "i < length (sa_turns a)" and "status_of (sa_db a) (turn_session a i) \<noteq> None"
  shows "status_of (sa_db (turn_failed env i b)) (turn_session a i) = Some ''error'' \<and> length (sa_turns (turn_failed env i b)) = length (sa_turns a) \<and>
    \<not> busy (turn_failed env i b) i"
  using assms by (auto simp: turn_failed_def quiet_def status_of_update_status busy_def busy_turn_def)

text \<open>The steps of a turn that is in the middle of its output.\<close>

definition turn_steps :: "runner_env \<Rightarrow> string \<Rightarrow> nat \<Rightarrow> session_app \<Rightarrow> session_app list" where
  "turn_steps env line i a = [turn_line env line i a, turn_end env i a, turn_timeout env i a, turn_read_error env i a]"

lemma calm_turn_steps:
  assumes "calm a" and "busy a i" and "tu_phase (sa_turns a ! i) = Streaming st" and "b \<in> set (turn_steps renv line i a)"
  shows "calm b"
  using assms busy_length [OF assms(2)] by (auto simp: turn_steps_def intro: calm_line calm_end calm_timeout calm_read_error)

lemma ended_turn_status:
  assumes inv: "turn_inv a" and busy: "busy a i" and ph: "tu_phase (sa_turns a ! i) = Streaming st"
    and b: "b \<in> set (turn_steps renv line i a)"
  shows "length (sa_turns b) = length (sa_turns a) \<and> (busy b i \<longrightarrow> b = turn_line renv line i a \<and> \<not> result_line renv line i a) \<and>
    (\<not> busy b i \<longrightarrow> status_of (sa_db b) (turn_session a i) \<in> {Some ''idle'', Some ''error''})"
proof -
  let ?s = "turn_session a i" and ?r = "tu_runner (sa_turns a ! i)"
  have i: "i < length (sa_turns a)" by (rule busy_length [OF busy])
  have live: "status_of (sa_db a) ?s \<noteq> None" using busy_occupied [OF inv busy] by (auto simp: occupied_def)
  note fails = failed_turn_frees [OF _ i live]
  consider "b = turn_line renv line i a" | "b = turn_end renv i a" | "b = turn_timeout renv i a" | "b = turn_read_error renv i a"
    using b by (auto simp: turn_steps_def)
  then show ?thesis
  proof cases
    case 1
    from inv busy ph show ?thesis
    proof (cases rule: turn_line_run [where env = renv and line = line])
      case (failed c)
      with 1 fails [of c renv] show ?thesis by auto
    next
      case (result st1 c)
      with 1 i live show ?thesis by (auto simp: settles_def busy_def busy_turn_def)
    next
      case (more st1 c)
      with 1 i busy ph show ?thesis by (auto simp: quiet_def busy_def busy_turn_def)
    qed
  next
    case 2
    have "\<not> is_cancelled ?r a" "\<not> ss_received_result st"
      using busy_runner [OF inv busy] busy ph by (auto simp: is_cancelled_flags busy_def busy_turn_def)
    then obtain c st' where "quiet (set_phase i Ended a) c" "st' \<in> {''idle'', ''error''}" "turn_end renv i a = settle_status (re_now renv) ?s st' c"
      using turn_end_run [OF ph, of renv] by blast
    with 2 live i show ?thesis by (auto simp: quiet_def status_of_update_status busy_def busy_turn_def)
  next
    case 3
    let ?c = "case rn_current_child (sa_runners a ! ?r) of None \<Rightarrow> a
      | Some pid \<Rightarrow> set_runner ?r (\<lambda>rn. rn\<lparr>rn_current_child := None\<rparr>) (signal ''SIGKILL'' pid a)"
    have "quiet a ?c" by (simp add: quiet_def flags_keep split: option.split)
    moreover have "b = turn_failed renv i ?c" using 3 by (simp only: turn_timeout_def Let_def)
    ultimately show ?thesis using fails by blast
  next
    case 4
    with ph fails [of a renv] show ?thesis by (simp add: turn_read_error_def)
  qed
qed

text \<open>C18: In a calm history, whatever step ends a turn that works on a session (the result of Claude, a line that cannot be
  stored, the end of the program, its timeout, an output that cannot be read), the session is idle or failed at that
  moment and takes the next message, which starts a new turn. Except for lines that bring no result, every step does end
  the turn.\<close>

theorem ended_turn_frees_session:
  assumes "calm a" and "busy a i" and "tu_phase (sa_turns a ! i) = Streaming st" and "b \<in> set (turn_steps renv line i a)"
    and "me_id env \<notin> ms_id ` set (sd_messages (sa_db b))"
  shows "(busy b i \<longrightarrow> b = turn_line renv line i a \<and> \<not> result_line renv line i a) \<and>
    (\<not> busy b i \<longrightarrow> is_ok (fst (send_message env (turn_session a i) content b)) \<and>
       length (sa_turns (snd (send_message env (turn_session a i) content b))) = Suc (length (sa_turns a)))"
proof -
  note ended = ended_turn_status [OF calm_inv [OF assms(1)] assms(2-4)]
  have "session_db_ok (sa_db b)" using calm_inv [OF calm_turn_steps [OF assms(1-4)]] by (simp add: turn_inv_def)
  from free_session_accepts [OF this _ assms(5), of "turn_session a i" content] ended show ?thesis by auto
qed

theorem ended_turn_frees_session_witness:
  "let a = turn_start (plain_renv ''x'') (Some 7) 0 asked; b = turn_line (plain_renv ''x'') ''result'' 0 a
   in \<not> busy b 0 \<and> is_ok (fst (send_message (plain_menv ''n'') ''s'' ''again'' b))"
proof -
  have asked: "calm asked" unfolding asked_def by (intro calm.intros)
  let ?a = "turn_start (plain_renv ''x'') (Some 7) 0 asked"
  let ?b = "turn_line (plain_renv ''x'') ''result'' 0 ?a"
  have "calm ?a" by (rule calm_start [OF asked]) code_simp+
  moreover have "busy ?a 0" "tu_phase (sa_turns ?a ! 0) = Streaming new_stream" "turn_session ?a 0 = ''s''" by code_simp+
  moreover have "me_id (plain_menv ''n'') \<notin> ms_id ` set (sd_messages (sa_db ?b))" by code_simp
  moreover have "?b \<in> set (turn_steps (plain_renv ''x'') ''result'' 0 ?a)" by (simp add: turn_steps_def)
  moreover have "rn_provider (sa_runners ?a ! tu_runner (sa_turns ?a ! 0)) = ''claude''" by code_simp
  then have "result_line (plain_renv ''x'') ''result'' 0 ?a" by (simp add: result_line_def plain_renv_def)
  ultimately show ?thesis
    using ended_turn_frees_session [of ?a 0 new_stream ?b "plain_renv ''x''" "''result''" "plain_menv ''n''" "''again''"]
    by (auto simp: Let_def)
qed

text \<open>When the output cannot be read the session is free although its program still runs: the child is neither killed nor
  forgotten, and a second turn starts beside it.\<close>

theorem read_error_leaves_child:
  "let a = turn_read_error (plain_renv ''x'') 0 (turn_start (plain_renv ''x'') (Some 7) 0 asked)
   in map rn_current_child (sa_runners a) = [Some 7] \<and> sa_signals a = [] \<and> is_ok (fst (send_message (plain_menv ''n'') ''s'' ''again'' a))"
  by code_simp

section \<open>The output of a program\<close>

text \<open>Codex and Cursor are cut off at a megabyte: whatever lines come, the answer kept in memory and in the message is
  at most the cap and the notice of the cut.\<close>

definition captured_ok :: "stream_state \<Rightarrow> bool" where
  "captured_ok st \<longleftrightarrow> length (ss_content st) \<le> MAX_ACCUMULATED_BYTES + (if ss_truncated st then 28 else 0)"

lemma stream_piece_content:
  "fst (stream_piece env s c st a) = Ok st1 \<Longrightarrow> ss_content st1 = c \<and> ss_truncated st1 = ss_truncated st"
  by (auto simp: stream_piece_def split: option.splits prod.splits result.splits)

lemma stream_line_captured:
  assumes "captured_ok st" and "fst (stream_line env s line st a) = Ok st1"
  shows "captured_ok st1"
  using assms
  by (auto simp: stream_line_def Let_def captured_ok_def would_exceed_cap_def dest!: stream_piece_content split: if_splits)

definition captured_turn :: "nat \<Rightarrow> session_app \<Rightarrow> bool" where
  "captured_turn i a \<longleftrightarrow> i < length (sa_turns a) \<and> tu_runner (sa_turns a ! i) < length (flags a) \<and>
     fst (flags a ! tu_runner (sa_turns a ! i)) \<in> {''codex'', ''cursor''} \<and>
     (\<forall>st. tu_phase (sa_turns a ! i) = Streaming st \<longrightarrow> captured_ok st)"

lemma captured_phase:
  assumes "captured_turn i a" and "quiet a b" and "\<And>st. ph = Streaming st \<Longrightarrow> captured_ok st"
  shows "captured_turn i (set_phase i ph b)"
  using assms by (auto simp: captured_turn_def quiet_def)

lemma captured_settle: "captured_turn i a \<Longrightarrow> captured_turn i (settle_status now s st a)"
  by (simp add: captured_turn_def)

lemma captured_turn_end:
  assumes "captured_turn i a" and "tu_phase (sa_turns a ! i) = Streaming st"
  shows "captured_turn i (turn_end env i a)"
proof -
  obtain b where q: "quiet (set_phase i Ended a) b"
    and run: "turn_end env i a = b \<or> (\<exists>x. turn_end env i a = settle_status (re_now env) (turn_session a i) x b)"
    using turn_end_run [OF assms(2), of env] by blast
  have "captured_turn i b" using assms(1) q by (auto simp: captured_turn_def quiet_def)
  with run captured_settle show ?thesis by metis
qed

lemma captured_turn_line:
  assumes inv: "captured_turn i a"
  shows "captured_turn i (turn_line env line i a)"
proof (cases "tu_phase (sa_turns a ! i)")
  case (Streaming st)
  let ?t = "sa_turns a ! i"
  have p: "rn_provider (sa_runners a ! tu_runner ?t) \<in> {''codex'', ''cursor''}" using inv by (auto simp: captured_turn_def flags_def)
  obtain res b where out: "stream_line env (tu_session ?t) line st a = (res, b)" by fastforce
  have q: "quiet a b" using quiet_stream_line [of a env "tu_session ?t" line st] out by simp
  have ok: "captured_ok st1" if "res = Ok st1" for st1
    using stream_line_captured [of st env "tu_session ?t" line a st1] inv Streaming out that by (simp add: captured_turn_def)
  have "captured_turn i (turn_failed env i b)" "res = Ok st1 \<Longrightarrow> captured_turn i (set_phase i (Streaming st1) b)" for st1
    unfolding turn_failed_def by (rule captured_settle, rule captured_phase [OF inv q], simp, rule captured_phase [OF inv q], use ok in auto)
  with captured_turn_end [OF inv Streaming, of env] p Streaming out show ?thesis
    by (cases res) (auto simp: turn_line_def Let_def)
qed (use inv in \<open>simp_all add: turn_line_def Let_def\<close>)

theorem captured_output_bounded:
  assumes "captured_turn i a" and "b = fold (\<lambda>(env, line). turn_line env line i) ls a" and "tu_phase (sa_turns b ! i) = Streaming st"
  shows "length (ss_content st) \<le> MAX_ACCUMULATED_BYTES + 28"
proof -
  have "captured_turn i b" using assms(1) unfolding assms(2)
    by (induction ls arbitrary: a) (auto simp: captured_turn_line)
  with assms(3) show ?thesis by (auto simp: captured_turn_def captured_ok_def split: if_splits)
qed

section \<open>Why the histories have to be calm\<close>

text \<open>A message whose session was idle when it was checked is refused if a turn works on the session when it is claimed:
  the claim decides, whatever row was read before.\<close>

theorem late_claim_refused:
  assumes "calm a" and "busy a i"
  shows "fst (claim_and_begin env (turn_session a i) content row a) = Err ''SESSION_BUSY'' \<and>
    sa_turns (snd (claim_and_begin env (turn_session a i) content row a)) = sa_turns a"
proof -
  have inv: "turn_inv a" by (rule calm_inv [OF assms(1)])
  have "\<not> fst (claim_session_for_run (me_now env) (turn_session a i) (sa_db a))"
    using claim_iff [of "sa_db a"] inv busy_occupied [OF inv assms(2)] by (auto simp: turn_inv_def occupied_def)
  then show ?thesis by (cases "claim_session_for_run (me_now env) (turn_session a i) (sa_db a)") (auto simp: claim_and_begin_def)
qed

text \<open>The check of \<^verbatim>\<open>set_provider\<close> is not repeated when it takes effect: if a turn starts in between, its handle is dropped
  although it is running, and a pause or a cancellation no longer reaches its program.\<close>

theorem provider_check_races:
  "let idle = snd (session_create (plain_menv ''s'') ''claude'' ''/r'' ''t'' 0 None None new_session_app);
       row = the (get_session ''s'' (sa_db idle));
       a = turn_start (plain_renv ''x'') (Some 7) 0 asked;
       b = snd (apply_provider (plain_menv ''y'') ''s'' ''codex'' row a);
       c = snd (session_cancel (plain_menv ''z'') ''s'' b)
   in sn_status row = ''idle'' \<and> busy b 0 \<and> sa_handles b = [] \<and> busy c 0 \<and> sa_signals c = []"
  by code_simp

text \<open>Resuming a session that is running makes it idle, and a second turn starts beside the first.\<close>

theorem resume_admits_second_turn:
  "let a = turn_start (plain_renv ''x'') (Some 7) 0 asked;
       b = snd (send_message (plain_menv ''n'') ''s'' ''again'' (snd (session_resume (plain_menv ''y'') ''s'' a)))
   in status_of (sa_db a) ''s'' = Some ''running'' \<and> busy b 0 \<and> busy b 1 \<and> turn_session b 0 = turn_session b 1"
  by code_simp

text \<open>A turn that is cancelled before it starts runs all the same, and no later call can stop it.\<close>

theorem cancel_before_start_escapes:
  "let a = turn_start (plain_renv ''x'') (Some 7) 0 (snd (session_cancel (plain_menv ''y'') ''s'' asked));
       b = snd (session_cancel (plain_menv ''z'') ''s'' a)
   in busy a 0 \<and> busy b 0 \<and> sa_signals b = [] \<and> status_of (sa_db b) ''s'' = Some ''idle''"
  by code_simp

text \<open>Changing the provider of a paused session forgets its suspended program: the session becomes free for a second turn
  and the first program is never resumed or killed.\<close>

theorem provider_change_orphans_turn:
  "let a = snd (session_pause (plain_menv ''y'') ''s'' (turn_start (plain_renv ''x'') (Some 7) 0 asked));
       b = snd (session_resume (plain_menv ''y'') ''s'' (snd (session_set_provider (plain_menv ''y'') ''s'' ''codex'' a)));
       c = snd (send_message (plain_menv ''n'') ''s'' ''again'' b)
   in busy c 0 \<and> busy c 1 \<and> sa_signals c = [(''SIGSTOP'', 7)]"
  by code_simp

text \<open>The handle stays after a turn, so pausing and resuming an idle session marks it running although nothing runs:
  messages are refused until somebody cancels.\<close>

theorem resumed_idle_session_is_stuck:
  "let a = run_turn (plain_renv ''x'') 7 [(plain_renv ''r'', ''text''), (plain_renv ''x'', ''result'')] (plain_renv ''x'') 0 asked;
       b = snd (session_resume (plain_menv ''y'') ''s'' (snd (session_pause (plain_menv ''y'') ''s'' a)))
   in status_of (sa_db a) ''s'' = Some ''idle'' \<and> map ms_content (conversation ''s'' (sa_db a)) = [''hello'', ''hi''] \<and>
      \<not> busy b 0 \<and> length (sa_turns b) = 1 \<and> fst (send_message (plain_menv ''n'') ''s'' ''again'' b) = Err ''SESSION_BUSY''"
  by code_simp

text \<open>After a timeout the number of the killed process is kept: pausing the session later stops whatever process has
  that number then.\<close>

theorem timeout_keeps_pid:
  "let a = turn_timeout (plain_renv ''x'') 0 (turn_start (plain_renv ''x'') (Some 7) 0 asked);
       b = snd (session_pause (plain_menv ''y'') ''s'' a)
   in sa_signals b = [(''SIGKILL'', 7), (''SIGSTOP'', 7)]"
  by code_simp

end
