(* ===== verification/Tool_Guard.thy ===== *)
theory Tool_Guard
  imports Worktrees
begin

text \<open>
  The security utilities (\<^verbatim>\<open>security/guard.rs\<close>): paths confined to a directory, the filter that keeps credentials out
  of the audit log, the lists of allowed and denied tools, the check of a repository path and of a session identifier.
  A normalised path is the list of its components. Canonicalisation and the environment are parameters.
\<close>

section \<open>Definitions\<close>

definition normalize_step :: "string list \<Rightarrow> string \<Rightarrow> string list" where
  "normalize_step acc c =
     (if c = ''..'' then (if acc \<noteq> [] \<and> last acc \<noteq> ''/'' then butlast acc else acc)
      else if c = ''.'' then acc else acc @ [c])"

definition normalize_path :: "string \<Rightarrow> string list" where
  "normalize_path p = foldl normalize_step [] (components p)"

definition safe_path :: "string \<Rightarrow> string \<Rightarrow> (string list, string) result" where
  "safe_path base_dir relative_path =
     (if starts_with relative_path ''/'' then Err (''path traversal: absolute path not allowed: '' @ relative_path)
      else let normalized = normalize_path (path_join base_dir relative_path) in
        if prefix (normalize_path base_dir) normalized then Ok normalized
        else Err (''path traversal: '' @ relative_path @ '' escapes base directory '' @ base_dir))"

definition strip_null_bytes :: "string \<Rightarrow> string" where
  "strip_null_bytes s = filter (\<lambda>c. c \<noteq> CHR 0x00) s"

definition is_ascii_alphanumeric :: "char \<Rightarrow> bool" where
  "is_ascii_alphanumeric c \<longleftrightarrow>
     (CHR ''0'' \<le> c \<and> c \<le> CHR ''9'') \<or> (CHR ''A'' \<le> c \<and> c \<le> CHR ''Z'') \<or> (CHR ''a'' \<le> c \<and> c \<le> CHR ''z'')"

definition is_base64_char :: "char \<Rightarrow> bool" where
  "is_base64_char c \<longleftrightarrow> is_ascii_alphanumeric c \<or> c = CHR ''+'' \<or> c = CHR ''/''"

definition MIN_REDACTED_RUN :: nat where
  "MIN_REDACTED_RUN = 40"

text \<open>\<^verbatim>\<open>slice::chunk_by\<close> for neighbours of the same class.\<close>

function chunk_by :: "('a \<Rightarrow> bool) \<Rightarrow> 'a list \<Rightarrow> 'a list list" where
  "chunk_by p [] = []"
| "chunk_by p (c # s) = (c # takeWhile (\<lambda>d. p d = p c) s) # chunk_by p (dropWhile (\<lambda>d. p d = p c) s)"
  by pat_completeness auto
termination by (relation "measure (length \<circ> snd)") (auto simp: le_imp_less_Suc length_dropWhile_le)

definition sanitize_group :: "string \<Rightarrow> string" where
  "sanitize_group g = (if MIN_REDACTED_RUN \<le> length g \<and> is_base64_char (hd g) then ''[REDACTED]'' else g)"

definition sanitize_tool_input :: "string \<Rightarrow> string" where
  "sanitize_tool_input input = concat (map sanitize_group (chunk_by is_base64_char input))"

record security_config =
  sc_allowed_tools :: "string list"
  sc_denied_tools :: "string list"
  sc_denied_paths :: "string list"

definition expand_home :: "string \<Rightarrow> string \<Rightarrow> string" where
  "expand_home home path =
     (case strip_prefix path ''~/'' of Some rest \<Rightarrow> if home \<noteq> [] then home @ ''/'' @ rest else path | None \<Rightarrow> path)"

definition check_tool_call :: "string \<Rightarrow> security_config \<Rightarrow> string \<Rightarrow> string \<Rightarrow> (unit, string) result" where
  "check_tool_call home config tool_name tool_input =
     (let tool_lower = lowercase tool_name in
      if list_ex (\<lambda>d. lowercase d = tool_lower) (sc_denied_tools config)
      then Err (''TOOL_DENIED: tool '' @ quoted tool_name @ '' is in the security.denied_tools list'')
      else if sc_allowed_tools config \<noteq> [] \<and> \<not> list_ex (\<lambda>a. lowercase a = tool_lower) (sc_allowed_tools config)
      then Err (''TOOL_NOT_ALLOWED: tool '' @ quoted tool_name @ '' is not in the security.allowed_tools list'')
      else if tool_lower = ''bash'' then
        (case find (\<lambda>p. starts_with tool_input (expand_home home p) \<or> contains tool_input (expand_home home p)) (sc_denied_paths config) of
           Some p \<Rightarrow> Err (''TOOL_PATH_DENIED: Bash command accesses denied path '' @ quoted p)
         | None \<Rightarrow> Ok ())
      else Ok ())"

text \<open>The canonical path where it exists, and the normalised one else, as components.\<close>

definition canonical_components :: "canonicalizer \<Rightarrow> string \<Rightarrow> string list" where
  "canonical_components canonicalize p = (case canonicalize p of Some c \<Rightarrow> components c | None \<Rightarrow> normalize_path p)"

definition check_repo_path_safety :: "canonicalizer \<Rightarrow> string \<Rightarrow> string \<Rightarrow> (unit, string) result" where
  "check_repo_path_safety canonicalize repo_path data_dir =
     (let repo = canonical_components canonicalize repo_path; data = canonical_components canonicalize data_dir
      in if prefix data repo \<or> prefix repo data
         then Err (''invalid type: repo_path '' @ quoted repo_path @ '' overlaps with the daemon data directory - this is a security risk'')
         else Ok ())"

definition is_hex_digit :: "char \<Rightarrow> bool" where
  "is_hex_digit c \<longleftrightarrow>
     (CHR ''0'' \<le> c \<and> c \<le> CHR ''9'') \<or> (CHR ''A'' \<le> c \<and> c \<le> CHR ''F'') \<or> (CHR ''a'' \<le> c \<and> c \<le> CHR ''f'')"

fun check_id_chars :: "nat \<Rightarrow> string \<Rightarrow> (unit, string) result" where
  "check_id_chars i [] = Ok ()"
| "check_id_chars i (c # s) =
     (if i \<in> {8, 13, 18, 23} then
        (if c \<noteq> CHR ''-'' then Err (''invalid session ID format at position '' @ show_nat i) else check_id_chars (Suc i) s)
      else if \<not> is_hex_digit c then Err (''invalid session ID character at position '' @ show_nat i @ '': '' @ [c])
      else check_id_chars (Suc i) s)"

definition validate_session_id :: "string \<Rightarrow> (unit, string) result" where
  "validate_session_id s =
     (if length s \<noteq> 36 then Err (''invalid session ID length: '' @ show_nat (length s)) else check_id_chars 0 s)"

section \<open>Paths\<close>

definition resolved :: "string list \<Rightarrow> bool" where
  "resolved cs \<longleftrightarrow> ''..'' \<notin> set cs \<and> ''.'' \<notin> set cs"

lemma normalize_step_resolved: "resolved acc \<Longrightarrow> resolved (normalize_step acc c)"
  by (auto simp: normalize_step_def resolved_def dest: in_set_butlastD)

lemma normalize_path_resolved: "resolved (normalize_path p)"
proof -
  have "resolved (foldl normalize_step acc cs)" if "resolved acc" for acc cs
    using that by (induction cs arbitrary: acc) (simp_all add: normalize_step_resolved)
  then show ?thesis by (simp add: normalize_path_def resolved_def)
qed

text \<open>An accepted path lies under the base directory and has no parent reference left.\<close>

theorem safe_path_confined:
  assumes "safe_path base rel = Ok p"
  shows "prefix (normalize_path base) p \<and> resolved p \<and> p = normalize_path (path_join base rel)"
  using assms normalize_path_resolved by (auto simp: safe_path_def Let_def split: if_splits)

text \<open>Parent references at the start of a relative path are dropped instead of kept, so for a relative base directory a
  path that leaves its parent is accepted.\<close>

theorem safe_path_relative_base_escapes:
  "safe_path ''repo'' ''../../repo/x'' = Ok [''repo'', ''x''] \<and> safe_path ''/w/repo'' ''../../repo/x'' =
     Err ''path traversal: ../../repo/x escapes base directory /w/repo''"
  by code_simp

section \<open>Credentials in the audit log\<close>

text \<open>No run of base64 characters reaches the given length; \<open>n\<close> of them came just before.\<close>

fun runs_below :: "nat \<Rightarrow> nat \<Rightarrow> string \<Rightarrow> bool" where
  "runs_below limit n [] = True"
| "runs_below limit n (c # s) = (if is_base64_char c then Suc n < limit \<and> runs_below limit (Suc n) s else runs_below limit 0 s)"

lemma runs_below_base64:
  "list_all is_base64_char g \<Longrightarrow> runs_below limit n (g @ s) \<longleftrightarrow> (g = [] \<or> n + length g < limit) \<and> runs_below limit (n + length g) s"
  by (induction g arbitrary: n) auto

lemma runs_below_other: "list_all (\<lambda>c. \<not> is_base64_char c) g \<Longrightarrow> g \<noteq> [] \<Longrightarrow> runs_below limit n (g @ s) = runs_below limit 0 s"
proof (induction g arbitrary: n)
  case (Cons c g)
  then show ?case by (cases "g = []") auto
qed simp

lemma runs_below_redacted: "n < limit \<Longrightarrow> 8 < limit \<Longrightarrow> runs_below limit n (''[REDACTED]'' @ s) = runs_below limit 0 s"
  by (simp add: is_base64_char_def is_ascii_alphanumeric_def less_eq_char_def)

lemma list_all_takeWhile: "list_all p (takeWhile p s)"
  by (induction s) auto

lemma sanitize_chunk:
  "sanitize_tool_input (c # s) =
     sanitize_group (c # takeWhile (\<lambda>d. is_base64_char d = is_base64_char c) s) @
     sanitize_tool_input (dropWhile (\<lambda>d. is_base64_char d = is_base64_char c) s)"
  by (simp add: sanitize_tool_input_def)

lemma sanitize_runs_below:
  "s = [] \<or> \<not> is_base64_char (hd s) \<or> n = 0 \<Longrightarrow> n < MIN_REDACTED_RUN \<Longrightarrow> runs_below MIN_REDACTED_RUN n (sanitize_tool_input s)"
proof (induction s arbitrary: n rule: length_induct)
  case (1 s)
  show ?case
  proof (cases s)
    case Nil
    then show ?thesis by (simp add: sanitize_tool_input_def)
  next
    case (Cons c t)
    define same where "same = (\<lambda>d. is_base64_char d = is_base64_char c)"
    define g where "g = c # takeWhile same t"
    define rest where "rest = dropWhile same t"
    have out: "sanitize_tool_input s = sanitize_group g @ sanitize_tool_input rest"
      unfolding Cons g_def rest_def same_def by (rule sanitize_chunk)
    have all: "list_all same g" by (simp add: g_def list_all_takeWhile) (simp add: same_def)
    have "length rest < length s" unfolding Cons rest_def using length_dropWhile_le [of same t] by simp
    then have IH: "runs_below MIN_REDACTED_RUN k (sanitize_tool_input rest)"
      if "rest = [] \<or> \<not> is_base64_char (hd rest) \<or> k = 0" "k < MIN_REDACTED_RUN" for k
      using 1(1) that by blast
    have other: "rest = [] \<or> \<not> same (hd rest)" unfolding rest_def by (metis hd_dropWhile)
    show ?thesis
    proof (cases "is_base64_char c")
      case False
      then have "list_all (\<lambda>d. \<not> is_base64_char d) g" using all by (simp add: same_def)
      moreover have "sanitize_group g = g" using False by (simp add: sanitize_group_def g_def)
      ultimately show ?thesis unfolding out using runs_below_other [of g] IH [of 0] by (simp add: g_def MIN_REDACTED_RUN_def)
    next
      case True
      then have b64: "list_all is_base64_char g" and n: "n = 0" using all 1(2) Cons by (simp_all add: same_def)
      show ?thesis
      proof (cases "MIN_REDACTED_RUN \<le> length g")
        case long: True
        then have "sanitize_group g = ''[REDACTED]''" using True by (simp add: sanitize_group_def g_def)
        then show ?thesis unfolding out n using runs_below_redacted [of 0 MIN_REDACTED_RUN] IH [of 0] by (simp only: MIN_REDACTED_RUN_def) simp
      next
        case short: False
        then have "sanitize_group g = g" by (simp add: sanitize_group_def)
        moreover have "runs_below MIN_REDACTED_RUN (length g) (sanitize_tool_input rest)"
          using IH [of "length g"] other True short by (auto simp: same_def)
        ultimately show ?thesis unfolding out n using runs_below_base64 [OF b64] short by simp
      qed
    qed
  qed
qed

lemma runs_below_run:
  "runs_below limit n (a @ b @ c) \<Longrightarrow> list_all is_base64_char b \<Longrightarrow> b = [] \<or> length b < limit"
proof (induction a arbitrary: n)
  case Nil
  then show ?case using runs_below_base64 [of b limit n c] by auto
qed (auto split: if_splits)

text \<open>C38: Nothing that looks like a credential reaches the audit log: the sanitised text has no run of forty base64
  characters, wherever one looks.\<close>

theorem audit_text_has_no_credential:
  assumes "sanitize_tool_input input = a @ run @ c" and "list_all is_base64_char run"
  shows "length run < MIN_REDACTED_RUN"
proof -
  have "runs_below MIN_REDACTED_RUN 0 (sanitize_tool_input input)"
    by (rule sanitize_runs_below) (simp_all add: MIN_REDACTED_RUN_def)
  with runs_below_run [of MIN_REDACTED_RUN 0 a run c] assms show ?thesis by (auto simp: MIN_REDACTED_RUN_def)
qed

theorem audit_text_has_no_credential_witness:
  "sanitize_tool_input (replicate 41 (CHR ''a'') @ '' ok'') = ''[REDACTED] ok'' \<and> length ''REDACTED'' < MIN_REDACTED_RUN"
proof -
  have out: "sanitize_tool_input (replicate 41 (CHR ''a'') @ '' ok'') = ''[REDACTED] ok''" by code_simp
  moreover have "list_all is_base64_char ''REDACTED''" by code_simp
  ultimately show ?thesis using audit_text_has_no_credential [of _ "''[''" "''REDACTED''" "''] ok''"] by simp
qed

text \<open>Text without such a run is logged as it is.\<close>

theorem audit_text_keeps_ordinary_text:
  assumes "runs_below MIN_REDACTED_RUN 0 input"
  shows "sanitize_tool_input input = input"
  using assms
proof (induction input rule: length_induct)
  case (1 s)
  show ?case
  proof (cases s)
    case (Cons c t)
    define same where "same = (\<lambda>d. is_base64_char d = is_base64_char c)"
    define g where "g = c # takeWhile same t"
    define rest where "rest = dropWhile same t"
    have s: "s = g @ rest" by (simp add: Cons g_def rest_def)
    have all: "list_all same g" by (simp add: g_def list_all_takeWhile) (simp add: same_def)
    have "length rest < length s" by (simp add: s g_def)
    moreover have "runs_below MIN_REDACTED_RUN 0 rest \<and> sanitize_group g = g"
    proof (cases "is_base64_char c")
      case False
      then show ?thesis using 1(2) all runs_below_other [of g] by (auto simp: s same_def sanitize_group_def g_def)
    next
      case True
      then have b64: "list_all is_base64_char g" using all by (simp add: same_def)
      have "rest = [] \<or> \<not> is_base64_char (hd rest)" using hd_dropWhile [of same t] True by (auto simp: rest_def same_def)
      moreover have "length g < MIN_REDACTED_RUN \<and> runs_below MIN_REDACTED_RUN (length g) rest"
        using 1(2) runs_below_base64 [OF b64, of _ 0 rest] by (simp add: s g_def)
      ultimately show ?thesis by (cases rest) (auto simp: sanitize_group_def)
    qed
    ultimately have "sanitize_tool_input rest = rest" "sanitize_group g = g" using 1(1) by auto
    then show ?thesis using sanitize_chunk [of c t] by (simp add: Cons g_def rest_def same_def)
  qed (simp add: sanitize_tool_input_def)
qed

section \<open>Lists of tools\<close>

text \<open>A call passes the lists exactly if its tool is not denied, is allowed where only listed tools are allowed, and is
  not a shell command that names a denied path.\<close>

theorem check_tool_call_iff:
  "check_tool_call home config tool input = Ok () \<longleftrightarrow>
     lowercase tool \<notin> lowercase ` set (sc_denied_tools config) \<and>
     (sc_allowed_tools config = [] \<or> lowercase tool \<in> lowercase ` set (sc_allowed_tools config)) \<and>
     (lowercase tool = ''bash'' \<longrightarrow> (\<forall>p \<in> set (sc_denied_paths config). \<not> contains input (expand_home home p)))"
proof -
  have prefix: "starts_with s p \<Longrightarrow> contains s p" for s p by (cases s) (auto simp: starts_with_def)
  have mem: "list_ex (\<lambda>d. lowercase d = x) ds \<longleftrightarrow> x \<in> lowercase ` set ds" for x ds by (auto simp: list_ex_iff)
  have none: "find (\<lambda>p. starts_with input (expand_home home p) \<or> contains input (expand_home home p)) ps = None \<longleftrightarrow>
      (\<forall>p \<in> set ps. \<not> contains input (expand_home home p))" for ps
    by (auto simp: find_None_iff dest: prefix)
  show ?thesis
    unfolding check_tool_call_def Let_def mem none [symmetric] by (simp split: option.split)
qed

text \<open>A repository is accepted only if neither of it and the data directory contains the other.\<close>

theorem safe_repo_apart:
  "check_repo_path_safety canon repo data = Ok () \<longleftrightarrow>
     \<not> prefix (canonical_components canon data) (canonical_components canon repo) \<and>
     \<not> prefix (canonical_components canon repo) (canonical_components canon data)"
  by (simp add: check_repo_path_safety_def Let_def)

end
