(* ===== verification/Session_Rpc.thy ===== *)
theory Session_Rpc
  imports Session_Props Tool_Guard
begin

text \<open>
  The \<^verbatim>\<open>session.*\<close> and \<^verbatim>\<open>tool.*\<close> calls (\<^verbatim>\<open>ipc/handlers/session.rs\<close>, \<^verbatim>\<open>ipc/handlers/tool.rs\<close>) on the session manager and
  the security utilities. The decoder of the parameters, existing paths and the configuration are part of the
  environment of a call. The watcher of manifest files and telemetry are left out; the attention map and the intent
  summary read tables that nothing modelled here writes and are left out as well.
\<close>

section \<open>Parameters\<close>

record create_params =
  cp_provider :: string
  cp_repo_path :: string
  cp_title :: "string option"
  cp_permissions :: "string list option"
  cp_initial_message :: "string option"
  cp_inherit_from :: "string option"

record session_call_env =
  ce_manager :: manager_env
  ce_tasks :: task_db
  ce_from_str :: "string \<Rightarrow> string list option"
  ce_path_exists :: "string \<Rightarrow> bool"
  ce_canonicalize :: canonicalizer
  ce_max_sessions :: nat
  ce_security :: security_config
  ce_home :: string
  ce_decode_create :: "json \<Rightarrow> (create_params, string) result"
  ce_decode_strings :: "string list \<Rightarrow> json \<Rightarrow> (string list, string) result"
  ce_decode_page :: "json \<Rightarrow> (string \<times> int option \<times> string option, string) result"

definition VALID_PROVIDERS :: "string list" where
  "VALID_PROVIDERS = [''claude'', ''codex'', ''cursor'', ''auto'']"

definition VALID_SCOPES :: "string list" where
  "VALID_SCOPES = [''file_read'', ''file_write'', ''shell_exec'', ''git'']"

definition VALID_MODES :: "string list" where
  "VALID_MODES = [''NORMAL'', ''LEARN'', ''STORM'', ''FORGE'', ''CRUNCH'']"

definition unknown_value :: "string \<Rightarrow> string \<Rightarrow> string list \<Rightarrow> string" where
  "unknown_value what v valid = ''invalid type: unknown '' @ what @ '' '' @ quoted v @ '' - must be one of: '' @ join '', '' valid"

section \<open>Context inherited from another session\<close>

definition recent_turns :: "message_row list \<Rightarrow> string list" where
  "recent_turns messages =
     (let assistant_msgs = filter (\<lambda>m. ms_role m = ''assistant'' \<and> ms_status m = ''done'') messages
      in map (\<lambda>m. ''[turn] '' @ take 400 (ms_content m)) (rev (take 3 (rev assistant_msgs))))"

definition active_task_ids :: "session_call_env \<Rightarrow> string list" where
  "active_task_ids env = map at_id (list_tasks (ce_from_str env) (default_list_params\<lparr>lp_status := Some ''active''\<rparr>) (ce_tasks env))"

definition build_inherit_primer :: "session_call_env \<Rightarrow> string option \<Rightarrow> string option \<Rightarrow> session_app \<Rightarrow> string option" where
  "build_inherit_primer env inherit_from original_message a =
     (case inherit_from of
        None \<Rightarrow> original_message
      | Some source_id \<Rightarrow>
          if source_id = [] then original_message
          else
            (let last_turns = recent_turns (list_messages source_id 50 None (sa_db a));
                 task_ids = active_task_ids env
             in if last_turns = [] \<and> task_ids = [] then original_message
                else Some (''[Context inherited from session '' @ take 8 source_id @ '']'' @ [NL] @
                       (if task_ids \<noteq> [] then ''Active tasks: '' @ join '', '' task_ids @ [NL] else []) @
                       (if last_turns \<noteq> [] then ''Recent AI turns:'' @ [NL] @ concat (map (\<lambda>t. ''  '' @ t @ [NL]) last_turns) else []) @
                       (case original_message of Some orig \<Rightarrow> NL # orig | None \<Rightarrow> []))))"

section \<open>Sessions\<close>

definition rpc_session_create :: "session_call_env \<Rightarrow> json \<Rightarrow> session_app \<Rightarrow> (json, string) result \<times> session_app" where
  "rpc_session_create env params a =
     (case ce_decode_create env params of
        Err e \<Rightarrow> (Err e, a)
      | Ok p \<Rightarrow>
          if cp_provider p \<notin> set VALID_PROVIDERS then (Err (unknown_value ''provider'' (cp_provider p) VALID_PROVIDERS), a)
          else if \<not> ce_path_exists env (cp_repo_path p)
          then (Err (''REPO_NOT_FOUND: repo path does not exist: '' @ cp_repo_path p), a)
          else case check_repo_path_safety (ce_canonicalize env) (cp_repo_path p) (me_data_dir (ce_manager env)) of
              Err e \<Rightarrow> (Err e, a)
            | Ok _ \<Rightarrow>
                (case find (\<lambda>scope. scope \<notin> set VALID_SCOPES) (or_default (cp_permissions p) []) of
                   Some scope \<Rightarrow> (Err (unknown_value ''permission scope'' scope VALID_SCOPES), a)
                 | None \<Rightarrow>
                     (case session_create (ce_manager env) (cp_provider p) (cp_repo_path p) (or_default (cp_title p) ''New Session'')
                         (ce_max_sessions env) (cp_permissions p)
                         (build_inherit_primer env (cp_inherit_from p) (cp_initial_message p) a) a of
                        (Err e, b) \<Rightarrow> (Err e, b)
                      | (Ok view, b) \<Rightarrow> (Ok (session_view_json (me_show_time (ce_manager env)) view), b))))"

definition rpc_session_list :: "session_call_env \<Rightarrow> session_app \<Rightarrow> json" where
  "rpc_session_list env a =
     JArray (map (session_view_json (me_show_time (ce_manager env))) (session_list (ce_manager env) a))"

text \<open>A call whose only parameter is the session.\<close>

definition with_session_id ::
  "session_call_env \<Rightarrow> json \<Rightarrow> session_app \<Rightarrow> (string \<Rightarrow> ('r, string) result \<times> session_app) \<Rightarrow> ('r, string) result \<times> session_app" where
  "with_session_id env params a k =
     (case ce_decode_strings env [''sessionId''] params of Ok [s] \<Rightarrow> k s | Ok _ \<Rightarrow> (Err [], a) | Err e \<Rightarrow> (Err e, a))"

definition empty_answer :: "(unit, string) result \<times> session_app \<Rightarrow> (json, string) result \<times> session_app" where
  "empty_answer r = (case r of (Err e, b) \<Rightarrow> (Err e, b) | (Ok _, b) \<Rightarrow> (Ok (JObject []), b))"

definition rpc_session_get :: "session_call_env \<Rightarrow> json \<Rightarrow> session_app \<Rightarrow> (json, string) result \<times> session_app" where
  "rpc_session_get env params a = with_session_id env params a (\<lambda>s.
     case session_get (ce_manager env) s a of
       Err e \<Rightarrow> (Err e, a) | Ok v \<Rightarrow> (Ok (session_view_json (me_show_time (ce_manager env)) v), a))"

definition rpc_session_delete :: "session_call_env \<Rightarrow> json \<Rightarrow> session_app \<Rightarrow> (json, string) result \<times> session_app" where
  "rpc_session_delete env params a = with_session_id env params a (\<lambda>s. empty_answer (session_delete (ce_manager env) s a))"

definition rpc_session_pause :: "session_call_env \<Rightarrow> json \<Rightarrow> session_app \<Rightarrow> (json, string) result \<times> session_app" where
  "rpc_session_pause env params a = with_session_id env params a (\<lambda>s. empty_answer (session_pause (ce_manager env) s a))"

definition rpc_session_resume :: "session_call_env \<Rightarrow> json \<Rightarrow> session_app \<Rightarrow> (json, string) result \<times> session_app" where
  "rpc_session_resume env params a = with_session_id env params a (\<lambda>s. empty_answer (session_resume (ce_manager env) s a))"

definition rpc_session_cancel :: "session_call_env \<Rightarrow> json \<Rightarrow> session_app \<Rightarrow> (json, string) result \<times> session_app" where
  "rpc_session_cancel env params a = with_session_id env params a (\<lambda>s. empty_answer (session_cancel (ce_manager env) s a))"

text \<open>A call with a session and a second text.\<close>

definition with_two ::
  "session_call_env \<Rightarrow> string \<Rightarrow> json \<Rightarrow> session_app \<Rightarrow> (string \<Rightarrow> string \<Rightarrow> ('r, string) result \<times> session_app) \<Rightarrow>
   ('r, string) result \<times> session_app" where
  "with_two env field params a k =
     (case ce_decode_strings env [''sessionId'', field] params of Ok [s, v] \<Rightarrow> k s v | Ok _ \<Rightarrow> (Err [], a) | Err e \<Rightarrow> (Err e, a))"

definition rpc_send_message :: "session_call_env \<Rightarrow> json \<Rightarrow> session_app \<Rightarrow> (json, string) result \<times> session_app" where
  "rpc_send_message env params a = with_two env ''content'' params a (\<lambda>s content.
     case send_message (ce_manager env) s content a of
       (Err e, b) \<Rightarrow> (Err e, b) | (Ok v, b) \<Rightarrow> (Ok (message_view_json (me_show_time (ce_manager env)) v), b))"

definition rpc_get_messages :: "session_call_env \<Rightarrow> json \<Rightarrow> session_app \<Rightarrow> (json, string) result \<times> session_app" where
  "rpc_get_messages env params a =
     (case ce_decode_page env params of
        Err e \<Rightarrow> (Err e, a)
      | Ok (s, limit, before) \<Rightarrow>
          (case get_messages s (min (or_default limit 50) 200) before a of
             Err e \<Rightarrow> (Err e, a)
           | Ok views \<Rightarrow> (Ok (JArray (map (message_view_json (me_show_time (ce_manager env))) views)), a)))"

definition rpc_set_provider :: "session_call_env \<Rightarrow> json \<Rightarrow> session_app \<Rightarrow> (json, string) result \<times> session_app" where
  "rpc_set_provider env params a = with_two env ''provider'' params a (\<lambda>s p. empty_answer (session_set_provider (ce_manager env) s p a))"

definition rpc_set_mode :: "session_call_env \<Rightarrow> json \<Rightarrow> session_app \<Rightarrow> (json, string) result \<times> session_app" where
  "rpc_set_mode env params a = with_two env ''mode'' params a (\<lambda>s mode.
     if mode \<notin> set VALID_MODES then (Err (unknown_value ''mode'' mode VALID_MODES), a)
     else case get_session s (sa_db a) of
         None \<Rightarrow> (Err (''SESSION_NOT_FOUND: '' @ s), a)
       | Some session \<Rightarrow>
           (Ok (JObject []),
            announce ''session.modeChanged'' (JObject [(''sessionId'', JString s), (''mode'', JString mode),
                (''previousMode'', JString (sn_mode session)),
                (''timestamp'', JString (me_show_time (ce_manager env) (me_now (ce_manager env))))])
              (a\<lparr>sa_db := set_session_mode (me_now (ce_manager env)) s mode (sa_db a)\<rparr>)))"

section \<open>Tools\<close>

definition BLOCKED_SCOPES_IN_RESTRICTED_MODE :: "string list" where
  "BLOCKED_SCOPES_IN_RESTRICTED_MODE = [''file_write'', ''shell_exec'', ''git'', ''unknown'']"

definition tool_scope :: "string \<Rightarrow> string" where
  "tool_scope tool_name =
     (let lower = lowercase tool_name in
      if contains_any lower [''read'', ''glob'', ''grep'', ''fetch'', ''search''] then ''file_read''
      else if contains_any lower [''write'', ''edit'', ''notebook''] then ''file_write''
      else if contains lower ''git'' then ''git''
      else if contains_any lower [''bash'', ''shell'', ''exec'', ''run'', ''command''] then ''shell_exec''
      else ''unknown'')"

definition uppercase :: "string \<Rightarrow> string" where
  "uppercase s = map (\<lambda>c. if CHR ''a'' \<le> c \<and> c \<le> CHR ''z'' then char_of (of_char c - 32 :: nat) else c) s"

definition mode_violation :: "string \<Rightarrow> string \<Rightarrow> session_db \<Rightarrow> string option" where
  "mode_violation session_id tool_call_id db =
     (case get_session session_id db of
        None \<Rightarrow> None
      | Some session \<Rightarrow>
          let mode = uppercase (sn_mode session) in
          if mode = ''FORGE'' \<or> mode = ''STORM'' then
            (case get_tool_call tool_call_id db of
               None \<Rightarrow> None
             | Some call \<Rightarrow>
                 let scope = tool_scope (tl_name call) in
                 if scope \<in> set BLOCKED_SCOPES_IN_RESTRICTED_MODE
                 then Some (''MODE_VIOLATION: '' @ mode @ '' - tool '' @ quoted (tl_name call) @ '' (scope: '' @ scope @ '') is blocked in '' @ mode @
                        '' mode. Use session.setMode to switch to CRUNCH or NORMAL before approving file-write tools.'')
                 else None)
          else None)"

definition log_decision :: "manager_env \<Rightarrow> string \<Rightarrow> tool_call_row \<Rightarrow> string \<Rightarrow> string option \<Rightarrow> session_app \<Rightarrow> session_app" where
  "log_decision m session_id call approved_by reason a =
     a\<lparr>sa_db := snd (create_tool_call_event (me_id m) (me_now m) session_id (tl_name call)
         (Some (sanitize_tool_input (tl_input call))) approved_by reason (sa_db a))\<rparr>"

definition check_and_log :: "session_call_env \<Rightarrow> string \<Rightarrow> string \<Rightarrow> session_app \<Rightarrow> (unit, string) result \<times> session_app" where
  "check_and_log env session_id tool_call_id a =
     (let m = ce_manager env in
      case get_tool_call tool_call_id (sa_db a) of
        None \<Rightarrow> (Ok (), a)
      | Some call \<Rightarrow>
          (case check_tool_permission (me_parse_scopes m) session_id (tl_name call) (sa_db a) of
             Err e \<Rightarrow> (Err e, a)
           | Ok _ \<Rightarrow>
               (case check_tool_call (ce_home env) (ce_security env) (tl_name call) (tl_input call) of
                  Err e \<Rightarrow>
                    (Err e, log_decision m session_id call ''rejected'' (Some e)
                      (announce ''session.toolCallRejected'' (JObject [(''sessionId'', JString session_id),
                         (''toolCallId'', JString tool_call_id), (''toolName'', JString (tl_name call)), (''reason'', JString e)]) a))
                | Ok _ \<Rightarrow> (Ok (), log_decision m session_id call ''user'' None a))))"

definition tool_approve :: "session_call_env \<Rightarrow> json \<Rightarrow> session_app \<Rightarrow> (json, string) result \<times> session_app" where
  "tool_approve env params a = with_two env ''toolCallId'' params a (\<lambda>s tool_call_id.
     case mode_violation s tool_call_id (sa_db a) of
       Some e \<Rightarrow> (Err e, a)
     | None \<Rightarrow>
         (case check_and_log env s tool_call_id a of
            (Err e, b) \<Rightarrow> (Err e, b)
          | (Ok _, b) \<Rightarrow> (Ok (JObject []), approve_tool (me_now (ce_manager env)) s tool_call_id b)))"

definition tool_reject :: "session_call_env \<Rightarrow> json \<Rightarrow> session_app \<Rightarrow> (json, string) result \<times> session_app" where
  "tool_reject env params a = with_two env ''toolCallId'' params a (\<lambda>s tool_call_id.
     let b = (case get_tool_call tool_call_id (sa_db a) of
            None \<Rightarrow> a | Some call \<Rightarrow> log_decision (ce_manager env) s call ''rejected'' (Some ''user rejected'') a)
     in (Ok (JObject []), reject_tool (me_now (ce_manager env)) s tool_call_id b))"

section \<open>Approving a tool call\<close>

lemma tool_scope_mirror: "tool_scope = tool_name_to_scope"
  by (simp add: fun_eq_iff tool_scope_def tool_name_to_scope_def)

lemma tool_scope_values: "tool_scope name \<in> set BLOCKED_SCOPES_IN_RESTRICTED_MODE \<longleftrightarrow> tool_scope name \<noteq> ''file_read''"
  by (simp add: tool_scope_def BLOCKED_SCOPES_IN_RESTRICTED_MODE_def Let_def)

lemma tool_call_kept: "get_tool_call t (snd (create_tool_call_event i now s n inp by r db)) = get_tool_call t db"
  by (simp add: create_tool_call_event_def get_tool_call_def Let_def split: result.split)

lemma get_completed:
  "get_tool_call t (complete_tool_call now t out st db) =
     map_option (\<lambda>c. c\<lparr>tl_output := out, tl_status := st, tl_completed_at := Some now\<rparr>) (get_tool_call t db)"
proof -
  have "keyed_update tl_id (\<lambda>c. c\<lparr>tl_output := out, tl_status := st, tl_completed_at := Some now\<rparr>)" by unfold_locales simp
  note sel = keyed_update.select_set [OF this, of "\<lambda>c. tl_id c = t" "sd_tool_calls db" t]
  show ?thesis unfolding get_tool_call_def complete_tool_call_def
    using sel select_by_Some [of tl_id "sd_tool_calls db" t] by (cases "select_by tl_id (sd_tool_calls db) t") auto
qed

text \<open>C11: A recorded tool call is approved over the protocol, by a client that names the session the call belongs to, only if
  the mode of that session is not a restricted one or the tool only reads, its scopes permit the tool and the configured
  lists allow it; the approval is then stored with the call and written to the audit with its credentials removed. The
  hypothesis on the session matters: a client may name another one, see \<open>approval_under_other_session\<close>.\<close>

theorem approval_checked:
  assumes decode: "ce_decode_strings env [''sessionId'', ''toolCallId''] params = Ok [s, t]"
    and call: "get_tool_call t (sa_db a) = Some call" and own: "tl_session_id call = s" and approve: "tool_approve env params a = (Ok answer, b)"
    and fresh: "me_id (ce_manager env) \<notin> tv_id ` set (sd_tool_events (sa_db a))"
  shows "(\<exists>session. get_session (tl_session_id call) (sa_db a) = Some session \<and>
      (uppercase (sn_mode session) \<in> {''FORGE'', ''STORM''} \<longrightarrow> tool_name_to_scope (tl_name call) = ''file_read'') \<and>
      scopes_permit (me_parse_scopes (ce_manager env)) (sn_permissions session) (tool_name_to_scope (tl_name call))) \<and>
    check_tool_call (ce_home env) (ce_security env) (tl_name call) (tl_input call) = Ok () \<and>
    map_option tl_status (get_tool_call t (sa_db b)) = Some ''approved'' \<and>
    (\<exists>row. sd_tool_events (sa_db b) = sd_tool_events (sa_db a) @ [row] \<and> tv_session_id row = tl_session_id call \<and> tv_tool_name row = tl_name call \<and>
       tv_sanitized_input row = Some (sanitize_tool_input (tl_input call)) \<and> tv_approved_by row = ''user'')"
proof -
  let ?m = "ce_manager env"
  have mode: "mode_violation s t (sa_db a) = None" and run: "(case check_and_log env s t a of
            (Err e, b) \<Rightarrow> (Err e, b) | (Ok _, b) \<Rightarrow> (Ok (JObject []), approve_tool (me_now ?m) s t b)) = (Ok answer, b)"
    using approve decode by (auto simp: tool_approve_def with_two_def split: option.splits)
  have perm: "check_tool_permission (me_parse_scopes ?m) s (tl_name call) (sa_db a) = Ok ()"
    and sec: "check_tool_call (ce_home env) (ce_security env) (tl_name call) (tl_input call) = Ok ()"
    using run call by (auto simp: check_and_log_def Let_def split: result.splits)
  then have b: "b = approve_tool (me_now ?m) s t (log_decision ?m s call ''user'' None a)"
    using run call by (simp add: check_and_log_def)
  obtain session where session: "get_session s (sa_db a) = Some session"
    "scopes_permit (me_parse_scopes ?m) (sn_permissions session) (tool_name_to_scope (tl_name call))"
    using perm by (auto simp: check_tool_permission_def split: option.splits if_splits)
  have "uppercase (sn_mode session) \<in> {''FORGE'', ''STORM''} \<longrightarrow> tool_name_to_scope (tl_name call) = ''file_read''"
    using mode session call tool_scope_values [of "tl_name call"]
    by (auto simp: mode_violation_def Let_def tool_scope_mirror split: if_splits)
  moreover have "map_option tl_status (get_tool_call t (sa_db b)) = Some ''approved''"
    using call by (simp add: b approve_tool_def decide_tool_def get_completed log_decision_def tool_call_kept)
  moreover have "\<exists>row. sd_tool_events (sa_db b) = sd_tool_events (sa_db a) @ [row] \<and> tv_session_id row = s \<and> tv_tool_name row = tl_name call \<and>
       tv_sanitized_input row = Some (sanitize_tool_input (tl_input call)) \<and> tv_approved_by row = ''user''"
    using fresh by (simp add: b approve_tool_def decide_tool_def complete_tool_call_def log_decision_def create_tool_call_event_def
        insert_row_def no_check_def Let_def)
  ultimately show ?thesis unfolding own using session sec by blast
qed

definition plain_call_env :: session_call_env where
  "plain_call_env = \<lparr>ce_manager = plain_menv ''e'', ce_tasks = empty_db, ce_from_str = (\<lambda>_. None), ce_path_exists = (\<lambda>_. True),
     ce_canonicalize = (\<lambda>_. None), ce_max_sessions = 0,
     ce_security = \<lparr>sc_allowed_tools = [], sc_denied_tools = [''Computer''], sc_denied_paths = []\<rparr>, ce_home = ''/h'',
     ce_decode_create = (\<lambda>_. Err []), ce_decode_strings = (\<lambda>fs p. Ok (map (\<lambda>f. or_default (get_str p f) []) fs)),
     ce_decode_page = (\<lambda>_. Err [])\<rparr>"

text \<open>A session in the mode \<^verbatim>\<open>FORGE\<close> with a recorded shell command and a recorded reading call, and a second session.\<close>

definition forge_app :: session_app where
  "forge_app =
     (let a = snd (session_create (plain_menv ''u'') ''claude'' ''/r'' ''t'' 0 None None asked);
          db = snd (create_tool_call ''v'' 1 ''s'' ''m'' ''Read'' ''notes'' (snd (create_tool_call ''t'' 1 ''s'' ''m'' ''Bash'' ''ls''
                 (set_session_mode 1 ''s'' ''FORGE'' (sa_db a)))))
      in a\<lparr>sa_db := db\<rparr>)"

definition decision :: "string \<Rightarrow> string \<Rightarrow> json" where
  "decision s t = JObject [(''sessionId'', JString s), (''toolCallId'', JString t)]"

theorem approval_checked_witness:
  "\<exists>b. tool_approve plain_call_env (decision ''s'' ''v'') forge_app = (Ok (JObject []), b) \<and>
     map_option tl_status (get_tool_call ''v'' (sa_db b)) = Some ''approved''"
proof -
  let ?b = "snd (tool_approve plain_call_env (decision ''s'' ''v'') forge_app)"
  have run: "tool_approve plain_call_env (decision ''s'' ''v'') forge_app = (Ok (JObject []), ?b)" by (rule prod_eqI) (simp, code_simp, simp)
  have dec: "ce_decode_strings plain_call_env [''sessionId'', ''toolCallId''] (decision ''s'' ''v'') = Ok [''s'', ''v'']" by code_simp
  have own: "map_option tl_session_id (get_tool_call ''v'' (sa_db forge_app)) = Some ''s''" by code_simp
  then obtain call where call: "get_tool_call ''v'' (sa_db forge_app) = Some call" "tl_session_id call = ''s''" by auto
  have "me_id (ce_manager plain_call_env) \<notin> tv_id ` set (sd_tool_events (sa_db forge_app))" by code_simp
  from approval_checked [OF dec call run this] run show ?thesis by blast
qed

section \<open>What the calls do not check\<close>

text \<open>The session is the one the client names and not the session of the tool call: a call that the mode of its session
  forbids is approved in the name of another one.\<close>

theorem approval_under_other_session:
  "let r = tool_approve plain_call_env (decision ''s'' ''t'') forge_app; r' = tool_approve plain_call_env (decision ''u'' ''t'') forge_app
   in \<not> is_ok (fst r) \<and> is_ok (fst r') \<and> map_option tl_session_id (get_tool_call ''t'' (sa_db (snd r'))) = Some ''s'' \<and>
      map_option tl_status (get_tool_call ''t'' (sa_db (snd r'))) = Some ''approved''"
  by code_simp

text \<open>Scopes that cannot be read permit everything, and a name is searched for words anywhere in it.\<close>

theorem unreadable_scopes_permit_all:
  assumes "get_session s db = Some row" and "sn_permissions row = Some json" and "parse json = None"
  shows "check_tool_permission parse s tool db = Ok ()"
  using assms by (simp add: check_tool_permission_def scopes_permit_def or_default_def)

theorem scope_by_substring:
  "tool_name_to_scope ''thread_exec'' = ''file_read'' \<and> tool_name_to_scope ''digital_signature'' = ''git''"
  by code_simp

text \<open>A negative limit passes the cap of two hundred messages, and the database reads it as no limit.\<close>

lemma sort_key_rev_sort:
  assumes "inj_on key (set xs)"
  shows "sort_key key (rev (sort_key key xs)) = sort_key key xs"
  using assms by (intro sort_key_inj_key_eq) auto

theorem negative_limit_reads_all:
  assumes "session_db_ok (sa_db a)" and "session_exists s (sa_db a)" and "limit < 0"
  shows "get_messages s (min limit 200) None a = Ok (map msg_row_to_view (conversation s (sa_db a)))"
proof -
  obtain row where "get_session s (sa_db a) = Some row"
    using assms(2) by (cases "get_session s (sa_db a)") (auto simp: get_session_def select_by_None session_exists_def)
  moreover have "list_messages s (min limit 200) None (sa_db a) = conversation s (sa_db a)"
    using assms(3) sort_key_rev_sort [of message_key "filter (\<lambda>m. ms_session_id m = s) (sd_messages (sa_db a))"]
      inj_on_subset [OF inj_message_key [OF assms(1)], of "{m \<in> set (sd_messages (sa_db a)). ms_session_id m = s}"]
    by (simp add: list_messages_def limit_offset_def conversation_def Let_def)
  ultimately show ?thesis by (simp add: get_messages_def on_session_def)
qed

text \<open>The primer of an inheriting session asks for tasks with the status \<^verbatim>\<open>active\<close>, which the schema does not have: it
  never names a task.\<close>

theorem primer_names_no_task:
  assumes "schema_ok (ce_tasks env)"
  shows "active_task_ids env = []"
proof -
  have "at_status r \<noteq> ''active''" if "r \<in> set (db_tasks (ce_tasks env))" for r
    using status_in_domain [OF assms that] by (auto simp: TASK_STATUSES_def)
  then have none: "filter (\<lambda>r. at_status r = ''active'') (sort_key f (db_tasks (ce_tasks env))) = []" for f :: "agent_task_row \<Rightarrow> nat \<times> int"
    by (auto simp: filter_empty_conv)
  show ?thesis unfolding active_task_ids_def list_tasks_def Let_def
    by (simp add: default_list_params_def retain_if_def none)
qed

end
