(* ===== verification/Topology.thy ===== *)
theory Topology
  imports Task_Rpc "HOL-Library.AList"
begin

text \<open>
  The graph of repositories: \<^verbatim>\<open>topology/model.rs\<close>, \<^verbatim>\<open>topology/storage.rs\<close> (the table of edges, the search for
  cycles), \<^verbatim>\<open>topology/handlers.rs\<close> (the calls) and \<^verbatim>\<open>topology/detector.rs\<close> (the guesses from manifests and
  imports). The file system is a record of its answers, a confidence is the decimal text of the number, which
  the code only stores, and a time is its text. The order in which a \<^verbatim>\<open>HashSet\<close> is visited is an argument.
\<close>

section \<open>Data\<close>

datatype dep_type = BuildsOn | UsesApi | SharesTypes | DeploysWith

fun dep_type_as_str :: "dep_type \<Rightarrow> string" where
  "dep_type_as_str BuildsOn = ''builds_on''"
| "dep_type_as_str UsesApi = ''uses_api''"
| "dep_type_as_str SharesTypes = ''shares_types''"
| "dep_type_as_str DeploysWith = ''deploys_with''"

definition dep_type_from_str :: "string \<Rightarrow> dep_type" where
  "dep_type_from_str s =
     (if s = ''builds_on'' then BuildsOn
      else if s = ''shares_types'' then SharesTypes
      else if s = ''deploys_with'' then DeploysWith
      else UsesApi)"

record repo_node =
  rn_path :: string
  rn_name :: string
  rn_health_score :: u8
  rn_stack :: "string list"

text \<open>\<^verbatim>\<open>Path::file_name\<close>: the last component, if that is a name.\<close>

definition file_name :: "string \<Rightarrow> string option" where
  "file_name p = (let cs = components p in if cs = [] \<or> last cs \<in> {''/'', ''.'', ''..''} then None else Some (last cs))"

definition repo_name :: "string \<Rightarrow> string" where
  "repo_name path = (case file_name path of Some n \<Rightarrow> n | None \<Rightarrow> path)"

definition node_from_path :: "string \<Rightarrow> repo_node" where
  "node_from_path path = \<lparr>rn_path = path, rn_name = repo_name path, rn_health_score = 100, rn_stack = []\<rparr>"

record dependency =
  dp_id :: string
  dp_from :: string
  dp_to :: string
  dp_type :: dep_type
  dp_confidence :: string
  dp_auto_detected :: bool
  dp_created_at :: string

record dep_row =
  dr_id :: string
  dr_from :: string
  dr_to :: string
  dr_type :: string
  dr_confidence :: string
  dr_auto_detected :: int
  dr_created_at :: string

record topology_graph =
  tg_nodes :: "repo_node list"
  tg_edges :: "dependency list"

definition dependency_of_row :: "dep_row \<Rightarrow> dependency" where
  "dependency_of_row r =
     \<lparr>dp_id = dr_id r, dp_from = dr_from r, dp_to = dr_to r, dp_type = dep_type_from_str (dr_type r),
      dp_confidence = dr_confidence r, dp_auto_detected = (dr_auto_detected r \<noteq> 0), dp_created_at = dr_created_at r\<rparr>"

section \<open>The table of edges\<close>

text \<open>
  \<^verbatim>\<open>INSERT ... ON CONFLICT(from_repo, to_repo) DO UPDATE\<close>. The row is read back, so that an edge which was
  there answers with its own id. A conflict on the primary key alone is an error.
\<close>

definition same_edge :: "string \<Rightarrow> string \<Rightarrow> dep_row \<Rightarrow> bool" where
  "same_edge from to r \<longleftrightarrow> dr_from r = from \<and> dr_to r = to"

definition upsert_edge :: "dep_row \<Rightarrow> dep_row list \<Rightarrow> (dep_row list, db_error) result" where
  "upsert_edge row rows =
     (if \<exists>r \<in> set rows. same_edge (dr_from row) (dr_to row) r
      then Ok (set_where (same_edge (dr_from row) (dr_to row))
        (\<lambda>r. r\<lparr>dr_type := dr_type row, dr_confidence := dr_confidence row, dr_auto_detected := dr_auto_detected row\<rparr>) rows)
      else if dr_id row \<in> dr_id ` set rows then Err (UniqueFailed ''repo_dependencies'')
      else Ok (rows @ [row]))"

definition add_dependency ::
  "string \<Rightarrow> string \<Rightarrow> string \<Rightarrow> string \<Rightarrow> dep_type \<Rightarrow> string \<Rightarrow> bool \<Rightarrow> dep_row list \<Rightarrow>
     (dependency, db_error) result \<times> dep_row list" where
  "add_dependency new_id now from to ty confidence auto_detected rows =
     (case upsert_edge \<lparr>dr_id = new_id, dr_from = from, dr_to = to, dr_type = dep_type_as_str ty, dr_confidence = confidence,
        dr_auto_detected = (if auto_detected then 1 else 0), dr_created_at = now\<rparr> rows of
        Err e \<Rightarrow> (Err e, rows)
      | Ok rows' \<Rightarrow>
          (case find (same_edge from to) rows' of
             Some r \<Rightarrow> (Ok (dependency_of_row r), rows')
           | None \<Rightarrow> (Err RowNotFound, rows')))"

definition remove_dependency :: "string \<Rightarrow> dep_row list \<Rightarrow> dep_row list" where
  "remove_dependency i rows = delete_where (\<lambda>r. dr_id r = i) rows"

text \<open>The paths that the edges name; \<open>ks\<close> lists them in the order of the set.\<close>

definition edge_paths :: "dependency list \<Rightarrow> string set" where
  "edge_paths es = dp_from ` set es \<union> dp_to ` set es"

definition topology_edges :: "dep_row list \<Rightarrow> dependency list" where
  "topology_edges rows = map dependency_of_row (sort_key dr_created_at rows)"

definition get_topology :: "string list \<Rightarrow> dep_row list \<Rightarrow> topology_graph" where
  "get_topology ks rows = \<lparr>tg_nodes = map node_from_path ks, tg_edges = topology_edges rows\<rparr>"

definition list_dependencies :: "string \<Rightarrow> dep_row list \<Rightarrow> dependency list" where
  "list_dependencies repo rows =
     map dependency_of_row (sort_key dr_created_at (filter (\<lambda>r. dr_from r = repo \<or> dr_to r = repo) rows))"

section \<open>Cycles\<close>

type_synonym adjacency = "(string \<times> string list) list"

text \<open>\<^verbatim>\<open>adj.entry(from).or_default().push(to)\<close>.\<close>

definition neighbours :: "adjacency \<Rightarrow> string \<Rightarrow> string list" where
  "neighbours adj node = (case map_of adj node of Some ns \<Rightarrow> ns | None \<Rightarrow> [])"

definition push_edge :: "dependency \<Rightarrow> adjacency \<Rightarrow> adjacency" where
  "push_edge e adj = AList.update (dp_from e) (neighbours adj (dp_from e) @ [dp_to e]) adj"

definition build_adjacency :: "dependency list \<Rightarrow> adjacency" where
  "build_adjacency es = fold push_edge es []"

text \<open>
  The recursion of \<^verbatim>\<open>dfs_find_cycle\<close>: \<open>path\<close> holds the nodes on the way, and the cycles a call records are its
  value. It ends because a node with outgoing edges that is not on the way is put there.
\<close>

definition describe_cycle :: "string list \<Rightarrow> string \<Rightarrow> string" where
  "describe_cycle path node = join '' -> '' (dropWhile (\<lambda>p. p \<noteq> node) path) @ '' -> '' @ node"

function dfs_find_cycle :: "string \<Rightarrow> adjacency \<Rightarrow> string list \<Rightarrow> string list" where
  "dfs_find_cycle node adj path =
     (if node \<in> set path then [describe_cycle path node]
      else case map_of adj node of
             None \<Rightarrow> []
           | Some ns \<Rightarrow> concat (map (\<lambda>next_node. dfs_find_cycle next_node adj (path @ [node])) ns))"
  by pat_completeness auto
termination
proof (relation "measure (\<lambda>(node, adj, path). card (fst ` set adj - set path))", simp, goal_cases)
  case (1 node adj path ns next_node)
  have "node \<in> fst ` set adj" using 1(2) by (auto dest: map_of_SomeD intro: rev_image_eqI)
  with 1(1) have "fst ` set adj - set (path @ [node]) \<subset> fst ` set adj - set path" by auto
  then show ?case by (simp add: psubset_card_mono)
qed

declare dfs_find_cycle.simps [simp del]

definition find_cycles :: "string list \<Rightarrow> dep_row list \<Rightarrow> string list" where
  "find_cycles ks rows =
     (let graph = get_topology ks rows; adj = build_adjacency (tg_edges graph); nodes = map rn_path (tg_nodes graph)
      in remdups_adj (sort (concat (map (\<lambda>start. dfs_find_cycle start adj []) nodes))))"

section \<open>Type names of a source tree\<close>

text \<open>
  The answers of the file system: the entries of a directory that can be read, in the order it lists them, and
  the kind and text of a path.
\<close>

record file_system =
  fs_read_dir :: "string \<Rightarrow> string list option"
  fs_is_dir :: "string \<Rightarrow> bool"
  fs_is_file :: "string \<Rightarrow> bool"
  fs_read :: "string \<Rightarrow> string option"
  fs_exists :: "string \<Rightarrow> bool"

definition skipped_entry :: "string \<Rightarrow> bool" where
  "skipped_entry name \<longleftrightarrow>
     starts_with name ''.'' \<or> name \<in> {''node_modules'', ''target'', ''build'', ''.dart_tool''}"

definition is_name_char :: "char \<Rightarrow> bool" where
  "is_name_char c \<longleftrightarrow> is_alphanumeric c \<or> c = CHR ''_''"

text \<open>The first prefix that the trimmed line has decides.\<close>

fun declared_name :: "string list \<Rightarrow> string \<Rightarrow> string option" where
  "declared_name [] line = None"
| "declared_name (p # ps) line =
     (case strip_prefix line p of
        Some rest \<Rightarrow> (let name = takeWhile is_name_char rest in if name = [] then None else Some name)
      | None \<Rightarrow> declared_name ps line)"

definition extract_type_names :: "string list \<Rightarrow> string \<Rightarrow> string set" where
  "extract_type_names kinds content = set (List.map_filter (\<lambda>l. declared_name kinds (trim l)) (lines content))"

definition dart_prefixes :: "string list" where
  "dart_prefixes = [''class '', ''enum '', ''typedef '', ''abstract class '', ''mixin '']"

definition ts_prefixes :: "string list" where
  "ts_prefixes = [''export interface '', ''export type '', ''export class '', ''export enum '']"

definition rust_prefixes :: "string list" where
  "rust_prefixes = [''pub struct '', ''pub enum '', ''pub type '']"

definition extract_for_extension :: "string \<Rightarrow> string \<Rightarrow> string set" where
  "extract_for_extension ext content =
     (if ext = ''dart'' then extract_type_names dart_prefixes content
      else if ext \<in> {''ts'', ''tsx''} then extract_type_names ts_prefixes content
      else if ext = ''rs'' then extract_type_names rust_prefixes content
      else {})"

definition extension_or_empty :: "string \<Rightarrow> string" where
  "extension_or_empty p = (case path_extension p of Some e \<Rightarrow> e | None \<Rightarrow> [])"

text \<open>\<open>levels\<close> is the number of levels that remain: seven at depth 0, none beyond depth 6.\<close>

fun collect_type_names :: "nat \<Rightarrow> file_system \<Rightarrow> string \<Rightarrow> string set" where
  "collect_type_names 0 fs dir = {}"
| "collect_type_names (Suc levels) fs dir =
     (case fs_read_dir fs dir of
        None \<Rightarrow> {}
      | Some entries \<Rightarrow>
          \<Union> (set (map (\<lambda>name.
            (let path = path_join dir name in
             if skipped_entry name then {}
             else if fs_is_dir fs path then collect_type_names levels fs path
             else if fs_is_file fs path
               then (case fs_read fs path of None \<Rightarrow> {} | Some content \<Rightarrow> extract_for_extension (extension_or_empty path) content)
             else {})) entries)))"

definition collect_exported_type_names :: "file_system \<Rightarrow> string \<Rightarrow> string set" where
  "collect_exported_type_names fs dir = collect_type_names 7 fs dir"

section \<open>Guessed edges\<close>

fun scan_dir :: "nat \<Rightarrow> file_system \<Rightarrow> string list \<Rightarrow> string \<Rightarrow> string \<Rightarrow> bool" where
  "scan_dir 0 fs exts needle dir = False"
| "scan_dir (Suc levels) fs exts needle dir =
     (case fs_read_dir fs dir of
        None \<Rightarrow> False
      | Some entries \<Rightarrow>
          list_ex (\<lambda>name.
            (let path = path_join dir name in
             if skipped_entry name then False
             else if fs_is_dir fs path then scan_dir levels fs exts needle path
             else fs_is_file fs path \<and> extension_or_empty path \<in> set exts \<and>
               (case fs_read fs path of Some content \<Rightarrow> contains content needle | None \<Rightarrow> False))) entries)"

definition scan_imports_for_name :: "file_system \<Rightarrow> string \<Rightarrow> string \<Rightarrow> bool" where
  "scan_imports_for_name fs repo other_name = scan_dir 7 fs [''dart'', ''ts'', ''tsx'', ''rs'', ''py''] other_name repo"

definition cargo_members_reference :: "string \<Rightarrow> string \<Rightarrow> bool" where
  "cargo_members_reference content name \<longleftrightarrow> contains content ''[workspace]'' \<and> contains content name"

definition file_text :: "file_system \<Rightarrow> string \<Rightarrow> string option" where
  "file_text fs p = (if fs_is_file fs p then fs_read fs p else None)"

definition guess_dependency :: "file_system \<Rightarrow> string \<Rightarrow> string \<Rightarrow> (dep_type \<times> string) option" where
  "guess_dependency fs repo other =
     (let other_name = repo_name other in
      if (case file_text fs (path_join repo ''Cargo.toml'') of
            Some content \<Rightarrow> cargo_members_reference content other_name \<or> contains content other | None \<Rightarrow> False)
        then Some (BuildsOn, ''0.9'')
      else if (case file_text fs (path_join repo ''package.json'') of
            Some content \<Rightarrow> contains content other_name \<or> contains content other | None \<Rightarrow> False)
        then Some (SharesTypes, ''0.85'')
      else if scan_imports_for_name fs repo other_name then Some (UsesApi, ''0.6'')
      else None)"

text \<open>\<^verbatim>\<open>make_dep\<close>; the ids drawn and the clock are arguments.\<close>

definition make_dep :: "string \<Rightarrow> string \<Rightarrow> string \<Rightarrow> string \<Rightarrow> dep_type \<Rightarrow> string \<Rightarrow> bool \<Rightarrow> dependency" where
  "make_dep new_id now from to ty confidence auto_detected =
     \<lparr>dp_id = new_id, dp_from = from, dp_to = to, dp_type = ty, dp_confidence = confidence,
      dp_auto_detected = auto_detected, dp_created_at = now\<rparr>"

definition auto_detect_dependencies ::
  "(string \<Rightarrow> string) \<Rightarrow> string \<Rightarrow> file_system \<Rightarrow> string \<Rightarrow> string list \<Rightarrow> dependency list" where
  "auto_detect_dependencies new_id now fs repo all_repos =
     List.map_filter (\<lambda>other.
       if other = repo then None
       else map_option (\<lambda>(ty, confidence). make_dep (new_id other) now repo other ty confidence True) (guess_dependency fs repo other))
       all_repos"

section \<open>Calls\<close>

definition validate_repo_path :: "string \<Rightarrow> string \<Rightarrow> (unit, string) result" where
  "validate_repo_path field value =
     (if CHR 0x00 \<in> set value then Err (''invalid '' @ field @ '': null byte'')
      else if \<not> starts_with value ''/'' then Err (''invalid '' @ field @ '': must be an absolute path'')
      else Ok ())"

record add_dependency_params =
  dpp_from_repo :: string
  dpp_to_repo :: string
  dpp_dep_type :: "string option"
  dpp_confidence :: "string option"

definition default_dep_type :: string where
  "default_dep_type = ''uses_api''"

definition default_confidence :: string where
  "default_confidence = ''1.0''"

text \<open>The fields with their serde defaults.\<close>

definition dep_type_param :: "add_dependency_params \<Rightarrow> string" where
  "dep_type_param p = (case dpp_dep_type p of Some t \<Rightarrow> t | None \<Rightarrow> default_dep_type)"

definition confidence_param :: "add_dependency_params \<Rightarrow> string" where
  "confidence_param p = (case dpp_confidence p of Some c \<Rightarrow> c | None \<Rightarrow> default_confidence)"

definition dependency_json :: "dependency \<Rightarrow> json" where
  "dependency_json d =
     JObject [(''id'', JString (dp_id d)), (''fromRepo'', JString (dp_from d)), (''toRepo'', JString (dp_to d)),
       (''depType'', JString (dep_type_as_str (dp_type d))), (''confidence'', JNumber (dp_confidence d)),
       (''autoDetected'', JBool (dp_auto_detected d)), (''createdAt'', JString (dp_created_at d))]"

definition topology_add_dependency ::
  "string \<Rightarrow> string \<Rightarrow> (json \<Rightarrow> (add_dependency_params, string) result) \<Rightarrow> (db_error \<Rightarrow> string) \<Rightarrow> json \<Rightarrow> dep_row list \<Rightarrow>
     (json, string) result \<times> dep_row list" where
  "topology_add_dependency new_id now decode show_db params rows =
     (case decode params of
        Err e \<Rightarrow> (Err e, rows)
      | Ok p \<Rightarrow>
          (case and_then (validate_repo_path ''fromRepo'' (dpp_from_repo p)) (\<lambda>_. validate_repo_path ''toRepo'' (dpp_to_repo p)) of
             Err e \<Rightarrow> (Err e, rows)
           | Ok _ \<Rightarrow>
               if dpp_from_repo p = dpp_to_repo p then (Err ''fromRepo and toRepo must be different'', rows)
               else (case add_dependency new_id now (dpp_from_repo p) (dpp_to_repo p)
                       (dep_type_from_str (dep_type_param p)) (confidence_param p) False rows of
                       (Ok d, rows') \<Rightarrow> (Ok (dependency_json d), rows')
                     | (Err e, rows') \<Rightarrow> (Err (show_db e), rows'))))"

definition topology_remove_dependency :: "(json \<Rightarrow> (string, string) result) \<Rightarrow> json \<Rightarrow> dep_row list \<Rightarrow> (json, string) result \<times> dep_row list" where
  "topology_remove_dependency decode params rows =
     (case decode params of
        Err e \<Rightarrow> (Err e, rows)
      | Ok i \<Rightarrow>
          if i = [] then (Err ''id is required'', rows)
          else (Ok (JObject [(''removed'', JBool True), (''id'', JString i)]), remove_dependency i rows))"

definition missing_repos :: "file_system \<Rightarrow> string list \<Rightarrow> string list" where
  "missing_repos fs ks = sort (filter (\<lambda>p. \<not> fs_exists fs p) ks)"

definition strings_json :: "string list \<Rightarrow> json" where
  "strings_json ss = JArray (map JString ss)"

definition topology_validate :: "file_system \<Rightarrow> string list \<Rightarrow> dep_row list \<Rightarrow> json" where
  "topology_validate fs ks rows =
     (let cycles = find_cycles ks rows; missing = missing_repos fs ks; valid = (cycles = [] \<and> missing = [])
      in JObject [(''valid'', JBool valid), (''cycles'', strings_json cycles), (''missing'', strings_json missing)])"

text \<open>The long dash of the last message is outside the character type and written as a hyphen.\<close>

record cross_validation_result =
  cv_source_repo :: string
  cv_target_repo :: string
  cv_check :: string
  cv_passed :: bool
  cv_detail :: string

definition validate_shared_types :: "file_system \<Rightarrow> string \<Rightarrow> string \<Rightarrow> cross_validation_result" where
  "validate_shared_types fs from to =
     (let from_types = collect_exported_type_names fs from; to_types = collect_exported_type_names fs to;
          shared = card (from_types \<inter> to_types);
          passed = (from_types \<noteq> {} \<and> to_types \<noteq> {} \<and> 0 < shared)
      in \<lparr>cv_source_repo = from, cv_target_repo = to, cv_check = ''shared_type_names'', cv_passed = passed,
          cv_detail =
            (if passed then show_nat shared @ '' shared type name(s) found''
             else if from_types = {} then ''no exported types found in '' @ from
             else if to_types = {} then ''no exported types found in '' @ to
             else ''no overlapping type names found - possible type mismatch'')\<rparr>)"

definition topology_cross_validate :: "file_system \<Rightarrow> string option \<Rightarrow> dep_row list \<Rightarrow> cross_validation_result list" where
  "topology_cross_validate fs repo_path rows =
     (let edges = topology_edges rows;
          checked = (case repo_path of Some rp \<Rightarrow> filter (\<lambda>e. dp_from e = rp) edges | None \<Rightarrow> edges)
      in map (\<lambda>e. validate_shared_types fs (dp_from e) (dp_to e)) (filter (\<lambda>e. dp_type e = SharesTypes) checked))"

end
