(* ===== verification/Topology_Props.thy ===== *)
theory Topology_Props
  imports Topology
begin

text \<open>
  Properties of the graph of repositories: the search for cycles against the cycles of the edge relation, the
  table of edges as a map from pairs of paths, the validation call and the comparison of type names.
\<close>

section \<open>Cycles of a relation\<close>

text \<open>A cycle is a list of different nodes whose successive pairs, and the pair from the last to the first, are edges.\<close>

definition is_cycle :: "('a \<times> 'a) set \<Rightarrow> 'a list \<Rightarrow> bool" where
  "is_cycle E ns \<longleftrightarrow> ns \<noteq> [] \<and> distinct ns \<and> successively (\<lambda>x y. (x, y) \<in> E) (ns @ [hd ns])"

abbreviation walk :: "('a \<times> 'a) set \<Rightarrow> 'a list \<Rightarrow> bool" where
  "walk E xs \<equiv> successively (\<lambda>x y. (x, y) \<in> E) xs"

lemma walk_trancl: "walk E (x # ns @ [y]) \<Longrightarrow> (x, y) \<in> E\<^sup>+"
  by (induction ns arbitrary: x) (auto intro: trancl_into_trancl2)

lemma trancl_walk: "(x, y) \<in> E\<^sup>+ \<Longrightarrow> \<exists>ns. walk E (x # ns @ [y])"
proof (induction rule: trancl_induct)
  case (base y)
  then have "walk E (x # [] @ [y])" by simp
  then show ?case by blast
next
  case (step y z)
  then obtain ns where "walk E (x # ns @ [y])" by blast
  with step(2) have "walk E (x # (ns @ [y]) @ [z])"
    using successively_append_iff [of "\<lambda>x y. (x, y) \<in> E" "x # ns @ [y]" "[z]"] by simp
  then show ?case by blast
qed

text \<open>A closed walk that repeats a node contains a shorter one.\<close>

lemma closed_walk_cycle: "ns \<noteq> [] \<Longrightarrow> walk E (ns @ [hd ns]) \<Longrightarrow> \<exists>cs. is_cycle E cs"
proof (induction "length ns" arbitrary: ns rule: less_induct)
  case less
  show ?case
  proof (cases "distinct ns")
    case True
    with less.prems show ?thesis by (auto simp: is_cycle_def)
  next
    case False
    then obtain a y b c where ns: "ns = a @ [y] @ b @ [y] @ c" using not_distinct_decomp by blast
    have "walk E (a @ (y # b @ [y]) @ c @ [hd ns])" using less.prems(2) by (simp add: ns)
    then have "walk E (y # b @ [y])" unfolding successively_append_iff by blast
    then have "walk E ((y # b) @ [hd (y # b)])" by simp
    with less.hyps [of "y # b"] show ?thesis by (simp add: ns)
  qed
qed

lemma acyclic_iff_no_cycle: "acyclic E \<longleftrightarrow> (\<forall>ns. \<not> is_cycle E ns)"
proof
  assume "acyclic E"
  show "\<forall>ns. \<not> is_cycle E ns"
  proof (intro allI notI)
    fix ns assume c: "is_cycle E ns"
    then obtain x xs where "ns = x # xs" by (cases ns) (auto simp: is_cycle_def)
    with c have "(x, x) \<in> E\<^sup>+" by (auto simp: is_cycle_def intro: walk_trancl)
    with \<open>acyclic E\<close> show False by (simp add: acyclic_def)
  qed
next
  assume none: "\<forall>ns. \<not> is_cycle E ns"
  show "acyclic E"
  proof (rule acyclicI, intro allI notI)
    fix x assume "(x, x) \<in> E\<^sup>+"
    then obtain ns where "walk E ((x # ns) @ [hd (x # ns)])" using trancl_walk by fastforce
    with closed_walk_cycle [of "x # ns"] none show False by blast
  qed
qed

section \<open>The search\<close>

definition adj_rel :: "adjacency \<Rightarrow> (string \<times> string) set" where
  "adj_rel adj = {(x, y). y \<in> set (neighbours adj x)}"

definition edge_rel :: "dependency list \<Rightarrow> (string \<times> string) set" where
  "edge_rel es = (\<lambda>e. (dp_from e, dp_to e)) ` set es"

lemma neighbours_push: "neighbours (push_edge e adj) x = neighbours adj x @ (if dp_from e = x then [dp_to e] else [])"
  by (simp add: neighbours_def push_edge_def update_conv)

lemma neighbours_fold: "neighbours (fold push_edge es adj) x = neighbours adj x @ map dp_to (filter (\<lambda>e. dp_from e = x) es)"
  by (induction es arbitrary: adj) (simp_all add: neighbours_push)

lemma adj_rel_build: "adj_rel (build_adjacency es) = edge_rel es"
  by (auto simp: adj_rel_def edge_rel_def build_adjacency_def neighbours_fold) (auto simp: neighbours_def)

lemma dfs_unfold:
  "dfs_find_cycle node adj path =
     (if node \<in> set path then [describe_cycle path node]
      else concat (map (\<lambda>y. dfs_find_cycle y adj (path @ [node])) (neighbours adj node)))"
  by (subst dfs_find_cycle.simps) (simp add: neighbours_def split: option.split)

text \<open>
  What a call records: the ways from its node that go through new nodes until they meet one on the way.
\<close>

lemma dfs_sound:
  assumes "c \<in> set (dfs_find_cycle node adj path)" and "distinct path"
  shows "\<exists>q x. c = describe_cycle (path @ q) x \<and> x \<in> set (path @ q) \<and> hd (q @ [x]) = node \<and>
    distinct (path @ q) \<and> walk (adj_rel adj) (q @ [x])"
  using assms
proof (induction node adj path rule: dfs_find_cycle.induct)
  case (1 node adj path)
  show ?case
  proof (cases "node \<in> set path")
    case True
    with 1(2,3) show ?thesis by (subst (asm) dfs_unfold) (auto intro!: exI [of _ "[]"] exI [of _ node])
  next
    case False
    with 1(2) obtain y where y: "y \<in> set (neighbours adj node)" "c \<in> set (dfs_find_cycle y adj (path @ [node]))"
      by (subst (asm) dfs_unfold) auto
    then obtain ns where "map_of adj node = Some ns" "y \<in> set ns"
      by (cases "map_of adj node") (auto simp: neighbours_def)
    from 1(1) [OF False this y(2)] 1(3) False obtain q x where q: "c = describe_cycle ((path @ [node]) @ q) x"
      "x \<in> set ((path @ [node]) @ q)" "hd (q @ [x]) = y" "distinct ((path @ [node]) @ q)" "walk (adj_rel adj) (q @ [x])"
      by auto
    have "(node, hd (q @ [x])) \<in> adj_rel adj" using y(1) q(3) by (simp add: adj_rel_def)
    with q(5) have "walk (adj_rel adj) ((node # q) @ [x])" by (simp add: successively_Cons)
    with q show ?thesis by (intro exI [of _ "node # q"] exI [of _ x]) simp
  qed
qed

lemma dfs_complete:
  assumes "hd (q @ [x]) = node" and "x \<in> set (path @ q)" and "distinct (path @ q)" and "walk (adj_rel adj) (q @ [x])"
  shows "describe_cycle (path @ q) x \<in> set (dfs_find_cycle node adj path)"
  using assms
proof (induction q arbitrary: path node)
  case Nil
  then show ?case by (subst dfs_unfold) simp
next
  case (Cons n q)
  then have n: "node = n" "n \<notin> set path" by auto
  let ?y = "hd (q @ [x])"
  have "(n, ?y) \<in> adj_rel adj" "walk (adj_rel adj) (q @ [x])" using Cons.prems(4) by (auto simp: successively_Cons)
  then have "?y \<in> set (neighbours adj n)" "describe_cycle ((path @ [n]) @ q) x \<in> set (dfs_find_cycle ?y adj (path @ [n]))"
    using Cons.IH [of ?y "path @ [n]"] Cons.prems(2,3) by (auto simp: adj_rel_def)
  with n show ?case by (subst dfs_unfold) auto
qed

lemma join_snoc: "ns \<noteq> [] \<Longrightarrow> join sep (ns @ [x]) = join sep ns @ sep @ x"
  by (induction sep ns rule: join.induct) auto

definition cycle_text :: "string list \<Rightarrow> string" where
  "cycle_text ns = join '' -> '' (ns @ [hd ns])"

lemma describe_cycle_text: "x \<notin> set a \<Longrightarrow> describe_cycle (a @ x # b) x = cycle_text (x # b)"
  using join_snoc [of "x # b" "'' -> ''" x] by (simp add: describe_cycle_def cycle_text_def dropWhile_append)

lemma dfs_starts:
  "(\<Union>start \<in> N. set (dfs_find_cycle start adj [])) = {cycle_text ns |ns. is_cycle (adj_rel adj) ns}"
  if "fst ` adj_rel adj \<subseteq> N" for N
proof (intro equalityI subsetI)
  fix c assume "c \<in> (\<Union>start \<in> N. set (dfs_find_cycle start adj []))"
  then obtain q x where q: "c = describe_cycle q x" "x \<in> set q" "distinct q" "walk (adj_rel adj) (q @ [x])"
    using dfs_sound [of c _ adj "[]"] by fastforce
  obtain a b where ab: "q = a @ x # b" "x \<notin> set a" using split_list_first [OF q(2)] by blast
  have "walk (adj_rel adj) ((x # b) @ [x])"
    using q(4) successively_append_iff [of "\<lambda>x y. (x, y) \<in> adj_rel adj" a "x # b @ [x]"] by (simp add: ab(1))
  with q(3) ab(1) have "is_cycle (adj_rel adj) (x # b)" by (simp add: is_cycle_def)
  with q(1) ab describe_cycle_text show "c \<in> {cycle_text ns |ns. is_cycle (adj_rel adj) ns}" by blast
next
  fix c assume "c \<in> {cycle_text ns |ns. is_cycle (adj_rel adj) ns}"
  then obtain x b where c: "c = cycle_text (x # b)" "distinct (x # b)" "walk (adj_rel adj) ((x # b) @ [x])"
    by (auto simp: is_cycle_def neq_Nil_conv)
  have "x \<in> fst ` adj_rel adj" using c(3) by (cases b) (auto intro: rev_image_eqI)
  moreover have "c \<in> set (dfs_find_cycle x adj [])"
    using dfs_complete [of "x # b" x x "[]" adj] c describe_cycle_text [of x "[]" b] by simp
  ultimately show "c \<in> (\<Union>start \<in> N. set (dfs_find_cycle start adj []))" using that by blast
qed

lemma sorted_dedup_distinct: "sorted xs \<Longrightarrow> distinct (remdups_adj xs)"
  by (induction xs rule: remdups_adj.induct) auto

lemma sort_dedup: "remdups_adj (sort xs) = sorted_list_of_set (set xs)"
proof (rule sorted_distinct_set_unique)
  show "distinct (remdups_adj (sort xs))" by (rule sorted_dedup_distinct) simp
qed simp_all

section \<open>The cycles that are reported\<close>

lemma edge_rel_domain: "fst ` edge_rel es \<subseteq> edge_paths es"
  by (auto simp: edge_rel_def edge_paths_def)

text \<open>
  The answer of the search is the sorted list of the cycles of the edge relation, each written from every node
  on it, whatever the order in which the set of paths is visited.
\<close>

theorem find_cycles_exact:
  assumes "set ks = edge_paths (topology_edges rows)"
  shows "find_cycles ks rows = sorted_list_of_set {cycle_text ns |ns. is_cycle (edge_rel (topology_edges rows)) ns}"
proof -
  let ?es = "topology_edges rows"
  have "find_cycles ks rows = sorted_list_of_set (\<Union>start \<in> set ks. set (dfs_find_cycle start (build_adjacency ?es) []))"
    by (simp add: find_cycles_def get_topology_def sort_dedup node_from_path_def comp_def)
  also have "(\<Union>start \<in> set ks. set (dfs_find_cycle start (build_adjacency ?es) [])) = {cycle_text ns |ns. is_cycle (edge_rel ?es) ns}"
    using dfs_starts [of "build_adjacency ?es" "set ks"] edge_rel_domain [of ?es] assms by (simp add: adj_rel_build)
  finally show ?thesis .
qed

lemma finite_cycle_texts: "finite {cycle_text ns |ns. is_cycle (edge_rel es) ns}"
proof -
  have "{cycle_text ns |ns. is_cycle (edge_rel es) ns} =
      (\<Union>start \<in> edge_paths es. set (dfs_find_cycle start (build_adjacency es) []))"
    using dfs_starts [of "build_adjacency es" "edge_paths es"] edge_rel_domain [of es] by (simp add: adj_rel_build)
  moreover have "finite (edge_paths es)" by (simp add: edge_paths_def)
  ultimately show ?thesis by simp
qed

lemma find_cycles_acyclic:
  assumes "set ks = edge_paths (topology_edges rows)"
  shows "find_cycles ks rows = [] \<longleftrightarrow> acyclic (edge_rel (topology_edges rows))"
  using finite_cycle_texts [of "topology_edges rows"]
  by (auto simp: find_cycles_exact [OF assms] acyclic_iff_no_cycle)

lemma edge_rel_topology: "edge_rel (topology_edges rows) = (\<lambda>r. (dr_from r, dr_to r)) ` set rows"
  by (auto simp: edge_rel_def topology_edges_def dependency_of_row_def image_image)

lemma edge_paths_topology: "edge_paths (topology_edges rows) = dr_from ` set rows \<union> dr_to ` set rows"
  by (auto simp: edge_paths_def topology_edges_def dependency_of_row_def image_image)

section \<open>The table\<close>

text \<open>
  Every row was written by the calls: one row for an id and for a pair of paths, both absolute and without a
  null byte, different, and a type that reads back as itself.
\<close>

definition edge_row_ok :: "dep_row \<Rightarrow> bool" where
  "edge_row_ok r \<longleftrightarrow> dr_from r \<noteq> dr_to r \<and> validate_repo_path ''fromRepo'' (dr_from r) = Ok () \<and>
     validate_repo_path ''toRepo'' (dr_to r) = Ok () \<and> dep_type_as_str (dep_type_from_str (dr_type r)) = dr_type r"

definition topology_ok :: "dep_row list \<Rightarrow> bool" where
  "topology_ok rows \<longleftrightarrow> distinct (map dr_id rows) \<and> distinct (map (\<lambda>r. (dr_from r, dr_to r)) rows) \<and> list_all edge_row_ok rows"

inductive topology_history :: "dep_row list \<Rightarrow> bool" where
  start: "topology_history []"
| add: "topology_history rows \<Longrightarrow> topology_add_dependency new_id now decode show_db params rows = (answer, rows') \<Longrightarrow> topology_history rows'"
| remove: "topology_history rows \<Longrightarrow> topology_remove_dependency decode_id params rows = (answer, rows') \<Longrightarrow> topology_history rows'"

lemma dep_type_roundtrip [simp]: "dep_type_from_str (dep_type_as_str t) = t"
  by (cases t) (simp_all add: dep_type_from_str_def)

definition edge_row :: "string \<Rightarrow> string \<Rightarrow> string \<Rightarrow> string \<Rightarrow> dep_type \<Rightarrow> string \<Rightarrow> bool \<Rightarrow> dep_row" where
  "edge_row new_id now from to ty confidence auto_detected =
     \<lparr>dr_id = new_id, dr_from = from, dr_to = to, dr_type = dep_type_as_str ty, dr_confidence = confidence,
        dr_auto_detected = (if auto_detected then 1 else 0), dr_created_at = now\<rparr>"

lemma set_edge_columns:
  assumes "\<And>r. dr_id (f r) = dr_id r" and "\<And>r. dr_from (f r) = dr_from r" and "\<And>r. dr_to (f r) = dr_to r"
  shows "map dr_id (set_where p f rows) = map dr_id rows"
    and "map (\<lambda>r. (dr_from r, dr_to r)) (set_where p f rows) = map (\<lambda>r. (dr_from r, dr_to r)) rows"
  using assms by (auto simp: set_where_def)

lemma topology_ok_upsert:
  assumes "topology_ok rows" and "edge_row_ok row" and "upsert_edge row rows = Ok rows'"
  shows "topology_ok rows'"
proof (cases "\<exists>r \<in> set rows. same_edge (dr_from row) (dr_to row) r")
  case True
  with assms(3) have r: "rows' = set_where (same_edge (dr_from row) (dr_to row))
      (\<lambda>r. r\<lparr>dr_type := dr_type row, dr_confidence := dr_confidence row, dr_auto_detected := dr_auto_detected row\<rparr>) rows"
    by (simp add: upsert_edge_def)
  have "list_all edge_row_ok rows'"
    using assms(1,2) by (auto simp: r set_where_def list_all_iff topology_ok_def edge_row_ok_def)
  with assms(1) show ?thesis by (simp add: topology_ok_def r set_edge_columns)
next
  case False
  then have new: "(dr_from row, dr_to row) \<notin> (\<lambda>r. (dr_from r, dr_to r)) ` set rows" by (auto simp: same_edge_def)
  from False assms(3) have "rows' = rows @ [row]" "dr_id row \<notin> dr_id ` set rows"
    by (simp_all add: upsert_edge_def split: if_splits)
  with new assms(1,2) show ?thesis by (simp add: topology_ok_def)
qed

lemma add_dependency_rows:
  "snd (add_dependency new_id now from to ty confidence auto rows) =
     (case upsert_edge (edge_row new_id now from to ty confidence auto) rows of Ok rows' \<Rightarrow> rows' | Err e \<Rightarrow> rows)"
  unfolding add_dependency_def edge_row_def [symmetric] by (auto split: option.splits)

lemma topology_ok_add:
  assumes "topology_ok rows" and "from \<noteq> to" and "validate_repo_path ''fromRepo'' from = Ok ()" and "validate_repo_path ''toRepo'' to = Ok ()"
  shows "topology_ok (snd (add_dependency new_id now from to ty confidence auto rows))"
proof -
  have "edge_row_ok (edge_row new_id now from to ty confidence auto)"
    using assms by (simp add: edge_row_ok_def edge_row_def)
  with assms(1) show ?thesis by (auto simp: add_dependency_rows intro: topology_ok_upsert)
qed

lemma topology_ok_remove: "topology_ok rows \<Longrightarrow> topology_ok (remove_dependency i rows)"
  by (auto simp: topology_ok_def remove_dependency_def delete_where_def distinct_map_filter list_all_iff)

lemma add_call_rows:
  obtains (same) "snd (topology_add_dependency new_id now decode show_db params rows) = rows"
  | (added) p where
      "decode params = Ok p" "dpp_from_repo p \<noteq> dpp_to_repo p"
      "validate_repo_path ''fromRepo'' (dpp_from_repo p) = Ok ()" "validate_repo_path ''toRepo'' (dpp_to_repo p) = Ok ()"
      "snd (topology_add_dependency new_id now decode show_db params rows) =
         snd (add_dependency new_id now (dpp_from_repo p) (dpp_to_repo p)
           (dep_type_from_str (dep_type_param p)) (confidence_param p) False rows)"
proof (cases "decode params")
  case (Err e)
  then show ?thesis by (simp add: topology_add_dependency_def same)
next
  case (Ok p)
  let ?ok = "and_then (validate_repo_path ''fromRepo'' (dpp_from_repo p)) (\<lambda>_. validate_repo_path ''toRepo'' (dpp_to_repo p))"
  show ?thesis
  proof (cases "is_ok ?ok \<and> dpp_from_repo p \<noteq> dpp_to_repo p")
    case False
    then show ?thesis by (intro same) (auto simp: topology_add_dependency_def Ok)
  next
    case True
    then have v: "validate_repo_path ''fromRepo'' (dpp_from_repo p) = Ok ()" "validate_repo_path ''toRepo'' (dpp_to_repo p) = Ok ()"
      by (auto simp: result_simps)
    with True show ?thesis
      by (intro added [OF Ok _ v]) (simp_all add: topology_add_dependency_def Ok split: prod.splits)
  qed
qed

lemma topology_history_ok: "topology_history rows \<Longrightarrow> topology_ok rows"
proof (induction rule: topology_history.induct)
  case start
  show ?case by (simp add: topology_ok_def)
next
  case (add rows new_id now decode show_db params answer rows')
  have "topology_ok (snd (topology_add_dependency new_id now decode show_db params rows))"
  proof (cases rule: add_call_rows [of new_id now decode show_db params rows])
    case same
    with add.IH show ?thesis by simp
  next
    case (added p)
    with add.IH show ?thesis by (simp add: topology_ok_add)
  qed
  with add.hyps(2) show ?case by simp
next
  case (remove rows decode_id params answer rows')
  then show ?case
    by (cases "decode_id params") (auto simp: topology_remove_dependency_def intro: topology_ok_remove split: if_splits)
qed

section \<open>The table as a map\<close>

definition edge_view :: "dep_row list \<Rightarrow> string \<times> string \<rightharpoonup> dep_type \<times> string \<times> bool" where
  "edge_view rows = (\<lambda>(f, t). map_option (\<lambda>r. (dep_type_from_str (dr_type r), dr_confidence r, dr_auto_detected r \<noteq> 0)) (find (same_edge f t) rows))"

lemma find_set_where:
  assumes "\<And>r. q (g r) = q r"
  shows "find q (set_where p g rows) = map_option (\<lambda>r. if p r then g r else r) (find q rows)"
  using assms by (induction rows) (auto simp: set_where_def)

lemma same_edge_iff: "same_edge f t r \<Longrightarrow> same_edge f' t' r \<longleftrightarrow> f' = f \<and> t' = t"
  by (auto simp: same_edge_def)

lemma find_append: "find q (xs @ ys) = (case find q xs of Some x \<Rightarrow> Some x | None \<Rightarrow> find q ys)"
  by (induction xs) auto

lemma find_row: "find q rows = Some r \<Longrightarrow> q r \<and> r \<in> set rows"
  by (auto simp: find_Some_iff)

lemma find_filter_None: "find q rows = None \<Longrightarrow> find q (filter p rows) = None"
  by (auto simp: find_None_iff)

lemma find_unique:
  assumes "\<And>x. x \<in> set xs \<Longrightarrow> q x \<Longrightarrow> x = r" and "r \<in> set xs" and "q r"
  shows "find q xs = Some r"
proof (cases "find q xs")
  case None
  with assms(2,3) show ?thesis by (auto simp: find_None_iff)
next
  case (Some x)
  with find_row [OF Some] assms(1) [of x] show ?thesis by blast
qed

lemma edge_view_upsert:
  assumes "upsert_edge row rows = Ok rows'"
  shows "edge_view rows' = (edge_view rows)((dr_from row, dr_to row) \<mapsto>
      (dep_type_from_str (dr_type row), dr_confidence row, dr_auto_detected row \<noteq> 0))"
proof (cases "\<exists>r \<in> set rows. same_edge (dr_from row) (dr_to row) r")
  case True
  let ?p = "same_edge (dr_from row) (dr_to row)"
  let ?g = "\<lambda>r. r\<lparr>dr_type := dr_type row, dr_confidence := dr_confidence row, dr_auto_detected := dr_auto_detected row\<rparr>"
  have r: "rows' = set_where ?p ?g rows" using assms True by (simp add: upsert_edge_def)
  have f: "find (same_edge f t) rows' = map_option (\<lambda>r. if ?p r then ?g r else r) (find (same_edge f t) rows)" for f t
    unfolding r by (rule find_set_where) (simp add: same_edge_def)
  obtain r0 where r0: "find ?p rows = Some r0" using True by (cases "find ?p rows") (auto simp: find_None_iff)
  show ?thesis
  proof (rule ext)
    fix k :: "string \<times> string"
    obtain f' t' where k: "k = (f', t')" by (cases k)
    show "edge_view rows' k = ((edge_view rows)((dr_from row, dr_to row) \<mapsto>
        (dep_type_from_str (dr_type row), dr_confidence row, dr_auto_detected row \<noteq> 0))) k"
    proof (cases "f' = dr_from row \<and> t' = dr_to row")
      case True
      with r0 find_row [OF r0] show ?thesis by (simp add: edge_view_def f k)
    next
      case False
      then have "\<not> ?p x" if "find (same_edge f' t') rows = Some x" for x
        using find_row [OF that] by (auto simp: same_edge_def)
      with False show ?thesis by (cases "find (same_edge f' t') rows") (auto simp: edge_view_def f k)
    qed
  qed
next
  case False
  then have r: "rows' = rows @ [row]" and none: "find (same_edge (dr_from row) (dr_to row)) rows = None"
    using assms by (auto simp: upsert_edge_def find_None_iff split: if_splits)
  then show ?thesis by (auto simp: edge_view_def r find_append fun_eq_iff same_edge_def split: option.splits)
qed

lemma edge_view_remove:
  assumes "topology_ok rows"
  shows "edge_view (remove_dependency i rows) =
    (\<lambda>(f, t). if \<exists>r \<in> set rows. dr_id r = i \<and> same_edge f t r then None else edge_view rows (f, t))"
proof -
  have u: "r = r'" if "r \<in> set rows" "r' \<in> set rows" "same_edge f t r" "same_edge f t r'" for r r' f t
    using assms that by (auto simp: topology_ok_def distinct_map same_edge_def dest: inj_onD)
  have "find (same_edge f t) (remove_dependency i rows) =
      (if \<exists>r \<in> set rows. dr_id r = i \<and> same_edge f t r then None else find (same_edge f t) rows)" for f t
  proof (cases "find (same_edge f t) rows")
    case None
    then show ?thesis by (simp add: remove_dependency_def delete_where_def find_filter_None)
  next
    case (Some r)
    then have r: "r \<in> set rows" "same_edge f t r" by (auto simp: find_Some_iff)
    show ?thesis
    proof (cases "dr_id r = i")
      case True
      with r u show ?thesis by (auto simp: remove_dependency_def delete_where_def find_None_iff)
    next
      case False
      have "\<And>r'. r' \<in> set (remove_dependency i rows) \<Longrightarrow> same_edge f t r' \<Longrightarrow> r' = r"
        using r u unfolding remove_dependency_def delete_where_def by simp
      moreover have "r \<in> set (remove_dependency i rows)" using False r by (simp add: remove_dependency_def delete_where_def)
      ultimately have "find (same_edge f t) (remove_dependency i rows) = Some r" using r(2) by (rule find_unique)
      moreover have "\<not> (\<exists>r \<in> set rows. dr_id r = i \<and> same_edge f t r)" using False r u by blast
      ultimately show ?thesis using Some by simp
    qed
  qed
  then show ?thesis by (auto simp: edge_view_def fun_eq_iff)
qed

lemma edge_row_fields [simp]:
  "dr_id (edge_row i now from to ty confidence auto) = i" "dr_from (edge_row i now from to ty confidence auto) = from"
  "dr_to (edge_row i now from to ty confidence auto) = to"
  "dep_type_from_str (dr_type (edge_row i now from to ty confidence auto)) = ty"
  "dr_confidence (edge_row i now from to ty confidence auto) = confidence"
  "(dr_auto_detected (edge_row i now from to ty confidence auto) \<noteq> 0) = auto"
  by (simp_all add: edge_row_def)

lemma upsert_id:
  assumes "upsert_edge row rows = Ok rows'" and "find (same_edge (dr_from row) (dr_to row)) rows' = Some r"
  shows "dr_id r = (case find (same_edge (dr_from row) (dr_to row)) rows of Some r0 \<Rightarrow> dr_id r0 | None \<Rightarrow> dr_id row)"
proof (cases "find (same_edge (dr_from row) (dr_to row)) rows")
  case None
  then have "\<not> (\<exists>r \<in> set rows. same_edge (dr_from row) (dr_to row) r)" by (auto simp: find_None_iff)
  with assms(1) have "rows' = rows @ [row]" by (simp add: upsert_edge_def split: if_splits)
  with None assms(2) show ?thesis by (auto simp: find_append split: if_splits)
next
  case (Some r0)
  let ?g = "\<lambda>r. r\<lparr>dr_type := dr_type row, dr_confidence := dr_confidence row, dr_auto_detected := dr_auto_detected row\<rparr>"
  have "rows' = set_where (same_edge (dr_from row) (dr_to row)) ?g rows"
    using assms(1) find_row [OF Some] by (auto simp: upsert_edge_def split: if_splits)
  then have "find (same_edge (dr_from row) (dr_to row)) rows' = Some (if same_edge (dr_from row) (dr_to row) r0 then ?g r0 else r0)"
    using Some by (simp add: find_set_where same_edge_def)
  with assms(2) Some show ?thesis by (auto split: if_splits)
qed

theorem add_dependency_refines:
  assumes "new_id \<notin> dr_id ` set rows"
  shows "\<exists>d rows'. add_dependency new_id now from to ty confidence auto rows = (Ok d, rows') \<and>
    edge_view rows' = (edge_view rows)((from, to) \<mapsto> (ty, confidence, auto)) \<and>
    dp_id d = (case find (same_edge from to) rows of Some r \<Rightarrow> dr_id r | None \<Rightarrow> new_id) \<and>
    (dp_from d, dp_to d, dp_type d, dp_confidence d, dp_auto_detected d) = (from, to, ty, confidence, auto)"
proof -
  let ?row = "edge_row new_id now from to ty confidence auto"
  have "\<exists>rows'. upsert_edge ?row rows = Ok rows'" using assms unfolding upsert_edge_def edge_row_fields by simp
  then obtain rows' where u: "upsert_edge ?row rows = Ok rows'" ..
  have v: "edge_view rows' = (edge_view rows)((from, to) \<mapsto> (ty, confidence, auto))"
    using edge_view_upsert [OF u] unfolding edge_row_fields .
  then have "edge_view rows' (from, to) = Some (ty, confidence, auto)" by simp
  then obtain r where r: "find (same_edge from to) rows' = Some r"
    and t: "dep_type_from_str (dr_type r) = ty" "dr_confidence r = confidence" "(dr_auto_detected r \<noteq> 0) = auto"
    by (auto simp: edge_view_def)
  have i: "dr_id r = (case find (same_edge from to) rows of Some r \<Rightarrow> dr_id r | None \<Rightarrow> new_id)"
    using upsert_id [OF u, unfolded edge_row_fields, OF r] .
  have "add_dependency new_id now from to ty confidence auto rows = (Ok (dependency_of_row r), rows')"
    using u r unfolding add_dependency_def edge_row_def by simp
  with v i t find_row [OF r] show ?thesis by (simp add: dependency_of_row_def same_edge_def)
qed

section \<open>The calls\<close>

text \<open>C39: 
  The validation call on any table the calls wrote: the graph is valid exactly when its edge relation is acyclic
  and every path exists, the cycles are all cycles of the relation, each from every node on it, and the missing
  repositories are the paths of edges that do not exist on disk, both sorted.
\<close>

theorem topology_validate_exact:
  assumes "distinct ks" and "set ks = edge_paths (topology_edges rows)"
  shows "topology_validate fs ks rows =
    (let E = (\<lambda>r. (dr_from r, dr_to r)) ` set rows; paths = fst ` E \<union> snd ` E in
     JObject
       [(''valid'', JBool (acyclic E \<and> (\<forall>p \<in> paths. fs_exists fs p))),
        (''cycles'', strings_json (sorted_list_of_set {cycle_text ns |ns. is_cycle E ns})),
        (''missing'', strings_json (sorted_list_of_set {p \<in> paths. \<not> fs_exists fs p}))])"
proof -
  let ?E = "(\<lambda>r. (dr_from r, dr_to r)) ` set rows"
  have p: "set ks = fst ` ?E \<union> snd ` ?E" by (simp add: assms(2) edge_paths_topology image_image)
  have "missing_repos fs ks = sorted_list_of_set (set (filter (\<lambda>p. \<not> fs_exists fs p) ks))"
    unfolding sorted_list_of_set_sort_remdups missing_repos_def using assms(1) by (simp add: distinct_remdups_id)
  then have m: "missing_repos fs ks = sorted_list_of_set {p \<in> fst ` ?E \<union> snd ` ?E. \<not> fs_exists fs p}"
    unfolding p [symmetric] set_filter .
  have none: "missing_repos fs ks = [] \<longleftrightarrow> (\<forall>p \<in> fst ` ?E \<union> snd ` ?E. fs_exists fs p)"
    by (auto simp: missing_repos_def filter_empty_conv p [symmetric] simp flip: set_empty)
  have "find_cycles ks rows = [] \<longleftrightarrow> acyclic ?E" using find_cycles_acyclic [OF assms(2)] by (simp only: edge_rel_topology)
  with none have v: "(find_cycles ks rows = [] \<and> missing_repos fs ks = []) = (acyclic ?E \<and> (\<forall>p \<in> fst ` ?E \<union> snd ` ?E. fs_exists fs p))"
    by simp
  show ?thesis
    unfolding topology_validate_def Let_def unfolding v unfolding m find_cycles_exact [OF assms(2)] edge_rel_topology ..
qed

definition sample_edges :: "dep_row list" where
  "sample_edges = [edge_row ''1'' ''t'' ''/a'' ''/b'' UsesApi ''1.0'' False, edge_row ''2'' ''u'' ''/b'' ''/a'' BuildsOn ''1.0'' False]"

theorem topology_validate_exact_witness:
  "distinct [''/b'', ''/a''] \<and> set [''/b'', ''/a''] = edge_paths (topology_edges sample_edges) \<and>
   get_member (topology_validate \<lparr>fs_read_dir = \<lambda>_. None, fs_is_dir = \<lambda>_. True, fs_is_file = \<lambda>_. False, fs_read = \<lambda>_. None,
     fs_exists = \<lambda>_. True\<rparr> [''/b'', ''/a''] sample_edges) ''valid'' = Some (JBool False)"
proof -
  have p: "set [''/b'', ''/a''] = edge_paths (topology_edges sample_edges)"
    by (auto simp: edge_paths_topology sample_edges_def)
  have e: "(\<lambda>r. (dr_from r, dr_to r)) ` set sample_edges = {(''/a'', ''/b''), (''/b'', ''/a'')}" by (simp add: sample_edges_def)
  have "(''/b'', ''/a'') \<in> {(''/b'', ''/a'')}\<^sup>*" by (rule r_into_rtrancl) simp
  then have "\<not> acyclic {(''/a'', ''/b''), (''/b'', ''/a'')}" by simp
  then show ?thesis using p topology_validate_exact [OF _ p] by (simp add: e get_member_def)
qed

text \<open>Two repositories share types exactly when some name is exported by both.\<close>

lemma finite_type_names: "finite (collect_type_names n fs dir)"
proof (induction n arbitrary: dir)
  case (Suc n)
  then show ?case by (auto simp: extract_for_extension_def extract_type_names_def split: option.split)
qed simp

lemma shared_types_iff:
  "cv_passed (validate_shared_types fs src to) \<longleftrightarrow>
     collect_exported_type_names fs src \<inter> collect_exported_type_names fs to \<noteq> {}"
  using finite_type_names [of 7 fs src]
  by (auto simp: validate_shared_types_def collect_exported_type_names_def card_gt_0_iff)

text \<open>Guessed edges start at the scanned repository, lead elsewhere, and are marked as guessed.\<close>

lemma guessed_type: "guess_dependency fs repo other = Some (ty, c) \<Longrightarrow> ty \<noteq> DeploysWith"
  unfolding guess_dependency_def Let_def by (auto split: if_split_asm)

lemma guessed_edges:
  assumes "e \<in> set (auto_detect_dependencies new_id now fs repo all_repos)"
  shows "dp_from e = repo \<and> dp_to e \<in> set all_repos \<and> dp_to e \<noteq> repo \<and> dp_auto_detected e \<and> dp_type e \<noteq> DeploysWith"
proof -
  obtain other ty c where "other \<in> set all_repos" "other \<noteq> repo" "guess_dependency fs repo other = Some (ty, c)"
    "e = make_dep (new_id other) now repo other ty c True"
    using assms unfolding auto_detect_dependencies_def List.map_filter_def by (auto split: if_split_asm)
  with guessed_type show ?thesis by (auto simp: make_dep_def)
qed

section \<open>Behaviours worth knowing\<close>

definition sample_params :: "string \<Rightarrow> string \<Rightarrow> string \<Rightarrow> add_dependency_params" where
  "sample_params from to confidence = \<lparr>dpp_from_repo = from, dpp_to_repo = to, dpp_dep_type = None, dpp_confidence = Some confidence\<rparr>"

text \<open>A declared edge is said to have confidence 1.0, in any case one of 0.0 to 1.0; the call stores what it is given.\<close>

lemma confidence_unchecked:
  "map dr_confidence (snd (topology_add_dependency ''i'' ''t'' (\<lambda>_. Ok (sample_params ''/a'' ''/b'' ''7.5'')) (\<lambda>_. []) JNull [])) = [''7.5'']"
  by (simp add: topology_add_dependency_def sample_params_def validate_repo_path_def starts_with_def add_dependency_def
      upsert_edge_def same_edge_def confidence_param_def)

text \<open>Paths are compared as texts: a trailing slash admits an edge from a repository to itself.\<close>

lemma self_edge_by_slash:
  "map (\<lambda>r. components (dr_from r) = components (dr_to r))
     (snd (topology_add_dependency ''i'' ''t'' (\<lambda>_. Ok (sample_params ''/a'' ''/a/'' ''1.0'')) (\<lambda>_. []) JNull [])) = [True]"
  by (simp add: topology_add_dependency_def sample_params_def validate_repo_path_def starts_with_def add_dependency_def
      upsert_edge_def same_edge_def confidence_param_def components_def)

text \<open>Removing an edge that does not exist is answered as a removal.\<close>

lemma remove_unknown_edge:
  "topology_remove_dependency (\<lambda>_. Ok ''nope'') params [] =
     (Ok (JObject [(''removed'', JBool True), (''id'', JString ''nope'')]), [])"
  by (simp add: topology_remove_dependency_def remove_dependency_def delete_where_def)

text \<open>The name of a repository counts as a workspace member wherever it occurs in the manifest.\<close>

lemma member_by_substring: "cargo_members_reference ''[workspace] members = [mapper]'' ''app''"
  by (simp add: cargo_members_reference_def)

end
