(* ===== verification/Mailbox.thy ===== *)
theory Mailbox
  imports Topology Engine_Store
begin

text \<open>
  Messages between repositories: \<^verbatim>\<open>mailbox/model.rs\<close> (the Markdown form of a message), \<^verbatim>\<open>mailbox/storage.rs\<close> (the
  table of migration 025), \<^verbatim>\<open>mailbox/handlers.rs\<close> (the calls) and the ingestion of \<^verbatim>\<open>mailbox/watcher.rs\<close>. Times are
  texts, as the table keeps them; the file system is a map from paths to texts, with the outcome of each
  operation as a parameter.
\<close>

record mailbox_message =
  mm_id :: string
  mm_from :: string
  mm_to :: string
  mm_subject :: string
  mm_body :: string
  mm_reply_to :: "string option"
  mm_expires_at :: "string option"
  mm_archived :: bool
  mm_created_at :: string

section \<open>The Markdown form\<close>

definition header_line :: "string \<Rightarrow> string \<Rightarrow> string" where
  "header_line key value = key @ '': '' @ value @ [NL]"

definition optional_line :: "string \<Rightarrow> string option \<Rightarrow> string" where
  "optional_line key value = (case value of Some v \<Rightarrow> header_line key v | None \<Rightarrow> [])"

definition to_markdown :: "mailbox_message \<Rightarrow> string" where
  "to_markdown m =
     ''---'' @ [NL] @ header_line ''id'' (mm_id m) @ header_line ''from'' (mm_from m) @ header_line ''to'' (mm_to m) @
     header_line ''subject'' (mm_subject m) @ optional_line ''reply_to'' (mm_reply_to m) @
     optional_line ''expires_at'' (mm_expires_at m) @ header_line ''created_at'' (mm_created_at m) @
     ''---'' @ [NL, NL] @ mm_body m @ [NL]"

text \<open>\<^verbatim>\<open>str::find\<close> with a string pattern, and \<^verbatim>\<open>split_once\<close>.\<close>

fun find_text :: "string \<Rightarrow> string \<Rightarrow> nat option" where
  "find_text needle [] = (if needle = [] then Some 0 else None)"
| "find_text needle (c # s) = (if prefix needle (c # s) then Some 0 else map_option Suc (find_text needle s))"

definition split_once :: "string \<Rightarrow> string \<Rightarrow> (string \<times> string) option" where
  "split_once sep s = (case find_text sep s of None \<Rightarrow> None | Some i \<Rightarrow> Some (take i s, drop (i + length sep) s))"

text \<open>The map of the front matter, in which a later line replaces an earlier one.\<close>

definition read_field :: "string \<Rightarrow> (string \<rightharpoonup> string) \<Rightarrow> string \<rightharpoonup> string" where
  "read_field line m = (case split_once '': '' line of Some (k, v) \<Rightarrow> m(trim k \<mapsto> trim v) | None \<Rightarrow> m)"

definition front_fields :: "string \<Rightarrow> string \<rightharpoonup> string" where
  "front_fields front = fold read_field (lines front) Map.empty"

definition field_or :: "string \<Rightarrow> string option \<Rightarrow> string" where
  "field_or d v = (case v of Some x \<Rightarrow> x | None \<Rightarrow> d)"

definition from_markdown :: "string \<Rightarrow> string \<Rightarrow> string \<Rightarrow> mailbox_message option" where
  "from_markdown now content file_id =
     (let text = trim content in
      if \<not> starts_with text ''---'' then None
      else let after_first = drop 3 text in
        case find_text ([NL] @ ''---'') after_first of
          None \<Rightarrow> None
        | Some end_pos \<Rightarrow>
            (let front_matter = take end_pos after_first;
                 body = trim (drop (end_pos + 4) after_first);
                 m = front_fields front_matter
             in case (m ''from'', m ''to'', m ''subject'') of
                  (Some from, Some to, Some subject) \<Rightarrow>
                    Some \<lparr>mm_id = field_or file_id (m ''id''), mm_from = from, mm_to = to, mm_subject = subject, mm_body = body,
                      mm_reply_to = m ''reply_to'', mm_expires_at = m ''expires_at'', mm_archived = False,
                      mm_created_at = field_or now (m ''created_at'')\<rparr>
                | _ \<Rightarrow> None))"

section \<open>The table\<close>

definition insert_or_ignore :: "mailbox_message \<Rightarrow> mailbox_message list \<Rightarrow> mailbox_message list" where
  "insert_or_ignore m rows = (if mm_id m \<in> mm_id ` set rows then rows else rows @ [m])"

definition mailbox_store ::
  "string \<Rightarrow> string \<Rightarrow> string \<Rightarrow> string \<Rightarrow> string \<Rightarrow> string \<Rightarrow> string option \<Rightarrow> string option \<Rightarrow> mailbox_message list \<Rightarrow>
     (mailbox_message, db_error) result \<times> mailbox_message list" where
  "mailbox_store new_id now from to subject body reply_to expires_at rows =
     (let rows' = insert_or_ignore \<lparr>mm_id = new_id, mm_from = from, mm_to = to, mm_subject = subject, mm_body = body,
            mm_reply_to = reply_to, mm_expires_at = expires_at, mm_archived = False, mm_created_at = now\<rparr> rows
      in case select_by mm_id rows' new_id of Some m \<Rightarrow> (Ok m, rows') | None \<Rightarrow> (Err RowNotFound, rows'))"

definition archive_message :: "string \<Rightarrow> mailbox_message list \<Rightarrow> mailbox_message list" where
  "archive_message i rows = set_where (\<lambda>m. mm_id m = i) (\<lambda>m. m\<lparr>mm_archived := True\<rparr>) rows"

definition mailbox_messages :: "string \<Rightarrow> mailbox_message list \<Rightarrow> mailbox_message list" where
  "mailbox_messages to rows = sort_desc mm_created_at (filter (\<lambda>m. mm_to m = to \<and> \<not> mm_archived m) rows)"

definition unread_count :: "string \<Rightarrow> mailbox_message list \<Rightarrow> nat" where
  "unread_count to rows = length (filter (\<lambda>m. mm_to m = to \<and> \<not> mm_archived m) rows)"

section \<open>Files\<close>

record mailbox_app =
  ma_rows :: "mailbox_message list"
  ma_files :: "string \<rightharpoonup> string"
  ma_events :: "(string \<times> json) list"

text \<open>\<open>ok\<close> tells whether the operation on a path succeeds.\<close>

definition inbox_path :: "string \<Rightarrow> string \<Rightarrow> string" where
  "inbox_path repo name = path_join (path_join repo ''.claude/inbox'') name"

definition write_inbox_file :: "(string \<Rightarrow> bool) \<Rightarrow> mailbox_message \<Rightarrow> (string \<rightharpoonup> string) \<Rightarrow> bool \<times> (string \<rightharpoonup> string)" where
  "write_inbox_file ok m files =
     (let tmp_path = inbox_path (mm_to m) (mm_id m @ ''.tmp''); final_path = inbox_path (mm_to m) (mm_id m @ ''.md'') in
      if \<not> ok (path_join (mm_to m) ''.claude/inbox'') then (False, files)
      else if \<not> ok tmp_path then (False, files)
      else if \<not> ok final_path then (False, files(tmp_path \<mapsto> to_markdown m))
      else (True, files(tmp_path := None, final_path \<mapsto> to_markdown m)))"

definition move_to_dead_letter :: "(string \<Rightarrow> bool) \<Rightarrow> mailbox_message \<Rightarrow> (string \<rightharpoonup> string) \<Rightarrow> string \<rightharpoonup> string" where
  "move_to_dead_letter ok m files =
     (let inbox = inbox_path (mm_to m) (mm_id m @ ''.md''); archive = path_join (mm_to m) ''.claude/archive/inbox'';
          dest = path_join archive (mm_id m @ ''.md'')
      in case files inbox of
           None \<Rightarrow> files
         | Some content \<Rightarrow> if ok archive \<and> ok dest then files(inbox := None, dest \<mapsto> content) else files)"

definition is_expired :: "string \<Rightarrow> mailbox_message \<Rightarrow> bool" where
  "is_expired now m \<longleftrightarrow> \<not> mm_archived m \<and> (case mm_expires_at m of Some e \<Rightarrow> e < now | None \<Rightarrow> False)"

definition mailbox_prune :: "(string \<Rightarrow> bool) \<Rightarrow> string \<Rightarrow> mailbox_app \<Rightarrow> nat \<times> mailbox_app" where
  "mailbox_prune ok now a =
     (let expired = filter (is_expired now) (ma_rows a)
      in (length expired, a\<lparr>ma_files := fold (move_to_dead_letter ok) expired (ma_files a),
            ma_rows := delete_where (is_expired now) (ma_rows a)\<rparr>))"

section \<open>Calls\<close>

record send_params =
  sp_from_repo :: string
  sp_to_repo :: string
  sp_subject :: string
  sp_body :: string
  sp_reply_to :: "string option"
  sp_expires_at :: "string option"

definition require_approval :: "string list" where
  "require_approval = [''cross-repo-write'', ''deploy'']"

definition requires_approval :: "string \<Rightarrow> bool" where
  "requires_approval subject \<longleftrightarrow> list_ex (contains (lowercase subject)) require_approval"

definition check_send :: "send_params \<Rightarrow> (unit, string) result" where
  "check_send p =
     (if sp_from_repo p = [] then Err ''fromRepo is required''
      else if sp_to_repo p = [] then Err ''toRepo is required''
      else if sp_subject p = [] then Err ''subject is required''
      else if sp_body p = [] then Err ''body is required''
      else and_then (validate_repo_path ''fromRepo'' (sp_from_repo p)) (\<lambda>_. validate_repo_path ''toRepo'' (sp_to_repo p)))"

definition message_value :: "mailbox_message \<Rightarrow> json" where
  "message_value m =
     (let opt = (\<lambda>s. case s of Some x \<Rightarrow> JString x | None \<Rightarrow> JNull) in
      JObject [(''id'', JString (mm_id m)), (''fromRepo'', JString (mm_from m)), (''toRepo'', JString (mm_to m)),
        (''subject'', JString (mm_subject m)), (''body'', JString (mm_body m)), (''replyTo'', opt (mm_reply_to m)),
        (''expiresAt'', opt (mm_expires_at m)), (''archived'', JBool (mm_archived m)), (''createdAt'', JString (mm_created_at m))])"

record mailbox_env =
  me_new_id :: string
  me_now :: string
  me_ok :: "string \<Rightarrow> bool"
  me_db_message :: "db_error \<Rightarrow> string"
  me_io_message :: string

definition mailbox_send ::
  "mailbox_env \<Rightarrow> (json \<Rightarrow> (send_params, string) result) \<Rightarrow> json \<Rightarrow> mailbox_app \<Rightarrow> (json, string) result \<times> mailbox_app" where
  "mailbox_send env decode params a =
     (case decode params of
        Err e \<Rightarrow> (Err e, a)
      | Ok p \<Rightarrow>
          (case check_send p of
             Err e \<Rightarrow> (Err e, a)
           | Ok _ \<Rightarrow>
               if requires_approval (sp_subject p)
               then (Ok (JObject [(''queued'', JBool False), (''approvalRequired'', JBool True), (''subject'', JString (sp_subject p))]),
                 a\<lparr>ma_events := ma_events a @ [(''mailbox.approvalRequired'',
                   JObject [(''fromRepo'', JString (sp_from_repo p)), (''toRepo'', JString (sp_to_repo p)), (''subject'', JString (sp_subject p))])]\<rparr>)
               else
                 (case mailbox_store (me_new_id env) (me_now env) (sp_from_repo p) (sp_to_repo p) (sp_subject p) (sp_body p)
                    (sp_reply_to p) (sp_expires_at p) (ma_rows a) of
                    (Err e, rows) \<Rightarrow> (Err (me_db_message env e), a\<lparr>ma_rows := rows\<rparr>)
                  | (Ok m, rows) \<Rightarrow>
                      (let (written, files) = write_inbox_file (me_ok env) m (ma_files a); a1 = a\<lparr>ma_rows := rows, ma_files := files\<rparr> in
                       if written then (Ok (message_value m), a1) else (Err (me_io_message env), a1)))))"

definition mailbox_list :: "(json \<Rightarrow> (string, string) result) \<Rightarrow> json \<Rightarrow> mailbox_app \<Rightarrow> (json, string) result" where
  "mailbox_list decode params a =
     and_then (decode params) (\<lambda>repo.
     and_then (validate_repo_path ''repoPath'' repo) (\<lambda>_.
       let messages = mailbox_messages repo (ma_rows a)
       in Ok (JObject [(''repoPath'', JString repo), (''messages'', JArray (map message_value messages)),
            (''unread'', JNumber (show_nat (length messages)))])))"

definition mailbox_archive :: "(json \<Rightarrow> (string, string) result) \<Rightarrow> json \<Rightarrow> mailbox_app \<Rightarrow> (json, string) result \<times> mailbox_app" where
  "mailbox_archive decode params a =
     (case decode params of
        Err e \<Rightarrow> (Err e, a)
      | Ok i \<Rightarrow>
          if i = [] then (Err ''id is required'', a)
          else (Ok (JObject [(''archived'', JBool True), (''id'', JString i)]), a\<lparr>ma_rows := archive_message i (ma_rows a)\<rparr>))"

section \<open>Ingestion\<close>

text \<open>\<open>reads\<close> lists the outcomes of the attempts to read the file.\<close>

primrec read_with_retry :: "nat \<Rightarrow> string option list \<Rightarrow> string option" where
  "read_with_retry 0 reads = None"
| "read_with_retry (Suc attempts) reads =
     (case reads of Some c # _ \<Rightarrow> Some c | None # rest \<Rightarrow> read_with_retry attempts rest | [] \<Rightarrow> None)"

definition file_stem :: "string \<Rightarrow> string option" where
  "file_stem p =
     (case file_name p of
        None \<Rightarrow> None
      | Some name \<Rightarrow> (case path_extension p of None \<Rightarrow> Some name | Some ext \<Rightarrow> Some (take (length name - Suc (length ext)) name)))"

definition handle_new_inbox_file :: "string \<Rightarrow> string \<Rightarrow> string option list \<Rightarrow> mailbox_app \<Rightarrow> mailbox_app" where
  "handle_new_inbox_file now path reads a =
     (case read_with_retry 3 reads of
        None \<Rightarrow> a
      | Some content \<Rightarrow>
          (case from_markdown now content (field_or ''unknown'' (file_stem path)) of
             None \<Rightarrow> a
           | Some m \<Rightarrow>
               a\<lparr>ma_rows := insert_or_ignore m (ma_rows a),
                 ma_events := ma_events a @ [(''inbox.messageReceived'',
                   JObject [(''id'', JString (mm_id m)), (''fromRepo'', JString (mm_from m)), (''toRepo'', JString (mm_to m)),
                     (''subject'', JString (mm_subject m))])]\<rparr>))"

text \<open>One notification of the file system, the loop of \<^verbatim>\<open>run\<close>: only the creation of files is looked at, and only Markdown
  files. The library reports a rename as another kind of event. \<open>reads\<close> are the attempts to read a file.\<close>

datatype fs_event_kind = CreateFile | OtherEvent

definition watch_event ::
  "string \<Rightarrow> fs_event_kind \<Rightarrow> string list \<Rightarrow> (string \<Rightarrow> string option list) \<Rightarrow> mailbox_app \<Rightarrow> mailbox_app" where
  "watch_event now kind paths reads a =
     (if kind = CreateFile
      then fold (\<lambda>path b. if path_extension path = Some ''md'' then handle_new_inbox_file now path (reads path) b else b) paths a
      else a)"

end
