(* ===== verification/Mailbox_Props.thy ===== *)
theory Mailbox_Props
  imports Mailbox
begin

text \<open>
  Properties of the mailbox: the Markdown form of a message reads back, a message that was sent is listed until it is
  archived, and ingestion of a file is idempotent; and what a subject with a line feed does.
\<close>

section \<open>Trimming and searching\<close>

lemma trim_Cons_whitespace: "is_whitespace c \<Longrightarrow> trim (c # s) = trim s"
  by (simp add: trim_def trim_start_def)

lemma length_trim: "length (trim s) \<le> length s"
  unfolding trim_def trim_start_def trim_end_def
  by (metis length_dropWhile_le length_rev order_trans)

lemma trim_fixed_last:
  assumes "trim s = s" and "s \<noteq> []"
  shows "\<not> is_whitespace (last s)"
proof
  assume "is_whitespace (last s)"
  then have "trim (butlast s @ [last s]) = trim (butlast s)" by (rule trim_snoc_whitespace)
  then have "length (trim s) \<le> length (butlast s)" using length_trim [of "butlast s"] assms(2) by simp
  moreover have "length (butlast s) < length s" using assms(2) by simp
  ultimately show False using assms(1) by (metis not_less)
qed

lemma trim_same:
  assumes "s \<noteq> []" and "\<not> is_whitespace (hd s)" and "\<not> is_whitespace (last s)"
  shows "trim s = s"
proof -
  have "dropWhile is_whitespace xs = xs" if "xs \<noteq> []" "\<not> is_whitespace (hd xs)" for xs using that by (cases xs) simp_all
  then show ?thesis using assms by (simp add: trim_def trim_start_def trim_end_def hd_rev)
qed

lemma find_text_skip:
  "c \<notin> set l \<Longrightarrow> find_text (c # p) (l @ s) = map_option (\<lambda>i. length l + i) (find_text (c # p) s)"
  by (induction l) (cases "find_text (c # p) s", simp_all)+

lemma find_text_here: "find_text p (p @ s) = Some 0"
proof (cases "p @ s")
  case (Cons a rest)
  then have "prefix p (a # rest)" by (metis prefixI)
  with Cons show ?thesis by simp
qed simp

lemma split_once_field:
  assumes "CHR '':'' \<notin> set k"
  shows "split_once '': '' (k @ '': '' @ v) = Some (k, v)"
  using find_text_skip [OF assms, of "'' ''" "'': '' @ v"] find_text_here [of "'': ''" v] by (simp add: split_once_def)

section \<open>The front matter\<close>

definition field_line :: "string \<times> string \<Rightarrow> string" where
  "field_line kv = fst kv @ '': '' @ snd kv"

definition front_text :: "(string \<times> string) list \<Rightarrow> string" where
  "front_text kvs = concat (map (\<lambda>kv. NL # field_line kv) kvs)"

definition plain :: "string \<Rightarrow> bool" where
  "plain v \<longleftrightarrow> trim v = v \<and> NL \<notin> set v"

definition key_ok :: "string \<Rightarrow> bool" where
  "key_ok k \<longleftrightarrow> k \<noteq> [] \<and> hd k \<noteq> CHR ''-'' \<and> NL \<notin> set k \<and> CHR '':'' \<notin> set k \<and> trim k = k"

definition fields_ok :: "(string \<times> string) list \<Rightarrow> bool" where
  "fields_ok kvs \<longleftrightarrow> list_all (\<lambda>(k, v). key_ok k \<and> plain v) kvs"

lemma fields_ok_simps [simp]:
  "fields_ok []" "fields_ok (kv # kvs) \<longleftrightarrow> key_ok (fst kv) \<and> plain (snd kv) \<and> fields_ok kvs"
  "fields_ok (xs @ ys) \<longleftrightarrow> fields_ok xs \<and> fields_ok ys"
  by (auto simp: fields_ok_def)

lemma front_text_simps [simp]: "front_text [] = []" "front_text (kv # kvs) = NL # field_line kv @ front_text kvs"
  by (simp_all add: front_text_def)

lemma field_line_ok:
  assumes "key_ok (fst kv)" and "plain (snd kv)"
  shows "NL \<notin> set (field_line kv)" and "strip_cr (field_line kv) = field_line kv" and "field_line kv \<noteq> []"
    and "\<not> prefix ''---'' (field_line kv @ s)"
    and "read_field (field_line kv) m = m(fst kv \<mapsto> snd kv)"
proof -
  show "NL \<notin> set (field_line kv)" using assms by (simp add: field_line_def key_ok_def plain_def)
  show "field_line kv \<noteq> []" by (simp add: field_line_def)
  have "last (field_line kv) \<noteq> CR"
  proof (cases "snd kv = []")
    case False
    then have "\<not> is_whitespace (last (snd kv))" using assms(2) by (simp add: plain_def trim_fixed_last)
    then have "last (snd kv) \<noteq> CR" by (auto simp: is_whitespace_def)
    with False show ?thesis by (simp add: field_line_def)
  qed (simp add: field_line_def)
  then show "strip_cr (field_line kv) = field_line kv" by (simp add: strip_cr_def)
  show "\<not> prefix ''---'' (field_line kv @ s)" using assms(1) by (cases "fst kv") (auto simp: field_line_def key_ok_def)
  show "read_field (field_line kv) m = m(fst kv \<mapsto> snd kv)"
    using assms split_once_field [of "fst kv" "snd kv"] by (simp add: read_field_def field_line_def key_ok_def plain_def case_prod_beta)
qed

lemma lines_front: "fields_ok kvs \<Longrightarrow> NL \<notin> set l \<Longrightarrow> strip_cr l = l \<Longrightarrow> l \<noteq> [] \<Longrightarrow> lines (l @ front_text kvs) = l # map field_line kvs"
proof (induction kvs arbitrary: l)
  case (Cons kv kvs)
  then show ?case
    using lines_Cons_line [of l "field_line kv @ front_text kvs"] field_line_ok [of kv] by simp
qed (simp add: lines_last_piece)

lemma lines_front_text: "fields_ok kvs \<Longrightarrow> kvs \<noteq> [] \<Longrightarrow> lines (front_text kvs) = [] # map field_line kvs"
  using lines_Cons_line [of "[]"] lines_front field_line_ok by (cases kvs) (simp_all add: strip_cr_def)

lemma fold_read: "fields_ok kvs \<Longrightarrow> fold read_field (map field_line kvs) m = fold (\<lambda>kv m. m(fst kv \<mapsto> snd kv)) kvs m"
  by (induction kvs arbitrary: m) (simp_all add: field_line_ok)

lemma front_fields_text:
  assumes "fields_ok kvs" and "kvs \<noteq> []"
  shows "front_fields (front_text kvs) = fold (\<lambda>kv m. m(fst kv \<mapsto> snd kv)) kvs Map.empty"
proof -
  have "read_field [] Map.empty = Map.empty" by (simp add: read_field_def split_once_def)
  then show ?thesis using assms by (simp add: front_fields_def lines_front_text fold_read)
qed

lemma find_front_end: "fields_ok kvs \<Longrightarrow> find_text (NL # ''---'') (front_text kvs @ NL # ''---'' @ s) = Some (length (front_text kvs))"
proof (induction kvs)
  case Nil
  show ?case using find_text_here [of "NL # ''---''" s] by simp
next
  case (Cons kv kvs)
  then show ?case
    using find_text_skip [of NL "field_line kv" "''---''" "front_text kvs @ NL # ''---'' @ s"]
      field_line_ok(1,4) [of kv] by (simp add: add.commute)
qed

section \<open>The Markdown form reads back\<close>

definition optional_field :: "string \<Rightarrow> string option \<Rightarrow> (string \<times> string) list" where
  "optional_field k v = (case v of Some x \<Rightarrow> [(k, x)] | None \<Rightarrow> [])"

definition message_fields :: "mailbox_message \<Rightarrow> (string \<times> string) list" where
  "message_fields m =
     [(''id'', mm_id m), (''from'', mm_from m), (''to'', mm_to m), (''subject'', mm_subject m)] @
     optional_field ''reply_to'' (mm_reply_to m) @ optional_field ''expires_at'' (mm_expires_at m) @ [(''created_at'', mm_created_at m)]"

definition plain_message :: "mailbox_message \<Rightarrow> bool" where
  "plain_message m \<longleftrightarrow> plain (mm_id m) \<and> plain (mm_from m) \<and> plain (mm_to m) \<and> plain (mm_subject m) \<and>
     pred_option plain (mm_reply_to m) \<and> pred_option plain (mm_expires_at m) \<and> plain (mm_created_at m) \<and>
     trim (mm_body m) = mm_body m \<and> \<not> mm_archived m"

lemma to_markdown_fields:
  "to_markdown m = ''---'' @ front_text (message_fields m) @ NL # ''---'' @ [NL, NL] @ mm_body m @ [NL]"
  by (simp add: to_markdown_def message_fields_def header_line_def optional_line_def optional_field_def field_line_def
      front_text_def split: option.split)

lemma literal_keys [simp]:
  "key_ok ''id''" "key_ok ''from''" "key_ok ''to''" "key_ok ''subject''" "key_ok ''reply_to''" "key_ok ''expires_at''" "key_ok ''created_at''"
  by (simp_all add: key_ok_def trim_same is_whitespace_def)

lemma message_fields_ok: "plain_message m \<Longrightarrow> fields_ok (message_fields m)"
  by (auto simp: message_fields_def plain_message_def optional_field_def split: option.splits)

lemma trim_markdown:
  assumes "trim body = body"
  shows "trim (''---'' @ f @ NL # ''---'' @ [NL, NL] @ body @ [NL]) =
    ''---'' @ f @ NL # ''---'' @ (if body = [] then [] else [NL, NL] @ body)"
proof -
  have w: "is_whitespace NL" "\<not> is_whitespace (CHR ''-'')" by (simp_all add: is_whitespace_def)
  note drop_nl = trim_snoc_whitespace [OF w(1)]
  show ?thesis
  proof (cases "body = []")
    case True
    have "trim (((''---'' @ f @ NL # ''---'') @ [NL] @ [NL]) @ [NL]) = trim (''---'' @ f @ NL # ''---'')"
      using drop_nl [of "''---'' @ f @ NL # ''---''"] drop_nl [of "(''---'' @ f @ NL # ''---'') @ [NL]"]
        drop_nl [of "((''---'' @ f @ NL # ''---'') @ [NL]) @ [NL]"] by simp
    also have "\<dots> = ''---'' @ f @ NL # ''---''" by (rule trim_same) (simp_all add: w)
    finally show ?thesis using True by simp
  next
    case False
    have "trim ((''---'' @ f @ NL # ''---'' @ [NL, NL] @ body) @ [NL]) = trim (''---'' @ f @ NL # ''---'' @ [NL, NL] @ body)"
      by (rule drop_nl)
    also have "\<dots> = ''---'' @ f @ NL # ''---'' @ [NL, NL] @ body"
      using False trim_fixed_last [OF assms False] by (intro trim_same) (simp_all add: w)
    finally show ?thesis using False by simp
  qed
qed

definition fields_map :: "(string \<times> string) list \<Rightarrow> string \<rightharpoonup> string" where
  "fields_map kvs = fold (\<lambda>kv m. m(fst kv \<mapsto> snd kv)) kvs Map.empty"

lemma from_markdown_fields:
  assumes "fields_ok kvs" and "kvs \<noteq> []" and "trim body = body"
    and "fields_map kvs ''from'' = Some from" and "fields_map kvs ''to'' = Some to" and "fields_map kvs ''subject'' = Some subject"
  shows "from_markdown now (''---'' @ front_text kvs @ NL # ''---'' @ [NL, NL] @ body @ [NL]) file_id =
    Some \<lparr>mm_id = field_or file_id (fields_map kvs ''id''), mm_from = from, mm_to = to, mm_subject = subject, mm_body = body,
      mm_reply_to = fields_map kvs ''reply_to'', mm_expires_at = fields_map kvs ''expires_at'', mm_archived = False,
      mm_created_at = field_or now (fields_map kvs ''created_at'')\<rparr>"
proof -
  let ?f = "front_text kvs"
  let ?rest = "if body = [] then [] else [NL, NL] @ body"
  have e: "find_text (NL # ''---'') (?f @ NL # ''---'' @ ?rest) = Some (length ?f)" by (rule find_front_end [OF assms(1)])
  have w: "is_whitespace NL" by (simp add: is_whitespace_def)
  have b: "trim ?rest = body"
    using assms(3) trim_Cons_whitespace [OF w, of body] trim_Cons_whitespace [OF w, of "NL # body"]
    by (auto simp: trim_def trim_start_def trim_end_def)
  have ff: "front_fields ?f = fields_map kvs" unfolding fields_map_def by (rule front_fields_text [OF assms(1,2)])
  show ?thesis
    unfolding from_markdown_def Let_def trim_markdown [OF assms(3)] using e b ff assms(4-6) by (simp add: starts_with_def)
qed

text \<open>
  A message whose fields are trimmed and free of line feeds, whose body is trimmed, and which is not archived is what
  the reader makes of its Markdown form, whatever the name of the file.
\<close>

lemma markdown_roundtrip:
  assumes "plain_message m"
  shows "from_markdown now (to_markdown m) file_id = Some m"
proof -
  let ?m = "fields_map (message_fields m)"
  have look: "?m ''id'' = Some (mm_id m)" "?m ''from'' = Some (mm_from m)" "?m ''to'' = Some (mm_to m)"
    "?m ''subject'' = Some (mm_subject m)" "?m ''reply_to'' = mm_reply_to m" "?m ''expires_at'' = mm_expires_at m"
    "?m ''created_at'' = Some (mm_created_at m)"
    by (cases "mm_reply_to m"; cases "mm_expires_at m"; simp add: fields_map_def message_fields_def optional_field_def)+
  have "message_fields m \<noteq> []" by (simp add: message_fields_def)
  from from_markdown_fields [OF message_fields_ok [OF assms] this _ look(2,3,4)] assms look
  show ?thesis unfolding to_markdown_fields by (simp add: plain_message_def field_or_def)
qed

section \<open>Sending, listing and ingesting\<close>

definition mailbox_ok :: "mailbox_message list \<Rightarrow> bool" where
  "mailbox_ok rows \<longleftrightarrow> distinct (map mm_id rows)"

lemma mailbox_ok_insert: "mailbox_ok rows \<Longrightarrow> mailbox_ok (insert_or_ignore m rows)"
  by (auto simp: mailbox_ok_def insert_or_ignore_def)

lemma mailbox_ok_archive: "mailbox_ok rows \<Longrightarrow> mailbox_ok (archive_message i rows)"
  by (auto simp: mailbox_ok_def archive_message_def set_where_def comp_def if_distrib cong: if_cong)

lemma mailbox_ok_prune: "mailbox_ok (ma_rows a) \<Longrightarrow> mailbox_ok (ma_rows (snd (mailbox_prune ok now a)))"
  by (simp add: mailbox_ok_def mailbox_prune_def delete_where_def distinct_map_filter)

text \<open>A second ingestion of the same file changes no row.\<close>

lemma insert_idempotent: "insert_or_ignore m (insert_or_ignore m rows) = insert_or_ignore m rows"
  by (auto simp: insert_or_ignore_def)

lemma ingest_idempotent:
  "ma_rows (handle_new_inbox_file now path reads (handle_new_inbox_file now path reads a)) = ma_rows (handle_new_inbox_file now path reads a)"
  by (simp add: handle_new_inbox_file_def insert_idempotent split: option.split)

text \<open>An archived message is no longer listed, and the others are.\<close>

lemma list_after_archive:
  "set (mailbox_messages repo (archive_message i rows)) = {m \<in> set (mailbox_messages repo rows). mm_id m \<noteq> i}"
  by (auto simp: mailbox_messages_def sort_desc_def archive_message_def set_where_def image_iff)

lemma unread_is_listed: "unread_count repo rows = length (mailbox_messages repo rows)"
  by (simp add: unread_count_def mailbox_messages_def sort_desc_def)

text \<open>C36: The file that is written for a message whose fields are trimmed and free of line feeds, whose body is trimmed
  and which is not archived reads back as exactly that message, whatever the time and the name under which it is read.\<close>

theorem message_file_roundtrip:
  assumes "plain_message m" and "write_inbox_file ok m files = (True, files')"
  shows "\<exists>text. files' (inbox_path (mm_to m) (mm_id m @ ''.md'')) = Some text \<and> from_markdown now text file_id = Some m"
proof -
  have "files' (inbox_path (mm_to m) (mm_id m @ ''.md'')) = Some (to_markdown m)"
    using assms(2) by (auto simp: write_inbox_file_def split: if_splits)
  with markdown_roundtrip [OF assms(1)] show ?thesis by blast
qed

definition sample_message :: mailbox_message where
  "sample_message = \<lparr>mm_id = ''1'', mm_from = ''/a'', mm_to = ''/b'', mm_subject = ''hi: you'', mm_body = ''--- text'',
     mm_reply_to = Some ''/a'', mm_expires_at = None, mm_archived = False, mm_created_at = ''t''\<rparr>"

lemma sample_message_plain: "plain_message sample_message"
  by (simp add: plain_message_def sample_message_def plain_def trim_same is_whitespace_def)

theorem message_file_roundtrip_witness:
  "\<exists>text. snd (write_inbox_file (\<lambda>_. True) sample_message Map.empty) (inbox_path ''/b'' ''1.md'') = Some text \<and>
     from_markdown ''now'' text ''x'' = Some sample_message"
proof -
  obtain files' where w: "write_inbox_file (\<lambda>_. True) sample_message Map.empty = (True, files')"
    by (simp add: write_inbox_file_def)
  from message_file_roundtrip [OF sample_message_plain w, of "''now''" "''x''"] w show ?thesis by (simp add: sample_message_def)
qed

text \<open>The creation of a Markdown file with the text of a message stores the message unless its id is known, and announces
  it in either case; a rename, by which the sending call puts its files into place, is ignored.\<close>

lemma created_file_ingested:
  assumes "plain_message m" and "path_extension path = Some ''md''"
  shows "let b = watch_event now CreateFile [path] (\<lambda>_. [Some (to_markdown m)]) a in
    ma_rows b = (if mm_id m \<in> mm_id ` set (ma_rows a) then ma_rows a else ma_rows a @ [m]) \<and>
    length (ma_events b) = Suc (length (ma_events a))"
  using assms markdown_roundtrip [OF assms(1)]
  by (simp add: watch_event_def handle_new_inbox_file_def insert_or_ignore_def eval_nat_numeral Let_def)

theorem renamed_file_ignored: "watch_event now OtherEvent paths reads a = a"
  by (simp add: watch_event_def)

section \<open>Behaviours worth knowing\<close>

definition forged :: mailbox_message where
  "forged = \<lparr>mm_id = ''1'', mm_from = ''/mallory'', mm_to = ''/bob'', mm_subject = ''hi'' @ [NL] @ ''id: 2'' @ [NL] @ ''from: /alice'',
     mm_body = ''b'', mm_reply_to = None, mm_expires_at = None, mm_archived = False, mm_created_at = ''t''\<rparr>"

text \<open>
  The sending call accepts a subject with line feeds, and the lines that follow the first are read as fields: the
  receiver sees another id and another sender.
\<close>

lemma subject_forges_sender:
  "map_option (\<lambda>m. (mm_id m, mm_from m)) (from_markdown now (to_markdown forged) file_id) = Some (''2'', ''/alice'')"
proof -
  let ?kvs = "[(''id'', ''1''), (''from'', ''/mallory''), (''to'', ''/bob''), (''subject'', ''hi''), (''id'', ''2''), (''from'', ''/alice''), (''created_at'', ''t'')]"
  have m: "to_markdown forged = ''---'' @ front_text ?kvs @ NL # ''---'' @ [NL, NL] @ ''b'' @ [NL]"
    by (simp add: to_markdown_fields message_fields_def optional_field_def forged_def field_line_def)
  have "fields_ok ?kvs" by (simp add: plain_def trim_same is_whitespace_def)
  moreover have "trim ''b'' = ''b''" by (simp add: trim_same is_whitespace_def)
  ultimately have "from_markdown now (to_markdown forged) file_id = Some \<lparr>mm_id = field_or file_id (fields_map ?kvs ''id''), mm_from = ''/alice'',
      mm_to = ''/bob'', mm_subject = ''hi'', mm_body = ''b'', mm_reply_to = fields_map ?kvs ''reply_to'',
      mm_expires_at = fields_map ?kvs ''expires_at'', mm_archived = False, mm_created_at = field_or now (fields_map ?kvs ''created_at'')\<rparr>"
    unfolding m by (intro from_markdown_fields) (simp_all add: fields_map_def)
  then show ?thesis by (simp add: fields_map_def field_or_def)
qed

lemma forged_is_accepted:
  "check_send \<lparr>sp_from_repo = mm_from forged, sp_to_repo = mm_to forged, sp_subject = mm_subject forged, sp_body = mm_body forged,
     sp_reply_to = None, sp_expires_at = None\<rparr> = Ok () \<and> \<not> requires_approval (mm_subject forged)"
  by (simp add: check_send_def forged_def validate_repo_path_def starts_with_def requires_approval_def require_approval_def
      lowercase_def lower_char_def)

text \<open>The expiry is compared as a text: a time in another zone, or with another number of digits, expires at another moment.\<close>

lemma expiry_as_text:
  "\<not> is_expired ''2026-01-01T02:00:00+00:00'' (forged\<lparr>mm_expires_at := Some ''2026-01-01T10:00:00+09:00''\<rparr>)"
  by (simp add: is_expired_def forged_def less_char_def)

text \<open>Archiving leaves the file in the inbox and answers for any id.\<close>

lemma archive_keeps_file: "ma_files (snd (mailbox_archive decode params a)) = ma_files a"
  by (simp add: mailbox_archive_def)

text \<open>A message whose file cannot be written stays in the table although the call fails.\<close>

lemma failed_send_is_listed:
  assumes "decode params = Ok p" and "check_send p = Ok ()" and "\<not> requires_approval (sp_subject p)"
    and "\<not> me_ok env (path_join (sp_to_repo p) ''.claude/inbox'')" and "me_new_id env \<notin> mm_id ` set (ma_rows a)"
  shows "\<exists>a'. mailbox_send env decode params a = (Err (me_io_message env), a') \<and> unread_count (sp_to_repo p) (ma_rows a') = Suc (unread_count (sp_to_repo p) (ma_rows a))"
  using assms select_by_None [of mm_id "ma_rows a" "me_new_id env"]
  by (simp add: mailbox_send_def mailbox_store_def insert_or_ignore_def select_by_append write_inbox_file_def unread_count_def)
     (simp add: select_by_def write_inbox_file_def)

end
