(* ===== verification/Dead_Letter.thy ===== *)
theory Dead_Letter
  imports Task_Rpc Engine_Store
begin

text \<open>
  The queue of events that could not be delivered: \<^verbatim>\<open>events/dead_letter.rs\<close> and the calls of
  \<^verbatim>\<open>ipc/handlers/dead_letter.rs\<close>, on the table of migration 039. Its unique index on session and event type does
  not bind rows without a session. Times are texts, as the table keeps them.
\<close>

record dead_letter_event =
  dl_id :: string
  dl_source_session_id :: "string option"
  dl_event_type :: string
  dl_payload :: string
  dl_failure_reason :: string
  dl_retry_count :: int
  dl_status :: string
  dl_created_at :: string
  dl_last_attempted_at :: "string option"

definition MAX_RETRIES :: int where
  "MAX_RETRIES = 3"

definition payload_value :: "(string \<Rightarrow> json option) \<Rightarrow> dead_letter_event \<Rightarrow> json" where
  "payload_value from_str e = (case from_str (dl_payload e) of Some v \<Rightarrow> v | None \<Rightarrow> JNull)"

section \<open>The table\<close>

text \<open>\<^verbatim>\<open>NULLIF(session, '')\<close>, and the conflict target of the upsert.\<close>

definition nullif_empty :: "string option \<Rightarrow> string option" where
  "nullif_empty s = (if s = Some [] then None else s)"

definition same_event :: "string option \<Rightarrow> string \<Rightarrow> dead_letter_event \<Rightarrow> bool" where
  "same_event session event_type r \<longleftrightarrow> session \<noteq> None \<and> dl_source_session_id r = session \<and> dl_event_type r = event_type"

definition retry_status :: "int \<Rightarrow> string" where
  "retry_status n = (if MAX_RETRIES \<le> n then ''permanently_failed'' else ''pending'')"

definition count_failure :: "string \<Rightarrow> string \<Rightarrow> dead_letter_event \<Rightarrow> dead_letter_event" where
  "count_failure reason now r =
     r\<lparr>dl_failure_reason := reason, dl_retry_count := dl_retry_count r + 1, dl_last_attempted_at := Some now,
       dl_status := retry_status (dl_retry_count r + 1)\<rparr>"

definition push_to_dead_letter ::
  "string \<Rightarrow> string \<Rightarrow> string option \<Rightarrow> string \<Rightarrow> string \<Rightarrow> string \<Rightarrow> dead_letter_event list \<Rightarrow>
     (string, db_error) result \<times> dead_letter_event list" where
  "push_to_dead_letter new_id now source_session_id event_type payload reason rows =
     (let session = nullif_empty source_session_id in
      case find (same_event session event_type) rows of
        Some r \<Rightarrow> (Ok (dl_id r), set_where (same_event session event_type) (count_failure reason now) rows)
      | None \<Rightarrow>
          if new_id \<in> dl_id ` set rows then (Err (UniqueFailed ''dead_letter_events''), rows)
          else (Ok new_id, rows @
            [\<lparr>dl_id = new_id, dl_source_session_id = session, dl_event_type = event_type, dl_payload = payload,
              dl_failure_reason = reason, dl_retry_count = 0, dl_status = ''pending'', dl_created_at = now,
              dl_last_attempted_at = Some now\<rparr>]))"

definition list_dead_letter :: "string option \<Rightarrow> int \<Rightarrow> dead_letter_event list \<Rightarrow> dead_letter_event list" where
  "list_dead_letter status_filter limit rows =
     limit_offset limit 0 (sort_desc dl_created_at
       (case status_filter of Some status \<Rightarrow> filter (\<lambda>r. dl_status r = status) rows | None \<Rightarrow> rows))"

definition mark_for_retry :: "string \<Rightarrow> dead_letter_event list \<Rightarrow> bool \<times> dead_letter_event list" where
  "mark_for_retry i rows =
     (0 < length (filter (\<lambda>r. dl_id r = i) rows),
      set_where (\<lambda>r. dl_id r = i) (\<lambda>r. r\<lparr>dl_status := ''pending'', dl_retry_count := 0\<rparr>) rows)"

section \<open>The retry worker\<close>

definition retry_event :: "string \<Rightarrow> dead_letter_event \<Rightarrow> dead_letter_event list \<Rightarrow> dead_letter_event list" where
  "retry_event now event rows =
     (let new_retry_count = dl_retry_count event + 1; new_status = retry_status new_retry_count
      in set_where (\<lambda>r. dl_id r = dl_id event)
           (\<lambda>r. r\<lparr>dl_retry_count := new_retry_count, dl_status := new_status, dl_last_attempted_at := Some now\<rparr>) rows)"

definition run_retry_cycle :: "string \<Rightarrow> dead_letter_event list \<Rightarrow> dead_letter_event list" where
  "run_retry_cycle now rows =
     (let pending = list_dead_letter (Some ''pending'') 100 rows
      in if pending = [] then rows else fold (retry_event now) pending rows)"

text \<open>The loop of \<^verbatim>\<open>start_retry_worker\<close> over the ticks of its clock.\<close>

definition retry_worker :: "string list \<Rightarrow> dead_letter_event list \<Rightarrow> dead_letter_event list" where
  "retry_worker ticks rows = fold run_retry_cycle ticks rows"

section \<open>Calls\<close>

definition dead_letter_json :: "(string \<Rightarrow> json option) \<Rightarrow> dead_letter_event \<Rightarrow> json" where
  "dead_letter_json from_str e =
     (let opt = (\<lambda>s. case s of Some x \<Rightarrow> JString x | None \<Rightarrow> JNull) in
      JObject [(''id'', JString (dl_id e)), (''sourceSessionId'', opt (dl_source_session_id e)), (''eventType'', JString (dl_event_type e)),
        (''payload'', payload_value from_str e), (''failureReason'', JString (dl_failure_reason e)),
        (''retryCount'', JNumber (show_int (dl_retry_count e))), (''status'', JString (dl_status e)),
        (''createdAt'', JString (dl_created_at e)), (''lastAttemptedAt'', opt (dl_last_attempted_at e))])"

definition dead_letter_limit :: "json \<Rightarrow> int" where
  "dead_letter_limit params = min 200 (max 1 (case get_i64 params ''limit'' of Some l \<Rightarrow> l | None \<Rightarrow> 50))"

definition rpc_dead_letter_list :: "(string \<Rightarrow> json option) \<Rightarrow> json \<Rightarrow> dead_letter_event list \<Rightarrow> json" where
  "rpc_dead_letter_list from_str params rows =
     JObject [(''events'', JArray (map (dead_letter_json from_str)
       (list_dead_letter (get_str params ''status'') (dead_letter_limit params) rows)))]"

definition rpc_dead_letter_retry :: "json \<Rightarrow> dead_letter_event list \<Rightarrow> (json, string) result \<times> dead_letter_event list" where
  "rpc_dead_letter_retry params rows =
     (case get_str params ''id'' of
        None \<Rightarrow> (Err ''missing required param: id'', rows)
      | Some i \<Rightarrow> (let (found, rows') = mark_for_retry i rows in (Ok (JObject [(''found'', JBool found)]), rows')))"

section \<open>Invariant\<close>

text \<open>A row is pending as long as it has failed fewer times than the bound, and for good afterwards.\<close>

definition dead_letter_row_ok :: "dead_letter_event \<Rightarrow> bool" where
  "dead_letter_row_ok r \<longleftrightarrow> 0 \<le> dl_retry_count r \<and> dl_status r = retry_status (dl_retry_count r) \<and> dl_source_session_id r \<noteq> Some []"

definition dead_letters_ok :: "dead_letter_event list \<Rightarrow> bool" where
  "dead_letters_ok rows \<longleftrightarrow> distinct (map dl_id rows) \<and>
     distinct (map (\<lambda>r. (dl_source_session_id r, dl_event_type r)) (filter (\<lambda>r. dl_source_session_id r \<noteq> None) rows)) \<and>
     list_all dead_letter_row_ok rows"

inductive dead_letter_history :: "dead_letter_event list \<Rightarrow> bool" where
  start: "dead_letter_history []"
| push: "dead_letter_history rows \<Longrightarrow>
    dead_letter_history (snd (push_to_dead_letter new_id now session event_type payload reason rows))"
| retry_call: "dead_letter_history rows \<Longrightarrow> dead_letter_history (snd (rpc_dead_letter_retry params rows))"
| cycle: "dead_letter_history rows \<Longrightarrow> dead_letter_history (run_retry_cycle now rows)"

lemma dead_letters_set:
  assumes "dead_letters_ok rows"
    and "\<And>r. dl_id (f r) = dl_id r \<and> dl_source_session_id (f r) = dl_source_session_id r \<and> dl_event_type (f r) = dl_event_type r"
    and "\<And>r. p r \<Longrightarrow> r \<in> set rows \<Longrightarrow> dead_letter_row_ok (f r)"
  shows "dead_letters_ok (set_where p f rows)"
proof -
  have "map dl_id (set_where p f rows) = map dl_id rows" using assms(2) by (simp add: set_where_def)
  moreover have "map (\<lambda>r. (dl_source_session_id r, dl_event_type r)) (filter (\<lambda>r. dl_source_session_id r \<noteq> None) (set_where p f rows)) =
      map (\<lambda>r. (dl_source_session_id r, dl_event_type r)) (filter (\<lambda>r. dl_source_session_id r \<noteq> None) rows)"
    unfolding set_where_def using assms(2) by (induction rows) auto
  moreover have "list_all dead_letter_row_ok (set_where p f rows)"
    using assms(1,3) by (auto simp: set_where_def list_all_iff dead_letters_ok_def)
  ultimately show ?thesis using assms(1) unfolding dead_letters_ok_def by presburger
qed

lemma dead_letters_push:
  assumes "dead_letters_ok rows"
  shows "dead_letters_ok (snd (push_to_dead_letter new_id now session event_type payload reason rows))"
proof (cases "find (same_event (nullif_empty session) event_type) rows")
  case None
  have "(nullif_empty session, event_type) \<notin> (\<lambda>r. (dl_source_session_id r, dl_event_type r)) ` {r \<in> set rows. dl_source_session_id r \<noteq> None}"
    using None by (auto simp: find_None_iff same_event_def)
  with None assms show ?thesis
    by (auto simp: push_to_dead_letter_def dead_letters_ok_def dead_letter_row_ok_def retry_status_def MAX_RETRIES_def nullif_empty_def)
next
  case (Some r)
  have "dead_letter_row_ok (count_failure reason now r)" if "r \<in> set rows" for r
    using that assms by (auto simp: dead_letters_ok_def dead_letter_row_ok_def list_all_iff count_failure_def)
  with assms Some show ?thesis
    by (auto simp: push_to_dead_letter_def count_failure_def intro!: dead_letters_set)
qed

lemma dead_letters_mark:
  assumes "dead_letters_ok rows"
  shows "dead_letters_ok (snd (mark_for_retry i rows))"
  unfolding mark_for_retry_def snd_conv
proof (rule dead_letters_set [OF assms])
  fix r assume "r \<in> set rows"
  with assms show "dead_letter_row_ok (r\<lparr>dl_status := ''pending'', dl_retry_count := 0\<rparr>)"
    by (auto simp: dead_letters_ok_def dead_letter_row_ok_def list_all_iff retry_status_def MAX_RETRIES_def)
qed simp

lemma dead_letters_retry:
  assumes "dead_letters_ok rows" and "0 \<le> dl_retry_count event"
  shows "dead_letters_ok (retry_event now event rows)"
  unfolding retry_event_def Let_def
proof (rule dead_letters_set [OF assms(1)])
  fix r assume "r \<in> set rows"
  with assms show "dead_letter_row_ok (r\<lparr>dl_retry_count := dl_retry_count event + 1, dl_status := retry_status (dl_retry_count event + 1),
      dl_last_attempted_at := Some now\<rparr>)"
    by (auto simp: dead_letters_ok_def dead_letter_row_ok_def list_all_iff)
qed simp

lemma dead_letters_fold:
  "dead_letters_ok rows \<Longrightarrow> \<forall>e \<in> set events. 0 \<le> dl_retry_count e \<Longrightarrow> dead_letters_ok (fold (retry_event now) events rows)"
  by (induction events arbitrary: rows) (simp_all add: dead_letters_retry)

lemma list_dead_letter_rows: "set (list_dead_letter status limit rows) \<subseteq> set rows"
  by (auto simp: list_dead_letter_def limit_offset_def sort_desc_def split: option.splits if_splits dest!: in_set_takeD)

lemma dead_letters_cycle:
  assumes "dead_letters_ok rows"
  shows "dead_letters_ok (run_retry_cycle now rows)"
proof -
  have "\<forall>e \<in> set (list_dead_letter (Some ''pending'') 100 rows). 0 \<le> dl_retry_count e"
    using assms list_dead_letter_rows [of "Some ''pending''" 100 rows] by (auto simp: dead_letters_ok_def dead_letter_row_ok_def list_all_iff)
  then have "dead_letters_ok (fold (retry_event now) (list_dead_letter (Some ''pending'') 100 rows) rows)"
    by (rule dead_letters_fold [OF assms])
  with assms show ?thesis by (simp add: run_retry_cycle_def)
qed

lemma dead_letter_history_ok: "dead_letter_history rows \<Longrightarrow> dead_letters_ok rows"
proof (induction rule: dead_letter_history.induct)
  case start
  show ?case by (simp add: dead_letters_ok_def)
next
  case (retry_call rows params)
  then show ?case using dead_letters_mark [of rows]
    by (cases "get_str params ''id''") (simp_all add: rpc_dead_letter_retry_def case_prod_beta)
qed (simp_all add: dead_letters_push dead_letters_cycle)

section \<open>What a cycle does\<close>

definition count_attempt :: "string \<Rightarrow> dead_letter_event \<Rightarrow> dead_letter_event" where
  "count_attempt now r = r\<lparr>dl_retry_count := dl_retry_count r + 1, dl_status := retry_status (dl_retry_count r + 1), dl_last_attempted_at := Some now\<rparr>"

lemma fold_retry:
  assumes "distinct (map dl_id rows)" and "distinct (map dl_id events)" and "set events \<subseteq> set rows"
  shows "fold (retry_event now) events rows = set_where (\<lambda>r. r \<in> set events) (count_attempt now) rows"
  using assms(2,3)
proof (induction events rule: rev_induct)
  case (snoc e events)
  have same: "dl_id r = dl_id e \<longleftrightarrow> r = e" if "r \<in> set rows" for r
    using assms(1) snoc.prems(2) that by (auto simp: distinct_map dest: inj_onD)
  have e: "e \<notin> set events" using snoc.prems(1) by auto
  have "fold (retry_event now) (events @ [e]) rows = retry_event now e (set_where (\<lambda>r. r \<in> set events) (count_attempt now) rows)"
    using snoc by simp
  also have "\<dots> = set_where (\<lambda>r. r \<in> set (events @ [e])) (count_attempt now) rows"
    unfolding retry_event_def set_where_def Let_def map_map using same e by (auto simp: count_attempt_def)
  finally show ?case .
qed (simp add: set_where_def)

lemma pending_listed:
  assumes "length (filter (\<lambda>r. dl_status r = ''pending'') rows) \<le> 100"
  shows "set (list_dead_letter (Some ''pending'') 100 rows) = {r \<in> set rows. dl_status r = ''pending''}"
    and "distinct (map dl_id rows) \<Longrightarrow> distinct (map dl_id (list_dead_letter (Some ''pending'') 100 rows))"
proof -
  let ?p = "filter (\<lambda>r. dl_status r = ''pending'') rows"
  have l: "list_dead_letter (Some ''pending'') 100 rows = sort_desc dl_created_at ?p"
    using assms by (simp add: list_dead_letter_def limit_offset_def sort_desc_def)
  show "set (list_dead_letter (Some ''pending'') 100 rows) = {r \<in> set rows. dl_status r = ''pending''}"
    by (auto simp: l sort_desc_def)
  assume "distinct (map dl_id rows)"
  then have "distinct (map dl_id ?p)" by (rule distinct_map_filter)
  then show "distinct (map dl_id (list_dead_letter (Some ''pending'') 100 rows))"
    by (simp add: l sort_desc_def distinct_map)
qed

lemma cycle_attempts:
  assumes "distinct (map dl_id rows)" and "length (filter (\<lambda>r. dl_status r = ''pending'') rows) \<le> 100"
  shows "run_retry_cycle now rows = set_where (\<lambda>r. dl_status r = ''pending'') (count_attempt now) rows"
proof -
  let ?l = "list_dead_letter (Some ''pending'') 100 rows"
  have "fold (retry_event now) ?l rows = set_where (\<lambda>r. r \<in> set ?l) (count_attempt now) rows"
    using assms pending_listed by (intro fold_retry) auto
  also have "\<dots> = set_where (\<lambda>r. dl_status r = ''pending'') (count_attempt now) rows"
    unfolding pending_listed(1) [OF assms(2)] set_where_def by (rule map_cong) auto
  finally show ?thesis by (auto simp: run_retry_cycle_def)
qed

text \<open>
  With at most a hundred pending rows, three cycles settle every row as failed for good; its payload is as it was
  pushed.
\<close>

lemma attempt_pending: "dead_letter_row_ok r \<Longrightarrow> dl_status (count_attempt now r) = ''pending'' \<Longrightarrow> dl_status r = ''pending''"
  by (auto simp: count_attempt_def dead_letter_row_ok_def retry_status_def MAX_RETRIES_def split: if_splits)

definition settle_step :: "string \<Rightarrow> dead_letter_event \<Rightarrow> dead_letter_event" where
  "settle_step now r = (if dl_status r = ''pending'' then count_attempt now r else r)"

lemma pending_shrinks:
  "list_all dead_letter_row_ok rows \<Longrightarrow>
     length (filter (\<lambda>r. dl_status r = ''pending'') (map (settle_step now) rows)) \<le> length (filter (\<lambda>r. dl_status r = ''pending'') rows)"
  by (induction rows) (auto simp: settle_step_def)

lemma cycle_settles:
  assumes "dead_letters_ok rows" and "length (filter (\<lambda>r. dl_status r = ''pending'') rows) \<le> 100"
  shows "run_retry_cycle now rows = map (settle_step now) rows" and "dead_letters_ok (map (settle_step now) rows)"
    and "length (filter (\<lambda>r. dl_status r = ''pending'') (map (settle_step now) rows)) \<le> 100"
proof -
  show c: "run_retry_cycle now rows = map (settle_step now) rows"
    using cycle_attempts [OF _ assms(2)] assms(1) by (simp add: dead_letters_ok_def set_where_def settle_step_def)
  show "dead_letters_ok (map (settle_step now) rows)" using dead_letters_cycle [OF assms(1), of now] unfolding c .
  show "length (filter (\<lambda>r. dl_status r = ''pending'') (map (settle_step now) rows)) \<le> 100"
    using pending_shrinks [of rows now] assms by (simp add: dead_letters_ok_def)
qed

theorem retries_run_out:
  assumes "dead_letters_ok rows" and "length (filter (\<lambda>r. dl_status r = ''pending'') rows) \<le> 100"
  shows "list_dead_letter (Some ''pending'') limit (retry_worker [t1, t2, t3] rows) = [] \<and>
    map dl_payload (retry_worker [t1, t2, t3] rows) = map dl_payload rows"
proof -
  note 1 = cycle_settles [OF assms, of t1]
  note 2 = cycle_settles [OF 1(2,3), of t2]
  note 3 = cycle_settles [OF 2(2,3), of t3]
  have w: "retry_worker [t1, t2, t3] rows = map (\<lambda>r. settle_step t3 (settle_step t2 (settle_step t1 r))) rows"
    using 1(1) 2(1) 3(1) by (simp add: retry_worker_def comp_def)
  have "dl_status (settle_step t3 (settle_step t2 (settle_step t1 r))) \<noteq> ''pending''" if "r \<in> set rows" for r
    using assms(1) that
    by (auto simp: dead_letters_ok_def list_all_iff dead_letter_row_ok_def settle_step_def count_attempt_def retry_status_def MAX_RETRIES_def)
  then have "filter (\<lambda>r. dl_status r = ''pending'') (retry_worker [t1, t2, t3] rows) = []" by (simp add: w filter_empty_conv)
  then have "list_dead_letter (Some ''pending'') limit (retry_worker [t1, t2, t3] rows) = []"
    by (simp add: list_dead_letter_def limit_offset_def sort_desc_def)
  moreover have "dl_payload (settle_step t r) = dl_payload r" for t r by (simp add: settle_step_def count_attempt_def)
  ultimately show ?thesis by (simp add: w)
qed

section \<open>Behaviours worth knowing\<close>

text \<open>A second failure of the same event keeps the payload of the first.\<close>

lemma newer_payload_lost:
  "map dl_payload (snd (push_to_dead_letter ''2'' ''u'' (Some ''s'') ''e'' ''new'' ''r''
     (snd (push_to_dead_letter ''1'' ''t'' (Some ''s'') ''e'' ''old'' ''r'' [])))) = [''old'']"
  by (simp add: push_to_dead_letter_def nullif_empty_def same_event_def set_where_def count_failure_def)

text \<open>Events without a session are queued once per failure.\<close>

lemma no_session_no_merge:
  "map dl_retry_count (snd (push_to_dead_letter ''2'' ''u'' None ''e'' ''p'' ''r''
     (snd (push_to_dead_letter ''1'' ''t'' None ''e'' ''p'' ''r'' [])))) = [0, 0]"
  by (simp add: push_to_dead_letter_def nullif_empty_def same_event_def)

end
