(* ===== verification/Account_Registry.thy ===== *)
theory Account_Registry
  imports Session_Store_Props Task_Rpc
begin

text \<open>
  The accounts of the providers: \<^verbatim>\<open>account/mod.rs\<close> (the choice of an account for a session, rate limits and
  their signals) and the calls of \<^verbatim>\<open>ipc/handlers/accounts.rs\<close>, on the account tables of the session store. The
  reading and printing of time stamps and the printing of JSON are parameters. A long dash in a message is written as
  a hyphen.
\<close>

record pick_hint =
  ph_provider :: "string option"

record account_env =
  ae_parse_rfc3339 :: "string \<Rightarrow> timestamp option"
  ae_parse_utc :: "string \<Rightarrow> timestamp option"
  ae_to_rfc3339 :: "timestamp \<Rightarrow> string"

section \<open>The choice of an account\<close>

definition currently_limited :: "(string \<Rightarrow> timestamp option) \<Rightarrow> timestamp \<Rightarrow> account_row \<Rightarrow> bool" where
  "currently_limited parse now a =
     (case ac_limited_until a of
        None \<Rightarrow> False
      | Some until \<Rightarrow> (case parse until of Some t \<Rightarrow> now < t | None \<Rightarrow> False))"

definition matches_hint :: "string option \<Rightarrow> account_row \<Rightarrow> bool" where
  "matches_hint provider a = (case provider of Some p \<Rightarrow> ac_provider a = p | None \<Rightarrow> True)"

definition available_accounts :: "account_env \<Rightarrow> timestamp \<Rightarrow> pick_hint \<Rightarrow> session_db \<Rightarrow> account_row list" where
  "available_accounts env now hint db =
     sort_key ac_priority
       (filter (\<lambda>a. \<not> currently_limited (ae_parse_rfc3339 env) now a \<and> matches_hint (ph_provider hint) a) (list_account_rows db))"

text \<open>The second component is the shared index of the registry after the call.\<close>

definition pick_account :: "account_env \<Rightarrow> timestamp \<Rightarrow> pick_hint \<Rightarrow> session_db \<Rightarrow> nat \<Rightarrow> account_row option \<times> nat" where
  "pick_account env now hint db idx =
     (let available = available_accounts env now hint db in
      if available = [] then (None, idx)
      else if length available = 1 then (Some (available ! 0), idx)
      else let idx' = (idx + 1) mod length available in (Some (available ! idx'), idx'))"

definition mark_limited ::
  "account_env \<Rightarrow> timestamp \<Rightarrow> string \<Rightarrow> string \<Rightarrow> int \<Rightarrow> bool \<Rightarrow> session_db \<Rightarrow> (string \<times> json) list \<times> session_db" where
  "mark_limited env now account_id session_id cooldown_minutes auto_switch db =
     (let until = ae_to_rfc3339 env (now + secs (60 * cooldown_minutes));
          db1 = set_account_limited account_id (Some until) db
      in ([if auto_switch
           then (''session.accountSwitched'',
             JObject [(''sessionId'', JString session_id), (''accountId'', JString account_id), (''reason'', JString ''rate_limited'')])
           else (''session.accountLimited'',
             JObject [(''sessionId'', JString session_id), (''accountId'', JString account_id), (''requiresManualSwitch'', JBool True),
               (''limitedUntil'', JString until)])], db1))"

definition clear_limit :: "string \<Rightarrow> session_db \<Rightarrow> session_db" where
  "clear_limit account_id db = set_account_limited account_id None db"

definition check_account_limit :: "nat \<Rightarrow> session_db \<Rightarrow> (unit, string) result" where
  "check_account_limit max_accounts db =
     (if max_accounts = 0 then Ok ()
      else if max_accounts \<le> length (list_account_rows db)
      then Err (''account limit reached ('' @ show_nat max_accounts @ '' max) - remove an existing account before adding a new one'')
      else Ok ())"

definition count_available_accounts :: "account_env \<Rightarrow> timestamp \<Rightarrow> string option \<Rightarrow> session_db \<Rightarrow> nat" where
  "count_available_accounts env now provider db =
     length (filter (\<lambda>a.
       if \<not> matches_hint provider a then False
       else case ac_limited_until a of
              Some limited_until \<Rightarrow> (case ae_parse_utc env limited_until of Some until \<Rightarrow> until \<le> now | None \<Rightarrow> True)
            | None \<Rightarrow> True) (list_account_rows db))"

section \<open>Signals\<close>

definition in_quotes :: "string \<Rightarrow> string" where
  "in_quotes s = [CHR 0x22] @ s @ [CHR 0x22]"

definition error_type_signals :: "string list" where
  "error_type_signals =
     [in_quotes ''type'' @ '':'' @ in_quotes ''rate_limit_error'',
      in_quotes ''type'' @ '': '' @ in_quotes ''rate_limit_error'',
      in_quotes ''error_type'' @ '':'' @ in_quotes ''rate_limit'']"

definition status_signals :: "string list" where
  "status_signals =
     [''status: 429'', ''status'' @ [CHR 0x22] @ '':429'', ''status'' @ [CHR 0x22] @ '': 429'', ''http 429'', ''statuscode: 429'']"

definition detect_limit_signal :: "string \<Rightarrow> int option" where
  "detect_limit_signal text =
     (let lower = lowercase text in
      if list_ex (contains lower) error_type_signals then Some 60
      else if list_ex (contains lower) status_signals then Some 60
      else if contains lower ''rate limit'' \<or> contains lower ''rate_limit'' then Some 60
      else if contains lower ''too many requests'' then Some 60
      else if contains lower ''quota exceeded'' \<or> contains lower ''usage limit'' then Some 240
      else if contains lower ''overloaded'' \<and> contains lower ''capacity'' then Some 15
      else None)"

section \<open>Calls\<close>

record account_call_env =
  ace_new_id :: string
  ace_event_id :: string
  ace_now :: timestamp
  ace_json_text :: "json \<Rightarrow> string"
  ace_show_time :: "timestamp \<Rightarrow> string"
  ace_show_error :: "task_error \<Rightarrow> string"

definition string_or_null :: "string option \<Rightarrow> json" where
  "string_or_null s = (case s of Some x \<Rightarrow> JString x | None \<Rightarrow> JNull)"

definition account_json :: "account_row \<Rightarrow> json" where
  "account_json a =
     JObject [(''id'', JString (ac_id a)), (''name'', JString (ac_name a)), (''provider'', JString (ac_provider a)),
       (''credentialsPath'', JString (ac_credentials_path a)), (''priority'', JNumber (show_int (ac_priority a))),
       (''limitedUntil'', string_or_null (ac_limited_until a))]"

definition rpc_account_list :: "session_db \<Rightarrow> json" where
  "rpc_account_list db = JObject [(''accounts'', JArray (map account_json (list_account_rows db)))]"

definition log_account_call ::
  "account_call_env \<Rightarrow> string \<Rightarrow> string \<Rightarrow> string option \<Rightarrow> json \<Rightarrow> session_db \<Rightarrow> (json, string) result \<times> session_db" where
  "log_account_call env account_id event_type metadata answer db =
     (case log_account_event (ace_event_id env) (ace_now env) account_id event_type metadata db of
        (Err e, db1) \<Rightarrow> (Err (ace_show_error env e), db1)
      | (Ok _, db1) \<Rightarrow> (Ok answer, db1))"

definition rpc_account_create :: "account_call_env \<Rightarrow> json \<Rightarrow> session_db \<Rightarrow> (json, string) result \<times> session_db" where
  "rpc_account_create env params db =
     (case get_str params ''name'' of
        None \<Rightarrow> (Err ''INVALID_PARAMS: missing name'', db)
      | Some name \<Rightarrow>
     (case get_str params ''provider'' of
        None \<Rightarrow> (Err ''INVALID_PARAMS: missing provider'', db)
      | Some provider \<Rightarrow>
     (case get_str params ''credentialsPath'' of
        None \<Rightarrow> (Err ''INVALID_PARAMS: missing credentialsPath'', db)
      | Some credentials_path \<Rightarrow>
          (let priority = (case get_i64 params ''priority'' of Some p \<Rightarrow> p | None \<Rightarrow> 100) in
           case create_account (ace_new_id env) name provider credentials_path priority db of
             (Err e, db1) \<Rightarrow> (Err (ace_show_error env e), db1)
           | (Ok a, db1) \<Rightarrow> log_account_call env (ac_id a) ''created'' None (JObject [(''account'', account_json a)]) db1))))"

definition rpc_account_delete :: "account_call_env \<Rightarrow> json \<Rightarrow> session_db \<Rightarrow> (json, string) result \<times> session_db" where
  "rpc_account_delete env params db =
     (case get_str params ''id'' of
        None \<Rightarrow> (Err ''INVALID_PARAMS: missing id'', db)
      | Some i \<Rightarrow>
          (case get_account_row i db of
             None \<Rightarrow> (Err (''ACCOUNT_NOT_FOUND: '' @ i), db)
           | Some a \<Rightarrow> log_account_call env i ''deleted'' None (JObject [(''deleted'', JBool True)]) (delete_account i db)))"

definition rpc_account_set_priority :: "account_call_env \<Rightarrow> json \<Rightarrow> session_db \<Rightarrow> (json, string) result \<times> session_db" where
  "rpc_account_set_priority env params db =
     (case get_str params ''id'' of
        None \<Rightarrow> (Err ''INVALID_PARAMS: missing id'', db)
      | Some i \<Rightarrow>
     (case get_i64 params ''priority'' of
        None \<Rightarrow> (Err ''INVALID_PARAMS: missing priority'', db)
      | Some priority \<Rightarrow>
          (case get_account_row i db of
             None \<Rightarrow> (Err (''ACCOUNT_NOT_FOUND: '' @ i), db)
           | Some old \<Rightarrow>
               log_account_call env i ''priority_changed''
                 (Some (ace_json_text env (JObject [(''oldPriority'', JNumber (show_int (ac_priority old))),
                    (''newPriority'', JNumber (show_int priority))])))
                 (JObject [(''updated'', JBool True), (''id'', JString i), (''priority'', JNumber (show_int priority))])
                 (update_account_priority i priority db))))"

definition account_event_json :: "(timestamp \<Rightarrow> string) \<Rightarrow> account_event_row \<Rightarrow> json" where
  "account_event_json show_time e =
     JObject [(''id'', JString (ax_id e)), (''accountId'', JString (ax_account_id e)), (''eventType'', JString (ax_event_type e)),
       (''metadata'', string_or_null (ax_metadata e)), (''createdAt'', JString (show_time (ax_created_at e)))]"

definition rpc_account_history :: "account_call_env \<Rightarrow> json \<Rightarrow> session_db \<Rightarrow> json" where
  "rpc_account_history env params db =
     (let account_id = get_str params ''accountId'';
          limit = min 500 (max 1 (case get_i64 params ''limit'' of Some l \<Rightarrow> l | None \<Rightarrow> 50))
      in JObject [(''events'', JArray (map (account_event_json (ace_show_time env)) (list_account_events account_id limit db)))])"

section \<open>Which accounts are picked\<close>

lemma available_iff:
  "a \<in> set (available_accounts env now hint db) \<longleftrightarrow>
     a \<in> set (sd_accounts db) \<and> \<not> currently_limited (ae_parse_rfc3339 env) now a \<and> matches_hint (ph_provider hint) a"
  by (auto simp: available_accounts_def list_account_rows_def)

text \<open>A picked account exists, is not limited and has the provider asked for; nothing is picked only when there is none.\<close>

lemma pick_account_iff:
  "fst (pick_account env now hint db idx) = None \<longleftrightarrow> available_accounts env now hint db = []"
  by (simp add: pick_account_def)

lemma picked_is_available:
  assumes "fst (pick_account env now hint db idx) = Some a"
  shows "a \<in> set (available_accounts env now hint db)"
  using assms by (auto simp: pick_account_def split: if_splits)

primrec pick_many :: "nat \<Rightarrow> account_env \<Rightarrow> timestamp \<Rightarrow> pick_hint \<Rightarrow> session_db \<Rightarrow> nat \<Rightarrow> account_row option list" where
  "pick_many 0 env now hint db idx = []"
| "pick_many (Suc k) env now hint db idx =
     (let (a, idx') = pick_account env now hint db idx in a # pick_many k env now hint db idx')"

lemma pick_account_rotate:
  assumes "available_accounts env now hint db \<noteq> []"
  shows "fst (pick_account env now hint db idx) =
      Some (available_accounts env now hint db ! (Suc idx mod length (available_accounts env now hint db)))"
    and "snd (pick_account env now hint db idx) mod length (available_accounts env now hint db) =
      (if length (available_accounts env now hint db) = 1 then 0 else Suc idx mod length (available_accounts env now hint db))"
  using assms by (auto simp: pick_account_def)

lemma pick_many_nth:
  assumes "available_accounts env now hint db = accounts" and "accounts \<noteq> []"
  shows "pick_many k env now hint db idx = map (\<lambda>i. Some (accounts ! ((Suc idx + i) mod length accounts))) [0..<k]"
proof (induction k arbitrary: idx)
  case (Suc k)
  obtain a idx' where p: "pick_account env now hint db idx = (a, idx')" by fastforce
  have a: "a = Some (accounts ! (Suc idx mod length accounts))"
    using pick_account_rotate(1) [of env now hint db idx] assms p by simp
  have i: "idx' mod length accounts = Suc idx mod length accounts"
    using pick_account_rotate(2) [of env now hint db idx] assms p by (auto split: if_splits)
  have "(Suc idx' + j) mod length accounts = (Suc idx + Suc j) mod length accounts" for j
    using mod_add_cong [OF i refl, of "Suc j"] by simp
  then show ?case
    unfolding pick_many.simps p using Suc.IH [of idx'] a by (simp add: upt_conv_Cons map_Suc_upt [symmetric] comp_def del: upt_Suc)
qed simp

text \<open>
  Round robin: as many picks as there are available accounts return each of them once, in the order of priority,
  beginning after the index.
\<close>

theorem round_robin:
  "pick_many (length (available_accounts env now hint db)) env now hint db idx =
     map Some (rotate (Suc idx) (available_accounts env now hint db))"
proof (cases "available_accounts env now hint db = []")
  case False
  show ?thesis
    by (rule nth_equalityI) (simp_all add: pick_many_nth [OF refl False] nth_rotate False del: rotate_Suc)
qed simp

text \<open>
  An account that is marked rests for the cooldown and is available again after it, for every session and
  provider, provided that the printed time reads back.
\<close>

theorem limited_account_rests:
  assumes "ae_parse_rfc3339 env (ae_to_rfc3339 env (t + secs (60 * minutes))) = Some (t + secs (60 * minutes))"
    and "snd (mark_limited env t account_id session_id minutes auto_switch db) = db'"
  shows "(\<exists>a \<in> set (available_accounts env now hint db'). ac_id a = account_id) \<longleftrightarrow>
    t + secs (60 * minutes) \<le> now \<and> (\<exists>a \<in> set (sd_accounts db). ac_id a = account_id \<and> matches_hint (ph_provider hint) a)"
proof -
  let ?f = "\<lambda>a. a\<lparr>ac_limited_until := Some (ae_to_rfc3339 env (t + secs (60 * minutes)))\<rparr>"
  have db': "set (sd_accounts db') = (\<lambda>a. if ac_id a = account_id then ?f a else a) ` set (sd_accounts db)"
    using assms(2) by (auto simp: mark_limited_def set_account_limited_def set_where_def)
  have "(\<exists>a \<in> set (available_accounts env now hint db'). ac_id a = account_id) \<longleftrightarrow>
      (\<exists>a \<in> set (sd_accounts db). ac_id a = account_id \<and> \<not> currently_limited (ae_parse_rfc3339 env) now (?f a) \<and>
        matches_hint (ph_provider hint) (?f a))"
    unfolding Bex_def available_iff db' by (auto simp: image_iff split: if_splits)
  moreover have "currently_limited (ae_parse_rfc3339 env) now (?f a) \<longleftrightarrow> now < t + secs (60 * minutes)" for a
    using assms(1) by (simp add: currently_limited_def)
  moreover have "matches_hint (ph_provider hint) (?f a) = matches_hint (ph_provider hint) a" for a
    by (simp add: matches_hint_def split: option.split)
  ultimately show ?thesis by (auto simp: not_less)
qed

section \<open>The calls keep the tables in order\<close>

definition accounts_ok :: "session_db \<Rightarrow> bool" where
  "accounts_ok db \<longleftrightarrow> distinct (map ac_id (sd_accounts db)) \<and> distinct (map ax_id (sd_account_events db))"

lemma log_event_rows:
  "accounts_ok db \<Longrightarrow> accounts_ok (snd (log_account_call env account_id event_type metadata answer db)) \<and>
     sd_accounts (snd (log_account_call env account_id event_type metadata answer db)) = sd_accounts db"
  by (auto simp: log_account_call_def log_account_event_def accounts_ok_def insert_row_def no_check_def)

lemma accounts_ok_delete: "accounts_ok db \<Longrightarrow> accounts_ok (delete_account i db)"
  by (simp add: accounts_ok_def delete_account_def delete_where_def distinct_map_filter)

lemma accounts_ok_priority: "accounts_ok db \<Longrightarrow> accounts_ok (update_account_priority i p db)"
  by (auto simp: accounts_ok_def update_account_priority_def set_where_def comp_def if_distrib cong: if_cong)

text \<open>A deleted account is gone, and the others are as they were; the event that records it is kept.\<close>

theorem deleted_account_gone:
  assumes "accounts_ok db" and "rpc_account_delete env params db = (Ok answer, db')"
  shows "\<exists>i. get_str params ''id'' = Some i \<and> get_account_row i db \<noteq> None \<and>
    sd_accounts db' = filter (\<lambda>a. ac_id a \<noteq> i) (sd_accounts db) \<and> accounts_ok db'"
proof -
  obtain i where i: "get_str params ''id'' = Some i" "get_account_row i db \<noteq> None"
    "log_account_call env i ''deleted'' None (JObject [(''deleted'', JBool True)]) (delete_account i db) = (Ok answer, db')"
    using assms(2) by (auto simp: rpc_account_delete_def split: option.splits)
  have "accounts_ok db' \<and> sd_accounts db' = sd_accounts (delete_account i db)"
    using log_event_rows [OF accounts_ok_delete [OF assms(1)], of env i "''deleted''" None "JObject [(''deleted'', JBool True)]" i]
    unfolding i(3) by simp
  with i(1,2) show ?thesis by (simp add: delete_account_def delete_where_def)
qed

section \<open>Behaviours worth knowing\<close>

definition example_account :: "string \<Rightarrow> string \<Rightarrow> int \<Rightarrow> account_row" where
  "example_account i provider priority =
     \<lparr>ac_id = i, ac_name = i, ac_provider = provider, ac_credentials_path = [], ac_priority = priority, ac_limited_until = None\<rparr>"

definition sample_pool :: session_db where
  "sample_pool = empty_session_db\<lparr>sd_accounts := [example_account ''a'' ''claude'' 1, example_account ''b'' ''claude'' 2,
     example_account ''c'' ''codex'' 1, example_account ''d'' ''codex'' 2]\<rparr>"

text \<open>The first pick of a fresh registry is not the account of highest priority but the second.\<close>

lemma first_pick_is_second:
  "map_option ac_id (fst (pick_account env now \<lparr>ph_provider = Some ''claude''\<rparr> sample_pool 0)) = Some ''b''"
  by (simp add: pick_account_def available_accounts_def list_account_rows_def sample_pool_def example_account_def
      currently_limited_def matches_hint_def)

text \<open>
  The index is shared by the providers: when sessions of two providers with two accounts each alternate, one account
  of each is never picked.
\<close>

lemma shared_index_starves:
  "snd (pick_account env now \<lparr>ph_provider = Some ''codex''\<rparr> sample_pool
     (snd (pick_account env now \<lparr>ph_provider = Some ''claude''\<rparr> sample_pool 0))) = 0"
  by (simp add: pick_account_def available_accounts_def list_account_rows_def sample_pool_def example_account_def
      currently_limited_def matches_hint_def)

text \<open>Any text that speaks of a rate limit counts as a signal.\<close>

lemma signal_in_prose: "detect_limit_signal ''add a rate limit to the login page'' = Some 60"
  by (simp add: detect_limit_signal_def error_type_signals_def status_signals_def in_quotes_def lowercase_def lower_char_def)

text \<open>The creation call never asks for the limit on accounts.\<close>

lemma limit_not_enforced:
  "check_account_limit 4 sample_pool \<noteq> Ok () \<and>
   length (sd_accounts (snd (rpc_account_create \<lparr>ace_new_id = ''e'', ace_event_id = ''1'', ace_now = 0, ace_json_text = \<lambda>_. [],
     ace_show_time = \<lambda>_. [], ace_show_error = \<lambda>_. []\<rparr>
     (JObject [(''name'', JString ''e''), (''provider'', JString ''codex''), (''credentialsPath'', JString ''p'')]) sample_pool))) = 5"
  by (simp add: check_account_limit_def list_account_rows_def sample_pool_def example_account_def rpc_account_create_def get_str_def
      get_i64_def get_member_def create_account_def insert_row_def no_check_def read_back_def get_account_row_def select_by_def
      log_account_call_def log_account_event_def empty_session_db_def)

end
