(* ===== verification/Spec2Isabelle.thy ===== *)
theory Spec2Isabelle
  imports Task_Replay Circuit_Breaker Retry Scheduler_Queue Fallback Sandbox Approval_Router Patch_Scanner
    Task_Tools_Props Engine_Interleave Task_Rpc_Props Relay_Client Completion_Props Session_Rpc
    Topology_Props Mailbox_Props Dead_Letter Account_Registry
begin

text \<open>
  Verification of the core of the ClawDE daemon (\<^verbatim>\<open>src/apps/daemon/src\<close>), the Rust process that queues tasks
  for AI agents, decides what an agent may do, and talks to agents (over MCP) and to the ClawDE apps (over a
  JSON-RPC protocol). All paths below are relative to that directory.

  \<^bold>\<open>The parts and how they interact.\<close> An agent calls a tool over MCP. The dispatcher (\<^verbatim>\<open>mcp/dispatch.rs\<close>) asks the
  policy gate (\<^verbatim>\<open>mcp/policy_gate.rs\<close>, \<^verbatim>\<open>policy/\<close>) whether the call may run, and runs the tool
  (\<^verbatim>\<open>mcp/tools/\<close>). The tool works on the task store (\<^verbatim>\<open>tasks/storage.rs\<close>), an SQLite database of tasks, agents and
  activity, on which background jobs (\<^verbatim>\<open>tasks/jobs.rs\<close>, \<^verbatim>\<open>tasks/janitor.rs\<close>) and the apps' calls
  (\<^verbatim>\<open>ipc/handlers/\<close>) work as well. Beside the store stands the event-sourced task engine (\<^verbatim>\<open>tasks/reducer.rs\<close>,
  \<^verbatim>\<open>event_log.rs\<close>, \<^verbatim>\<open>checkpoint.rs\<close>, \<^verbatim>\<open>replay.rs\<close>), which keeps a task as a log of events with checkpoints. The
  scheduler (\<^verbatim>\<open>scheduler/\<close>) orders requests to AI providers and picks an account for each; the circuit breaker and
  the retry helper protect the calls to providers. The apps reach the daemon over local connections
  (\<^verbatim>\<open>ipc/mod.rs\<close>) or through a relay (\<^verbatim>\<open>relay/\<close>); other devices are paired with a PIN (\<^verbatim>\<open>pairing/\<close>). The apps talk to
  providers in sessions (\<^verbatim>\<open>session/\<close>), which are kept with their messages in the daemon's tables (\<^verbatim>\<open>storage/\<close>).

  \<^bold>\<open>Theories.\<close>
  \<^item> \<open>Prelude\<close>: results, orderings, runs of fallible steps, saturating words; the locales \<open>fallible_machine\<close> and
    \<open>monotone_machine\<close> state what a step function promises to whoever runs it. \<open>Rust_Strings\<close>: the string functions
    the code uses. \<open>Sql_Table\<close>: SQL statements on tables as lists of rows; the locale \<open>keyed_update\<close> is an
    \<^verbatim>\<open>UPDATE\<close> that keeps the primary key.
  \<^item> \<open>Task_Reducer\<close>, \<open>Task_Event_Log\<close>, \<open>Task_Checkpoint\<close>, \<open>Task_Replay\<close>: the task engine. The approval
    gate cannot be passed, terminal states absorb, writing needs a claim and an activation; the log reads back what was
    appended (except for checkpoint events, which do not serialise to readable lines) and survives a torn last line for
    reading (not for appending); replay from a checkpoint equals full replay, and the state in memory equals the state on disk in every interleaving of writes, refused
    writes, checkpoints and crashes.
  \<^item> \<open>Task_Tables\<close>, \<open>Task_Storage\<close>: the tables with the constraints of the migrations, and every operation of the
    store, the leases and the jobs. \<open>Task_Store_Inv\<close>: all operations keep the schema. \<open>Task_Claims\<close>: what an operation
    can do to one row, exclusive claims, the task of a vanished holder, the leases. \<open>Task_Queries\<close>: archiving, the
    heartbeat checker, the task list and the activity query.
  \<^item> \<open>Engine_Store\<close>, \<open>Engine_Props\<close>: the second engine (\<^verbatim>\<open>task_engine/\<close>) with phases, a checked life cycle and an event
    log per task: events without gaps, the most urgent task is claimed first, and a task put back into the queue stays
    with its agent. \<open>Engine_Interleave\<close> has its transitions and events statement by statement: a task is done only after
    review and QA in every interleaving, while a concurrent event can be lost.
  \<^item> \<open>Glob_Match\<close>, \<open>Ownership\<close> (\<^verbatim>\<open>tasks/ownership.rs\<close>): the glob matcher terminates and accepts what the
    pattern is documented to accept, and more only where a single star meets a slash; scopes and their overlaps.
  \<^item> \<open>Policy_Rules\<close>, \<open>Sandbox\<close>, \<open>Redaction\<close>, \<open>Supply_Chain\<close>, \<open>Approval_Router\<close>, \<open>Patch_Scanner\<close> (\<^verbatim>\<open>policy/\<close>,
    \<^verbatim>\<open>telemetry/redact.rs\<close>, \<^verbatim>\<open>evals/scanners/\<close>): risk, roles and trust; paths inside the worktree; secrets in arguments
    and outputs; pinned server fingerprints; pending approvals as a state machine; scanners over diffs.
  \<^item> \<open>Policy_Gate\<close>: the gate as the conjunction of all checks, and the dispatcher: an effect was authorised.
  \<^item> \<open>Task_Tools\<close>, \<open>Task_Tools_Props\<close>: the MCP tools and the approval calls on the store, run through the real
    dispatcher: what MCP clients alone can and cannot reach.
  \<^item> \<open>Worktrees\<close>, \<open>Worktrees_Props\<close> (\<^verbatim>\<open>worktree/\<close>): the worktree manager, merging, cleaning up and the health report,
    over an arbitrary repository. The locale \<open>sibling_dirs\<close> states that directories named after tasks are disjoint;
    worktrees of tasks with plain names are isolated for paths without parent references, paths have one owner, cleaning up removes done worktrees only.
    \<open>Worktree_Rpc\<close>: the stored rows and the \<^verbatim>\<open>worktrees.*\<close> calls.
  \<^item> \<open>Stub_Gate\<close>, \<open>Task_Rpc\<close>, \<open>Task_Rpc_Props\<close> (\<^verbatim>\<open>tasks/stub_gate.rs\<close>, \<^verbatim>\<open>ipc/handlers/tasks.rs\<close>,
    \<^verbatim>\<open>tasks/queue_serializer.rs\<close>): the \<^verbatim>\<open>tasks.*\<close> calls on the store, the manager and the stub gate. Every reachable
    state of the daemon is one the store's own operations reach; the call that sets a status passes the gates (the
    import of a planning document does not); the CSV export reads back; a restart loses the worktrees.
  \<^item> \<open>Pairing\<close>, \<open>Pairing_Props\<close> (\<^verbatim>\<open>pairing/\<close>): PINs, devices and their calls; PINs are uniform, a PIN admits one device
    at most, a revoked token stays refused. \<open>Ipc_Server\<close>, \<open>Ipc_Props\<close> (\<^verbatim>\<open>ipc/mod.rs\<close>): the limiters, the handshake,
    the dispatcher over the modelled handlers and the error codes; a call without a valid token reaches no handler,
    and pairing keeps its bound over every sequence of requests. \<open>Relay\<close>, \<open>Relay_Props\<close> (\<^verbatim>\<open>relay/\<close>): the encrypted
    session and the events of a connection (its start, frames, events of the broadcaster); replays are refused, nothing
    runs before the key exchange and nothing leaves unsealed but the registration and the public key. \<open>Relay_Client\<close>
    (\<^verbatim>\<open>src/apps/packages-flutter-archive/clawd_client/lib/src/relay_crypto.dart\<close>): the other end, in the client library;
    the two agree on keys, nonces and texts.
  \<^item> \<open>Completion\<close>, \<open>Completion_Props\<close> (\<^verbatim>\<open>completion/\<close>, \<^verbatim>\<open>ipc/handlers/completion.rs\<close>): the code completion call. The
    locale \<open>bounded_cache\<close> states what its cache promises: it holds the most recently used keys and answers with the
    value stored last; fenced answers of a provider are unwrapped and the context names the nearest definition.
  \<^item> \<open>Session_Store\<close>, \<open>Session_Store_Props\<close> (\<^verbatim>\<open>storage/mod.rs\<close>): the tables of sessions, messages, tool calls, accounts
    and settings; all operations keep keys, references and the full-text index in step, pages of a conversation add up
    to the conversation, recovery and pruning touch the sessions they are meant for. \<open>Session_Runner\<close>,
    \<open>Session_Manager\<close>, \<open>Session_Props\<close> (\<^verbatim>\<open>session/\<close>): a turn of a provider as a machine over the lines its program
    prints, the calls of the manager, and their interleavings: in calm histories one turn works on a session at a time
    and the session is free again when it ends, whichever step ends it; seven theorems show what happens otherwise.
  \<^item> \<open>Tool_Guard\<close>, \<open>Session_Rpc\<close> (\<^verbatim>\<open>security/guard.rs\<close>, \<^verbatim>\<open>ipc/handlers/session.rs\<close>, \<^verbatim>\<open>tool.rs\<close>): confined paths, no
    credentials in the audit, the lists of tools; a tool call is approved only if mode, scopes and lists allow
    it, for a client that names the session of the call.
  \<^item> \<open>Topology\<close>, \<open>Topology_Props\<close> (\<^verbatim>\<open>topology/\<close>): the graph of repositories; its table is a map from pairs of paths, and
    the search reports exactly the cycles of the edge relation. \<open>Mailbox\<close>, \<open>Mailbox_Props\<close> (\<^verbatim>\<open>mailbox/\<close>): messages
    between repositories; the file written for a message reads back, ingestion is
    idempotent, and the watcher sees created files only. \<open>Dead_Letter\<close>
    (\<^verbatim>\<open>events/dead_letter.rs\<close>): the queue of failed events, and that its retries run out. \<open>Account_Registry\<close>
    (\<^verbatim>\<open>account/mod.rs\<close>, \<^verbatim>\<open>ipc/handlers/accounts.rs\<close>): picks go round the available accounts, and a limited account
    rests for its cooldown.
  \<^item> \<open>Binary_Heap\<close>, \<open>Scheduler_Queue\<close>, \<open>Rate_Limits\<close>, \<open>Account_Pool\<close>, \<open>Fallback\<close> (\<^verbatim>\<open>scheduler/\<close>): the heap and the
    priority queue; sliding windows against the full history; account selection and fallback over providers.
  \<^item> \<open>Circuit_Breaker\<close>, \<open>Retry\<close>: the breaker as a state machine of any number of callers, and the backoff loop.

  \<^bold>\<open>Conventions.\<close> Every definition takes its name from the code where HOL allows it. State is passed explicitly;
  errors are values of the type \<open>result\<close> or of an error datatype, so every early return is a branch. Strings are
  lists of characters; a dash that the source writes as a Unicode character is a hyphen in messages. Times are
  integers; \<^verbatim>\<open>u64\<close> counters whose overflow matters are words. Concurrency: the circuit breaker, pending approvals, the
  transitions and events of the second engine, and the events of a relay connection interleave at the granularity of lock
  sections or database statements, and the turns of sessions interleave with the calls and with claims that come late.
  Every other call is one step. Where the code of such a call has a gap between a check and a write, the two halves are
  definitions of their own and a theorem shows what another call in the gap does (\<open>late_claim_refused\<close>,
  \<open>provider_check_races\<close>, \<open>archive_drops_reopened_task\<close>). A time that the code reads before a lock is an argument. Loops that are not structural have a termination proof or, like
  the glob matcher and the drawing of a PIN, are \<^verbatim>\<open>partial_function\<close>s with a theorem that says when they return;
  there is no fuel.

  \<^bold>\<open>Parameters.\<close> Code outside the repository is an argument: the JSON library (with the law that printing and
  parsing agree where a property needs it), SHA-256, the regular-expression engine and the entropy test, path
  canonicalisation and the file system, the git library, random numbers, ids and the clock, and the cryptography of
  the relay (\<open>same_standards\<close> states what both of its ends rely on). The handlers the dispatcher calls that are not modelled are a parameter as well, with
  access to everything but the pairing tables. SQLite itself is
  modelled by the meaning of the statements and constraints the code uses; rows that a query leaves unordered come
  in the order of the table.

  \<^bold>\<open>Not modelled.\<close> Transport and processes: sockets and web sockets, mDNS, updates, the CLI, the language
  server and editor bridges, the processes of the providers (a turn takes the lines they print), the packs
  marketplace, licensing, telemetry upload, the desktop and mobile apps and the web site. They are mostly I/O around
  external programs. Floating-point scores (\<^verbatim>\<open>intelligence/\<close>, cost estimates) are left out as well.

  \<^bold>\<open>Plan.\<close> Next in order: the protocol calls of the task engine and the remaining handlers of the protocol,
  threads, agents and the license; further calls statement by statement.
\<close>

end
